(* ===== verification/Pootown_Prelude.thy ===== *)
theory Pootown_Prelude
  imports Main "HOL-Library.Word"
begin

text \<open>
  Shared vocabulary of the development: JavaScript's array reads, index-aware \<open>map\<close> and
  \<open>every\<close>, safe integers and thrown exceptions as HOL functions, with the generic lemmas the
  components rest on.

  Conventions used everywhere. A TypeScript \<open>number\<close> that the program only uses as an integer is
  an \<open>int\<close>, a \<open>bigint\<close> is an \<open>int\<close>; the runtime checks \<open>Number.isInteger\<close>, \<open>typeof\<close>,
  \<open>Array.isArray\<close>, \<open>isPlainObject\<close> and \<open>hasExactOwnKeys\<close> hold by typing of the HOL records and
  are not repeated, \<open>Number.isSafeInteger\<close> is the range check \<open>isSafeInteger\<close> below.
  (A double that overflows the safe range is rounded to a value outside that range, so a range
  check after an addition of safe integers decides the same on \<open>int\<close>.)
  \<open>Object.freeze\<close> and object spreads that only copy are the identity on immutable HOL values.
\<close>

named_theorems js_simps \<open>rewriting of the JavaScript library functions\<close>
named_theorems policy_simps \<open>the constants of the ruleset\<close>
named_theorems table_simps \<open>closed facts about the board and card tables\<close>

section \<open>Exceptions and results\<close>

datatype exn = RangeError | TypeError | PlainError

text \<open>A call that may throw has type \<open>exn + 'a\<close>; a rule that answers with an error code of its
  own returns \<open>exn + ('e + 'a)\<close>.\<close>

type_synonym ('e, 'a) outcome = "exn + ('e + 'a)"

abbreviation Fail :: "'e \<Rightarrow> ('e, 'a) outcome" where
  "Fail c \<equiv> Inr (Inl c)"

abbreviation Done :: "'a \<Rightarrow> ('e, 'a) outcome" where
  "Done r \<equiv> Inr (Inr r)"

section \<open>Safe integers\<close>

definition MAX_SAFE_INTEGER :: int where
  "MAX_SAFE_INTEGER = 9007199254740991"

definition isSafeInteger :: "int \<Rightarrow> bool" where
  "isSafeInteger x \<longleftrightarrow> - MAX_SAFE_INTEGER \<le> x \<and> x \<le> MAX_SAFE_INTEGER"

text \<open>JavaScript's \<open>%\<close> truncates towards zero.\<close>

definition js_rem :: "int \<Rightarrow> int \<Rightarrow> int" where
  "js_rem a b = (if 0 \<le> a then a mod \<bar>b\<bar> else - ((- a) mod \<bar>b\<bar>))"

lemma js_rem_wrap:
  assumes "0 < b"
  shows "js_rem (js_rem a b + b) b = a mod b"
proof (cases "0 \<le> a")
  case True
  with assms have "0 \<le> a mod b" by simp
  with True assms show ?thesis by (simp add: js_rem_def)
next
  case False
  from assms have lt: "(- a) mod b < b" by simp
  from assms have ge: "0 \<le> (- a) mod b" by simp
  have "(- ((- a) mod b) + b) mod b = a mod b"
    by (simp add: mod_minus_eq)
  moreover have "0 \<le> - ((- a) mod b) + b" using lt by linarith
  ultimately show ?thesis using False assms by (simp only: js_rem_def if_True if_False abs_of_pos)
qed

section \<open>Array reads\<close>

text \<open>\<open>xs[i]\<close>: \<open>None\<close> is \<open>undefined\<close>.\<close>

definition js_index :: "'a list \<Rightarrow> int \<Rightarrow> 'a option" where
  "js_index xs i = (if 0 \<le> i \<and> i < int (length xs) then Some (xs ! nat i) else None)"

lemma js_index_Some_iff:
  "js_index xs i = Some x \<longleftrightarrow> 0 \<le> i \<and> i < int (length xs) \<and> xs ! nat i = x"
  by (auto simp: js_index_def)

lemma js_index_None_iff: "js_index xs i = None \<longleftrightarrow> \<not> (0 \<le> i \<and> i < int (length xs))"
  by (auto simp: js_index_def)

lemma js_index_in_set: "js_index xs i = Some x \<Longrightarrow> x \<in> set xs"
  by (auto simp: js_index_Some_iff)

lemma js_index_nat [simp]: "k < length xs \<Longrightarrow> js_index xs (int k) = Some (xs ! k)"
  by (simp add: js_index_def)

text \<open>A slot array holds \<open>null\<close> in its empty slots; \<open>seat_at\<close> reads an occupied slot and is
  \<open>None\<close> for both \<open>null\<close> and \<open>undefined\<close>.\<close>

definition seat_at :: "'a option list \<Rightarrow> int \<Rightarrow> 'a option" where
  "seat_at xs i = (case js_index xs i of None \<Rightarrow> None | Some slot \<Rightarrow> slot)"

lemma seat_at_Some_iff:
  "seat_at xs i = Some x \<longleftrightarrow> 0 \<le> i \<and> i < int (length xs) \<and> xs ! nat i = Some x"
  by (auto simp: seat_at_def js_index_def)

lemma seat_at_nat: "k < length xs \<Longrightarrow> seat_at xs (int k) = xs ! k"
  by (simp add: seat_at_def)

lemma seat_at_in_set: "seat_at xs i = Some x \<Longrightarrow> Some x \<in> set xs"
  by (auto simp: seat_at_Some_iff in_set_conv_nth nat_less_iff intro!: exI [of _ "nat i"])

lemma js_index_Cons: "js_index (x # xs) i = (if i = 0 then Some x else js_index xs (i - 1))"
  by (auto simp: js_index_def nth_Cons' nat_diff_distrib)

lemma seat_at_Cons: "seat_at (x # xs) i = (if i = 0 then x else seat_at xs (i - 1))"
  by (simp add: seat_at_def js_index_Cons)

lemma seat_at_Nil [simp]: "seat_at [] i = None"
  by (auto simp: seat_at_def js_index_def)

lemma seat_at_negative [simp]: "i < 0 \<Longrightarrow> seat_at xs i = None"
  by (simp add: seat_at_def js_index_def)

section \<open>Index-aware traversals\<close>

fun map_from :: "int \<Rightarrow> (int \<Rightarrow> 'a \<Rightarrow> 'b) \<Rightarrow> 'a list \<Rightarrow> 'b list" where
  "map_from i f [] = []"
| "map_from i f (x # xs) = f i x # map_from (i + 1) f xs"

definition map_index :: "(int \<Rightarrow> 'a \<Rightarrow> 'b) \<Rightarrow> 'a list \<Rightarrow> 'b list" where
  "map_index f xs = map_from 0 f xs"

fun every_from :: "int \<Rightarrow> (int \<Rightarrow> 'a \<Rightarrow> bool) \<Rightarrow> 'a list \<Rightarrow> bool" where
  "every_from i P [] = True"
| "every_from i P (x # xs) = (P i x \<and> every_from (i + 1) P xs)"

definition every_index :: "(int \<Rightarrow> 'a \<Rightarrow> bool) \<Rightarrow> 'a list \<Rightarrow> bool" where
  "every_index P xs = every_from 0 P xs"

lemma length_map_from [simp]: "length (map_from i f xs) = length xs"
  by (induction xs arbitrary: i) auto

lemma nth_map_from: "k < length xs \<Longrightarrow> map_from i f xs ! k = f (i + int k) (xs ! k)"
proof (induction xs arbitrary: i k)
  case Nil
  then show ?case by simp
next
  case (Cons x xs)
  then show ?case by (cases k) (auto simp: algebra_simps)
qed

lemma length_map_index [simp]: "length (map_index f xs) = length xs"
  by (simp add: map_index_def)

lemma nth_map_index [simp]: "k < length xs \<Longrightarrow> map_index f xs ! k = f (int k) (xs ! k)"
  by (simp add: map_index_def nth_map_from)

lemma js_index_map_index [simp]: "js_index (map_index f xs) i = map_option (f i) (js_index xs i)"
  by (auto simp: js_index_def)

lemma js_index_map [simp]: "js_index (map f xs) i = map_option f (js_index xs i)"
  by (auto simp: js_index_def)

lemma every_from_iff: "every_from i P xs \<longleftrightarrow> (\<forall>k < length xs. P (i + int k) (xs ! k))"
proof (induction xs arbitrary: i)
  case Nil
  then show ?case by simp
next
  case (Cons x xs)
  show ?case
    by (simp add: Cons.IH All_less_Suc2 algebra_simps)
qed

lemma every_index_iff: "every_index P xs \<longleftrightarrow> (\<forall>k < length xs. P (int k) (xs ! k))"
  by (simp add: every_index_def every_from_iff)

lemma every_index_js:
  "every_index P xs \<longleftrightarrow> (\<forall>i x. js_index xs i = Some x \<longrightarrow> P i x)"
proof
  assume all: "every_index P xs"
  show "\<forall>i x. js_index xs i = Some x \<longrightarrow> P i x"
  proof (intro allI impI)
    fix i x
    assume "js_index xs i = Some x"
    then have "nat i < length xs" "int (nat i) = i" "xs ! nat i = x"
      by (auto simp: js_index_Some_iff nat_less_iff)
    with all show "P i x" unfolding every_index_iff by metis
  qed
next
  assume "\<forall>i x. js_index xs i = Some x \<longrightarrow> P i x"
  then show "every_index P xs"
    by (auto simp: every_index_iff)
qed

section \<open>Rewriting one seat of a slot array\<close>

text \<open>\<open>players.map((player, index) => player === null ? null : index === seat ? f(player) : player)\<close>,
  the update every handler uses.\<close>

definition update_seat :: "int \<Rightarrow> ('a \<Rightarrow> 'a) \<Rightarrow> 'a option list \<Rightarrow> 'a option list" where
  "update_seat seat f xs =
     map_index (\<lambda>i slot. case slot of None \<Rightarrow> None | Some p \<Rightarrow> Some (if i = seat then f p else p)) xs"

lemma length_update_seat [simp]: "length (update_seat seat f xs) = length xs"
  by (simp add: update_seat_def)

lemma nth_update_seat:
  "k < length xs \<Longrightarrow>
   update_seat seat f xs ! k = (if int k = seat then map_option f (xs ! k) else xs ! k)"
  by (simp add: update_seat_def split: option.split)

lemma seat_at_update_seat [simp]:
  "seat_at (update_seat seat f xs) i = (if i = seat then map_option f (seat_at xs i) else seat_at xs i)"
  by (simp add: update_seat_def seat_at_def split: option.split)

lemma update_seat_eq_list_update:
  assumes "seat_at xs seat = Some p"
  shows "update_seat seat f xs = xs[nat seat := Some (f p)]"
proof (rule nth_equalityI)
  show "length (update_seat seat f xs) = length (xs[nat seat := Some (f p)])" by simp
next
  fix k
  assume "k < length (update_seat seat f xs)"
  with assms show "update_seat seat f xs ! k = xs[nat seat := Some (f p)] ! k"
    by (auto simp: nth_update_seat nth_list_update seat_at_Some_iff)
qed

section \<open>Searching\<close>

lemma find_SomeD: "find P xs = Some x \<Longrightarrow> P x \<and> x \<in> set xs"
  by (auto simp: find_Some_iff)

lemma find_NoneD: "find P xs = None \<Longrightarrow> x \<in> set xs \<Longrightarrow> \<not> P x"
  by (simp add: find_None_iff)

section \<open>Sums over lists\<close>

lemma sum_list_map_update:
  fixes f :: "'a \<Rightarrow> int"
  assumes "k < length xs"
  shows "sum_list (map f (xs[k := y])) = sum_list (map f xs) - f (xs ! k) + f y"
  using assms
proof (induction xs arbitrary: k)
  case Nil
  then show ?case by simp
next
  case (Cons x xs)
  then show ?case by (cases k) auto
qed

end
