(* ===== verification/Domain_Model.thy ===== *)
theory Domain_Model
  imports Pootown_Prelude
begin

text \<open>
  The value types of \<open>packages/game-core\<close>: the constants of \<open>rules/gameplay-policy.ts\<close> and
  \<open>model/game-state.ts\<close>, match cash (\<open>model/money.ts\<close>), opaque identifiers
  (\<open>model/identifiers.ts\<close>), random checkpoints (\<open>ports/random-source.ts\<close>) and the error codes of
  \<open>errors.ts\<close>.
\<close>

section \<open>The ruleset (gameplay-policy.ts, game-state.ts)\<close>

definition GAMEPLAY_RULESET_ID :: string where
  "GAMEPLAY_RULESET_ID = ''pootown-rust-source-v1''"

definition boardSize :: int where [policy_simps]: "boardSize = 40"
definition minimumPlayers :: int where [policy_simps]: "minimumPlayers = 2"
definition maximumPlayers :: int where [policy_simps]: "maximumPlayers = 4"
definition passGoSalary :: int where [policy_simps]: "passGoSalary = 200"
definition turnTimeoutMs :: int where [policy_simps]: "turnTimeoutMs = 90000"
definition maximumMissedTurns :: int where [policy_simps]: "maximumMissedTurns = 3"
definition jailPosition :: int where [policy_simps]: "jailPosition = 10"
definition jailFine :: int where [policy_simps]: "jailFine = 50"
definition maximumJailTurns :: int where [policy_simps]: "maximumJailTurns = 3"
definition goToJailPosition :: int where [policy_simps]: "goToJailPosition = 30"
definition mevTaxPosition :: int where [policy_simps]: "mevTaxPosition = 4"
definition mevTaxAmount :: int where [policy_simps]: "mevTaxAmount = 200"
definition priorityFeeTaxPosition :: int where [policy_simps]: "priorityFeeTaxPosition = 38"
definition priorityFeeTaxAmount :: int where [policy_simps]: "priorityFeeTaxAmount = 75"
definition totalHouses :: int where [policy_simps]: "totalHouses = 32"
definition totalHotels :: int where [policy_simps]: "totalHotels = 12"
definition tradeExpiryMs :: int where [policy_simps]: "tradeExpiryMs = 3600000"
definition maximumActiveTrades :: int where [policy_simps]: "maximumActiveTrades = 20"

definition GAME_SCHEMA_VERSION :: int where [policy_simps]: "GAME_SCHEMA_VERSION = 2"
definition GAMEPLAY_AGGREGATE_SCHEMA_VERSION :: int where
  [policy_simps]: "GAMEPLAY_AGGREGATE_SCHEMA_VERSION = 1"
definition STARTING_MATCH_CASH :: int where [policy_simps]: "STARTING_MATCH_CASH = 1500"
definition STARTING_BANK_CASH :: int where [policy_simps]: "STARTING_BANK_CASH = 1000000"
definition DEFAULT_TURN_TIMEOUT_MS :: int where [policy_simps]: "DEFAULT_TURN_TIMEOUT_MS = 90000"
definition MAX_STATE_VERSION :: int where [policy_simps]: "MAX_STATE_VERSION = 2147483647"

section \<open>Match cash (money.ts)\<close>

definition MAX_MATCH_CASH :: int where
  "MAX_MATCH_CASH = 10 ^ 78 - 1"

text \<open>The constructor of the branded type throws outside the unsigned 78-digit range.\<close>

definition matchCash :: "int \<Rightarrow> exn + int" where
  "matchCash value = (if value < 0 \<or> value > MAX_MATCH_CASH then Inl RangeError else Inr value)"

definition checkedAddMatchCash :: "int \<Rightarrow> int \<Rightarrow> int option" where
  "checkedAddMatchCash left right =
     (let result = left + right in if result \<le> MAX_MATCH_CASH then Some result else None)"

definition checkedSubtractMatchCash :: "int \<Rightarrow> int \<Rightarrow> int option" where
  "checkedSubtractMatchCash left right = (if left \<ge> right then Some (left - right) else None)"

text \<open>The range the brand stands for, tested inline by every validator.\<close>

definition isCash :: "int \<Rightarrow> bool" where
  "isCash value \<longleftrightarrow> 0 \<le> value \<and> value \<le> MAX_MATCH_CASH"

lemma MAX_MATCH_CASH_large: "1000000000 \<le> MAX_MATCH_CASH"
  by (simp add: MAX_MATCH_CASH_def)

lemma isCash_small: "0 \<le> v \<Longrightarrow> v \<le> 1000000000 \<Longrightarrow> isCash v"
  using MAX_MATCH_CASH_large by (simp add: isCash_def)

lemma isCash_0 [simp]: "isCash 0"
  by (simp add: isCash_small)

lemma matchCash_isCash [simp]: "isCash v \<Longrightarrow> matchCash v = Inr v"
  by (simp add: matchCash_def isCash_def)

lemma matchCash_small: "0 \<le> v \<Longrightarrow> v \<le> 1000000000 \<Longrightarrow> matchCash v = Inr v"
  by (simp add: isCash_small)

lemma checkedAdd_Some_iff:
  "checkedAddMatchCash a b = Some c \<longleftrightarrow> c = a + b \<and> a + b \<le> MAX_MATCH_CASH"
  by (auto simp: checkedAddMatchCash_def Let_def)

lemma checkedSubtract_Some_iff:
  "checkedSubtractMatchCash a b = Some c \<longleftrightarrow> c = a - b \<and> b \<le> a"
  by (auto simp: checkedSubtractMatchCash_def)

lemma checkedAdd_isCash:
  "checkedAddMatchCash a b = Some c \<Longrightarrow> isCash a \<Longrightarrow> 0 \<le> b \<Longrightarrow> isCash c"
  by (auto simp: checkedAdd_Some_iff isCash_def)

lemma checkedSubtract_isCash:
  "checkedSubtractMatchCash a b = Some c \<Longrightarrow> isCash a \<Longrightarrow> 0 \<le> b \<Longrightarrow> isCash c"
  by (auto simp: checkedSubtract_Some_iff isCash_def)

section \<open>Opaque identifiers (identifiers.ts)\<close>

text \<open>\<open>A-Z\<close> is 65 to 90, \<open>a-z\<close> 97 to 122 and \<open>0-9\<close> 48 to 57.\<close>

definition isAlnum :: "char \<Rightarrow> bool" where
  "isAlnum c \<longleftrightarrow>
     (let n = (of_char c :: nat)
      in (65 \<le> n \<and> n \<le> 90) \<or> (97 \<le> n \<and> n \<le> 122) \<or> (48 \<le> n \<and> n \<le> 57))"

definition isIdChar :: "char \<Rightarrow> bool" where
  "isIdChar c \<longleftrightarrow> isAlnum c \<or> c = CHR ''_'' \<or> c = CHR ''-''"

text \<open>The pattern \<open>/^[A-Za-z0-9][A-Za-z0-9_-]*$/\<close>.\<close>

definition opaqueIdPattern :: "string \<Rightarrow> bool" where
  "opaqueIdPattern s = (case s of [] \<Rightarrow> False | c # cs \<Rightarrow> isAlnum c \<and> list_all isIdChar cs)"

definition validOpaqueId :: "string \<Rightarrow> bool" where
  "validOpaqueId s \<longleftrightarrow> 1 \<le> length s \<and> length s \<le> 128 \<and> opaqueIdPattern s"

text \<open>\<open>assertOpaqueId\<close> throws; \<open>gameId\<close> and \<open>playerId\<close> brand a string it accepts.\<close>

definition assertOpaqueId :: "string \<Rightarrow> exn + string" where
  "assertOpaqueId s =
     (if length s < 1 \<or> length s > 128 \<or> \<not> opaqueIdPattern s then Inl TypeError else Inr s)"

lemma assertOpaqueId_iff: "assertOpaqueId s = Inr t \<longleftrightarrow> t = s \<and> validOpaqueId s"
  by (auto simp: assertOpaqueId_def validOpaqueId_def Suc_le_eq)

section \<open>Random checkpoints (random-source.ts)\<close>

record random_checkpoint =
  algorithm :: string
  rngState :: string
  draws :: int
  bytesConsumed :: int

text \<open>The shape every reader of a checkpoint insists on.\<close>

definition validCheckpoint :: "random_checkpoint \<Rightarrow> bool" where
  "validCheckpoint c \<longleftrightarrow>
     1 \<le> length (algorithm c) \<and> length (algorithm c) \<le> 64 \<and>
     1 \<le> length (rngState c) \<and> length (rngState c) \<le> 4096 \<and>
     isSafeInteger (draws c) \<and> 0 \<le> draws c \<and>
     isSafeInteger (bytesConsumed c) \<and> 0 \<le> bytesConsumed c"

section \<open>Errors (errors.ts)\<close>

datatype game_core_error_code =
    INVALID_COMMAND
  | INVALID_STATE
  | STALE_STATE_VERSION
  | GAME_NOT_FOUND
  | GAME_ALREADY_EXISTS
  | GAME_NOT_WAITING
  | MINIMUM_PLAYERS_NOT_MET
  | UNAUTHORIZED_ACTOR
  | PLAYER_ALREADY_JOINED
  | PLAYER_NOT_FOUND
  | GAME_FULL
  | CREATOR_CANNOT_LEAVE
  | COMMAND_UNSUPPORTED
  | INVALID_PHASE
  | PROPERTY_NOT_AVAILABLE
  | INSUFFICIENT_CASH
  | ARITHMETIC_OVERFLOW

text \<open>The human-readable \<open>message\<close> of an error is not modelled.\<close>

record game_core_error =
  errorCode :: game_core_error_code
  retryable :: bool

text \<open>What a transition answers: the next state with its events, the unchanged state with an
  error, or an uncaught exception.\<close>

datatype ('s, 'ev) transition_result =
    Accepted 's "'ev list"
  | Rejected 's game_core_error
  | Threw exn

definition reject :: "'s \<Rightarrow> game_core_error_code \<Rightarrow> ('s, 'ev) transition_result" where
  "reject s code = Rejected s \<lparr>errorCode = code, retryable = False\<rparr>"

definition reject_retryable :: "'s \<Rightarrow> game_core_error_code \<Rightarrow> ('s, 'ev) transition_result" where
  "reject_retryable s code = Rejected s \<lparr>errorCode = code, retryable = True\<rparr>"

lemma reject_simps [simp]:
  "reject s c \<noteq> Accepted t ev" "Accepted t ev \<noteq> reject s c" "reject s c \<noteq> Threw e"
  "reject_retryable s c \<noteq> Accepted t ev" "Accepted t ev \<noteq> reject_retryable s c"
  "reject_retryable s c \<noteq> Threw e"
  by (simp_all add: reject_def reject_retryable_def)

lemma reject_state [simp]:
  "reject s c = Rejected t err \<longleftrightarrow> t = s \<and> err = \<lparr>errorCode = c, retryable = False\<rparr>"
  "reject_retryable s c = Rejected t err \<longleftrightarrow> t = s \<and> err = \<lparr>errorCode = c, retryable = True\<rparr>"
  by (auto simp: reject_def reject_retryable_def)

section \<open>Players\<close>

text \<open>
  The rules take structurally typed players: \<open>TradePlayerState\<close>, \<open>TerminalPlayerState\<close>,
  \<open>BankruptcyPlayerState\<close> and \<open>GameplayPlayerState\<close> each add fields to the one before. Extensible
  records are that subtyping: a rule over \<open>'a trade_player_scheme\<close> accepts every wider player and
  a spread \<open>{...player, cash}\<close> keeps the fields it does not know.
\<close>

datatype player_status = Active | Eliminated

record trade_player =
  seatIndex :: int
  cash :: int

record terminal_player = trade_player +
  status :: player_status

record bankruptcy_player = terminal_player +
  position :: int
  inJail :: bool
  jailTurns :: int
  consecutiveDoubles :: int
  missedTurns :: int
  getOutOfJailCards :: int

record gameplay_player = bankruptcy_player +
  playerId :: string
  joinedAtMs :: int

definition is_active :: "'a terminal_player_scheme option \<Rightarrow> bool" where
  "is_active slot = (case slot of None \<Rightarrow> False | Some p \<Rightarrow> status p = Active)"

lemma is_active_simps [simp]: "\<not> is_active None" "is_active (Some p) \<longleftrightarrow> status p = Active"
  by (simp_all add: is_active_def)

section \<open>Player money as a whole\<close>

definition slot_cash :: "'a trade_player_scheme option \<Rightarrow> int" where
  "slot_cash slot = (case slot of None \<Rightarrow> 0 | Some p \<Rightarrow> cash p)"

definition totalCash :: "'a trade_player_scheme option list \<Rightarrow> int" where
  "totalCash players = sum_list (map slot_cash players)"

lemma slot_cash_simps [simp]: "slot_cash None = 0" "slot_cash (Some p) = cash p"
  by (simp_all add: slot_cash_def)

lemma totalCash_update_seat:
  assumes "seat_at ps seat = Some p"
  shows "totalCash (update_seat seat f ps) = totalCash ps + (cash (f p) - cash p)"
proof -
  from assms have "nat seat < length ps" "ps ! nat seat = Some p"
    by (auto simp: seat_at_Some_iff nat_less_iff)
  then show ?thesis
    by (simp add: update_seat_eq_list_update [OF assms] totalCash_def sum_list_map_update)
qed

text \<open>Two player lists that agree on everything but cash.\<close>

definition cash_only :: "'a trade_player_scheme option list \<Rightarrow> 'a trade_player_scheme option list \<Rightarrow> bool" where
  "cash_only ps qs \<longleftrightarrow>
     list_all2 (\<lambda>a b. map_option (\<lambda>p. p\<lparr>cash := 0\<rparr>) a = map_option (\<lambda>p. p\<lparr>cash := 0\<rparr>) b) ps qs"

lemma cash_only_refl [simp]: "cash_only ps ps"
  by (simp add: cash_only_def list_all2_refl)

end
