(* ===== verification/Game_State.thy ===== *)
theory Game_State
  imports Domain_Model
begin

text \<open>
  \<open>model/game-state.ts\<close>: the lobby state of a game, before the gameplay aggregate takes over. The
  four lifecycle variants share a base record; fields that a variant fixes to \<open>null\<close> or to one
  literal are not repeated.
\<close>

record player_seat =
  ps_seatIndex :: int
  ps_playerId :: string
  ps_status :: player_status
  ps_cash :: int
  ps_position :: int
  ps_inJail :: bool
  ps_joinedAtMs :: int

record game_base =
  gm_schemaVersion :: int
  gm_rulesetId :: string
  gm_stateVersion :: int
  gm_gameId :: string
  gm_creatorId :: string
  gm_minimumPlayers :: int
  gm_maximumPlayers :: int
  gm_seats :: "player_seat option list"
  gm_bankCash :: int
  gm_freeParkingPool :: int
  gm_housesRemaining :: int
  gm_hotelsRemaining :: int
  gm_createdAtMs :: int
  gm_timeLimitMs :: "int option"
  gm_turnTimeoutMs :: int
  gm_rng :: random_checkpoint

record opening_turn =
  ot_currentSeatIndex :: int
  ot_startedAtMs :: int
  ot_deadlineAtMs :: int

record in_progress_game = game_base +
  ip_startedAtMs :: int
  ip_gameEndAtMs :: "int option"
  ip_turn :: opening_turn

record cancelled_game = game_base +
  cg_cancelledAtMs :: int

record finished_game = game_base +
  fg_startedAtMs :: int
  fg_gameEndAtMs :: int

datatype game_state =
    WaitingGame game_base
  | InProgressGame in_progress_game
  | CancelledGame cancelled_game
  | FinishedGame finished_game

text \<open>The base every variant has.\<close>

fun game_base_of :: "game_state \<Rightarrow> game_base" where
  "game_base_of (WaitingGame g) = g"
| "game_base_of (InProgressGame g) = game_base.truncate g"
| "game_base_of (CancelledGame g) = game_base.truncate g"
| "game_base_of (FinishedGame g) = game_base.truncate g"

definition occupiedSeats :: "'a game_base_scheme \<Rightarrow> player_seat list" where
  "occupiedSeats state = List.map_filter id (gm_seats state)"

definition activeSeats :: "'a game_base_scheme \<Rightarrow> player_seat list" where
  "activeSeats state = filter (\<lambda>seat. ps_status seat = Active) (occupiedSeats state)"

end
