(* ===== verification/Board.thy ===== *)
theory Board
  imports Domain_Model
begin

text \<open>
  The forty-space board of \<open>rules/board-definition.ts\<close>: the space table and the colour groups,
  transcribed row by row, with the closed facts about them that the rules use.
\<close>

datatype color_group =
    Brown | LightBlue | Pink | Orange | Red | Yellow | Green | DarkBlue
  | RailroadGroup | UtilityGroup | Special

datatype property_type =
    Street | Railroad | Utility | Corner | ChanceSpace | CommunityChestSpace | TaxSpace

record board_space_definition =
  spacePosition :: int
  price :: int
  rent :: "int list"
  houseCost :: int
  mortgageValue :: int
  colorGroup :: color_group
  propertyType :: property_type

definition board_space ::
  "int \<Rightarrow> int \<Rightarrow> int list \<Rightarrow> int \<Rightarrow> int \<Rightarrow> color_group \<Rightarrow> property_type \<Rightarrow> board_space_definition" where
  "board_space p pr r hc mv cg pt =
     \<lparr>spacePosition = p, price = pr, rent = r, houseCost = hc, mortgageValue = mv,
      colorGroup = cg, propertyType = pt\<rparr>"

definition BOARD_SPACES :: "board_space_definition list" where
  "BOARD_SPACES = [
   board_space 0 0 [0, 0, 0, 0, 0, 0] 0 0 Special Corner,
   board_space 1 60 [2, 10, 30, 90, 160, 250] 50 30 Brown Street,
   board_space 2 0 [0, 0, 0, 0, 0, 0] 0 0 Special CommunityChestSpace,
   board_space 3 60 [4, 20, 60, 180, 320, 450] 50 30 Brown Street,
   board_space 4 0 [0, 0, 0, 0, 0, 0] 0 0 Special TaxSpace,
   board_space 5 200 [25, 50, 100, 200, 0, 0] 0 100 RailroadGroup Railroad,
   board_space 6 100 [6, 30, 90, 270, 400, 550] 50 50 LightBlue Street,
   board_space 7 0 [0, 0, 0, 0, 0, 0] 0 0 Special ChanceSpace,
   board_space 8 100 [6, 30, 90, 270, 400, 550] 50 50 LightBlue Street,
   board_space 9 120 [8, 40, 100, 300, 450, 600] 50 60 LightBlue Street,
   board_space 10 0 [0, 0, 0, 0, 0, 0] 0 0 Special Corner,
   board_space 11 140 [10, 50, 150, 450, 625, 750] 50 70 Pink Street,
   board_space 12 150 [4, 10, 0, 0, 0, 0] 0 75 UtilityGroup Utility,
   board_space 13 140 [10, 50, 150, 450, 625, 750] 100 70 Pink Street,
   board_space 14 160 [12, 60, 180, 500, 700, 900] 100 80 Pink Street,
   board_space 15 200 [25, 50, 100, 200, 0, 0] 0 100 RailroadGroup Railroad,
   board_space 16 180 [14, 70, 200, 550, 750, 950] 100 90 Orange Street,
   board_space 17 0 [0, 0, 0, 0, 0, 0] 0 0 Special CommunityChestSpace,
   board_space 18 180 [14, 70, 200, 550, 750, 950] 100 90 Orange Street,
   board_space 19 200 [16, 80, 240, 600, 800, 1000] 100 100 Orange Street,
   board_space 20 0 [0, 0, 0, 0, 0, 0] 0 0 Special Corner,
   board_space 21 220 [18, 90, 270, 650, 850, 1050] 150 110 Red Street,
   board_space 22 0 [0, 0, 0, 0, 0, 0] 0 0 Special ChanceSpace,
   board_space 23 220 [18, 90, 270, 650, 850, 1050] 150 110 Red Street,
   board_space 24 240 [20, 100, 300, 750, 950, 1100] 150 120 Red Street,
   board_space 25 200 [25, 50, 100, 200, 0, 0] 0 100 RailroadGroup Railroad,
   board_space 26 260 [22, 110, 330, 850, 1050, 1200] 150 120 Yellow Street,
   board_space 27 260 [22, 110, 330, 850, 1050, 1200] 150 130 Yellow Street,
   board_space 28 150 [4, 10, 0, 0, 0, 0] 0 75 UtilityGroup Utility,
   board_space 29 280 [24, 120, 360, 900, 1100, 1300] 150 140 Yellow Street,
   board_space 30 0 [0, 0, 0, 0, 0, 0] 0 0 Special Corner,
   board_space 31 300 [26, 130, 390, 900, 1100, 1300] 200 150 Green Street,
   board_space 32 300 [26, 130, 390, 900, 1100, 1300] 200 150 Green Street,
   board_space 33 0 [0, 0, 0, 0, 0, 0] 0 0 Special CommunityChestSpace,
   board_space 34 320 [28, 150, 450, 1000, 1200, 1400] 200 160 Green Street,
   board_space 35 200 [25, 50, 100, 200, 0, 0] 0 100 RailroadGroup Railroad,
   board_space 36 0 [0, 0, 0, 0, 0, 0] 0 0 Special ChanceSpace,
   board_space 37 350 [35, 175, 500, 1100, 1400, 1500] 200 175 DarkBlue Street,
   board_space 38 0 [0, 0, 0, 0, 0, 0] 0 0 Special TaxSpace,
   board_space 39 400 [50, 200, 600, 1200, 1600, 2000] 200 200 DarkBlue Street]"

fun COLOR_GROUP_POSITIONS :: "color_group \<Rightarrow> int list" where
  "COLOR_GROUP_POSITIONS Brown = [1, 3]"
| "COLOR_GROUP_POSITIONS LightBlue = [6, 8, 9]"
| "COLOR_GROUP_POSITIONS Pink = [11, 13, 14]"
| "COLOR_GROUP_POSITIONS Orange = [16, 18, 19]"
| "COLOR_GROUP_POSITIONS Red = [21, 23, 24]"
| "COLOR_GROUP_POSITIONS Yellow = [26, 27, 29]"
| "COLOR_GROUP_POSITIONS Green = [31, 32, 34]"
| "COLOR_GROUP_POSITIONS DarkBlue = [37, 39]"
| "COLOR_GROUP_POSITIONS RailroadGroup = [5, 15, 25, 35]"
| "COLOR_GROUP_POSITIONS UtilityGroup = [12, 28]"
| "COLOR_GROUP_POSITIONS Special = []"

section \<open>Facts about the tables\<close>

lemma length_BOARD_SPACES [simp]: "length BOARD_SPACES = 40"
  by (simp add: BOARD_SPACES_def)

text \<open>Every space sits at its own index.\<close>

lemma every_space_position: "every_index (\<lambda>i d. spacePosition d = i) BOARD_SPACES"
  by (simp add: BOARD_SPACES_def board_space_def every_index_def)

lemma space_position: "js_index BOARD_SPACES i = Some d \<Longrightarrow> spacePosition d = i"
  using every_space_position by (simp add: every_index_js)

text \<open>Amounts are small and non-negative, house costs are even, and a street has six rents.\<close>

definition sane_space :: "board_space_definition \<Rightarrow> bool" where
  "sane_space d \<longleftrightarrow>
     0 \<le> price d \<and> price d \<le> 400 \<and> 0 \<le> houseCost d \<and> houseCost d \<le> 200 \<and>
     0 \<le> mortgageValue d \<and> mortgageValue d \<le> 200 \<and>
     length (rent d) = 6 \<and> list_all (\<lambda>r. 0 \<le> r \<and> r \<le> 2000) (rent d) \<and>
     even (houseCost d)"

lemma every_space_sane: "list_all sane_space BOARD_SPACES"
  by (simp add: BOARD_SPACES_def board_space_def sane_space_def)

lemma space_sane: "js_index BOARD_SPACES i = Some d \<Longrightarrow> sane_space d"
  using every_space_sane by (auto simp: list_all_iff dest: js_index_in_set)

lemma space_bounds:
  assumes "js_index BOARD_SPACES i = Some d"
  shows "0 \<le> price d" "price d \<le> 400" "0 \<le> houseCost d" "houseCost d \<le> 200"
    "0 \<le> mortgageValue d" "mortgageValue d \<le> 200"
  using space_sane [OF assms] by (simp_all add: sane_space_def)

lemma space_rent_bounds:
  assumes "js_index BOARD_SPACES i = Some d" and "r \<in> set (rent d)"
  shows "0 \<le> r \<and> r \<le> 2000"
  using space_sane [OF assms(1)] assms(2) by (auto simp: sane_space_def list_all_iff)

lemma space_exists: "0 \<le> i \<Longrightarrow> i < 40 \<Longrightarrow> \<exists>d. js_index BOARD_SPACES i = Some d"
  by (simp add: js_index_def)

text \<open>The colour-group table lists exactly the spaces of the group, and the tax squares are the
  two positions the policy names.\<close>

lemma color_groups_complete:
  "list_all (\<lambda>g. map spacePosition (filter (\<lambda>d. colorGroup d = g) BOARD_SPACES) = COLOR_GROUP_POSITIONS g)
     [Brown, LightBlue, Pink, Orange, Red, Yellow, Green, DarkBlue, RailroadGroup, UtilityGroup]"
  by (simp add: BOARD_SPACES_def board_space_def)

lemma tax_positions:
  "list_all (\<lambda>d. propertyType d = TaxSpace \<longrightarrow>
      spacePosition d = mevTaxPosition \<or> spacePosition d = priorityFeeTaxPosition) BOARD_SPACES"
  by (simp add: BOARD_SPACES_def board_space_def policy_simps)

lemma tax_space_position:
  assumes "js_index BOARD_SPACES i = Some d" "propertyType d = TaxSpace"
  shows "i = mevTaxPosition \<or> i = priorityFeeTaxPosition"
  using tax_positions js_index_in_set [OF assms(1)] space_position [OF assms(1)] assms(2)
  by (auto simp: list_all_iff)

lemma street_groups:
  "list_all (\<lambda>d. propertyType d = Street \<longrightarrow>
      colorGroup d \<notin> {RailroadGroup, UtilityGroup, Special} \<and>
      spacePosition d \<in> set (COLOR_GROUP_POSITIONS (colorGroup d))) BOARD_SPACES"
  by (simp add: BOARD_SPACES_def board_space_def)

lemma street_in_group:
  assumes "js_index BOARD_SPACES i = Some d" "propertyType d = Street"
  shows "i \<in> set (COLOR_GROUP_POSITIONS (colorGroup d))"
  using street_groups js_index_in_set [OF assms(1)] space_position [OF assms(1)] assms(2)
  by (auto simp: list_all_iff)

end
