(* ===== verification/Movement.thy ===== *)
theory Movement
  imports Board
begin

text \<open>
  \<open>ports/random-source.ts\<close>, \<open>rules/movement.ts\<close> and \<open>rules/gameplay-random-support.ts\<close>: the random
  source as a record of operations over a cursor, unbiased dice by rejection, movement around the
  board and the doubles counter. The source is a port: its implementation is a parameter here (the
  game server's is modelled in \<open>Secure_Random\<close>).
\<close>

type_synonym byte = "8 word"

section \<open>The random source port\<close>

text \<open>\<open>fork\<close> may be absent, throw, answer \<open>null\<close>, answer the very same object, or a new cursor.\<close>

datatype 'r fork_result = ForkNull | ForkSame | Forked 'r

record 'r random_source =
  rs_nextBytes :: "'r \<Rightarrow> int \<Rightarrow> (exn + byte list) \<times> 'r"
  rs_checkpoint :: "'r \<Rightarrow> exn + random_checkpoint"
  rs_canResume :: "'r \<Rightarrow> random_checkpoint \<Rightarrow> exn + bool"
  rs_fork :: "('r \<Rightarrow> random_checkpoint \<Rightarrow> exn + 'r fork_result) option"

definition canResume :: "'r random_source \<Rightarrow> 'r \<Rightarrow> random_checkpoint \<Rightarrow> bool" where
  "canResume source cursor checkpoint =
     (case rs_canResume source cursor checkpoint of Inl _ \<Rightarrow> False | Inr b \<Rightarrow> b)"

definition readRandomCheckpoint :: "'r random_source \<Rightarrow> 'r \<Rightarrow> random_checkpoint option" where
  "readRandomCheckpoint source cursor =
     (case rs_checkpoint source cursor of
        Inl _ \<Rightarrow> None
      | Inr value \<Rightarrow> if validCheckpoint value then Some value else None)"

definition forkGameplayRandomSource ::
  "'r random_source \<Rightarrow> 'r \<Rightarrow> random_checkpoint \<Rightarrow> 'r option" where
  "forkGameplayRandomSource source cursor checkpoint =
     (case rs_fork source of
        None \<Rightarrow> None
      | Some fork \<Rightarrow> (case fork cursor checkpoint of
          Inl _ \<Rightarrow> None
        | Inr ForkNull \<Rightarrow> None
        | Inr ForkSame \<Rightarrow> None
        | Inr (Forked fresh) \<Rightarrow> if canResume source fresh checkpoint then Some fresh else None))"

definition isAdvancedGameplayCheckpoint :: "random_checkpoint \<Rightarrow> random_checkpoint \<Rightarrow> int \<Rightarrow> bool" where
  "isAdvancedGameplayCheckpoint previous next minimumBytes \<longleftrightarrow>
     isSafeInteger minimumBytes \<and> minimumBytes > 0 \<and>
     algorithm next = algorithm previous \<and> draws next > draws previous \<and>
     bytesConsumed next \<ge> bytesConsumed previous + minimumBytes"

section \<open>Dice\<close>

record dice_roll =
  dice :: "int \<times> int"
  total :: int
  isDoubles :: bool

definition validDice :: "dice_roll \<Rightarrow> bool" where
  "validDice roll \<longleftrightarrow>
     1 \<le> fst (dice roll) \<and> fst (dice roll) \<le> 6 \<and> 1 \<le> snd (dice roll) \<and> snd (dice roll) \<le> 6 \<and>
     total roll = fst (dice roll) + snd (dice roll) \<and>
     isDoubles roll = (fst (dice roll) = snd (dice roll))"

definition MAXIMUM_REJECTION_DRAWS :: nat where
  "MAXIMUM_REJECTION_DRAWS = 256"

definition LARGEST_UNBIASED_BYTE :: nat where
  "LARGEST_UNBIASED_BYTE = 251"

text \<open>The rejection loop, with the number of attempts left.\<close>

fun drawDieLoop :: "'r random_source \<Rightarrow> nat \<Rightarrow> 'r \<Rightarrow> int option \<times> 'r" where
  "drawDieLoop source 0 cursor = (None, cursor)"
| "drawDieLoop source (Suc attempts) cursor =
     (case rs_nextBytes source cursor 1 of
        (Inl _, cursor') \<Rightarrow> (None, cursor')
      | (Inr [byte], cursor') \<Rightarrow>
          if unat byte \<le> LARGEST_UNBIASED_BYTE then (Some (int (unat byte mod 6) + 1), cursor')
          else drawDieLoop source attempts cursor'
      | (Inr _, cursor') \<Rightarrow> (None, cursor'))"

definition drawDie :: "'r random_source \<Rightarrow> 'r \<Rightarrow> int option \<times> 'r" where
  "drawDie source cursor = drawDieLoop source MAXIMUM_REJECTION_DRAWS cursor"

definition rollDice :: "'r random_source \<Rightarrow> 'r \<Rightarrow> dice_roll option \<times> 'r" where
  "rollDice source cursor =
     (case drawDie source cursor of
        (None, c1) \<Rightarrow> (None, c1)
      | (Some first, c1) \<Rightarrow> (case drawDie source c1 of
          (None, c2) \<Rightarrow> (None, c2)
        | (Some second, c2) \<Rightarrow>
            (Some \<lparr>dice = (first, second), total = first + second, isDoubles = (first = second)\<rparr>, c2)))"

lemma drawDieLoop_range: "drawDieLoop source n c = (Some d, c') \<Longrightarrow> 1 \<le> d \<and> d \<le> 6"
proof (induction n arbitrary: c)
  case 0
  then show ?case by simp
next
  case (Suc n)
  have "int (k mod 6) \<le> 5" for k :: nat
    using mod_less_divisor [of 6 k] by linarith
  with Suc show ?case by (auto split: prod.splits sum.splits list.splits if_splits)
qed

lemma rollDice_valid: "rollDice source c = (Some r, c') \<Longrightarrow> validDice r"
  by (auto simp: rollDice_def drawDie_def validDice_def split: prod.splits option.splits
      dest!: drawDieLoop_range)

lemma validDice_total: "validDice r \<Longrightarrow> 2 \<le> total r \<and> total r \<le> 12"
  by (auto simp: validDice_def)

section \<open>Movement\<close>

record movement_result =
  mv_from :: int
  mv_to :: int
  mv_spaces :: int
  mv_passedGo :: bool

definition isBoardPosition :: "int \<Rightarrow> bool" where
  "isBoardPosition pos \<longleftrightarrow> 0 \<le> pos \<and> pos < boardSize"

definition moveBy :: "int \<Rightarrow> int \<Rightarrow> movement_result option" where
  "moveBy pos spaces =
     (if \<not> isBoardPosition pos \<or> \<not> isSafeInteger spaces then None
      else let absolute = pos + spaces in
        if \<not> isSafeInteger absolute then None
        else Some \<lparr>mv_from = pos,
                   mv_to = js_rem (js_rem absolute boardSize + boardSize) boardSize,
                   mv_spaces = spaces,
                   mv_passedGo = (spaces > 0 \<and> absolute \<ge> boardSize)\<rparr>)"

text \<open>\<open>Math.min(...targets.map(...))\<close> over a non-empty target list.\<close>

definition forwardDistance :: "int \<Rightarrow> int \<Rightarrow> int" where
  "forwardDistance pos target =
     (let forward = target - pos in if forward > 0 then forward else boardSize + forward)"

definition moveToNearest :: "int \<Rightarrow> int list \<Rightarrow> movement_result option" where
  "moveToNearest pos targets =
     (if \<not> isBoardPosition pos \<or> list_ex (\<lambda>t. \<not> isBoardPosition t) targets then None
      else case map (forwardDistance pos) targets of
        [] \<Rightarrow> None
      | d # ds \<Rightarrow> moveBy pos (foldl min d ds))"

record doubles_result =
  db_consecutiveDoubles :: int
  db_sentToJail :: bool

definition applyDoubles :: "int \<Rightarrow> dice_roll \<Rightarrow> doubles_result option" where
  "applyDoubles previous roll =
     (if previous < 0 \<or> previous > 2 \<or> \<not> validDice roll then None
      else if \<not> isDoubles roll then Some \<lparr>db_consecutiveDoubles = 0, db_sentToJail = False\<rparr>
      else let next = previous + 1 in
        if next = 3 then Some \<lparr>db_consecutiveDoubles = 0, db_sentToJail = True\<rparr>
        else Some \<lparr>db_consecutiveDoubles = next, db_sentToJail = False\<rparr>)"

lemma moveBy_Some:
  assumes "isBoardPosition pos" "- 1000 \<le> spaces" "spaces \<le> 1000"
  shows "moveBy pos spaces = Some \<lparr>mv_from = pos, mv_to = (pos + spaces) mod 40, mv_spaces = spaces,
           mv_passedGo = (spaces > 0 \<and> pos + spaces \<ge> 40)\<rparr>"
  using assms
  by (auto simp: moveBy_def isBoardPosition_def isSafeInteger_def MAX_SAFE_INTEGER_def js_rem_wrap
      policy_simps Let_def)

lemma moveBy_Some_to:
  "moveBy pos spaces = Some m \<Longrightarrow>
   mv_from m = pos \<and> mv_to m = (pos + spaces) mod 40 \<and> isBoardPosition pos"
  by (auto simp: moveBy_def js_rem_wrap policy_simps Let_def split: if_splits)

lemma moveBy_on_board: "moveBy pos spaces = Some m \<Longrightarrow> isBoardPosition (mv_to m)"
  by (drule moveBy_Some_to) (simp add: isBoardPosition_def policy_simps)

lemma applyDoubles_Some:
  "applyDoubles k r = Some d \<Longrightarrow> 0 \<le> db_consecutiveDoubles d \<and> db_consecutiveDoubles d \<le> 2"
  by (auto simp: applyDoubles_def Let_def split: if_splits)

lemma applyDoubles_total: "0 \<le> k \<Longrightarrow> k \<le> 2 \<Longrightarrow> validDice r \<Longrightarrow> \<exists>d. applyDoubles k r = Some d"
  by (auto simp: applyDoubles_def Let_def)

end
