(* ===== verification/Card_Rules.thy ===== *)
theory Card_Rules
  imports Movement
begin

text \<open>
  \<open>rules/card-decks.ts\<close> and \<open>rules/card-rules.ts\<close>: the two frozen decks and the resolution of a
  drawn card against the three player fields it may change.
\<close>

section \<open>The decks\<close>

datatype card_effect =
    Money | Move | GetOutOfJailFree | CollectFromPlayers | MoveToNearest | RepairFree

record card_definition =
  cardId :: int
  cardTitle :: string
  cardCopy :: string
  cardEffect :: card_effect
  cardAmount :: int

datatype card_deck = Chance | CommunityChest

definition cardDef :: "int \<Rightarrow> string \<Rightarrow> string \<Rightarrow> card_effect \<Rightarrow> int \<Rightarrow> card_definition" where
  "cardDef i title text effect amount =
     \<lparr>cardId = i, cardTitle = title, cardCopy = text, cardEffect = effect, cardAmount = amount\<rparr>"

definition CHANCE_CARDS :: "card_definition list" where
  "CHANCE_CARDS =
     [cardDef 1 ''Memecoin Pump!'' ''Move to the nearest memecoin property.'' MoveToNearest 1,
      cardDef 2 ''Rug Pull Alert!'' ''Pay $50.'' Money (-50),
      cardDef 3 ''Flash Loan Win'' ''Collect $100.'' Money 100,
      cardDef 4 ''Congestion Jam'' ''Move back 3 spaces.'' Move (-3),
      cardDef 5 ''Dev Unlock'' ''Keep this Get Out of Jail Free card.'' GetOutOfJailFree 0]"

definition COMMUNITY_CHEST_CARDS :: "card_definition list" where
  "COMMUNITY_CHEST_CARDS =
     [cardDef 1 ''Retroactive Airdrop!'' ''Collect $50 for each other player.'' CollectFromPlayers 50,
      cardDef 2 ''Staking Rewards'' ''Collect $100.'' Money 100,
      cardDef 3 ''NFT Floor Sweep'' ''Move to Free Airdrop Parking at position 20.'' Move 20,
      cardDef 4 ''DAO Vote Win'' ''Receive free property repairs.'' RepairFree 0,
      cardDef 5 ''Wallet Drain Fee'' ''Pay $50.'' Money (-50)]"

definition deck_cards :: "card_deck \<Rightarrow> card_definition list" where
  "deck_cards deck = (case deck of Chance \<Rightarrow> CHANCE_CARDS | CommunityChest \<Rightarrow> COMMUNITY_CHEST_CARDS)"

lemma deck_card_cases:
  assumes "c \<in> set (deck_cards deck)"
  obtains "deck = Chance" "cardEffect c = MoveToNearest" "cardId c = 1"
  | "deck = Chance" "cardEffect c = Money" "cardAmount c = - 50" "cardId c = 2"
  | "deck = Chance" "cardEffect c = Money" "cardAmount c = 100" "cardId c = 3"
  | "deck = Chance" "cardEffect c = Move" "cardAmount c = - 3" "cardId c = 4"
  | "deck = Chance" "cardEffect c = GetOutOfJailFree" "cardId c = 5"
  | "deck = CommunityChest" "cardEffect c = CollectFromPlayers" "cardAmount c = 50" "cardId c = 1"
  | "deck = CommunityChest" "cardEffect c = Money" "cardAmount c = 100" "cardId c = 2"
  | "deck = CommunityChest" "cardEffect c = Move" "cardAmount c = 20" "cardId c = 3"
  | "deck = CommunityChest" "cardEffect c = RepairFree" "cardId c = 4"
  | "deck = CommunityChest" "cardEffect c = Money" "cardAmount c = - 50" "cardId c = 5"
  using assms
  by (auto simp: deck_cards_def CHANCE_CARDS_def COMMUNITY_CHEST_CARDS_def cardDef_def
      split: card_deck.splits)

section \<open>Resolution\<close>

record card_player =
  cp_cash :: int
  cp_position :: int
  cp_getOutOfJailCards :: int

datatype card_error_code =
    INVALID_CARD_STATE | INVALID_CARD | INVALID_PLAYER_COUNT | CARD_ARITHMETIC_OVERFLOW

record card_resolution =
  cr_state :: card_player
  cr_card :: card_definition
  cr_deck :: card_deck
  cr_cashDelta :: int
  cr_movement :: "movement_result option"
  cr_bankruptcyRequired :: bool

definition validCardState :: "card_player \<Rightarrow> bool" where
  "validCardState state \<longleftrightarrow>
     cp_cash state \<ge> 0 \<and> cp_cash state \<le> MAX_MATCH_CASH \<and>
     cp_position state \<ge> 0 \<and> cp_position state < boardSize \<and>
     cp_getOutOfJailCards state \<ge> 0 \<and> cp_getOutOfJailCards state \<le> 255"

definition absoluteMovement :: "int \<Rightarrow> int \<Rightarrow> movement_result" where
  "absoluteMovement pos destination =
     \<lparr>mv_from = pos, mv_to = destination,
      mv_spaces = js_rem (destination - pos + boardSize) boardSize,
      mv_passedGo = (destination < pos \<or> destination = 0)\<rparr>"

definition addCash :: "int \<Rightarrow> int \<Rightarrow> exn + int option" where
  "addCash money amount =
     (case matchCash amount of Inl e \<Rightarrow> Inl e | Inr a \<Rightarrow> Inr (checkedAddMatchCash money a))"

text \<open>The five variables the branches of \<open>resolveCard\<close> leave behind: cash, cash delta, movement,
  jail cards and the bankruptcy flag.\<close>

record card_effect_result =
  ce_cash :: int
  ce_cashDelta :: int
  ce_movement :: "movement_result option"
  ce_getOutOfJailCards :: int
  ce_bankruptcyRequired :: bool

definition card_unchanged :: "card_player \<Rightarrow> card_effect_result" where
  "card_unchanged state =
     \<lparr>ce_cash = cp_cash state, ce_cashDelta = 0, ce_movement = None,
      ce_getOutOfJailCards = cp_getOutOfJailCards state, ce_bankruptcyRequired = False\<rparr>"

text \<open>Collecting an amount that the bank pays.\<close>

definition collectCard ::
  "card_player \<Rightarrow> int \<Rightarrow> movement_result option \<Rightarrow> (card_error_code, card_effect_result) outcome" where
  "collectCard state amount movement =
     (case addCash (cp_cash state) amount of
        Inl e \<Rightarrow> Inl e
      | Inr None \<Rightarrow> Fail CARD_ARITHMETIC_OVERFLOW
      | Inr (Some money) \<Rightarrow>
          Done ((card_unchanged state)\<lparr>ce_cash := money, ce_cashDelta := amount, ce_movement := movement\<rparr>))"

definition moneyCard :: "card_player \<Rightarrow> int \<Rightarrow> (card_error_code, card_effect_result) outcome" where
  "moneyCard state amount =
     (if amount \<ge> 0 then collectCard state amount None
      else case matchCash (- amount) of
        Inl e \<Rightarrow> Inl e
      | Inr deduction \<Rightarrow> (case checkedSubtractMatchCash (cp_cash state) deduction of
          None \<Rightarrow> Done ((card_unchanged state)\<lparr>ce_cash := 0, ce_cashDelta := - cp_cash state,
                    ce_bankruptcyRequired := True\<rparr>)
        | Some money \<Rightarrow> Done ((card_unchanged state)\<lparr>ce_cash := money, ce_cashDelta := amount\<rparr>)))"

text \<open>A move pays the salary when it passed the start.\<close>

definition moveCard ::
  "card_player \<Rightarrow> movement_result option \<Rightarrow> (card_error_code, card_effect_result) outcome" where
  "moveCard state movement =
     (case movement of
        None \<Rightarrow> Fail INVALID_CARD
      | Some m \<Rightarrow>
          if mv_passedGo m then collectCard state passGoSalary (Some m)
          else Done ((card_unchanged state)\<lparr>ce_movement := Some m\<rparr>))"

definition applyCardEffect ::
  "card_deck \<Rightarrow> card_definition \<Rightarrow> card_player \<Rightarrow> int \<Rightarrow> (card_error_code, card_effect_result) outcome" where
  "applyCardEffect deck c state playerCount =
     (case cardEffect c of
        Money \<Rightarrow> moneyCard state (cardAmount c)
      | Move \<Rightarrow> moveCard state (case deck of
          Chance \<Rightarrow> moveBy (cp_position state) (cardAmount c)
        | CommunityChest \<Rightarrow> Some (absoluteMovement (cp_position state) (cardAmount c)))
      | MoveToNearest \<Rightarrow> moveCard state (moveToNearest (cp_position state) [1, 3])
      | GetOutOfJailFree \<Rightarrow>
          if cp_getOutOfJailCards state = 255 then Fail CARD_ARITHMETIC_OVERFLOW
          else Done ((card_unchanged state)\<lparr>ce_getOutOfJailCards := cp_getOutOfJailCards state + 1\<rparr>)
      | CollectFromPlayers \<Rightarrow> collectCard state (cardAmount c * (playerCount - 1)) None
      | RepairFree \<Rightarrow> Done (card_unchanged state))"

definition resolveCard ::
  "card_deck \<Rightarrow> int \<Rightarrow> card_player \<Rightarrow> int \<Rightarrow> (card_error_code, card_resolution) outcome" where
  "resolveCard deck wanted state playerCount =
     (if \<not> validCardState state then Fail INVALID_CARD_STATE
      else if playerCount < 2 \<or> playerCount > 4 then Fail INVALID_PLAYER_COUNT
      else case find (\<lambda>candidate. cardId candidate = wanted) (deck_cards deck) of
        None \<Rightarrow> Fail INVALID_CARD
      | Some c \<Rightarrow> (case applyCardEffect deck c state playerCount of
          Inl e \<Rightarrow> Inl e
        | Inr (Inl code) \<Rightarrow> Fail code
        | Inr (Inr r) \<Rightarrow>
            Done \<lparr>cr_state = \<lparr>cp_cash = ce_cash r,
                              cp_position = (case ce_movement r of None \<Rightarrow> cp_position state
                                             | Some m \<Rightarrow> mv_to m),
                              cp_getOutOfJailCards = ce_getOutOfJailCards r\<rparr>,
                  cr_card = c, cr_deck = deck, cr_cashDelta = ce_cashDelta r,
                  cr_movement = ce_movement r, cr_bankruptcyRequired = ce_bankruptcyRequired r\<rparr>))"

section \<open>What a resolved card guarantees\<close>

text \<open>The three outcomes of a card effect, with the accounting equation of each.\<close>

definition card_effect_ok :: "card_player \<Rightarrow> card_effect_result \<Rightarrow> bool" where
  "card_effect_ok state r \<longleftrightarrow>
     isCash (ce_cash r) \<and> ce_cash r = cp_cash state + ce_cashDelta r \<and>
     (\<forall>m. ce_movement r = Some m \<longrightarrow> isBoardPosition (mv_to m) \<and> mv_from m = cp_position state) \<and>
     0 \<le> ce_getOutOfJailCards r \<and> ce_getOutOfJailCards r \<le> 255 \<and>
     (ce_bankruptcyRequired r \<longrightarrow> ce_cash r = 0 \<and> ce_movement r = None)"

lemma collectCard_never_throws:
  assumes "0 \<le> amount" "amount \<le> 1000000000"
  shows "collectCard state amount m \<noteq> Inl e"
  using assms by (auto simp: collectCard_def addCash_def matchCash_small split: option.split)

lemma collectCard_ok:
  assumes "collectCard state amount m = Done r" "validCardState state"
    "m = None \<or> (\<exists>v. m = Some v \<and> isBoardPosition (mv_to v) \<and> mv_from v = cp_position state)"
  shows "card_effect_ok state r"
  using assms
  by (auto simp: collectCard_def addCash_def matchCash_def card_unchanged_def card_effect_ok_def
      validCardState_def isCash_def checkedAdd_Some_iff split: option.splits sum.splits if_splits)

lemma moneyCard_ok:
  assumes "moneyCard state amount = Done r" "validCardState state"
  shows "card_effect_ok state r"
proof (cases "amount \<ge> 0")
  case True
  with assms show ?thesis by (intro collectCard_ok [where m = None and amount = amount]) (auto simp: moneyCard_def)
next
  case False
  with assms show ?thesis
    by (auto simp: moneyCard_def matchCash_def card_unchanged_def card_effect_ok_def validCardState_def
        isCash_def checkedSubtractMatchCash_def split: if_splits)
qed

lemma moneyCard_never_throws: "\<bar>amount\<bar> \<le> 1000000 \<Longrightarrow> moneyCard state amount \<noteq> Inl e"
  by (auto simp: moneyCard_def collectCard_never_throws matchCash_small split: option.split)

lemma moveCard_ok:
  assumes "moveCard state m = Done r" "validCardState state"
    "\<And>v. m = Some v \<Longrightarrow> isBoardPosition (mv_to v) \<and> mv_from v = cp_position state"
  shows "card_effect_ok state r"
proof (cases m)
  case None
  with assms show ?thesis by (simp add: moveCard_def)
next
  case (Some v)
  show ?thesis
  proof (cases "mv_passedGo v")
    case True
    with Some assms show ?thesis
      by (intro collectCard_ok [where m = m and amount = passGoSalary]) (auto simp: moveCard_def)
  next
    case False
    with Some assms show ?thesis
      by (auto simp: moveCard_def card_unchanged_def card_effect_ok_def validCardState_def isCash_def)
  qed
qed

lemma moveCard_never_throws: "moveCard state m \<noteq> Inl e"
  by (auto simp: moveCard_def collectCard_never_throws policy_simps split: option.split)

lemma moveToNearest_Some:
  assumes "moveToNearest pos targets = Some m"
  shows "isBoardPosition (mv_to m)" "mv_from m = pos"
  using assms moveBy_on_board moveBy_Some_to
  by (auto simp: moveToNearest_def split: if_splits list.splits)

lemma applyCardEffect_ok:
  assumes "applyCardEffect deck c state n = Done r" "validCardState state" "c \<in> set (deck_cards deck)"
  shows "card_effect_ok state r"
  using assms(3)
proof (cases rule: deck_card_cases)
  case 1
  with assms(1,2) show ?thesis
    by (intro moveCard_ok [OF _ assms(2)]) (auto simp: applyCardEffect_def dest: moveToNearest_Some)
next
  case 4
  with assms(1,2) show ?thesis
    by (intro moveCard_ok [OF _ assms(2)])
      (auto simp: applyCardEffect_def dest: moveBy_on_board moveBy_Some_to)
next
  case 8
  with assms(1,2) show ?thesis
    by (intro moveCard_ok [OF _ assms(2)])
      (auto simp: applyCardEffect_def absoluteMovement_def isBoardPosition_def policy_simps)
next
  case 6
  with assms(1,2) show ?thesis
    by (intro collectCard_ok [OF _ assms(2), where m = None]) (auto simp: applyCardEffect_def)
next
  case 5
  with assms(1,2) show ?thesis
    by (auto simp: applyCardEffect_def card_unchanged_def card_effect_ok_def validCardState_def
        isCash_def split: if_splits)
next
  case 9
  with assms(1,2) show ?thesis
    by (auto simp: applyCardEffect_def card_unchanged_def card_effect_ok_def validCardState_def isCash_def)
qed (use assms(1,2) in \<open>auto simp: applyCardEffect_def intro: moneyCard_ok\<close>)

lemma applyCardEffect_never_throws:
  assumes "c \<in> set (deck_cards deck)" "2 \<le> n" "n \<le> 4"
  shows "applyCardEffect deck c state n \<noteq> Inl e"
  using assms(1)
  by (cases rule: deck_card_cases)
    (use assms(2,3) in \<open>auto simp: applyCardEffect_def moveCard_never_throws moneyCard_never_throws
      collectCard_never_throws\<close>)

lemma resolveCard_never_throws: "resolveCard deck k state n \<noteq> Inl e"
proof
  assume throws: "resolveCard deck k state n = Inl e"
  then obtain c where "find (\<lambda>candidate. cardId candidate = k) (deck_cards deck) = Some c"
      "2 \<le> n" "n \<le> 4" "applyCardEffect deck c state n = Inl e"
    by (auto simp: resolveCard_def split: if_splits option.splits sum.splits)
  then show False
    using applyCardEffect_never_throws [of c deck n state e] by (auto simp: find_Some_iff)
qed

lemma resolveCard_Done:
  assumes "resolveCard deck k state n = Done r"
  shows "validCardState state" "validCardState (cr_state r)"
    "cp_cash (cr_state r) = cp_cash state + cr_cashDelta r"
    "cr_bankruptcyRequired r \<Longrightarrow> cp_cash (cr_state r) = 0 \<and> cp_position (cr_state r) = cp_position state"
    "cr_card r \<in> set (deck_cards deck)" "cardId (cr_card r) = k"
    "cr_movement r = None \<Longrightarrow> cp_position (cr_state r) = cp_position state"
    "cr_movement r = Some m \<Longrightarrow> mv_from m = cp_position state \<and> mv_to m = cp_position (cr_state r)"
proof -
  from assms obtain c e where valid: "validCardState state"
    and find: "find (\<lambda>candidate. cardId candidate = k) (deck_cards deck) = Some c"
    and eff: "applyCardEffect deck c state n = Done e"
    and r: "r = \<lparr>cr_state = \<lparr>cp_cash = ce_cash e, cp_position = (case ce_movement e of None \<Rightarrow> cp_position state
                | Some m \<Rightarrow> mv_to m), cp_getOutOfJailCards = ce_getOutOfJailCards e\<rparr>,
              cr_card = c, cr_deck = deck, cr_cashDelta = ce_cashDelta e,
              cr_movement = ce_movement e, cr_bankruptcyRequired = ce_bankruptcyRequired e\<rparr>"
    by (auto simp: resolveCard_def split: if_splits option.splits sum.splits)
  from find have c: "c \<in> set (deck_cards deck)" "cardId c = k" by (auto simp: find_Some_iff)
  from applyCardEffect_ok [OF eff valid c(1)] have ok: "card_effect_ok state e" .
  show "validCardState state" by (rule valid)
  from ok valid show "validCardState (cr_state r)"
    by (auto simp: r card_effect_ok_def validCardState_def isCash_def isBoardPosition_def split: option.split)
  from ok show "cp_cash (cr_state r) = cp_cash state + cr_cashDelta r"
    by (simp add: r card_effect_ok_def)
  from ok show "cp_cash (cr_state r) = 0 \<and> cp_position (cr_state r) = cp_position state"
    if "cr_bankruptcyRequired r" using that by (auto simp: r card_effect_ok_def)
  show "cr_card r \<in> set (deck_cards deck)" "cardId (cr_card r) = k" using c by (simp_all add: r)
  show "cp_position (cr_state r) = cp_position state" if "cr_movement r = None" using that by (simp add: r)
  from ok show "mv_from m = cp_position state \<and> mv_to m = cp_position (cr_state r)"
    if "cr_movement r = Some m" using that by (auto simp: r card_effect_ok_def)
qed

end
