(* ===== verification/Property_Rules.thy ===== *)
theory Property_Rules
  imports Board
begin

text \<open>
  \<open>rules/property-rules.ts\<close>: ownership states, the validator every rule starts from, rent, and the
  even-building conditions. The interface \<open>property_rewrite\<close> at the end is the contract of every
  rule that rewrites properties one by one.
\<close>

record property_state =
  propPosition :: int
  ownerSeatIndex :: "int option"
  houses :: int
  hasHotel :: bool
  mortgaged :: bool

definition createPropertyStates :: "property_state list" where
  "createPropertyStates =
     map (\<lambda>space. \<lparr>propPosition = spacePosition space, ownerSeatIndex = None, houses = 0,
                   hasHotel = False, mortgaged = False\<rparr>) BOARD_SPACES"

definition isOwnableSpace :: "board_space_definition \<Rightarrow> bool" where
  "isOwnableSpace space \<longleftrightarrow>
     propertyType space = Street \<or> propertyType space = Railroad \<or> propertyType space = Utility"

text \<open>The callback of \<open>isValidPropertyStates\<close> at one index.\<close>

definition validPropertyAt :: "int \<Rightarrow> property_state \<Rightarrow> bool" where
  "validPropertyAt index property =
     (case js_index BOARD_SPACES index of
        None \<Rightarrow> False
      | Some definition' \<Rightarrow>
          if propPosition property \<noteq> index \<or>
             (case ownerSeatIndex property of None \<Rightarrow> False | Some seat \<Rightarrow> seat < 0 \<or> seat > 3) \<or>
             houses property < 0 \<or> houses property > 4 \<or>
             (hasHotel property \<and> houses property \<noteq> 0) \<or>
             (mortgaged property \<and> (houses property \<noteq> 0 \<or> hasHotel property)) \<or>
             (propertyType definition' \<noteq> Street \<and> (houses property \<noteq> 0 \<or> hasHotel property))
          then False
          else if isOwnableSpace definition'
          then ownerSeatIndex property \<noteq> None \<or>
               (\<not> mortgaged property \<and> houses property = 0 \<and> \<not> hasHotel property)
          else ownerSeatIndex property = None \<and> \<not> mortgaged property \<and> houses property = 0 \<and>
               \<not> hasHotel property)"

definition isValidPropertyStates :: "property_state list \<Rightarrow> bool" where
  "isValidPropertyStates properties \<longleftrightarrow>
     length properties = length BOARD_SPACES \<and> every_index validPropertyAt properties"

definition ownedPropertyPositions :: "property_state list \<Rightarrow> int \<Rightarrow> int list" where
  "ownedPropertyPositions properties owner =
     map propPosition (filter (\<lambda>p. ownerSeatIndex p = Some owner) properties)"

definition hasMonopoly :: "property_state list \<Rightarrow> int \<Rightarrow> color_group \<Rightarrow> bool" where
  "hasMonopoly properties owner grp =
     (if \<not> isValidPropertyStates properties \<or> grp = Special \<or> grp = RailroadGroup \<or> grp = UtilityGroup
      then False
      else list_all (\<lambda>pos. case js_index properties pos of
                             None \<Rightarrow> False
                           | Some p \<Rightarrow> ownerSeatIndex p = Some owner) (COLOR_GROUP_POSITIONS grp))"

text \<open>How many owned positions are of the given type.\<close>

definition countOwnedOfType :: "int list \<Rightarrow> property_type \<Rightarrow> nat" where
  "countOwnedOfType owned kind =
     length (filter (\<lambda>pos. case js_index BOARD_SPACES pos of
                             None \<Rightarrow> False
                           | Some d \<Rightarrow> propertyType d = kind) owned)"

text \<open>\<open>Inr None\<close> is the result \<open>null\<close>.\<close>

definition rentResult :: "int option \<Rightarrow> exn + int option" where
  "rentResult r =
     (case r of
        None \<Rightarrow> Inr None
      | Some amount \<Rightarrow> (case matchCash amount of Inl e \<Rightarrow> Inl e | Inr c \<Rightarrow> Inr (Some c)))"

text \<open>The rent of an owned street, read from its rent table.\<close>

definition streetRent ::
  "property_state list \<Rightarrow> board_space_definition \<Rightarrow> property_state \<Rightarrow> int \<Rightarrow> int option" where
  "streetRent properties definition' property owner =
     (case js_index (rent definition') 0 of
        None \<Rightarrow> None
      | Some baseRent \<Rightarrow>
          if hasHotel property then js_index (rent definition') 5
          else if houses property > 0 then js_index (rent definition') (houses property)
          else Some (baseRent * (if hasMonopoly properties owner (colorGroup definition') then 2 else 1)))"

definition calculateRent :: "property_state list \<Rightarrow> int \<Rightarrow> int \<Rightarrow> exn + int option" where
  "calculateRent properties pos diceTotal =
     (if \<not> isValidPropertyStates properties then Inr None
      else case js_index properties pos of
        None \<Rightarrow> Inr None
      | Some property \<Rightarrow> (case js_index BOARD_SPACES pos of
        None \<Rightarrow> Inr None
      | Some definition' \<Rightarrow>
          if propPosition property \<noteq> pos \<or> \<not> isOwnableSpace definition' then Inr None
          else (case ownerSeatIndex property of
            None \<Rightarrow> Inr (Some 0)
          | Some owner \<Rightarrow>
            if mortgaged property then Inr (Some 0)
            else if propertyType definition' = Street
            then rentResult (streetRent properties definition' property owner)
            else
              (let owned = ownedPropertyPositions properties owner in
               if propertyType definition' = Railroad then
                 rentResult (js_index [0, 25, 50, 100, 200] (int (countOwnedOfType owned Railroad)))
               else if diceTotal < 2 \<or> diceTotal > 12 then Inr None
               else rentResult (Some (diceTotal * (if countOwnedOfType owned Utility = 2 then 10 else 4)))))))"

definition canBuildHouse :: "property_state list \<Rightarrow> int \<Rightarrow> int \<Rightarrow> bool" where
  "canBuildHouse properties pos owner =
     (if \<not> isValidPropertyStates properties then False
      else case js_index properties pos of
        None \<Rightarrow> False
      | Some property \<Rightarrow> (case js_index BOARD_SPACES pos of
        None \<Rightarrow> False
      | Some definition' \<Rightarrow>
          if propertyType definition' \<noteq> Street \<or> ownerSeatIndex property \<noteq> Some owner \<or>
             mortgaged property \<or> hasHotel property \<or> houses property \<ge> 4 \<or>
             \<not> hasMonopoly properties owner (colorGroup definition')
          then False
          else list_all (\<lambda>groupPos. houses property + 1 \<le>
                   (case js_index properties groupPos of None \<Rightarrow> -1 | Some p \<Rightarrow> houses p) + 1)
                 (COLOR_GROUP_POSITIONS (colorGroup definition'))))"

definition canSellHouse :: "property_state list \<Rightarrow> int \<Rightarrow> int \<Rightarrow> bool" where
  "canSellHouse properties pos owner =
     (if \<not> isValidPropertyStates properties then False
      else case js_index properties pos of
        None \<Rightarrow> False
      | Some property \<Rightarrow> (case js_index BOARD_SPACES pos of
        None \<Rightarrow> False
      | Some definition' \<Rightarrow>
          if propertyType definition' \<noteq> Street \<or> ownerSeatIndex property \<noteq> Some owner \<or>
             hasHotel property \<or> houses property < 1 \<or>
             \<not> hasMonopoly properties owner (colorGroup definition')
          then False
          else (let newCount = houses property - 1 in
                list_all (\<lambda>groupPos. newCount \<ge>
                   max 0 ((case js_index properties groupPos of None \<Rightarrow> 0 | Some p \<Rightarrow> houses p) - 1))
                 (COLOR_GROUP_POSITIONS (colorGroup definition')))))"

section \<open>The validator, index by index\<close>

text \<open>The early-return callback as one conjunction.\<close>

lemma validPropertyAt_iff:
  "validPropertyAt i p \<longleftrightarrow>
     (\<exists>d. js_index BOARD_SPACES i = Some d \<and> propPosition p = i \<and>
       (\<forall>s. ownerSeatIndex p = Some s \<longrightarrow> 0 \<le> s \<and> s \<le> 3) \<and>
       0 \<le> houses p \<and> houses p \<le> 4 \<and> (hasHotel p \<longrightarrow> houses p = 0) \<and>
       (mortgaged p \<longrightarrow> houses p = 0 \<and> \<not> hasHotel p) \<and>
       (propertyType d \<noteq> Street \<longrightarrow> houses p = 0 \<and> \<not> hasHotel p) \<and>
       (isOwnableSpace d \<or> ownerSeatIndex p = None) \<and>
       (ownerSeatIndex p = None \<longrightarrow> \<not> mortgaged p \<and> houses p = 0 \<and> \<not> hasHotel p))"
proof (cases "js_index BOARD_SPACES i")
  case None
  then show ?thesis by (simp add: validPropertyAt_def)
next
  case (Some d)
  show ?thesis
  proof (cases "ownerSeatIndex p")
    case None
    with Some show ?thesis by (simp add: validPropertyAt_def) auto
  next
    case (Some s)
    with \<open>js_index BOARD_SPACES i = Some d\<close> show ?thesis
      by (simp add: validPropertyAt_def not_less) auto
  qed
qed

lemma isValidPropertyStates_iff:
  "isValidPropertyStates ps \<longleftrightarrow> length ps = 40 \<and> (\<forall>k < 40. validPropertyAt (int k) (ps ! k))"
  by (auto simp: isValidPropertyStates_def every_index_iff)

lemma valid_properties_length: "isValidPropertyStates ps \<Longrightarrow> length ps = 40"
  by (simp add: isValidPropertyStates_iff)

lemma valid_properties_index:
  assumes "isValidPropertyStates ps" "js_index ps i = Some p"
  shows "validPropertyAt i p" "propPosition p = i"
proof -
  from assms show "validPropertyAt i p"
    by (simp add: isValidPropertyStates_def every_index_js)
  then show "propPosition p = i"
    by (auto simp: validPropertyAt_iff)
qed

lemma valid_property_houses: "validPropertyAt i p \<Longrightarrow> 0 \<le> houses p \<and> houses p \<le> 4"
  by (auto simp: validPropertyAt_iff)

lemma valid_property_owner: "validPropertyAt i p \<Longrightarrow> ownerSeatIndex p = Some s \<Longrightarrow> 0 \<le> s \<and> s \<le> 3"
  by (auto simp: validPropertyAt_iff)

lemma valid_property_position: "validPropertyAt i p \<Longrightarrow> propPosition p = i"
  by (auto simp: validPropertyAt_iff)

lemma valid_properties_read:
  assumes "isValidPropertyStates ps" "0 \<le> i" "i < 40"
  obtains p where "js_index ps i = Some p" "validPropertyAt i p"
proof -
  from assms have "js_index ps i = Some (ps ! nat i)"
    by (simp add: js_index_def valid_properties_length)
  with that valid_properties_index(1) [OF assms(1)] show thesis by blast
qed

lemma valid_properties_member:
  assumes "isValidPropertyStates ps" "p \<in> set ps"
  obtains i where "js_index ps i = Some p" "validPropertyAt i p"
proof -
  from assms(2) obtain k where "k < length ps" "p = ps ! k" by (auto simp: in_set_conv_nth)
  then have "js_index ps (int k) = Some p" by simp
  with that valid_properties_index(1) [OF assms(1)] show thesis by blast
qed

lemma createPropertyStates_valid: "isValidPropertyStates createPropertyStates"
proof -
  have "validPropertyAt i \<lparr>propPosition = spacePosition d, ownerSeatIndex = None, houses = 0,
          hasHotel = False, mortgaged = False\<rparr>"
    if "js_index BOARD_SPACES i = Some d" for i d
    using space_position [OF that] that by (simp add: validPropertyAt_def)
  then show ?thesis
    by (auto simp: isValidPropertyStates_def every_index_js createPropertyStates_def)
qed

section \<open>Rewriting properties one by one\<close>

text \<open>
  Building, buying, trading and liquidating all map a function over the property list that keeps
  each property at its position. What such a rewrite owes the validator is a condition on single
  properties; this interface turns it into a statement about the list.
\<close>

locale property_rewrite =
  fixes rewrite :: "property_state \<Rightarrow> property_state"
  assumes keeps_position: "propPosition (rewrite p) = propPosition p"
begin

lemma rewrite_read:
  "js_index (map rewrite ps) i = map_option rewrite (js_index ps i)"
  by simp

lemma rewrite_valid:
  assumes "isValidPropertyStates ps"
    and "\<And>i p. js_index ps i = Some p \<Longrightarrow> validPropertyAt i p \<Longrightarrow> validPropertyAt i (rewrite p)"
  shows "isValidPropertyStates (map rewrite ps)"
  using assms by (auto simp: isValidPropertyStates_def every_index_js)

lemma rewrite_positions: "map propPosition (map rewrite ps) = map propPosition ps"
  by (simp add: keeps_position)

end

section \<open>Rewriting the property at one position\<close>

text \<open>\<open>properties.map(p => p.position === position ? {...p, ...update} : p)\<close>\<close>

definition update_property ::
  "int \<Rightarrow> (property_state \<Rightarrow> property_state) \<Rightarrow> property_state list \<Rightarrow> property_state list" where
  "update_property pos f ps = map (\<lambda>p. if propPosition p = pos then f p else p) ps"

lemma length_update_property [simp]: "length (update_property pos f ps) = length ps"
  by (simp add: update_property_def)

lemma update_property_eq:
  assumes "isValidPropertyStates ps" "js_index ps pos = Some q"
  shows "update_property pos f ps = ps[nat pos := f q]"
proof (rule nth_equalityI)
  fix k
  assume "k < length (update_property pos f ps)"
  then have k: "k < length ps" by simp
  with valid_properties_index(2) [OF assms(1)] have "propPosition (ps ! k) = int k" by simp
  with k assms(2) show "update_property pos f ps ! k = ps[nat pos := f q] ! k"
    by (auto simp: update_property_def nth_list_update js_index_Some_iff)
qed simp

lemma js_index_update_property:
  assumes "isValidPropertyStates ps"
  shows "js_index (update_property pos f ps) i =
           (if i = pos then map_option f (js_index ps i) else js_index ps i)"
  using valid_properties_index(2) [OF assms, of i]
  by (cases "js_index ps i") (auto simp: update_property_def)

lemma update_property_valid:
  assumes "isValidPropertyStates ps"
    and "\<And>p. js_index ps pos = Some p \<Longrightarrow> validPropertyAt pos p \<Longrightarrow> validPropertyAt pos (f p)"
  shows "isValidPropertyStates (update_property pos f ps)"
  unfolding isValidPropertyStates_def every_index_js
proof (intro conjI allI impI)
  show "length (update_property pos f ps) = length BOARD_SPACES"
    using assms(1) by (simp add: valid_properties_length)
next
  fix i p
  assume "js_index (update_property pos f ps) i = Some p"
  then show "validPropertyAt i p"
    using assms valid_properties_index(1) [OF assms(1)]
    by (auto simp: js_index_update_property split: if_splits)
qed

section \<open>Rent\<close>

lemma rentResult_total: "(\<And>v. r = Some v \<Longrightarrow> 0 \<le> v \<and> v \<le> 1000000) \<Longrightarrow> rentResult r = Inr r"
  by (cases r) (auto simp: rentResult_def matchCash_small)

lemma js_index_rent_bounds:
  "js_index BOARD_SPACES i = Some d \<Longrightarrow> js_index (rent d) j = Some v \<Longrightarrow> 0 \<le> v \<and> v \<le> 2000"
  by (meson js_index_in_set space_rent_bounds)

lemma streetRent_bounds:
  assumes "js_index BOARD_SPACES i = Some d" "streetRent ps d p owner = Some v"
  shows "0 \<le> v \<and> v \<le> 4000"
  using assms(2) js_index_rent_bounds [OF assms(1)]
  by (fastforce simp: streetRent_def split: option.splits if_splits)

lemma railroad_table_bounds:
  "js_index [0, 25, 50, 100, 200 :: int] k = Some v \<Longrightarrow> 0 \<le> v \<and> v \<le> 200"
  using js_index_in_set [of "[0, 25, 50, 100, 200]" k v] by auto

text \<open>Rent never throws, and an amount it returns fits match cash.\<close>

lemma calculateRent_cases:
  obtains "calculateRent ps pos dice = Inr None"
  | v where "calculateRent ps pos dice = Inr (Some v)" "0 \<le> v" "v \<le> 4000"
proof -
  have total: "\<exists>r'. rentResult r = Inr r' \<and> (\<forall>v. r' = Some v \<longrightarrow> 0 \<le> v \<and> v \<le> 4000)"
    if "\<And>v. r = Some v \<Longrightarrow> 0 \<le> v \<and> v \<le> 4000" for r
  proof -
    from that have "rentResult r = Inr r" by (intro rentResult_total) force
    with that show ?thesis by simp
  qed
  have street: "\<exists>r'. rentResult (streetRent ps d p s) = Inr r' \<and> (\<forall>v. r' = Some v \<longrightarrow> 0 \<le> v \<and> v \<le> 4000)"
    if "js_index BOARD_SPACES pos = Some d" for d p s
    using streetRent_bounds [OF that] by (intro total)
  have rail: "\<exists>r'. rentResult (js_index [0, 25, 50, 100, 200] k) = Inr r' \<and> (\<forall>v. r' = Some v \<longrightarrow> 0 \<le> v \<and> v \<le> 4000)" for k
    using railroad_table_bounds by (intro total) fastforce
  have util: "\<exists>r'. rentResult (Some (dice * (if b then 10 else 4))) = Inr r' \<and> (\<forall>v. r' = Some v \<longrightarrow> 0 \<le> v \<and> v \<le> 4000)"
    if "\<not> (dice < 2 \<or> dice > 12)" for b
    using that by (intro total) (auto split: if_splits)
  have "\<exists>r. calculateRent ps pos dice = Inr r \<and> (\<forall>v. r = Some v \<longrightarrow> 0 \<le> v \<and> v \<le> 4000)"
    unfolding calculateRent_def Let_def by (simp add: street rail util split: option.split)
  then show thesis using that by (metis option.exhaust)
qed

end
