(* ===== verification/Trade_Rules.thy ===== *)
theory Trade_Rules
  imports Property_Rules
begin

text \<open>
  \<open>rules/trade-rules.ts\<close>: pending trades, their expiry, and the four trade mutations. The rules are
  written over every player record that has a seat and cash.
\<close>

section \<open>Terms\<close>

datatype trade_terms =
    MoneyOnly (offeredCash: int) (requestedCash: int)
  | PropertyOnly (offeredPosition: "int option") (requestedPosition: "int option")
  | MoneyForProperty int int
  | PropertyForMoney int int

record pending_trade =
  tradeId :: string
  proposerSeatIndex :: int
  receiverSeatIndex :: int
  tradeTerms :: trade_terms
  createdAtMs :: int
  expiresAtMs :: int

datatype trade_error_code =
    INVALID_TRADE_STATE
  | INVALID_TRADE
  | TRADE_ID_CONFLICT
  | TOO_MANY_ACTIVE_TRADES
  | TRADE_INSUFFICIENT_CASH
  | PROPERTY_NOT_OWNED
  | TRADE_PROPERTY_MORTGAGED
  | TRADE_NOT_FOUND
  | TRADE_EXPIRED
  | NOT_TRADE_TARGET
  | NOT_TRADE_PROPOSER
  | TRADE_ARITHMETIC_OVERFLOW

record 'p trade_mutation =
  tm_trades :: "pending_trade list"
  tm_players :: "'p option list"
  tm_properties :: "property_state list"
  tm_trade :: "pending_trade option"
  tm_removedTradeIds :: "string list"

definition isPosition :: "int \<Rightarrow> bool" where
  "isPosition value \<longleftrightarrow> value \<ge> 0 \<and> value < 40"

definition isSeatIndex :: "int \<Rightarrow> bool" where
  "isSeatIndex value \<longleftrightarrow> value \<ge> 0 \<and> value < 4"

fun cashTerms :: "trade_terms \<Rightarrow> int \<times> int" where
  "cashTerms (MoneyOnly offered requested) = (offered, requested)"
| "cashTerms (MoneyForProperty offered _) = (offered, 0)"
| "cashTerms (PropertyForMoney _ requested) = (0, requested)"
| "cashTerms (PropertyOnly _ _) = (0, 0)"

fun propertyTerms :: "trade_terms \<Rightarrow> int option \<times> int option" where
  "propertyTerms (PropertyOnly offered requested) = (offered, requested)"
| "propertyTerms (MoneyForProperty _ requested) = (None, Some requested)"
| "propertyTerms (PropertyForMoney offered _) = (Some offered, None)"
| "propertyTerms (MoneyOnly _ _) = (None, None)"

fun validTerms :: "trade_terms \<Rightarrow> bool" where
  "validTerms (MoneyOnly offered requested) \<longleftrightarrow>
     isCash offered \<and> isCash requested \<and> (offered > 0 \<or> requested > 0)"
| "validTerms (PropertyOnly offered requested) \<longleftrightarrow>
     (case offered of None \<Rightarrow> True | Some p \<Rightarrow> isPosition p) \<and>
     (case requested of None \<Rightarrow> True | Some p \<Rightarrow> isPosition p) \<and>
     (offered \<noteq> None \<or> requested \<noteq> None) \<and> offered \<noteq> requested"
| "validTerms (MoneyForProperty offered requested) \<longleftrightarrow>
     isCash offered \<and> offered > 0 \<and> isPosition requested"
| "validTerms (PropertyForMoney offered requested) \<longleftrightarrow>
     isPosition offered \<and> isCash requested \<and> requested > 0"

definition validPendingTrade :: "pending_trade \<Rightarrow> bool" where
  "validPendingTrade trade =
     (if \<not> validOpaqueId (tradeId trade) \<or>
         \<not> isSeatIndex (proposerSeatIndex trade) \<or> \<not> isSeatIndex (receiverSeatIndex trade) \<or>
         proposerSeatIndex trade = receiverSeatIndex trade \<or>
         \<not> validTerms (tradeTerms trade) \<or>
         \<not> isSafeInteger (createdAtMs trade) \<or> createdAtMs trade < 0
      then False
      else let expectedExpiry = createdAtMs trade + tradeExpiryMs in
        isSafeInteger expectedExpiry \<and> expiresAtMs trade = expectedExpiry)"

section \<open>Well-formed books\<close>

text \<open>The loop that collects the occupied seats; \<open>None\<close> when a slot is malformed.\<close>

fun collectOccupied :: "int \<Rightarrow> 'a trade_player_scheme option list \<Rightarrow> int list option" where
  "collectOccupied index [] = Some []"
| "collectOccupied index (None # rest) = collectOccupied (index + 1) rest"
| "collectOccupied index (Some player # rest) =
     (if seatIndex player \<noteq> index \<or> \<not> isCash (cash player) then None
      else map_option ((#) index) (collectOccupied (index + 1) rest))"

text \<open>The \<open>every\<close> over trades with the set of identifiers seen so far.\<close>

fun validTradesFrom :: "int list \<Rightarrow> string list \<Rightarrow> pending_trade list \<Rightarrow> bool" where
  "validTradesFrom occupied seen [] = True"
| "validTradesFrom occupied seen (trade # rest) =
     (if \<not> validPendingTrade trade \<or> tradeId trade \<in> set seen \<or>
         proposerSeatIndex trade \<notin> set occupied \<or> receiverSeatIndex trade \<notin> set occupied \<or>
         proposerSeatIndex trade = receiverSeatIndex trade
      then False else validTradesFrom occupied (tradeId trade # seen) rest)"

definition validTradeState ::
  "pending_trade list \<Rightarrow> 'a trade_player_scheme option list \<Rightarrow> property_state list \<Rightarrow> bool" where
  "validTradeState trades players properties =
     (if int (length trades) > maximumActiveTrades \<or> length players \<noteq> 4 \<or>
         \<not> isValidPropertyStates properties
      then False
      else case collectOccupied 0 players of
        None \<Rightarrow> False
      | Some occupied \<Rightarrow>
          if list_ex (\<lambda>property. case ownerSeatIndex property of
                        None \<Rightarrow> False | Some owner \<Rightarrow> owner \<notin> set occupied) properties
          then False
          else validTradesFrom occupied [] trades)"

definition validateProperty ::
  "property_state list \<Rightarrow> int option \<Rightarrow> int \<Rightarrow> trade_error_code option" where
  "validateProperty properties pos owner =
     (case pos of
        None \<Rightarrow> None
      | Some p \<Rightarrow> (case js_index properties p of
          None \<Rightarrow> Some PROPERTY_NOT_OWNED
        | Some property \<Rightarrow>
            if ownerSeatIndex property \<noteq> Some owner then Some PROPERTY_NOT_OWNED
            else if mortgaged property then Some TRADE_PROPERTY_MORTGAGED else None))"

section \<open>Operations\<close>

definition cleanupExpiredTrades ::
  "pending_trade list \<Rightarrow> int \<Rightarrow> (pending_trade list \<times> string list) option" where
  "cleanupExpiredTrades trades nowMs =
     (if \<not> list_all validPendingTrade trades \<or> \<not> isSafeInteger nowMs \<or> nowMs < 0 then None
      else Some (filter (\<lambda>trade. expiresAtMs trade > nowMs) trades,
                 map tradeId (filter (\<lambda>trade. expiresAtMs trade \<le> nowMs) trades)))"

definition createTrade ::
  "pending_trade list \<Rightarrow> 'a trade_player_scheme option list \<Rightarrow> property_state list \<Rightarrow> string \<Rightarrow>
   int \<Rightarrow> int \<Rightarrow> trade_terms \<Rightarrow> int \<Rightarrow> trade_error_code + 'a trade_player_scheme trade_mutation" where
  "createTrade trades players properties wantedId proposerSeat receiverSeat terms nowMs =
     (if \<not> validTradeState trades players properties \<or> \<not> isSafeInteger nowMs \<or> nowMs < 0
      then Inl INVALID_TRADE_STATE
      else if \<not> validOpaqueId wantedId \<or> \<not> validTerms terms \<or> \<not> isSeatIndex proposerSeat \<or>
              \<not> isSeatIndex receiverSeat \<or> proposerSeat = receiverSeat
      then Inl INVALID_TRADE
      else case (seat_at players proposerSeat, seat_at players receiverSeat) of
        (Some proposer, Some receiver) \<Rightarrow>
          (case cleanupExpiredTrades trades nowMs of
             None \<Rightarrow> Inl INVALID_TRADE_STATE
           | Some (live, removed) \<Rightarrow>
               if list_ex (\<lambda>trade. tradeId trade = wantedId) trades then Inl TRADE_ID_CONFLICT
               else if int (length live) \<ge> maximumActiveTrades then Inl TOO_MANY_ACTIVE_TRADES
               else if cash proposer < fst (cashTerms terms) then Inl TRADE_INSUFFICIENT_CASH
               else (case validateProperty properties (fst (propertyTerms terms)) proposerSeat of
                 Some code \<Rightarrow> Inl code
               | None \<Rightarrow> (case validateProperty properties (snd (propertyTerms terms)) receiverSeat of
                 Some code \<Rightarrow> Inl code
               | None \<Rightarrow>
                   (let expires = nowMs + tradeExpiryMs in
                    if \<not> isSafeInteger expires then Inl INVALID_TRADE_STATE
                    else (let trade = \<lparr>tradeId = wantedId, proposerSeatIndex = proposerSeat,
                                      receiverSeatIndex = receiverSeat, tradeTerms = terms,
                                      createdAtMs = nowMs, expiresAtMs = expires\<rparr> in
                      Inr \<lparr>tm_trades = live @ [trade], tm_players = players,
                           tm_properties = properties, tm_trade = Some trade,
                           tm_removedTradeIds = removed\<rparr>)))))
      | _ \<Rightarrow> Inl INVALID_TRADE)"

text \<open>Both cash legs of an accepted trade: debits first, then credits; the answer is the
  proposer's and the receiver's cash.\<close>

definition settleTradeCash :: "int \<Rightarrow> int \<Rightarrow> trade_terms \<Rightarrow> trade_error_code + (int \<times> int)" where
  "settleTradeCash proposerCash receiverCash terms =
     (let (offered, requested) = cashTerms terms in
      case (checkedSubtractMatchCash proposerCash offered, checkedSubtractMatchCash receiverCash requested) of
        (Some proposerAfterDebit, Some receiverAfterDebit) \<Rightarrow>
          (case (checkedAddMatchCash receiverAfterDebit offered,
                 checkedAddMatchCash proposerAfterDebit requested) of
             (Some receiverNext, Some proposerNext) \<Rightarrow> Inr (proposerNext, receiverNext)
           | _ \<Rightarrow> Inl TRADE_ARITHMETIC_OVERFLOW)
      | _ \<Rightarrow> Inl TRADE_INSUFFICIENT_CASH)"

definition swapTradeCash ::
  "pending_trade \<Rightarrow> int \<Rightarrow> int \<Rightarrow> 'a trade_player_scheme option list \<Rightarrow> 'a trade_player_scheme option list" where
  "swapTradeCash trade proposerCash receiverCash players =
     map_index (\<lambda>index slot. case slot of
        None \<Rightarrow> None
      | Some player \<Rightarrow>
          Some (if index = proposerSeatIndex trade then player\<lparr>cash := proposerCash\<rparr>
                else if index = receiverSeatIndex trade then player\<lparr>cash := receiverCash\<rparr>
                else player)) players"

definition swapTradeProperty :: "pending_trade \<Rightarrow> property_state \<Rightarrow> property_state" where
  "swapTradeProperty trade property =
     (let (offered, requested) = propertyTerms (tradeTerms trade) in
      if Some (propPosition property) = offered
      then property\<lparr>ownerSeatIndex := Some (receiverSeatIndex trade)\<rparr>
      else if Some (propPosition property) = requested
      then property\<lparr>ownerSeatIndex := Some (proposerSeatIndex trade)\<rparr>
      else property)"

definition acceptTrade ::
  "pending_trade list \<Rightarrow> 'a trade_player_scheme option list \<Rightarrow> property_state list \<Rightarrow> string \<Rightarrow>
   int \<Rightarrow> int \<Rightarrow> trade_error_code + 'a trade_player_scheme trade_mutation" where
  "acceptTrade trades players properties wantedId actorSeat nowMs =
     (if \<not> validTradeState trades players properties \<or> \<not> isSafeInteger nowMs \<or> nowMs < 0
      then Inl INVALID_TRADE_STATE
      else if \<not> validOpaqueId wantedId \<or> \<not> isSeatIndex actorSeat then Inl INVALID_TRADE
      else case find (\<lambda>candidate. tradeId candidate = wantedId) trades of
        None \<Rightarrow> Inl TRADE_NOT_FOUND
      | Some trade \<Rightarrow>
          if receiverSeatIndex trade \<noteq> actorSeat then Inl NOT_TRADE_TARGET
          else if expiresAtMs trade \<le> nowMs then Inl TRADE_EXPIRED
          else (case (seat_at players (proposerSeatIndex trade), seat_at players (receiverSeatIndex trade)) of
            (Some proposer, Some receiver) \<Rightarrow>
              (case settleTradeCash (cash proposer) (cash receiver) (tradeTerms trade) of
                 Inl code \<Rightarrow> Inl code
               | Inr (proposerCash, receiverCash) \<Rightarrow>
                 (case validateProperty properties (fst (propertyTerms (tradeTerms trade)))
                         (proposerSeatIndex trade) of
                    Some code \<Rightarrow> Inl code
                  | None \<Rightarrow>
                 (case validateProperty properties (snd (propertyTerms (tradeTerms trade)))
                         (receiverSeatIndex trade) of
                    Some code \<Rightarrow> Inl code
                  | None \<Rightarrow>
                      Inr \<lparr>tm_trades = filter (\<lambda>candidate. tradeId candidate \<noteq> wantedId) trades,
                           tm_players = swapTradeCash trade proposerCash receiverCash players,
                           tm_properties = map (swapTradeProperty trade) properties,
                           tm_trade = Some trade, tm_removedTradeIds = [wantedId]\<rparr>)))
          | _ \<Rightarrow> Inl INVALID_TRADE_STATE))"

datatype trade_role = ReceiverRole | ProposerRole

definition removeTrade ::
  "pending_trade list \<Rightarrow> 'a trade_player_scheme option list \<Rightarrow> property_state list \<Rightarrow> string \<Rightarrow>
   int \<Rightarrow> int \<Rightarrow> trade_role \<Rightarrow> trade_error_code + 'a trade_player_scheme trade_mutation" where
  "removeTrade trades players properties wantedId actorSeat nowMs role =
     (if \<not> validTradeState trades players properties then Inl INVALID_TRADE_STATE
      else if \<not> validOpaqueId wantedId \<or> \<not> isSeatIndex actorSeat then Inl INVALID_TRADE
      else case cleanupExpiredTrades trades nowMs of
        None \<Rightarrow> Inl INVALID_TRADE_STATE
      | Some (live, removed) \<Rightarrow> (case find (\<lambda>candidate. tradeId candidate = wantedId) live of
          None \<Rightarrow> Inl TRADE_NOT_FOUND
        | Some trade \<Rightarrow>
            if role = ReceiverRole \<and> receiverSeatIndex trade \<noteq> actorSeat then Inl NOT_TRADE_TARGET
            else if role = ProposerRole \<and> proposerSeatIndex trade \<noteq> actorSeat then Inl NOT_TRADE_PROPOSER
            else Inr \<lparr>tm_trades = filter (\<lambda>candidate. tradeId candidate \<noteq> wantedId) live,
                      tm_players = players, tm_properties = properties, tm_trade = Some trade,
                      tm_removedTradeIds = removed @ [wantedId]\<rparr>))"

definition rejectTrade ::
  "pending_trade list \<Rightarrow> 'a trade_player_scheme option list \<Rightarrow> property_state list \<Rightarrow> string \<Rightarrow>
   int \<Rightarrow> int \<Rightarrow> trade_error_code + 'a trade_player_scheme trade_mutation" where
  "rejectTrade trades players properties wantedId actorSeat nowMs =
     removeTrade trades players properties wantedId actorSeat nowMs ReceiverRole"

definition cancelTrade ::
  "pending_trade list \<Rightarrow> 'a trade_player_scheme option list \<Rightarrow> property_state list \<Rightarrow> string \<Rightarrow>
   int \<Rightarrow> int \<Rightarrow> trade_error_code + 'a trade_player_scheme trade_mutation" where
  "cancelTrade trades players properties wantedId actorSeat nowMs =
     removeTrade trades players properties wantedId actorSeat nowMs ProposerRole"

section \<open>The validators, declaratively\<close>

definition slot_ok :: "int \<Rightarrow> 'a trade_player_scheme option \<Rightarrow> bool" where
  "slot_ok i slot \<longleftrightarrow> (case slot of None \<Rightarrow> True | Some p \<Rightarrow> seatIndex p = i \<and> isCash (cash p))"

lemma collectOccupied_Some:
  "collectOccupied i ps = Some occ \<Longrightarrow>
     every_from i slot_ok ps \<and> (\<forall>s. s \<in> set occ \<longleftrightarrow> seat_at ps (s - i) \<noteq> None)"
proof (induction i ps arbitrary: occ rule: collectOccupied.induct)
  case (1 i)
  then show ?case by simp
next
  case (2 i rest)
  then show ?case by (auto simp: slot_ok_def seat_at_Cons diff_diff_eq)
next
  case (3 i p rest)
  then show ?case by (auto simp: slot_ok_def seat_at_Cons diff_diff_eq split: if_splits)
qed

lemma collectOccupied_total: "every_from i slot_ok ps \<Longrightarrow> \<exists>occ. collectOccupied i ps = Some occ"
  by (induction i ps rule: collectOccupied.induct) (auto simp: slot_ok_def)

lemma validPendingTrade_seats: "validPendingTrade t \<Longrightarrow> proposerSeatIndex t \<noteq> receiverSeatIndex t"
  by (auto simp: validPendingTrade_def)

lemma validTradesFrom_iff:
  "validTradesFrom occ seen ts \<longleftrightarrow>
     (\<forall>t \<in> set ts. validPendingTrade t \<and> proposerSeatIndex t \<in> set occ \<and> receiverSeatIndex t \<in> set occ \<and>
        tradeId t \<notin> set seen) \<and> distinct (map tradeId ts)"
proof (induction occ seen ts rule: validTradesFrom.induct)
  case (1 occ seen)
  then show ?case by simp
next
  case (2 occ seen t ts)
  show ?case
  proof (cases "validPendingTrade t \<and> tradeId t \<notin> set seen \<and> proposerSeatIndex t \<in> set occ \<and>
      receiverSeatIndex t \<in> set occ")
    case True
    with validPendingTrade_seats [of t] 2 show ?thesis by (auto simp: image_iff)
  next
    case False
    then show ?thesis by auto
  qed
qed

definition owners_seated :: "property_state list \<Rightarrow> 'a option list \<Rightarrow> bool" where
  "owners_seated properties players \<longleftrightarrow>
     (\<forall>p \<in> set properties. \<forall>s. ownerSeatIndex p = Some s \<longrightarrow> seat_at players s \<noteq> None)"

definition trades_seated :: "pending_trade list \<Rightarrow> 'a option list \<Rightarrow> bool" where
  "trades_seated trades players \<longleftrightarrow>
     (\<forall>t \<in> set trades. seat_at players (proposerSeatIndex t) \<noteq> None \<and>
        seat_at players (receiverSeatIndex t) \<noteq> None)"

text \<open>The validator is the conjunction its loops compute.\<close>

lemma validTradeState_iff:
  "validTradeState trades players properties \<longleftrightarrow>
     length trades \<le> 20 \<and> length players = 4 \<and> isValidPropertyStates properties \<and>
     every_index slot_ok players \<and> owners_seated properties players \<and>
     list_all validPendingTrade trades \<and> distinct (map tradeId trades) \<and> trades_seated trades players"
  (is "_ \<longleftrightarrow> ?rhs")
proof (cases "collectOccupied 0 players")
  case None
  with collectOccupied_total [of 0 players] show ?thesis
    by (auto simp: validTradeState_def every_index_def)
next
  case (Some occ)
  from collectOccupied_Some [OF this] have
    slots: "every_index slot_ok players" and
    occ: "\<And>s. s \<in> set occ \<longleftrightarrow> seat_at players s \<noteq> None"
    unfolding every_index_def by auto
  have "list_ex (\<lambda>property. case ownerSeatIndex property of
            None \<Rightarrow> False | Some owner \<Rightarrow> owner \<notin> set occ) properties \<longleftrightarrow> \<not> owners_seated properties players"
    by (auto simp: list_ex_iff owners_seated_def occ split: option.splits)
  moreover have "validTradesFrom occ [] trades \<longleftrightarrow>
      list_all validPendingTrade trades \<and> distinct (map tradeId trades) \<and> trades_seated trades players"
    by (auto simp: validTradesFrom_iff list_all_iff trades_seated_def occ)
  ultimately show ?thesis
    using Some slots by (auto simp: validTradeState_def policy_simps)
qed

section \<open>What the trade mutations promise\<close>

text \<open>An accepted swap is two seat updates, one at each end.\<close>

lemma swapTradeCash_eq:
  assumes "proposerSeatIndex t \<noteq> receiverSeatIndex t"
  shows "swapTradeCash t a b ps =
    update_seat (receiverSeatIndex t) (\<lambda>p. p\<lparr>cash := b\<rparr>)
      (update_seat (proposerSeatIndex t) (\<lambda>p. p\<lparr>cash := a\<rparr>) ps)"
  by (rule nth_equalityI)
    (use assms in \<open>auto simp: swapTradeCash_def nth_update_seat split: option.split\<close>)

lemma settleTradeCash_sum:
  assumes "settleTradeCash p r terms = Inr (p', r')" "isCash p" "isCash r"
    "validTerms terms"
  shows "p' + r' = p + r" "isCash p'" "isCash r'"
proof -
  have nonneg: "0 \<le> fst (cashTerms terms)" "0 \<le> snd (cashTerms terms)"
    using assms(4) by (cases terms; simp add: isCash_def)+
  show "p' + r' = p + r" "isCash p'" "isCash r'"
    using assms(1-3) nonneg
    by (auto simp: settleTradeCash_def Let_def checkedAdd_Some_iff checkedSubtract_Some_iff isCash_def
        split: prod.splits option.splits)
qed

interpretation trade_swap: property_rewrite "swapTradeProperty t" for t
  by unfold_locales (auto simp: swapTradeProperty_def Let_def split: prod.split)

lemma validateProperty_None:
  assumes "validateProperty ps pos owner = None" "pos = Some i"
  shows "\<exists>p. js_index ps i = Some p \<and> ownerSeatIndex p = Some owner \<and> \<not> mortgaged p"
  using assms by (auto simp: validateProperty_def split: option.splits if_splits)

lemma swapTradeProperty_valid:
  assumes "isValidPropertyStates ps" "isSeatIndex (proposerSeatIndex t)" "isSeatIndex (receiverSeatIndex t)"
    "validateProperty ps (fst (propertyTerms (tradeTerms t))) (proposerSeatIndex t) = None"
    "validateProperty ps (snd (propertyTerms (tradeTerms t))) (receiverSeatIndex t) = None"
  shows "isValidPropertyStates (map (swapTradeProperty t) ps)"
proof (rule trade_swap.rewrite_valid [OF assms(1)])
  fix i p
  assume read: "js_index ps i = Some p" and valid: "validPropertyAt i p"
  then have pos: "propPosition p = i" by (rule_tac valid_property_position)
  have owned: "\<exists>s. ownerSeatIndex p = Some s"
    if "Some i = fst (propertyTerms (tradeTerms t)) \<or> Some i = snd (propertyTerms (tradeTerms t))"
    using that read validateProperty_None [OF assms(4), of i] validateProperty_None [OF assms(5), of i]
    by auto
  have reown: "validPropertyAt i (p\<lparr>ownerSeatIndex := Some s\<rparr>)"
    if "isSeatIndex s" "\<exists>s'. ownerSeatIndex p = Some s'" for s
    using valid that by (auto simp: validPropertyAt_iff isSeatIndex_def)
  show "validPropertyAt i (swapTradeProperty t p)"
    using valid owned reown assms(2,3) by (auto simp: swapTradeProperty_def pos Let_def split: prod.splits)
qed

lemma validPendingTrade_isSeat:
  "validPendingTrade t \<Longrightarrow> isSeatIndex (proposerSeatIndex t) \<and> isSeatIndex (receiverSeatIndex t)"
  by (auto simp: validPendingTrade_def split: if_splits)

lemma validPendingTrade_terms: "validPendingTrade t \<Longrightarrow> validTerms (tradeTerms t)"
  by (auto simp: validPendingTrade_def split: if_splits)

text \<open>Everything an accepted \<open>acceptTrade\<close> did.\<close>

lemma acceptTrade_Inr:
  assumes "acceptTrade trades players properties wanted actor now = Inr m"
  obtains t proposer receiver a b where
    "validTradeState trades players properties"
    "t \<in> set trades" "tradeId t = wanted" "receiverSeatIndex t = actor" "now < expiresAtMs t"
    "seat_at players (proposerSeatIndex t) = Some proposer"
    "seat_at players (receiverSeatIndex t) = Some receiver"
    "settleTradeCash (cash proposer) (cash receiver) (tradeTerms t) = Inr (a, b)"
    "validateProperty properties (fst (propertyTerms (tradeTerms t))) (proposerSeatIndex t) = None"
    "validateProperty properties (snd (propertyTerms (tradeTerms t))) (receiverSeatIndex t) = None"
    "m = \<lparr>tm_trades = filter (\<lambda>candidate. tradeId candidate \<noteq> wanted) trades,
          tm_players = swapTradeCash t a b players,
          tm_properties = map (swapTradeProperty t) properties,
          tm_trade = Some t, tm_removedTradeIds = [wanted]\<rparr>"
  using assms unfolding acceptTrade_def
  by (auto split: if_splits option.splits sum.splits simp: find_Some_iff)

lemma createTrade_Inr:
  assumes "createTrade trades players properties wanted a b terms now = Inr m"
  obtains proposer receiver t where
    "validTradeState trades players properties" "validOpaqueId wanted" "validTerms terms"
    "isSafeInteger now" "0 \<le> now" "isSafeInteger (now + tradeExpiryMs)"
    "isSeatIndex a" "isSeatIndex b" "a \<noteq> b"
    "seat_at players a = Some proposer" "seat_at players b = Some receiver"
    "wanted \<notin> tradeId ` set trades"
    "length (filter (\<lambda>trade. expiresAtMs trade > now) trades) < 20"
    "t = \<lparr>tradeId = wanted, proposerSeatIndex = a, receiverSeatIndex = b, tradeTerms = terms,
          createdAtMs = now, expiresAtMs = now + tradeExpiryMs\<rparr>"
    "m = \<lparr>tm_trades = filter (\<lambda>trade. expiresAtMs trade > now) trades @ [t], tm_players = players,
          tm_properties = properties, tm_trade = Some t,
          tm_removedTradeIds = map tradeId (filter (\<lambda>trade. expiresAtMs trade \<le> now) trades)\<rparr>"
  using assms unfolding createTrade_def
  by (auto split: if_splits option.splits
      simp: Let_def cleanupExpiredTrades_def list_ex_iff policy_simps image_iff)

lemma removeTrade_Inr:
  assumes "removeTrade trades players properties wanted actor now role = Inr m"
  obtains t where
    "validTradeState trades players properties" "t \<in> set trades" "tradeId t = wanted"
    "now < expiresAtMs t"
    "role = ReceiverRole \<Longrightarrow> receiverSeatIndex t = actor"
    "role = ProposerRole \<Longrightarrow> proposerSeatIndex t = actor"
    "m = \<lparr>tm_trades = filter (\<lambda>c. tradeId c \<noteq> wanted) (filter (\<lambda>trade. expiresAtMs trade > now) trades),
          tm_players = players, tm_properties = properties, tm_trade = Some t,
          tm_removedTradeIds = map tradeId (filter (\<lambda>trade. expiresAtMs trade \<le> now) trades) @ [wanted]\<rparr>"
proof -
  let ?live = "filter (\<lambda>trade. expiresAtMs trade > now) trades"
  from assms obtain t where t: "find (\<lambda>c. tradeId c = wanted) ?live = Some t"
    and rest: "validTradeState trades players properties"
      "role = ReceiverRole \<longrightarrow> receiverSeatIndex t = actor" "role = ProposerRole \<longrightarrow> proposerSeatIndex t = actor"
      "m = \<lparr>tm_trades = filter (\<lambda>c. tradeId c \<noteq> wanted) ?live,
          tm_players = players, tm_properties = properties, tm_trade = Some t,
          tm_removedTradeIds = map tradeId (filter (\<lambda>trade. expiresAtMs trade \<le> now) trades) @ [wanted]\<rparr>"
    by (auto simp: removeTrade_def cleanupExpiredTrades_def split: if_splits option.splits)
  from t have "t \<in> set ?live" "tradeId t = wanted"
    by (auto simp: find_Some_iff simp del: set_filter intro: nth_mem)
  then show thesis using rest by (intro that [of t]) auto
qed

lemma trade_ids_unique:
  assumes "validTradeState trades players properties" "t \<in> set trades" "u \<in> set trades"
    "tradeId t = tradeId u"
  shows "t = u"
  using assms by (auto simp: validTradeState_iff distinct_map dest: inj_onD)

lemma expired_live_apart:
  assumes "validTradeState trades players properties" "t \<in> set trades" "u \<in> set trades"
    "expiresAtMs t \<le> now" "now < expiresAtMs u"
  shows "tradeId u \<noteq> tradeId t"
  using trade_ids_unique [OF assms(1-3)] assms(4,5) by auto

text \<open>A book stays well formed when trades are dropped and players keep seats.\<close>

lemma validTradeState_filter:
  assumes "validTradeState trades players properties"
  shows "validTradeState (filter P trades) players properties"
  using assms
  by (auto simp: validTradeState_iff list_all_iff trades_seated_def distinct_map_filter
      intro: le_trans [OF length_filter_le])

definition building_view :: "property_state list \<Rightarrow> (int \<times> bool \<times> bool) list" where
  "building_view ps = map (\<lambda>p. (houses p, hasHotel p, mortgaged p)) ps"

locale trade_operation =
  fixes op :: "pending_trade list \<Rightarrow> 'a trade_player_scheme option list \<Rightarrow> property_state list \<Rightarrow>
    trade_error_code + 'a trade_player_scheme trade_mutation"
  assumes needs_book: "op trades players properties = Inr m \<Longrightarrow> validTradeState trades players properties"
    and keeps_book: "op trades players properties = Inr m \<Longrightarrow>
      validTradeState (tm_trades m) (tm_players m) (tm_properties m)"
    and keeps_money: "op trades players properties = Inr m \<Longrightarrow> totalCash (tm_players m) = totalCash players"
    and keeps_players: "op trades players properties = Inr m \<Longrightarrow> cash_only players (tm_players m)"
    and keeps_buildings: "op trades players properties = Inr m \<Longrightarrow>
      building_view (tm_properties m) = building_view properties"
    and drops_removed: "op trades players properties = Inr m \<Longrightarrow>
      set (tm_removedTradeIds m) \<inter> tradeId ` set (tm_trades m) = {}"
begin

text \<open>Whoever held property or an open trade still does so from an occupied seat.\<close>

lemma stays_seated:
  assumes "op trades players properties = Inr m"
  shows "owners_seated (tm_properties m) (tm_players m)" "trades_seated (tm_trades m) (tm_players m)"
  using keeps_book [OF assms] by (simp_all add: validTradeState_iff)

end

interpretation trade_create: trade_operation
  "\<lambda>trades players properties. createTrade trades players properties wanted a b terms now"
  for wanted a b terms now
proof (unfold_locales, goal_cases)
  case (2 trades players properties m)
  from 2 show ?case
  proof (rule createTrade_Inr)
    fix proposer receiver t
    let ?live = "filter (\<lambda>trade. expiresAtMs trade > now) trades"
    assume h: "validTradeState trades players properties" "validOpaqueId wanted" "validTerms terms"
      "isSafeInteger now" "0 \<le> now" "isSafeInteger (now + tradeExpiryMs)"
      "isSeatIndex a" "isSeatIndex b" "a \<noteq> b"
      "seat_at players a = Some proposer" "seat_at players b = Some receiver"
      "wanted \<notin> tradeId ` set trades" "length ?live < 20"
      "t = \<lparr>tradeId = wanted, proposerSeatIndex = a, receiverSeatIndex = b, tradeTerms = terms,
            createdAtMs = now, expiresAtMs = now + tradeExpiryMs\<rparr>"
      "m = \<lparr>tm_trades = ?live @ [t], tm_players = players, tm_properties = properties, tm_trade = Some t,
            tm_removedTradeIds = map tradeId (filter (\<lambda>trade. expiresAtMs trade \<le> now) trades)\<rparr>"
    from h have "validPendingTrade t" by (simp add: validPendingTrade_def Let_def)
    with h validTradeState_filter [OF h(1), of "\<lambda>trade. expiresAtMs trade > now"] show ?thesis
      by (auto simp: validTradeState_iff trades_seated_def)
  qed
next
  case (6 trades players properties m)
  then show ?case by (auto elim!: createTrade_Inr simp: expired_live_apart)
qed (auto elim!: createTrade_Inr)

interpretation trade_remove: trade_operation
  "\<lambda>trades players properties. removeTrade trades players properties wanted actor now role"
  for wanted actor now role
proof (unfold_locales, goal_cases)
  case (2 trades players properties m)
  then show ?case by (auto elim!: removeTrade_Inr intro!: validTradeState_filter)
next
  case (6 trades players properties m)
  then show ?case by (auto elim!: removeTrade_Inr simp: expired_live_apart)
qed (auto elim!: removeTrade_Inr)

text \<open>The accepting operation does move cash and property, between the two parties only.\<close>

lemma cash_only_seats:
  "cash_only ps qs \<longleftrightarrow>
     length ps = length qs \<and>
     (\<forall>i. map_option (\<lambda>p. p\<lparr>cash := 0\<rparr>) (seat_at ps i) = map_option (\<lambda>p. p\<lparr>cash := 0\<rparr>) (seat_at qs i))"
proof
  assume c: "cash_only ps qs"
  then have len: "length ps = length qs" by (auto simp: cash_only_def dest: list_all2_lengthD)
  with c show "length ps = length qs \<and>
     (\<forall>i. map_option (\<lambda>p. p\<lparr>cash := 0\<rparr>) (seat_at ps i) = map_option (\<lambda>p. p\<lparr>cash := 0\<rparr>) (seat_at qs i))"
    by (auto simp: cash_only_def seat_at_def js_index_def list_all2_conv_all_nth)
next
  assume h: "length ps = length qs \<and>
     (\<forall>i. map_option (\<lambda>p. p\<lparr>cash := 0\<rparr>) (seat_at ps i) = map_option (\<lambda>p. p\<lparr>cash := 0\<rparr>) (seat_at qs i))"
  show "cash_only ps qs"
    unfolding cash_only_def list_all2_conv_all_nth
  proof (intro conjI allI impI)
    fix k assume "k < length ps"
    with h have "seat_at ps (int k) = ps ! k" "seat_at qs (int k) = qs ! k" by (auto simp: seat_at_nat)
    with h show "map_option (\<lambda>p. p\<lparr>cash := 0\<rparr>) (ps ! k) = map_option (\<lambda>p. p\<lparr>cash := 0\<rparr>) (qs ! k)"
      by metis
  qed (use h in simp)
qed

lemma every_index_slot_ok_seats:
  "every_index slot_ok ps \<longleftrightarrow> (\<forall>i p. seat_at ps i = Some p \<longrightarrow> seatIndex p = i \<and> isCash (cash p))"
  unfolding every_index_js
  by (fastforce simp: seat_at_def slot_ok_def split: option.splits)

interpretation trade_accept: trade_operation
  "\<lambda>trades players properties. acceptTrade trades players properties wanted actor now"
  for wanted actor now
proof (unfold_locales, goal_cases)
  case (1 trades players properties m)
  then show ?case by (auto elim!: acceptTrade_Inr)
next
  case (2 trades players properties m)
  from 2 show ?case
  proof (rule acceptTrade_Inr)
    fix t p r a b
    assume h: "validTradeState trades players properties" "t \<in> set trades"
      "seat_at players (proposerSeatIndex t) = Some p" "seat_at players (receiverSeatIndex t) = Some r"
      "settleTradeCash (cash p) (cash r) (tradeTerms t) = Inr (a, b)"
      "validateProperty properties (fst (propertyTerms (tradeTerms t))) (proposerSeatIndex t) = None"
      "validateProperty properties (snd (propertyTerms (tradeTerms t))) (receiverSeatIndex t) = None"
      "m = \<lparr>tm_trades = filter (\<lambda>candidate. tradeId candidate \<noteq> wanted) trades,
          tm_players = swapTradeCash t a b players,
          tm_properties = map (swapTradeProperty t) properties,
          tm_trade = Some t, tm_removedTradeIds = [wanted]\<rparr>"
    from h have vt: "validPendingTrade t" by (auto simp: validTradeState_iff list_all_iff)
    note ne = validPendingTrade_seats [OF vt]
    from h have slots: "every_index slot_ok players" by (simp add: validTradeState_iff)
    then have pr: "isCash (cash p)" "isCash (cash r)"
      using h(3,4) by (auto simp: every_index_slot_ok_seats)
    note ab = settleTradeCash_sum [OF h(5) pr validPendingTrade_terms [OF vt]]
    have "every_index slot_ok (swapTradeCash t a b players)"
      using slots ab ne by (auto simp: every_index_slot_ok_seats swapTradeCash_eq split: if_splits)
    moreover have "isValidPropertyStates (map (swapTradeProperty t) properties)"
      using h validPendingTrade_isSeat [OF vt] by (intro swapTradeProperty_valid) (auto simp: validTradeState_iff)
    moreover have "owners_seated (map (swapTradeProperty t) properties) (swapTradeCash t a b players)"
      using h ne by (auto simp: validTradeState_iff owners_seated_def swapTradeProperty_def
          swapTradeCash_eq Let_def split: prod.splits if_splits)
    moreover have "trades_seated (filter (\<lambda>c. tradeId c \<noteq> wanted) trades) (swapTradeCash t a b players)"
      using h ne by (auto simp: validTradeState_iff trades_seated_def swapTradeCash_eq)
    moreover have "length (swapTradeCash t a b players) = 4"
      using h by (simp add: validTradeState_iff swapTradeCash_def)
    ultimately show ?thesis
      using validTradeState_filter [OF h(1), of "\<lambda>c. tradeId c \<noteq> wanted"] h(8)
      by (simp add: validTradeState_iff)
  qed
next
  case (3 trades players properties m)
  from 3 show ?case
  proof (rule acceptTrade_Inr)
    fix t p r a b
    assume h: "validTradeState trades players properties" "t \<in> set trades"
      "seat_at players (proposerSeatIndex t) = Some p" "seat_at players (receiverSeatIndex t) = Some r"
      "settleTradeCash (cash p) (cash r) (tradeTerms t) = Inr (a, b)"
      "m = \<lparr>tm_trades = filter (\<lambda>candidate. tradeId candidate \<noteq> wanted) trades,
          tm_players = swapTradeCash t a b players,
          tm_properties = map (swapTradeProperty t) properties,
          tm_trade = Some t, tm_removedTradeIds = [wanted]\<rparr>"
    from h have vt: "validPendingTrade t" by (auto simp: validTradeState_iff list_all_iff)
    note ne = validPendingTrade_seats [OF vt]
    from h have "isCash (cash p)" "isCash (cash r)"
      by (auto simp: validTradeState_iff every_index_slot_ok_seats)
    note ab = settleTradeCash_sum [OF h(5) this validPendingTrade_terms [OF vt]]
    show ?thesis using ab(1) ne h(3,4) by (simp add: h(6) swapTradeCash_eq totalCash_update_seat)
  qed
next
  case (4 trades players properties m)
  from 4 show ?case
    by (rule acceptTrade_Inr)
      (auto simp: validTradeState_iff list_all_iff cash_only_seats swapTradeCash_eq
        dest!: validPendingTrade_seats intro!: option.map_cong0)
next
  case (5 trades players properties m)
  then show ?case
    by (auto elim!: acceptTrade_Inr simp: building_view_def swapTradeProperty_def Let_def split: prod.split)
next
  case (6 trades players properties m)
  then show ?case by (auto elim!: acceptTrade_Inr)
qed

end
