(* ===== verification/Building_Rules.thy ===== *)
theory Building_Rules
  imports Property_Rules
begin

text \<open>
  \<open>rules/building-rules.ts\<close>: the bank's stock of houses and hotels and the four building mutations.
  The locale \<open>building_operation\<close> is the contract the property handler relies on; each mutation
  interprets it.
\<close>

record building_inventory =
  housesRemaining :: int
  hotelsRemaining :: int

datatype building_error_code =
    INVALID_PROPERTY_STATE
  | INVALID_INVENTORY
  | NOT_OWNER
  | INVALID_PROPERTY_TYPE
  | PROPERTY_MORTGAGED
  | PROPERTY_HAS_HOTEL
  | INVALID_HOUSE_COUNT
  | DOES_NOT_OWN_COLOR_GROUP
  | MUST_BUILD_EVENLY
  | MUST_SELL_EVENLY
  | NOT_ENOUGH_HOUSES
  | NOT_ENOUGH_HOTELS
  | NO_BUILDING_TO_SELL
  | BUILDING_INSUFFICIENT_CASH
  | BUILDING_ARITHMETIC_OVERFLOW

record building_mutation =
  bm_properties :: "property_state list"
  bm_inventory :: building_inventory
  bm_cash :: int
  bm_amount :: int

definition housesOnBoard :: "property_state list \<Rightarrow> int" where
  "housesOnBoard properties = sum_list (map houses properties)"

definition hotelsOnBoard :: "property_state list \<Rightarrow> int" where
  "hotelsOnBoard properties = int (length (filter hasHotel properties))"

definition isValidBuildingInventory :: "property_state list \<Rightarrow> building_inventory \<Rightarrow> bool" where
  "isValidBuildingInventory properties inventory =
     (if \<not> isValidPropertyStates properties \<or>
         housesRemaining inventory < 0 \<or> hotelsRemaining inventory < 0 \<or>
         housesRemaining inventory > totalHouses \<or> hotelsRemaining inventory > totalHotels
      then False
      else housesOnBoard properties + housesRemaining inventory = totalHouses \<and>
           hotelsOnBoard properties + hotelsRemaining inventory = totalHotels)"

definition replaceProperty ::
  "property_state list \<Rightarrow> int \<Rightarrow> (property_state \<Rightarrow> property_state) \<Rightarrow> property_state list" where
  "replaceProperty properties pos update =
     map (\<lambda>property. if propPosition property = pos then update property else property) properties"

definition validateBase ::
  "property_state list \<Rightarrow> building_inventory \<Rightarrow> int \<Rightarrow> int \<Rightarrow>
   (building_error_code, property_state \<times> int) outcome" where
  "validateBase properties inventory pos owner =
     (if \<not> isValidPropertyStates properties then Fail INVALID_PROPERTY_STATE
      else if \<not> isValidBuildingInventory properties inventory then Fail INVALID_INVENTORY
      else case js_index properties pos of
        None \<Rightarrow> Fail INVALID_PROPERTY_STATE
      | Some property \<Rightarrow> (case js_index BOARD_SPACES pos of
        None \<Rightarrow> Fail INVALID_PROPERTY_STATE
      | Some definition' \<Rightarrow>
          if propertyType definition' \<noteq> Street then Fail INVALID_PROPERTY_TYPE
          else if ownerSeatIndex property \<noteq> Some owner then Fail NOT_OWNER
          else (case matchCash (houseCost definition') of
                  Inl e \<Rightarrow> Inl e
                | Inr cost \<Rightarrow> Done (property, cost))))"

text \<open>Whether the owner holds the whole colour group of the space at a position.\<close>

definition ownsGroupOf :: "property_state list \<Rightarrow> int \<Rightarrow> int \<Rightarrow> bool" where
  "ownsGroupOf properties pos owner =
     (case js_index BOARD_SPACES pos of
        None \<Rightarrow> False
      | Some definition' \<Rightarrow> hasMonopoly properties owner (colorGroup definition'))"

definition buildHouse ::
  "property_state list \<Rightarrow> building_inventory \<Rightarrow> int \<Rightarrow> int \<Rightarrow> int \<Rightarrow>
   (building_error_code, building_mutation) outcome" where
  "buildHouse properties inventory pos owner money =
     (case validateBase properties inventory pos owner of
        Inl e \<Rightarrow> Inl e
      | Inr (Inl code) \<Rightarrow> Fail code
      | Inr (Inr (property, cost)) \<Rightarrow>
          if mortgaged property then Fail PROPERTY_MORTGAGED
          else if hasHotel property then Fail PROPERTY_HAS_HOTEL
          else if houses property \<ge> 4 then Fail INVALID_HOUSE_COUNT
          else if \<not> ownsGroupOf properties pos owner then Fail DOES_NOT_OWN_COLOR_GROUP
          else if \<not> canBuildHouse properties pos owner then Fail MUST_BUILD_EVENLY
          else if housesRemaining inventory < 1 then Fail NOT_ENOUGH_HOUSES
          else (case checkedSubtractMatchCash money cost of
                  None \<Rightarrow> Fail BUILDING_INSUFFICIENT_CASH
                | Some nextCash \<Rightarrow>
                    Done \<lparr>bm_properties = replaceProperty properties pos
                             (\<lambda>p. p\<lparr>houses := houses property + 1\<rparr>),
                          bm_inventory = inventory\<lparr>housesRemaining := housesRemaining inventory - 1\<rparr>,
                          bm_cash = nextCash, bm_amount = cost\<rparr>))"

definition buildHotel ::
  "property_state list \<Rightarrow> building_inventory \<Rightarrow> int \<Rightarrow> int \<Rightarrow> int \<Rightarrow>
   (building_error_code, building_mutation) outcome" where
  "buildHotel properties inventory pos owner money =
     (case validateBase properties inventory pos owner of
        Inl e \<Rightarrow> Inl e
      | Inr (Inl code) \<Rightarrow> Fail code
      | Inr (Inr (property, cost)) \<Rightarrow>
          if mortgaged property then Fail PROPERTY_MORTGAGED
          else if hasHotel property then Fail PROPERTY_HAS_HOTEL
          else if houses property \<noteq> 4 then Fail INVALID_HOUSE_COUNT
          else if \<not> ownsGroupOf properties pos owner then Fail DOES_NOT_OWN_COLOR_GROUP
          else if hotelsRemaining inventory < 1 then Fail NOT_ENOUGH_HOTELS
          else (case checkedSubtractMatchCash money cost of
                  None \<Rightarrow> Fail BUILDING_INSUFFICIENT_CASH
                | Some nextCash \<Rightarrow>
                    Done \<lparr>bm_properties = replaceProperty properties pos
                             (\<lambda>p. p\<lparr>houses := 0, hasHotel := True\<rparr>),
                          bm_inventory = \<lparr>housesRemaining = housesRemaining inventory + 4,
                             hotelsRemaining = hotelsRemaining inventory - 1\<rparr>,
                          bm_cash = nextCash, bm_amount = cost\<rparr>))"

definition sellHouse ::
  "property_state list \<Rightarrow> building_inventory \<Rightarrow> int \<Rightarrow> int \<Rightarrow> int \<Rightarrow>
   (building_error_code, building_mutation) outcome" where
  "sellHouse properties inventory pos owner money =
     (case validateBase properties inventory pos owner of
        Inl e \<Rightarrow> Inl e
      | Inr (Inl code) \<Rightarrow> Fail code
      | Inr (Inr (property, cost)) \<Rightarrow>
          if houses property < 1 \<or> hasHotel property then Fail NO_BUILDING_TO_SELL
          else if \<not> canSellHouse properties pos owner then Fail MUST_SELL_EVENLY
          else (case matchCash (cost div 2) of
                  Inl e \<Rightarrow> Inl e
                | Inr salePrice \<Rightarrow>
                (case checkedAddMatchCash money salePrice of
                  None \<Rightarrow> Fail BUILDING_ARITHMETIC_OVERFLOW
                | Some nextCash \<Rightarrow>
                    Done \<lparr>bm_properties = replaceProperty properties pos
                             (\<lambda>p. p\<lparr>houses := houses property - 1\<rparr>),
                          bm_inventory = inventory\<lparr>housesRemaining := housesRemaining inventory + 1\<rparr>,
                          bm_cash = nextCash, bm_amount = salePrice\<rparr>)))"

definition sellHotel ::
  "property_state list \<Rightarrow> building_inventory \<Rightarrow> int \<Rightarrow> int \<Rightarrow> int \<Rightarrow>
   (building_error_code, building_mutation) outcome" where
  "sellHotel properties inventory pos owner money =
     (case validateBase properties inventory pos owner of
        Inl e \<Rightarrow> Inl e
      | Inr (Inl code) \<Rightarrow> Fail code
      | Inr (Inr (property, cost)) \<Rightarrow>
          if \<not> hasHotel property then Fail NO_BUILDING_TO_SELL
          else if housesRemaining inventory < 4 then Fail NOT_ENOUGH_HOUSES
          else (case matchCash (cost div 2) of
                  Inl e \<Rightarrow> Inl e
                | Inr salePrice \<Rightarrow>
                (case checkedAddMatchCash money salePrice of
                  None \<Rightarrow> Fail BUILDING_ARITHMETIC_OVERFLOW
                | Some nextCash \<Rightarrow>
                    Done \<lparr>bm_properties = replaceProperty properties pos
                             (\<lambda>p. p\<lparr>houses := 4, hasHotel := False\<rparr>),
                          bm_inventory = \<lparr>housesRemaining = housesRemaining inventory - 4,
                             hotelsRemaining = hotelsRemaining inventory + 1\<rparr>,
                          bm_cash = nextCash, bm_amount = salePrice\<rparr>)))"

section \<open>The base check\<close>

lemma replaceProperty_eq [simp]: "replaceProperty ps pos f = update_property pos f ps"
  by (simp add: replaceProperty_def update_property_def)

lemma validInventory_iff:
  "isValidBuildingInventory ps stock \<longleftrightarrow>
     isValidPropertyStates ps \<and> 0 \<le> housesRemaining stock \<and> 0 \<le> hotelsRemaining stock \<and>
     housesRemaining stock \<le> totalHouses \<and> hotelsRemaining stock \<le> totalHotels \<and>
     housesOnBoard ps + housesRemaining stock = totalHouses \<and>
     hotelsOnBoard ps + hotelsRemaining stock = totalHotels"
  by (auto simp: isValidBuildingInventory_def)

lemma validateBase_never_throws: "validateBase ps stock pos owner \<noteq> Inl e"
proof -
  have "matchCash (houseCost d) = Inr (houseCost d)" if "js_index BOARD_SPACES pos = Some d" for d
    using space_bounds [OF that] by (intro matchCash_small) auto
  then show ?thesis by (simp add: validateBase_def split: option.split)
qed

lemma validateBase_Done:
  assumes "validateBase ps stock pos owner = Done (p, cost)"
  obtains d where "isValidBuildingInventory ps stock" "isValidPropertyStates ps"
    "js_index ps pos = Some p" "js_index BOARD_SPACES pos = Some d" "propertyType d = Street"
    "ownerSeatIndex p = Some owner" "cost = houseCost d" "0 \<le> cost" "cost \<le> 200"
proof -
  from assms obtain d where d: "isValidBuildingInventory ps stock" "js_index ps pos = Some p"
    "js_index BOARD_SPACES pos = Some d" "propertyType d = Street" "ownerSeatIndex p = Some owner"
    "matchCash (houseCost d) = Inr cost"
    by (auto simp: validateBase_def split: if_splits option.splits sum.splits)
  moreover from d(6) have "cost = houseCost d" by (auto simp: matchCash_def split: if_splits)
  ultimately show thesis using that space_bounds [OF d(3)] by (auto simp: validInventory_iff)
qed

section \<open>Board sums under a rewrite of one property\<close>

lemma housesOnBoard_update:
  assumes "isValidPropertyStates ps" "js_index ps pos = Some p"
  shows "housesOnBoard (update_property pos f ps) = housesOnBoard ps - houses p + houses (f p)"
  using assms by (simp add: update_property_eq housesOnBoard_def sum_list_map_update js_index_Some_iff
      nat_less_iff)

lemma hotelsOnBoard_sum: "hotelsOnBoard ps = sum_list (map (\<lambda>p. if hasHotel p then 1 else 0) ps)"
  by (induction ps) (auto simp: hotelsOnBoard_def)

lemma hotelsOnBoard_update:
  assumes "isValidPropertyStates ps" "js_index ps pos = Some p"
  shows "hotelsOnBoard (update_property pos f ps) =
    hotelsOnBoard ps - (if hasHotel p then 1 else 0) + (if hasHotel (f p) then 1 else 0)"
  using assms by (simp add: update_property_eq hotelsOnBoard_sum sum_list_map_update js_index_Some_iff
      nat_less_iff)

lemma housesOnBoard_nonneg: "isValidPropertyStates ps \<Longrightarrow> 0 \<le> housesOnBoard ps"
  unfolding housesOnBoard_def
  by (rule sum_list_nonneg) (auto elim: valid_properties_member dest: valid_property_houses)

lemma hotelsOnBoard_nonneg: "0 \<le> hotelsOnBoard ps"
  by (simp add: hotelsOnBoard_def)

lemma house_count_le_board:
  assumes "isValidPropertyStates ps" "js_index ps pos = Some p"
  shows "houses p \<le> housesOnBoard ps"
proof -
  have "0 \<le> housesOnBoard (update_property pos (\<lambda>p. p\<lparr>houses := 0\<rparr>) ps)"
    using assms(1)
    by (intro housesOnBoard_nonneg update_property_valid) (auto simp: validPropertyAt_iff)
  with housesOnBoard_update [OF assms, of "\<lambda>p. p\<lparr>houses := 0\<rparr>"] show ?thesis by simp
qed

text \<open>A rewrite of one street that keeps its owner, with the stock moved accordingly.\<close>

lemma rewrite_street_inventory:
  assumes stock: "isValidBuildingInventory ps stock" and p: "js_index ps pos = Some p"
    and valid: "validPropertyAt pos (f p)"
    and hs: "housesRemaining stock' = housesRemaining stock + houses p - houses (f p)"
    and ht: "hotelsRemaining stock' =
      hotelsRemaining stock + (if hasHotel p then 1 else 0) - (if hasHotel (f p) then 1 else 0)"
    and nonneg: "0 \<le> housesRemaining stock'" "0 \<le> hotelsRemaining stock'"
  shows "isValidBuildingInventory (update_property pos f ps) stock'"
proof -
  from stock have ps: "isValidPropertyStates ps" by (simp add: validInventory_iff)
  have ps': "isValidPropertyStates (update_property pos f ps)"
    using ps p valid by (intro update_property_valid) auto
  have b: "0 \<le> housesOnBoard (update_property pos f ps)" "0 \<le> hotelsOnBoard (update_property pos f ps)"
    using housesOnBoard_nonneg [OF ps'] hotelsOnBoard_nonneg by auto
  show ?thesis
    using stock nonneg b ps' housesOnBoard_update [OF ps p, of f] hotelsOnBoard_update [OF ps p, of f] hs ht
    unfolding validInventory_iff by linarith
qed

section \<open>What a building mutation promises\<close>

locale building_operation =
  fixes oper :: "property_state list \<Rightarrow> building_inventory \<Rightarrow> int \<Rightarrow> int \<Rightarrow> int \<Rightarrow>
    (building_error_code, building_mutation) outcome"
  assumes never_throws: "oper ps stock pos owner money \<noteq> Inl e"
    and keeps_inventory: "oper ps stock pos owner money = Done m \<Longrightarrow>
      isValidBuildingInventory (bm_properties m) (bm_inventory m)"
    and rewrites_one: "oper ps stock pos owner money = Done m \<Longrightarrow>
      \<exists>f p. js_index ps pos = Some p \<and> ownerSeatIndex p = Some owner \<and>
        ownerSeatIndex (f p) = ownerSeatIndex p \<and> isValidPropertyStates ps \<and>
        mortgaged (f p) = mortgaged p \<and> propPosition (f p) = pos \<and>
        bm_properties m = update_property pos f ps"
    and keeps_cash: "oper ps stock pos owner money = Done m \<Longrightarrow> isCash money \<Longrightarrow> isCash (bm_cash m)"
    and fair_price: "oper ps stock pos owner money = Done m \<Longrightarrow> 0 \<le> bm_amount m \<and> bm_amount m \<le> 200"
begin

lemma keeps_properties:
  "oper ps stock pos owner money = Done m \<Longrightarrow> isValidPropertyStates (bm_properties m)"
  using keeps_inventory by (simp add: validInventory_iff)

text \<open>No owner and no mortgage changes anywhere, and the property keeps its place.\<close>

lemma keeps_owners:
  assumes "oper ps stock pos owner money = Done m"
  shows "map_option ownerSeatIndex (js_index (bm_properties m) i) = map_option ownerSeatIndex (js_index ps i)"
    and "map_option mortgaged (js_index (bm_properties m) i) = map_option mortgaged (js_index ps i)"
  using rewrites_one [OF assms] by (auto simp: js_index_update_property)

lemma acts_on_street_of_owner:
  assumes "oper ps stock pos owner money = Done m"
  obtains p q where "js_index ps pos = Some p" "ownerSeatIndex p = Some owner"
    "js_index (bm_properties m) pos = Some q" "ownerSeatIndex q = Some owner"
  using rewrites_one [OF assms] that by (auto simp: js_index_update_property)

end

lemma half_cost_matchCash: "0 \<le> c \<Longrightarrow> c \<le> 200 \<Longrightarrow> matchCash (c div 2) = Inr (c div 2)"
  by (intro matchCash_small) auto

lemma validPropertyAt_street_update:
  assumes "validPropertyAt pos p" "js_index BOARD_SPACES pos = Some d" "propertyType d = Street"
    and "ownerSeatIndex p = Some owner" "\<not> mortgaged p" "0 \<le> h" "h \<le> 4" "t \<longrightarrow> h = 0"
  shows "validPropertyAt pos (p\<lparr>houses := h, hasHotel := t\<rparr>)"
  using assms by (auto simp: validPropertyAt_iff isOwnableSpace_def)

lemma buildHouse_Done:
  assumes "buildHouse ps stock pos owner money = Done m"
  obtains p cost d where "isValidBuildingInventory ps stock" "isValidPropertyStates ps"
    "js_index ps pos = Some p" "js_index BOARD_SPACES pos = Some d" "propertyType d = Street"
    "ownerSeatIndex p = Some owner" "\<not> mortgaged p" "\<not> hasHotel p" "houses p < 4"
    "canBuildHouse ps pos owner" "1 \<le> housesRemaining stock" "cost = houseCost d" "cost \<le> money"
    "0 \<le> cost" "cost \<le> 200"
    "m = \<lparr>bm_properties = update_property pos (\<lambda>q. q\<lparr>houses := houses p + 1\<rparr>) ps,
          bm_inventory = stock\<lparr>housesRemaining := housesRemaining stock - 1\<rparr>,
          bm_cash = money - cost, bm_amount = cost\<rparr>"
proof -
  from assms obtain p cost where base: "validateBase ps stock pos owner = Done (p, cost)"
    by (auto simp: buildHouse_def split: sum.splits prod.splits)
  from base obtain d where "isValidBuildingInventory ps stock" "isValidPropertyStates ps"
    "js_index ps pos = Some p" "js_index BOARD_SPACES pos = Some d" "propertyType d = Street"
    "ownerSeatIndex p = Some owner" "cost = houseCost d" "0 \<le> cost" "cost \<le> 200"
    by (rule validateBase_Done)
  moreover have "\<not> mortgaged p" "\<not> hasHotel p" "houses p < 4" "canBuildHouse ps pos owner"
    "1 \<le> housesRemaining stock" "cost \<le> money"
    "m = \<lparr>bm_properties = update_property pos (\<lambda>q. q\<lparr>houses := houses p + 1\<rparr>) ps,
          bm_inventory = stock\<lparr>housesRemaining := housesRemaining stock - 1\<rparr>,
          bm_cash = money - cost, bm_amount = cost\<rparr>"
    using assms base
    by (auto simp: buildHouse_def checkedSubtractMatchCash_def split: if_splits)
  ultimately show thesis using that by blast
qed

lemma buildHotel_Done:
  assumes "buildHotel ps stock pos owner money = Done m"
  obtains p cost d where "isValidBuildingInventory ps stock" "isValidPropertyStates ps"
    "js_index ps pos = Some p" "js_index BOARD_SPACES pos = Some d" "propertyType d = Street"
    "ownerSeatIndex p = Some owner" "\<not> mortgaged p" "\<not> hasHotel p" "houses p = 4"
    "1 \<le> hotelsRemaining stock" "cost = houseCost d" "cost \<le> money" "0 \<le> cost" "cost \<le> 200"
    "m = \<lparr>bm_properties = update_property pos (\<lambda>q. q\<lparr>houses := 0, hasHotel := True\<rparr>) ps,
          bm_inventory = \<lparr>housesRemaining = housesRemaining stock + 4,
             hotelsRemaining = hotelsRemaining stock - 1\<rparr>,
          bm_cash = money - cost, bm_amount = cost\<rparr>"
proof -
  from assms obtain p cost where base: "validateBase ps stock pos owner = Done (p, cost)"
    by (auto simp: buildHotel_def split: sum.splits prod.splits)
  from base obtain d where "isValidBuildingInventory ps stock" "isValidPropertyStates ps"
    "js_index ps pos = Some p" "js_index BOARD_SPACES pos = Some d" "propertyType d = Street"
    "ownerSeatIndex p = Some owner" "cost = houseCost d" "0 \<le> cost" "cost \<le> 200"
    by (rule validateBase_Done)
  moreover have "\<not> mortgaged p" "\<not> hasHotel p" "houses p = 4" "1 \<le> hotelsRemaining stock" "cost \<le> money"
    "m = \<lparr>bm_properties = update_property pos (\<lambda>q. q\<lparr>houses := 0, hasHotel := True\<rparr>) ps,
          bm_inventory = \<lparr>housesRemaining = housesRemaining stock + 4,
             hotelsRemaining = hotelsRemaining stock - 1\<rparr>,
          bm_cash = money - cost, bm_amount = cost\<rparr>"
    using assms base
    by (auto simp: buildHotel_def checkedSubtractMatchCash_def split: if_splits)
  ultimately show thesis using that by blast
qed

lemma sellHouse_Done:
  assumes "sellHouse ps stock pos owner money = Done m"
  obtains p cost d where "isValidBuildingInventory ps stock" "isValidPropertyStates ps"
    "js_index ps pos = Some p" "js_index BOARD_SPACES pos = Some d" "propertyType d = Street"
    "ownerSeatIndex p = Some owner" "\<not> hasHotel p" "1 \<le> houses p" "canSellHouse ps pos owner"
    "cost = houseCost d" "money + cost div 2 \<le> MAX_MATCH_CASH" "0 \<le> cost" "cost \<le> 200"
    "m = \<lparr>bm_properties = update_property pos (\<lambda>q. q\<lparr>houses := houses p - 1\<rparr>) ps,
          bm_inventory = stock\<lparr>housesRemaining := housesRemaining stock + 1\<rparr>,
          bm_cash = money + cost div 2, bm_amount = cost div 2\<rparr>"
proof -
  from assms obtain p cost where base: "validateBase ps stock pos owner = Done (p, cost)"
    by (auto simp: sellHouse_def split: sum.splits prod.splits)
  from base obtain d where d: "isValidBuildingInventory ps stock" "isValidPropertyStates ps"
    "js_index ps pos = Some p" "js_index BOARD_SPACES pos = Some d" "propertyType d = Street"
    "ownerSeatIndex p = Some owner" "cost = houseCost d" "0 \<le> cost" "cost \<le> 200"
    by (rule validateBase_Done)
  moreover have "\<not> hasHotel p" "1 \<le> houses p" "canSellHouse ps pos owner"
    "money + cost div 2 \<le> MAX_MATCH_CASH"
    "m = \<lparr>bm_properties = update_property pos (\<lambda>q. q\<lparr>houses := houses p - 1\<rparr>) ps,
          bm_inventory = stock\<lparr>housesRemaining := housesRemaining stock + 1\<rparr>,
          bm_cash = money + cost div 2, bm_amount = cost div 2\<rparr>"
    using assms base d
    by (auto simp: sellHouse_def half_cost_matchCash checkedAddMatchCash_def Let_def split: if_splits)
  ultimately show thesis using that by blast
qed

lemma sellHotel_Done:
  assumes "sellHotel ps stock pos owner money = Done m"
  obtains p cost d where "isValidBuildingInventory ps stock" "isValidPropertyStates ps"
    "js_index ps pos = Some p" "js_index BOARD_SPACES pos = Some d" "propertyType d = Street"
    "ownerSeatIndex p = Some owner" "hasHotel p" "4 \<le> housesRemaining stock"
    "cost = houseCost d" "money + cost div 2 \<le> MAX_MATCH_CASH" "0 \<le> cost" "cost \<le> 200"
    "m = \<lparr>bm_properties = update_property pos (\<lambda>q. q\<lparr>houses := 4, hasHotel := False\<rparr>) ps,
          bm_inventory = \<lparr>housesRemaining = housesRemaining stock - 4,
             hotelsRemaining = hotelsRemaining stock + 1\<rparr>,
          bm_cash = money + cost div 2, bm_amount = cost div 2\<rparr>"
proof -
  from assms obtain p cost where base: "validateBase ps stock pos owner = Done (p, cost)"
    by (auto simp: sellHotel_def split: sum.splits prod.splits)
  from base obtain d where d: "isValidBuildingInventory ps stock" "isValidPropertyStates ps"
    "js_index ps pos = Some p" "js_index BOARD_SPACES pos = Some d" "propertyType d = Street"
    "ownerSeatIndex p = Some owner" "cost = houseCost d" "0 \<le> cost" "cost \<le> 200"
    by (rule validateBase_Done)
  moreover have "hasHotel p" "4 \<le> housesRemaining stock" "money + cost div 2 \<le> MAX_MATCH_CASH"
    "m = \<lparr>bm_properties = update_property pos (\<lambda>q. q\<lparr>houses := 4, hasHotel := False\<rparr>) ps,
          bm_inventory = \<lparr>housesRemaining = housesRemaining stock - 4,
             hotelsRemaining = hotelsRemaining stock + 1\<rparr>,
          bm_cash = money + cost div 2, bm_amount = cost div 2\<rparr>"
    using assms base d
    by (auto simp: sellHotel_def half_cost_matchCash checkedAddMatchCash_def Let_def split: if_splits)
  ultimately show thesis using that by blast
qed

section \<open>The four mutations satisfy the contract\<close>

lemma stock_nonneg:
  "isValidBuildingInventory ps stock \<Longrightarrow> 0 \<le> housesRemaining stock \<and> 0 \<le> hotelsRemaining stock"
  by (simp add: validInventory_iff)

lemma rewrites_oneI:
  assumes "isValidPropertyStates ps" "js_index ps pos = Some p" "ownerSeatIndex p = Some owner"
    and "m = \<lparr>bm_properties = update_property pos f ps, bm_inventory = i, bm_cash = c, bm_amount = a\<rparr>"
    and "ownerSeatIndex (f p) = ownerSeatIndex p" "mortgaged (f p) = mortgaged p"
    and "propPosition (f p) = propPosition p"
  shows "\<exists>f p. js_index ps pos = Some p \<and> ownerSeatIndex p = Some owner \<and>
    ownerSeatIndex (f p) = ownerSeatIndex p \<and> isValidPropertyStates ps \<and>
    mortgaged (f p) = mortgaged p \<and> propPosition (f p) = pos \<and> bm_properties m = update_property pos f ps"
  using assms valid_properties_index(2) [OF assms(1,2)] by (intro exI [of _ f] exI [of _ p]) simp

lemma building_never_throws:
  "buildHouse ps stock pos owner money \<noteq> Inl e" "buildHotel ps stock pos owner money \<noteq> Inl e"
  "sellHouse ps stock pos owner money \<noteq> Inl e" "sellHotel ps stock pos owner money \<noteq> Inl e"
  using validateBase_never_throws [of ps stock pos owner]
  by (auto simp: buildHouse_def buildHotel_def sellHouse_def sellHotel_def half_cost_matchCash
      split: sum.split option.split elim!: validateBase_Done)

interpretation build_house: building_operation buildHouse
proof (unfold_locales, goal_cases)
  case 1
  show ?case by (rule building_never_throws)
next
  case (2 ps stock pos owner money m)
  then show ?case
    by (rule buildHouse_Done)
      (auto intro!: rewrite_street_inventory simp: validPropertyAt_iff
        dest: valid_properties_index(1) stock_nonneg)
next
  case (3 ps stock pos owner money m)
  then show ?case
    by (rule buildHouse_Done) (rule rewrites_oneI, assumption+, simp_all)
next
  case (4 ps stock pos owner money m)
  then show ?case
    by (elim buildHouse_Done) (auto simp: isCash_def)
next
  case (5 ps stock pos owner money m)
  then show ?case
    by (rule buildHouse_Done) auto
qed

interpretation build_hotel: building_operation buildHotel
proof (unfold_locales, goal_cases)
  case 1
  show ?case by (rule building_never_throws)
next
  case (2 ps stock pos owner money m)
  then show ?case
    by (rule buildHotel_Done)
      (auto intro!: rewrite_street_inventory simp: validPropertyAt_iff
        dest: valid_properties_index(1) stock_nonneg)
next
  case (3 ps stock pos owner money m)
  then show ?case
    by (rule buildHotel_Done) (rule rewrites_oneI, assumption+, simp_all)
next
  case (4 ps stock pos owner money m)
  then show ?case
    by (elim buildHotel_Done) (auto simp: isCash_def)
next
  case (5 ps stock pos owner money m)
  then show ?case
    by (rule buildHotel_Done) auto
qed

interpretation sell_house: building_operation sellHouse
proof (unfold_locales, goal_cases)
  case 1
  show ?case by (rule building_never_throws)
next
  case (2 ps stock pos owner money m)
  then show ?case
    by (rule sellHouse_Done)
      (auto intro!: rewrite_street_inventory simp: validPropertyAt_iff
        dest: valid_properties_index(1) stock_nonneg)
next
  case (3 ps stock pos owner money m)
  then show ?case
    by (rule sellHouse_Done) (rule rewrites_oneI, assumption+, simp_all)
next
  case (4 ps stock pos owner money m)
  then show ?case
    by (elim sellHouse_Done) (auto simp: isCash_def)
next
  case (5 ps stock pos owner money m)
  then show ?case
    by (rule sellHouse_Done) auto
qed

interpretation sell_hotel: building_operation sellHotel
proof (unfold_locales, goal_cases)
  case 1
  show ?case by (rule building_never_throws)
next
  case (2 ps stock pos owner money m)
  then show ?case
    by (rule sellHotel_Done)
      (auto intro!: rewrite_street_inventory simp: validPropertyAt_iff
        dest: valid_properties_index(1) stock_nonneg)
next
  case (3 ps stock pos owner money m)
  then show ?case
    by (rule sellHotel_Done) (rule rewrites_oneI, assumption+, simp_all)
next
  case (4 ps stock pos owner money m)
  then show ?case
    by (elim sellHotel_Done) (auto simp: isCash_def)
next
  case (5 ps stock pos owner money m)
  then show ?case
    by (rule sellHotel_Done) auto
qed

end
