(* ===== verification/Jail_Rules.thy ===== *)
theory Jail_Rules
  imports Movement
begin

text \<open>
  \<open>rules/jail-rules.ts\<close>: entering jail, the fine, the card and the jailed roll. The rules read and
  write the six jail fields of a player (\<open>JailPlayerState\<close>) and keep every other field, which is
  what a player record of any width gives.
\<close>

datatype jail_error_code = INVALID_JAIL_STATE | PLAYER_NOT_IN_JAIL | NO_GET_OUT_OF_JAIL_CARD | INVALID_DICE

datatype jail_outcome = Entered | Released | Remains | JailBankruptcyRequired

datatype release_method = ByDoubles | ByFine | ByCard

record 'p jail_action =
  ja_state :: 'p
  ja_outcome :: jail_outcome
  ja_releaseMethod :: "release_method option"
  ja_movement :: "movement_result option"
  ja_turnEnded :: bool
  ja_amountPaid :: int

definition validJailState :: "'a bankruptcy_player_scheme \<Rightarrow> bool" where
  "validJailState state \<longleftrightarrow>
     cash state \<ge> 0 \<and> cash state \<le> MAX_MATCH_CASH \<and>
     position state \<ge> 0 \<and> position state < boardSize \<and>
     jailTurns state \<ge> 0 \<and> jailTurns state \<le> maximumJailTurns \<and>
     consecutiveDoubles state \<ge> 0 \<and> consecutiveDoubles state \<le> 2 \<and>
     getOutOfJailCards state \<ge> 0 \<and> getOutOfJailCards state \<le> 255 \<and>
     (if inJail state
      then position state = jailPosition \<and> jailTurns state \<le> 2 \<and> consecutiveDoubles state = 0
      else jailTurns state = 0)"

definition enterJail ::
  "'a bankruptcy_player_scheme \<Rightarrow> jail_error_code + 'a bankruptcy_player_scheme jail_action" where
  "enterJail state =
     (if \<not> validJailState state then Inl INVALID_JAIL_STATE
      else Inr \<lparr>ja_state = state\<lparr>position := jailPosition, inJail := True, jailTurns := 0,
                               consecutiveDoubles := 0\<rparr>,
                ja_outcome = Entered, ja_releaseMethod = None, ja_movement = None,
                ja_turnEnded = True, ja_amountPaid = 0\<rparr>)"

definition payJailFine ::
  "'a bankruptcy_player_scheme \<Rightarrow> jail_error_code + 'a bankruptcy_player_scheme jail_action" where
  "payJailFine state =
     (if \<not> validJailState state then Inl INVALID_JAIL_STATE
      else if \<not> inJail state then Inl PLAYER_NOT_IN_JAIL
      else case checkedSubtractMatchCash (cash state) jailFine of
        None \<Rightarrow>
          Inr \<lparr>ja_state = state, ja_outcome = JailBankruptcyRequired, ja_releaseMethod = None,
               ja_movement = None, ja_turnEnded = False, ja_amountPaid = 0\<rparr>
      | Some money \<Rightarrow>
          Inr \<lparr>ja_state = state\<lparr>cash := money, inJail := False, jailTurns := 0\<rparr>,
               ja_outcome = Released, ja_releaseMethod = Some ByFine, ja_movement = None,
               ja_turnEnded = True, ja_amountPaid = jailFine\<rparr>)"

definition useJailCard ::
  "'a bankruptcy_player_scheme \<Rightarrow> jail_error_code + 'a bankruptcy_player_scheme jail_action" where
  "useJailCard state =
     (if \<not> validJailState state then Inl INVALID_JAIL_STATE
      else if \<not> inJail state then Inl PLAYER_NOT_IN_JAIL
      else if getOutOfJailCards state < 1 then Inl NO_GET_OUT_OF_JAIL_CARD
      else Inr \<lparr>ja_state = state\<lparr>inJail := False, jailTurns := 0,
                                 getOutOfJailCards := getOutOfJailCards state - 1\<rparr>,
                ja_outcome = Released, ja_releaseMethod = Some ByCard, ja_movement = None,
                ja_turnEnded = True, ja_amountPaid = 0\<rparr>)"

text \<open>The release part of a jailed roll: the roll moves the player out of jail.\<close>

definition jailRelease ::
  "'a bankruptcy_player_scheme \<Rightarrow> dice_roll \<Rightarrow> int \<Rightarrow> release_method \<Rightarrow> int \<Rightarrow>
   jail_error_code + 'a bankruptcy_player_scheme jail_action" where
  "jailRelease state roll money releaseMethod amountPaid =
     (case moveBy (position state) (total roll) of
        None \<Rightarrow> Inl INVALID_DICE
      | Some movement \<Rightarrow>
          Inr \<lparr>ja_state = state\<lparr>cash := money, position := mv_to movement, inJail := False,
                                jailTurns := 0, consecutiveDoubles := 0\<rparr>,
               ja_outcome = Released, ja_releaseMethod = Some releaseMethod,
               ja_movement = Some movement, ja_turnEnded = False, ja_amountPaid = amountPaid\<rparr>)"

definition resolveJailRoll ::
  "'a bankruptcy_player_scheme \<Rightarrow> dice_roll \<Rightarrow>
   jail_error_code + 'a bankruptcy_player_scheme jail_action" where
  "resolveJailRoll state roll =
     (if \<not> validJailState state then Inl INVALID_JAIL_STATE
      else if \<not> inJail state then Inl PLAYER_NOT_IN_JAIL
      else if \<not> validDice roll then Inl INVALID_DICE
      else let turns = jailTurns state + 1 in
        if \<not> isDoubles roll \<and> turns < maximumJailTurns then
          Inr \<lparr>ja_state = state\<lparr>jailTurns := turns\<rparr>, ja_outcome = Remains, ja_releaseMethod = None,
               ja_movement = None, ja_turnEnded = True, ja_amountPaid = 0\<rparr>
        else if \<not> isDoubles roll then
          (case checkedSubtractMatchCash (cash state) jailFine of
             None \<Rightarrow>
               Inr \<lparr>ja_state = state\<lparr>cash := 0, inJail := False, jailTurns := 0,
                                     consecutiveDoubles := 0\<rparr>,
                    ja_outcome = JailBankruptcyRequired, ja_releaseMethod = None,
                    ja_movement = None, ja_turnEnded = True, ja_amountPaid = 0\<rparr>
           | Some afterFine \<Rightarrow> jailRelease state roll afterFine ByFine jailFine)
        else jailRelease state roll (cash state) ByDoubles 0)"

section \<open>What the jail actions promise\<close>

text \<open>
  Every jail action turns a valid jailed player into a valid player and touches no field outside
  the six; the interface is used by the turn and jail handlers.
\<close>

definition jail_frame :: "'a bankruptcy_player_scheme \<Rightarrow> 'a bankruptcy_player_scheme \<Rightarrow> bool" where
  "jail_frame p q \<longleftrightarrow> seatIndex q = seatIndex p \<and> status q = status p \<and> missedTurns q = missedTurns p \<and>
     bankruptcy_player.more q = bankruptcy_player.more p"

locale jail_action =
  fixes act :: "'a bankruptcy_player_scheme \<Rightarrow> jail_error_code + 'a bankruptcy_player_scheme jail_action"
  assumes needs_valid: "act p = Inr a \<Longrightarrow> validJailState p"
    and keeps_valid: "act p = Inr a \<Longrightarrow> validJailState (ja_state a)"
    and keeps_frame: "act p = Inr a \<Longrightarrow> jail_frame p (ja_state a)"
    and no_profit: "act p = Inr a \<Longrightarrow> cash (ja_state a) \<le> cash p"
begin

text \<open>A released player is out of jail with the counter reset whatever the method.\<close>

lemma cash_range: "act p = Inr a \<Longrightarrow> 0 \<le> cash (ja_state a) \<and> cash (ja_state a) \<le> MAX_MATCH_CASH"
  using keeps_valid by (simp add: validJailState_def)

end

lemma jailRelease_Inr:
  assumes "jailRelease p roll money m paid = Inr a"
  shows "ja_outcome a = Released" "ja_releaseMethod a = Some m" "ja_amountPaid a = paid"
    "ja_movement a = moveBy (position p) (total roll)"
    "ja_state a = p\<lparr>cash := money, position := (position p + total roll) mod 40, inJail := False,
       jailTurns := 0, consecutiveDoubles := 0\<rparr>"
  using assms by (auto simp: jailRelease_def split: option.splits dest: moveBy_Some_to)

interpretation jail_enter: jail_action enterJail
  by unfold_locales
    (auto simp: enterJail_def validJailState_def jail_frame_def policy_simps split: if_splits)

interpretation jail_fine: jail_action payJailFine
  by unfold_locales
    (auto simp: payJailFine_def validJailState_def jail_frame_def policy_simps checkedSubtract_Some_iff
      checkedSubtractMatchCash_def split: if_splits option.splits)

interpretation jail_card: jail_action useJailCard
  by unfold_locales
    (auto simp: useJailCard_def validJailState_def jail_frame_def policy_simps split: if_splits)

lemma resolveJailRoll_cases:
  assumes "resolveJailRoll p roll = Inr a"
  obtains (remains) "ja_outcome a = Remains" "ja_state a = p\<lparr>jailTurns := jailTurns p + 1\<rparr>"
      "\<not> isDoubles roll" "jailTurns p < 2"
  | (bankrupt) "ja_outcome a = JailBankruptcyRequired" "\<not> isDoubles roll" "cash p < jailFine"
      "ja_state a = p\<lparr>cash := 0, inJail := False, jailTurns := 0, consecutiveDoubles := 0\<rparr>"
  | (fine) "ja_outcome a = Released" "ja_releaseMethod a = Some ByFine" "\<not> isDoubles roll"
      "jailFine \<le> cash p" "ja_movement a = moveBy (position p) (total roll)"
      "ja_state a = p\<lparr>cash := cash p - jailFine, position := (position p + total roll) mod 40,
         inJail := False, jailTurns := 0, consecutiveDoubles := 0\<rparr>"
  | (doubles) "ja_outcome a = Released" "ja_releaseMethod a = Some ByDoubles" "isDoubles roll"
      "ja_movement a = moveBy (position p) (total roll)"
      "ja_state a = p\<lparr>cash := cash p, position := (position p + total roll) mod 40,
         inJail := False, jailTurns := 0, consecutiveDoubles := 0\<rparr>"
proof (cases "isDoubles roll")
  case True
  with assms have "jailRelease p roll (cash p) ByDoubles 0 = Inr a"
    by (simp add: resolveJailRoll_def Let_def split: if_splits)
  from jailRelease_Inr [OF this] True show thesis by (intro doubles) auto
next
  case False
  show thesis
  proof (cases "jailTurns p + 1 < maximumJailTurns")
    case True
    with assms False show thesis
      by (intro remains) (auto simp: resolveJailRoll_def Let_def policy_simps split: if_splits)
  next
    case late: False
    show thesis
    proof (cases "jailFine \<le> cash p")
      case True
      with assms False late have "jailRelease p roll (cash p - jailFine) ByFine jailFine = Inr a"
        by (simp add: resolveJailRoll_def Let_def checkedSubtractMatchCash_def split: if_splits)
      from jailRelease_Inr [OF this] True False show thesis by (intro fine) auto
    next
      case poor: False
      with assms False late show thesis
        by (intro bankrupt)
          (auto simp: resolveJailRoll_def Let_def checkedSubtractMatchCash_def split: if_splits)
    qed
  qed
qed

lemma resolveJailRoll_needs:
  assumes "resolveJailRoll p roll = Inr a"
  shows "validJailState p" "inJail p" "validDice roll"
  using assms by (auto simp: resolveJailRoll_def split: if_splits)

interpretation jail_roll: jail_action "\<lambda>p. resolveJailRoll p roll" for roll
proof (unfold_locales, goal_cases)
  case (1 p a)
  then show ?case by (rule resolveJailRoll_needs)
next
  case (2 p a)
  with resolveJailRoll_needs [OF 2] show ?case
    by (auto elim!: resolveJailRoll_cases simp: validJailState_def policy_simps)
next
  case (3 p a)
  then show ?case by (auto elim!: resolveJailRoll_cases simp: jail_frame_def)
next
  case (4 p a)
  with resolveJailRoll_needs [OF 4] show ?case
    by (auto elim!: resolveJailRoll_cases simp: validJailState_def policy_simps)
qed

text \<open>A valid jailed player rolling valid dice always gets an answer.\<close>

lemma resolveJailRoll_total:
  assumes "validJailState p" "inJail p" "validDice roll"
  shows "\<exists>a. resolveJailRoll p roll = Inr a"
proof -
  from assms have "moveBy (position p) (total roll) \<noteq> None"
    using validDice_total [OF assms(3)]
    by (subst moveBy_Some) (auto simp: validJailState_def isBoardPosition_def policy_simps)
  then show ?thesis
    using assms by (auto simp: resolveJailRoll_def jailRelease_def Let_def split: option.split)
qed

end
