(* ===== verification/Bankruptcy_Rules.thy ===== *)
theory Bankruptcy_Rules
  imports Building_Rules Jail_Rules
begin

text \<open>
  \<open>rules/bankruptcy-rules.ts\<close>: the validator of players, properties, stock and bank, and the
  liquidation of one player into the bank. The set of verified resolutions
  (\<open>verifiedBankruptcyResolutions\<close>, a \<open>WeakSet\<close> of objects) is the flag \<open>br_verified\<close> of a
  resolution, which only \<open>resolveBankruptcy\<close> sets.
\<close>

datatype bankruptcy_error_code =
    INVALID_BANKRUPTCY_STATE | PLAYER_NOT_ACTIVE | BANKRUPTCY_ARITHMETIC_OVERFLOW

record 'p bankruptcy_resolution =
  br_players :: "'p option list"
  br_properties :: "property_state list"
  br_inventory :: building_inventory
  br_bankCash :: int
  br_bankruptSeatIndex :: int
  br_liquidationValue :: int
  br_cashTransferred :: int
  br_housesReturned :: int
  br_hotelsReturned :: int
  br_endConditionMet :: bool
  br_winnerSeatIndex :: "int option"
  br_verified :: bool

definition isVerifiedBankruptcyResolution :: "'p bankruptcy_resolution \<Rightarrow> bool" where
  "isVerifiedBankruptcyResolution value = br_verified value"

section \<open>The validator\<close>

definition validBankruptcyPlayer :: "int \<Rightarrow> 'a bankruptcy_player_scheme \<Rightarrow> bool" where
  "validBankruptcyPlayer index player \<longleftrightarrow>
     seatIndex player = index \<and>
     cash player \<ge> 0 \<and> cash player \<le> MAX_MATCH_CASH \<and>
     position player \<ge> 0 \<and> position player < boardSize \<and>
     jailTurns player \<ge> 0 \<and> jailTurns player \<le> maximumJailTurns \<and>
     consecutiveDoubles player \<ge> 0 \<and> consecutiveDoubles player \<le> 2 \<and>
     missedTurns player \<ge> 0 \<and> missedTurns player \<le> maximumMissedTurns \<and>
     getOutOfJailCards player \<ge> 0 \<and> getOutOfJailCards player \<le> 255 \<and>
     (if inJail player
      then position player = jailPosition \<and> jailTurns player \<le> 2 \<and> consecutiveDoubles player = 0
      else jailTurns player = 0) \<and>
     (status player = Active \<or>
      (cash player = 0 \<and> position player = 0 \<and> \<not> inJail player \<and> jailTurns player = 0 \<and>
       consecutiveDoubles player = 0 \<and> getOutOfJailCards player = 0))"

text \<open>The loop over the slots that collects the active seats, \<open>None\<close> when one player fails the
  given check; the bankruptcy and the terminal validators share its shape.\<close>

fun collectActive ::
  "(int \<Rightarrow> 'a terminal_player_scheme \<Rightarrow> bool) \<Rightarrow> int \<Rightarrow> 'a terminal_player_scheme option list \<Rightarrow> int list option" where
  "collectActive ok index [] = Some []"
| "collectActive ok index (None # rest) = collectActive ok (index + 1) rest"
| "collectActive ok index (Some player # rest) =
     (if \<not> ok index player then None
      else if status player = Active then map_option ((#) index) (collectActive ok (index + 1) rest)
      else collectActive ok (index + 1) rest)"

definition ownersIn :: "int list \<Rightarrow> property_state list \<Rightarrow> bool" where
  "ownersIn activeSeats properties =
     list_all (\<lambda>property. case ownerSeatIndex property of
                 None \<Rightarrow> True | Some owner \<Rightarrow> owner \<in> set activeSeats) properties"

definition isValidBankruptcyState ::
  "'a bankruptcy_player_scheme option list \<Rightarrow> property_state list \<Rightarrow> building_inventory \<Rightarrow> int \<Rightarrow> bool" where
  "isValidBankruptcyState players properties inventory bankCash =
     (if int (length players) \<noteq> maximumPlayers \<or> bankCash < 0 \<or> bankCash > MAX_MATCH_CASH \<or>
         \<not> isValidPropertyStates properties \<or> \<not> isValidBuildingInventory properties inventory
      then False
      else case collectActive validBankruptcyPlayer 0 players of
        None \<Rightarrow> False
      | Some activeSeats \<Rightarrow> ownersIn activeSeats properties)"

section \<open>Liquidation\<close>

definition add :: "int \<Rightarrow> int \<Rightarrow> exn + int option" where
  "add value amount =
     (if amount < 0 \<or> amount > MAX_MATCH_CASH then Inr None
      else case matchCash amount of Inl e \<Rightarrow> Inl e | Inr a \<Rightarrow> Inr (checkedAddMatchCash value a))"

definition liquidationOf :: "board_space_definition \<Rightarrow> property_state \<Rightarrow> int" where
  "liquidationOf definition' property =
     (if hasHotel property then (houseCost definition' * 5) div 2
      else (houseCost definition' div 2) * houses property) +
     (if mortgaged property then 0 else mortgageValue definition')"

definition releaseProperty :: "property_state \<Rightarrow> property_state" where
  "releaseProperty property =
     property\<lparr>ownerSeatIndex := None, houses := 0, hasHotel := False, mortgaged := False\<rparr>"

record liquidation =
  lq_value :: int
  lq_houses :: int
  lq_hotels :: int
  lq_properties :: "property_state list"

text \<open>The loop over the properties with its four variables.\<close>

fun liquidate ::
  "int \<Rightarrow> property_state list \<Rightarrow> liquidation \<Rightarrow> (bankruptcy_error_code, liquidation) outcome" where
  "liquidate seat [] acc = Done acc"
| "liquidate seat (property # rest) acc =
     (if ownerSeatIndex property \<noteq> Some seat
      then liquidate seat rest (acc\<lparr>lq_properties := lq_properties acc @ [property]\<rparr>)
      else case js_index BOARD_SPACES (propPosition property) of
        None \<Rightarrow> Fail INVALID_BANKRUPTCY_STATE
      | Some definition' \<Rightarrow> (case add (lq_value acc) (liquidationOf definition' property) of
          Inl e \<Rightarrow> Inl e
        | Inr None \<Rightarrow> Fail BANKRUPTCY_ARITHMETIC_OVERFLOW
        | Inr (Some value) \<Rightarrow>
            liquidate seat rest
              \<lparr>lq_value = value, lq_houses = lq_houses acc + houses property,
               lq_hotels = lq_hotels acc + (if hasHotel property then 1 else 0),
               lq_properties = lq_properties acc @ [releaseProperty property]\<rparr>))"

definition eliminatePlayer :: "'a bankruptcy_player_scheme \<Rightarrow> 'a bankruptcy_player_scheme" where
  "eliminatePlayer player =
     player\<lparr>status := Eliminated, cash := 0, position := 0, inJail := False, jailTurns := 0,
            consecutiveDoubles := 0, getOutOfJailCards := 0\<rparr>"

text \<open>The seats of the players a \<open>flatMap\<close> finds active.\<close>

definition activeSeatIndexes :: "'a terminal_player_scheme option list \<Rightarrow> int list" where
  "activeSeatIndexes players =
     concat (map (\<lambda>slot. case slot of
        None \<Rightarrow> [] | Some player \<Rightarrow> if status player = Active then [seatIndex player] else []) players)"

definition resolveBankruptcy ::
  "'a bankruptcy_player_scheme option list \<Rightarrow> property_state list \<Rightarrow> building_inventory \<Rightarrow> int \<Rightarrow> int \<Rightarrow>
   (bankruptcy_error_code, 'a bankruptcy_player_scheme bankruptcy_resolution) outcome" where
  "resolveBankruptcy players properties inventory bankCash seat =
     (if \<not> isValidBankruptcyState players properties inventory bankCash \<or> seat < 0 \<or> seat \<ge> maximumPlayers
      then Fail INVALID_BANKRUPTCY_STATE
      else case seat_at players seat of
        None \<Rightarrow> Fail PLAYER_NOT_ACTIVE
      | Some bankruptPlayer \<Rightarrow>
          if status bankruptPlayer \<noteq> Active then Fail PLAYER_NOT_ACTIVE
          else (case liquidate seat properties
                       \<lparr>lq_value = 0, lq_houses = 0, lq_hotels = 0, lq_properties = []\<rparr> of
            Inl e \<Rightarrow> Inl e
          | Inr (Inl code) \<Rightarrow> Fail code
          | Inr (Inr sold) \<Rightarrow>
              (case Option.bind (checkedAddMatchCash bankCash (lq_value sold))
                      (\<lambda>afterLiquidation. checkedAddMatchCash afterLiquidation (cash bankruptPlayer)) of
                 None \<Rightarrow> Fail BANKRUPTCY_ARITHMETIC_OVERFLOW
               | Some nextBankCash \<Rightarrow>
                   (let nextInventory = \<lparr>housesRemaining = housesRemaining inventory + lq_houses sold,
                                         hotelsRemaining = hotelsRemaining inventory + lq_hotels sold\<rparr> in
                    if \<not> isValidBuildingInventory (lq_properties sold) nextInventory
                    then Fail INVALID_BANKRUPTCY_STATE
                    else (let nextPlayers = update_seat seat eliminatePlayer players;
                              remaining = activeSeatIndexes nextPlayers in
                      Done \<lparr>br_players = nextPlayers, br_properties = lq_properties sold,
                            br_inventory = nextInventory, br_bankCash = nextBankCash,
                            br_bankruptSeatIndex = seat, br_liquidationValue = lq_value sold,
                            br_cashTransferred = cash bankruptPlayer,
                            br_housesReturned = lq_houses sold, br_hotelsReturned = lq_hotels sold,
                            br_endConditionMet = (length remaining \<le> 1),
                            br_winnerSeatIndex = (case remaining of [w] \<Rightarrow> Some w | _ \<Rightarrow> None),
                            br_verified = True\<rparr>)))))"

section \<open>The validator, declaratively\<close>

definition slots_satisfy :: "(int \<Rightarrow> 'a \<Rightarrow> bool) \<Rightarrow> 'a option list \<Rightarrow> bool" where
  "slots_satisfy ok players \<longleftrightarrow> (\<forall>i p. seat_at players i = Some p \<longrightarrow> ok i p)"

definition owners_active :: "property_state list \<Rightarrow> 'a terminal_player_scheme option list \<Rightarrow> bool" where
  "owners_active properties players \<longleftrightarrow>
     (\<forall>p \<in> set properties. \<forall>s. ownerSeatIndex p = Some s \<longrightarrow> is_active (seat_at players s))"

lemma slots_satisfy_every:
  "slots_satisfy ok players \<longleftrightarrow>
     every_index (\<lambda>i slot. case slot of None \<Rightarrow> True | Some p \<Rightarrow> ok i p) players"
  unfolding slots_satisfy_def every_index_js
  by (fastforce simp: seat_at_def split: option.splits)

lemma collectActive_Some:
  "collectActive ok i ps = Some occ \<Longrightarrow>
     every_from i (\<lambda>i slot. case slot of None \<Rightarrow> True | Some p \<Rightarrow> ok i p) ps \<and>
     (\<forall>s. s \<in> set occ \<longleftrightarrow> is_active (seat_at ps (s - i)))"
  by (induction ok i ps arbitrary: occ rule: collectActive.induct)
    (auto simp: seat_at_Cons diff_diff_eq split: if_splits)

lemma collectActive_total:
  "every_from i (\<lambda>i slot. case slot of None \<Rightarrow> True | Some p \<Rightarrow> ok i p) ps \<Longrightarrow>
     \<exists>occ. collectActive ok i ps = Some occ"
  by (induction ok i ps rule: collectActive.induct) auto

lemma collectActive_owners:
  "(case collectActive ok 0 players of None \<Rightarrow> False | Some occ \<Rightarrow> ownersIn occ properties) \<longleftrightarrow>
     slots_satisfy ok players \<and> owners_active properties players"
proof (cases "collectActive ok 0 players")
  case None
  with collectActive_total [of 0 ok players] show ?thesis
    by (auto simp: slots_satisfy_every every_index_def)
next
  case (Some occ)
  from collectActive_Some [OF this] Some show ?thesis
    by (auto simp: slots_satisfy_every every_index_def ownersIn_def owners_active_def list_all_iff
        split: option.splits)
qed

lemma isValidBankruptcyState_iff:
  "isValidBankruptcyState players properties stock bank \<longleftrightarrow>
     length players = 4 \<and> isCash bank \<and> isValidBuildingInventory properties stock \<and>
     slots_satisfy validBankruptcyPlayer players \<and> owners_active properties players"
  using collectActive_owners [where ok = validBankruptcyPlayer and players = players and properties = properties]
  by (auto simp: isValidBankruptcyState_def isCash_def validInventory_iff policy_simps)

lemma slots_satisfy_update_seat:
  assumes "slots_satisfy ok players" "\<And>p. seat_at players seat = Some p \<Longrightarrow> ok seat p \<Longrightarrow> ok seat (f p)"
  shows "slots_satisfy ok (update_seat seat f players)"
  using assms by (auto simp: slots_satisfy_def split: if_splits)

lemma validBankruptcyPlayer_jail: "validBankruptcyPlayer i p \<Longrightarrow> validJailState p"
  by (simp add: validBankruptcyPlayer_def validJailState_def)

text \<open>An active player is valid as soon as the jail fields, the seat and the misses are.\<close>

lemma validBankruptcyPlayer_active:
  "status p = Active \<Longrightarrow>
   validBankruptcyPlayer i p \<longleftrightarrow>
     seatIndex p = i \<and> validJailState p \<and> 0 \<le> missedTurns p \<and> missedTurns p \<le> 3"
  by (auto simp: validBankruptcyPlayer_def validJailState_def policy_simps)

section \<open>What a liquidation does\<close>

definition liquidationAt :: "property_state \<Rightarrow> int" where
  "liquidationAt p = (case js_index BOARD_SPACES (propPosition p) of None \<Rightarrow> 0 | Some d \<Rightarrow> liquidationOf d p)"

definition releaseIf :: "int \<Rightarrow> property_state \<Rightarrow> property_state" where
  "releaseIf seat p = (if ownerSeatIndex p = Some seat then releaseProperty p else p)"

interpretation release: property_rewrite "releaseIf seat" for seat
  by unfold_locales (simp add: releaseIf_def releaseProperty_def)

definition holdings :: "int \<Rightarrow> property_state list \<Rightarrow> property_state list" where
  "holdings seat ps = filter (\<lambda>p. ownerSeatIndex p = Some seat) ps"

lemma liquidate_result:
  "liquidate seat ps acc = Done r \<Longrightarrow>
     lq_value r = lq_value acc + sum_list (map liquidationAt (holdings seat ps)) \<and>
     lq_houses r = lq_houses acc + housesOnBoard (holdings seat ps) \<and>
     lq_hotels r = lq_hotels acc + hotelsOnBoard (holdings seat ps) \<and>
     lq_properties r = lq_properties acc @ map (releaseIf seat) ps \<and>
     (0 \<le> lq_value acc \<longrightarrow> 0 \<le> lq_value r)"
proof (induction seat ps acc rule: liquidate.induct)
  case (1 seat acc)
  then show ?case by (simp add: holdings_def housesOnBoard_def hotelsOnBoard_def)
next
  case (2 seat p ps acc)
  show ?case
  proof (cases "ownerSeatIndex p = Some seat")
    case False
    with 2 show ?thesis by (auto simp: holdings_def releaseIf_def)
  next
    case True
    with 2(3) obtain d v where d: "js_index BOARD_SPACES (propPosition p) = Some d"
      and v: "add (lq_value acc) (liquidationOf d p) = Inr (Some v)"
      by (auto split: option.splits sum.splits)
    from v have "v = lq_value acc + liquidationOf d p" "0 \<le> liquidationOf d p"
      by (auto simp: add_def checkedAdd_Some_iff matchCash_def split: if_splits)
    with True d 2(2) [of d "Some v" v] 2(3) v show ?thesis
      by (auto simp: holdings_def releaseIf_def liquidationAt_def housesOnBoard_def hotelsOnBoard_def)
  qed
qed

lemma liquidate_never_throws: "liquidate seat ps acc \<noteq> Inl e"
  by (induction seat ps acc rule: liquidate.induct)
    (auto simp: add_def matchCash_def split: option.splits)

lemma resolveBankruptcy_never_throws: "resolveBankruptcy ps qs stock bank seat \<noteq> Inl e"
  using liquidate_never_throws
  by (auto simp: resolveBankruptcy_def Let_def split: option.splits sum.splits)

lemma releaseIf_valid:
  "isValidPropertyStates ps \<Longrightarrow> isValidPropertyStates (map (releaseIf seat) ps)"
  by (rule release.rewrite_valid) (auto simp: releaseIf_def releaseProperty_def validPropertyAt_iff)

lemma release_buildings:
  "housesOnBoard (map (releaseIf seat) ps) = housesOnBoard ps - housesOnBoard (holdings seat ps)"
  "hotelsOnBoard (map (releaseIf seat) ps) = hotelsOnBoard ps - hotelsOnBoard (holdings seat ps)"
  by (induction ps) (auto simp: housesOnBoard_def hotelsOnBoard_def holdings_def releaseIf_def releaseProperty_def)

lemma holdings_nonneg:
  "isValidPropertyStates ps \<Longrightarrow> 0 \<le> housesOnBoard (holdings seat ps)"
  unfolding housesOnBoard_def holdings_def
  by (rule sum_list_nonneg) (auto elim: valid_properties_member dest: valid_property_houses)

lemma release_inventory:
  assumes "isValidBuildingInventory ps stock"
  shows "isValidBuildingInventory (map (releaseIf seat) ps)
    \<lparr>housesRemaining = housesRemaining stock + housesOnBoard (holdings seat ps),
     hotelsRemaining = hotelsRemaining stock + hotelsOnBoard (holdings seat ps)\<rparr>"
proof -
  from assms have ps: "isValidPropertyStates ps" by (simp add: validInventory_iff)
  note ps' = releaseIf_valid [OF ps, of seat]
  show ?thesis
    using assms ps' holdings_nonneg [OF ps, of seat] hotelsOnBoard_nonneg [of "holdings seat ps"]
      housesOnBoard_nonneg [OF ps'] hotelsOnBoard_nonneg [of "map (releaseIf seat) ps"]
    by (auto simp: validInventory_iff release_buildings)
qed

text \<open>Everything a successful resolution says about the state it answers.\<close>

lemma resolveBankruptcy_Done:
  assumes "resolveBankruptcy players properties stock bank seat = Done r"
  obtains p where
    "isValidBankruptcyState players properties stock bank"
    "seat_at players seat = Some p" "status p = Active"
    "br_players r = update_seat seat eliminatePlayer players"
    "br_properties r = map (releaseIf seat) properties"
    "br_inventory r = \<lparr>housesRemaining = housesRemaining stock + housesOnBoard (holdings seat properties),
       hotelsRemaining = hotelsRemaining stock + hotelsOnBoard (holdings seat properties)\<rparr>"
    "br_liquidationValue r = sum_list (map liquidationAt (holdings seat properties))"
    "0 \<le> br_liquidationValue r"
    "br_cashTransferred r = cash p" "br_bankCash r = bank + br_liquidationValue r + cash p"
    "isCash (br_bankCash r)" "br_bankruptSeatIndex r = seat" "br_verified r"
    "br_housesReturned r = housesOnBoard (holdings seat properties)"
    "br_hotelsReturned r = hotelsOnBoard (holdings seat properties)"
    "br_endConditionMet r \<longleftrightarrow> length (activeSeatIndexes (br_players r)) \<le> 1"
    "br_winnerSeatIndex r = (case activeSeatIndexes (br_players r) of [w] \<Rightarrow> Some w | _ \<Rightarrow> None)"
proof -
  let ?acc = "\<lparr>lq_value = 0, lq_houses = 0, lq_hotels = 0, lq_properties = []\<rparr>"
  from assms have valid: "isValidBankruptcyState players properties stock bank"
    by (auto simp: resolveBankruptcy_def split: if_splits)
  from assms valid obtain p sold where p: "seat_at players seat = Some p" "status p = Active"
    and sold: "liquidate seat properties ?acc = Done sold"
    by (auto simp: resolveBankruptcy_def split: if_splits option.splits sum.splits)
  note l = liquidate_result [OF sold]
  from assms valid p sold l
  have bank: "bank + lq_value sold + cash p \<le> MAX_MATCH_CASH"
    and r: "r = \<lparr>br_players = update_seat seat eliminatePlayer players, br_properties = lq_properties sold,
        br_inventory = \<lparr>housesRemaining = housesRemaining stock + lq_houses sold,
          hotelsRemaining = hotelsRemaining stock + lq_hotels sold\<rparr>,
        br_bankCash = bank + lq_value sold + cash p, br_bankruptSeatIndex = seat,
        br_liquidationValue = lq_value sold, br_cashTransferred = cash p,
        br_housesReturned = lq_houses sold, br_hotelsReturned = lq_hotels sold,
        br_endConditionMet = (length (activeSeatIndexes (update_seat seat eliminatePlayer players)) \<le> 1),
        br_winnerSeatIndex = (case activeSeatIndexes (update_seat seat eliminatePlayer players) of
          [w] \<Rightarrow> Some w | _ \<Rightarrow> None), br_verified = True\<rparr>"
    by (auto simp: resolveBankruptcy_def Let_def checkedAdd_Some_iff bind_eq_Some_conv
        split: if_splits option.splits)
  from valid p have "0 \<le> cash p" "0 \<le> bank"
    by (auto simp: isValidBankruptcyState_iff slots_satisfy_def validBankruptcyPlayer_def isCash_def)
  with bank r l valid p show thesis by (intro that [of p]) (simp_all add: isCash_def)
qed

lemma eliminated_player_valid: "validBankruptcyPlayer i p \<Longrightarrow> validBankruptcyPlayer i (eliminatePlayer p)"
  by (auto simp: validBankruptcyPlayer_def eliminatePlayer_def policy_simps MAX_MATCH_CASH_def)

lemma resolveBankruptcy_valid:
  assumes "resolveBankruptcy players properties stock bank seat = Done r"
  shows "isValidBankruptcyState (br_players r) (br_properties r) (br_inventory r) (br_bankCash r)"
  using assms
proof (rule resolveBankruptcy_Done)
  fix p
  assume valid: "isValidBankruptcyState players properties stock bank"
    and r: "br_players r = update_seat seat eliminatePlayer players"
      "br_properties r = map (releaseIf seat) properties"
      "br_inventory r = \<lparr>housesRemaining = housesRemaining stock + housesOnBoard (holdings seat properties),
         hotelsRemaining = hotelsRemaining stock + hotelsOnBoard (holdings seat properties)\<rparr>"
      "isCash (br_bankCash r)"
  from valid have parts: "length players = 4" "isValidBuildingInventory properties stock"
    "slots_satisfy validBankruptcyPlayer players" "owners_active properties players"
    by (auto simp: isValidBankruptcyState_iff)
  have "slots_satisfy validBankruptcyPlayer (update_seat seat eliminatePlayer players)"
    by (rule slots_satisfy_update_seat [OF parts(3)]) (rule eliminated_player_valid)
  moreover have "owners_active (map (releaseIf seat) properties) (update_seat seat eliminatePlayer players)"
    using parts(4)
    by (auto simp: owners_active_def releaseIf_def releaseProperty_def split: if_splits)
  ultimately show ?thesis
    using r release_inventory [OF parts(2), of seat] parts(1) by (simp add: isValidBankruptcyState_iff)
qed

end
