(* ===== verification/Timeout_Rules.thy ===== *)
theory Timeout_Rules
  imports Bankruptcy_Rules
begin

text \<open>
  \<open>rules/timeout-rules.ts\<close>: the turn clock, its two warnings and the resolution of a missed
  deadline. As for bankruptcies, membership of a forfeit in \<open>verifiedTimeoutForfeits\<close> is the flag
  \<open>tf_verified\<close>, set by \<open>resolveTurnTimeout\<close> only.
\<close>

record turn_state =
  currentSeatIndex :: int
  turnStartedAtMs :: int
  deadlineAtMs :: int
  emittedWarnings :: "int list"

record 'p timeout_game =
  tg_players :: "'p option list"
  tg_properties :: "property_state list"
  tg_inventory :: building_inventory
  tg_bankCash :: int
  tg_turn :: turn_state

datatype timeout_error_code =
    INVALID_TIMEOUT_STATE
  | TIMEOUT_NOT_REACHED
  | WARNING_NOT_REACHED
  | WARNING_ALREADY_EMITTED
  | NO_NEXT_ACTIVE_PLAYER
  | BANKRUPTCY_FAILED

record 'p turn_advanced =
  ta_timedOutSeatIndex :: int
  ta_missedTurns :: int
  ta_players :: "'p option list"
  ta_properties :: "property_state list"
  ta_inventory :: building_inventory
  ta_bankCash :: int
  ta_turn :: turn_state

record 'p timeout_forfeit =
  tf_timedOutSeatIndex :: int
  tf_missedTurns :: int
  tf_bankruptcy :: "'p bankruptcy_resolution"
  tf_turn :: "turn_state option"
  tf_verified :: bool

datatype 'p timeout_resolution =
    TurnAdvanced "'p turn_advanced"
  | Forfeit "'p timeout_forfeit"

section \<open>Clock\<close>

definition validTimeoutTurn :: "turn_state \<Rightarrow> bool" where
  "validTimeoutTurn turn =
     (if currentSeatIndex turn < 0 \<or> currentSeatIndex turn \<ge> maximumPlayers \<or>
         \<not> isSafeInteger (turnStartedAtMs turn) \<or> turnStartedAtMs turn < 0 \<or>
         \<not> isSafeInteger (deadlineAtMs turn) \<or> deadlineAtMs turn \<noteq> turnStartedAtMs turn + turnTimeoutMs
      then False
      else (let warnings = emittedWarnings turn in
        length warnings \<le> 2 \<and>
        list_all (\<lambda>warning. warning = 30 \<or> warning = 10) warnings \<and>
        length (remdups warnings) = length warnings \<and>
        \<not> (js_index warnings 0 = Some 10 \<and> length warnings = 2)))"

definition validTimeoutState :: "'a bankruptcy_player_scheme timeout_game \<Rightarrow> bool" where
  "validTimeoutState state =
     (if \<not> isValidBankruptcyState (tg_players state) (tg_properties state) (tg_inventory state)
             (tg_bankCash state) \<or>
         \<not> validTimeoutTurn (tg_turn state)
      then False
      else is_active (seat_at (tg_players state) (currentSeatIndex (tg_turn state))))"

definition isVerifiedTimeoutForfeit :: "'p timeout_forfeit \<Rightarrow> bool" where
  "isVerifiedTimeoutForfeit value = tf_verified value"

definition emitTimeoutWarning ::
  "turn_state \<Rightarrow> int \<Rightarrow> int \<Rightarrow> timeout_error_code + (turn_state \<times> int)" where
  "emitTimeoutWarning turn warningSeconds nowMs =
     (if \<not> validTimeoutTurn turn \<or> (warningSeconds \<noteq> 30 \<and> warningSeconds \<noteq> 10) \<or>
         \<not> isSafeInteger nowMs \<or> nowMs < 0
      then Inl INVALID_TIMEOUT_STATE
      else if warningSeconds \<in> set (emittedWarnings turn) then Inl WARNING_ALREADY_EMITTED
      else if warningSeconds = 30 \<and> 10 \<in> set (emittedWarnings turn) then Inl WARNING_ALREADY_EMITTED
      else (let warningAtMs = deadlineAtMs turn - warningSeconds * 1000;
                nextWarningAtMs = deadlineAtMs turn - 10000 in
        if nowMs < warningAtMs \<or> nowMs \<ge> deadlineAtMs turn \<or>
           (warningSeconds = 30 \<and> nowMs \<ge> nextWarningAtMs)
        then Inl WARNING_NOT_REACHED
        else Inr (turn\<lparr>emittedWarnings := emittedWarnings turn @ [warningSeconds]\<rparr>, warningSeconds)))"

definition nextActiveSeat :: "'a terminal_player_scheme option list \<Rightarrow> int \<Rightarrow> int option" where
  "nextActiveSeat players current =
     find (\<lambda>seat. is_active (seat_at players seat))
       (map (\<lambda>offset. js_rem (current + offset) maximumPlayers) [1 .. maximumPlayers])"

definition freshTurn :: "int \<Rightarrow> int \<Rightarrow> turn_state" where
  "freshTurn seat nowMs =
     \<lparr>currentSeatIndex = seat, turnStartedAtMs = nowMs, deadlineAtMs = nowMs + turnTimeoutMs,
      emittedWarnings = []\<rparr>"

text \<open>The forfeit of a third missed turn.\<close>

definition resolveForfeit ::
  "'a bankruptcy_player_scheme timeout_game \<Rightarrow> 'a bankruptcy_player_scheme option list \<Rightarrow> int \<Rightarrow>
   (timeout_error_code, 'a bankruptcy_player_scheme timeout_resolution) outcome" where
  "resolveForfeit state players nowMs =
     (let current = currentSeatIndex (tg_turn state) in
      case resolveBankruptcy players (tg_properties state) (tg_inventory state) (tg_bankCash state) current of
        Inl e \<Rightarrow> Inl e
      | Inr (Inl _) \<Rightarrow> Fail BANKRUPTCY_FAILED
      | Inr (Inr bankruptcy) \<Rightarrow>
          if br_endConditionMet bankruptcy then
            Done (Forfeit \<lparr>tf_timedOutSeatIndex = current, tf_missedTurns = 3,
                           tf_bankruptcy = bankruptcy, tf_turn = None, tf_verified = True\<rparr>)
          else (case nextActiveSeat (br_players bankruptcy) current of
            None \<Rightarrow> Fail NO_NEXT_ACTIVE_PLAYER
          | Some nextSeat \<Rightarrow>
              if \<not> isSafeInteger (nowMs + turnTimeoutMs) then Fail INVALID_TIMEOUT_STATE
              else Done (Forfeit \<lparr>tf_timedOutSeatIndex = current, tf_missedTurns = 3,
                                  tf_bankruptcy = bankruptcy, tf_turn = Some (freshTurn nextSeat nowMs),
                                  tf_verified = True\<rparr>)))"

definition resolveTurnTimeout ::
  "'a bankruptcy_player_scheme timeout_game \<Rightarrow> int \<Rightarrow>
   (timeout_error_code, 'a bankruptcy_player_scheme timeout_resolution) outcome" where
  "resolveTurnTimeout state nowMs =
     (if \<not> validTimeoutState state \<or> \<not> isSafeInteger nowMs \<or> nowMs < 0 then Fail INVALID_TIMEOUT_STATE
      else if nowMs < deadlineAtMs (tg_turn state) then Fail TIMEOUT_NOT_REACHED
      else (let current = currentSeatIndex (tg_turn state) in
        case seat_at (tg_players state) current of
          None \<Rightarrow> Inl TypeError
        | Some timedOutPlayer \<Rightarrow>
            (let missed = missedTurns timedOutPlayer + 1 in
             if missed > maximumMissedTurns then Fail INVALID_TIMEOUT_STATE
             else (let players = update_seat current (\<lambda>p. p\<lparr>missedTurns := missed\<rparr>) (tg_players state) in
               if missed = maximumMissedTurns then resolveForfeit state players nowMs
               else (case nextActiveSeat players current of
                 None \<Rightarrow> Fail NO_NEXT_ACTIVE_PLAYER
               | Some nextSeat \<Rightarrow>
                   if nextSeat = current then Fail NO_NEXT_ACTIVE_PLAYER
                   else if \<not> isSafeInteger (nowMs + turnTimeoutMs) then Fail INVALID_TIMEOUT_STATE
                   else Done (TurnAdvanced
                     \<lparr>ta_timedOutSeatIndex = current, ta_missedTurns = missed, ta_players = players,
                      ta_properties = tg_properties state, ta_inventory = tg_inventory state,
                      ta_bankCash = tg_bankCash state, ta_turn = freshTurn nextSeat nowMs\<rparr>))))))"

section \<open>Warnings\<close>

text \<open>The admissible warning histories: nothing, one of the two, or both in order.\<close>

definition warning_history :: "int list \<Rightarrow> bool" where
  "warning_history w \<longleftrightarrow> w = [] \<or> w = [30] \<or> w = [10] \<or> w = [30, 10]"

lemma short_list_cases:
  assumes "length w \<le> 2"
  obtains "w = []" | a where "w = [a]" | a b where "w = [a, b]"
  using assms by (cases w; cases "tl w") auto

lemma warning_history_set_check:
  "(length w \<le> 2 \<and> list_all (\<lambda>x. x = 30 \<or> x = 10) w \<and> length (remdups w) = length w \<and>
     \<not> (js_index w 0 = Some 10 \<and> length w = 2)) \<longleftrightarrow> warning_history w"
proof (cases "length w \<le> 2")
  case True
  then show ?thesis
    by (cases rule: short_list_cases) (auto simp: warning_history_def js_index_def)
next
  case False
  then show ?thesis by (auto simp: warning_history_def)
qed

definition clock_ok :: "'a turn_state_scheme \<Rightarrow> bool" where
  "clock_ok turn \<longleftrightarrow>
     0 \<le> currentSeatIndex turn \<and> currentSeatIndex turn < 4 \<and>
     isSafeInteger (turnStartedAtMs turn) \<and> 0 \<le> turnStartedAtMs turn \<and>
     isSafeInteger (deadlineAtMs turn) \<and> deadlineAtMs turn = turnStartedAtMs turn + turnTimeoutMs \<and>
     warning_history (emittedWarnings turn)"

lemma validTimeoutTurn_iff: "validTimeoutTurn turn \<longleftrightarrow> clock_ok turn"
  using warning_history_set_check [of "emittedWarnings turn"]
  by (auto simp: validTimeoutTurn_def clock_ok_def Let_def policy_simps)

lemma freshTurn_ok:
  "0 \<le> seat \<Longrightarrow> seat < 4 \<Longrightarrow> 0 \<le> now \<Longrightarrow> isSafeInteger (now + turnTimeoutMs) \<Longrightarrow> clock_ok (freshTurn seat now)"
  by (auto simp: clock_ok_def freshTurn_def warning_history_def isSafeInteger_def policy_simps)

lemma emitTimeoutWarning_Inr:
  assumes "emitTimeoutWarning turn w now = Inr (t, s)"
  shows "s = w" "w = 30 \<or> w = 10" "t = turn\<lparr>emittedWarnings := emittedWarnings turn @ [w]\<rparr>"
    "clock_ok turn" "clock_ok t" "w \<notin> set (emittedWarnings turn)"
    "deadlineAtMs turn - w * 1000 \<le> now" "now < deadlineAtMs turn"
  using assms
  by (auto simp: emitTimeoutWarning_def Let_def validTimeoutTurn_iff clock_ok_def warning_history_def
      split: if_splits)

section \<open>The next seat\<close>

lemma offset_seats:
  assumes "0 \<le> current" "current < 4"
  shows "set (map (\<lambda>offset. js_rem (current + offset) maximumPlayers) [1 .. maximumPlayers]) = {0 ..< (4::int)}"
proof -
  have "(\<lambda>offset. (current + offset) mod 4) ` {1 .. 4} = {0 ..< (4::int)}"
  proof (rule equalityI; rule subsetI)
    fix s :: int
    assume s: "s \<in> {0 ..< 4}"
    with assms have "s = (current + (if s > current then s - current else s - current + 4)) mod 4"
      by (auto simp: mod_add_right_eq)
    moreover have "(if s > current then s - current else s - current + 4) \<in> {1 .. 4}" using s assms by auto
    ultimately show "s \<in> (\<lambda>offset. (current + offset) mod 4) ` {1 .. 4}" by blast
  qed auto
  moreover have "(\<lambda>offset. js_rem (current + offset) maximumPlayers) ` {1 .. 4} =
      (\<lambda>offset. (current + offset) mod 4) ` {1 .. 4}"
    using assms by (intro image_cong) (auto simp: js_rem_def policy_simps)
  ultimately show ?thesis by (simp add: policy_simps)
qed

lemma nextActiveSeat_Some:
  assumes "nextActiveSeat players current = Some seat" "0 \<le> current" "current < 4"
  shows "is_active (seat_at players seat)" "0 \<le> seat" "seat < 4"
  using find_SomeD [OF assms(1) [unfolded nextActiveSeat_def]]
  unfolding offset_seats [OF assms(2,3)] by auto

lemma nextActiveSeat_None:
  assumes "nextActiveSeat players current = None" "0 \<le> current" "current < 4" "0 \<le> seat" "seat < 4"
  shows "\<not> is_active (seat_at players seat)"
  using find_NoneD [OF assms(1) [unfolded nextActiveSeat_def], of seat] assms(4,5)
  unfolding offset_seats [OF assms(2,3)] by auto

lemma seat_at_range: "seat_at players s = Some p \<Longrightarrow> length players = 4 \<Longrightarrow> 0 \<le> s \<and> s < 4"
  by (simp add: seat_at_Some_iff)

section \<open>What a resolved timeout guarantees\<close>

lemma resolveForfeit_never_throws: "resolveForfeit state players now \<noteq> Inl e"
  by (auto simp: resolveForfeit_def Let_def resolveBankruptcy_never_throws split: sum.splits option.splits)

lemma resolveTurnTimeout_never_throws: "resolveTurnTimeout state now \<noteq> Inl e"
  by (auto simp: resolveTurnTimeout_def validTimeoutState_def Let_def resolveForfeit_never_throws
      split: option.splits)

text \<open>The three ways a deadline resolves.\<close>

lemma resolveTurnTimeout_cases:
  assumes "resolveTurnTimeout state now = Done r"
  obtains (advanced) p nextSeat where
      "r = TurnAdvanced \<lparr>ta_timedOutSeatIndex = currentSeatIndex (tg_turn state),
         ta_missedTurns = missedTurns p + 1,
         ta_players = update_seat (currentSeatIndex (tg_turn state))
           (\<lambda>q. q\<lparr>missedTurns := missedTurns p + 1\<rparr>) (tg_players state),
         ta_properties = tg_properties state, ta_inventory = tg_inventory state,
         ta_bankCash = tg_bankCash state, ta_turn = freshTurn nextSeat now\<rparr>"
      "seat_at (tg_players state) (currentSeatIndex (tg_turn state)) = Some p" "missedTurns p < 2"
      "nextSeat \<noteq> currentSeatIndex (tg_turn state)" "isSafeInteger (now + turnTimeoutMs)"
      "nextActiveSeat (update_seat (currentSeatIndex (tg_turn state))
           (\<lambda>q. q\<lparr>missedTurns := missedTurns p + 1\<rparr>) (tg_players state))
         (currentSeatIndex (tg_turn state)) = Some nextSeat"
  | (over) p b where
      "r = Forfeit \<lparr>tf_timedOutSeatIndex = currentSeatIndex (tg_turn state), tf_missedTurns = 3,
         tf_bankruptcy = b, tf_turn = None, tf_verified = True\<rparr>"
      "seat_at (tg_players state) (currentSeatIndex (tg_turn state)) = Some p" "missedTurns p = 2"
      "resolveBankruptcy (update_seat (currentSeatIndex (tg_turn state))
         (\<lambda>q. q\<lparr>missedTurns := 3\<rparr>) (tg_players state)) (tg_properties state) (tg_inventory state)
         (tg_bankCash state) (currentSeatIndex (tg_turn state)) = Done b"
      "br_endConditionMet b"
  | (handed_on) p b nextSeat where
      "r = Forfeit \<lparr>tf_timedOutSeatIndex = currentSeatIndex (tg_turn state), tf_missedTurns = 3,
         tf_bankruptcy = b, tf_turn = Some (freshTurn nextSeat now), tf_verified = True\<rparr>"
      "seat_at (tg_players state) (currentSeatIndex (tg_turn state)) = Some p" "missedTurns p = 2"
      "resolveBankruptcy (update_seat (currentSeatIndex (tg_turn state))
         (\<lambda>q. q\<lparr>missedTurns := 3\<rparr>) (tg_players state)) (tg_properties state) (tg_inventory state)
         (tg_bankCash state) (currentSeatIndex (tg_turn state)) = Done b"
      "\<not> br_endConditionMet b" "isSafeInteger (now + turnTimeoutMs)"
      "nextActiveSeat (br_players b) (currentSeatIndex (tg_turn state)) = Some nextSeat"
proof -
  let ?seat = "currentSeatIndex (tg_turn state)"
  from assms obtain p where p: "seat_at (tg_players state) ?seat = Some p" "missedTurns p \<le> 2"
    by (auto simp: resolveTurnTimeout_def Let_def policy_simps split: if_splits option.splits)
  show thesis
  proof (cases "missedTurns p = 2")
    case False
    with p assms show thesis
      by (auto simp: resolveTurnTimeout_def Let_def policy_simps split: if_splits option.splits
          intro: advanced [of p])
  next
    case True
    then have "1 + missedTurns p = 3" by simp
    with True p assms have f: "resolveForfeit state
        (update_seat ?seat (\<lambda>q. q\<lparr>missedTurns := 3\<rparr>) (tg_players state)) now = Done r"
      by (simp add: resolveTurnTimeout_def Let_def policy_simps split: if_splits)
    then obtain b where b: "resolveBankruptcy (update_seat ?seat (\<lambda>q. q\<lparr>missedTurns := 3\<rparr>)
        (tg_players state)) (tg_properties state) (tg_inventory state) (tg_bankCash state) ?seat = Done b"
      by (auto simp: resolveForfeit_def Let_def split: sum.splits)
    show thesis
    proof (cases "br_endConditionMet b")
      case e: True
      with f b have "r = Forfeit \<lparr>tf_timedOutSeatIndex = ?seat, tf_missedTurns = 3,
          tf_bankruptcy = b, tf_turn = None, tf_verified = True\<rparr>" by (simp add: resolveForfeit_def Let_def)
      with True p b e show thesis by (intro over)
    next
      case e: False
      with f b obtain n where "nextActiveSeat (br_players b) ?seat = Some n"
          "isSafeInteger (now + turnTimeoutMs)"
          "r = Forfeit \<lparr>tf_timedOutSeatIndex = ?seat, tf_missedTurns = 3,
            tf_bankruptcy = b, tf_turn = Some (freshTurn n now), tf_verified = True\<rparr>"
        by (auto simp: resolveForfeit_def Let_def split: option.splits if_splits)
      with True p b e show thesis by (intro handed_on)
    qed
  qed
qed

lemma resolveTurnTimeout_due:
  assumes "resolveTurnTimeout state now = Done r"
  shows "validTimeoutState state" "deadlineAtMs (tg_turn state) \<le> now" "isSafeInteger now" "0 \<le> now"
  using assms by (auto simp: resolveTurnTimeout_def split: if_splits)

end
