(* ===== verification/Terminal_Rules.thy ===== *)
theory Terminal_Rules
  imports Timeout_Rules
begin

text \<open>
  \<open>rules/terminal-rules.ts\<close>: net worth, the ranking of the players still active and the three ways
  a game ends.
\<close>

datatype terminal_end_reason = LastPlayerStanding | TimeLimit | TimeoutForfeit

record terminal_ranking_entry =
  re_rank :: int
  re_seatIndex :: int
  re_netWorth :: int

text \<open>The settlement entitlement always has the status \<open>pending\<close>; its seat is kept.\<close>

record terminal_outcome =
  to_reason :: terminal_end_reason
  to_winnerSeatIndex :: int
  to_endedAtMs :: int
  to_ranking :: "terminal_ranking_entry list"
  to_settlementWinnerSeatIndex :: int

datatype terminal_error_code =
    INVALID_TERMINAL_STATE | NO_ACTIVE_PLAYERS | END_CONDITION_NOT_MET | TERMINAL_ARITHMETIC_OVERFLOW

section \<open>The comparator\<close>

text \<open>A ranked player is ordered by the comparator of \<open>ranked.sort\<close>: higher net worth first, the
  lower seat first on a tie. As a linear order it makes the library's \<open>sort\<close> the program's.\<close>

datatype ranked = Ranked (rankedSeat: int) (rankedNetWorth: int)

instantiation ranked :: linorder
begin

definition less_eq_ranked :: "ranked \<Rightarrow> ranked \<Rightarrow> bool" where
  "less_eq_ranked left right \<longleftrightarrow>
     rankedNetWorth left > rankedNetWorth right \<or>
     (rankedNetWorth left = rankedNetWorth right \<and> rankedSeat left \<le> rankedSeat right)"

definition less_ranked :: "ranked \<Rightarrow> ranked \<Rightarrow> bool" where
  "less_ranked left right \<longleftrightarrow> left \<le> right \<and> left \<noteq> right"

instance
proof
  fix x y z :: ranked
  show "x < y \<longleftrightarrow> x \<le> y \<and> \<not> y \<le> x"
    by (cases x; cases y) (auto simp: less_eq_ranked_def less_ranked_def)
  show "x \<le> x" by (simp add: less_eq_ranked_def)
  show "x \<le> y \<Longrightarrow> y \<le> z \<Longrightarrow> x \<le> z" by (auto simp: less_eq_ranked_def)
  show "x \<le> y \<Longrightarrow> y \<le> x \<Longrightarrow> x = y" by (cases x; cases y) (auto simp: less_eq_ranked_def)
  show "x \<le> y \<or> y \<le> x" by (auto simp: less_eq_ranked_def)
qed

end

section \<open>Net worth\<close>

definition validTerminalPlayer :: "'a terminal_player_scheme \<Rightarrow> bool" where
  "validTerminalPlayer player \<longleftrightarrow>
     seatIndex player \<ge> 0 \<and> seatIndex player < maximumPlayers \<and>
     cash player \<ge> 0 \<and> cash player \<le> MAX_MATCH_CASH \<and>
     (status player = Active \<or> cash player = 0)"

definition validTerminalState ::
  "'a terminal_player_scheme option list \<Rightarrow> property_state list \<Rightarrow> bool" where
  "validTerminalState players properties =
     (if int (length players) \<noteq> maximumPlayers \<or> \<not> isValidPropertyStates properties then False
      else case collectActive (\<lambda>index player. validTerminalPlayer player \<and> seatIndex player = index \<and>
                  \<not> (status player = Eliminated \<and> cash player \<noteq> 0)) 0 players of
        None \<Rightarrow> False
      | Some activeSeats \<Rightarrow> ownersIn activeSeats properties)"

definition propertyWorth :: "board_space_definition \<Rightarrow> property_state \<Rightarrow> int" where
  "propertyWorth definition' property =
     (if mortgaged property then (mortgageValue definition' * 9) div 10 else mortgageValue definition')"

definition buildingWorth :: "board_space_definition \<Rightarrow> property_state \<Rightarrow> int" where
  "buildingWorth definition' property =
     (if hasHotel property then houseCost definition' * 5 else houseCost definition' * houses property)"

text \<open>The loop that adds up the holdings; \<open>Inr None\<close> is \<open>null\<close>.\<close>

fun netWorthLoop :: "int \<Rightarrow> property_state list \<Rightarrow> int \<Rightarrow> exn + int option" where
  "netWorthLoop seat [] netWorth = Inr (Some netWorth)"
| "netWorthLoop seat (property # rest) netWorth =
     (if ownerSeatIndex property \<noteq> Some seat then netWorthLoop seat rest netWorth
      else case js_index BOARD_SPACES (propPosition property) of
        None \<Rightarrow> Inr None
      | Some definition' \<Rightarrow> (case matchCash (propertyWorth definition' property) of
          Inl e \<Rightarrow> Inl e
        | Inr worth \<Rightarrow> (case checkedAddMatchCash netWorth worth of
            None \<Rightarrow> Inr None
          | Some afterProperty \<Rightarrow> (case matchCash (buildingWorth definition' property) of
              Inl e \<Rightarrow> Inl e
            | Inr buildings \<Rightarrow> (case checkedAddMatchCash afterProperty buildings of
                None \<Rightarrow> Inr None
              | Some afterBuildings \<Rightarrow> netWorthLoop seat rest afterBuildings)))))"

definition calculatePlayerNetWorth ::
  "'a terminal_player_scheme \<Rightarrow> property_state list \<Rightarrow> exn + int option" where
  "calculatePlayerNetWorth player properties =
     (if \<not> validTerminalPlayer player then Inr None
      else if \<not> isValidPropertyStates properties then Inr None
      else if status player = Eliminated \<and>
              list_ex (\<lambda>property. ownerSeatIndex property = Some (seatIndex player)) properties
      then Inr None
      else netWorthLoop (seatIndex player) properties (cash player))"

section \<open>Ranking\<close>

fun rankPlayers ::
  "property_state list \<Rightarrow> 'a terminal_player_scheme list \<Rightarrow> (terminal_error_code, ranked list) outcome" where
  "rankPlayers properties [] = Done []"
| "rankPlayers properties (player # rest) =
     (case calculatePlayerNetWorth player properties of
        Inl e \<Rightarrow> Inl e
      | Inr None \<Rightarrow> Fail TERMINAL_ARITHMETIC_OVERFLOW
      | Inr (Some netWorth) \<Rightarrow> (case rankPlayers properties rest of
          Inl e \<Rightarrow> Inl e
        | Inr (Inl code) \<Rightarrow> Fail code
        | Inr (Inr others) \<Rightarrow> Done (Ranked (seatIndex player) netWorth # others)))"

text \<open>\<open>players.filter(player => player !== null && player.status === "active")\<close>\<close>

definition activePlayers :: "'a terminal_player_scheme option list \<Rightarrow> 'a terminal_player_scheme list" where
  "activePlayers players = List.map_filter (\<lambda>slot. if is_active slot then slot else None) players"

definition rankingEntries :: "ranked list \<Rightarrow> terminal_ranking_entry list" where
  "rankingEntries rs =
     map_index (\<lambda>index entry. \<lparr>re_rank = index + 1, re_seatIndex = rankedSeat entry,
                               re_netWorth = rankedNetWorth entry\<rparr>) rs"

definition deriveRankedTerminalOutcome ::
  "'a terminal_player_scheme option list \<Rightarrow> property_state list \<Rightarrow> terminal_end_reason \<Rightarrow> int \<Rightarrow>
   (terminal_error_code, terminal_outcome) outcome" where
  "deriveRankedTerminalOutcome players properties reason endedAtMs =
     (if \<not> validTerminalState players properties \<or> \<not> isSafeInteger endedAtMs \<or> endedAtMs < 0
      then Fail INVALID_TERMINAL_STATE
      else (let active = activePlayers players in
        if length active = 0 then Fail NO_ACTIVE_PLAYERS
        else if (reason = LastPlayerStanding \<or> reason = TimeoutForfeit) \<and> length active \<noteq> 1
        then Fail END_CONDITION_NOT_MET
        else (case rankPlayers properties active of
          Inl e \<Rightarrow> Inl e
        | Inr (Inl code) \<Rightarrow> Fail code
        | Inr (Inr rs) \<Rightarrow>
            (let ranking = rankingEntries (sort rs) in
             case ranking of
               [] \<Rightarrow> Inl TypeError
             | first # _ \<Rightarrow>
                 Done \<lparr>to_reason = reason, to_winnerSeatIndex = re_seatIndex first,
                       to_endedAtMs = endedAtMs, to_ranking = ranking,
                       to_settlementWinnerSeatIndex = re_seatIndex first\<rparr>))))"

definition deriveTimeLimitTerminalOutcome ::
  "'a terminal_player_scheme option list \<Rightarrow> property_state list \<Rightarrow> int option \<Rightarrow> int \<Rightarrow>
   (terminal_error_code, terminal_outcome) outcome" where
  "deriveTimeLimitTerminalOutcome players properties gameEndAtMs endedAtMs =
     (case gameEndAtMs of
        None \<Rightarrow> Fail INVALID_TERMINAL_STATE
      | Some end' \<Rightarrow>
          if \<not> isSafeInteger end' \<or> end' < 0 then Fail INVALID_TERMINAL_STATE
          else if \<not> isSafeInteger endedAtMs \<or> endedAtMs < 0 then Fail INVALID_TERMINAL_STATE
          else if endedAtMs < end' then Fail END_CONDITION_NOT_MET
          else deriveRankedTerminalOutcome players properties TimeLimit endedAtMs)"

definition deriveBankruptcyTerminalOutcome ::
  "'a terminal_player_scheme bankruptcy_resolution \<Rightarrow> int \<Rightarrow> (terminal_error_code, terminal_outcome) outcome" where
  "deriveBankruptcyTerminalOutcome resolution endedAtMs =
     (if \<not> isVerifiedBankruptcyResolution resolution then Fail INVALID_TERMINAL_STATE
      else if \<not> br_endConditionMet resolution \<or> br_winnerSeatIndex resolution = None
      then Fail END_CONDITION_NOT_MET
      else (case activePlayers (br_players resolution) of
        [player] \<Rightarrow>
          if Some (seatIndex player) \<noteq> br_winnerSeatIndex resolution then Fail INVALID_TERMINAL_STATE
          else deriveRankedTerminalOutcome (br_players resolution) (br_properties resolution)
                 LastPlayerStanding endedAtMs
      | _ \<Rightarrow> Fail INVALID_TERMINAL_STATE))"

definition deriveTimeoutForfeitTerminalOutcome ::
  "'a terminal_player_scheme timeout_forfeit \<Rightarrow> int \<Rightarrow> (terminal_error_code, terminal_outcome) outcome" where
  "deriveTimeoutForfeitTerminalOutcome resolution endedAtMs =
     (if \<not> isVerifiedTimeoutForfeit resolution then Fail INVALID_TERMINAL_STATE
      else if \<not> br_endConditionMet (tf_bankruptcy resolution) \<or>
              br_winnerSeatIndex (tf_bankruptcy resolution) = None
      then Fail END_CONDITION_NOT_MET
      else deriveRankedTerminalOutcome (br_players (tf_bankruptcy resolution))
             (br_properties (tf_bankruptcy resolution)) TimeoutForfeit endedAtMs)"

section \<open>The validator, declaratively\<close>

lemma validTerminalState_iff:
  "validTerminalState players properties \<longleftrightarrow>
     length players = 4 \<and> isValidPropertyStates properties \<and>
     slots_satisfy (\<lambda>i p. validTerminalPlayer p \<and> seatIndex p = i) players \<and>
     owners_active properties players"
proof -
  have "(\<lambda>i p. validTerminalPlayer p \<and> seatIndex p = i \<and> \<not> (status p = Eliminated \<and> cash p \<noteq> 0)) =
        (\<lambda>i (p :: 'a terminal_player_scheme). validTerminalPlayer p \<and> seatIndex p = i)"
    by (auto simp: validTerminalPlayer_def fun_eq_iff)
  then show ?thesis
    using collectActive_owners [where players = players and properties = properties and
        ok = "\<lambda>i p. validTerminalPlayer p \<and> seatIndex p = i"]
    by (auto simp: validTerminalState_def policy_simps)
qed

lemma validBankruptcyPlayer_terminal:
  "validBankruptcyPlayer i p \<Longrightarrow> 0 \<le> i \<Longrightarrow> i < 4 \<Longrightarrow> validTerminalPlayer p \<and> seatIndex p = i"
  by (auto simp: validBankruptcyPlayer_def validTerminalPlayer_def policy_simps)

lemma bankruptcy_state_terminal:
  "isValidBankruptcyState players properties stock bank \<Longrightarrow> validTerminalState players properties"
  by (auto simp: isValidBankruptcyState_iff validTerminalState_iff validInventory_iff slots_satisfy_def
      dest: seat_at_range validBankruptcyPlayer_terminal)

lemma activeSeatIndexes_eq: "activeSeatIndexes players = map seatIndex (activePlayers players)"
  by (induction players) (auto simp: activeSeatIndexes_def activePlayers_def List.map_filter_def
      split: option.split)

lemma activePlayers_member:
  "p \<in> set (activePlayers players) \<longleftrightarrow> status p = Active \<and> Some p \<in> set players"
  by (force simp: activePlayers_def map_filter_def split: if_splits)

lemma seat_at_member: "Some p \<in> set players \<longleftrightarrow> (\<exists>i. seat_at players i = Some p)"
proof
  assume "Some p \<in> set players"
  then obtain k where "k < length players" "players ! k = Some p" by (auto simp: in_set_conv_nth)
  then show "\<exists>i. seat_at players i = Some p" by (metis seat_at_nat)
qed (auto dest: seat_at_in_set)

lemma activePlayers_seats:
  "p \<in> set (activePlayers players) \<longleftrightarrow> status p = Active \<and> (\<exists>i. seat_at players i = Some p)"
  by (simp add: activePlayers_member seat_at_member)

section \<open>Net worth\<close>

definition worthAt :: "property_state \<Rightarrow> int" where
  "worthAt p = (case js_index BOARD_SPACES (propPosition p) of
     None \<Rightarrow> 0 | Some d \<Rightarrow> propertyWorth d p + buildingWorth d p)"

lemma worth_bounds:
  assumes "js_index BOARD_SPACES i = Some d" "validPropertyAt j p"
  shows "0 \<le> propertyWorth d p \<and> propertyWorth d p \<le> 1000000000"
    "0 \<le> buildingWorth d p \<and> buildingWorth d p \<le> 1000000000"
proof -
  have b: "0 \<le> mortgageValue d" "mortgageValue d \<le> 1000" "0 \<le> houseCost d" "houseCost d \<le> 200"
    using space_bounds [OF assms(1)] by auto
  have h: "0 \<le> houses p" "houses p \<le> 4" using valid_property_houses [OF assms(2)] by auto
  from b show "0 \<le> propertyWorth d p \<and> propertyWorth d p \<le> 1000000000"
    by (auto simp: propertyWorth_def)
  have "houseCost d * houses p \<le> 200 * 4" using b h by (intro mult_mono) auto
  with b h show "0 \<le> buildingWorth d p \<and> buildingWorth d p \<le> 1000000000"
    by (auto simp: buildingWorth_def)
qed

lemma netWorthLoop_never_throws:
  "(\<And>p. p \<in> set ps \<Longrightarrow> validPropertyAt (propPosition p) p) \<Longrightarrow> netWorthLoop seat ps w \<noteq> Inl e"
proof (induction seat ps w rule: netWorthLoop.induct)
  case (1 seat w)
  then show ?case by simp
next
  case (2 seat p ps w)
  have v: "validPropertyAt (propPosition p) p" using 2(3) by simp
  show ?case
  proof (cases "js_index BOARD_SPACES (propPosition p)")
    case None
    with 2 show ?thesis by simp
  next
    case (Some d)
    note wb = worth_bounds [OF Some v]
    have "matchCash (propertyWorth d p) = Inr (propertyWorth d p)"
      "matchCash (buildingWorth d p) = Inr (buildingWorth d p)"
      using wb by (auto intro: matchCash_small)
    with Some 2 show ?thesis by (auto split: option.splits)
  qed
qed

lemma netWorthLoop_result:
  "netWorthLoop seat ps w = Inr (Some v) \<Longrightarrow>
     v = w + sum_list (map worthAt (holdings seat ps)) \<and> (isCash w \<longrightarrow> isCash v)"
proof (induction seat ps w rule: netWorthLoop.induct)
  case (1 seat w)
  then show ?case by (simp add: holdings_def)
next
  case (2 seat p ps w)
  show ?case
  proof (cases "ownerSeatIndex p = Some seat")
    case False
    with 2 show ?thesis by (auto simp: holdings_def)
  next
    case True
    with 2(3) obtain d where d: "js_index BOARD_SPACES (propPosition p) = Some d"
      and pos: "0 \<le> propertyWorth d p" "0 \<le> buildingWorth d p"
        "w + propertyWorth d p \<le> MAX_MATCH_CASH" "w + propertyWorth d p + buildingWorth d p \<le> MAX_MATCH_CASH"
      and rest: "netWorthLoop seat ps (w + propertyWorth d p + buildingWorth d p) = Inr (Some v)"
      and mc: "matchCash (propertyWorth d p) = Inr (propertyWorth d p)"
        "matchCash (buildingWorth d p) = Inr (buildingWorth d p)"
      by (auto simp: matchCash_def checkedAdd_Some_iff split: option.splits sum.splits if_splits)
    have "v = w + propertyWorth d p + buildingWorth d p + sum_list (map worthAt (holdings seat ps)) \<and>
        (isCash (w + propertyWorth d p + buildingWorth d p) \<longrightarrow> isCash v)"
      using 2(2) [of d "propertyWorth d p" "w + propertyWorth d p" "buildingWorth d p"
          "w + propertyWorth d p + buildingWorth d p"] True d pos rest mc
      by (auto simp: checkedAddMatchCash_def Let_def)
    moreover have "worthAt p = propertyWorth d p + buildingWorth d p" using d by (simp add: worthAt_def)
    ultimately show ?thesis using True pos by (auto simp: holdings_def isCash_def)
  qed
qed

lemma calculatePlayerNetWorth_never_throws: "calculatePlayerNetWorth p ps \<noteq> Inl e"
proof (cases "isValidPropertyStates ps")
  case True
  have "validPropertyAt (propPosition q) q" if "q \<in> set ps" for q
    using valid_properties_member [OF True that] by (metis valid_property_position)
  then show ?thesis by (simp add: calculatePlayerNetWorth_def netWorthLoop_never_throws)
qed (simp add: calculatePlayerNetWorth_def)

lemma calculatePlayerNetWorth_Some:
  "calculatePlayerNetWorth p ps = Inr (Some v) \<Longrightarrow>
     v = cash p + sum_list (map worthAt (holdings (seatIndex p) ps)) \<and> isCash v"
  by (auto simp: calculatePlayerNetWorth_def validTerminalPlayer_def isCash_def
      dest!: netWorthLoop_result split: if_splits)

section \<open>The ranking\<close>

lemma rankPlayers_never_throws: "rankPlayers ps players \<noteq> Inl e"
  by (induction players) (auto simp: calculatePlayerNetWorth_never_throws split: sum.splits option.splits)

lemma rankPlayers_Done:
  "rankPlayers ps players = Done rs \<Longrightarrow>
     list_all2 (\<lambda>p r. calculatePlayerNetWorth p ps = Inr (Some (rankedNetWorth r)) \<and> rankedSeat r = seatIndex p)
       players rs"
  by (induction players arbitrary: rs) (auto split: sum.splits option.splits)

lemma rankingEntries_simps [simp]: "length (rankingEntries rs) = length rs"
  by (simp add: rankingEntries_def)

lemma deriveRanked_never_throws: "deriveRankedTerminalOutcome players ps reason now \<noteq> Inl e"
proof
  assume h: "deriveRankedTerminalOutcome players ps reason now = Inl e"
  then obtain rs where rs: "rankPlayers ps (activePlayers players) = Done rs"
      and "rankingEntries (sort rs) = []" "activePlayers players \<noteq> []"
    by (auto simp: deriveRankedTerminalOutcome_def Let_def rankPlayers_never_throws
        split: if_splits sum.splits list.splits)
  moreover from this have "rs = []" by (metis rankingEntries_simps length_0_conv length_sort)
  ultimately show False using rankPlayers_Done [OF rs] by simp
qed

lemma deriveRanked_Done:
  assumes "deriveRankedTerminalOutcome players ps reason now = Done t"
  obtains rs where "validTerminalState players ps" "rankPlayers ps (activePlayers players) = Done rs"
    "rs \<noteq> []" "to_ranking t = rankingEntries (sort rs)" "to_winnerSeatIndex t = rankedSeat (hd (sort rs))"
    "to_settlementWinnerSeatIndex t = to_winnerSeatIndex t" "to_reason t = reason" "to_endedAtMs t = now"
    "reason \<noteq> TimeLimit \<Longrightarrow> length (activePlayers players) = 1" "isSafeInteger now" "0 \<le> now"
    "activePlayers players \<noteq> []"
proof -
  from assms have valid: "validTerminalState players ps" "isSafeInteger now" "0 \<le> now"
    "activePlayers players \<noteq> []" "reason \<noteq> TimeLimit \<longrightarrow> length (activePlayers players) = 1"
    by (cases reason; auto simp: deriveRankedTerminalOutcome_def Let_def split: if_splits)+
  with assms obtain rs where rs: "rankPlayers ps (activePlayers players) = Done rs"
    by (auto simp: deriveRankedTerminalOutcome_def Let_def split: if_splits sum.splits)
  from rankPlayers_Done [OF rs] valid(4) have ne: "rs \<noteq> []" by auto
  then obtain a as where s: "sort rs = a # as" by (metis length_0_conv length_sort list.exhaust)
  from assms valid rs s have "t = \<lparr>to_reason = reason, to_winnerSeatIndex = rankedSeat a, to_endedAtMs = now,
      to_ranking = rankingEntries (sort rs), to_settlementWinnerSeatIndex = rankedSeat a\<rparr>"
    by (auto simp: deriveRankedTerminalOutcome_def Let_def rankingEntries_def map_index_def split: if_splits)
  with that [OF valid(1) rs ne] valid s show thesis by simp
qed

end
