(* ===== verification/Aggregate_State.thy ===== *)
theory Aggregate_State
  imports Game_State Card_Rules Trade_Rules Terminal_Rules
begin

text \<open>
  \<open>model/gameplay-aggregate-state.ts\<close>: the aggregate every gameplay command reads and writes, the
  validators that guard it, and its initialisation from a started lobby game.
\<close>

section \<open>State\<close>

datatype tax_kind = Mev | PriorityFee

datatype turn_phase =
    AwaitingRoll
  | AwaitingPropertyDecision int
  | AwaitingRentPayment int
  | AwaitingCardDraw card_deck
  | AwaitingTaxPayment tax_kind
  | AwaitingBankruptcy
  | AwaitingEndTurn

record active_turn = turn_state +
  phase :: turn_phase

record gameplay_state =
  gs_schemaVersion :: int
  gs_stateVersion :: int
  gs_gameId :: string
  gs_rulesetId :: string
  gs_players :: "gameplay_player option list"
  gs_properties :: "property_state list"
  gs_bankCash :: int
  gs_freeParkingPool :: int
  gs_housesRemaining :: int
  gs_hotelsRemaining :: int
  gs_startedAtMs :: int
  gs_gameEndAtMs :: "int option"
  gs_activeTrades :: "pending_trade list"
  gs_lastDice :: "dice_roll option"
  gs_rng :: random_checkpoint

record active_state = gameplay_state +
  as_turn :: active_turn
  as_bankruptcyRequiredSeatIndex :: "int option"

record finished_state = gameplay_state +
  fs_terminal :: terminal_outcome

datatype aggregate = InProgress active_state | Finished finished_state

definition gs_inventory :: "'a gameplay_state_scheme \<Rightarrow> building_inventory" where
  "gs_inventory state = \<lparr>housesRemaining = gs_housesRemaining state, hotelsRemaining = gs_hotelsRemaining state\<rparr>"

section \<open>Validators\<close>

text \<open>The loop over the slots with the set of player identifiers seen.\<close>

fun validSlotsFrom :: "int \<Rightarrow> int \<Rightarrow> string list \<Rightarrow> gameplay_player option list \<Rightarrow> bool" where
  "validSlotsFrom startedAtMs index ids [] = True"
| "validSlotsFrom startedAtMs index ids (None # rest) = validSlotsFrom startedAtMs (index + 1) ids rest"
| "validSlotsFrom startedAtMs index ids (Some player # rest) =
     (if seatIndex player \<noteq> index \<or> \<not> validOpaqueId (playerId player) \<or> playerId player \<in> set ids \<or>
         \<not> isSafeInteger (joinedAtMs player) \<or> joinedAtMs player < 0 \<or> joinedAtMs player > startedAtMs
      then False else validSlotsFrom startedAtMs (index + 1) (playerId player # ids) rest)"

definition validGameplayPlayerSlots :: "gameplay_player option list \<Rightarrow> int \<Rightarrow> bool" where
  "validGameplayPlayerSlots players startedAtMs = validSlotsFrom startedAtMs 0 [] players"

definition validTurn :: "active_turn \<Rightarrow> bool" where
  "validTurn turn =
     (if currentSeatIndex turn < 0 \<or> currentSeatIndex turn \<ge> maximumPlayers \<or>
         \<not> isSafeInteger (turnStartedAtMs turn) \<or> turnStartedAtMs turn < 0 \<or>
         \<not> isSafeInteger (deadlineAtMs turn) \<or> deadlineAtMs turn \<noteq> turnStartedAtMs turn + turnTimeoutMs
      then False
      else (let warnings = emittedWarnings turn in
        if length warnings > 2 \<or> list_ex (\<lambda>warning. warning \<noteq> 30 \<and> warning \<noteq> 10) warnings \<or>
           (length warnings = 2 \<and> (js_index warnings 0 \<noteq> Some 30 \<or> js_index warnings 1 \<noteq> Some 10))
        then False
        else (case phase turn of
           AwaitingPropertyDecision pos \<Rightarrow> pos \<ge> 0 \<and> pos < 40
         | AwaitingRentPayment pos \<Rightarrow> pos \<ge> 0 \<and> pos < 40
         | _ \<Rightarrow> True)))"

text \<open>The part of both validators that does not depend on the lifecycle.\<close>

definition validStateFrame :: "'a gameplay_state_scheme \<Rightarrow> bool" where
  "validStateFrame state \<longleftrightarrow>
     gs_schemaVersion state = GAMEPLAY_AGGREGATE_SCHEMA_VERSION \<and>
     gs_rulesetId state = GAMEPLAY_RULESET_ID \<and>
     validOpaqueId (gs_gameId state) \<and>
     gs_stateVersion state \<ge> 1 \<and> gs_stateVersion state \<le> MAX_STATE_VERSION \<and>
     int (length (gs_players state)) = maximumPlayers \<and>
     isValidPropertyStates (gs_properties state) \<and>
     gs_freeParkingPool state \<ge> 0 \<and> gs_freeParkingPool state \<le> MAX_MATCH_CASH \<and>
     isSafeInteger (gs_startedAtMs state) \<and> gs_startedAtMs state \<ge> 0 \<and>
     (case gs_gameEndAtMs state of
        None \<Rightarrow> True | Some end' \<Rightarrow> isSafeInteger end' \<and> end' \<ge> gs_startedAtMs state) \<and>
     validCheckpoint (gs_rng state) \<and>
     isValidBankruptcyState (gs_players state) (gs_properties state) (gs_inventory state) (gs_bankCash state) \<and>
     validGameplayPlayerSlots (gs_players state) (gs_startedAtMs state)"

text \<open>The checks after the current player is known: the pending bankruptcy and the phase.\<close>

definition validBankruptcyPending :: "active_state \<Rightarrow> bool" where
  "validBankruptcyPending state =
     (case as_bankruptcyRequiredSeatIndex state of
        Some seat \<Rightarrow> seat = currentSeatIndex (as_turn state) \<and> phase (as_turn state) = AwaitingBankruptcy
      | None \<Rightarrow> phase (as_turn state) \<noteq> AwaitingBankruptcy)"

definition validPendingProperty ::
  "active_state \<Rightarrow> gameplay_player \<Rightarrow> int \<Rightarrow> (property_state \<Rightarrow> bool) \<Rightarrow> bool" where
  "validPendingProperty state current pos ownership =
     (case (js_index (gs_properties state) pos, js_index BOARD_SPACES pos) of
        (Some property, Some definition') \<Rightarrow>
          position current = pos \<and> isOwnableSpace definition' \<and> ownership property
      | _ \<Rightarrow> False)"

definition validPhase :: "active_state \<Rightarrow> gameplay_player \<Rightarrow> bool" where
  "validPhase state current =
     (case phase (as_turn state) of
        AwaitingPropertyDecision pos \<Rightarrow>
          validPendingProperty state current pos (\<lambda>property. ownerSeatIndex property = None)
      | AwaitingRentPayment pos \<Rightarrow>
          validPendingProperty state current pos (\<lambda>property. ownerSeatIndex property \<noteq> None \<and>
            ownerSeatIndex property \<noteq> Some (seatIndex current) \<and> \<not> mortgaged property)
      | AwaitingCardDraw deck \<Rightarrow>
          map_option propPosition (js_index (gs_properties state) (position current)) = Some (position current) \<and>
          map_option propertyType (js_index BOARD_SPACES (position current)) =
            Some (case deck of Chance \<Rightarrow> ChanceSpace | CommunityChest \<Rightarrow> CommunityChestSpace)
      | AwaitingTaxPayment kind \<Rightarrow>
          Some kind = (if position current = mevTaxPosition then Some Mev
                       else if position current = priorityFeeTaxPosition then Some PriorityFee else None)
      | _ \<Rightarrow> True)"

definition isValidActiveGameplayAggregateState :: "active_state \<Rightarrow> bool" where
  "isValidActiveGameplayAggregateState state =
     (if \<not> validStateFrame state \<or> \<not> validTurn (as_turn state) \<or>
         turnStartedAtMs (as_turn state) < gs_startedAtMs state \<or>
         (case gs_lastDice state of None \<Rightarrow> False | Some roll \<Rightarrow> \<not> validDice roll) \<or>
         (phase (as_turn state) \<noteq> AwaitingRoll \<and> phase (as_turn state) \<noteq> AwaitingBankruptcy \<and>
          gs_lastDice state = None) \<or>
         cleanupExpiredTrades (gs_activeTrades state) 0 = None
      then False
      else case seat_at (gs_players state) (currentSeatIndex (as_turn state)) of
        None \<Rightarrow> False
      | Some current \<Rightarrow>
          status current = Active \<and> validBankruptcyPending state \<and> validPhase state current)"

text \<open>The expected ranking entry of one active player (no \<open>matchCash\<close> of \<open>calculatePlayerNetWorth\<close>
  can throw, lemma \<open>calculatePlayerNetWorth_never_throws\<close>).\<close>

definition expectedEntry :: "property_state list \<Rightarrow> gameplay_player \<Rightarrow> ranked option" where
  "expectedEntry properties player =
     (case calculatePlayerNetWorth player properties of
        Inr (Some netWorth) \<Rightarrow> Some (Ranked (seatIndex player) netWorth)
      | _ \<Rightarrow> None)"

definition validTerminalShape :: "finished_state \<Rightarrow> terminal_outcome \<Rightarrow> bool" where
  "validTerminalShape state terminal \<longleftrightarrow>
     to_winnerSeatIndex terminal \<ge> 0 \<and> to_winnerSeatIndex terminal < maximumPlayers \<and>
     isSafeInteger (to_endedAtMs terminal) \<and> to_endedAtMs terminal \<ge> gs_startedAtMs state \<and>
     to_settlementWinnerSeatIndex terminal = to_winnerSeatIndex terminal \<and>
     \<not> (to_reason terminal = TimeLimit \<and>
        (case gs_gameEndAtMs state of None \<Rightarrow> True | Some end' \<Rightarrow> to_endedAtMs terminal < end'))"

definition isValidFinishedGameplayAggregateState :: "finished_state \<Rightarrow> bool" where
  "isValidFinishedGameplayAggregateState state =
     (if \<not> validStateFrame state \<or> gs_activeTrades state \<noteq> [] \<or> gs_lastDice state \<noteq> None then False
      else (let terminal = fs_terminal state; active = activePlayers (gs_players state) in
        if \<not> validTerminalShape state terminal then False
        else if length active = 0 \<or>
                ((to_reason terminal = LastPlayerStanding \<or> to_reason terminal = TimeoutForfeit) \<and>
                 length active \<noteq> 1) \<or>
                length (to_ranking terminal) \<noteq> length active
        then False
        else if list_ex (\<lambda>player. expectedEntry (gs_properties state) player = None) active then False
        else (let expected = sort (List.map_filter (expectedEntry (gs_properties state)) active) in
          to_ranking terminal = rankingEntries expected \<and>
          js_index (map rankedSeat expected) 0 = Some (to_winnerSeatIndex terminal))))"

fun isValidAggregate :: "aggregate \<Rightarrow> bool" where
  "isValidAggregate (InProgress s) = isValidActiveGameplayAggregateState s"
| "isValidAggregate (Finished s) = isValidFinishedGameplayAggregateState s"

section \<open>Initialisation\<close>

fun validSeatsFrom :: "in_progress_game \<Rightarrow> int \<Rightarrow> string list \<Rightarrow> player_seat option list \<Rightarrow> bool" where
  "validSeatsFrom state index ids [] = True"
| "validSeatsFrom state index ids (None # rest) = validSeatsFrom state (index + 1) ids rest"
| "validSeatsFrom state index ids (Some seat # rest) =
     (if ps_seatIndex seat \<noteq> index \<or> ps_status seat \<noteq> Active \<or> \<not> validOpaqueId (ps_playerId seat) \<or>
         ps_playerId seat \<in> set ids \<or> ps_cash seat \<noteq> STARTING_MATCH_CASH \<or> ps_position seat \<noteq> 0 \<or>
         ps_inJail seat \<or> \<not> isSafeInteger (ps_joinedAtMs seat) \<or> ps_joinedAtMs seat < gm_createdAtMs state \<or>
         index \<ge> gm_maximumPlayers state
      then False else validSeatsFrom state (index + 1) (ps_playerId seat # ids) rest)"

definition validLifecycleInput :: "in_progress_game \<Rightarrow> bool" where
  "validLifecycleInput state =
     (if gm_schemaVersion state \<noteq> GAME_SCHEMA_VERSION \<or> gm_rulesetId state \<noteq> GAMEPLAY_RULESET_ID \<or>
         \<not> validOpaqueId (gm_gameId state) \<or> \<not> validOpaqueId (gm_creatorId state) \<or>
         gm_stateVersion state < 1 \<or> gm_stateVersion state > MAX_STATE_VERSION \<or>
         gm_minimumPlayers state \<noteq> minimumPlayers \<or>
         gm_maximumPlayers state < minimumPlayers \<or> gm_maximumPlayers state > maximumPlayers \<or>
         int (length (gm_seats state)) \<noteq> maximumPlayers \<or>
         gm_bankCash state \<noteq> STARTING_BANK_CASH \<or> gm_freeParkingPool state \<noteq> 0 \<or>
         gm_housesRemaining state \<noteq> totalHouses \<or> gm_hotelsRemaining state \<noteq> totalHotels \<or>
         \<not> isSafeInteger (gm_createdAtMs state) \<or> gm_createdAtMs state < 0 \<or>
         \<not> isSafeInteger (ip_startedAtMs state) \<or> ip_startedAtMs state < gm_createdAtMs state \<or>
         gm_turnTimeoutMs state \<noteq> turnTimeoutMs \<or>
         (case gm_timeLimitMs state of
            None \<Rightarrow> ip_gameEndAtMs state \<noteq> None
          | Some limit \<Rightarrow> \<not> isSafeInteger limit \<or> limit < 1 \<or> limit > 86400000 \<or>
              \<not> (case ip_gameEndAtMs state of
                   None \<Rightarrow> False
                 | Some end' \<Rightarrow> isSafeInteger end' \<and> end' = ip_startedAtMs state + limit)) \<or>
         \<not> isSafeInteger (ot_currentSeatIndex (ip_turn state)) \<or>
         \<not> isSafeInteger (ot_startedAtMs (ip_turn state)) \<or>
         ot_startedAtMs (ip_turn state) \<noteq> ip_startedAtMs state \<or>
         \<not> isSafeInteger (ot_deadlineAtMs (ip_turn state)) \<or>
         ot_deadlineAtMs (ip_turn state) \<noteq> ot_startedAtMs (ip_turn state) + turnTimeoutMs \<or>
         \<not> validCheckpoint (gm_rng state)
      then False
      else if \<not> validSeatsFrom state 0 [] (gm_seats state) then False
      else int (length (occupiedSeats state)) \<ge> gm_minimumPlayers state \<and>
           map_option ps_playerId (seat_at (gm_seats state) 0) = Some (gm_creatorId state) \<and>
           ot_currentSeatIndex (ip_turn state) = 0 \<and>
           map_option ps_status (seat_at (gm_seats state) (ot_currentSeatIndex (ip_turn state))) = Some Active)"

definition initialPlayer :: "player_seat \<Rightarrow> gameplay_player" where
  "initialPlayer seat =
     \<lparr>seatIndex = ps_seatIndex seat, cash = ps_cash seat, status = ps_status seat,
      position = ps_position seat, inJail = ps_inJail seat, jailTurns = 0, consecutiveDoubles = 0,
      missedTurns = 0, getOutOfJailCards = 0, playerId = ps_playerId seat, joinedAtMs = ps_joinedAtMs seat\<rparr>"

definition initializeGameplayAggregate :: "in_progress_game \<Rightarrow> active_state option" where
  "initializeGameplayAggregate state =
     (if \<not> validLifecycleInput state then None
      else Some
        \<lparr>gs_schemaVersion = GAMEPLAY_AGGREGATE_SCHEMA_VERSION, gs_stateVersion = gm_stateVersion state,
         gs_gameId = gm_gameId state, gs_rulesetId = gm_rulesetId state,
         gs_players = map (map_option initialPlayer) (gm_seats state),
         gs_properties = createPropertyStates, gs_bankCash = gm_bankCash state,
         gs_freeParkingPool = gm_freeParkingPool state,
         gs_housesRemaining = gm_housesRemaining state, gs_hotelsRemaining = gm_hotelsRemaining state,
         gs_startedAtMs = ip_startedAtMs state, gs_gameEndAtMs = ip_gameEndAtMs state,
         gs_activeTrades = [], gs_lastDice = None, gs_rng = gm_rng state,
         as_turn = \<lparr>currentSeatIndex = ot_currentSeatIndex (ip_turn state),
                    turnStartedAtMs = ot_startedAtMs (ip_turn state),
                    deadlineAtMs = ot_deadlineAtMs (ip_turn state), emittedWarnings = [],
                    phase = AwaitingRoll\<rparr>,
         as_bankruptcyRequiredSeatIndex = None\<rparr>)"

definition gameplayPlayerById :: "'a gameplay_state_scheme \<Rightarrow> string \<Rightarrow> gameplay_player option" where
  "gameplayPlayerById state wanted =
     find (\<lambda>player. playerId player = wanted) (List.map_filter id (gs_players state))"

definition gameplayActivePlayers :: "'a gameplay_state_scheme \<Rightarrow> gameplay_player list" where
  "gameplayActivePlayers state = activePlayers (gs_players state)"

section \<open>The validators, declaratively\<close>

text \<open>The two spellings of the warning check, here and in \<open>timeout-rules.ts\<close>, agree.\<close>

lemma warning_history_order_check:
  "\<not> (length w > 2 \<or> list_ex (\<lambda>x. x \<noteq> 30 \<and> x \<noteq> 10) w \<or>
     (length w = 2 \<and> (js_index w 0 \<noteq> Some 30 \<or> js_index w 1 \<noteq> Some 10))) \<longleftrightarrow> warning_history w"
proof (cases "length w \<le> 2")
  case True
  then show ?thesis
    by (cases rule: short_list_cases) (auto simp: warning_history_def js_index_def)
next
  case False
  then show ?thesis by (auto simp: warning_history_def)
qed

definition phase_position_ok :: "turn_phase \<Rightarrow> bool" where
  "phase_position_ok ph = (case ph of
     AwaitingPropertyDecision pos \<Rightarrow> pos \<ge> 0 \<and> pos < 40
   | AwaitingRentPayment pos \<Rightarrow> pos \<ge> 0 \<and> pos < 40 | _ \<Rightarrow> True)"

lemma validTurn_iff: "validTurn turn \<longleftrightarrow> clock_ok turn \<and> phase_position_ok (phase turn)"
  using warning_history_order_check [of "emittedWarnings turn"]
  by (auto simp: validTurn_def clock_ok_def phase_position_ok_def Let_def policy_simps)

text \<open>What the slot check reads of a player list.\<close>

definition identity_view :: "gameplay_player option list \<Rightarrow> (int \<times> string \<times> int) option list" where
  "identity_view players = map (map_option (\<lambda>p. (seatIndex p, playerId p, joinedAtMs p))) players"

lemma validSlotsFrom_view:
  "identity_view ps = identity_view qs \<Longrightarrow> validSlotsFrom t i ids ps = validSlotsFrom t i ids qs"
proof (induction t i ids ps arbitrary: qs rule: validSlotsFrom.induct)
  case (1 t i ids)
  then show ?case by (simp add: identity_view_def)
next
  case (2 t i ids rest)
  then obtain rest' where "qs = None # rest'" "identity_view rest = identity_view rest'"
    by (cases qs) (auto simp: identity_view_def)
  with 2 show ?case by simp
next
  case (3 t i ids p rest)
  then obtain q rest' where "qs = Some q # rest'" "identity_view rest = identity_view rest'"
      "seatIndex q = seatIndex p" "playerId q = playerId p" "joinedAtMs q = joinedAtMs p"
    by (cases qs) (auto simp: identity_view_def map_option_case split: option.splits)
  with 3 show ?case by simp
qed

lemma validGameplayPlayerSlots_view:
  "identity_view ps = identity_view qs \<Longrightarrow> validGameplayPlayerSlots ps t = validGameplayPlayerSlots qs t"
  unfolding validGameplayPlayerSlots_def by (rule validSlotsFrom_view)

lemma identity_view_update_seat [simp]:
  assumes "\<And>p. seatIndex (f p) = seatIndex p \<and> playerId (f p) = playerId p \<and> joinedAtMs (f p) = joinedAtMs p"
  shows "identity_view (update_seat seat f ps) = identity_view ps"
  by (rule nth_equalityI) (use assms in \<open>auto simp: identity_view_def nth_update_seat option.map_comp comp_def\<close>)

lemma identity_view_cash_only:
  assumes "cash_only ps qs"
  shows "identity_view qs = identity_view ps"
proof (rule nth_equalityI)
  show "length (identity_view qs) = length (identity_view ps)"
    using assms by (auto simp: identity_view_def cash_only_def dest: list_all2_lengthD)
next
  fix k
  assume k: "k < length (identity_view qs)"
  have "map_option (\<lambda>p. p\<lparr>cash := 0\<rparr>) (ps ! k) = map_option (\<lambda>p. p\<lparr>cash := 0\<rparr>) (qs ! k)"
    using assms k by (auto simp: identity_view_def cash_only_def list_all2_conv_all_nth)
  then have "map_option (\<lambda>p. (seatIndex p, playerId p, joinedAtMs p)) (map_option (\<lambda>p. p\<lparr>cash := 0\<rparr>) (ps ! k)) =
      map_option (\<lambda>p. (seatIndex p, playerId p, joinedAtMs p)) (map_option (\<lambda>p. p\<lparr>cash := 0\<rparr>) (qs ! k))"
    by simp
  with k assms show "identity_view qs ! k = identity_view ps ! k"
    by (simp add: identity_view_def option.map_comp comp_def cash_only_def list_all2_lengthD)
qed

definition dice_ok :: "dice_roll option \<Rightarrow> bool" where
  "dice_ok d = (case d of None \<Rightarrow> True | Some roll \<Rightarrow> validDice roll)"

text \<open>An active aggregate is valid when its frame, its clock, its dice and trades, its current
  player and its phase are.\<close>

lemma isValidActive_iff:
  "isValidActiveGameplayAggregateState s \<longleftrightarrow>
     validStateFrame s \<and> clock_ok (as_turn s) \<and> gs_startedAtMs s \<le> turnStartedAtMs (as_turn s) \<and>
     dice_ok (gs_lastDice s) \<and>
     (phase (as_turn s) = AwaitingRoll \<or> phase (as_turn s) = AwaitingBankruptcy \<or> gs_lastDice s \<noteq> None) \<and>
     list_all validPendingTrade (gs_activeTrades s) \<and>
     (\<exists>p. seat_at (gs_players s) (currentSeatIndex (as_turn s)) = Some p \<and> status p = Active \<and>
        validBankruptcyPending s \<and> validPhase s p)" (is "_ \<longleftrightarrow> ?rhs")
proof -
  have pos: "phase_position_ok (phase (as_turn s))" if "validPhase s p" for p
    using that
    by (auto simp: validPhase_def phase_position_ok_def validPendingProperty_def js_index_Some_iff
        split: turn_phase.splits option.splits)
  have trades: "cleanupExpiredTrades (gs_activeTrades s) 0 = None \<longleftrightarrow>
      \<not> list_all validPendingTrade (gs_activeTrades s)"
    by (simp add: cleanupExpiredTrades_def isSafeInteger_def MAX_SAFE_INTEGER_def)
  have dice: "(case gs_lastDice s of None \<Rightarrow> False | Some roll \<Rightarrow> \<not> validDice roll) \<longleftrightarrow> \<not> dice_ok (gs_lastDice s)"
    by (simp add: dice_ok_def split: option.split)
  show ?thesis
    unfolding isValidActiveGameplayAggregateState_def validTurn_iff trades dice
    using pos by (auto split: option.split)
qed

text \<open>How a handler keeps the frame: fixed fields untouched, one version up, assets still valid.\<close>

lemma validStateFrame_update:
  assumes "validStateFrame s" "gs_stateVersion s < MAX_STATE_VERSION"
    "gs_schemaVersion s' = gs_schemaVersion s" "gs_rulesetId s' = gs_rulesetId s"
    "gs_gameId s' = gs_gameId s" "gs_startedAtMs s' = gs_startedAtMs s" "gs_gameEndAtMs s' = gs_gameEndAtMs s"
    "gs_stateVersion s' = gs_stateVersion s + 1"
    "isCash (gs_freeParkingPool s')" "validCheckpoint (gs_rng s')"
    "isValidBankruptcyState (gs_players s') (gs_properties s') (gs_inventory s') (gs_bankCash s')"
    "identity_view (gs_players s') = identity_view (gs_players s)"
  shows "validStateFrame s'"
  using assms validGameplayPlayerSlots_view [OF assms(12)]
  by (auto simp: validStateFrame_def isCash_def isValidBankruptcyState_iff validInventory_iff policy_simps
      split: option.splits)

lemma valid_frame_assets:
  "validStateFrame s \<Longrightarrow>
     isValidBankruptcyState (gs_players s) (gs_properties s) (gs_inventory s) (gs_bankCash s)"
  by (simp add: validStateFrame_def)

lemma valid_frame_parts:
  assumes "validStateFrame s"
  shows "length (gs_players s) = 4" "isValidPropertyStates (gs_properties s)"
    "isCash (gs_freeParkingPool s)" "validCheckpoint (gs_rng s)"
    "isValidBuildingInventory (gs_properties s) (gs_inventory s)" "isCash (gs_bankCash s)"
    "slots_satisfy validBankruptcyPlayer (gs_players s)" "owners_active (gs_properties s) (gs_players s)"
  using assms by (auto simp: validStateFrame_def isCash_def isValidBankruptcyState_iff policy_simps)

text \<open>Assets stay valid under a rewrite of one seat that keeps its player valid and active.\<close>

lemma assets_update_seat:
  assumes "isValidBankruptcyState ps props stock bank"
    "\<And>p. seat_at ps seat = Some p \<Longrightarrow> validBankruptcyPlayer seat p \<Longrightarrow>
       validBankruptcyPlayer seat (f p) \<and> status (f p) = status p"
  shows "isValidBankruptcyState (update_seat seat f ps) props stock bank"
proof -
  from assms(1) have slots: "slots_satisfy validBankruptcyPlayer ps" and own: "owners_active props ps"
    by (auto simp: isValidBankruptcyState_iff)
  have "slots_satisfy validBankruptcyPlayer (update_seat seat f ps)"
    by (rule slots_satisfy_update_seat [OF slots]) (use assms(2) in blast)
  moreover have "is_active (seat_at (update_seat seat f ps) s)" if "is_active (seat_at ps s)" for s
    using that slots assms(2) by (cases "seat_at ps s") (auto simp: slots_satisfy_def)
  then have "owners_active props (update_seat seat f ps)"
    using own unfolding owners_active_def by blast
  ultimately show ?thesis using assms(1) by (simp add: isValidBankruptcyState_iff)
qed

end
