(* ===== verification/Gameplay_Protocol.thy ===== *)
theory Gameplay_Protocol
  imports Aggregate_State
begin

text \<open>
  The vocabulary the gameplay handlers share: \<open>commands/gameplay-command.ts\<close>,
  \<open>GameplayDomainEvent\<close> of \<open>events/domain-event.ts\<close>, the command context, the checks every handler
  opens with, and the interface \<open>gameplay_handler\<close> they all implement.
\<close>

section \<open>Commands\<close>

datatype building_kind = House | Hotel

datatype turn_command = RollDice | ResolveRandomDice | EndTurn

datatype property_command =
    BuyProperty int
  | DeclineProperty int
  | PayRent int
  | BuildHouse int
  | BuildHotel int
  | SellBuilding int building_kind
  | PayMevTax
  | PayPriorityFeeTax

datatype jail_command = PayJailFine | UseJailCard

datatype card_command = DrawChanceCard | DrawCommunityChestCard | ResolveRandomCard card_deck

datatype trade_command =
    CreateTrade string trade_terms
  | AcceptTrade string
  | RejectTrade string
  | CancelTrade string
  | CleanupExpiredTrades

datatype timeout_command =
    WarnTurnThirtySeconds | WarnTurnTenSeconds | HandleTurnTimeout | EnforceGameTimeLimit

text \<open>\<open>UnsupportedCommand\<close> stands for a \<open>type\<close> string outside the union, which the router answers.\<close>

datatype gameplay_body =
    TurnCommand turn_command
  | PropertyCommand property_command
  | JailCommand jail_command
  | CardCommand card_command
  | DeclareBankruptcy
  | TradeCommand trade_command
  | TimeoutCommand timeout_command
  | UnsupportedCommand string

record gameplay_command =
  expectedStateVersion :: int
  body :: gameplay_body

datatype gameplay_actor = PlayerActor string | InternalActor

text \<open>The random source is a port: its operations, and the cursor the context hands over.\<close>

record 'r gameplay_context =
  actor :: gameplay_actor
  nowMs :: int
  randomSource :: "'r random_source"
  randomCursor :: 'r
  ctxTradeId :: "string option"

section \<open>Events\<close>

datatype jail_reason = SpaceReason | ThreeDoubles

datatype trade_type = MoneyOnlyType | PropertyOnlyType | MoneyForPropertyType | PropertyForMoneyType

record ranked_player = terminal_ranking_entry +
  rp_playerId :: string

datatype gameplay_event =
    DiceRolled string dice_roll
  | PlayerMoved string int int bool int
  | JailEntered string jail_reason
  | JailExited string release_method
  | CardDrawn string card_deck int card_effect
  | PropertyPurchased string int int
  | PropertyDeclined string int int
  | RentPaid string string int int
  | BuildingBuilt string int building_kind int int
  | BuildingSold string int building_kind int
  | TaxPaid string int tax_kind int
  | PlayerBankrupt string "string option" int int
  | GameEnded terminal_end_reason string "ranked_player list"
  | SettlementEntitled string terminal_end_reason string
  | TradeCreated string trade_type string string int int "int option" "int option" int
  | TradeAccepted string string string
  | TradeRejected string string
  | TradeCancelled string string
  | TradeExpired string
  | TimeoutWarning string int
  | TimeoutPenalty string int
  | ForcedTurnEnd string string
  | TimeoutForfeited string int

type_synonym gameplay_result = "(aggregate, gameplay_event) transition_result"

section \<open>The opening checks\<close>

definition safeEpoch :: "int \<Rightarrow> bool" where
  "safeEpoch value \<longleftrightarrow> isSafeInteger value \<and> value \<ge> 0"

text \<open>What every handler rejects before it looks at the command: an invalid aggregate, a malformed
  command or time, a stale version, an exhausted version counter.\<close>

definition commandGuard :: "active_state \<Rightarrow> bool \<Rightarrow> int \<Rightarrow> int \<Rightarrow> game_core_error option" where
  "commandGuard state commandOk expected now =
     (if \<not> isValidActiveGameplayAggregateState state
      then Some \<lparr>errorCode = INVALID_STATE, retryable = False\<rparr>
      else if \<not> commandOk \<or> \<not> isSafeInteger now \<or> now < turnStartedAtMs (as_turn state) \<or> expected < 0
      then Some \<lparr>errorCode = INVALID_COMMAND, retryable = False\<rparr>
      else if expected \<noteq> gs_stateVersion state
      then Some \<lparr>errorCode = STALE_STATE_VERSION, retryable = True\<rparr>
      else if gs_stateVersion state \<ge> MAX_STATE_VERSION
      then Some \<lparr>errorCode = INVALID_STATE, retryable = False\<rparr>
      else None)"

definition activeGameplayPlayer :: "active_state \<Rightarrow> gameplay_player option" where
  "activeGameplayPlayer state =
     (case seat_at (gs_players state) (currentSeatIndex (as_turn state)) of
        None \<Rightarrow> None
      | Some player \<Rightarrow> if status player = Active then Some player else None)"

definition isCurrentActor :: "gameplay_actor \<Rightarrow> gameplay_player \<Rightarrow> bool" where
  "isCurrentActor who current = (case who of PlayerActor wanted \<Rightarrow> wanted = playerId current | InternalActor \<Rightarrow> False)"

text \<open>Everything a passed guard establishes.\<close>

lemma commandGuard_None:
  "commandGuard state ok expected now = None \<longleftrightarrow>
     isValidActiveGameplayAggregateState state \<and> ok \<and> isSafeInteger now \<and>
     turnStartedAtMs (as_turn state) \<le> now \<and> 0 \<le> expected \<and> expected = gs_stateVersion state \<and>
     gs_stateVersion state < MAX_STATE_VERSION"
  by (auto simp: commandGuard_def)

lemma activeGameplayPlayer_Some:
  "activeGameplayPlayer state = Some p \<longleftrightarrow>
     seat_at (gs_players state) (currentSeatIndex (as_turn state)) = Some p \<and> status p = Active"
  by (auto simp: activeGameplayPlayer_def split: option.splits)

lemma valid_activeGameplayPlayer:
  assumes "isValidActiveGameplayAggregateState s"
  obtains p where "activeGameplayPlayer s = Some p" "seatIndex p = currentSeatIndex (as_turn s)"
    "seat_at (gs_players s) (currentSeatIndex (as_turn s)) = Some p" "status p = Active"
    "validBankruptcyPlayer (currentSeatIndex (as_turn s)) p" "validPhase s p" "validBankruptcyPending s"
    "0 \<le> currentSeatIndex (as_turn s)" "currentSeatIndex (as_turn s) < 4"
proof -
  from assms obtain p where p: "seat_at (gs_players s) (currentSeatIndex (as_turn s)) = Some p"
      "status p = Active" "validPhase s p" "validBankruptcyPending s" and frame: "validStateFrame s"
      and clock: "clock_ok (as_turn s)"
    by (auto simp: isValidActive_iff)
  from valid_frame_parts(7) [OF frame] p(1) have v: "validBankruptcyPlayer (currentSeatIndex (as_turn s)) p"
    by (auto simp: slots_satisfy_def)
  then have "seatIndex p = currentSeatIndex (as_turn s)" by (simp add: validBankruptcyPlayer_def)
  with p v clock that show thesis by (simp add: activeGameplayPlayer_Some clock_ok_def)
qed

section \<open>What a handler promises\<close>

fun aggregate_version :: "aggregate \<Rightarrow> int" where
  "aggregate_version (InProgress s) = gs_stateVersion s"
| "aggregate_version (Finished s) = gs_stateVersion s"

text \<open>A handler for one command and one context. It never throws, it answers a rejection with the
  very state it was given, and it accepts only in a valid state of the expected version, which it
  then leaves one version up.\<close>

locale gameplay_handler =
  fixes handle :: "active_state \<Rightarrow> gameplay_result"
    and expected :: int
    and now :: int
  assumes never_throws: "handle s \<noteq> Threw e"
    and keeps_rejected: "handle s = Rejected t err \<Longrightarrow> t = InProgress s"
    and needs_guard: "handle s = Accepted t ev \<Longrightarrow> commandGuard s True expected now = None"
    and bumps_version: "handle s = Accepted t ev \<Longrightarrow> aggregate_version t = gs_stateVersion s + 1"
begin

lemma accepts_only_valid:
  "handle s = Accepted t ev \<Longrightarrow> isValidActiveGameplayAggregateState s"
  using needs_guard by (simp add: commandGuard_None)

lemma accepts_only_expected: "handle s = Accepted t ev \<Longrightarrow> expected = gs_stateVersion s"
  using needs_guard by (simp add: commandGuard_None)

text \<open>Hence the same command cannot be accepted twice in a row: its second run is stale.\<close>

lemma accepts_once:
  assumes "handle s = Accepted (InProgress t) ev"
  shows "handle t \<noteq> Accepted u ev'"
  using bumps_version [OF assms] accepts_only_expected [OF assms] accepts_only_expected [of t u ev'] by auto

end

text \<open>A sound handler moreover keeps the aggregate valid.\<close>

locale sound_handler = gameplay_handler +
  assumes keeps_valid: "handle s = Accepted t ev \<Longrightarrow> isValidAggregate t"
begin

lemma accepts_between_valid:
  assumes "handle s = Accepted t ev"
  shows "isValidActiveGameplayAggregateState s \<and> isValidAggregate t"
  using keeps_valid [OF assms] accepts_only_valid [OF assms] by simp

end

section \<open>Keeping an active aggregate valid\<close>

text \<open>The obligations of an accepting branch that stays in progress.\<close>

lemma next_active_valid:
  assumes guard: "commandGuard s ok expected now = None"
    and fixed: "gs_schemaVersion s' = gs_schemaVersion s" "gs_rulesetId s' = gs_rulesetId s"
      "gs_gameId s' = gs_gameId s" "gs_startedAtMs s' = gs_startedAtMs s" "gs_gameEndAtMs s' = gs_gameEndAtMs s"
      "gs_stateVersion s' = gs_stateVersion s + 1" "gs_freeParkingPool s' = gs_freeParkingPool s"
    and rng: "validCheckpoint (gs_rng s')"
    and assets: "isValidBankruptcyState (gs_players s') (gs_properties s') (gs_inventory s') (gs_bankCash s')"
    and ids: "identity_view (gs_players s') = identity_view (gs_players s)"
    and clock: "clock_ok (as_turn s')" "gs_startedAtMs s \<le> turnStartedAtMs (as_turn s')"
    and dice: "dice_ok (gs_lastDice s')"
      "phase (as_turn s') = AwaitingRoll \<or> phase (as_turn s') = AwaitingBankruptcy \<or> gs_lastDice s' \<noteq> None"
    and trades: "list_all validPendingTrade (gs_activeTrades s')"
    and current: "seat_at (gs_players s') (currentSeatIndex (as_turn s')) = Some p" "status p = Active"
    and rest: "validBankruptcyPending s'" "validPhase s' p"
  shows "isValidActiveGameplayAggregateState s'"
proof -
  from guard have s: "validStateFrame s" "gs_stateVersion s < MAX_STATE_VERSION"
    by (auto simp: commandGuard_None isValidActive_iff)
  have "isCash (gs_freeParkingPool s')" using valid_frame_parts(3) [OF s(1)] fixed by simp
  then have "validStateFrame s'"
    using validStateFrame_update [OF s fixed(1-6) _ rng assets ids] by simp
  with fixed clock dice trades current rest show ?thesis by (auto simp: isValidActive_iff)
qed

lemma guard_facts:
  assumes "commandGuard s ok expected now = None"
  shows "validStateFrame s" "dice_ok (gs_lastDice s)" "list_all validPendingTrade (gs_activeTrades s)"
    "gs_startedAtMs s \<le> now" "0 \<le> now" "isSafeInteger now" "clock_ok (as_turn s)"
    "validCheckpoint (gs_rng s)"
    "isValidBankruptcyState (gs_players s) (gs_properties s) (gs_inventory s) (gs_bankCash s)"
    "isValidActiveGameplayAggregateState s"
  using assms
  by (auto simp: commandGuard_None isValidActive_iff validStateFrame_def clock_ok_def)

section \<open>Players by identifier\<close>

lemma validSlotsFrom_distinct:
  "validSlotsFrom t i ids ps \<Longrightarrow>
     distinct (map playerId (List.map_filter id ps)) \<and>
     set ids \<inter> set (map playerId (List.map_filter id ps)) = {}"
  by (induction t i ids ps rule: validSlotsFrom.induct) (auto simp: map_filter_def split: if_splits)

lemma occupied_seats: "p \<in> set (List.map_filter id ps) \<longleftrightarrow> (\<exists>i. seat_at ps i = Some p)"
proof -
  have "p \<in> set (List.map_filter id ps) \<longleftrightarrow> Some p \<in> set ps"
    by (induction ps) (auto simp: map_filter_simps split: option.splits)
  then show ?thesis by (simp add: seat_at_member)
qed

lemma gameplayPlayerById_seat:
  assumes "gameplayPlayerById s wanted = Some p" "validStateFrame s"
  shows "seat_at (gs_players s) (seatIndex p) = Some p" "playerId p = wanted"
    "validBankruptcyPlayer (seatIndex p) p"
proof -
  from find_SomeD [OF assms(1) [unfolded gameplayPlayerById_def]] obtain i
    where i: "seat_at (gs_players s) i = Some p" and pid: "playerId p = wanted"
    by (auto simp: occupied_seats)
  from valid_frame_parts(7) [OF assms(2)] i have "validBankruptcyPlayer i p" by (auto simp: slots_satisfy_def)
  moreover from this have "seatIndex p = i" by (simp add: validBankruptcyPlayer_def)
  ultimately show "seat_at (gs_players s) (seatIndex p) = Some p" "playerId p = wanted"
    "validBankruptcyPlayer (seatIndex p) p" using i pid by auto
qed

lemma find_distinct:
  assumes "distinct (map f xs)" "x \<in> set xs"
  shows "find (\<lambda>y. f y = f x) xs = Some x"
  using assms by (induction xs) auto

lemma gameplayPlayerById_unique:
  assumes "seat_at (gs_players s) i = Some p" "validStateFrame s"
  shows "gameplayPlayerById s (playerId p) = Some p"
proof -
  from assms(2) have "distinct (map playerId (List.map_filter id (gs_players s)))"
    by (auto simp: validStateFrame_def validGameplayPlayerSlots_def dest: validSlotsFrom_distinct)
  moreover have "p \<in> set (List.map_filter id (gs_players s))"
    unfolding occupied_seats by (rule exI [of _ i]) (rule assms(1))
  ultimately show ?thesis unfolding gameplayPlayerById_def by (rule find_distinct)
qed

section \<open>Money accounting\<close>

text \<open>The money supply of a game and what a list of events says happened to it, as the generated
  invariant test computes them.\<close>

definition moneySupply :: "'a gameplay_state_scheme \<Rightarrow> int" where
  "moneySupply s = totalCash (gs_players s) + gs_bankCash s + gs_freeParkingPool s"

fun aggregate_money :: "aggregate \<Rightarrow> int" where
  "aggregate_money (InProgress s) = moneySupply s"
| "aggregate_money (Finished s) = moneySupply s"

fun eventDelta :: "gameplay_event \<Rightarrow> int" where
  "eventDelta (PropertyPurchased _ _ amount) = - amount"
| "eventDelta (BuildingBuilt _ _ _ _ amount) = - amount"
| "eventDelta (TaxPaid _ _ _ amount) = - amount"
| "eventDelta (BuildingSold _ _ _ amount) = amount"
| "eventDelta (JailExited _ method) = (if method = ByFine then - jailFine else 0)"
| "eventDelta (PlayerBankrupt _ _ liquidation _) = liquidation"
| "eventDelta _ = 0"

fun salaryDelta :: "gameplay_event \<Rightarrow> int" where
  "salaryDelta (PlayerMoved _ _ _ _ salary) = salary"
| "salaryDelta _ = 0"

fun drawnCard :: "gameplay_event list \<Rightarrow> (string \<times> card_deck \<times> int) option" where
  "drawnCard [] = None"
| "drawnCard (CardDrawn who deck cid _ # rest) = Some (who, deck, cid)"
| "drawnCard (_ # rest) = drawnCard rest"

definition card_player_of :: "gameplay_player \<Rightarrow> card_player" where
  "card_player_of p = \<lparr>cp_cash = cash p, cp_position = position p, cp_getOutOfJailCards = getOutOfJailCards p\<rparr>"

definition joinedPlayerCount :: "'a option list \<Rightarrow> int" where
  "joinedPlayerCount players = int (length (filter (\<lambda>slot. slot \<noteq> None) players))"

definition expectedCashDelta :: "active_state \<Rightarrow> gameplay_event list \<Rightarrow> int" where
  "expectedCashDelta before events =
     (case drawnCard events of
        Some (who, deck, cid) \<Rightarrow>
          (case gameplayPlayerById before who of
             None \<Rightarrow> 0
           | Some player \<Rightarrow> (case resolveCard deck cid (card_player_of player) (joinedPlayerCount (gs_players before)) of
               Inr (Inr resolution) \<Rightarrow> cr_cashDelta resolution
             | _ \<Rightarrow> 0))
      | None \<Rightarrow> sum_list (map salaryDelta events)) +
     sum_list (map eventDelta events)"

end
