(* ===== verification/Gameplay_Turn.thy ===== *)
theory Gameplay_Turn
  imports Gameplay_Protocol
begin

text \<open>
  \<open>rules/gameplay-turn-transition.ts\<close>: clocked turns, landing, the end of a turn and the dice roll,
  jailed or free. \<open>freezeActiveGameplayState\<close> copies and freezes, so it is a record update here.
\<close>

section \<open>Turns\<close>

definition createClockedGameplayTurn :: "turn_phase \<Rightarrow> int \<Rightarrow> int \<Rightarrow> active_turn option" where
  "createClockedGameplayTurn ph seat now =
     (let deadline = now + turnTimeoutMs in
      if \<not> safeEpoch now \<or> \<not> isSafeInteger deadline then None
      else if ph = AwaitingRoll \<or> ph = AwaitingBankruptcy \<or> ph = AwaitingEndTurn
      then Some \<lparr>currentSeatIndex = seat, turnStartedAtMs = now, deadlineAtMs = deadline,
                 emittedWarnings = [], phase = ph\<rparr>
      else None)"

definition createGameplayLandingTurn ::
  "active_state \<Rightarrow> int \<Rightarrow> int \<Rightarrow> int \<Rightarrow> bool \<Rightarrow> active_turn option" where
  "createGameplayLandingTurn state pos seat now rolledDoubles =
     (case (js_index BOARD_SPACES pos,
            createClockedGameplayTurn (if rolledDoubles then AwaitingRoll else AwaitingEndTurn) seat now) of
        (Some definition', Some clock) \<Rightarrow>
          (case propertyType definition' of
             ChanceSpace \<Rightarrow> Some (clock\<lparr>phase := AwaitingCardDraw Chance\<rparr>)
           | CommunityChestSpace \<Rightarrow> Some (clock\<lparr>phase := AwaitingCardDraw CommunityChest\<rparr>)
           | TaxSpace \<Rightarrow>
               Some (clock\<lparr>phase := AwaitingTaxPayment (if pos = mevTaxPosition then Mev else PriorityFee)\<rparr>)
           | Corner \<Rightarrow> Some clock
           | _ \<Rightarrow>
               (case js_index (gs_properties state) pos of
                  None \<Rightarrow> None
                | Some property \<Rightarrow> (case ownerSeatIndex property of
                    None \<Rightarrow> Some (clock\<lparr>phase := AwaitingPropertyDecision pos\<rparr>)
                  | Some owner \<Rightarrow>
                      if owner \<noteq> seat \<and> \<not> mortgaged property
                      then Some (clock\<lparr>phase := AwaitingRentPayment pos\<rparr>)
                      else Some clock)))
      | _ \<Rightarrow> None)"

definition nextActiveGameplaySeat :: "active_state \<Rightarrow> int \<Rightarrow> int option" where
  "nextActiveGameplaySeat state current =
     find (\<lambda>seat. is_active (seat_at (gs_players state) seat))
       (map (\<lambda>offset. js_rem (current + offset) maximumPlayers) [1 .. maximumPlayers])"

definition advanceGameplayTurn :: "active_state \<Rightarrow> int \<Rightarrow> (active_turn \<times> int) option" where
  "advanceGameplayTurn state now =
     (case nextActiveGameplaySeat state (currentSeatIndex (as_turn state)) of
        None \<Rightarrow> None
      | Some nextSeat \<Rightarrow>
          if nextSeat = currentSeatIndex (as_turn state) then None
          else (case createClockedGameplayTurn AwaitingRoll nextSeat now of
                  None \<Rightarrow> None | Some turn \<Rightarrow> Some (turn, nextSeat)))"

definition playerActorAuthorized :: "turn_command \<Rightarrow> active_state \<Rightarrow> gameplay_actor \<Rightarrow> bool" where
  "playerActorAuthorized command state who =
     (if command = ResolveRandomDice then who = InternalActor
      else case activeGameplayPlayer state of
        None \<Rightarrow> False | Some current \<Rightarrow> isCurrentActor who current)"

section \<open>Ending a turn\<close>

definition endGameplayTurn :: "active_state \<Rightarrow> int \<Rightarrow> gameplay_result" where
  "endGameplayTurn state now =
     (if as_bankruptcyRequiredSeatIndex state \<noteq> None then reject (InProgress state) INVALID_PHASE
      else if phase (as_turn state) \<noteq> AwaitingEndTurn then reject (InProgress state) INVALID_COMMAND
      else if gs_lastDice state = None then reject (InProgress state) INVALID_STATE
      else case advanceGameplayTurn state now of
        None \<Rightarrow> reject (InProgress state) INVALID_STATE
      | Some (turn, _) \<Rightarrow>
          Accepted (InProgress (state\<lparr>gs_stateVersion := gs_stateVersion state + 1,
              gs_players := update_seat (currentSeatIndex (as_turn state))
                (\<lambda>player. player\<lparr>consecutiveDoubles := 0\<rparr>) (gs_players state),
              as_turn := turn, gs_lastDice := None\<rparr>)) [])"

section \<open>Rolling\<close>

text \<open>The dice and the checkpoint a fork of the persisted random state yields.\<close>

definition drawGameplayDice ::
  "'r random_source \<Rightarrow> 'r \<Rightarrow> random_checkpoint \<Rightarrow> (dice_roll \<times> random_checkpoint) option" where
  "drawGameplayDice source cursor checkpoint =
     (case forkGameplayRandomSource source cursor checkpoint of
        None \<Rightarrow> None
      | Some fresh \<Rightarrow> (case rollDice source fresh of
          (None, _) \<Rightarrow> None
        | (Some roll, used) \<Rightarrow> (case readRandomCheckpoint source used of
            None \<Rightarrow> None
          | Some next \<Rightarrow>
              if \<not> isAdvancedGameplayCheckpoint checkpoint next 2 \<or> \<not> canResume source used next
              then None else Some (roll, next))))"

text \<open>\<open>{...player, ...jail.state}\<close>: the six fields of \<open>JailPlayerState\<close> overwrite the player's.\<close>

definition mergeJailState :: "gameplay_player \<Rightarrow> gameplay_player \<Rightarrow> gameplay_player" where
  "mergeJailState player jail =
     player\<lparr>cash := cash jail, position := position jail, inJail := inJail jail,
            jailTurns := jailTurns jail, consecutiveDoubles := consecutiveDoubles jail,
            getOutOfJailCards := getOutOfJailCards jail\<rparr>"

definition rolledState ::
  "active_state \<Rightarrow> gameplay_player option list \<Rightarrow> active_turn \<Rightarrow> dice_roll \<Rightarrow> random_checkpoint \<Rightarrow> active_state" where
  "rolledState state players turn roll checkpoint =
     state\<lparr>gs_stateVersion := gs_stateVersion state + 1, gs_players := players, as_turn := turn,
           gs_lastDice := Some roll, gs_rng := checkpoint\<rparr>"

definition jailedRoll ::
  "active_state \<Rightarrow> gameplay_player \<Rightarrow> int \<Rightarrow> dice_roll \<Rightarrow> random_checkpoint \<Rightarrow> gameplay_result" where
  "jailedRoll state current now roll checkpoint =
     (case resolveJailRoll current roll of
        Inl _ \<Rightarrow> reject (InProgress state) INVALID_STATE
      | Inr jail \<Rightarrow>
          (let players = update_seat (seatIndex current)
                 (\<lambda>player. mergeJailState player (ja_state jail)) (gs_players state);
               diceEvent = DiceRolled (playerId current) roll in
           case ja_outcome jail of
             Remains \<Rightarrow>
               (case advanceGameplayTurn state now of
                  None \<Rightarrow> reject (InProgress state) INVALID_STATE
                | Some (turn, _) \<Rightarrow>
                    Accepted (InProgress (rolledState state players turn roll checkpoint)) [diceEvent])
           | JailBankruptcyRequired \<Rightarrow>
               (case createClockedGameplayTurn AwaitingBankruptcy (seatIndex current) now of
                  None \<Rightarrow> reject (InProgress state) INVALID_STATE
                | Some turn \<Rightarrow>
                    Accepted (InProgress ((rolledState state players turn roll checkpoint)
                      \<lparr>as_bankruptcyRequiredSeatIndex := Some (seatIndex current)\<rparr>)) [diceEvent])
           | _ \<Rightarrow>
               (case (ja_movement jail, ja_releaseMethod jail) of
                  (Some movement, Some releaseMethod) \<Rightarrow>
                    (case createGameplayLandingTurn state (mv_to movement) (seatIndex current) now False of
                       None \<Rightarrow> reject (InProgress state) INVALID_STATE
                     | Some turn \<Rightarrow>
                         Accepted (InProgress (rolledState state players turn roll checkpoint))
                           [diceEvent, JailExited (playerId current) releaseMethod,
                            PlayerMoved (playerId current) (mv_from movement) (mv_to movement)
                              (mv_passedGo movement) 0])
                | _ \<Rightarrow> reject (InProgress state) INVALID_STATE)))"

definition sendToJail :: "int \<Rightarrow> gameplay_player \<Rightarrow> gameplay_player" where
  "sendToJail money player =
     player\<lparr>cash := money, position := jailPosition, inJail := True, jailTurns := 0, consecutiveDoubles := 0\<rparr>"

definition threeDoublesRoll ::
  "active_state \<Rightarrow> gameplay_player \<Rightarrow> int \<Rightarrow> dice_roll \<Rightarrow> random_checkpoint \<Rightarrow> gameplay_result" where
  "threeDoublesRoll state current now roll checkpoint =
     (case advanceGameplayTurn state now of
        None \<Rightarrow> reject (InProgress state) INVALID_STATE
      | Some (turn, _) \<Rightarrow>
          Accepted (InProgress (rolledState state
              (update_seat (seatIndex current) (\<lambda>player. sendToJail (cash player) player) (gs_players state))
              turn roll checkpoint))
            [DiceRolled (playerId current) roll, JailEntered (playerId current) ThreeDoubles])"

text \<open>The salary of a move past the start, \<open>None\<close> when it does not fit.\<close>

definition salariedCash :: "int \<Rightarrow> movement_result \<Rightarrow> int option" where
  "salariedCash money movement =
     (if mv_passedGo movement then checkedAddMatchCash money passGoSalary else Some money)"

definition salaryOf :: "movement_result \<Rightarrow> int" where
  "salaryOf movement = (if mv_passedGo movement then passGoSalary else 0)"

definition freeRoll ::
  "active_state \<Rightarrow> gameplay_player \<Rightarrow> int \<Rightarrow> dice_roll \<Rightarrow> random_checkpoint \<Rightarrow> doubles_result \<Rightarrow> gameplay_result" where
  "freeRoll state current now roll checkpoint doubles =
     (case moveBy (position current) (total roll) of
        None \<Rightarrow> reject (InProgress state) INVALID_STATE
      | Some movement \<Rightarrow> (case salariedCash (cash current) movement of
          None \<Rightarrow> reject (InProgress state) INVALID_STATE
        | Some money \<Rightarrow>
            (let diceEvent = DiceRolled (playerId current) roll;
                 movedEvent = PlayerMoved (playerId current) (mv_from movement) (mv_to movement)
                                (mv_passedGo movement) (salaryOf movement) in
             if mv_to movement = goToJailPosition then
               (case advanceGameplayTurn state now of
                  None \<Rightarrow> reject (InProgress state) INVALID_STATE
                | Some (turn, _) \<Rightarrow>
                    Accepted (InProgress (rolledState state
                        (update_seat (seatIndex current) (sendToJail money) (gs_players state))
                        turn roll checkpoint))
                      [diceEvent, movedEvent, JailEntered (playerId current) SpaceReason])
             else
               (case createGameplayLandingTurn state (mv_to movement) (seatIndex current) now (isDoubles roll) of
                  None \<Rightarrow> reject (InProgress state) INVALID_STATE
                | Some turn \<Rightarrow>
                    Accepted (InProgress (rolledState state
                        (update_seat (seatIndex current)
                          (\<lambda>player. player\<lparr>cash := money, position := mv_to movement,
                             consecutiveDoubles := db_consecutiveDoubles doubles\<rparr>) (gs_players state))
                        turn roll checkpoint))
                      [diceEvent, movedEvent]))))"

definition rollGameplayDice :: "active_state \<Rightarrow> gameplay_player \<Rightarrow> 'r gameplay_context \<Rightarrow> gameplay_result" where
  "rollGameplayDice state current context =
     (if phase (as_turn state) \<noteq> AwaitingRoll then reject (InProgress state) INVALID_COMMAND
      else case drawGameplayDice (randomSource context) (randomCursor context) (gs_rng state) of
        None \<Rightarrow> reject (InProgress state) INVALID_STATE
      | Some (roll, checkpoint) \<Rightarrow> (case applyDoubles (consecutiveDoubles current) roll of
          None \<Rightarrow> reject (InProgress state) INVALID_STATE
        | Some doubles \<Rightarrow>
            if inJail current then jailedRoll state current (nowMs context) roll checkpoint
            else if db_sentToJail doubles
            then threeDoublesRoll state current (nowMs context) roll checkpoint
            else freeRoll state current (nowMs context) roll checkpoint doubles))"

definition transitionGameplayTurn ::
  "active_state \<Rightarrow> turn_command \<Rightarrow> int \<Rightarrow> 'r gameplay_context \<Rightarrow> gameplay_result" where
  "transitionGameplayTurn state command expected context =
     (case commandGuard state (safeEpoch (nowMs context)) expected (nowMs context) of
        Some err \<Rightarrow> Rejected (InProgress state) err
      | None \<Rightarrow> (case activeGameplayPlayer state of
          None \<Rightarrow> reject (InProgress state) INVALID_STATE
        | Some current \<Rightarrow>
            if \<not> playerActorAuthorized command state (actor context)
            then reject (InProgress state) UNAUTHORIZED_ACTOR
            else if command = EndTurn then endGameplayTurn state (nowMs context)
            else rollGameplayDice state current context))"

section \<open>Turns are well formed\<close>

lemma createClocked_Some:
  assumes "createClockedGameplayTurn ph seat now = Some t"
  shows "t = \<lparr>currentSeatIndex = seat, turnStartedAtMs = now, deadlineAtMs = now + turnTimeoutMs,
    emittedWarnings = [], phase = ph\<rparr>" "0 \<le> now"
    "0 \<le> seat \<Longrightarrow> seat < 4 \<Longrightarrow> clock_ok t"
  using assms
  by (auto simp: createClockedGameplayTurn_def Let_def safeEpoch_def clock_ok_def warning_history_def
      split: if_splits)

lemma nextActiveGameplaySeat_eq: "nextActiveGameplaySeat s c = nextActiveSeat (gs_players s) c"
  by (simp add: nextActiveGameplaySeat_def nextActiveSeat_def)

lemma advance_Some:
  assumes "advanceGameplayTurn s now = Some (t, n)" "clock_ok (as_turn s)"
  obtains p where "seat_at (gs_players s) n = Some p" "status p = Active"
    "n \<noteq> currentSeatIndex (as_turn s)"
    "t = \<lparr>currentSeatIndex = n, turnStartedAtMs = now, deadlineAtMs = now + turnTimeoutMs,
          emittedWarnings = [], phase = AwaitingRoll\<rparr>" "clock_ok t"
proof -
  have c: "0 \<le> currentSeatIndex (as_turn s)" "currentSeatIndex (as_turn s) < 4"
    using assms(2) by (auto simp: clock_ok_def)
  from assms(1) have n: "nextActiveSeat (gs_players s) (currentSeatIndex (as_turn s)) = Some n"
      "n \<noteq> currentSeatIndex (as_turn s)" "createClockedGameplayTurn AwaitingRoll n now = Some t"
    by (auto simp: advanceGameplayTurn_def nextActiveGameplaySeat_eq split: option.splits if_splits)
  note next_seat = nextActiveSeat_Some [OF n(1) c]
  then obtain p where "seat_at (gs_players s) n = Some p" "status p = Active"
    by (cases "seat_at (gs_players s) n") auto
  with n next_seat createClocked_Some [OF n(3)] that show thesis by blast
qed

text \<open>What a landing leads to, square by square.\<close>

lemma landing_cases:
  assumes "createGameplayLandingTurn s pos seat now dbl = Some t"
  obtains (decision) d q where "js_index BOARD_SPACES pos = Some d" "isOwnableSpace d"
      "js_index (gs_properties s) pos = Some q" "ownerSeatIndex q = None"
      "phase t = AwaitingPropertyDecision pos"
  | (rent) d q owner where "js_index BOARD_SPACES pos = Some d" "isOwnableSpace d"
      "js_index (gs_properties s) pos = Some q" "ownerSeatIndex q = Some owner" "owner \<noteq> seat"
      "\<not> mortgaged q" "phase t = AwaitingRentPayment pos"
  | (card) d deck where "js_index BOARD_SPACES pos = Some d"
      "propertyType d = (case deck of Chance \<Rightarrow> ChanceSpace | CommunityChest \<Rightarrow> CommunityChestSpace)"
      "phase t = AwaitingCardDraw deck"
  | (tax) d where "js_index BOARD_SPACES pos = Some d" "propertyType d = TaxSpace"
      "phase t = AwaitingTaxPayment (if pos = mevTaxPosition then Mev else PriorityFee)"
  | (plain) "phase t = (if dbl then AwaitingRoll else AwaitingEndTurn)"
proof -
  obtain d c where d: "js_index BOARD_SPACES pos = Some d"
      and c: "createClockedGameplayTurn (if dbl then AwaitingRoll else AwaitingEndTurn) seat now = Some c"
    using assms by (auto simp: createGameplayLandingTurn_def split: option.splits)
  have c_phase: "phase c = (if dbl then AwaitingRoll else AwaitingEndTurn)"
    using createClocked_Some(1) [OF c] by simp
  show thesis
  proof (cases "isOwnableSpace d")
    case True
    then have "createGameplayLandingTurn s pos seat now dbl = (case js_index (gs_properties s) pos of
                  None \<Rightarrow> None
                | Some property \<Rightarrow> (case ownerSeatIndex property of
                    None \<Rightarrow> Some (c\<lparr>phase := AwaitingPropertyDecision pos\<rparr>)
                  | Some owner \<Rightarrow>
                      if owner \<noteq> seat \<and> \<not> mortgaged property
                      then Some (c\<lparr>phase := AwaitingRentPayment pos\<rparr>)
                      else Some c))"
      using d c by (auto simp: createGameplayLandingTurn_def isOwnableSpace_def)
    with assms d True c_phase show thesis
      by (auto split: option.splits if_splits intro: decision rent plain)
  next
    case False
    with assms d c c_phase show thesis
      by (auto simp: createGameplayLandingTurn_def isOwnableSpace_def split: property_type.splits
          intro: card [of d Chance] card [of d CommunityChest] tax plain)
  qed
qed

lemma landing_Some:
  assumes "createGameplayLandingTurn s pos seat now dbl = Some t" "0 \<le> seat" "seat < 4"
  shows "currentSeatIndex t = seat" "turnStartedAtMs t = now" "clock_ok t" "phase t \<noteq> AwaitingBankruptcy"
proof -
  obtain c where c: "createClockedGameplayTurn (if dbl then AwaitingRoll else AwaitingEndTurn) seat now = Some c"
    using assms(1) by (auto simp: createGameplayLandingTurn_def split: option.splits)
  note cc = createClocked_Some [OF c]
  have t: "t = c\<lparr>phase := phase t\<rparr>"
    using assms(1) c
    by (auto simp: createGameplayLandingTurn_def split: property_type.splits option.splits if_splits)
  show "currentSeatIndex t = seat" "turnStartedAtMs t = now" by (subst t, simp add: cc(1))+
  have "clock_ok (c\<lparr>phase := ph\<rparr>) = clock_ok c" for ph by (simp add: clock_ok_def)
  with cc(3) assms(2,3) show "clock_ok t" by (subst t) simp
  show "phase t \<noteq> AwaitingBankruptcy"
    using assms(1) by (cases rule: landing_cases) (auto split: if_splits)
qed

text \<open>The landing turn suits the player who stands on the square.\<close>

lemma landing_phase:
  assumes "createGameplayLandingTurn s pos seat now dbl = Some (as_turn s')"
    "gs_properties s' = gs_properties s" "isValidPropertyStates (gs_properties s)"
    "position p = pos" "seatIndex p = seat"
  shows "validPhase s' p"
  using assms(1)
proof (cases rule: landing_cases)
  case (card d deck)
  then have "0 \<le> pos" "pos < 40" by (auto simp: js_index_Some_iff)
  then obtain q where "js_index (gs_properties s) pos = Some q" "propPosition q = pos"
    by (metis valid_properties_read [OF assms(3)] valid_property_position)
  with card assms(2,4) show ?thesis by (simp add: validPhase_def)
next
  case (tax d)
  from tax_space_position [OF tax(1,2)] tax assms(4) show ?thesis
    by (auto simp: validPhase_def policy_simps)
qed (use assms(2,4,5) in \<open>auto simp: validPhase_def validPendingProperty_def\<close>)

section \<open>The turn handler keeps its contract\<close>

lemma drawGameplayDice_Some:
  assumes "drawGameplayDice source cursor cp = Some (roll, next)"
  shows "validDice roll" "validCheckpoint next" "isAdvancedGameplayCheckpoint cp next 2"
  using assms
  by (auto simp: drawGameplayDice_def readRandomCheckpoint_def split: option.splits prod.splits sum.splits if_splits
      dest: rollDice_valid)

lemma mergeJailState_frame:
  assumes "jail_frame p q"
  shows "mergeJailState p q = q"
  using assms by (cases p; cases q) (simp add: mergeJailState_def jail_frame_def)

text \<open>One seat rewritten, the turn set: what is left to show for the next state.\<close>

lemma seat_turn_valid:
  assumes guard: "commandGuard s ok expected now = None"
    and p: "seat_at (gs_players s) seat = Some p" "validBankruptcyPlayer seat (f p)" "status (f p) = status p"
      "\<And>q. seatIndex (f q) = seatIndex q \<and> playerId (f q) = playerId q \<and> joinedAtMs (f q) = joinedAtMs q"
    and s': "s' = s\<lparr>gs_stateVersion := gs_stateVersion s + 1, gs_players := update_seat seat f (gs_players s),
        as_turn := t, gs_lastDice := d, gs_rng := cp, as_bankruptcyRequiredSeatIndex := b\<rparr>"
    and cp: "validCheckpoint cp" and t: "clock_ok t" "turnStartedAtMs t = now"
    and d: "dice_ok d" "phase t = AwaitingRoll \<or> phase t = AwaitingBankruptcy \<or> d \<noteq> None"
    and c: "seat_at (gs_players s') (currentSeatIndex t) = Some q" "status q = Active"
    and rest: "validBankruptcyPending s'" "validPhase s' q"
  shows "isValidActiveGameplayAggregateState s'"
proof -
  note g = guard_facts [OF guard]
  have "isValidBankruptcyState (update_seat seat f (gs_players s)) (gs_properties s) (gs_inventory s) (gs_bankCash s)"
    using g(9) by (rule assets_update_seat) (use p in auto)
  moreover have "gs_inventory s' = gs_inventory s" by (simp add: s' gs_inventory_def)
  ultimately show ?thesis
    using g t d cp c rest p(4) by (intro next_active_valid [OF guard, where p = q]) (simp_all add: s')
qed

lemma advance_turn_valid:
  assumes guard: "commandGuard s ok expected now = None"
    and adv: "advanceGameplayTurn s now = Some (t, n)"
    and p: "seat_at (gs_players s) seat = Some p" "validBankruptcyPlayer seat (f p)" "status (f p) = status p"
      "\<And>q. seatIndex (f q) = seatIndex q \<and> playerId (f q) = playerId q \<and> joinedAtMs (f q) = joinedAtMs q"
    and seat: "seat = currentSeatIndex (as_turn s)"
    and s': "s' = s\<lparr>gs_stateVersion := gs_stateVersion s + 1, gs_players := update_seat seat f (gs_players s),
        as_turn := t, gs_lastDice := d, gs_rng := cp, as_bankruptcyRequiredSeatIndex := None\<rparr>"
    and cp: "validCheckpoint cp" and d: "dice_ok d"
  shows "isValidActiveGameplayAggregateState s'"
proof -
  note g = guard_facts [OF guard]
  obtain q where q: "seat_at (gs_players s) n = Some q" "status q = Active" "n \<noteq> seat"
    and t: "t = \<lparr>currentSeatIndex = n, turnStartedAtMs = now, deadlineAtMs = now + turnTimeoutMs,
          emittedWarnings = [], phase = AwaitingRoll\<rparr>" "clock_ok t"
    using advance_Some [OF adv g(7)] seat by metis
  show ?thesis
    by (rule seat_turn_valid [OF guard p s' cp t(2) _ d, where q = q])
      (use q t in \<open>simp_all add: s' validBankruptcyPending_def validPhase_def\<close>)
qed

lemma bankruptcy_turn_valid:
  assumes guard: "commandGuard s ok expected now = None"
    and turn: "createClockedGameplayTurn AwaitingBankruptcy seat now = Some t"
    and p: "seat_at (gs_players s) seat = Some p" "validBankruptcyPlayer seat (f p)" "status (f p) = status p"
      "\<And>q. seatIndex (f q) = seatIndex q \<and> playerId (f q) = playerId q \<and> joinedAtMs (f q) = joinedAtMs q"
      "status p = Active"
    and s': "s' = s\<lparr>gs_stateVersion := gs_stateVersion s + 1, gs_players := update_seat seat f (gs_players s),
        as_turn := t, gs_lastDice := d, gs_rng := cp, as_bankruptcyRequiredSeatIndex := Some seat\<rparr>"
    and cp: "validCheckpoint cp" and d: "dice_ok d"
  shows "isValidActiveGameplayAggregateState s'"
proof -
  note t = createClocked_Some [OF turn]
  have "length (gs_players s) = 4" using valid_frame_parts(1) [OF guard_facts(1) [OF guard]] .
  with p(1) have seat: "0 \<le> seat" "seat < 4" by (auto dest: seat_at_range)
  show ?thesis
    by (rule seat_turn_valid [OF guard p(1-4) s' cp t(3) [OF seat] _ d, where q = "f p"])
      (use p t(1) in \<open>simp_all add: s' validBankruptcyPending_def validPhase_def\<close>)
qed

text \<open>The branches of the handler, one by one.\<close>

lemma pending_none:
  assumes "validBankruptcyPending s" "phase (as_turn s) \<noteq> AwaitingBankruptcy"
  shows "as_bankruptcyRequiredSeatIndex s = None"
  using assms by (auto simp: validBankruptcyPending_def split: option.splits)

lemma endGameplayTurn_valid:
  assumes guard: "commandGuard s ok expected now = None"
    and acc: "endGameplayTurn s now = Accepted t ev"
  shows "isValidAggregate t"
proof -
  note g = guard_facts [OF guard]
  from g(10) obtain p where p: "seat_at (gs_players s) (currentSeatIndex (as_turn s)) = Some p"
      "validBankruptcyPlayer (currentSeatIndex (as_turn s)) p" "status p = Active"
    by (rule valid_activeGameplayPlayer)
  from acc obtain turn n where adv: "advanceGameplayTurn s now = Some (turn, n)"
    and none: "as_bankruptcyRequiredSeatIndex s = None"
    and t: "t = InProgress (s\<lparr>gs_stateVersion := gs_stateVersion s + 1,
              gs_players := update_seat (currentSeatIndex (as_turn s))
                (\<lambda>player. player\<lparr>consecutiveDoubles := 0\<rparr>) (gs_players s),
              as_turn := turn, gs_lastDice := None\<rparr>)"
    by (auto simp: endGameplayTurn_def split: if_splits option.splits)
  show ?thesis unfolding t isValidAggregate.simps
    by (rule advance_turn_valid [OF guard adv p(1), where cp = "gs_rng s" and d = None
          and f = "\<lambda>player. player\<lparr>consecutiveDoubles := 0\<rparr>"])
      (use p(2) g(8) none in \<open>auto simp: validBankruptcyPlayer_def dice_ok_def\<close>)
qed

text \<open>The player whose turn it is, in a state that passed the guard with nothing overdue.\<close>

definition acting :: "active_state \<Rightarrow> gameplay_player \<Rightarrow> int \<Rightarrow> bool" where
  "acting s p now \<longleftrightarrow>
     (\<exists>ok expected. commandGuard s ok expected now = None) \<and>
     seat_at (gs_players s) (seatIndex p) = Some p \<and> seatIndex p = currentSeatIndex (as_turn s) \<and>
     validBankruptcyPlayer (seatIndex p) p \<and> status p = Active \<and> 0 \<le> seatIndex p \<and> seatIndex p < 4 \<and>
     as_bankruptcyRequiredSeatIndex s = None"

definition rolling :: "active_state \<Rightarrow> gameplay_player \<Rightarrow> int \<Rightarrow> dice_roll \<Rightarrow> random_checkpoint \<Rightarrow> bool" where
  "rolling s p now roll cp \<longleftrightarrow> acting s p now \<and> validDice roll \<and> validCheckpoint cp"

lemma actingI:
  assumes "commandGuard s ok expected now = None" "activeGameplayPlayer s = Some p"
    "as_bankruptcyRequiredSeatIndex s = None \<or> phase (as_turn s) \<noteq> AwaitingBankruptcy"
  shows "acting s p now"
proof -
  from guard_facts(10) [OF assms(1)] assms(2) have "seatIndex p = currentSeatIndex (as_turn s)"
      "seat_at (gs_players s) (seatIndex p) = Some p" "status p = Active" "validBankruptcyPlayer (seatIndex p) p"
      "validBankruptcyPending s" "0 \<le> seatIndex p" "seatIndex p < 4"
    by (auto elim!: valid_activeGameplayPlayer)
  with assms pending_none [of s] show ?thesis by (auto simp: acting_def)
qed

lemma acting_facts:
  assumes "acting s p now"
  obtains ok expected where "commandGuard s ok expected now = None"
    "seat_at (gs_players s) (seatIndex p) = Some p" "seatIndex p = currentSeatIndex (as_turn s)"
    "validBankruptcyPlayer (seatIndex p) p" "status p = Active" "0 \<le> seatIndex p" "seatIndex p < 4"
    "as_bankruptcyRequiredSeatIndex s = None"
  using assms by (auto simp: acting_def)

lemma jailedRoll_valid:
  assumes r: "rolling s p now roll cp" and acc: "jailedRoll s p now roll cp = Accepted t ev"
  shows "isValidAggregate t"
proof -
  from r obtain ok expected where guard: "commandGuard s ok expected now = None"
    and p: "seat_at (gs_players s) (seatIndex p) = Some p" "status p = Active"
      "validBankruptcyPlayer (seatIndex p) p" "seatIndex p = currentSeatIndex (as_turn s)"
      "0 \<le> seatIndex p" "seatIndex p < 4" and none: "as_bankruptcyRequiredSeatIndex s = None"
    and cp: "validCheckpoint cp" and d: "dice_ok (Some roll)"
    unfolding rolling_def acting_def dice_ok_def by auto
  from acc obtain a where a: "resolveJailRoll p roll = Inr a"
    by (auto simp: jailedRoll_def split: sum.splits)
  let ?f = "\<lambda>player. mergeJailState player (ja_state a)"
  have frame: "jail_frame p (ja_state a)" using jail_roll.keeps_frame [OF a] .
  have fp: "?f p = ja_state a" using mergeJailState_frame [OF frame] .
  have v: "validBankruptcyPlayer (seatIndex p) (?f p)" "status (?f p) = status p"
    using jail_roll.keeps_valid [OF a] frame p(2,3)
    by (auto simp: fp validBankruptcyPlayer_active jail_frame_def)
  have ids: "\<And>q. seatIndex (?f q) = seatIndex q \<and> playerId (?f q) = playerId q \<and> joinedAtMs (?f q) = joinedAtMs q"
    by (simp add: mergeJailState_def)
  show ?thesis
  proof (cases "ja_outcome a = Remains \<or> ja_outcome a = JailBankruptcyRequired")
    case True
    then show ?thesis
    proof
      assume o1: "ja_outcome a = Remains"
      with acc a obtain turn n where adv: "advanceGameplayTurn s now = Some (turn, n)"
        and t: "t = InProgress (rolledState s (update_seat (seatIndex p) ?f (gs_players s)) turn roll cp)"
        by (auto simp: jailedRoll_def Let_def split: option.splits)
      show ?thesis unfolding t isValidAggregate.simps
        by (rule advance_turn_valid [OF guard adv p(1) v ids p(4) _ cp d])
          (simp add: rolledState_def none)
    next
      assume o2: "ja_outcome a = JailBankruptcyRequired"
      with acc a obtain turn where turn: "createClockedGameplayTurn AwaitingBankruptcy (seatIndex p) now = Some turn"
        and t: "t = InProgress ((rolledState s (update_seat (seatIndex p) ?f (gs_players s)) turn roll cp)
           \<lparr>as_bankruptcyRequiredSeatIndex := Some (seatIndex p)\<rparr>)"
        by (auto simp: jailedRoll_def Let_def split: option.splits)
      show ?thesis unfolding t isValidAggregate.simps
        by (rule bankruptcy_turn_valid [OF guard turn p(1) v ids p(2) _ cp d]) (simp add: rolledState_def)
    qed
  next
    case False
    from a False have pos: "position (ja_state a) = (position p + total roll) mod 40"
        "ja_movement a = moveBy (position p) (total roll)"
      by (auto elim: resolveJailRoll_cases)
    from acc a False obtain m rm turn where m: "ja_movement a = Some m" "ja_releaseMethod a = Some rm"
      and turn: "createGameplayLandingTurn s (mv_to m) (seatIndex p) now False = Some turn"
      and t: "t = InProgress (rolledState s (update_seat (seatIndex p) ?f (gs_players s)) turn roll cp)"
      by (auto simp: jailedRoll_def Let_def split: option.splits jail_outcome.splits)
    let ?s' = "rolledState s (update_seat (seatIndex p) ?f (gs_players s)) turn roll cp"
    note l = landing_Some [OF turn p(5,6)]
    have to: "position (?f p) = mv_to m" using m pos moveBy_Some_to [of "position p" "total roll" m] by (simp add: fp)
    have props: "isValidPropertyStates (gs_properties s)"
      using valid_frame_parts(2) [OF guard_facts(1) [OF guard]] .
    show ?thesis unfolding t isValidAggregate.simps
    proof (rule seat_turn_valid [where f = ?f and q = "?f p" and b = None, OF guard p(1) v ids _ cp l(3,2) d])
      show "validPhase ?s' (?f p)"
        by (rule landing_phase [OF _ _ props, of _ "seatIndex p" now False])
          (use turn to ids in \<open>simp_all add: rolledState_def\<close>)
    qed (use p v l none in \<open>simp_all add: rolledState_def validBankruptcyPending_def\<close>)
  qed
qed

lemma sendToJail_valid:
  assumes "validBankruptcyPlayer i p" "isCash money" "status p = Active"
  shows "validBankruptcyPlayer i (sendToJail money p)"
  using assms by (auto simp: validBankruptcyPlayer_def sendToJail_def isCash_def policy_simps)

lemma threeDoublesRoll_valid:
  assumes r: "rolling s p now roll cp" and acc: "threeDoublesRoll s p now roll cp = Accepted t ev"
  shows "isValidAggregate t"
proof -
  from r obtain ok expected where guard: "commandGuard s ok expected now = None"
    and p: "seat_at (gs_players s) (seatIndex p) = Some p" "validBankruptcyPlayer (seatIndex p) p"
      "seatIndex p = currentSeatIndex (as_turn s)" "status p = Active"
    and none: "as_bankruptcyRequiredSeatIndex s = None" and cp: "validCheckpoint cp" and d: "dice_ok (Some roll)"
    unfolding rolling_def acting_def dice_ok_def by auto
  let ?f = "\<lambda>player. sendToJail (cash player) player"
  from acc obtain turn n where adv: "advanceGameplayTurn s now = Some (turn, n)"
    and t: "t = InProgress (rolledState s (update_seat (seatIndex p) ?f (gs_players s)) turn roll cp)"
    by (auto simp: threeDoublesRoll_def split: option.splits)
  show ?thesis unfolding t isValidAggregate.simps
    by (rule advance_turn_valid [OF guard adv p(1) _ _ _ p(3) _ cp d, where f = ?f])
      (use p none in \<open>auto simp: rolledState_def sendToJail_def validBankruptcyPlayer_def policy_simps\<close>)
qed

lemma salariedCash_Some:
  assumes "salariedCash c m = Some money"
  shows "money = c + salaryOf m" "isCash c \<Longrightarrow> isCash money"
  using assms
  by (auto simp: salariedCash_def salaryOf_def checkedAdd_Some_iff isCash_def policy_simps split: if_splits)

lemma freeRoll_valid:
  assumes r: "rolling s p now roll cp" and free: "\<not> inJail p"
    and dbl: "applyDoubles (consecutiveDoubles p) roll = Some doubles"
    and acc: "freeRoll s p now roll cp doubles = Accepted t ev"
  shows "isValidAggregate t"
proof -
  from r obtain ok expected where guard: "commandGuard s ok expected now = None"
    and p: "seat_at (gs_players s) (seatIndex p) = Some p" "validBankruptcyPlayer (seatIndex p) p"
      "seatIndex p = currentSeatIndex (as_turn s)" "status p = Active" "0 \<le> seatIndex p" "seatIndex p < 4"
    and none: "as_bankruptcyRequiredSeatIndex s = None" and cp: "validCheckpoint cp" and d: "dice_ok (Some roll)"
    unfolding rolling_def acting_def dice_ok_def by auto
  from acc obtain m money where m: "moveBy (position p) (total roll) = Some m"
    and money: "salariedCash (cash p) m = Some money"
    by (auto simp: freeRoll_def split: option.splits)
  have c: "isCash money" using salariedCash_Some(2) [OF money] p(2)
    by (simp add: validBankruptcyPlayer_def isCash_def)
  have to: "0 \<le> mv_to m" "mv_to m < 40"
    using moveBy_on_board [OF m] by (simp_all add: isBoardPosition_def policy_simps)
  show ?thesis
  proof (cases "mv_to m = goToJailPosition")
    case True
    with acc m money obtain turn n where adv: "advanceGameplayTurn s now = Some (turn, n)"
      and t: "t = InProgress (rolledState s (update_seat (seatIndex p) (sendToJail money) (gs_players s)) turn roll cp)"
      by (auto simp: freeRoll_def Let_def split: option.splits)
    show ?thesis unfolding t isValidAggregate.simps
      by (rule advance_turn_valid [where f = "sendToJail money",
            OF guard adv p(1) sendToJail_valid [OF p(2) c p(4)] _ _ p(3) _ cp d])
        (use none in \<open>auto simp: rolledState_def sendToJail_def\<close>)
  next
    case False
    let ?f = "\<lambda>player. player\<lparr>cash := money, position := mv_to m,
       consecutiveDoubles := db_consecutiveDoubles doubles\<rparr>"
    from False acc m money obtain turn
      where turn: "createGameplayLandingTurn s (mv_to m) (seatIndex p) now (isDoubles roll) = Some turn"
      and t: "t = InProgress (rolledState s (update_seat (seatIndex p) ?f (gs_players s)) turn roll cp)"
      by (auto simp: freeRoll_def Let_def split: option.splits)
    let ?s' = "rolledState s (update_seat (seatIndex p) ?f (gs_players s)) turn roll cp"
    note l = landing_Some [OF turn p(5,6)]
    have v: "validBankruptcyPlayer (seatIndex p) (?f p)"
      using p(2,4) c to free applyDoubles_Some [OF dbl]
      by (auto simp: validBankruptcyPlayer_def isCash_def policy_simps)
    have props: "isValidPropertyStates (gs_properties s)"
      using valid_frame_parts(2) [OF guard_facts(1) [OF guard]] .
    show ?thesis unfolding t isValidAggregate.simps
    proof (rule seat_turn_valid [where f = ?f and q = "?f p" and b = None, OF guard p(1) v _ _ _ cp l(3,2) d])
      show "validPhase ?s' (?f p)"
        by (rule landing_phase [OF _ _ props, of _ "seatIndex p" now "isDoubles roll"])
          (use turn in \<open>simp_all add: rolledState_def\<close>)
    qed (use p l none in \<open>simp_all add: rolledState_def validBankruptcyPending_def\<close>)
  qed
qed

text \<open>No part throws, a rejecting part keeps the state, an accepting part raises the version.\<close>

lemma turn_parts:
  "endGameplayTurn s now \<noteq> Threw e" "threeDoublesRoll s p now roll cp \<noteq> Threw e"
  "freeRoll s p now roll cp doubles \<noteq> Threw e" "jailedRoll s p now roll cp \<noteq> Threw e"
  by (auto simp: endGameplayTurn_def threeDoublesRoll_def freeRoll_def jailedRoll_def Let_def
      split: option.split sum.split jail_outcome.split)

lemma turn_parts_rejected:
  "endGameplayTurn s now = Rejected t err \<Longrightarrow> t = InProgress s"
  "threeDoublesRoll s p now roll cp = Rejected t err \<Longrightarrow> t = InProgress s"
  "freeRoll s p now roll cp doubles = Rejected t err \<Longrightarrow> t = InProgress s"
  "jailedRoll s p now roll cp = Rejected t err \<Longrightarrow> t = InProgress s"
  by (auto simp: endGameplayTurn_def threeDoublesRoll_def freeRoll_def jailedRoll_def Let_def
      split: option.splits sum.splits jail_outcome.splits if_splits)

lemma turn_parts_version:
  "endGameplayTurn s now = Accepted t ev \<Longrightarrow> aggregate_version t = gs_stateVersion s + 1"
  "threeDoublesRoll s p now roll cp = Accepted t ev \<Longrightarrow> aggregate_version t = gs_stateVersion s + 1"
  "freeRoll s p now roll cp doubles = Accepted t ev \<Longrightarrow> aggregate_version t = gs_stateVersion s + 1"
  "jailedRoll s p now roll cp = Accepted t ev \<Longrightarrow> aggregate_version t = gs_stateVersion s + 1"
  by (auto simp: endGameplayTurn_def threeDoublesRoll_def freeRoll_def jailedRoll_def Let_def rolledState_def
      split: option.splits sum.splits jail_outcome.splits if_splits)

lemma rollGameplayDice_cases:
  assumes "rollGameplayDice s p context = Accepted t ev"
  obtains roll cp doubles where
    "phase (as_turn s) = AwaitingRoll"
    "drawGameplayDice (randomSource context) (randomCursor context) (gs_rng s) = Some (roll, cp)"
    "applyDoubles (consecutiveDoubles p) roll = Some doubles"
    "inJail p \<longrightarrow> jailedRoll s p (nowMs context) roll cp = Accepted t ev"
    "\<not> inJail p \<longrightarrow> db_sentToJail doubles \<longrightarrow> threeDoublesRoll s p (nowMs context) roll cp = Accepted t ev"
    "\<not> inJail p \<longrightarrow> \<not> db_sentToJail doubles \<longrightarrow> freeRoll s p (nowMs context) roll cp doubles = Accepted t ev"
  using assms unfolding rollGameplayDice_def
  by (auto split: if_splits option.splits intro: that)

lemma transitionGameplayTurn_Accepted:
  assumes "transitionGameplayTurn s c expected context = Accepted t ev"
  obtains p where "commandGuard s True expected (nowMs context) = None" "activeGameplayPlayer s = Some p"
    "playerActorAuthorized c s (actor context)"
    "c = EndTurn \<longrightarrow> endGameplayTurn s (nowMs context) = Accepted t ev"
    "c \<noteq> EndTurn \<longrightarrow> rollGameplayDice s p context = Accepted t ev"
proof -
  from assms have g: "commandGuard s (safeEpoch (nowMs context)) expected (nowMs context) = None"
    by (auto simp: transitionGameplayTurn_def split: option.splits)
  then have "commandGuard s True expected (nowMs context) = None" by (simp add: commandGuard_None)
  with assms g show thesis
    by (auto simp: transitionGameplayTurn_def split: option.splits if_splits intro: that)
qed

lemma rollGameplayDice_rolling:
  assumes guard: "commandGuard s True expected (nowMs context) = None" and p: "activeGameplayPlayer s = Some p"
    and "phase (as_turn s) = AwaitingRoll"
    and "drawGameplayDice (randomSource context) (randomCursor context) (gs_rng s) = Some (roll, cp)"
  shows "rolling s p (nowMs context) roll cp"
  using actingI [OF guard p] drawGameplayDice_Some [OF assms(4)] assms(3) by (auto simp: rolling_def)

interpretation turn_handler: sound_handler "\<lambda>s. transitionGameplayTurn s c expected ctx" expected "nowMs ctx"
  for c expected ctx
proof (unfold_locales, goal_cases)
  case (1 s e)
  then show ?case
    by (auto simp: transitionGameplayTurn_def rollGameplayDice_def turn_parts split: option.splits)
next
  case (2 s t err)
  then show ?case
    by (auto simp: transitionGameplayTurn_def rollGameplayDice_def dest: turn_parts_rejected
        split: option.splits if_splits)
next
  case (3 s t ev)
  then show ?case by (rule transitionGameplayTurn_Accepted)
next
  case (4 s t ev)
  then show ?case
    by (auto simp: transitionGameplayTurn_def rollGameplayDice_def dest: turn_parts_version
        split: option.splits if_splits)
next
  case (5 s t ev)
  then obtain p where p: "commandGuard s True expected (nowMs ctx) = None" "activeGameplayPlayer s = Some p"
    "playerActorAuthorized c s (actor ctx)"
    "c = EndTurn \<longrightarrow> endGameplayTurn s (nowMs ctx) = Accepted t ev"
    "c \<noteq> EndTurn \<longrightarrow> rollGameplayDice s p ctx = Accepted t ev"
    by (rule transitionGameplayTurn_Accepted)
  show ?case
  proof (cases "c = EndTurn")
    case True
    with p endGameplayTurn_valid show ?thesis by blast
  next
    case False
    with p(5) have "rollGameplayDice s p ctx = Accepted t ev" by simp
    then show ?thesis
      by (rule rollGameplayDice_cases)
        (use rollGameplayDice_rolling [OF p(1,2)] in
          \<open>metis jailedRoll_valid threeDoublesRoll_valid freeRoll_valid\<close>)
  qed
qed

section \<open>Branches that leave a quiet turn or a pending bankruptcy\<close>

text \<open>A branch that settles the landing: players, properties and stock may have changed, the same
  player goes on rolling or may end the turn.\<close>

lemma quiet_turn_valid:
  assumes act: "acting s p now"
    and t: "clock_ok t" "turnStartedAtMs t = now" "currentSeatIndex t = seatIndex p"
      "phase t = AwaitingRoll \<or> (phase t = AwaitingEndTurn \<and> gs_lastDice s \<noteq> None)"
    and assets: "isValidBankruptcyState ps props \<lparr>housesRemaining = h, hotelsRemaining = k\<rparr> (gs_bankCash s)"
    and ids: "identity_view ps = identity_view (gs_players s)"
    and cur: "seat_at ps (seatIndex p) = Some q" "status q = Active"
    and cp: "validCheckpoint cp"
    and s': "s' = s\<lparr>gs_stateVersion := gs_stateVersion s + 1, gs_players := ps, gs_properties := props,
      gs_housesRemaining := h, gs_hotelsRemaining := k, as_turn := t, gs_rng := cp\<rparr>"
  shows "isValidActiveGameplayAggregateState s'"
  using act
proof (rule acting_facts)
  fix ok expected
  assume guard: "commandGuard s ok expected now = None" and none: "as_bankruptcyRequiredSeatIndex s = None"
  note g = guard_facts [OF guard]
  have inv: "gs_inventory s' = \<lparr>housesRemaining = h, hotelsRemaining = k\<rparr>" by (simp add: s' gs_inventory_def)
  have "validBankruptcyPending s'" "validPhase s' q"
    using t none by (auto simp: s' validBankruptcyPending_def validPhase_def)
  moreover have "isValidBankruptcyState (gs_players s') (gs_properties s') (gs_inventory s') (gs_bankCash s')"
    using assets unfolding inv by (simp add: s')
  ultimately show ?thesis
    using g t ids cur cp by (intro next_active_valid [OF guard, where p = q]) (auto simp: s')
qed

lemma update_seat_id [simp]: "update_seat seat (\<lambda>p. p) xs = xs"
  by (rule nth_equalityI) (auto simp: nth_update_seat option.map_ident)

lemma pending_bankruptcy_valid:
  assumes act: "acting s p now"
    and turn: "createClockedGameplayTurn AwaitingBankruptcy (seatIndex p) now = Some t"
    and d: "dice_ok d"
    and s': "s' = s\<lparr>gs_stateVersion := gs_stateVersion s + 1, as_turn := t, gs_lastDice := d,
      as_bankruptcyRequiredSeatIndex := Some (seatIndex p)\<rparr>"
  shows "isValidActiveGameplayAggregateState s'"
  using act
proof (rule acting_facts)
  fix ok expected
  assume guard: "commandGuard s ok expected now = None" and p: "seat_at (gs_players s) (seatIndex p) = Some p"
    "validBankruptcyPlayer (seatIndex p) p" "status p = Active"
  show ?thesis
    by (rule bankruptcy_turn_valid [where f = "\<lambda>p. p", OF guard turn p(1,2) _ _ p(3) _ guard_facts(8) [OF guard] d])
      (simp_all add: s')
qed

section \<open>Money in a turn\<close>

lemma rolledState_money:
  assumes "seat_at (gs_players s) seat = Some p"
  shows "moneySupply (rolledState s (update_seat seat f (gs_players s)) turn roll cp) =
    moneySupply s + (cash (f p) - cash p)"
    "moneySupply ((rolledState s (update_seat seat f (gs_players s)) turn roll cp)
       \<lparr>as_bankruptcyRequiredSeatIndex := b\<rparr>) = moneySupply s + (cash (f p) - cash p)"
  using assms by (simp_all add: moneySupply_def rolledState_def totalCash_update_seat)

lemma endGameplayTurn_money:
  assumes "endGameplayTurn s now = Accepted t ev" "seat_at (gs_players s) (currentSeatIndex (as_turn s)) = Some p"
  shows "aggregate_money t = moneySupply s + expectedCashDelta s ev"
  using assms
  by (auto simp: endGameplayTurn_def moneySupply_def expectedCashDelta_def totalCash_update_seat
      split: if_splits option.splits)

lemma freeRoll_money:
  assumes "freeRoll s p now roll cp doubles = Accepted t ev" "seat_at (gs_players s) (seatIndex p) = Some p"
  shows "aggregate_money t = moneySupply s + expectedCashDelta s ev"
  using assms
  by (auto simp: freeRoll_def Let_def rolledState_money expectedCashDelta_def sendToJail_def
      dest!: salariedCash_Some(1) split: if_splits option.splits)

lemma threeDoublesRoll_money:
  assumes "threeDoublesRoll s p now roll cp = Accepted t ev" "seat_at (gs_players s) (seatIndex p) = Some p"
  shows "aggregate_money t = moneySupply s + expectedCashDelta s ev"
  using assms
  by (auto simp: threeDoublesRoll_def rolledState_money expectedCashDelta_def sendToJail_def
      split: option.splits)

text \<open>The one roll whose money no event accounts for: the third failed jail roll of a player who
  cannot pay the fine.\<close>

definition jailed_insolvent :: "gameplay_player \<Rightarrow> gameplay_event list \<Rightarrow> bool" where
  "jailed_insolvent p ev \<longleftrightarrow> inJail p \<and> cash p < jailFine \<and> (\<exists>roll. ev = [DiceRolled (playerId p) roll] \<and> \<not> isDoubles roll)"

lemma jailedRoll_money:
  assumes "jailedRoll s p now roll cp = Accepted t ev" "seat_at (gs_players s) (seatIndex p) = Some p"
  shows "aggregate_money t = moneySupply s + expectedCashDelta s ev \<or>
    (jailed_insolvent p ev \<and> aggregate_money t = moneySupply s - cash p)"
proof -
  from assms obtain a where a: "resolveJailRoll p roll = Inr a"
    by (auto simp: jailedRoll_def split: sum.splits)
  have m: "cash (mergeJailState p (ja_state a)) = cash (ja_state a)" by (simp add: mergeJailState_def)
  note j = resolveJailRoll_needs(2) [OF a]
  from a show ?thesis
  proof (cases rule: resolveJailRoll_cases)
    case remains
    with assms a m show ?thesis
      by (auto simp: jailedRoll_def Let_def rolledState_money expectedCashDelta_def split: option.splits)
  next
    case bankrupt
    with assms a m j show ?thesis
      by (auto simp: jailedRoll_def Let_def rolledState_money jailed_insolvent_def split: option.splits)
  next
    case fine
    with assms a m show ?thesis
      by (auto simp: jailedRoll_def Let_def rolledState_money expectedCashDelta_def split: option.splits)
  next
    case doubles
    with assms a m show ?thesis
      by (auto simp: jailedRoll_def Let_def rolledState_money expectedCashDelta_def split: option.splits)
  qed
qed

lemma transitionGameplayTurn_money:
  assumes "transitionGameplayTurn s c expected ctx = Accepted t ev"
  shows "aggregate_money t = moneySupply s + expectedCashDelta s ev \<or>
    (\<exists>p. activeGameplayPlayer s = Some p \<and> jailed_insolvent p ev \<and> aggregate_money t = moneySupply s - cash p)"
  using assms
proof (rule transitionGameplayTurn_Accepted)
  fix p
  assume g: "commandGuard s True expected (nowMs ctx) = None" and p: "activeGameplayPlayer s = Some p"
    and e: "c = EndTurn \<longrightarrow> endGameplayTurn s (nowMs ctx) = Accepted t ev"
    and r: "c \<noteq> EndTurn \<longrightarrow> rollGameplayDice s p ctx = Accepted t ev"
  from guard_facts(10) [OF g] p have seat: "seat_at (gs_players s) (currentSeatIndex (as_turn s)) = Some p"
      "seat_at (gs_players s) (seatIndex p) = Some p"
    by (auto elim!: valid_activeGameplayPlayer)
  show ?thesis
  proof (cases "c = EndTurn")
    case True
    with e seat endGameplayTurn_money show ?thesis by blast
  next
    case False
    with r have "rollGameplayDice s p ctx = Accepted t ev" by simp
    then show ?thesis
      by (rule rollGameplayDice_cases)
        (use p seat in \<open>metis freeRoll_money threeDoublesRoll_money jailedRoll_money\<close>)
  qed
qed

end
