(* ===== verification/Gameplay_Property.thy ===== *)
theory Gameplay_Property
  imports Gameplay_Turn
begin

text \<open>
  \<open>rules/gameplay-property-transition.ts\<close>: buying and declining, rent, taxes, and building commands
  of the current player.
\<close>

section \<open>Helpers\<close>

definition validPosition :: "int \<Rightarrow> bool" where
  "validPosition value \<longleftrightarrow> value \<ge> 0 \<and> value < boardSize"

fun validPropertyCommand :: "property_command \<Rightarrow> bool" where
  "validPropertyCommand PayMevTax = True"
| "validPropertyCommand PayPriorityFeeTax = True"
| "validPropertyCommand (SellBuilding pos _) = validPosition pos"
| "validPropertyCommand (BuyProperty pos) = validPosition pos"
| "validPropertyCommand (DeclineProperty pos) = validPosition pos"
| "validPropertyCommand (PayRent pos) = validPosition pos"
| "validPropertyCommand (BuildHouse pos) = validPosition pos"
| "validPropertyCommand (BuildHotel pos) = validPosition pos"

definition phaseAfterResolvedAction :: "active_state \<Rightarrow> int \<Rightarrow> active_turn option" where
  "phaseAfterResolvedAction state now =
     (case gs_lastDice state of
        None \<Rightarrow> None
      | Some roll \<Rightarrow> createClockedGameplayTurn (if isDoubles roll then AwaitingRoll else AwaitingEndTurn)
                       (currentSeatIndex (as_turn state)) now)"

definition buildingPhase :: "active_state \<Rightarrow> int \<Rightarrow> active_turn option" where
  "buildingPhase state now =
     (if phase (as_turn state) \<noteq> AwaitingRoll \<and> phase (as_turn state) \<noteq> AwaitingEndTurn then None
      else createClockedGameplayTurn (phase (as_turn state)) (currentSeatIndex (as_turn state)) now)"

definition buildingError :: "building_error_code \<Rightarrow> game_core_error_code" where
  "buildingError code =
     (if code = BUILDING_INSUFFICIENT_CASH then INSUFFICIENT_CASH
      else if code = BUILDING_ARITHMETIC_OVERFLOW then ARITHMETIC_OVERFLOW
      else PROPERTY_NOT_AVAILABLE)"

text \<open>The pending bankruptcy three branches of the code write in the same way.\<close>

definition requireBankruptcy :: "active_state \<Rightarrow> gameplay_player \<Rightarrow> int \<Rightarrow> gameplay_result" where
  "requireBankruptcy state current now =
     (case createClockedGameplayTurn AwaitingBankruptcy (seatIndex current) now of
        None \<Rightarrow> reject (InProgress state) INVALID_STATE
      | Some turn \<Rightarrow>
          Accepted (InProgress (state\<lparr>gs_stateVersion := gs_stateVersion state + 1, as_turn := turn,
            as_bankruptcyRequiredSeatIndex := Some (seatIndex current)\<rparr>)) [])"

section \<open>Buying and declining\<close>

definition decideProperty ::
  "active_state \<Rightarrow> gameplay_player \<Rightarrow> int \<Rightarrow> int \<Rightarrow> bool \<Rightarrow> gameplay_result" where
  "decideProperty state current now pos buys =
     (if phase (as_turn state) \<noteq> AwaitingPropertyDecision pos then reject (InProgress state) INVALID_PHASE
      else case (js_index BOARD_SPACES pos, js_index (gs_properties state) pos) of
        (Some definition', Some property) \<Rightarrow>
          if ownerSeatIndex property \<noteq> None \<or> \<not> isOwnableSpace definition'
          then reject (InProgress state) PROPERTY_NOT_AVAILABLE
          else (case phaseAfterResolvedAction state now of
            None \<Rightarrow> reject (InProgress state) INVALID_STATE
          | Some turn \<Rightarrow> (case matchCash (price definition') of
              Inl e \<Rightarrow> Threw e
            | Inr cost \<Rightarrow>
                if \<not> buys then
                  Accepted (InProgress (state\<lparr>gs_stateVersion := gs_stateVersion state + 1, as_turn := turn\<rparr>))
                    [PropertyDeclined (playerId current) pos cost]
                else (case checkedSubtractMatchCash (cash current) cost of
                  None \<Rightarrow> reject (InProgress state) INSUFFICIENT_CASH
                | Some money \<Rightarrow>
                    Accepted (InProgress (state\<lparr>gs_stateVersion := gs_stateVersion state + 1,
                        gs_players := update_seat (seatIndex current) (\<lambda>player. player\<lparr>cash := money\<rparr>)
                          (gs_players state),
                        gs_properties := update_property pos
                          (\<lambda>candidate. candidate\<lparr>ownerSeatIndex := Some (seatIndex current)\<rparr>)
                          (gs_properties state),
                        as_turn := turn\<rparr>))
                      [PropertyPurchased (playerId current) pos cost])))
      | _ \<Rightarrow> reject (InProgress state) PROPERTY_NOT_AVAILABLE)"

section \<open>Rent\<close>

definition transferRent ::
  "gameplay_player option list \<Rightarrow> int \<Rightarrow> int \<Rightarrow> int \<Rightarrow> int \<Rightarrow> gameplay_player option list" where
  "transferRent players payerSeat payerCash ownerSeat ownerCash =
     map_index (\<lambda>index slot. case slot of
        None \<Rightarrow> None
      | Some player \<Rightarrow>
          Some (if index = payerSeat then player\<lparr>cash := payerCash\<rparr>
                else if index = ownerSeat then player\<lparr>cash := ownerCash\<rparr> else player)) players"

definition rentOwner :: "active_state \<Rightarrow> int \<Rightarrow> gameplay_player option" where
  "rentOwner state pos =
     (case js_index (gs_properties state) pos of
        None \<Rightarrow> None
      | Some property \<Rightarrow> (case ownerSeatIndex property of
          None \<Rightarrow> None
        | Some owner \<Rightarrow> (case seat_at (gs_players state) owner of
            None \<Rightarrow> None
          | Some player \<Rightarrow> if status player = Active then Some player else None)))"

definition payGameplayRent :: "active_state \<Rightarrow> gameplay_player \<Rightarrow> int \<Rightarrow> int \<Rightarrow> gameplay_result" where
  "payGameplayRent state current now pos =
     (if phase (as_turn state) \<noteq> AwaitingRentPayment pos then reject (InProgress state) INVALID_PHASE
      else case gs_lastDice state of
        None \<Rightarrow> reject (InProgress state) INVALID_STATE
      | Some roll \<Rightarrow> (case rentOwner state pos of
          None \<Rightarrow> reject (InProgress state) PROPERTY_NOT_AVAILABLE
        | Some owner \<Rightarrow> (case calculateRent (gs_properties state) pos (total roll) of
            Inl e \<Rightarrow> Threw e
          | Inr None \<Rightarrow> reject (InProgress state) INVALID_STATE
          | Inr (Some amount) \<Rightarrow> (case phaseAfterResolvedAction state now of
              None \<Rightarrow> reject (InProgress state) INVALID_STATE
            | Some turn \<Rightarrow> (case checkedSubtractMatchCash (cash current) amount of
                None \<Rightarrow> requireBankruptcy state current now
              | Some payerCash \<Rightarrow> (case checkedAddMatchCash (cash owner) amount of
                  None \<Rightarrow> reject (InProgress state) ARITHMETIC_OVERFLOW
                | Some ownerCash \<Rightarrow>
                    Accepted (InProgress (state\<lparr>gs_stateVersion := gs_stateVersion state + 1,
                        gs_players := transferRent (gs_players state) (seatIndex current) payerCash
                          (seatIndex owner) ownerCash,
                        as_turn := turn\<rparr>))
                      [RentPaid (playerId current) (playerId owner) pos amount]))))))"

section \<open>Taxes\<close>

definition taxPosition :: "tax_kind \<Rightarrow> int" where
  "taxPosition kind = (case kind of Mev \<Rightarrow> mevTaxPosition | PriorityFee \<Rightarrow> priorityFeeTaxPosition)"

definition taxAmount :: "tax_kind \<Rightarrow> int" where
  "taxAmount kind = (case kind of Mev \<Rightarrow> mevTaxAmount | PriorityFee \<Rightarrow> priorityFeeTaxAmount)"

definition payGameplayTax :: "active_state \<Rightarrow> gameplay_player \<Rightarrow> int \<Rightarrow> tax_kind \<Rightarrow> gameplay_result" where
  "payGameplayTax state current now kind =
     (if phase (as_turn state) \<noteq> AwaitingTaxPayment kind then reject (InProgress state) INVALID_PHASE
      else if position current \<noteq> taxPosition kind then reject (InProgress state) INVALID_STATE
      else case matchCash (taxAmount kind) of
        Inl e \<Rightarrow> Threw e
      | Inr amount \<Rightarrow> (case checkedSubtractMatchCash (cash current) amount of
          None \<Rightarrow>
            if kind = PriorityFee then reject (InProgress state) INSUFFICIENT_CASH
            else requireBankruptcy state current now
        | Some money \<Rightarrow> (case phaseAfterResolvedAction state now of
            None \<Rightarrow> reject (InProgress state) INVALID_STATE
          | Some turn \<Rightarrow>
              Accepted (InProgress (state\<lparr>gs_stateVersion := gs_stateVersion state + 1,
                  gs_players := update_seat (seatIndex current) (\<lambda>player. player\<lparr>cash := money\<rparr>)
                    (gs_players state),
                  as_turn := turn\<rparr>))
                [TaxPaid (playerId current) (taxPosition kind) kind amount])))"

section \<open>Buildings\<close>

datatype building_command = BuildCommand building_kind | SellCommand building_kind

fun buildingRule :: "building_command \<Rightarrow> property_state list \<Rightarrow> building_inventory \<Rightarrow> int \<Rightarrow> int \<Rightarrow> int \<Rightarrow>
    (building_error_code, building_mutation) outcome" where
  "buildingRule (BuildCommand House) = buildHouse"
| "buildingRule (BuildCommand Hotel) = buildHotel"
| "buildingRule (SellCommand House) = sellHouse"
| "buildingRule (SellCommand Hotel) = sellHotel"

definition changeBuilding ::
  "active_state \<Rightarrow> gameplay_player \<Rightarrow> int \<Rightarrow> int \<Rightarrow> building_command \<Rightarrow> gameplay_result" where
  "changeBuilding state current now pos command =
     (case buildingPhase state now of
        None \<Rightarrow> reject (InProgress state) INVALID_PHASE
      | Some turn \<Rightarrow>
          (case buildingRule command (gs_properties state) (gs_inventory state) pos (seatIndex current)
                  (cash current) of
             Inl e \<Rightarrow> Threw e
           | Inr (Inl code) \<Rightarrow> reject (InProgress state) (buildingError code)
           | Inr (Inr result) \<Rightarrow>
               (let next = state\<lparr>gs_stateVersion := gs_stateVersion state + 1,
                      gs_players := update_seat (seatIndex current) (\<lambda>player. player\<lparr>cash := bm_cash result\<rparr>)
                        (gs_players state),
                      gs_properties := bm_properties result,
                      gs_housesRemaining := housesRemaining (bm_inventory result),
                      gs_hotelsRemaining := hotelsRemaining (bm_inventory result),
                      as_turn := turn\<rparr> in
                case js_index (gs_properties next) pos of
                  None \<Rightarrow> reject (InProgress state) INVALID_STATE
                | Some property \<Rightarrow>
                    Accepted (InProgress next)
                      [case command of
                         BuildCommand kind \<Rightarrow>
                           BuildingBuilt (playerId current) pos kind (houses property) (bm_amount result)
                       | SellCommand kind \<Rightarrow> BuildingSold (playerId current) pos kind (bm_amount result)])))"

definition transitionGameplayProperty ::
  "active_state \<Rightarrow> property_command \<Rightarrow> int \<Rightarrow> 'r gameplay_context \<Rightarrow> gameplay_result" where
  "transitionGameplayProperty state command expected ctx =
     (case commandGuard state (validPropertyCommand command) expected (nowMs ctx) of
        Some err \<Rightarrow> Rejected (InProgress state) err
      | None \<Rightarrow> (case activeGameplayPlayer state of
          None \<Rightarrow> reject (InProgress state) INVALID_STATE
        | Some current \<Rightarrow>
            if \<not> isCurrentActor (actor ctx) current then reject (InProgress state) UNAUTHORIZED_ACTOR
            else if as_bankruptcyRequiredSeatIndex state \<noteq> None then reject (InProgress state) INVALID_PHASE
            else (case command of
              BuyProperty pos \<Rightarrow> decideProperty state current (nowMs ctx) pos True
            | DeclineProperty pos \<Rightarrow> decideProperty state current (nowMs ctx) pos False
            | PayRent pos \<Rightarrow> payGameplayRent state current (nowMs ctx) pos
            | PayMevTax \<Rightarrow> payGameplayTax state current (nowMs ctx) Mev
            | PayPriorityFeeTax \<Rightarrow> payGameplayTax state current (nowMs ctx) PriorityFee
            | BuildHouse pos \<Rightarrow> changeBuilding state current (nowMs ctx) pos (BuildCommand House)
            | BuildHotel pos \<Rightarrow> changeBuilding state current (nowMs ctx) pos (BuildCommand Hotel)
            | SellBuilding pos kind \<Rightarrow> changeBuilding state current (nowMs ctx) pos (SellCommand kind))))"

section \<open>The property handler keeps its contract\<close>

lemma resolvedAction_Some:
  assumes "phaseAfterResolvedAction s now = Some t" "acting s p now"
  shows "clock_ok t" "turnStartedAtMs t = now" "currentSeatIndex t = seatIndex p"
    "phase t = AwaitingRoll \<or> (phase t = AwaitingEndTurn \<and> gs_lastDice s \<noteq> None)"
proof -
  from assms(1) obtain roll where r: "gs_lastDice s = Some roll"
      "createClockedGameplayTurn (if isDoubles roll then AwaitingRoll else AwaitingEndTurn)
         (currentSeatIndex (as_turn s)) now = Some t"
    by (auto simp: phaseAfterResolvedAction_def split: option.splits)
  from assms(2) have seat: "seatIndex p = currentSeatIndex (as_turn s)" "0 \<le> seatIndex p" "seatIndex p < 4"
    by (auto simp: acting_def)
  from createClocked_Some [OF r(2)] seat r(1)
  show "clock_ok t" "turnStartedAtMs t = now" "currentSeatIndex t = seatIndex p"
    "phase t = AwaitingRoll \<or> (phase t = AwaitingEndTurn \<and> gs_lastDice s \<noteq> None)"
    by auto
qed

lemma buildingPhase_Some:
  assumes "buildingPhase s now = Some t" "acting s p now"
  shows "clock_ok t" "turnStartedAtMs t = now" "currentSeatIndex t = seatIndex p"
    "phase t = AwaitingRoll \<or> (phase t = AwaitingEndTurn \<and> gs_lastDice s \<noteq> None)"
proof -
  from assms(1) have b: "phase (as_turn s) = AwaitingRoll \<or> phase (as_turn s) = AwaitingEndTurn"
      "createClockedGameplayTurn (phase (as_turn s)) (currentSeatIndex (as_turn s)) now = Some t"
    by (auto simp: buildingPhase_def split: if_splits)
  from assms(2) have seat: "seatIndex p = currentSeatIndex (as_turn s)" "0 \<le> seatIndex p" "seatIndex p < 4"
      "isValidActiveGameplayAggregateState s"
    by (auto simp: acting_def commandGuard_None)
  from createClocked_Some [OF b(2)] seat b(1)
  show "clock_ok t" "turnStartedAtMs t = now" "currentSeatIndex t = seatIndex p"
    "phase t = AwaitingRoll \<or> (phase t = AwaitingEndTurn \<and> gs_lastDice s \<noteq> None)"
    by (auto simp: isValidActive_iff)
qed

lemma acting_assets:
  assumes "acting s p now"
  shows "isValidBankruptcyState (gs_players s) (gs_properties s) (gs_inventory s) (gs_bankCash s)"
    "isValidPropertyStates (gs_properties s)" "validCheckpoint (gs_rng s)" "isCash (cash p)"
    "dice_ok (gs_lastDice s)"
  using assms
  by (auto simp: acting_def validBankruptcyPlayer_def isCash_def dest: guard_facts guard_facts(1) [THEN valid_frame_parts(2)])

lemma cash_update_valid:
  "validBankruptcyPlayer i p \<Longrightarrow> status p = Active \<Longrightarrow> isCash c \<Longrightarrow> validBankruptcyPlayer i (p\<lparr>cash := c\<rparr>)"
  by (auto simp: validBankruptcyPlayer_def isCash_def)

lemma requireBankruptcy_valid:
  assumes "requireBankruptcy s p now = Accepted t ev" "acting s p now"
  shows "isValidAggregate t"
proof -
  from assms(1) obtain turn where turn: "createClockedGameplayTurn AwaitingBankruptcy (seatIndex p) now = Some turn"
    and t: "t = InProgress (s\<lparr>gs_stateVersion := gs_stateVersion s + 1, as_turn := turn,
            as_bankruptcyRequiredSeatIndex := Some (seatIndex p)\<rparr>)"
    by (auto simp: requireBankruptcy_def split: option.splits)
  show ?thesis unfolding t isValidAggregate.simps
    by (rule pending_bankruptcy_valid [OF assms(2) turn acting_assets(5) [OF assms(2)]]) simp
qed

text \<open>A buyer becomes the owner of an unowned ownable square.\<close>

lemma buy_assets:
  assumes a: "isValidBankruptcyState ps props stock bank"
    and p: "seat_at ps seat = Some p" "status p = Active" "isCash money"
    and q: "js_index props pos = Some q" "ownerSeatIndex q = None"
    and d: "js_index BOARD_SPACES pos = Some d" "isOwnableSpace d"
  shows "isValidBankruptcyState (update_seat seat (\<lambda>x. x\<lparr>cash := money\<rparr>) ps)
    (update_property pos (\<lambda>c. c\<lparr>ownerSeatIndex := Some seat\<rparr>) props) stock bank"
proof -
  let ?f = "\<lambda>c. c\<lparr>ownerSeatIndex := Some seat\<rparr>"
  from a have parts: "length ps = 4" "isValidBuildingInventory props stock" "owners_active props ps"
      and props: "isValidPropertyStates props"
    by (auto simp: isValidBankruptcyState_iff validInventory_iff)
  from p(1) parts(1) have seat: "0 \<le> seat" "seat < 4" by (auto dest: seat_at_range)
  have vq: "validPropertyAt pos (?f q)"
    using valid_properties_index(1) [OF props q(1)] d seat by (auto simp: validPropertyAt_iff)
  have "isValidBuildingInventory (update_property pos ?f props) stock"
    using parts(2) stock_nonneg [OF parts(2)] by (intro rewrite_street_inventory [where f = ?f, OF parts(2) q(1) vq]) auto
  moreover have "owners_active (update_property pos ?f props) ps"
    using parts(3) p(1,2) by (auto simp: owners_active_def update_property_def split: if_splits)
  ultimately have "isValidBankruptcyState ps (update_property pos ?f props) stock bank"
    using a by (simp add: isValidBankruptcyState_iff)
  then show ?thesis
    by (rule assets_update_seat) (use p in \<open>auto intro: cash_update_valid\<close>)
qed

lemma decideProperty_valid:
  assumes acc: "decideProperty s p now pos buys = Accepted t ev" and act: "acting s p now"
  shows "isValidAggregate t"
proof -
  note assets = acting_assets [OF act]
  from act have p: "seat_at (gs_players s) (seatIndex p) = Some p" "status p = Active" by (auto simp: acting_def)
  from acc obtain d q turn cost where d: "js_index BOARD_SPACES pos = Some d" "isOwnableSpace d"
    and q: "js_index (gs_properties s) pos = Some q" "ownerSeatIndex q = None"
    and turn: "phaseAfterResolvedAction s now = Some turn" and cost: "matchCash (price d) = Inr cost"
    by (auto simp: decideProperty_def split: if_splits option.splits sum.splits)
  note rt = resolvedAction_Some [OF turn act]
  show ?thesis
  proof (cases buys)
    case False
    with acc d q turn cost have t: "t = InProgress (s\<lparr>gs_stateVersion := gs_stateVersion s + 1, as_turn := turn\<rparr>)"
      by (auto simp: decideProperty_def split: if_splits)
    show ?thesis unfolding t isValidAggregate.simps
      by (rule quiet_turn_valid [OF act rt, where q = p and ps = "gs_players s" and props = "gs_properties s"
            and h = "gs_housesRemaining s" and k = "gs_hotelsRemaining s" and cp = "gs_rng s"])
        (use assets p in \<open>simp_all add: gs_inventory_def\<close>)
  next
    case True
    with acc d q turn cost obtain money where money: "checkedSubtractMatchCash (cash p) cost = Some money"
      and t: "t = InProgress (s\<lparr>gs_stateVersion := gs_stateVersion s + 1,
         gs_players := update_seat (seatIndex p) (\<lambda>player. player\<lparr>cash := money\<rparr>) (gs_players s),
         gs_properties := update_property pos (\<lambda>c. c\<lparr>ownerSeatIndex := Some (seatIndex p)\<rparr>) (gs_properties s),
         as_turn := turn\<rparr>)"
      by (auto simp: decideProperty_def split: if_splits option.splits)
    have "0 \<le> cost" using cost by (auto simp: matchCash_def split: if_splits)
    then have "isCash money" using checkedSubtract_isCash [OF money assets(4)] by simp
    note bought = buy_assets [OF assets(1) p this q d]
    show ?thesis unfolding t isValidAggregate.simps
      by (rule quiet_turn_valid [OF act rt, where q = "p\<lparr>cash := money\<rparr>"
            and ps = "update_seat (seatIndex p) (\<lambda>player. player\<lparr>cash := money\<rparr>) (gs_players s)"
            and props = "update_property pos (\<lambda>c. c\<lparr>ownerSeatIndex := Some (seatIndex p)\<rparr>) (gs_properties s)"
            and h = "gs_housesRemaining s" and k = "gs_hotelsRemaining s" and cp = "gs_rng s"])
        (use assets p bought in \<open>simp_all add: gs_inventory_def\<close>)
  qed
qed

lemma transferRent_eq:
  assumes "a \<noteq> b"
  shows "transferRent ps a x b y = update_seat b (\<lambda>p. p\<lparr>cash := y\<rparr>) (update_seat a (\<lambda>p. p\<lparr>cash := x\<rparr>) ps)"
  by (rule nth_equalityI)
    (use assms in \<open>auto simp: transferRent_def nth_update_seat split: option.split\<close>)

lemma rentOwner_Some:
  assumes "rentOwner s pos = Some ow" "validStateFrame s"
  shows "seat_at (gs_players s) (seatIndex ow) = Some ow" "status ow = Active"
    "\<exists>q. js_index (gs_properties s) pos = Some q \<and> ownerSeatIndex q = Some (seatIndex ow)"
    "validBankruptcyPlayer (seatIndex ow) ow"
proof -
  from assms(1) obtain q k where q: "js_index (gs_properties s) pos = Some q" "ownerSeatIndex q = Some k"
      "seat_at (gs_players s) k = Some ow" "status ow = Active"
    by (auto simp: rentOwner_def split: option.splits if_splits)
  from valid_frame_parts(7) [OF assms(2)] q(3) have "validBankruptcyPlayer k ow" by (auto simp: slots_satisfy_def)
  moreover from this have "seatIndex ow = k" by (simp add: validBankruptcyPlayer_def)
  ultimately show "seat_at (gs_players s) (seatIndex ow) = Some ow" "status ow = Active"
    "\<exists>q. js_index (gs_properties s) pos = Some q \<and> ownerSeatIndex q = Some (seatIndex ow)"
    "validBankruptcyPlayer (seatIndex ow) ow"
    using q by auto
qed

text \<open>Everything about an accepted rent payment that is not a bankruptcy.\<close>

lemma payGameplayRent_cases:
  assumes acc: "payGameplayRent s p now pos = Accepted t ev" and act: "acting s p now"
  obtains (bankrupt) "requireBankruptcy s p now = Accepted t ev"
  | (paid) ow amount turn where "rentOwner s pos = Some ow" "seatIndex ow \<noteq> seatIndex p"
      "seat_at (gs_players s) (seatIndex ow) = Some ow" "status ow = Active"
      "validBankruptcyPlayer (seatIndex ow) ow" "0 \<le> amount" "amount \<le> cash p"
      "cash ow + amount \<le> MAX_MATCH_CASH"
      "phaseAfterResolvedAction s now = Some turn"
      "t = InProgress (s\<lparr>gs_stateVersion := gs_stateVersion s + 1,
         gs_players := update_seat (seatIndex ow) (\<lambda>x. x\<lparr>cash := cash ow + amount\<rparr>)
           (update_seat (seatIndex p) (\<lambda>x. x\<lparr>cash := cash p - amount\<rparr>) (gs_players s)),
         as_turn := turn\<rparr>)"
      "ev = [RentPaid (playerId p) (playerId ow) pos amount]"
proof -
  from act have valid: "isValidActiveGameplayAggregateState s" and seat: "seatIndex p = currentSeatIndex (as_turn s)"
      "seat_at (gs_players s) (seatIndex p) = Some p"
    by (auto simp: acting_def commandGuard_None)
  then have frame: "validStateFrame s" by (simp add: isValidActive_iff)
  from acc obtain ow amount roll turn where ph: "phase (as_turn s) = AwaitingRentPayment pos"
    and roll: "gs_lastDice s = Some roll" and ow: "rentOwner s pos = Some ow"
    and rent: "calculateRent (gs_properties s) pos (total roll) = Inr (Some amount)"
    and turn: "phaseAfterResolvedAction s now = Some turn"
    by (auto simp: payGameplayRent_def split: if_splits option.splits sum.splits)
  note oo = rentOwner_Some [OF ow frame]
  from valid seat ph oo(3) have ne: "seatIndex ow \<noteq> seatIndex p"
    by (auto simp: isValidActive_iff validPhase_def validPendingProperty_def split: option.splits)
  have "0 \<le> amount"
    using rent calculateRent_cases [of "gs_properties s" pos "total roll"] by (metis sum.inject(2) option.inject option.distinct(1))
  show thesis
  proof (cases "amount \<le> cash p")
    case False
    with acc ph roll ow rent turn show thesis
      by (intro bankrupt) (simp add: payGameplayRent_def checkedSubtractMatchCash_def)
  next
    case True
    with acc ph roll ow rent turn ne show thesis
      by (intro paid [OF ow ne oo(1,2,4) \<open>0 \<le> amount\<close> True _ turn])
        (auto simp: payGameplayRent_def checkedSubtractMatchCash_def checkedAddMatchCash_def Let_def
          transferRent_eq split: if_splits)
  qed
qed

lemma payGameplayRent_valid:
  assumes acc: "payGameplayRent s p now pos = Accepted t ev" and act: "acting s p now"
  shows "isValidAggregate t"
  using assms
proof (cases rule: payGameplayRent_cases)
  case bankrupt
  then show ?thesis using act by (rule requireBankruptcy_valid)
next
  case (paid ow amount turn)
  let ?ps = "update_seat (seatIndex ow) (\<lambda>x. x\<lparr>cash := cash ow + amount\<rparr>)
           (update_seat (seatIndex p) (\<lambda>x. x\<lparr>cash := cash p - amount\<rparr>) (gs_players s))"
  from act have p: "seat_at (gs_players s) (seatIndex p) = Some p" "status p = Active"
      "validBankruptcyPlayer (seatIndex p) p"
    by (auto simp: acting_def)
  note assets = acting_assets [OF act]
  note rt = resolvedAction_Some [OF paid(9) act]
  have "isValidBankruptcyState (update_seat (seatIndex p) (\<lambda>x. x\<lparr>cash := cash p - amount\<rparr>) (gs_players s))
      (gs_properties s) (gs_inventory s) (gs_bankCash s)"
    using assets(1) by (rule assets_update_seat)
      (use p paid assets(4) in \<open>auto intro!: cash_update_valid simp: isCash_def\<close>)
  then have "isValidBankruptcyState ?ps (gs_properties s) (gs_inventory s) (gs_bankCash s)"
    by (rule assets_update_seat)
      (use paid in \<open>auto intro!: cash_update_valid simp: isCash_def validBankruptcyPlayer_def\<close>)
  with assets p paid(2) show ?thesis unfolding paid(10) isValidAggregate.simps
    by (intro quiet_turn_valid [OF act rt, where q = "p\<lparr>cash := cash p - amount\<rparr>"
          and ps = ?ps and props = "gs_properties s"
          and h = "gs_housesRemaining s" and k = "gs_hotelsRemaining s" and cp = "gs_rng s"])
      (simp_all add: gs_inventory_def)
qed

lemma payGameplayTax_cases:
  assumes "payGameplayTax s p now kind = Accepted t ev"
  obtains (bankrupt) "requireBankruptcy s p now = Accepted t ev" "kind = Mev"
  | (paid) turn where "taxAmount kind \<le> cash p" "phaseAfterResolvedAction s now = Some turn"
      "t = InProgress (s\<lparr>gs_stateVersion := gs_stateVersion s + 1,
         gs_players := update_seat (seatIndex p) (\<lambda>x. x\<lparr>cash := cash p - taxAmount kind\<rparr>) (gs_players s),
         as_turn := turn\<rparr>)"
      "ev = [TaxPaid (playerId p) (taxPosition kind) kind (taxAmount kind)]"
proof -
  have amount: "matchCash (taxAmount kind) = Inr (taxAmount kind)"
    by (cases kind) (simp_all add: taxAmount_def policy_simps matchCash_small)
  show thesis
  proof (cases "taxAmount kind \<le> cash p")
    case True
    with assms amount obtain turn where "phaseAfterResolvedAction s now = Some turn"
      "t = InProgress (s\<lparr>gs_stateVersion := gs_stateVersion s + 1,
         gs_players := update_seat (seatIndex p) (\<lambda>x. x\<lparr>cash := cash p - taxAmount kind\<rparr>) (gs_players s),
         as_turn := turn\<rparr>)"
      "ev = [TaxPaid (playerId p) (taxPosition kind) kind (taxAmount kind)]"
      by (auto simp: payGameplayTax_def checkedSubtractMatchCash_def split: if_splits option.splits)
    with True show thesis by (rule paid)
  next
    case False
    with assms amount have "requireBankruptcy s p now = Accepted t ev" "kind \<noteq> PriorityFee"
      by (auto simp: payGameplayTax_def checkedSubtractMatchCash_def split: if_splits)
    then show thesis by (cases kind) (auto intro: bankrupt)
  qed
qed

lemma taxAmount_nonneg: "0 \<le> taxAmount kind"
  by (cases kind) (simp_all add: taxAmount_def policy_simps)

lemma payGameplayTax_valid:
  assumes acc: "payGameplayTax s p now kind = Accepted t ev" and act: "acting s p now"
  shows "isValidAggregate t"
  using acc
proof (cases rule: payGameplayTax_cases)
  case bankrupt
  then show ?thesis using act by (intro requireBankruptcy_valid)
next
  case (paid turn)
  let ?ps = "update_seat (seatIndex p) (\<lambda>x. x\<lparr>cash := cash p - taxAmount kind\<rparr>) (gs_players s)"
  from act have p: "seat_at (gs_players s) (seatIndex p) = Some p" "status p = Active"
      "validBankruptcyPlayer (seatIndex p) p"
    by (auto simp: acting_def)
  note assets = acting_assets [OF act]
  note rt = resolvedAction_Some [OF paid(2) act]
  have "isCash (cash p - taxAmount kind)"
    using assets(4) paid(1) taxAmount_nonneg [of kind] by (simp add: isCash_def)
  then have "isValidBankruptcyState ?ps (gs_properties s) (gs_inventory s) (gs_bankCash s)"
    using p by (intro assets_update_seat [OF assets(1)]) (auto intro!: cash_update_valid)
  with assets p show ?thesis unfolding paid(3) isValidAggregate.simps
    by (intro quiet_turn_valid [OF act rt, where q = "p\<lparr>cash := cash p - taxAmount kind\<rparr>"
          and ps = ?ps and props = "gs_properties s"
          and h = "gs_housesRemaining s" and k = "gs_hotelsRemaining s" and cp = "gs_rng s"])
      (simp_all add: gs_inventory_def)
qed

text \<open>Building through the interface the four rules share.\<close>

lemma buildingRule_operation: "building_operation (buildingRule command)"
proof (cases command)
  case (BuildCommand kind)
  then show ?thesis
    by (cases kind) (simp_all add: build_house.building_operation_axioms build_hotel.building_operation_axioms)
next
  case (SellCommand kind)
  then show ?thesis
    by (cases kind) (simp_all add: sell_house.building_operation_axioms sell_hotel.building_operation_axioms)
qed

interpretation building_command: building_operation "buildingRule command" for command
  by (rule buildingRule_operation)

lemma changeBuilding_Accepted:
  assumes "changeBuilding s p now pos command = Accepted t ev"
  obtains turn m q where "buildingPhase s now = Some turn"
    "buildingRule command (gs_properties s) (gs_inventory s) pos (seatIndex p) (cash p) = Done m"
    "js_index (bm_properties m) pos = Some q"
    "t = InProgress (s\<lparr>gs_stateVersion := gs_stateVersion s + 1,
       gs_players := update_seat (seatIndex p) (\<lambda>player. player\<lparr>cash := bm_cash m\<rparr>) (gs_players s),
       gs_properties := bm_properties m, gs_housesRemaining := housesRemaining (bm_inventory m),
       gs_hotelsRemaining := hotelsRemaining (bm_inventory m), as_turn := turn\<rparr>)"
    "ev = [case command of BuildCommand kind \<Rightarrow> BuildingBuilt (playerId p) pos kind (houses q) (bm_amount m)
           | SellCommand kind \<Rightarrow> BuildingSold (playerId p) pos kind (bm_amount m)]"
  using assms
  by (auto simp: changeBuilding_def Let_def split: option.splits sum.splits intro: that)

lemma inventory_eta [simp]:
  "\<lparr>housesRemaining = housesRemaining i, hotelsRemaining = hotelsRemaining i\<rparr> = (i :: building_inventory)"
  by simp

lemma owners_active_same:
  assumes "owners_active props ps"
    "\<And>i. map_option ownerSeatIndex (js_index props' i) = map_option ownerSeatIndex (js_index props i)"
  shows "owners_active props' ps"
  unfolding owners_active_def
proof (intro ballI allI impI)
  fix p s
  assume p: "p \<in> set props'" "ownerSeatIndex p = Some s"
  then obtain k where "js_index props' (int k) = Some p" by (metis in_set_conv_nth js_index_nat)
  with assms(2) [of "int k"] obtain q where "js_index props (int k) = Some q" "ownerSeatIndex q = Some s"
    using p(2) by (cases "js_index props (int k)") auto
  with assms(1) show "is_active (seat_at ps s)" by (auto simp: owners_active_def dest: js_index_in_set)
qed

lemma changeBuilding_valid:
  assumes acc: "changeBuilding s p now pos command = Accepted t ev" and act: "acting s p now"
  shows "isValidAggregate t"
  using acc
proof (rule changeBuilding_Accepted)
  fix turn m q
  assume turn: "buildingPhase s now = Some turn"
    and m: "buildingRule command (gs_properties s) (gs_inventory s) pos (seatIndex p) (cash p) = Done m"
    and t: "t = InProgress (s\<lparr>gs_stateVersion := gs_stateVersion s + 1,
       gs_players := update_seat (seatIndex p) (\<lambda>player. player\<lparr>cash := bm_cash m\<rparr>) (gs_players s),
       gs_properties := bm_properties m, gs_housesRemaining := housesRemaining (bm_inventory m),
       gs_hotelsRemaining := hotelsRemaining (bm_inventory m), as_turn := turn\<rparr>)"
  from act have p: "seat_at (gs_players s) (seatIndex p) = Some p" "status p = Active"
      "validBankruptcyPlayer (seatIndex p) p"
    by (auto simp: acting_def)
  note assets = acting_assets [OF act]
  note rt = buildingPhase_Some [OF turn act]
  have "owners_active (bm_properties m) (gs_players s)"
  proof (rule owners_active_same [of "gs_properties s"])
    show "owners_active (gs_properties s) (gs_players s)" using assets(1) by (simp add: isValidBankruptcyState_iff)
  qed (rule building_command.keeps_owners(1) [OF m])
  then have "isValidBankruptcyState (gs_players s) (bm_properties m) (bm_inventory m) (gs_bankCash s)"
    using assets(1) building_command.keeps_inventory [OF m] by (simp add: isValidBankruptcyState_iff)
  then have "isValidBankruptcyState (update_seat (seatIndex p) (\<lambda>player. player\<lparr>cash := bm_cash m\<rparr>) (gs_players s))
      (bm_properties m) (bm_inventory m) (gs_bankCash s)"
    using p building_command.keeps_cash [OF m assets(4)]
    by (intro assets_update_seat) (auto intro!: cash_update_valid)
  with assets p show ?thesis unfolding t isValidAggregate.simps
    by (intro quiet_turn_valid [OF act rt, where q = "p\<lparr>cash := bm_cash m\<rparr>" and cp = "gs_rng s"
          and h = "housesRemaining (bm_inventory m)" and k = "hotelsRemaining (bm_inventory m)"
          and props = "bm_properties m"]) simp_all
qed

text \<open>The handler as a whole.\<close>

lemma board_price_matchCash: "js_index BOARD_SPACES pos = Some d \<Longrightarrow> matchCash (price d) = Inr (price d)"
  using space_bounds(1,2) [of pos d] by (intro matchCash_small) auto

lemma property_parts:
  "requireBankruptcy s p now \<noteq> Threw e" "decideProperty s p now pos buys \<noteq> Threw e"
  "payGameplayRent s p now pos \<noteq> Threw e" "payGameplayTax s p now kind \<noteq> Threw e"
  "changeBuilding s p now pos command \<noteq> Threw e"
proof -
  show r: "requireBankruptcy s p now \<noteq> Threw e" by (auto simp: requireBankruptcy_def split: option.split)
  show "decideProperty s p now pos buys \<noteq> Threw e"
    by (auto simp: decideProperty_def board_price_matchCash split: option.split)
  have "\<exists>x. calculateRent (gs_properties s) pos k = Inr x" for k
    by (metis calculateRent_cases)
  then show "payGameplayRent s p now pos \<noteq> Threw e"
    using r by (auto simp: payGameplayRent_def split: option.split sum.split) (metis Inl_Inr_False)+
  have "matchCash (taxAmount kind) = Inr (taxAmount kind)"
    by (cases kind) (simp_all add: taxAmount_def policy_simps matchCash_small)
  then show "payGameplayTax s p now kind \<noteq> Threw e"
    using r by (auto simp: payGameplayTax_def split: option.split)
  show "changeBuilding s p now pos command \<noteq> Threw e"
    using building_command.never_throws
    by (auto simp: changeBuilding_def Let_def split: option.split sum.split)
qed

lemma property_parts_rejected:
  "requireBankruptcy s p now = Rejected t err \<Longrightarrow> t = InProgress s"
  "decideProperty s p now pos buys = Rejected t err \<Longrightarrow> t = InProgress s"
  "payGameplayRent s p now pos = Rejected t err \<Longrightarrow> t = InProgress s"
  "payGameplayTax s p now kind = Rejected t err \<Longrightarrow> t = InProgress s"
  "changeBuilding s p now pos command = Rejected t err \<Longrightarrow> t = InProgress s"
  by (auto simp: decideProperty_def payGameplayRent_def payGameplayTax_def changeBuilding_def Let_def
      requireBankruptcy_def split: option.splits sum.splits if_splits)

lemma property_parts_version:
  "requireBankruptcy s p now = Accepted t ev \<Longrightarrow> aggregate_version t = gs_stateVersion s + 1"
  "decideProperty s p now pos buys = Accepted t ev \<Longrightarrow> aggregate_version t = gs_stateVersion s + 1"
  "payGameplayRent s p now pos = Accepted t ev \<Longrightarrow> aggregate_version t = gs_stateVersion s + 1"
  "payGameplayTax s p now kind = Accepted t ev \<Longrightarrow> aggregate_version t = gs_stateVersion s + 1"
  "changeBuilding s p now pos command = Accepted t ev \<Longrightarrow> aggregate_version t = gs_stateVersion s + 1"
  by (auto simp: decideProperty_def payGameplayRent_def payGameplayTax_def changeBuilding_def Let_def
      requireBankruptcy_def split: option.splits sum.splits if_splits)

lemma transitionGameplayProperty_Accepted:
  assumes "transitionGameplayProperty s c expected ctx = Accepted t ev"
  obtains p where "commandGuard s True expected (nowMs ctx) = None" "activeGameplayPlayer s = Some p"
    "isCurrentActor (actor ctx) p" "acting s p (nowMs ctx)"
    "(\<exists>pos buys. decideProperty s p (nowMs ctx) pos buys = Accepted t ev) \<or>
     (\<exists>pos. payGameplayRent s p (nowMs ctx) pos = Accepted t ev) \<or>
     (\<exists>kind. payGameplayTax s p (nowMs ctx) kind = Accepted t ev) \<or>
     (\<exists>pos command. changeBuilding s p (nowMs ctx) pos command = Accepted t ev)"
proof -
  from assms obtain p where g: "commandGuard s (validPropertyCommand c) expected (nowMs ctx) = None"
    and p: "activeGameplayPlayer s = Some p" and none: "as_bankruptcyRequiredSeatIndex s = None"
    and act: "isCurrentActor (actor ctx) p"
    by (auto simp: transitionGameplayProperty_def split: option.splits if_splits)
  from g have g': "commandGuard s True expected (nowMs ctx) = None" by (simp add: commandGuard_None)
  have "acting s p (nowMs ctx)" using actingI [OF g' p] none by simp
  moreover have "(\<exists>pos buys. decideProperty s p (nowMs ctx) pos buys = Accepted t ev) \<or>
     (\<exists>pos. payGameplayRent s p (nowMs ctx) pos = Accepted t ev) \<or>
     (\<exists>kind. payGameplayTax s p (nowMs ctx) kind = Accepted t ev) \<or>
     (\<exists>pos command. changeBuilding s p (nowMs ctx) pos command = Accepted t ev)"
    using assms g p none act by (cases c) (auto simp: transitionGameplayProperty_def)
  ultimately show thesis using that g' p act by blast
qed

interpretation property_handler:
  sound_handler "\<lambda>s. transitionGameplayProperty s c expected ctx" expected "nowMs ctx"
  for c expected ctx
proof (unfold_locales, goal_cases)
  case (1 s e)
  then show ?case
    by (auto simp: transitionGameplayProperty_def property_parts split: option.splits property_command.splits)
next
  case (2 s t err)
  then show ?case
    by (auto simp: transitionGameplayProperty_def dest: property_parts_rejected
        split: option.splits property_command.splits if_splits)
next
  case (3 s t ev)
  then show ?case by (rule transitionGameplayProperty_Accepted)
next
  case (4 s t ev)
  then show ?case by (rule transitionGameplayProperty_Accepted) (auto dest: property_parts_version)
next
  case (5 s t ev)
  then show ?case
    by (rule transitionGameplayProperty_Accepted)
      (auto intro: decideProperty_valid payGameplayRent_valid payGameplayTax_valid changeBuilding_valid)
qed

section \<open>Money in a property command\<close>

lemma requireBankruptcy_money:
  "requireBankruptcy s p now = Accepted t ev \<Longrightarrow> aggregate_money t = moneySupply s + expectedCashDelta s ev"
  by (auto simp: requireBankruptcy_def moneySupply_def expectedCashDelta_def split: option.splits)

lemma acting_seat: "acting s p now \<Longrightarrow> seat_at (gs_players s) (seatIndex p) = Some p"
  unfolding acting_def by blast

lemma decideProperty_money:
  assumes "decideProperty s p now pos buys = Accepted t ev" "acting s p now"
  shows "aggregate_money t = moneySupply s + expectedCashDelta s ev"
  using assms(1) acting_seat [OF assms(2)]
  by (auto simp: decideProperty_def moneySupply_def expectedCashDelta_def totalCash_update_seat
      checkedSubtract_Some_iff matchCash_def split: if_splits option.splits)

lemma payGameplayRent_money:
  assumes "payGameplayRent s p now pos = Accepted t ev" "acting s p now"
  shows "aggregate_money t = moneySupply s + expectedCashDelta s ev"
  using assms
proof (cases rule: payGameplayRent_cases)
  case bankrupt
  then show ?thesis by (rule requireBankruptcy_money)
next
  case (paid ow amount turn)
  with acting_seat [OF assms(2)] show ?thesis
    by (simp add: moneySupply_def expectedCashDelta_def totalCash_update_seat)
qed

lemma payGameplayTax_money:
  assumes "payGameplayTax s p now kind = Accepted t ev" "acting s p now"
  shows "aggregate_money t = moneySupply s + expectedCashDelta s ev"
  using assms(1)
proof (cases rule: payGameplayTax_cases)
  case bankrupt
  then show ?thesis by (intro requireBankruptcy_money)
next
  case (paid turn)
  with acting_seat [OF assms(2)] show ?thesis
    by (simp add: moneySupply_def expectedCashDelta_def totalCash_update_seat)
qed

lemma buildingRule_cash:
  assumes "buildingRule command ps stock pos owner money = Done m"
  shows "bm_cash m = money + (case command of BuildCommand _ \<Rightarrow> - bm_amount m | SellCommand _ \<Rightarrow> bm_amount m)"
proof (cases command)
  case (BuildCommand kind)
  with assms show ?thesis by (cases kind) (auto elim: buildHouse_Done buildHotel_Done)
next
  case (SellCommand kind)
  with assms show ?thesis by (cases kind) (auto elim: sellHouse_Done sellHotel_Done)
qed

lemma changeBuilding_money:
  assumes "changeBuilding s p now pos command = Accepted t ev" "acting s p now"
  shows "aggregate_money t = moneySupply s + expectedCashDelta s ev"
  using assms(1)
  by (rule changeBuilding_Accepted)
    (use acting_seat [OF assms(2)] in \<open>auto simp: moneySupply_def expectedCashDelta_def totalCash_update_seat
      dest!: buildingRule_cash split: building_command.split\<close>)

lemma transitionGameplayProperty_money:
  assumes "transitionGameplayProperty s c expected ctx = Accepted t ev"
  shows "aggregate_money t = moneySupply s + expectedCashDelta s ev"
  using assms
  by (rule transitionGameplayProperty_Accepted)
    (auto intro: decideProperty_money payGameplayRent_money payGameplayTax_money changeBuilding_money)

end
