(* ===== verification/Gameplay_Card.thy ===== *)
theory Gameplay_Card
  imports Gameplay_Property
begin

text \<open>
  \<open>rules/gameplay-card-transition.ts\<close>: drawing the pending card from a fork of the persisted random
  state and applying it.
\<close>

definition CARD_COUNT :: nat where
  "CARD_COUNT = 5"

definition MAXIMUM_CARD_DRAWS :: nat where
  "MAXIMUM_CARD_DRAWS = 32"

fun commandDeck :: "card_command \<Rightarrow> card_deck" where
  "commandDeck DrawChanceCard = Chance"
| "commandDeck DrawCommunityChestCard = CommunityChest"
| "commandDeck (ResolveRandomCard deck) = deck"

text \<open>The rejection loop: the attempts left and the number of the current attempt; the answer is the
  card and the bytes consumed.\<close>

fun drawCardLoop :: "'r random_source \<Rightarrow> nat \<Rightarrow> int \<Rightarrow> 'r \<Rightarrow> (int \<times> int) option \<times> 'r" where
  "drawCardLoop source 0 attempt cursor = (None, cursor)"
| "drawCardLoop source (Suc left) attempt cursor =
     (case rs_nextBytes source cursor 1 of
        (Inl _, cursor') \<Rightarrow> (None, cursor')
      | (Inr [byte], cursor') \<Rightarrow>
          if unat byte < 255 then (Some (int (unat byte mod CARD_COUNT) + 1, attempt), cursor')
          else drawCardLoop source left (attempt + 1) cursor'
      | (Inr _, cursor') \<Rightarrow> (None, cursor'))"

definition drawCardId :: "'r random_source \<Rightarrow> 'r \<Rightarrow> (int \<times> int) option \<times> 'r" where
  "drawCardId source cursor = drawCardLoop source MAXIMUM_CARD_DRAWS 1 cursor"

definition drawGameplayCard ::
  "'r random_source \<Rightarrow> 'r \<Rightarrow> random_checkpoint \<Rightarrow> (int \<times> random_checkpoint) option" where
  "drawGameplayCard source cursor checkpoint =
     (case forkGameplayRandomSource source cursor checkpoint of
        None \<Rightarrow> None
      | Some fresh \<Rightarrow> (case drawCardId source fresh of
          (None, _) \<Rightarrow> None
        | (Some (cid, consumed), used) \<Rightarrow> (case readRandomCheckpoint source used of
            None \<Rightarrow> None
          | Some next \<Rightarrow>
              if \<not> isAdvancedGameplayCheckpoint checkpoint next consumed \<or> \<not> canResume source used next
              then None else Some (cid, next))))"

definition continuationTurn :: "active_state \<Rightarrow> int \<Rightarrow> int \<Rightarrow> bool \<Rightarrow> active_turn option" where
  "continuationTurn state pos now moved =
     (let rolledDoubles = (case gs_lastDice state of None \<Rightarrow> False | Some roll \<Rightarrow> isDoubles roll) in
      if moved then createGameplayLandingTurn state pos (currentSeatIndex (as_turn state)) now rolledDoubles
      else createClockedGameplayTurn (if rolledDoubles then AwaitingRoll else AwaitingEndTurn)
             (currentSeatIndex (as_turn state)) now)"

text \<open>\<open>{...player, ...resolution.state}\<close>: the three fields of \<open>CardPlayerState\<close>.\<close>

definition mergeCardState :: "gameplay_player \<Rightarrow> card_player \<Rightarrow> gameplay_player" where
  "mergeCardState player drawn =
     player\<lparr>cash := cp_cash drawn, position := cp_position drawn,
            getOutOfJailCards := cp_getOutOfJailCards drawn\<rparr>"

definition cardMovedEvents :: "gameplay_player \<Rightarrow> movement_result option \<Rightarrow> gameplay_event list" where
  "cardMovedEvents current movement =
     (case movement of
        None \<Rightarrow> []
      | Some m \<Rightarrow> [PlayerMoved (playerId current) (mv_from m) (mv_to m) (mv_passedGo m) (salaryOf m)])"

definition applyDrawnCard ::
  "active_state \<Rightarrow> gameplay_player \<Rightarrow> int \<Rightarrow> random_checkpoint \<Rightarrow> card_resolution \<Rightarrow> gameplay_result" where
  "applyDrawnCard state current now checkpoint resolution =
     (let players = update_seat (seatIndex current)
            (\<lambda>player. mergeCardState player (cr_state resolution)) (gs_players state);
          cardEvent = CardDrawn (playerId current) (cr_deck resolution) (cardId (cr_card resolution))
            (cardEffect (cr_card resolution)) in
      if cr_bankruptcyRequired resolution then
        (case createClockedGameplayTurn AwaitingBankruptcy (seatIndex current) now of
           None \<Rightarrow> reject (InProgress state) INVALID_STATE
         | Some turn \<Rightarrow>
             Accepted (InProgress (state\<lparr>gs_stateVersion := gs_stateVersion state + 1, gs_players := players,
               as_turn := turn, as_bankruptcyRequiredSeatIndex := Some (seatIndex current),
               gs_rng := checkpoint\<rparr>)) [cardEvent])
      else
        (case continuationTurn state (cp_position (cr_state resolution)) now (cr_movement resolution \<noteq> None) of
           None \<Rightarrow> reject (InProgress state) INVALID_STATE
         | Some turn \<Rightarrow>
             Accepted (InProgress (state\<lparr>gs_stateVersion := gs_stateVersion state + 1, gs_players := players,
               as_turn := turn, gs_rng := checkpoint\<rparr>))
               (cardEvent # cardMovedEvents current (cr_movement resolution))))"

definition cardActorAuthorized :: "card_command \<Rightarrow> gameplay_actor \<Rightarrow> gameplay_player \<Rightarrow> bool" where
  "cardActorAuthorized command who current =
     (case command of ResolveRandomCard _ \<Rightarrow> who = InternalActor | _ \<Rightarrow> isCurrentActor who current)"

definition transitionGameplayCard ::
  "active_state \<Rightarrow> card_command \<Rightarrow> int \<Rightarrow> 'r gameplay_context \<Rightarrow> gameplay_result" where
  "transitionGameplayCard state command expected ctx =
     (case commandGuard state True expected (nowMs ctx) of
        Some err \<Rightarrow> Rejected (InProgress state) err
      | None \<Rightarrow> (case activeGameplayPlayer state of
          None \<Rightarrow> reject (InProgress state) INVALID_STATE
        | Some current \<Rightarrow>
            if \<not> cardActorAuthorized command (actor ctx) current
            then reject (InProgress state) UNAUTHORIZED_ACTOR
            else if phase (as_turn state) \<noteq> AwaitingCardDraw (commandDeck command)
            then reject (InProgress state) INVALID_PHASE
            else (case drawGameplayCard (randomSource ctx) (randomCursor ctx) (gs_rng state) of
              None \<Rightarrow> reject (InProgress state) INVALID_STATE
            | Some (cid, checkpoint) \<Rightarrow>
                (case resolveCard (commandDeck command) cid (card_player_of current)
                        (joinedPlayerCount (gs_players state)) of
                   Inl e \<Rightarrow> Threw e
                 | Inr (Inl _) \<Rightarrow> reject (InProgress state) INVALID_STATE
                 | Inr (Inr resolution) \<Rightarrow> applyDrawnCard state current (nowMs ctx) checkpoint resolution))))"

section \<open>The card handler keeps its contract\<close>

lemma drawCardLoop_range:
  "drawCardLoop source n k c = (Some (cid, used), c') \<Longrightarrow> 1 \<le> cid \<and> cid \<le> 5 \<and> k \<le> used \<and> used < k + int n"
proof (induction n arbitrary: k c)
  case 0
  then show ?case by simp
next
  case (Suc n)
  have "int (j mod 5) \<le> 4" for j :: nat using mod_less_divisor [of 5 j] by linarith
  with Suc show ?case
    by (auto simp: CARD_COUNT_def split: prod.splits sum.splits list.splits if_splits) (fastforce dest: Suc.IH)+
qed

lemma drawGameplayCard_Some:
  assumes "drawGameplayCard source cursor cp = Some (cid, next)"
  shows "validCheckpoint next" "1 \<le> cid" "cid \<le> 5"
  using assms
  by (auto simp: drawGameplayCard_def readRandomCheckpoint_def drawCardId_def
      split: option.splits prod.splits sum.splits if_splits dest: drawCardLoop_range)

lemma mergeCardState_valid:
  assumes "validBankruptcyPlayer i p" "status p = Active" "\<not> inJail p" "validCardState c"
  shows "validBankruptcyPlayer i (mergeCardState p c)"
  using assms by (auto simp: validBankruptcyPlayer_def mergeCardState_def validCardState_def policy_simps)

text \<open>A jailed player stands on the jail square, which holds no card.\<close>

lemma card_phase_not_jailed:
  assumes "validPhase s p" "phase (as_turn s) = AwaitingCardDraw deck" "validBankruptcyPlayer i p"
  shows "\<not> inJail p"
proof
  assume "inJail p"
  with assms(3) have pos: "position p = 10" by (simp add: validBankruptcyPlayer_def policy_simps)
  have "map_option propertyType (js_index BOARD_SPACES 10) = Some Corner"
    by (simp add: js_index_def BOARD_SPACES_def board_space_def)
  with pos assms(1,2) show False by (auto simp: validPhase_def split: card_deck.splits)
qed

lemma continuation_Some:
  assumes "continuationTurn s pos now moved = Some t" "0 \<le> currentSeatIndex (as_turn s)"
    "currentSeatIndex (as_turn s) < 4"
  shows "clock_ok t" "turnStartedAtMs t = now" "currentSeatIndex t = currentSeatIndex (as_turn s)"
    "phase t \<noteq> AwaitingBankruptcy"
proof -
  let ?d = "case gs_lastDice s of None \<Rightarrow> False | Some roll \<Rightarrow> isDoubles roll"
  consider (moved) "createGameplayLandingTurn s pos (currentSeatIndex (as_turn s)) now ?d = Some t"
    | (stays) "createClockedGameplayTurn (if ?d then AwaitingRoll else AwaitingEndTurn)
        (currentSeatIndex (as_turn s)) now = Some t"
    using assms(1) by (auto simp: continuationTurn_def Let_def split: if_splits)
  then have "clock_ok t \<and> turnStartedAtMs t = now \<and> currentSeatIndex t = currentSeatIndex (as_turn s) \<and>
      phase t \<noteq> AwaitingBankruptcy"
  proof cases
    case moved
    from landing_Some [OF this assms(2,3)] show ?thesis by simp
  next
    case stays
    from createClocked_Some [OF this] assms(2,3) show ?thesis by simp
  qed
  then show "clock_ok t" "turnStartedAtMs t = now" "currentSeatIndex t = currentSeatIndex (as_turn s)"
    "phase t \<noteq> AwaitingBankruptcy" by auto
qed

lemma continuation_phase:
  assumes "continuationTurn s pos now moved = Some (as_turn s')"
    "gs_properties s' = gs_properties s" "isValidPropertyStates (gs_properties s)"
    "position p = pos" "seatIndex p = currentSeatIndex (as_turn s)"
  shows "validPhase s' p"
proof (cases moved)
  case True
  then show ?thesis
    using assms by (intro landing_phase [OF _ assms(2-4)]) (auto simp: continuationTurn_def Let_def)
next
  case False
  with assms(1) show ?thesis
    by (auto simp: continuationTurn_def Let_def validPhase_def dest!: createClocked_Some(1) split: if_splits option.splits)
qed

lemma applyDrawnCard_valid:
  assumes acc: "applyDrawnCard s p now cp r = Accepted t ev" and act: "acting s p now"
    and cp: "validCheckpoint cp" and free: "\<not> inJail p" and card: "validCardState (cr_state r)"
    and dice: "gs_lastDice s \<noteq> None"
  shows "isValidAggregate t"
  using act
proof (rule acting_facts)
  fix ok expected
  assume guard: "commandGuard s ok expected now = None"
    and p: "seat_at (gs_players s) (seatIndex p) = Some p" "seatIndex p = currentSeatIndex (as_turn s)"
      "validBankruptcyPlayer (seatIndex p) p" "status p = Active" "0 \<le> seatIndex p" "seatIndex p < 4"
      and none: "as_bankruptcyRequiredSeatIndex s = None"
  note g = guard_facts [OF guard]
  let ?f = "\<lambda>q. mergeCardState q (cr_state r)"
  have v: "validBankruptcyPlayer (seatIndex p) (?f p)" "status (?f p) = status p"
    using mergeCardState_valid [OF p(3,4) free card] by (simp_all add: mergeCardState_def)
  have ids: "\<And>q. seatIndex (?f q) = seatIndex q \<and> playerId (?f q) = playerId q \<and> joinedAtMs (?f q) = joinedAtMs q"
    by (simp add: mergeCardState_def)
  show ?thesis
  proof (cases "cr_bankruptcyRequired r")
    case True
    with acc obtain turn where turn: "createClockedGameplayTurn AwaitingBankruptcy (seatIndex p) now = Some turn"
      and t: "t = InProgress (s\<lparr>gs_stateVersion := gs_stateVersion s + 1,
         gs_players := update_seat (seatIndex p) ?f (gs_players s), as_turn := turn,
         as_bankruptcyRequiredSeatIndex := Some (seatIndex p), gs_rng := cp\<rparr>)"
      by (auto simp: applyDrawnCard_def Let_def split: option.splits)
    show ?thesis unfolding t isValidAggregate.simps
      by (rule bankruptcy_turn_valid [where f = ?f, OF guard turn p(1) v ids p(4) _ cp g(2)]) simp
  next
    case False
    with acc obtain turn where turn: "continuationTurn s (cp_position (cr_state r)) now (cr_movement r \<noteq> None) = Some turn"
      and t: "t = InProgress (s\<lparr>gs_stateVersion := gs_stateVersion s + 1,
         gs_players := update_seat (seatIndex p) ?f (gs_players s), as_turn := turn, gs_rng := cp\<rparr>)"
      by (auto simp: applyDrawnCard_def Let_def split: option.splits)
    let ?s' = "s\<lparr>gs_stateVersion := gs_stateVersion s + 1,
         gs_players := update_seat (seatIndex p) ?f (gs_players s), as_turn := turn, gs_rng := cp\<rparr>"
    have l: "clock_ok turn" "turnStartedAtMs turn = now" "currentSeatIndex turn = currentSeatIndex (as_turn s)"
      "phase turn \<noteq> AwaitingBankruptcy"
      using continuation_Some [OF turn] p(2,5,6) by auto
    have props: "isValidPropertyStates (gs_properties s)" using valid_frame_parts(2) [OF g(1)] .
    show ?thesis unfolding t isValidAggregate.simps
    proof (rule seat_turn_valid [where f = ?f and q = "?f p" and b = None, OF guard p(1) v ids _ cp l(1,2) g(2)])
      show "validPhase ?s' (?f p)"
        by (rule continuation_phase [OF _ _ props, of "cp_position (cr_state r)" now "cr_movement r \<noteq> None"])
          (use turn p(2) in \<open>simp_all add: mergeCardState_def\<close>)
    qed (use p v l none dice in \<open>simp_all add: validBankruptcyPending_def\<close>)
  qed
qed

lemma transitionGameplayCard_Accepted:
  assumes "transitionGameplayCard s c expected ctx = Accepted t ev"
  obtains p cid cp r where "commandGuard s True expected (nowMs ctx) = None" "activeGameplayPlayer s = Some p"
    "cardActorAuthorized c (actor ctx) p" "acting s p (nowMs ctx)" "phase (as_turn s) = AwaitingCardDraw (commandDeck c)"
    "drawGameplayCard (randomSource ctx) (randomCursor ctx) (gs_rng s) = Some (cid, cp)"
    "resolveCard (commandDeck c) cid (card_player_of p) (joinedPlayerCount (gs_players s)) = Done r"
    "applyDrawnCard s p (nowMs ctx) cp r = Accepted t ev"
proof -
  from assms obtain p cid cp r where x: "commandGuard s True expected (nowMs ctx) = None" "activeGameplayPlayer s = Some p"
    "cardActorAuthorized c (actor ctx) p" "phase (as_turn s) = AwaitingCardDraw (commandDeck c)"
    "drawGameplayCard (randomSource ctx) (randomCursor ctx) (gs_rng s) = Some (cid, cp)"
    "resolveCard (commandDeck c) cid (card_player_of p) (joinedPlayerCount (gs_players s)) = Done r"
    "applyDrawnCard s p (nowMs ctx) cp r = Accepted t ev"
    by (auto simp: transitionGameplayCard_def split: option.splits if_splits sum.splits)
  with actingI [OF x(1,2)] that show thesis by simp
qed

interpretation card_handler:
  sound_handler "\<lambda>s. transitionGameplayCard s c expected ctx" expected "nowMs ctx"
  for c expected ctx
proof (unfold_locales, goal_cases)
  case (1 s e)
  then show ?case
    by (auto simp: transitionGameplayCard_def applyDrawnCard_def Let_def resolveCard_never_throws
        split: option.splits sum.splits)
next
  case (2 s t err)
  then show ?case
    by (auto simp: transitionGameplayCard_def applyDrawnCard_def Let_def split: option.splits sum.splits if_splits)
next
  case (3 s t ev)
  then show ?case by (rule transitionGameplayCard_Accepted)
next
  case (4 s t ev)
  then show ?case
    by (rule transitionGameplayCard_Accepted) (auto simp: applyDrawnCard_def Let_def split: option.splits if_splits)
next
  case (5 s t ev)
  then show ?case
  proof (rule transitionGameplayCard_Accepted)
    fix p cid cp r
    assume h: "commandGuard s True expected (nowMs ctx) = None" "activeGameplayPlayer s = Some p"
      "acting s p (nowMs ctx)" "phase (as_turn s) = AwaitingCardDraw (commandDeck c)"
      "drawGameplayCard (randomSource ctx) (randomCursor ctx) (gs_rng s) = Some (cid, cp)"
      "resolveCard (commandDeck c) cid (card_player_of p) (joinedPlayerCount (gs_players s)) = Done r"
      "applyDrawnCard s p (nowMs ctx) cp r = Accepted t ev"
    note valid = guard_facts(10) [OF h(1)]
    from valid h(2) have "validPhase s p" "validBankruptcyPlayer (currentSeatIndex (as_turn s)) p"
      by (auto elim!: valid_activeGameplayPlayer)
    then have "\<not> inJail p" using card_phase_not_jailed h(4) by blast
    moreover have "gs_lastDice s \<noteq> None" using valid h(4) by (auto simp: isValidActive_iff)
    ultimately show ?thesis
      using applyDrawnCard_valid [OF h(7,3)] drawGameplayCard_Some(1) [OF h(5)] resolveCard_Done(2) [OF h(6)] by blast
  qed
qed

section \<open>Money in a card command\<close>

lemma resolveCard_deck: "resolveCard deck k c n = Done r \<Longrightarrow> cr_deck r = deck"
  by (auto simp: resolveCard_def split: if_splits option.splits sum.splits)

lemma cardMovedEvents_delta: "sum_list (map eventDelta (cardMovedEvents p m)) = 0"
  by (simp add: cardMovedEvents_def split: option.split)

lemma transitionGameplayCard_money:
  assumes "transitionGameplayCard s c expected ctx = Accepted t ev"
  shows "aggregate_money t = moneySupply s + expectedCashDelta s ev"
  using assms
proof (rule transitionGameplayCard_Accepted)
  fix p cid cp r
  assume h: "commandGuard s True expected (nowMs ctx) = None" "acting s p (nowMs ctx)"
    "resolveCard (commandDeck c) cid (card_player_of p) (joinedPlayerCount (gs_players s)) = Done r"
    "applyDrawnCard s p (nowMs ctx) cp r = Accepted t ev"
  note seat = acting_seat [OF h(2)]
  have pid: "gameplayPlayerById s (playerId p) = Some p"
    using gameplayPlayerById_unique [OF seat guard_facts(1) [OF h(1)]] .
  from h(4) obtain rest where ev: "ev = CardDrawn (playerId p) (commandDeck c) cid (cardEffect (cr_card r)) # rest"
    and rest: "sum_list (map eventDelta rest) = 0"
    using resolveCard_deck [OF h(3)] resolveCard_Done(6) [OF h(3)]
    by (auto simp: applyDrawnCard_def Let_def cardMovedEvents_delta split: option.splits if_splits)
  then have "expectedCashDelta s ev = cr_cashDelta r"
    using pid h(3) by (simp add: expectedCashDelta_def)
  moreover have "aggregate_money t = moneySupply s + (cp_cash (cr_state r) - cash p)"
    using h(4) seat
    by (auto simp: applyDrawnCard_def Let_def moneySupply_def totalCash_update_seat mergeCardState_def
        split: option.splits if_splits)
  moreover have "cp_cash (cr_state r) = cash p + cr_cashDelta r"
    using resolveCard_Done(3) [OF h(3)] by (simp add: card_player_of_def)
  ultimately show ?thesis by simp
qed

end
