(* ===== verification/Gameplay_Jail.thy ===== *)
theory Gameplay_Jail
  imports Gameplay_Property
begin

text \<open>
  \<open>rules/gameplay-jail-transition.ts\<close>: paying the fine or using a card instead of rolling; either
  way the turn passes on.
\<close>

definition jailRule :: "jail_command \<Rightarrow> gameplay_player \<Rightarrow> jail_error_code + gameplay_player jail_action" where
  "jailRule command = (case command of PayJailFine \<Rightarrow> payJailFine | UseJailCard \<Rightarrow> useJailCard)"

definition leaveJail :: "active_state \<Rightarrow> gameplay_player \<Rightarrow> int \<Rightarrow> gameplay_player jail_action \<Rightarrow> gameplay_result" where
  "leaveJail state current now result =
     (case ja_releaseMethod result of
        None \<Rightarrow> reject (InProgress state) INVALID_STATE
      | Some method \<Rightarrow>
          if ja_outcome result \<noteq> Released then reject (InProgress state) INVALID_STATE
          else (case advanceGameplayTurn state now of
            None \<Rightarrow> reject (InProgress state) INVALID_STATE
          | Some (turn, _) \<Rightarrow>
              Accepted (InProgress (state\<lparr>gs_stateVersion := gs_stateVersion state + 1,
                  gs_players := update_seat (seatIndex current)
                    (\<lambda>player. (mergeJailState player (ja_state result))\<lparr>consecutiveDoubles := 0\<rparr>)
                    (gs_players state),
                  as_turn := turn, as_bankruptcyRequiredSeatIndex := None, gs_lastDice := None\<rparr>))
                [JailExited (playerId current) method]))"

definition transitionGameplayJail ::
  "active_state \<Rightarrow> jail_command \<Rightarrow> int \<Rightarrow> 'r gameplay_context \<Rightarrow> gameplay_result" where
  "transitionGameplayJail state command expected ctx =
     (case commandGuard state True expected (nowMs ctx) of
        Some err \<Rightarrow> Rejected (InProgress state) err
      | None \<Rightarrow> (case activeGameplayPlayer state of
          None \<Rightarrow> reject (InProgress state) INVALID_STATE
        | Some current \<Rightarrow>
            if \<not> isCurrentActor (actor ctx) current then reject (InProgress state) UNAUTHORIZED_ACTOR
            else if phase (as_turn state) \<noteq> AwaitingRoll \<or> \<not> inJail current
            then reject (InProgress state) INVALID_PHASE
            else (case jailRule command current of
              Inl _ \<Rightarrow> reject (InProgress state) INVALID_PHASE
            | Inr result \<Rightarrow>
                if ja_outcome result = JailBankruptcyRequired then
                  (case createClockedGameplayTurn AwaitingBankruptcy (seatIndex current) (nowMs ctx) of
                     None \<Rightarrow> reject (InProgress state) INVALID_STATE
                   | Some turn \<Rightarrow>
                       Accepted (InProgress (state\<lparr>gs_stateVersion := gs_stateVersion state + 1,
                         as_turn := turn, as_bankruptcyRequiredSeatIndex := Some (seatIndex current),
                         gs_lastDice := None\<rparr>)) [])
                else leaveJail state current (nowMs ctx) result)))"

section \<open>The jail handler keeps its contract\<close>

interpretation jail_rule: jail_action "jailRule command" for command
  by (cases command)
    (simp_all only: jailRule_def jail_command.case jail_fine.jail_action_axioms jail_card.jail_action_axioms)

lemma payJailFine_money:
  assumes "payJailFine p = Inr a" "ja_outcome a \<noteq> JailBankruptcyRequired"
  shows "ja_releaseMethod a = Some ByFine" "cash (ja_state a) = cash p - jailFine"
  using assms by (auto simp: payJailFine_def checkedSubtractMatchCash_def split: if_splits)

lemma useJailCard_money:
  assumes "useJailCard p = Inr a"
  shows "ja_releaseMethod a = Some ByCard" "cash (ja_state a) = cash p"
  using assms by (auto simp: useJailCard_def split: if_splits)

lemma jailRule_money:
  assumes "jailRule command p = Inr a" "ja_outcome a \<noteq> JailBankruptcyRequired"
  obtains m where "ja_releaseMethod a = Some m" "cash (ja_state a) = cash p + (if m = ByFine then - jailFine else 0)"
proof (cases command)
  case PayJailFine
  with assms(1) have "payJailFine p = Inr a" by (simp add: jailRule_def)
  from payJailFine_money [OF this assms(2)] show thesis by (intro that) auto
next
  case UseJailCard
  with assms(1) have "useJailCard p = Inr a" by (simp add: jailRule_def)
  from useJailCard_money [OF this] show thesis by (intro that) auto
qed

lemma transitionGameplayJail_cases:
  assumes "transitionGameplayJail s c expected ctx = Accepted t ev"
  obtains (insolvent) p turn where "commandGuard s True expected (nowMs ctx) = None" "activeGameplayPlayer s = Some p"
      "isCurrentActor (actor ctx) p" "acting s p (nowMs ctx)" "inJail p"
      "createClockedGameplayTurn AwaitingBankruptcy (seatIndex p) (nowMs ctx) = Some turn"
      "t = InProgress (s\<lparr>gs_stateVersion := gs_stateVersion s + 1, as_turn := turn,
         as_bankruptcyRequiredSeatIndex := Some (seatIndex p), gs_lastDice := None\<rparr>)" "ev = []"
  | (released) p a m turn n where "commandGuard s True expected (nowMs ctx) = None" "activeGameplayPlayer s = Some p"
      "isCurrentActor (actor ctx) p" "acting s p (nowMs ctx)" "inJail p"
      "jailRule c p = Inr a" "ja_outcome a = Released" "ja_releaseMethod a = Some m"
      "cash (ja_state a) = cash p + (if m = ByFine then - jailFine else 0)"
      "advanceGameplayTurn s (nowMs ctx) = Some (turn, n)"
      "t = InProgress (s\<lparr>gs_stateVersion := gs_stateVersion s + 1,
         gs_players := update_seat (seatIndex p)
           (\<lambda>q. (mergeJailState q (ja_state a))\<lparr>consecutiveDoubles := 0\<rparr>) (gs_players s),
         as_turn := turn, as_bankruptcyRequiredSeatIndex := None, gs_lastDice := None\<rparr>)"
      "ev = [JailExited (playerId p) m]"
proof -
  from assms obtain p a where g: "commandGuard s True expected (nowMs ctx) = None"
    and p: "activeGameplayPlayer s = Some p" "isCurrentActor (actor ctx) p" "inJail p"
      "phase (as_turn s) = AwaitingRoll" and a: "jailRule c p = Inr a"
    by (auto simp: transitionGameplayJail_def split: option.splits if_splits sum.splits)
  have act: "acting s p (nowMs ctx)" using actingI [OF g p(1)] p(4) by simp
  show thesis
  proof (cases "ja_outcome a = JailBankruptcyRequired")
    case True
    with assms g p a act show thesis
      by (auto simp: transitionGameplayJail_def split: option.splits intro: insolvent)
  next
    case False
    with assms g p a have l: "leaveJail s p (nowMs ctx) a = Accepted t ev"
      by (simp add: transitionGameplayJail_def)
    obtain m where m: "ja_releaseMethod a = Some m"
      "cash (ja_state a) = cash p + (if m = ByFine then - jailFine else 0)"
      using jailRule_money [OF a False] .
    from l m obtain turn n where "ja_outcome a = Released" "advanceGameplayTurn s (nowMs ctx) = Some (turn, n)"
      "t = InProgress (s\<lparr>gs_stateVersion := gs_stateVersion s + 1,
         gs_players := update_seat (seatIndex p)
           (\<lambda>q. (mergeJailState q (ja_state a))\<lparr>consecutiveDoubles := 0\<rparr>) (gs_players s),
         as_turn := turn, as_bankruptcyRequiredSeatIndex := None, gs_lastDice := None\<rparr>)"
      "ev = [JailExited (playerId p) m]"
      by (auto simp: leaveJail_def split: if_splits option.splits)
    with g p act a m show thesis by (intro released)
  qed
qed

lemma transitionGameplayJail_valid:
  assumes "transitionGameplayJail s c expected ctx = Accepted t ev"
  shows "isValidAggregate t"
  using assms
proof (cases rule: transitionGameplayJail_cases)
  case (insolvent p turn)
  show ?thesis unfolding insolvent(7) isValidAggregate.simps
    by (rule pending_bankruptcy_valid [where d = None, OF insolvent(4,6)]) (simp_all add: dice_ok_def)
next
  case (released p a m turn n)
  let ?f = "\<lambda>q. (mergeJailState q (ja_state a))\<lparr>consecutiveDoubles := 0\<rparr>"
  from released(4) have p: "seat_at (gs_players s) (seatIndex p) = Some p" "status p = Active"
      "validBankruptcyPlayer (seatIndex p) p" "seatIndex p = currentSeatIndex (as_turn s)"
    unfolding acting_def by blast+
  have frame: "jail_frame p (ja_state a)" using jail_rule.keeps_frame [OF released(6)] .
  have fp: "?f p = (ja_state a)\<lparr>consecutiveDoubles := 0\<rparr>" using mergeJailState_frame [OF frame] by simp
  have v: "validBankruptcyPlayer (seatIndex p) (?f p)" "status (?f p) = status p"
    using jail_rule.keeps_valid [OF released(6)] frame p(2,3) unfolding fp
    by (auto simp: validBankruptcyPlayer_def validJailState_def jail_frame_def)
  show ?thesis unfolding released(11) isValidAggregate.simps
    by (rule advance_turn_valid [where f = ?f and d = None and cp = "gs_rng s",
          OF released(1,10) p(1) v _ p(4)])
      (use acting_assets(3) [OF released(4)] in \<open>auto simp: mergeJailState_def dice_ok_def\<close>)
qed

interpretation jail_handler:
  sound_handler "\<lambda>s. transitionGameplayJail s c expected ctx" expected "nowMs ctx"
  for c expected ctx
proof (unfold_locales, goal_cases)
  case (1 s e)
  then show ?case
    by (auto simp: transitionGameplayJail_def leaveJail_def split: option.splits sum.splits)
next
  case (2 s t err)
  then show ?case
    by (auto simp: transitionGameplayJail_def leaveJail_def split: option.splits sum.splits if_splits)
next
  case (3 s t ev)
  then show ?case by (auto elim: transitionGameplayJail_cases)
next
  case (4 s t ev)
  then show ?case by (auto elim: transitionGameplayJail_cases)
next
  case (5 s t ev)
  then show ?case by (rule transitionGameplayJail_valid)
qed

lemma transitionGameplayJail_money:
  assumes "transitionGameplayJail s c expected ctx = Accepted t ev"
  shows "aggregate_money t = moneySupply s + expectedCashDelta s ev"
  using assms
proof (cases rule: transitionGameplayJail_cases)
  case (insolvent p turn)
  then show ?thesis by (simp add: moneySupply_def expectedCashDelta_def)
next
  case (released p a m turn n)
  from acting_seat [OF released(4)] released(9,11,12) show ?thesis
    by (simp add: moneySupply_def expectedCashDelta_def totalCash_update_seat mergeJailState_def)
qed

end
