(* ===== verification/Gameplay_Bankruptcy.thy ===== *)
theory Gameplay_Bankruptcy
  imports Gameplay_Card Gameplay_Jail
begin

text \<open>
  \<open>rules/gameplay-bankruptcy-transition.ts\<close>: a pending bankruptcy liquidates the current player and
  either hands the turn on or finishes the game. The merge of resolved players and the finished state
  are spelled twice in the source, here and in \<open>gameplay-timeout-transition.ts\<close>; they are defined once.
\<close>

section \<open>Operations\<close>

text \<open>\<open>{...original, ...resolved}\<close> is \<open>resolved\<close>, which has every field; a slot that is occupied on
  one side only answers \<open>null\<close>.\<close>

definition mergePlayers ::
  "gameplay_player option list \<Rightarrow> gameplay_player option list \<Rightarrow> gameplay_player option list option" where
  "mergePlayers original resolved =
     (if every_index (\<lambda>index slot. case slot of
            None \<Rightarrow> js_index original index = Some None
          | Some _ \<Rightarrow> seat_at original index \<noteq> None) resolved
      then Some resolved else None)"

definition finishState ::
  "active_state \<Rightarrow> gameplay_player option list \<Rightarrow> property_state list \<Rightarrow> int \<Rightarrow> building_inventory \<Rightarrow>
   terminal_outcome \<Rightarrow> finished_state" where
  "finishState state players properties bankCash inventory terminal =
     \<lparr>gs_schemaVersion = gs_schemaVersion state, gs_stateVersion = gs_stateVersion state + 1,
      gs_gameId = gs_gameId state, gs_rulesetId = gs_rulesetId state, gs_players = players,
      gs_properties = properties, gs_bankCash = bankCash, gs_freeParkingPool = gs_freeParkingPool state,
      gs_housesRemaining = housesRemaining inventory, gs_hotelsRemaining = hotelsRemaining inventory,
      gs_startedAtMs = gs_startedAtMs state, gs_gameEndAtMs = gs_gameEndAtMs state,
      gs_activeTrades = [], gs_lastDice = None, gs_rng = gs_rng state, fs_terminal = terminal\<rparr>"

text \<open>The ranking of a \<open>gameEnded\<close> event: every entry with its player's identifier.\<close>

definition rankedPlayer ::
  "gameplay_player option list \<Rightarrow> terminal_ranking_entry \<Rightarrow> ranked_player option" where
  "rankedPlayer players entry =
     map_option (\<lambda>player. \<lparr>re_rank = re_rank entry, re_seatIndex = re_seatIndex entry,
                           re_netWorth = re_netWorth entry, rp_playerId = playerId player\<rparr>)
       (seat_at players (re_seatIndex entry))"

definition terminalEvents ::
  "active_state \<Rightarrow> gameplay_player option list \<Rightarrow> terminal_outcome \<Rightarrow> gameplay_event list option" where
  "terminalEvents state players terminal =
     (case seat_at players (to_winnerSeatIndex terminal) of
        None \<Rightarrow> None
      | Some winner \<Rightarrow>
          if status winner \<noteq> Active then None
          else (case those (map (rankedPlayer players) (to_ranking terminal)) of
            None \<Rightarrow> None
          | Some ranking \<Rightarrow>
              Some [GameEnded (to_reason terminal) (playerId winner) ranking,
                    SettlementEntitled (playerId winner) (to_reason terminal) (gs_gameId state)]))"

text \<open>The trades a leaving player was party to are dropped.\<close>

definition tradesWithout :: "int \<Rightarrow> pending_trade list \<Rightarrow> pending_trade list" where
  "tradesWithout seat trades =
     filter (\<lambda>trade. proposerSeatIndex trade \<noteq> seat \<and> receiverSeatIndex trade \<noteq> seat) trades"

definition finishBankruptcy ::
  "active_state \<Rightarrow> gameplay_player \<Rightarrow> int \<Rightarrow> gameplay_player option list \<Rightarrow>
   gameplay_player bankruptcy_resolution \<Rightarrow> gameplay_result" where
  "finishBankruptcy state current now players resolution =
     (let bankruptcyEvent = PlayerBankrupt (playerId current) None (br_liquidationValue resolution)
            (br_cashTransferred resolution) in
      if \<not> br_endConditionMet resolution then
        (case advanceGameplayTurn state now of
           None \<Rightarrow> reject (InProgress state) INVALID_STATE
         | Some (turn, _) \<Rightarrow>
             Accepted (InProgress (state\<lparr>gs_stateVersion := gs_stateVersion state + 1, gs_players := players,
                 gs_properties := br_properties resolution, gs_bankCash := br_bankCash resolution,
                 gs_housesRemaining := housesRemaining (br_inventory resolution),
                 gs_hotelsRemaining := hotelsRemaining (br_inventory resolution),
                 as_turn := turn, as_bankruptcyRequiredSeatIndex := None,
                 gs_activeTrades := tradesWithout (seatIndex current) (gs_activeTrades state),
                 gs_lastDice := None\<rparr>)) [bankruptcyEvent])
      else (case deriveBankruptcyTerminalOutcome resolution now of
        Inl e \<Rightarrow> Threw e
      | Inr (Inl _) \<Rightarrow> reject (InProgress state) INVALID_STATE
      | Inr (Inr terminal) \<Rightarrow> (case terminalEvents state players (terminal\<lparr>to_reason := LastPlayerStanding\<rparr>) of
          None \<Rightarrow> reject (InProgress state) INVALID_STATE
        | Some endingEvents \<Rightarrow>
            Accepted (Finished (finishState state players (br_properties resolution) (br_bankCash resolution)
                (br_inventory resolution) terminal)) (bankruptcyEvent # endingEvents))))"

definition transitionGameplayBankruptcy ::
  "active_state \<Rightarrow> int \<Rightarrow> 'r gameplay_context \<Rightarrow> gameplay_result" where
  "transitionGameplayBankruptcy state expected context =
     (case commandGuard state True expected (nowMs context) of
        Some err \<Rightarrow> Rejected (InProgress state) err
      | None \<Rightarrow> (case activeGameplayPlayer state of
          None \<Rightarrow> reject (InProgress state) INVALID_STATE
        | Some current \<Rightarrow>
            if \<not> isCurrentActor (actor context) current then reject (InProgress state) UNAUTHORIZED_ACTOR
            else if phase (as_turn state) \<noteq> AwaitingBankruptcy \<or>
                    as_bankruptcyRequiredSeatIndex state \<noteq> Some (seatIndex current)
            then reject (InProgress state) INVALID_PHASE
            else (case resolveBankruptcy (gs_players state) (gs_properties state) (gs_inventory state)
                         (gs_bankCash state) (seatIndex current) of
              Inl e \<Rightarrow> Threw e
            | Inr (Inl _) \<Rightarrow> reject (InProgress state) INVALID_STATE
            | Inr (Inr resolution) \<Rightarrow> (case mergePlayers (gs_players state) (br_players resolution) of
                None \<Rightarrow> reject (InProgress state) INVALID_STATE
              | Some players \<Rightarrow> finishBankruptcy state current (nowMs context) players resolution))))"

section \<open>A finished game is valid\<close>

lemma mergePlayers_Some: "mergePlayers original resolved = Some players \<Longrightarrow> players = resolved"
  by (simp add: mergePlayers_def split: if_splits)

lemma expectedEntry_ranked:
  "list_all2 (\<lambda>p r. calculatePlayerNetWorth p ps = Inr (Some (rankedNetWorth r)) \<and> rankedSeat r = seatIndex p)
     players rs \<Longrightarrow> map (expectedEntry ps) players = map Some rs"
proof (induction players rs rule: list_all2_induct)
  case (Cons p players r rs)
  then show ?case by (cases r) (simp add: expectedEntry_def)
qed simp

lemma map_filter_Some: "map f xs = map Some ys \<Longrightarrow> List.map_filter f xs = ys"
  by (induction xs arbitrary: ys) (auto simp: map_filter_simps)

lemma js_index_hd: "xs \<noteq> [] \<Longrightarrow> js_index xs 0 = Some (hd xs)"
  by (cases xs) (simp_all add: js_index_def)

text \<open>The obligations of a branch that ends the game: an outcome derived over valid assets.\<close>

lemma finish_valid:
  assumes guard: "commandGuard s ok expected now = None"
    and assets: "isValidBankruptcyState players properties stock bank"
    and ids: "identity_view players = identity_view (gs_players s)"
    and derived: "deriveRankedTerminalOutcome players properties reason now = Done terminal"
    and limit: "reason = TimeLimit \<Longrightarrow> \<exists>e. gs_gameEndAtMs s = Some e \<and> e \<le> now"
  shows "isValidFinishedGameplayAggregateState (finishState s players properties bank stock terminal)"
    (is "isValidFinishedGameplayAggregateState ?f")
proof -
  note g = guard_facts [OF guard]
  have version: "gs_stateVersion s < MAX_STATE_VERSION" using guard by (simp add: commandGuard_None)
  have stock: "gs_inventory ?f = stock" by (cases stock) (simp add: gs_inventory_def finishState_def)
  have frame: "validStateFrame ?f"
    by (rule validStateFrame_update [OF g(1) version])
      (use valid_frame_parts [OF g(1)] assets ids stock in \<open>simp_all add: finishState_def gs_inventory_def\<close>)
  from derived obtain rs where rs: "rankPlayers properties (activePlayers players) = Done rs" "rs \<noteq> []"
      and t: "to_ranking terminal = rankingEntries (sort rs)" "to_winnerSeatIndex terminal = rankedSeat (hd (sort rs))"
        "to_settlementWinnerSeatIndex terminal = to_winnerSeatIndex terminal" "to_reason terminal = reason"
        "to_endedAtMs terminal = now"
      and n: "reason \<noteq> TimeLimit \<longrightarrow> length (activePlayers players) = 1" "activePlayers players \<noteq> []"
    by (rule deriveRanked_Done) blast
  note ranked = rankPlayers_Done [OF rs(1)]
  note entries = expectedEntry_ranked [OF ranked]
  have sorted_ne: "sort rs \<noteq> []" using rs(2) by (metis length_0_conv length_sort)
  have hd_mem: "hd (sort rs) \<in> set rs" using hd_in_set [OF sorted_ne] by simp
  then obtain k where k: "k < length rs" "rs ! k = hd (sort rs)" by (auto simp: in_set_conv_nth)
  define w where "w = activePlayers players ! k"
  have w: "w \<in> set (activePlayers players)" "seatIndex w = rankedSeat (hd (sort rs))"
    using ranked k unfolding w_def by (auto simp: list_all2_conv_all_nth)
  then obtain i where i: "seat_at players i = Some w" by (auto simp: activePlayers_seats)
  from assets i have "0 \<le> seatIndex w" "seatIndex w < 4"
    by (auto simp: isValidBankruptcyState_iff slots_satisfy_def validBankruptcyPlayer_def dest: seat_at_range)
  then have shape: "validTerminalShape ?f terminal"
    using g(4,6) t w(2) limit by (auto simp: validTerminalShape_def finishState_def policy_simps)
  have "list_all2 (\<lambda>p r. expectedEntry properties p = Some r) (activePlayers players) rs"
    using entries by (simp add: list_all2_map1 [symmetric] list_all2_map2 list.rel_eq [symmetric] list.rel_map)
  then have no_fail: "\<not> list_ex (\<lambda>p. expectedEntry properties p = None) (activePlayers players)"
    by (auto simp: list_ex_iff in_set_conv_nth list_all2_conv_all_nth)
  have len: "length (to_ranking terminal) = length (activePlayers players)"
    using t(1) list_all2_lengthD [OF ranked] by simp
  show ?thesis
    unfolding isValidFinishedGameplayAggregateState_def
    using frame shape no_fail len n t(1,2,4) map_filter_Some [OF entries] sorted_ne
    by (cases reason) (auto simp: finishState_def Let_def js_index_hd hd_map)
qed

section \<open>The handler\<close>

lemma eliminate_view [simp]:
  "identity_view (update_seat seat eliminatePlayer ps) = identity_view ps"
  by (simp add: eliminatePlayer_def)

lemma deriveBankruptcy_Done:
  assumes "deriveBankruptcyTerminalOutcome r now = Done terminal"
  shows "deriveRankedTerminalOutcome (br_players r) (br_properties r) LastPlayerStanding now = Done terminal"
  using assms by (auto simp: deriveBankruptcyTerminalOutcome_def split: if_splits list.splits)

lemma deriveBankruptcy_never_throws: "deriveBankruptcyTerminalOutcome r now \<noteq> Inl e"
  by (auto simp: deriveBankruptcyTerminalOutcome_def deriveRanked_never_throws split: list.splits)

lemma terminalEvents_Some:
  assumes "terminalEvents s players terminal = Some ev"
  obtains w ranking where "seat_at players (to_winnerSeatIndex terminal) = Some w" "status w = Active"
    "those (map (rankedPlayer players) (to_ranking terminal)) = Some ranking"
    "ev = [GameEnded (to_reason terminal) (playerId w) ranking,
           SettlementEntitled (playerId w) (to_reason terminal) (gs_gameId s)]"
  using assms by (auto simp: terminalEvents_def split: option.splits if_splits)

lemma transitionGameplayBankruptcy_cases:
  assumes "transitionGameplayBankruptcy s expected ctx = Accepted t ev"
  obtains (advanced) p r turn n where "commandGuard s True expected (nowMs ctx) = None" "activeGameplayPlayer s = Some p"
      "isCurrentActor (actor ctx) p" "as_bankruptcyRequiredSeatIndex s = Some (seatIndex p)"
      "resolveBankruptcy (gs_players s) (gs_properties s) (gs_inventory s) (gs_bankCash s) (seatIndex p) = Done r"
      "\<not> br_endConditionMet r" "advanceGameplayTurn s (nowMs ctx) = Some (turn, n)"
      "t = InProgress (s\<lparr>gs_stateVersion := gs_stateVersion s + 1, gs_players := br_players r,
         gs_properties := br_properties r, gs_bankCash := br_bankCash r,
         gs_housesRemaining := housesRemaining (br_inventory r),
         gs_hotelsRemaining := hotelsRemaining (br_inventory r),
         as_turn := turn, as_bankruptcyRequiredSeatIndex := None,
         gs_activeTrades := tradesWithout (seatIndex p) (gs_activeTrades s), gs_lastDice := None\<rparr>)"
      "ev = [PlayerBankrupt (playerId p) None (br_liquidationValue r) (br_cashTransferred r)]"
  | (ended) p r terminal endingEvents where "commandGuard s True expected (nowMs ctx) = None" "activeGameplayPlayer s = Some p"
      "isCurrentActor (actor ctx) p" "as_bankruptcyRequiredSeatIndex s = Some (seatIndex p)"
      "resolveBankruptcy (gs_players s) (gs_properties s) (gs_inventory s) (gs_bankCash s) (seatIndex p) = Done r"
      "br_endConditionMet r" "deriveBankruptcyTerminalOutcome r (nowMs ctx) = Done terminal"
      "terminalEvents s (br_players r) (terminal\<lparr>to_reason := LastPlayerStanding\<rparr>) = Some endingEvents"
      "t = Finished (finishState s (br_players r) (br_properties r) (br_bankCash r) (br_inventory r) terminal)"
      "ev = PlayerBankrupt (playerId p) None (br_liquidationValue r) (br_cashTransferred r) # endingEvents"
proof -
  from assms obtain p r where g: "commandGuard s True expected (nowMs ctx) = None"
    and p: "activeGameplayPlayer s = Some p" "isCurrentActor (actor ctx) p"
      "as_bankruptcyRequiredSeatIndex s = Some (seatIndex p)"
    and r: "resolveBankruptcy (gs_players s) (gs_properties s) (gs_inventory s) (gs_bankCash s) (seatIndex p) = Done r"
    and f: "finishBankruptcy s p (nowMs ctx) (br_players r) r = Accepted t ev"
    by (auto simp: transitionGameplayBankruptcy_def split: option.splits if_splits sum.splits
        dest!: mergePlayers_Some)
  show thesis
  proof (cases "br_endConditionMet r")
    case False
    with f obtain turn n where "advanceGameplayTurn s (nowMs ctx) = Some (turn, n)"
      by (auto simp: finishBankruptcy_def Let_def split: option.splits)
    with False f show thesis
      by (intro advanced [OF g p r False]) (auto simp: finishBankruptcy_def Let_def)
  next
    case True
    with f show thesis
      by (auto simp: finishBankruptcy_def Let_def split: option.splits sum.splits intro: ended [OF g p r])
  qed
qed

lemma liquidation_next_valid:
  assumes guard: "commandGuard s True expected now = None"
    and players: "identity_view ps = identity_view (gs_players s)"
    and r: "resolveBankruptcy ps (gs_properties s) (gs_inventory s) (gs_bankCash s) seat = Done r"
    and s': "s' = s\<lparr>gs_stateVersion := gs_stateVersion s + 1, gs_players := br_players r,
         gs_properties := br_properties r, gs_bankCash := br_bankCash r,
         gs_housesRemaining := housesRemaining (br_inventory r),
         gs_hotelsRemaining := hotelsRemaining (br_inventory r),
         as_turn := turn, as_bankruptcyRequiredSeatIndex := None,
         gs_activeTrades := tradesWithout seat (gs_activeTrades s), gs_lastDice := None\<rparr>"
    and turn: "clock_ok turn" "turnStartedAtMs turn = now" "phase turn = AwaitingRoll"
    and q: "seat_at (br_players r) (currentSeatIndex turn) = Some q" "status q = Active"
  shows "isValidActiveGameplayAggregateState s'"
proof -
  note g = guard_facts [OF guard]
  have ids: "identity_view (br_players r) = identity_view (gs_players s)"
    using r players by (auto elim!: resolveBankruptcy_Done)
  have trades: "list_all validPendingTrade (tradesWithout seat (gs_activeTrades s))"
    using g(3) by (auto simp: tradesWithout_def list_all_iff)
  show ?thesis
    by (rule next_active_valid [OF guard, where p = q])
      (use g resolveBankruptcy_valid [OF r] ids trades turn q in
        \<open>simp_all add: s' gs_inventory_def dice_ok_def validBankruptcyPending_def validPhase_def\<close>)
qed

lemma transitionGameplayBankruptcy_valid:
  assumes "transitionGameplayBankruptcy s expected ctx = Accepted t ev"
  shows "isValidAggregate t"
  using assms
proof (cases rule: transitionGameplayBankruptcy_cases)
  case (advanced p r turn n)
  note g = guard_facts [OF advanced(1)]
  obtain q where q: "seat_at (gs_players s) n = Some q" "status q = Active" "n \<noteq> currentSeatIndex (as_turn s)"
    and turn: "turn = \<lparr>currentSeatIndex = n, turnStartedAtMs = nowMs ctx,
        deadlineAtMs = nowMs ctx + turnTimeoutMs, emittedWarnings = [], phase = AwaitingRoll\<rparr>" "clock_ok turn"
    using advance_Some [OF advanced(7) g(7)] by metis
  have seat: "seatIndex p = currentSeatIndex (as_turn s)"
    using g(10) advanced(2) by (auto elim!: valid_activeGameplayPlayer)
  have "br_players r = update_seat (seatIndex p) eliminatePlayer (gs_players s)"
    using advanced(5) by (auto elim!: resolveBankruptcy_Done)
  then have "seat_at (br_players r) n = Some q" using q seat by simp
  then show ?thesis unfolding advanced(8) isValidAggregate.simps
    by (intro liquidation_next_valid [OF advanced(1) refl advanced(5) refl turn(2)]) (use turn q in simp_all)
next
  case (ended p r terminal endingEvents)
  have "identity_view (br_players r) = identity_view (gs_players s)"
    using ended(5) by (auto elim!: resolveBankruptcy_Done)
  then show ?thesis unfolding ended(9) isValidAggregate.simps
    by (intro finish_valid [OF ended(1) resolveBankruptcy_valid [OF ended(5)] _
          deriveBankruptcy_Done [OF ended(7)]]) simp_all
qed

interpretation bankruptcy_handler:
  sound_handler "\<lambda>s. transitionGameplayBankruptcy s expected ctx" expected "nowMs ctx"
  for expected ctx
proof (unfold_locales, goal_cases)
  case (1 s e)
  then show ?case
    by (auto simp: transitionGameplayBankruptcy_def finishBankruptcy_def Let_def resolveBankruptcy_never_throws
        deriveBankruptcy_never_throws split: option.splits sum.splits if_splits)
next
  case (2 s t err)
  then show ?case
    by (auto simp: transitionGameplayBankruptcy_def finishBankruptcy_def Let_def split: option.splits sum.splits if_splits)
next
  case (3 s t ev)
  then show ?case by (auto elim: transitionGameplayBankruptcy_cases)
next
  case (4 s t ev)
  then show ?case by (auto elim!: transitionGameplayBankruptcy_cases simp: finishState_def)
next
  case (5 s t ev)
  then show ?case by (rule transitionGameplayBankruptcy_valid)
qed

section \<open>Money\<close>

text \<open>A liquidation pays its value into the bank and moves the player's cash there.\<close>

lemma resolveBankruptcy_money:
  assumes "resolveBankruptcy ps props stock bank seat = Done r"
  shows "totalCash (br_players r) + br_bankCash r = totalCash ps + bank + br_liquidationValue r"
  using assms
  by (auto elim!: resolveBankruptcy_Done simp: totalCash_update_seat eliminatePlayer_def)

lemma ending_delta:
  assumes "terminalEvents s players terminal = Some ev"
  shows "drawnCard ev = None" "sum_list (map eventDelta ev) = 0" "sum_list (map salaryDelta ev) = 0"
  using assms by (auto elim!: terminalEvents_Some)

lemma transitionGameplayBankruptcy_money:
  assumes "transitionGameplayBankruptcy s expected ctx = Accepted t ev"
  shows "aggregate_money t = moneySupply s + expectedCashDelta s ev"
  using assms
proof (cases rule: transitionGameplayBankruptcy_cases)
  case (advanced p r turn n)
  with resolveBankruptcy_money [OF advanced(5)] show ?thesis by (simp add: moneySupply_def expectedCashDelta_def)
next
  case (ended p r terminal endingEvents)
  with resolveBankruptcy_money [OF ended(5)] ending_delta [OF ended(8)] show ?thesis
    by (simp add: moneySupply_def expectedCashDelta_def finishState_def)
qed

end
