(* ===== verification/Gameplay_Timeout.thy ===== *)
theory Gameplay_Timeout
  imports Gameplay_Bankruptcy
begin

text \<open>
  \<open>rules/gameplay-timeout-transition.ts\<close>: the internal commands of the clock. Warnings are recorded on
  the turn, a missed deadline costs a turn, a third one the game, and the game's own time limit ranks
  the players still active. \<open>mergePlayers\<close>, \<open>finishState\<close> and \<open>terminalEvents\<close> are those of the
  bankruptcy handler.
\<close>

section \<open>Operations\<close>

definition timeoutTurn :: "active_turn \<Rightarrow> turn_state" where
  "timeoutTurn turn =
     \<lparr>currentSeatIndex = currentSeatIndex turn, turnStartedAtMs = turnStartedAtMs turn,
      deadlineAtMs = deadlineAtMs turn, emittedWarnings = emittedWarnings turn\<rparr>"

text \<open>\<open>{phase, ...turn}\<close>: a timeout turn with a phase.\<close>

definition phasedTurn :: "turn_phase \<Rightarrow> turn_state \<Rightarrow> active_turn" where
  "phasedTurn ph turn =
     \<lparr>currentSeatIndex = currentSeatIndex turn, turnStartedAtMs = turnStartedAtMs turn,
      deadlineAtMs = deadlineAtMs turn, emittedWarnings = emittedWarnings turn, phase = ph\<rparr>"

definition enforceTimeLimit :: "active_state \<Rightarrow> int \<Rightarrow> gameplay_result" where
  "enforceTimeLimit state now =
     (case deriveTimeLimitTerminalOutcome (gs_players state) (gs_properties state) (gs_gameEndAtMs state) now of
        Inl e \<Rightarrow> Threw e
      | Inr (Inl code) \<Rightarrow>
          reject (InProgress state)
            (if code = TERMINAL_ARITHMETIC_OVERFLOW then ARITHMETIC_OVERFLOW else INVALID_COMMAND)
      | Inr (Inr terminal) \<Rightarrow> (case terminalEvents state (gs_players state) terminal of
          None \<Rightarrow> reject (InProgress state) INVALID_STATE
        | Some events \<Rightarrow>
            Accepted (Finished (finishState state (gs_players state) (gs_properties state)
              (gs_bankCash state) (gs_inventory state) terminal)) events))"

definition warnTurn :: "active_state \<Rightarrow> gameplay_player \<Rightarrow> int \<Rightarrow> int \<Rightarrow> gameplay_result" where
  "warnTurn state current seconds now =
     (case emitTimeoutWarning (timeoutTurn (as_turn state)) seconds now of
        Inl _ \<Rightarrow> reject (InProgress state) INVALID_COMMAND
      | Inr (turn, _) \<Rightarrow>
          Accepted (InProgress (state\<lparr>gs_stateVersion := gs_stateVersion state + 1,
              as_turn := phasedTurn (phase (as_turn state)) turn\<rparr>))
            [TimeoutWarning (playerId current) seconds])"

definition advanceTimedOut ::
  "active_state \<Rightarrow> gameplay_player \<Rightarrow> gameplay_player turn_advanced \<Rightarrow> gameplay_result" where
  "advanceTimedOut state current resolution =
     (case mergePlayers (gs_players state) (ta_players resolution) of
        None \<Rightarrow> reject (InProgress state) INVALID_STATE
      | Some players \<Rightarrow> (case seat_at players (currentSeatIndex (ta_turn resolution)) of
          None \<Rightarrow> reject (InProgress state) INVALID_STATE
        | Some next \<Rightarrow>
            Accepted (InProgress (state\<lparr>gs_stateVersion := gs_stateVersion state + 1, gs_players := players,
                as_turn := phasedTurn AwaitingRoll (ta_turn resolution), gs_lastDice := None\<rparr>))
              [TimeoutPenalty (playerId current) (ta_missedTurns resolution),
               ForcedTurnEnd (playerId current) (playerId next)]))"

definition forfeitTimedOut ::
  "active_state \<Rightarrow> gameplay_player \<Rightarrow> int \<Rightarrow> gameplay_player timeout_forfeit \<Rightarrow> gameplay_result" where
  "forfeitTimedOut state current now resolution =
     (let bankruptcy = tf_bankruptcy resolution in
      case mergePlayers (gs_players state) (br_players bankruptcy) of
        None \<Rightarrow> reject (InProgress state) INVALID_STATE
      | Some players \<Rightarrow>
          (let baseEvents = [TimeoutPenalty (playerId current) 3, TimeoutForfeited (playerId current) 3,
                 PlayerBankrupt (playerId current) None (br_liquidationValue bankruptcy)
                   (br_cashTransferred bankruptcy)] in
           if \<not> br_endConditionMet bankruptcy then
             (case tf_turn resolution of
                None \<Rightarrow> reject (InProgress state) INVALID_STATE
              | Some turn \<Rightarrow> (case seat_at players (currentSeatIndex turn) of
                  None \<Rightarrow> reject (InProgress state) INVALID_STATE
                | Some next \<Rightarrow>
                    Accepted (InProgress (state\<lparr>gs_stateVersion := gs_stateVersion state + 1,
                        gs_players := players, gs_properties := br_properties bankruptcy,
                        gs_bankCash := br_bankCash bankruptcy,
                        gs_housesRemaining := housesRemaining (br_inventory bankruptcy),
                        gs_hotelsRemaining := hotelsRemaining (br_inventory bankruptcy),
                        as_turn := phasedTurn AwaitingRoll turn,
                        gs_activeTrades := tradesWithout (seatIndex current) (gs_activeTrades state),
                        gs_lastDice := None\<rparr>))
                      (baseEvents @ [ForcedTurnEnd (playerId current) (playerId next)])))
           else (case deriveTimeoutForfeitTerminalOutcome resolution now of
             Inl e \<Rightarrow> Threw e
           | Inr (Inl _) \<Rightarrow> reject (InProgress state) INVALID_STATE
           | Inr (Inr terminal) \<Rightarrow> (case terminalEvents state players terminal of
               None \<Rightarrow> reject (InProgress state) INVALID_STATE
             | Some endingEvents \<Rightarrow>
                 Accepted (Finished (finishState state players (br_properties bankruptcy)
                   (br_bankCash bankruptcy) (br_inventory bankruptcy) terminal))
                   (baseEvents @ endingEvents)))))"

definition expireTurn :: "active_state \<Rightarrow> gameplay_player \<Rightarrow> int \<Rightarrow> gameplay_result" where
  "expireTurn state current now =
     (case resolveTurnTimeout
             \<lparr>tg_players = gs_players state, tg_properties = gs_properties state,
              tg_inventory = gs_inventory state, tg_bankCash = gs_bankCash state,
              tg_turn = timeoutTurn (as_turn state)\<rparr> now of
        Inl e \<Rightarrow> Threw e
      | Inr (Inl _) \<Rightarrow> reject (InProgress state) INVALID_COMMAND
      | Inr (Inr (TurnAdvanced resolution)) \<Rightarrow> advanceTimedOut state current resolution
      | Inr (Inr (Forfeit resolution)) \<Rightarrow> forfeitTimedOut state current now resolution)"

definition transitionGameplayTimeout ::
  "active_state \<Rightarrow> timeout_command \<Rightarrow> int \<Rightarrow> 'r gameplay_context \<Rightarrow> gameplay_result" where
  "transitionGameplayTimeout state command expected context =
     (case commandGuard state True expected (nowMs context) of
        Some err \<Rightarrow> Rejected (InProgress state) err
      | None \<Rightarrow>
          if actor context \<noteq> InternalActor then reject (InProgress state) UNAUTHORIZED_ACTOR
          else if as_bankruptcyRequiredSeatIndex state \<noteq> None then reject (InProgress state) INVALID_PHASE
          else if command \<noteq> EnforceGameTimeLimit \<and>
                  (case gs_gameEndAtMs state of None \<Rightarrow> False | Some end' \<Rightarrow> nowMs context \<ge> end')
          then reject (InProgress state) INVALID_PHASE
          else if command = EnforceGameTimeLimit then enforceTimeLimit state (nowMs context)
          else (case seat_at (gs_players state) (currentSeatIndex (as_turn state)) of
            None \<Rightarrow> reject (InProgress state) INVALID_STATE
          | Some current \<Rightarrow>
              if status current \<noteq> Active then reject (InProgress state) INVALID_STATE
              else (case command of
                WarnTurnThirtySeconds \<Rightarrow> warnTurn state current 30 (nowMs context)
              | WarnTurnTenSeconds \<Rightarrow> warnTurn state current 10 (nowMs context)
              | _ \<Rightarrow> expireTurn state current (nowMs context))))"

section \<open>The branches\<close>

abbreviation timed_game :: "active_state \<Rightarrow> gameplay_player timeout_game" where
  "timed_game s \<equiv> \<lparr>tg_players = gs_players s, tg_properties = gs_properties s, tg_inventory = gs_inventory s,
     tg_bankCash = gs_bankCash s, tg_turn = timeoutTurn (as_turn s)\<rparr>"

lemma timeoutTurn_simps [simp]:
  "currentSeatIndex (timeoutTurn t) = currentSeatIndex t" "turnStartedAtMs (timeoutTurn t) = turnStartedAtMs t"
  "deadlineAtMs (timeoutTurn t) = deadlineAtMs t" "emittedWarnings (timeoutTurn t) = emittedWarnings t"
  by (simp_all add: timeoutTurn_def)

lemma phasedTurn_simps [simp]:
  "currentSeatIndex (phasedTurn ph t) = currentSeatIndex t" "turnStartedAtMs (phasedTurn ph t) = turnStartedAtMs t"
  "deadlineAtMs (phasedTurn ph t) = deadlineAtMs t" "emittedWarnings (phasedTurn ph t) = emittedWarnings t"
  "phase (phasedTurn ph t) = ph"
  by (simp_all add: phasedTurn_def)

lemma clock_ok_phasedTurn [simp]: "clock_ok (phasedTurn ph t) \<longleftrightarrow> clock_ok t"
  by (simp add: clock_ok_def)

lemma freshTurn_simps [simp]:
  "currentSeatIndex (freshTurn seat now) = seat" "turnStartedAtMs (freshTurn seat now) = now"
  by (simp_all add: freshTurn_def)

lemma deriveTimeLimit_Done:
  assumes "deriveTimeLimitTerminalOutcome ps props limit now = Done terminal"
  shows "deriveRankedTerminalOutcome ps props TimeLimit now = Done terminal" "\<exists>e. limit = Some e \<and> e \<le> now"
  using assms by (auto simp: deriveTimeLimitTerminalOutcome_def split: option.splits if_splits)

lemma deriveTimeLimit_never_throws: "deriveTimeLimitTerminalOutcome ps props limit now \<noteq> Inl e"
  by (auto simp: deriveTimeLimitTerminalOutcome_def deriveRanked_never_throws split: option.splits)

lemma deriveForfeit_Done:
  assumes "deriveTimeoutForfeitTerminalOutcome r now = Done terminal"
  shows "deriveRankedTerminalOutcome (br_players (tf_bankruptcy r)) (br_properties (tf_bankruptcy r))
    TimeoutForfeit now = Done terminal"
  using assms by (auto simp: deriveTimeoutForfeitTerminalOutcome_def split: if_splits)

lemma deriveForfeit_never_throws: "deriveTimeoutForfeitTerminalOutcome r now \<noteq> Inl e"
  by (auto simp: deriveTimeoutForfeitTerminalOutcome_def deriveRanked_never_throws)

text \<open>What every accepted timeout command has passed.\<close>

lemma transitionGameplayTimeout_Accepted:
  assumes "transitionGameplayTimeout s c expected ctx = Accepted t ev"
  obtains "commandGuard s True expected (nowMs ctx) = None" "actor ctx = InternalActor"
      "as_bankruptcyRequiredSeatIndex s = None" "c = EnforceGameTimeLimit" "enforceTimeLimit s (nowMs ctx) = Accepted t ev"
  | p where "commandGuard s True expected (nowMs ctx) = None" "actor ctx = InternalActor"
      "as_bankruptcyRequiredSeatIndex s = None" "activeGameplayPlayer s = Some p"
      "c = WarnTurnThirtySeconds \<and> warnTurn s p 30 (nowMs ctx) = Accepted t ev \<or>
       c = WarnTurnTenSeconds \<and> warnTurn s p 10 (nowMs ctx) = Accepted t ev"
  | p where "commandGuard s True expected (nowMs ctx) = None" "actor ctx = InternalActor"
      "as_bankruptcyRequiredSeatIndex s = None" "activeGameplayPlayer s = Some p"
      "c = HandleTurnTimeout" "expireTurn s p (nowMs ctx) = Accepted t ev"
  using assms
  by (cases c) (auto simp: transitionGameplayTimeout_def activeGameplayPlayer_Some
      split: option.splits if_splits)

lemma enforceTimeLimit_Accepted:
  assumes "enforceTimeLimit s now = Accepted t ev"
  obtains terminal where
    "deriveTimeLimitTerminalOutcome (gs_players s) (gs_properties s) (gs_gameEndAtMs s) now = Done terminal"
    "terminalEvents s (gs_players s) terminal = Some ev"
    "t = Finished (finishState s (gs_players s) (gs_properties s) (gs_bankCash s) (gs_inventory s) terminal)"
  using assms by (auto simp: enforceTimeLimit_def split: sum.splits option.splits)

lemma warnTurn_Accepted:
  assumes "warnTurn s p w now = Accepted t ev"
  obtains turn where "emitTimeoutWarning (timeoutTurn (as_turn s)) w now = Inr (turn, w)"
    "t = InProgress (s\<lparr>gs_stateVersion := gs_stateVersion s + 1, as_turn := phasedTurn (phase (as_turn s)) turn\<rparr>)"
    "ev = [TimeoutWarning (playerId p) w]"
  using assms emitTimeoutWarning_Inr(1) by (auto simp: warnTurn_def split: sum.splits)

text \<open>An expired turn costs the player a turn, hands a liquidated estate on, or ends the game.\<close>

lemma expireTurn_cases:
  assumes "expireTurn s p now = Accepted t ev" "activeGameplayPlayer s = Some p"
  obtains (advanced) nextSeat q where "missedTurns p < 2" "nextSeat \<noteq> currentSeatIndex (as_turn s)"
      "isSafeInteger (now + turnTimeoutMs)"
      "nextActiveSeat (update_seat (currentSeatIndex (as_turn s)) (\<lambda>q. q\<lparr>missedTurns := missedTurns p + 1\<rparr>)
         (gs_players s)) (currentSeatIndex (as_turn s)) = Some nextSeat"
      "seat_at (gs_players s) nextSeat = Some q"
      "t = InProgress (s\<lparr>gs_stateVersion := gs_stateVersion s + 1,
         gs_players := update_seat (currentSeatIndex (as_turn s)) (\<lambda>q. q\<lparr>missedTurns := missedTurns p + 1\<rparr>) (gs_players s),
         as_turn := phasedTurn AwaitingRoll (freshTurn nextSeat now), gs_lastDice := None\<rparr>)"
      "ev = [TimeoutPenalty (playerId p) (missedTurns p + 1), ForcedTurnEnd (playerId p) (playerId q)]"
  | (handed_on) r nextSeat q where "missedTurns p = 2"
      "resolveBankruptcy (update_seat (currentSeatIndex (as_turn s)) (\<lambda>q. q\<lparr>missedTurns := 3\<rparr>) (gs_players s))
         (gs_properties s) (gs_inventory s) (gs_bankCash s) (currentSeatIndex (as_turn s)) = Done r"
      "\<not> br_endConditionMet r" "isSafeInteger (now + turnTimeoutMs)"
      "nextActiveSeat (br_players r) (currentSeatIndex (as_turn s)) = Some nextSeat"
      "seat_at (br_players r) nextSeat = Some q"
      "t = InProgress (s\<lparr>gs_stateVersion := gs_stateVersion s + 1, gs_players := br_players r,
         gs_properties := br_properties r, gs_bankCash := br_bankCash r,
         gs_housesRemaining := housesRemaining (br_inventory r),
         gs_hotelsRemaining := hotelsRemaining (br_inventory r),
         as_turn := phasedTurn AwaitingRoll (freshTurn nextSeat now),
         gs_activeTrades := tradesWithout (seatIndex p) (gs_activeTrades s), gs_lastDice := None\<rparr>)"
      "ev = [TimeoutPenalty (playerId p) 3, TimeoutForfeited (playerId p) 3,
             PlayerBankrupt (playerId p) None (br_liquidationValue r) (br_cashTransferred r),
             ForcedTurnEnd (playerId p) (playerId q)]"
  | (ended) r terminal endingEvents where "missedTurns p = 2"
      "resolveBankruptcy (update_seat (currentSeatIndex (as_turn s)) (\<lambda>q. q\<lparr>missedTurns := 3\<rparr>) (gs_players s))
         (gs_properties s) (gs_inventory s) (gs_bankCash s) (currentSeatIndex (as_turn s)) = Done r"
      "br_endConditionMet r"
      "deriveRankedTerminalOutcome (br_players r) (br_properties r) TimeoutForfeit now = Done terminal"
      "terminalEvents s (br_players r) terminal = Some endingEvents"
      "t = Finished (finishState s (br_players r) (br_properties r) (br_bankCash r) (br_inventory r) terminal)"
      "ev = [TimeoutPenalty (playerId p) 3, TimeoutForfeited (playerId p) 3,
             PlayerBankrupt (playerId p) None (br_liquidationValue r) (br_cashTransferred r)] @ endingEvents"
proof -
  have p: "seat_at (gs_players s) (currentSeatIndex (as_turn s)) = Some p"
    using assms(2) by (simp add: activeGameplayPlayer_Some)
  from assms(1) obtain x where x: "resolveTurnTimeout (timed_game s) now = Done x"
    by (auto simp: expireTurn_def split: sum.splits)
  from x show thesis
  proof (cases rule: resolveTurnTimeout_cases)
    case (advanced q n)
    with p have q: "q = p" by simp
    from assms(1) x advanced q obtain next' where
      "seat_at (update_seat (currentSeatIndex (as_turn s)) (\<lambda>q. q\<lparr>missedTurns := missedTurns p + 1\<rparr>) (gs_players s)) n
         = Some next'"
      by (auto simp: expireTurn_def advanceTimedOut_def split: option.splits dest!: mergePlayers_Some)
    with advanced(4) have n: "seat_at (gs_players s) n = Some next'" by simp
    with assms(1) x advanced q show thesis
      by (intro that(1) [of n next'])
        (auto simp: expireTurn_def advanceTimedOut_def split: option.splits dest!: mergePlayers_Some)
  next
    case (over q r)
    with p have q: "q = p" by simp
    from assms(1) x over q have f: "forfeitTimedOut s p now
        \<lparr>tf_timedOutSeatIndex = currentSeatIndex (as_turn s), tf_missedTurns = 3, tf_bankruptcy = r,
         tf_turn = None, tf_verified = True\<rparr> = Accepted t ev"
      by (simp add: expireTurn_def)
    with over(5) show thesis
      by (auto simp: forfeitTimedOut_def Let_def split: option.splits sum.splits
          dest!: mergePlayers_Some deriveForfeit_Done intro!: that(3) [of r] over [simplified q, simplified])
  next
    case (handed_on q r n)
    with p have q: "q = p" by simp
    from assms(1) x handed_on q have f: "forfeitTimedOut s p now
        \<lparr>tf_timedOutSeatIndex = currentSeatIndex (as_turn s), tf_missedTurns = 3, tf_bankruptcy = r,
         tf_turn = Some (freshTurn n now), tf_verified = True\<rparr> = Accepted t ev"
      by (simp add: expireTurn_def)
    with handed_on(5) show thesis
      by (auto simp: forfeitTimedOut_def Let_def split: option.splits
          dest!: mergePlayers_Some intro!: that(2) [of r n] handed_on [simplified q, simplified])
  qed
qed

section \<open>The timeout handler keeps its contract\<close>

lemma enforceTimeLimit_valid:
  assumes guard: "commandGuard s True expected now = None" and e: "enforceTimeLimit s now = Accepted t ev"
  shows "isValidAggregate t"
  using e
proof (rule enforceTimeLimit_Accepted)
  fix terminal
  assume d: "deriveTimeLimitTerminalOutcome (gs_players s) (gs_properties s) (gs_gameEndAtMs s) now = Done terminal"
    and t: "t = Finished (finishState s (gs_players s) (gs_properties s) (gs_bankCash s) (gs_inventory s) terminal)"
  show ?thesis unfolding t isValidAggregate.simps
    by (rule finish_valid [OF guard guard_facts(9) [OF guard] refl deriveTimeLimit_Done(1) [OF d]])
      (rule deriveTimeLimit_Done(2) [OF d])
qed

lemma validPhase_same:
  "phase (as_turn s') = phase (as_turn s) \<Longrightarrow> gs_properties s' = gs_properties s \<Longrightarrow> validPhase s' q = validPhase s q"
  by (cases "phase (as_turn s)") (simp_all add: validPhase_def validPendingProperty_def)

lemma warnTurn_valid:
  assumes guard: "commandGuard s True expected now = None" and w: "warnTurn s p w now = Accepted t ev"
  shows "isValidAggregate t"
  using w
proof (rule warnTurn_Accepted)
  fix turn
  assume e: "emitTimeoutWarning (timeoutTurn (as_turn s)) w now = Inr (turn, w)"
    and t: "t = InProgress (s\<lparr>gs_stateVersion := gs_stateVersion s + 1,
      as_turn := phasedTurn (phase (as_turn s)) turn\<rparr>)"
  note g = guard_facts [OF guard] and tt = emitTimeoutWarning_Inr(3,5) [OF e]
  from g(10) have v: "gs_startedAtMs s \<le> turnStartedAtMs (as_turn s)"
      "phase (as_turn s) = AwaitingRoll \<or> phase (as_turn s) = AwaitingBankruptcy \<or> gs_lastDice s \<noteq> None"
    by (auto simp: isValidActive_iff)
  from g(10) obtain q where q: "seat_at (gs_players s) (currentSeatIndex (as_turn s)) = Some q" "status q = Active"
      "validPhase s q" "validBankruptcyPending s"
    by (auto elim: valid_activeGameplayPlayer)
  let ?s' = "s\<lparr>gs_stateVersion := gs_stateVersion s + 1, as_turn := phasedTurn (phase (as_turn s)) turn\<rparr>"
  have "validPhase ?s' q" using validPhase_same [of ?s' s q] q(3) by simp
  moreover have "validBankruptcyPending ?s'"
    using q(4) tt(1) by (cases "as_bankruptcyRequiredSeatIndex s") (simp_all add: validBankruptcyPending_def)
  ultimately show ?thesis unfolding t isValidAggregate.simps
    by (intro next_active_valid [OF guard, where p = q])
      (use g v q tt in \<open>simp_all add: gs_inventory_def\<close>)
qed

lemma missed_assets:
  assumes "isValidBankruptcyState ps props stock bank" "0 \<le> m" "m \<le> 3"
  shows "isValidBankruptcyState (update_seat seat (\<lambda>q. q\<lparr>missedTurns := m\<rparr>) ps) props stock bank"
  using assms(1) by (rule assets_update_seat) (use assms(2,3) in \<open>auto simp: validBankruptcyPlayer_def policy_simps\<close>)

lemma next_seat_player:
  assumes "nextActiveSeat players current = Some n" "0 \<le> current" "current < 4" "seat_at players n = Some q"
  shows "status q = Active" "0 \<le> n" "n < 4"
  using nextActiveSeat_Some [OF assms(1-3)] assms(4) by auto

lemma expireTurn_valid:
  assumes guard: "commandGuard s True expected now = None" and p: "activeGameplayPlayer s = Some p"
    and flag: "as_bankruptcyRequiredSeatIndex s = None" and e: "expireTurn s p now = Accepted t ev"
  shows "isValidAggregate t"
proof -
  note g = guard_facts [OF guard]
  have c: "0 \<le> currentSeatIndex (as_turn s)" "currentSeatIndex (as_turn s) < 4"
    using g(7) by (auto simp: clock_ok_def)
  have seat: "seatIndex p = currentSeatIndex (as_turn s)"
    "seat_at (gs_players s) (currentSeatIndex (as_turn s)) = Some p"
    "validBankruptcyPlayer (currentSeatIndex (as_turn s)) p"
    using g(10) p by (auto elim!: valid_activeGameplayPlayer)
  have m: "0 \<le> missedTurns p" using seat(3) by (simp add: validBankruptcyPlayer_def)
  from e p show ?thesis
  proof (cases rule: expireTurn_cases)
    case (advanced n q)
    note a = next_seat_player [OF advanced(4) c, of q]
    have q: "status q = Active" "0 \<le> n" "n < 4" using a advanced(2,5) by auto
    have "isValidBankruptcyState (update_seat (currentSeatIndex (as_turn s)) (\<lambda>q. q\<lparr>missedTurns := missedTurns p + 1\<rparr>)
        (gs_players s)) (gs_properties s) (gs_inventory s) (gs_bankCash s)"
      using missed_assets [OF g(9), of "missedTurns p + 1"] m advanced(1) by simp
    with g q advanced(2,3,5) flag freshTurn_ok [of n now] show ?thesis
      unfolding advanced(6) isValidAggregate.simps
      by (intro next_active_valid [OF guard, where p = q])
        (simp_all add: gs_inventory_def dice_ok_def validBankruptcyPending_def validPhase_def)
  next
    case (handed_on r n q)
    have q: "status q = Active" "0 \<le> n" "n < 4" using next_seat_player [OF handed_on(5) c handed_on(6)] by auto
    show ?thesis unfolding handed_on(7) isValidAggregate.simps
      by (rule liquidation_next_valid [OF guard _ handed_on(2), where q = q and
            turn = "phasedTurn AwaitingRoll (freshTurn n now)"])
        (use g(5) handed_on(4,6) q flag seat(1) freshTurn_ok [of n now] in simp_all)
  next
    case (ended r terminal endingEvents)
    have "identity_view (br_players r) = identity_view (gs_players s)"
      using ended(2) by (auto elim!: resolveBankruptcy_Done)
    then show ?thesis unfolding ended(6) isValidAggregate.simps
      by (intro finish_valid [OF guard resolveBankruptcy_valid [OF ended(2)] _ ended(4)]) simp_all
  qed
qed

lemma transitionGameplayTimeout_valid:
  assumes "transitionGameplayTimeout s c expected ctx = Accepted t ev"
  shows "isValidAggregate t"
  using assms
  by (rule transitionGameplayTimeout_Accepted)
    (auto dest: enforceTimeLimit_valid expireTurn_valid warnTurn_valid)

lemma timeout_parts:
  "enforceTimeLimit s now \<noteq> Threw e" "warnTurn s p w now \<noteq> Threw e" "expireTurn s p now \<noteq> Threw e"
  by (auto simp: enforceTimeLimit_def warnTurn_def expireTurn_def advanceTimedOut_def forfeitTimedOut_def Let_def
      deriveTimeLimit_never_throws deriveForfeit_never_throws resolveTurnTimeout_never_throws
      split: option.splits sum.splits timeout_resolution.splits)

lemma timeout_parts_rejected:
  "enforceTimeLimit s now = Rejected t err \<Longrightarrow> t = InProgress s"
  "warnTurn s p w now = Rejected t err \<Longrightarrow> t = InProgress s"
  "expireTurn s p now = Rejected t err \<Longrightarrow> t = InProgress s"
  by (auto simp: enforceTimeLimit_def warnTurn_def expireTurn_def advanceTimedOut_def forfeitTimedOut_def Let_def
      split: option.splits sum.splits timeout_resolution.splits if_splits)

lemma timeout_parts_version:
  assumes "transitionGameplayTimeout s c expected ctx = Accepted t ev"
  shows "aggregate_version t = gs_stateVersion s + 1"
  using assms
proof (rule transitionGameplayTimeout_Accepted)
  assume "enforceTimeLimit s (nowMs ctx) = Accepted t ev"
  then show ?thesis by (auto elim!: enforceTimeLimit_Accepted simp: finishState_def)
next
  fix p
  assume "c = WarnTurnThirtySeconds \<and> warnTurn s p 30 (nowMs ctx) = Accepted t ev \<or>
    c = WarnTurnTenSeconds \<and> warnTurn s p 10 (nowMs ctx) = Accepted t ev"
  then show ?thesis by (auto elim!: warnTurn_Accepted)
next
  fix p
  assume "expireTurn s p (nowMs ctx) = Accepted t ev" "activeGameplayPlayer s = Some p"
  then show ?thesis by (cases rule: expireTurn_cases) (simp_all add: finishState_def)
qed

interpretation timeout_handler:
  sound_handler "\<lambda>s. transitionGameplayTimeout s c expected ctx" expected "nowMs ctx"
  for c expected ctx
proof (unfold_locales, goal_cases)
  case (1 s e)
  then show ?case
    by (auto simp: transitionGameplayTimeout_def timeout_parts split: option.splits if_splits timeout_command.splits)
next
  case (2 s t err)
  then show ?case
    by (auto simp: transitionGameplayTimeout_def dest: timeout_parts_rejected
        split: option.splits if_splits timeout_command.splits)
next
  case (3 s t ev)
  then show ?case by (auto elim: transitionGameplayTimeout_Accepted)
next
  case (4 s t ev)
  then show ?case by (rule timeout_parts_version)
next
  case (5 s t ev)
  then show ?case by (rule transitionGameplayTimeout_valid)
qed

section \<open>Money\<close>

lemma missed_money:
  "totalCash (update_seat seat (\<lambda>q. q\<lparr>missedTurns := m\<rparr>) ps) = totalCash ps"
proof (cases "seat_at ps seat")
  case None
  have "map slot_cash (update_seat seat (\<lambda>q. q\<lparr>missedTurns := m\<rparr>) ps) = map slot_cash ps"
    by (rule nth_equalityI) (auto simp: nth_update_seat slot_cash_def split: option.split)
  then show ?thesis by (simp add: totalCash_def)
qed (simp add: totalCash_update_seat)

lemma expireTurn_money:
  assumes "expireTurn s p now = Accepted t ev" "activeGameplayPlayer s = Some p"
  shows "aggregate_money t = moneySupply s + expectedCashDelta s ev"
  using assms
proof (cases rule: expireTurn_cases)
  case (advanced n q)
  then show ?thesis by (simp add: moneySupply_def expectedCashDelta_def missed_money)
next
  case (handed_on r n q)
  with resolveBankruptcy_money [OF handed_on(2)] show ?thesis
    by (simp add: moneySupply_def expectedCashDelta_def missed_money)
next
  case (ended r terminal endingEvents)
  with resolveBankruptcy_money [OF ended(2)] ending_delta [OF ended(5)] show ?thesis
    by (simp add: moneySupply_def expectedCashDelta_def finishState_def missed_money)
qed

lemma transitionGameplayTimeout_money:
  assumes "transitionGameplayTimeout s c expected ctx = Accepted t ev"
  shows "aggregate_money t = moneySupply s + expectedCashDelta s ev"
  using assms
proof (rule transitionGameplayTimeout_Accepted)
  assume "enforceTimeLimit s (nowMs ctx) = Accepted t ev"
  then show ?thesis
    by (rule enforceTimeLimit_Accepted)
      (simp add: moneySupply_def expectedCashDelta_def finishState_def ending_delta)
next
  fix p
  assume "c = WarnTurnThirtySeconds \<and> warnTurn s p 30 (nowMs ctx) = Accepted t ev \<or>
    c = WarnTurnTenSeconds \<and> warnTurn s p 10 (nowMs ctx) = Accepted t ev"
  then show ?thesis by (auto elim!: warnTurn_Accepted simp: moneySupply_def expectedCashDelta_def)
next
  fix p
  assume "expireTurn s p (nowMs ctx) = Accepted t ev" "activeGameplayPlayer s = Some p"
  then show ?thesis by (rule expireTurn_money)
qed

end
