(* ===== verification/Gameplay_Trade.thy ===== *)
theory Gameplay_Trade
  imports Gameplay_Property
begin

text \<open>
  \<open>rules/gameplay-trade-transition.ts\<close>: trades run beside the turn, so they change players,
  properties and the book of open trades, and leave the turn as it is.
\<close>

section \<open>Operations\<close>

text \<open>An entry of the merge is \<open>None\<close> when the code answers \<open>undefined\<close> for it.\<close>

definition mergeTradeSlot ::
  "gameplay_player option list \<Rightarrow> int \<Rightarrow> gameplay_player option \<Rightarrow> gameplay_player option option" where
  "mergeTradeSlot originals index resolved =
     (case (resolved, js_index originals index) of
        (None, Some None) \<Rightarrow> Some None
      | (Some player, Some (Some original)) \<Rightarrow> Some (Some (original\<lparr>cash := cash player\<rparr>))
      | _ \<Rightarrow> None)"

definition mergeTradePlayers ::
  "gameplay_player option list \<Rightarrow> gameplay_player option list \<Rightarrow> gameplay_player option list option" where
  "mergeTradePlayers originals resolved =
     (let players = map_index (mergeTradeSlot originals) resolved in
      if list_ex (\<lambda>player. player = None) players then None else Some (map the players))"

definition tradeError :: "trade_error_code \<Rightarrow> game_core_error_code" where
  "tradeError code = (if code = TRADE_ARITHMETIC_OVERFLOW then ARITHMETIC_OVERFLOW else INVALID_COMMAND)"

fun tradeTypeOf :: "trade_terms \<Rightarrow> trade_type" where
  "tradeTypeOf (MoneyOnly _ _) = MoneyOnlyType"
| "tradeTypeOf (PropertyOnly _ _) = PropertyOnlyType"
| "tradeTypeOf (MoneyForProperty _ _) = MoneyForPropertyType"
| "tradeTypeOf (PropertyForMoney _ _) = PropertyForMoneyType"

text \<open>\<open>termsForEvent\<close>: type, cash legs and property legs of the terms.\<close>

definition termsForEvent :: "trade_terms \<Rightarrow> trade_type \<times> (int \<times> int) \<times> (int option \<times> int option)" where
  "termsForEvent terms = (tradeTypeOf terms, cashTerms terms, propertyTerms terms)"

definition participantIds :: "active_state \<Rightarrow> pending_trade \<Rightarrow> (string \<times> string) option" where
  "participantIds state trade =
     (case (seat_at (gs_players state) (proposerSeatIndex trade),
            seat_at (gs_players state) (receiverSeatIndex trade)) of
        (Some proposer, Some receiver) \<Rightarrow> Some (playerId proposer, playerId receiver)
      | _ \<Rightarrow> None)"

type_synonym trade_result = "game_core_error_code + gameplay_player trade_mutation"

definition createGameplayTrade ::
  "active_state \<Rightarrow> gameplay_player \<Rightarrow> string \<Rightarrow> trade_terms \<Rightarrow> string option \<Rightarrow> int \<Rightarrow> trade_result" where
  "createGameplayTrade state who receiverId terms tradeId' now =
     (case gameplayPlayerById state receiverId of
        None \<Rightarrow> Inl INVALID_COMMAND
      | Some receiver \<Rightarrow>
          if status receiver \<noteq> Active \<or> seatIndex receiver = seatIndex who then Inl INVALID_COMMAND
          else (case tradeId' of
            None \<Rightarrow> Inl INVALID_COMMAND
          | Some newId \<Rightarrow>
              (case createTrade (gs_activeTrades state) (gs_players state) (gs_properties state) newId
                      (seatIndex who) (seatIndex receiver) terms now of
                 Inl code \<Rightarrow> Inl (tradeError code) | Inr m \<Rightarrow> Inr m)))"

text \<open>Accepting sweeps the expired trades first when the wanted trade is itself alive.\<close>

definition sweepBeforeAccept ::
  "pending_trade list \<Rightarrow> string \<Rightarrow> int \<Rightarrow> (pending_trade list \<times> string list) option" where
  "sweepBeforeAccept trades wanted now =
     (case find (\<lambda>trade. tradeId trade = wanted) trades of
        None \<Rightarrow> None
      | Some target \<Rightarrow> if expiresAtMs target > now then cleanupExpiredTrades trades now else None)"

definition acceptGameplayTrade :: "active_state \<Rightarrow> gameplay_player \<Rightarrow> string \<Rightarrow> int \<Rightarrow> trade_result" where
  "acceptGameplayTrade state who wanted now =
     (case sweepBeforeAccept (gs_activeTrades state) wanted now of
        None \<Rightarrow>
          (case acceptTrade (gs_activeTrades state) (gs_players state) (gs_properties state) wanted
                  (seatIndex who) now of
             Inl code \<Rightarrow> Inl (tradeError code) | Inr m \<Rightarrow> Inr m)
      | Some (live, removed) \<Rightarrow>
          (case acceptTrade live (gs_players state) (gs_properties state) wanted (seatIndex who) now of
             Inl code \<Rightarrow> Inl (tradeError code)
           | Inr m \<Rightarrow> Inr (m\<lparr>tm_removedTradeIds := removed @ tm_removedTradeIds m\<rparr>)))"

fun resolveTradeCommand ::
  "active_state \<Rightarrow> gameplay_player \<Rightarrow> trade_command \<Rightarrow> string option \<Rightarrow> int \<Rightarrow> trade_result" where
  "resolveTradeCommand state who (CreateTrade receiverId terms) newId now =
     createGameplayTrade state who receiverId terms newId now"
| "resolveTradeCommand state who (AcceptTrade wanted) newId now = acceptGameplayTrade state who wanted now"
| "resolveTradeCommand state who (RejectTrade wanted) newId now =
     (case rejectTrade (gs_activeTrades state) (gs_players state) (gs_properties state) wanted (seatIndex who) now of
        Inl code \<Rightarrow> Inl (tradeError code) | Inr m \<Rightarrow> Inr m)"
| "resolveTradeCommand state who (CancelTrade wanted) newId now =
     (case cancelTrade (gs_activeTrades state) (gs_players state) (gs_properties state) wanted (seatIndex who) now of
        Inl code \<Rightarrow> Inl (tradeError code) | Inr m \<Rightarrow> Inr m)"
| "resolveTradeCommand state who CleanupExpiredTrades newId now = Inl INVALID_COMMAND"

fun payloadTradeId :: "trade_command \<Rightarrow> string option" where
  "payloadTradeId (AcceptTrade wanted) = Some wanted"
| "payloadTradeId (RejectTrade wanted) = Some wanted"
| "payloadTradeId (CancelTrade wanted) = Some wanted"
| "payloadTradeId _ = None"

text \<open>The event of the command itself; \<open>None\<close> when the code rejects for want of its parts.\<close>

definition tradeEvent ::
  "active_state \<Rightarrow> gameplay_player \<Rightarrow> trade_command \<Rightarrow> pending_trade option \<Rightarrow> gameplay_event option" where
  "tradeEvent state who command trade' =
     (case trade' of
        None \<Rightarrow> None
      | Some trade \<Rightarrow> (case command of
          CreateTrade receiverId terms \<Rightarrow>
            (case termsForEvent terms of (kind, (offered, requested), (offeredPos, requestedPos)) \<Rightarrow>
               Some (TradeCreated (tradeId trade) kind (playerId who) receiverId offered requested
                 offeredPos requestedPos (expiresAtMs trade)))
        | _ \<Rightarrow> (case participantIds state trade of
            None \<Rightarrow> None
          | Some (proposerId, receiverId) \<Rightarrow> (case command of
              AcceptTrade _ \<Rightarrow> Some (TradeAccepted (tradeId trade) proposerId receiverId)
            | RejectTrade _ \<Rightarrow> Some (TradeRejected (tradeId trade) (playerId who))
            | _ \<Rightarrow> Some (TradeCancelled (tradeId trade) (playerId who))))))"

definition finishTradeCommand ::
  "active_state \<Rightarrow> gameplay_player \<Rightarrow> trade_command \<Rightarrow> gameplay_player trade_mutation \<Rightarrow> gameplay_result" where
  "finishTradeCommand state who command result =
     (case mergeTradePlayers (gs_players state) (tm_players result) of
        None \<Rightarrow> reject (InProgress state) INVALID_STATE
      | Some players \<Rightarrow>
          (let expired = filter (\<lambda>i. payloadTradeId command \<noteq> Some i) (tm_removedTradeIds result) in
           case tradeEvent state who command (tm_trade result) of
             None \<Rightarrow> reject (InProgress state) INVALID_STATE
           | Some event \<Rightarrow>
               Accepted (InProgress (state\<lparr>gs_stateVersion := gs_stateVersion state + 1,
                   gs_players := players, gs_properties := tm_properties result,
                   gs_activeTrades := tm_trades result\<rparr>))
                 (map TradeExpired expired @ [event])))"

definition cleanupGameplayTrades :: "active_state \<Rightarrow> gameplay_actor \<Rightarrow> int \<Rightarrow> gameplay_result" where
  "cleanupGameplayTrades state who now =
     (if who \<noteq> InternalActor then reject (InProgress state) UNAUTHORIZED_ACTOR
      else case cleanupExpiredTrades (gs_activeTrades state) now of
        None \<Rightarrow> reject (InProgress state) INVALID_STATE
      | Some (live, removed) \<Rightarrow>
          if removed = [] then reject (InProgress state) INVALID_COMMAND
          else Accepted (InProgress (state\<lparr>gs_stateVersion := gs_stateVersion state + 1,
                 gs_activeTrades := live\<rparr>)) (map TradeExpired removed))"

definition transitionGameplayTrade ::
  "active_state \<Rightarrow> trade_command \<Rightarrow> int \<Rightarrow> 'r gameplay_context \<Rightarrow> gameplay_result" where
  "transitionGameplayTrade state command expected ctx =
     (case commandGuard state True expected (nowMs ctx) of
        Some err \<Rightarrow> Rejected (InProgress state) err
      | None \<Rightarrow>
          if as_bankruptcyRequiredSeatIndex state \<noteq> None then reject (InProgress state) INVALID_PHASE
          else if command = CleanupExpiredTrades
          then cleanupGameplayTrades state (actor ctx) (nowMs ctx)
          else (case actor ctx of
            InternalActor \<Rightarrow> reject (InProgress state) UNAUTHORIZED_ACTOR
          | PlayerActor wanted \<Rightarrow> (case gameplayPlayerById state wanted of
              None \<Rightarrow> reject (InProgress state) UNAUTHORIZED_ACTOR
            | Some who \<Rightarrow>
                if status who \<noteq> Active then reject (InProgress state) UNAUTHORIZED_ACTOR
                else (case resolveTradeCommand state who command (ctxTradeId ctx) (nowMs ctx) of
                  Inl code \<Rightarrow> reject (InProgress state) code
                | Inr result \<Rightarrow> finishTradeCommand state who command result))))"

section \<open>Merging is the identity\<close>

lemma mergeTradePlayers_cash_only:
  assumes "cash_only ps qs"
  shows "mergeTradePlayers ps qs = Some qs"
proof -
  have len: "length ps = length qs" using assms by (auto simp: cash_only_def dest: list_all2_lengthD)
  have slot: "mergeTradeSlot ps (int k) (qs ! k) = Some (qs ! k)" if "k < length qs" for k
  proof -
    have "map_option (\<lambda>p. p\<lparr>cash := 0\<rparr>) (ps ! k) = map_option (\<lambda>p. p\<lparr>cash := 0\<rparr>) (qs ! k)"
      using assms that len by (auto simp: cash_only_def list_all2_conv_all_nth)
    moreover have "x\<lparr>cash := cash y\<rparr> = y" if "x\<lparr>cash := 0\<rparr> = y\<lparr>cash := 0\<rparr>" for x y :: gameplay_player
      using that by (cases x; cases y) simp
    ultimately show ?thesis
      using that len by (cases "ps ! k"; cases "qs ! k") (auto simp: mergeTradeSlot_def)
  qed
  have eq: "map_index (mergeTradeSlot ps) qs = map Some qs"
    by (rule nth_equalityI) (simp_all add: slot)
  show ?thesis by (auto simp: mergeTradePlayers_def eq list_ex_iff comp_def)
qed

section \<open>What a resolved trade command did\<close>

text \<open>The contract of \<open>trade_operation\<close>, read against the state.\<close>

definition trade_done :: "active_state \<Rightarrow> gameplay_player trade_mutation \<Rightarrow> bool" where
  "trade_done s m \<longleftrightarrow>
     validTradeState (tm_trades m) (tm_players m) (tm_properties m) \<and>
     totalCash (tm_players m) = totalCash (gs_players s) \<and> cash_only (gs_players s) (tm_players m) \<and>
     building_view (tm_properties m) = building_view (gs_properties s)"

lemma trade_operation_done:
  assumes "trade_operation operation" "operation live (gs_players s) (gs_properties s) = Inr m"
  shows "trade_done s m"
  using trade_operation.keeps_book [OF assms] trade_operation.keeps_money [OF assms]
    trade_operation.keeps_players [OF assms] trade_operation.keeps_buildings [OF assms]
  by (simp add: trade_done_def)

text \<open>Accepting, with or without the sweep, is one run of the rule on trades of the book.\<close>

lemma acceptGameplayTrade_Inr:
  assumes "acceptGameplayTrade s who wanted now = Inr m"
  obtains live m' where "acceptTrade live (gs_players s) (gs_properties s) wanted (seatIndex who) now = Inr m'"
    "tm_trades m = tm_trades m'" "tm_players m = tm_players m'" "tm_properties m = tm_properties m'"
    "tm_trade m = tm_trade m'" "set live \<subseteq> set (gs_activeTrades s)"
proof (cases "sweepBeforeAccept (gs_activeTrades s) wanted now")
  case None
  with assms show thesis
    by (intro that [of "gs_activeTrades s" m]) (auto simp: acceptGameplayTrade_def split: sum.splits)
next
  case (Some lr)
  then obtain live removed where lr: "lr = (live, removed)" "set live \<subseteq> set (gs_activeTrades s)"
    by (auto simp: sweepBeforeAccept_def cleanupExpiredTrades_def split: option.splits if_splits)
  from assms Some lr obtain m' where "acceptTrade live (gs_players s) (gs_properties s) wanted (seatIndex who) now = Inr m'"
      "m = m'\<lparr>tm_removedTradeIds := removed @ tm_removedTradeIds m'\<rparr>"
    by (auto simp: acceptGameplayTrade_def split: sum.splits)
  with lr show thesis by (intro that [of live m']) auto
qed

lemma resolveTradeCommand_done:
  assumes "resolveTradeCommand s who c newId now = Inr m"
  shows "trade_done s m"
proof (cases c)
  case (CreateTrade receiverId terms)
  with assms show ?thesis
    by (auto simp: createGameplayTrade_def split: option.splits if_splits sum.splits
        intro: trade_operation_done [OF trade_create.trade_operation_axioms])
next
  case (AcceptTrade wanted)
  with assms have "acceptGameplayTrade s who wanted now = Inr m" by simp
  then obtain live m' where "acceptTrade live (gs_players s) (gs_properties s) wanted (seatIndex who) now = Inr m'"
    "tm_trades m = tm_trades m'" "tm_players m = tm_players m'" "tm_properties m = tm_properties m'"
    by (rule acceptGameplayTrade_Inr)
  with trade_operation_done [OF trade_accept.trade_operation_axioms, of live s wanted "seatIndex who" now m']
  show ?thesis by (simp add: trade_done_def)
next
  case (RejectTrade wanted)
  with assms show ?thesis
    by (auto simp: rejectTrade_def split: sum.splits
        intro: trade_operation_done [OF trade_remove.trade_operation_axioms])
next
  case (CancelTrade wanted)
  with assms show ?thesis
    by (auto simp: cancelTrade_def split: sum.splits
        intro: trade_operation_done [OF trade_remove.trade_operation_axioms])
next
  case CleanupExpiredTrades
  with assms show ?thesis by simp
qed

text \<open>Only accepting moves cash or property.\<close>

lemma resolveTradeCommand_keeps:
  assumes "resolveTradeCommand s who c newId now = Inr m" "\<forall>wanted. c \<noteq> AcceptTrade wanted"
  shows "tm_players m = gs_players s" "tm_properties m = gs_properties s"
  using assms
  by (cases c; auto simp: createGameplayTrade_def rejectTrade_def cancelTrade_def
      split: option.splits if_splits sum.splits elim!: createTrade_Inr removeTrade_Inr)+

section \<open>Accepted trade commands\<close>

lemma transitionGameplayTrade_cases:
  assumes "transitionGameplayTrade s c expected ctx = Accepted t ev"
  obtains (cleanup) "commandGuard s True expected (nowMs ctx) = None" "c = CleanupExpiredTrades"
      "as_bankruptcyRequiredSeatIndex s = None"
      "t = InProgress (s\<lparr>gs_stateVersion := gs_stateVersion s + 1,
         gs_activeTrades := filter (\<lambda>trade. expiresAtMs trade > nowMs ctx) (gs_activeTrades s)\<rparr>)"
      "ev = map TradeExpired (map tradeId (filter (\<lambda>trade. expiresAtMs trade \<le> nowMs ctx) (gs_activeTrades s)))"
  | (resolved) who wanted m event expired where "commandGuard s True expected (nowMs ctx) = None"
      "as_bankruptcyRequiredSeatIndex s = None"
      "actor ctx = PlayerActor wanted" "gameplayPlayerById s wanted = Some who" "status who = Active"
      "resolveTradeCommand s who c (ctxTradeId ctx) (nowMs ctx) = Inr m" "trade_done s m"
      "tradeEvent s who c (tm_trade m) = Some event"
      "t = InProgress (s\<lparr>gs_stateVersion := gs_stateVersion s + 1, gs_players := tm_players m,
         gs_properties := tm_properties m, gs_activeTrades := tm_trades m\<rparr>)"
      "ev = map TradeExpired expired @ [event]"
proof -
  from assms have g: "commandGuard s True expected (nowMs ctx) = None" "as_bankruptcyRequiredSeatIndex s = None"
    by (auto simp: transitionGameplayTrade_def split: option.splits if_splits)
  show thesis
  proof (cases "c = CleanupExpiredTrades")
    case True
    with assms g show thesis
      by (intro cleanup)
        (auto simp: transitionGameplayTrade_def cleanupGameplayTrades_def cleanupExpiredTrades_def split: if_splits)
  next
    case False
    with assms g obtain who wanted m where w: "actor ctx = PlayerActor wanted" "gameplayPlayerById s wanted = Some who"
      "status who = Active" and m: "resolveTradeCommand s who c (ctxTradeId ctx) (nowMs ctx) = Inr m"
      and f: "finishTradeCommand s who c m = Accepted t ev"
      by (auto simp: transitionGameplayTrade_def split: gameplay_actor.splits option.splits if_splits sum.splits)
    note d = resolveTradeCommand_done [OF m]
    then have "mergeTradePlayers (gs_players s) (tm_players m) = Some (tm_players m)"
      by (simp add: trade_done_def mergeTradePlayers_cash_only)
    with f obtain event where "tradeEvent s who c (tm_trade m) = Some event"
      "t = InProgress (s\<lparr>gs_stateVersion := gs_stateVersion s + 1, gs_players := tm_players m,
         gs_properties := tm_properties m, gs_activeTrades := tm_trades m\<rparr>)"
      "ev = map TradeExpired (filter (\<lambda>i. payloadTradeId c \<noteq> Some i) (tm_removedTradeIds m)) @ [event]"
      by (auto simp: finishTradeCommand_def Let_def split: option.splits)
    with g w m d show thesis by (intro resolved)
  qed
qed

interpretation trade_handler:
  gameplay_handler "\<lambda>s. transitionGameplayTrade s c expected ctx" expected "nowMs ctx"
  for c expected ctx
proof (unfold_locales, goal_cases)
  case (1 s e)
  then show ?case
    by (auto simp: transitionGameplayTrade_def cleanupGameplayTrades_def finishTradeCommand_def Let_def
        split: option.splits sum.splits gameplay_actor.splits)
next
  case (2 s t err)
  then show ?case
    by (auto simp: transitionGameplayTrade_def cleanupGameplayTrades_def finishTradeCommand_def Let_def
        split: option.splits sum.splits gameplay_actor.splits if_splits)
next
  case (3 s t ev)
  then show ?case by (auto elim: transitionGameplayTrade_cases)
next
  case (4 s t ev)
  then show ?case by (auto elim: transitionGameplayTrade_cases)
qed

section \<open>Money in a trade\<close>

lemma tradeEvent_delta:
  "tradeEvent s who c tr = Some event \<Longrightarrow>
     eventDelta event = 0 \<and> salaryDelta event = 0 \<and> drawnCard [event] = None"
  by (auto simp: tradeEvent_def split: option.splits trade_command.splits prod.splits)

lemma expired_drawn: "drawnCard (map TradeExpired xs @ ev) = drawnCard ev"
  by (induction xs) auto

lemma expired_delta: "sum_list (map eventDelta (map TradeExpired xs)) = 0" "sum_list (map salaryDelta (map TradeExpired xs)) = 0"
  by (induction xs) auto

lemma transitionGameplayTrade_money:
  assumes "transitionGameplayTrade s c expected ctx = Accepted t ev"
  shows "aggregate_money t = moneySupply s" "expectedCashDelta s ev = 0"
proof -
  show "aggregate_money t = moneySupply s"
    using assms by (cases rule: transitionGameplayTrade_cases) (simp_all add: moneySupply_def trade_done_def)
  show "expectedCashDelta s ev = 0"
    using assms
  proof (cases rule: transitionGameplayTrade_cases)
    case cleanup
    have "drawnCard (map TradeExpired xs) = None" for xs using expired_drawn [of xs "[]"] by simp
    then show ?thesis unfolding cleanup(5) expectedCashDelta_def expired_delta by (simp del: map_map)
  next
    case (resolved who wanted m event expired)
    have "sum_list (map eventDelta (map TradeExpired expired @ [event])) = 0"
      "sum_list (map salaryDelta (map TradeExpired expired @ [event])) = 0"
      using expired_delta [of expired] tradeEvent_delta [OF resolved(8)] by simp_all
    then show ?thesis
      unfolding resolved(10) expectedCashDelta_def expired_drawn
      using tradeEvent_delta [OF resolved(8)] by simp
  qed
qed

section \<open>Trades and validity\<close>

definition parties_active :: "pending_trade list \<Rightarrow> 'a terminal_player_scheme option list \<Rightarrow> bool" where
  "parties_active trades players \<longleftrightarrow>
     (\<forall>t \<in> set trades. is_active (seat_at players (proposerSeatIndex t)) \<and>
        is_active (seat_at players (receiverSeatIndex t)))"

text \<open>The exception: the trade hands the property on which rent is due to the player who owes it.\<close>

definition buys_pending_rent :: "active_state \<Rightarrow> active_state \<Rightarrow> bool" where
  "buys_pending_rent s s' =
     (case phase (as_turn s) of
        AwaitingRentPayment pos \<Rightarrow>
          map_option ownerSeatIndex (js_index (gs_properties s') pos) = Some (Some (currentSeatIndex (as_turn s)))
      | _ \<Rightarrow> False)"

lemma building_view_inventory:
  assumes "building_view props' = building_view props" "isValidPropertyStates props'"
    "isValidBuildingInventory props stock"
  shows "isValidBuildingInventory props' stock"
proof -
  have "map houses props' = map houses props" "map hasHotel props' = map hasHotel props"
    using arg_cong [OF assms(1), of "map fst"] arg_cong [OF assms(1), of "map (fst \<circ> snd)"]
    by (simp_all add: building_view_def comp_def)
  moreover have "hotelsOnBoard ps = sum_list (map (\<lambda>b. if b then 1 else 0) (map hasHotel ps))" for ps
    by (simp add: hotelsOnBoard_sum comp_def)
  ultimately have "housesOnBoard props' = housesOnBoard props" "hotelsOnBoard props' = hotelsOnBoard props"
    by (simp_all only: housesOnBoard_def)
  with assms(2,3) show ?thesis by (simp add: validInventory_iff)
qed

text \<open>What the phase asks of the properties after a trade.\<close>

definition pending_property_ok :: "active_state \<Rightarrow> property_state list \<Rightarrow> bool" where
  "pending_property_ok s props =
     (case phase (as_turn s) of
        AwaitingPropertyDecision pos \<Rightarrow> (\<exists>q. js_index props pos = Some q \<and> ownerSeatIndex q = None)
      | AwaitingRentPayment pos \<Rightarrow>
          (\<exists>q. js_index props pos = Some q \<and> ownerSeatIndex q \<noteq> None \<and>
             ownerSeatIndex q \<noteq> Some (currentSeatIndex (as_turn s)) \<and> \<not> mortgaged q)
      | _ \<Rightarrow> True)"

lemma validPhase_iff:
  assumes "validPhase s p" "position p' = position p" "seatIndex p' = currentSeatIndex (as_turn s)"
    "as_turn s' = as_turn s" "isValidPropertyStates (gs_properties s')"
  shows "validPhase s' p' \<longleftrightarrow> pending_property_ok s (gs_properties s')"
proof (cases "phase (as_turn s)")
  case (AwaitingCardDraw deck)
  with assms(1) have "js_index BOARD_SPACES (position p) \<noteq> None" by (auto simp: validPhase_def)
  then have "0 \<le> position p" "position p < 40" by (auto simp: js_index_None_iff)
  then obtain q where "js_index (gs_properties s') (position p) = Some q" "propPosition q = position p"
    by (metis valid_properties_read [OF assms(5)] valid_property_position)
  with AwaitingCardDraw assms show ?thesis by (simp add: validPhase_def pending_property_ok_def)
qed (use assms in \<open>auto simp: validPhase_def pending_property_ok_def validPendingProperty_def split: option.splits\<close>)

lemma trade_next_valid:
  assumes guard: "commandGuard s ok expected now = None"
    and s': "s' = s\<lparr>gs_stateVersion := gs_stateVersion s + 1, gs_players := ps, gs_properties := props,
      gs_activeTrades := ts\<rparr>"
    and assets: "isValidBankruptcyState ps props (gs_inventory s) (gs_bankCash s)"
    and ps: "cash_only (gs_players s) ps" and ts: "list_all validPendingTrade ts"
  shows "isValidActiveGameplayAggregateState s' \<longleftrightarrow> pending_property_ok s props"
proof -
  note g = guard_facts [OF guard]
  obtain p where p: "seat_at (gs_players s) (currentSeatIndex (as_turn s)) = Some p" "status p = Active"
      "validPhase s p" "validBankruptcyPending s" "seatIndex p = currentSeatIndex (as_turn s)"
    using valid_activeGameplayPlayer [OF g(10)] by metis
  have "map_option (\<lambda>p. p\<lparr>cash := 0\<rparr>) (seat_at ps (currentSeatIndex (as_turn s))) = Some (p\<lparr>cash := 0\<rparr>)"
    using ps p(1) unfolding cash_only_seats by (metis option.simps(9))
  then obtain p' where p': "seat_at ps (currentSeatIndex (as_turn s)) = Some p'" "p'\<lparr>cash := 0\<rparr> = p\<lparr>cash := 0\<rparr>"
    by auto
  have "position p' = position (p'\<lparr>cash := 0\<rparr>)" "seatIndex p' = seatIndex (p'\<lparr>cash := 0\<rparr>)"
    "status p' = status (p'\<lparr>cash := 0\<rparr>)" by simp_all
  then have same: "position p' = position p" "seatIndex p' = seatIndex p" "status p' = status p"
    unfolding p'(2) by simp_all
  have props: "isValidPropertyStates props" using assets by (simp add: isValidBankruptcyState_iff validInventory_iff)
  have iff: "validPhase s' p' \<longleftrightarrow> pending_property_ok s props"
    using validPhase_iff [OF p(3) same(1), of s'] same p(5) props by (simp add: s')
  have pend: "validBankruptcyPending s'"
    using p(4) unfolding validBankruptcyPending_def s' by (auto split: option.splits)
  have inv: "gs_inventory s' = gs_inventory s" by (simp add: gs_inventory_def s')
  show ?thesis
  proof
    assume "isValidActiveGameplayAggregateState s'"
    then have "validPhase s' p'" using p'(1) by (auto simp: isValidActive_iff s')
    then show "pending_property_ok s props" by (simp add: iff)
  next
    assume ok: "pending_property_ok s props"
    have dice: "phase (as_turn s) = AwaitingRoll \<or> phase (as_turn s) = AwaitingBankruptcy \<or> gs_lastDice s \<noteq> None"
      "gs_startedAtMs s \<le> turnStartedAtMs (as_turn s)"
      using g(10) by (auto simp: isValidActive_iff)
    show "isValidActiveGameplayAggregateState s'"
      by (rule next_active_valid [OF guard, where p = p'])
        (use g dice assets p' same p(2) pend ts ok iff inv identity_view_cash_only [OF ps] in \<open>simp_all add: s'\<close>)
  qed
qed

text \<open>A trade command that moves nothing keeps the aggregate valid.\<close>

lemma unchanged_pending_ok:
  assumes "isValidActiveGameplayAggregateState s"
  shows "pending_property_ok s (gs_properties s)"
proof -
  obtain p where p: "validPhase s p" "seatIndex p = currentSeatIndex (as_turn s)"
    using valid_activeGameplayPlayer [OF assms] by metis
  moreover have "isValidPropertyStates (gs_properties s)"
    using assms by (auto simp: isValidActive_iff dest: valid_frame_parts(2))
  ultimately show ?thesis using validPhase_iff [OF p(1) refl p(2) refl] by simp
qed

lemma trade_quiet_valid:
  assumes acc: "transitionGameplayTrade s c expected ctx = Accepted t ev" and c: "\<forall>wanted. c \<noteq> AcceptTrade wanted"
  shows "isValidAggregate t"
  using acc
proof (cases rule: transitionGameplayTrade_cases)
  case cleanup
  note g = guard_facts [OF cleanup(1)]
  have "list_all validPendingTrade (filter (\<lambda>trade. expiresAtMs trade > nowMs ctx) (gs_activeTrades s))"
    using g(3) by (auto simp: list_all_iff)
  from trade_next_valid [OF cleanup(1) refl g(9) cash_only_refl this] unchanged_pending_ok [OF g(10)]
  show ?thesis by (simp add: cleanup(4))
next
  case (resolved who wanted m event expired)
  note g = guard_facts [OF resolved(1)]
  note k = resolveTradeCommand_keeps [OF resolved(6) c]
  have "list_all validPendingTrade (tm_trades m)" using resolved(7) by (simp add: trade_done_def validTradeState_iff)
  from trade_next_valid [OF resolved(1) refl g(9) cash_only_refl this] unchanged_pending_ok [OF g(10)]
  show ?thesis by (simp add: resolved(9) k)
qed

text \<open>Accepting between active players keeps the assets valid.\<close>

lemma swap_assets:
  assumes a: "isValidBankruptcyState ps props stock bank"
    and m: "acceptTrade live ps props wanted seat now = Inr m"
    and act: "parties_active live ps"
  shows "isValidBankruptcyState (tm_players m) (tm_properties m) stock bank"
  using m
proof (rule acceptTrade_Inr)
  fix t p r x y
  assume h: "validTradeState live ps props" "t \<in> set live"
    "seat_at ps (proposerSeatIndex t) = Some p" "seat_at ps (receiverSeatIndex t) = Some r"
    "settleTradeCash (cash p) (cash r) (tradeTerms t) = Inr (x, y)"
    "m = \<lparr>tm_trades = filter (\<lambda>candidate. tradeId candidate \<noteq> wanted) live,
        tm_players = swapTradeCash t x y ps, tm_properties = map (swapTradeProperty t) props,
        tm_trade = Some t, tm_removedTradeIds = [wanted]\<rparr>"
  from h have vt: "validPendingTrade t" by (auto simp: validTradeState_iff list_all_iff)
  note ne = validPendingTrade_seats [OF vt]
  from act h(2-4) have active: "status p = Active" "status r = Active"
    by (auto simp: parties_active_def)
  from h(1,3,4) have cash: "isCash (cash p)" "isCash (cash r)"
    by (auto simp: validTradeState_iff every_index_slot_ok_seats)
  note xy = settleTradeCash_sum [OF h(5) cash validPendingTrade_terms [OF vt]]
  note book = trade_accept.keeps_book [OF m]
  then have props': "isValidPropertyStates (map (swapTradeProperty t) props)"
    by (simp add: h(6) validTradeState_iff)
  have "isValidBuildingInventory (map (swapTradeProperty t) props) stock"
  proof (rule building_view_inventory [OF _ props'])
    show "building_view (map (swapTradeProperty t) props) = building_view props"
      using trade_accept.keeps_buildings [OF m] by (simp add: h(6))
    show "isValidBuildingInventory props stock" using a by (simp add: isValidBankruptcyState_iff)
  qed
  moreover have "owners_active (map (swapTradeProperty t) props) ps"
    using a h(3,4) active
    by (auto simp: isValidBankruptcyState_iff owners_active_def swapTradeProperty_def Let_def
        split: prod.splits if_splits)
  ultimately have "isValidBankruptcyState ps (map (swapTradeProperty t) props) stock bank"
    using a by (simp add: isValidBankruptcyState_iff)
  then have "isValidBankruptcyState (update_seat (proposerSeatIndex t) (\<lambda>q. q\<lparr>cash := x\<rparr>) ps)
      (map (swapTradeProperty t) props) stock bank"
    by (rule assets_update_seat) (use h(3) active xy in \<open>auto intro: cash_update_valid\<close>)
  then have "isValidBankruptcyState (swapTradeCash t x y ps) (map (swapTradeProperty t) props) stock bank"
    unfolding swapTradeCash_eq [OF ne]
    by (rule assets_update_seat) (use h(4) ne active xy in \<open>auto intro: cash_update_valid\<close>)
  then show ?thesis by (simp add: h(6))
qed

lemma swapTradeProperty_owner:
  assumes "isValidPropertyStates props" "js_index props pos = Some q"
    "validateProperty props (fst (propertyTerms (tradeTerms t))) (proposerSeatIndex t) = None"
    "validateProperty props (snd (propertyTerms (tradeTerms t))) (receiverSeatIndex t) = None"
  shows "ownerSeatIndex (swapTradeProperty t q) = None \<longleftrightarrow> ownerSeatIndex q = None"
    "mortgaged (swapTradeProperty t q) = mortgaged q"
proof -
  have pos: "propPosition q = pos" using valid_properties_index(2) [OF assms(1,2)] .
  show "mortgaged (swapTradeProperty t q) = mortgaged q"
    by (simp add: swapTradeProperty_def Let_def split: prod.split)
  have "ownerSeatIndex q \<noteq> None"
    if "Some pos = fst (propertyTerms (tradeTerms t)) \<or> Some pos = snd (propertyTerms (tradeTerms t))"
    using that validateProperty_None [OF assms(3), of pos] validateProperty_None [OF assms(4), of pos] assms(2)
    by auto
  then show "ownerSeatIndex (swapTradeProperty t q) = None \<longleftrightarrow> ownerSeatIndex q = None"
    by (auto simp: swapTradeProperty_def pos Let_def split: prod.splits)
qed

lemma swap_pending_ok:
  assumes m: "acceptTrade live ps props wanted seat now = Inr m" and ok: "pending_property_ok s props"
    and s': "gs_properties s' = tm_properties m"
  shows "pending_property_ok s (tm_properties m) \<longleftrightarrow> \<not> buys_pending_rent s s'"
  using m
proof (rule acceptTrade_Inr)
  fix t x y p r
  assume v: "validTradeState live ps props"
    "validateProperty props (fst (propertyTerms (tradeTerms t))) (proposerSeatIndex t) = None"
    "validateProperty props (snd (propertyTerms (tradeTerms t))) (receiverSeatIndex t) = None"
    and m: "m = \<lparr>tm_trades = filter (\<lambda>candidate. tradeId candidate \<noteq> wanted) live,
        tm_players = swapTradeCash t x y ps, tm_properties = map (swapTradeProperty t) props,
        tm_trade = Some t, tm_removedTradeIds = [wanted]\<rparr>"
  from v(1) have "isValidPropertyStates props" by (simp add: validTradeState_iff)
  note swap = swapTradeProperty_owner [OF this _ v(2,3)]
  show ?thesis
  proof (cases "phase (as_turn s)")
    case (AwaitingPropertyDecision pos)
    with ok swap(1) show ?thesis by (auto simp: pending_property_ok_def buys_pending_rent_def m)
  next
    case (AwaitingRentPayment pos)
    with ok obtain q where q: "js_index props pos = Some q" "ownerSeatIndex q \<noteq> None" "\<not> mortgaged q"
      by (auto simp: pending_property_ok_def)
    with swap [OF q(1)] AwaitingRentPayment s' show ?thesis
      by (simp add: pending_property_ok_def buys_pending_rent_def m)
  qed (simp_all add: pending_property_ok_def buys_pending_rent_def)
qed

text \<open>Accepting a trade keeps the aggregate valid unless it hands the property under rent to its
  debtor, and in that case never does.\<close>

lemma trade_accept_valid_iff:
  assumes acc: "transitionGameplayTrade s (AcceptTrade tid) expected ctx = Accepted (InProgress s') ev"
    and parties: "parties_active (gs_activeTrades s) (gs_players s)"
  shows "isValidActiveGameplayAggregateState s' \<longleftrightarrow> \<not> buys_pending_rent s s'"
  using acc
proof (cases rule: transitionGameplayTrade_cases)
  case (resolved who wanted m event expired)
  note g = guard_facts [OF resolved(1)]
  from resolved(6) have "acceptGameplayTrade s who tid (nowMs ctx) = Inr m" by simp
  then show ?thesis
  proof (rule acceptGameplayTrade_Inr)
    fix live m'
    assume m': "acceptTrade live (gs_players s) (gs_properties s) tid (seatIndex who) (nowMs ctx) = Inr m'"
      "tm_players m = tm_players m'" "tm_properties m = tm_properties m'" "set live \<subseteq> set (gs_activeTrades s)"
    have pa: "parties_active live (gs_players s)" using parties m'(4) by (auto simp: parties_active_def)
    note assets = swap_assets [OF g(9) m'(1) pa]
    have d: "cash_only (gs_players s) (tm_players m')" "list_all validPendingTrade (tm_trades m)"
      using resolved(7) m'(2) by (auto simp: trade_done_def validTradeState_iff)
    have s': "s' = s\<lparr>gs_stateVersion := gs_stateVersion s + 1, gs_players := tm_players m',
        gs_properties := tm_properties m', gs_activeTrades := tm_trades m\<rparr>"
      using resolved(9) m'(2,3) by simp
    have "isValidActiveGameplayAggregateState s' \<longleftrightarrow> pending_property_ok s (tm_properties m')"
      by (rule trade_next_valid [OF resolved(1) s' assets d])
    also have "\<dots> \<longleftrightarrow> \<not> buys_pending_rent s s'"
      by (rule swap_pending_ok [OF m'(1) unchanged_pending_ok [OF g(10)]]) (simp add: s')
    finally show ?thesis .
  qed
qed simp

text \<open>The open trades stay between active players.\<close>

lemma same_but_cash_status:
  fixes x y :: "'a terminal_player_scheme"
  assumes "x\<lparr>cash := 0\<rparr> = y\<lparr>cash := 0\<rparr>"
  shows "status x = status y"
  using arg_cong [OF assms, of status] by simp

lemma is_active_cash_only:
  assumes "cash_only ps qs"
  shows "is_active (seat_at qs i) = is_active (seat_at ps i)"
proof -
  have "map_option (\<lambda>p. p\<lparr>cash := 0\<rparr>) (seat_at ps i) = map_option (\<lambda>p. p\<lparr>cash := 0\<rparr>) (seat_at qs i)"
    using assms by (simp add: cash_only_seats)
  then show ?thesis
    by (cases "seat_at ps i"; cases "seat_at qs i") (auto dest: same_but_cash_status)
qed

lemma resolveTradeCommand_parties:
  assumes m: "resolveTradeCommand s who c newId now = Inr m" and frame: "validStateFrame s"
    and parties: "parties_active (gs_activeTrades s) (gs_players s)"
    and who: "seat_at (gs_players s) (seatIndex who) = Some who" "status who = Active"
  shows "parties_active (tm_trades m) (gs_players s)"
proof (cases c)
  case (CreateTrade receiverId terms)
  with m obtain r new where r: "gameplayPlayerById s receiverId = Some r" "status r = Active"
    and ct: "createTrade (gs_activeTrades s) (gs_players s) (gs_properties s) new (seatIndex who) (seatIndex r)
      terms now = Inr m"
    by (auto simp: createGameplayTrade_def split: option.splits if_splits sum.splits)
  note rs = gameplayPlayerById_seat(1) [OF r(1) frame]
  from ct show ?thesis
    by (rule createTrade_Inr) (use parties who r(2) rs in \<open>auto simp: parties_active_def\<close>)
next
  case (AcceptTrade wanted)
  with m have "acceptGameplayTrade s who wanted now = Inr m" by simp
  then obtain live m' where a: "acceptTrade live (gs_players s) (gs_properties s) wanted (seatIndex who) now = Inr m'"
    "tm_trades m = tm_trades m'" "set live \<subseteq> set (gs_activeTrades s)"
    by (rule acceptGameplayTrade_Inr)
  from a(1) show ?thesis
    by (rule acceptTrade_Inr) (use parties a(2,3) in \<open>auto simp: parties_active_def\<close>)
next
  case (RejectTrade wanted)
  with m have "removeTrade (gs_activeTrades s) (gs_players s) (gs_properties s) wanted (seatIndex who) now ReceiverRole = Inr m"
    by (auto simp: rejectTrade_def split: sum.splits)
  then show ?thesis by (rule removeTrade_Inr) (use parties in \<open>auto simp: parties_active_def\<close>)
next
  case (CancelTrade wanted)
  with m have "removeTrade (gs_activeTrades s) (gs_players s) (gs_properties s) wanted (seatIndex who) now ProposerRole = Inr m"
    by (auto simp: cancelTrade_def split: sum.splits)
  then show ?thesis by (rule removeTrade_Inr) (use parties in \<open>auto simp: parties_active_def\<close>)
next
  case CleanupExpiredTrades
  with m show ?thesis by simp
qed

text \<open>The book invariant: a well-formed book between active players.\<close>

definition book_ok :: "active_state \<Rightarrow> bool" where
  "book_ok s \<longleftrightarrow>
     validTradeState (gs_activeTrades s) (gs_players s) (gs_properties s) \<and>
     parties_active (gs_activeTrades s) (gs_players s)"

lemma transitionGameplayTrade_book:
  assumes acc: "transitionGameplayTrade s c expected ctx = Accepted (InProgress s') ev" and ok: "book_ok s"
  shows "book_ok s'"
  using acc
proof (cases rule: transitionGameplayTrade_cases)
  case cleanup
  with ok show ?thesis by (auto simp: book_ok_def parties_active_def intro: validTradeState_filter)
next
  case (resolved who wanted m event expired)
  note g = guard_facts [OF resolved(1)]
  note w = gameplayPlayerById_seat(1) [OF resolved(4) g(1)]
  have "parties_active (tm_trades m) (gs_players s)"
    using resolveTradeCommand_parties [OF resolved(6) g(1) _ w resolved(5)] ok by (simp add: book_ok_def)
  moreover have "cash_only (gs_players s) (tm_players m)" using resolved(7) by (simp add: trade_done_def)
  ultimately have "parties_active (tm_trades m) (tm_players m)"
    by (simp add: parties_active_def is_active_cash_only)
  with resolved(7,9) show ?thesis by (simp add: book_ok_def trade_done_def)
qed

end
