(* ===== verification/Game_Invariant.thy ===== *)
theory Game_Invariant
  imports Gameplay_Timeout Gameplay_Trade
begin

text \<open>
  The invariant of a running game. The validator \<open>isValidActiveGameplayAggregateState\<close>, which every
  command re-runs, is not by itself inductive in a useful way: it does not say that the parties of open
  trades are still playing, that a player who is still playing has a turn left to miss, or that there
  are two of them. The four parts together are kept by every handler.
\<close>

section \<open>The roster\<close>

text \<open>Who sits where, who is still playing, and how many turns they missed: what a handler that
  neither eliminates nor times out leaves alone.\<close>

definition roster :: "gameplay_player option list \<Rightarrow> (player_status \<times> int) option list" where
  "roster players = map (map_option (\<lambda>p. (status p, missedTurns p))) players"

definition rested :: "gameplay_player option list \<Rightarrow> bool" where
  "rested players \<longleftrightarrow> (\<forall>i p. seat_at players i = Some p \<longrightarrow> status p = Active \<longrightarrow> missedTurns p < maximumMissedTurns)"

definition contenders :: "'a terminal_player_scheme option list \<Rightarrow> nat" where
  "contenders players = length (filter is_active players)"

definition game_inv :: "active_state \<Rightarrow> bool" where
  "game_inv s \<longleftrightarrow>
     isValidActiveGameplayAggregateState s \<and> book_ok s \<and> rested (gs_players s) \<and> 2 \<le> contenders (gs_players s)"

fun aggregate_inv :: "aggregate \<Rightarrow> bool" where
  "aggregate_inv (InProgress s) = game_inv s"
| "aggregate_inv (Finished f) = isValidFinishedGameplayAggregateState f"

lemma roster_update_seat [simp]:
  assumes "\<And>p. status (f p) = status p \<and> missedTurns (f p) = missedTurns p"
  shows "roster (update_seat seat f ps) = roster ps"
  by (rule nth_equalityI) (use assms in \<open>auto simp: roster_def nth_update_seat option.map_comp comp_def\<close>)

lemma roster_seat: "map_option (\<lambda>p. (status p, missedTurns p)) (seat_at ps i) = seat_at (roster ps) i"
  by (auto simp: roster_def seat_at_def js_index_def)

lemma roster_same:
  assumes "roster qs = roster ps"
  shows "is_active (seat_at qs i) = is_active (seat_at ps i)" "(seat_at qs i = None) = (seat_at ps i = None)"
    "rested qs = rested ps" "contenders qs = contenders ps"
proof -
  have eq: "map_option (\<lambda>p. (status p, missedTurns p)) (seat_at qs i) =
      map_option (\<lambda>p. (status p, missedTurns p)) (seat_at ps i)" for i
    unfolding roster_seat assms ..
  show "is_active (seat_at qs i) = is_active (seat_at ps i)" "(seat_at qs i = None) = (seat_at ps i = None)"
    using eq [of i] by (cases "seat_at qs i"; cases "seat_at ps i"; simp)+
  have rested: "rested ps \<longleftrightarrow> (\<forall>i. case seat_at (roster ps) i of None \<Rightarrow> True
      | Some (st, m) \<Rightarrow> st = Active \<longrightarrow> m < maximumMissedTurns)" for ps
    unfolding rested_def roster_seat [symmetric] by (auto split: option.splits)
  show "rested qs = rested ps" using rested [of qs] rested [of ps] assms by simp
  have active: "is_active = (\<lambda>slot :: gameplay_player option. \<exists>p. slot = Some p \<and> status p = Active)"
    by (auto simp: fun_eq_iff is_active_def split: option.split)
  have contenders: "contenders ps = length (filter (\<lambda>x. map_option fst x = Some Active) (roster ps))" for ps
    unfolding contenders_def roster_def by (simp add: filter_map comp_def active)
  show "contenders qs = contenders ps" using contenders [of qs] contenders [of ps] assms by simp
qed

lemma contenders_active: "contenders players = length (activePlayers players)"
  by (induction players) (auto simp: contenders_def activePlayers_def map_filter_simps split: option.split)

text \<open>The book follows from validity when trades and roster are unchanged.\<close>

lemma slots_slot_ok: "slots_satisfy validBankruptcyPlayer ps \<Longrightarrow> every_index slot_ok ps"
  unfolding slots_satisfy_every every_index_iff slot_ok_def
  by (auto simp: validBankruptcyPlayer_def isCash_def split: option.splits)

lemma owners_active_seated: "owners_active props ps \<Longrightarrow> owners_seated props ps"
  unfolding owners_seated_def owners_active_def by (metis is_active_simps(1))

lemma book_ok_frame:
  assumes "validStateFrame s'" "book_ok s" "set (gs_activeTrades s') \<subseteq> set (gs_activeTrades s)"
    "length (gs_activeTrades s') \<le> length (gs_activeTrades s)" "distinct (map tradeId (gs_activeTrades s'))"
    "parties_active (gs_activeTrades s') (gs_players s')"
  shows "book_ok s'"
proof -
  note parts = valid_frame_parts [OF assms(1)]
  note owners = owners_active_seated [OF parts(8)]
  have "trades_seated (gs_activeTrades s') (gs_players s')"
    using assms(6) unfolding trades_seated_def parties_active_def by (metis is_active_simps(1))
  then show ?thesis
    using assms(2-6) parts slots_slot_ok [OF parts(7)] owners
    by (auto simp: book_ok_def validTradeState_iff list_all_iff)
qed

section \<open>Handlers that leave the roster alone\<close>

fun steady_step :: "active_state \<Rightarrow> aggregate \<Rightarrow> bool" where
  "steady_step s (InProgress s') \<longleftrightarrow>
     gs_activeTrades s' = gs_activeTrades s \<and> roster (gs_players s') = roster (gs_players s)"
| "steady_step s (Finished f) \<longleftrightarrow> False"

lemma steady_step_elim:
  assumes "steady_step s t"
  obtains s' where "t = InProgress s'" "gs_activeTrades s' = gs_activeTrades s" "roster (gs_players s') = roster (gs_players s)"
  using assms by (cases t) auto

locale steady_handler = sound_handler +
  assumes stays_in_progress: "handle s = Accepted t ev \<Longrightarrow> steady_step s t"
begin

lemma steady_book:
  assumes "handle s = Accepted (InProgress s') ev" "book_ok s"
  shows "book_ok s'"
proof -
  from stays_in_progress [OF assms(1)]
  have same: "gs_activeTrades s' = gs_activeTrades s" "roster (gs_players s') = roster (gs_players s)" by auto
  from keeps_valid [OF assms(1)] have frame: "validStateFrame s'" by (simp add: isValidActive_iff)
  show ?thesis
    by (rule book_ok_frame [OF frame assms(2)])
      (use assms(2) roster_same(1) [OF same(2)] in
        \<open>auto simp: same(1) book_ok_def parties_active_def validTradeState_iff\<close>)
qed

lemma steady_invariant:
  assumes "handle s = Accepted t ev" "game_inv s"
  shows "aggregate_inv t"
proof -
  from stays_in_progress [OF assms(1)] obtain s' where t: "t = InProgress s'"
    and r: "roster (gs_players s') = roster (gs_players s)" by (rule steady_step_elim)
  from steady_book assms t have "book_ok s'" by (auto simp: game_inv_def)
  with keeps_valid [OF assms(1)] t assms(2) roster_same(3,4) [OF r] show ?thesis by (simp add: game_inv_def)
qed

end

lemma turn_parts_stay:
  "endGameplayTurn s now = Accepted t ev \<Longrightarrow> steady_step s t"
  "jailedRoll s p now roll cp = Accepted t ev \<Longrightarrow> steady_step s t"
  "threeDoublesRoll s p now roll cp = Accepted t ev \<Longrightarrow> steady_step s t"
  "freeRoll s p now roll cp d = Accepted t ev \<Longrightarrow> steady_step s t"
     apply (auto simp: endGameplayTurn_def split: if_splits option.splits)[1]
    apply (auto simp: jailedRoll_def Let_def rolledState_def mergeJailState_def
        split: sum.splits option.splits jail_outcome.splits)[1]
   apply (auto simp: threeDoublesRoll_def rolledState_def sendToJail_def split: option.splits)[1]
  apply (auto simp: freeRoll_def Let_def rolledState_def sendToJail_def split: if_splits option.splits)[1]
  done

lemma turn_stays: "transitionGameplayTurn s c expected ctx = Accepted t ev \<Longrightarrow> steady_step s t"
  by (auto simp: transitionGameplayTurn_def rollGameplayDice_def split: if_splits option.splits
      dest: turn_parts_stay)

interpretation steady_turn: steady_handler "\<lambda>s. transitionGameplayTurn s c expected ctx" expected "nowMs ctx"
  for c expected ctx
  by unfold_locales (rule turn_stays)

interpretation steady_card: steady_handler "\<lambda>s. transitionGameplayCard s c expected ctx" expected "nowMs ctx"
  for c expected ctx
  by unfold_locales
    (auto simp: transitionGameplayCard_def applyDrawnCard_def Let_def mergeCardState_def
      split: if_splits option.splits sum.splits)

interpretation steady_jail: steady_handler "\<lambda>s. transitionGameplayJail s c expected ctx" expected "nowMs ctx"
  for c expected ctx
  by unfold_locales
    (auto simp: transitionGameplayJail_def leaveJail_def mergeJailState_def
      split: if_splits option.splits sum.splits)

lemma transferRent_roster [simp]:
  "roster (transferRent players payer payerCash owner ownerCash) = roster players"
  by (rule nth_equalityI) (auto simp: roster_def transferRent_def split: option.split)

lemma property_parts_stay:
  "decideProperty s p now pos buys = Accepted t ev \<Longrightarrow> steady_step s t"
  "payGameplayRent s p now pos = Accepted t ev \<Longrightarrow> steady_step s t"
  "payGameplayTax s p now kind = Accepted t ev \<Longrightarrow> steady_step s t"
  "changeBuilding s p now pos b = Accepted t ev \<Longrightarrow> steady_step s t"
  by (auto simp: decideProperty_def payGameplayRent_def payGameplayTax_def changeBuilding_def requireBankruptcy_def
      Let_def split: if_splits option.splits sum.splits)

interpretation steady_property: steady_handler "\<lambda>s. transitionGameplayProperty s c expected ctx" expected "nowMs ctx"
  for c expected ctx
  by unfold_locales
    (auto simp: transitionGameplayProperty_def dest: property_parts_stay
      split: if_splits option.splits property_command.splits)

section \<open>Handlers that change the roster\<close>

lemma contenders_update_seat:
  assumes "\<And>p. status (f p) = status p"
  shows "contenders (update_seat seat f ps) = contenders ps"
proof -
  have view: "map is_active (update_seat seat f ps) = map is_active ps"
    by (rule nth_equalityI) (use assms in \<open>auto simp: nth_update_seat is_active_def split: option.split\<close>)
  have count: "contenders ps = length (filter id (map is_active ps))" for ps :: "'a terminal_player_scheme option list"
    by (simp add: contenders_def filter_map comp_def)
  show ?thesis unfolding count view ..
qed

lemma tradesWithout_book:
  assumes "validStateFrame s'" "book_ok s" "gs_activeTrades s' = tradesWithout seat (gs_activeTrades s)"
    "\<And>i. i \<noteq> seat \<Longrightarrow> seat_at (gs_players s') i = seat_at (gs_players s) i"
  shows "book_ok s'"
  by (rule book_ok_frame [OF assms(1,2)])
    (use assms(2-4) in \<open>auto simp: tradesWithout_def book_ok_def parties_active_def validTradeState_iff distinct_map_filter\<close>)

text \<open>One liquidation that leaves two players keeps the invariant.\<close>

lemma liquidation_invariant:
  assumes r: "resolveBankruptcy ps props stock bank seat = Done r" "\<not> br_endConditionMet r"
    and same: "\<And>i. i \<noteq> seat \<Longrightarrow> seat_at ps i = seat_at (gs_players s) i" and inv: "game_inv s"
    and s': "isValidActiveGameplayAggregateState s'" "gs_players s' = br_players r"
      "gs_activeTrades s' = tradesWithout seat (gs_activeTrades s)"
  shows "game_inv s'"
proof -
  have players: "gs_players s' = update_seat seat eliminatePlayer ps"
    and two: "\<not> length (activeSeatIndexes (br_players r)) \<le> 1"
    using r s'(2) by (auto elim!: resolveBankruptcy_Done)
  have others: "seat_at (gs_players s') i = seat_at (gs_players s) i" if "i \<noteq> seat" for i
    using that same by (simp add: players)
  have "rested (gs_players s')"
    unfolding rested_def
  proof (intro allI impI)
    fix i p
    assume p: "seat_at (gs_players s') i = Some p" "status p = Active"
    then have "i \<noteq> seat" by (auto simp: players eliminatePlayer_def)
    with p others inv show "missedTurns p < maximumMissedTurns" by (auto simp: game_inv_def rested_def)
  qed
  moreover have "2 \<le> contenders (gs_players s')"
    using two s'(2) by (simp add: contenders_active activeSeatIndexes_eq)
  moreover have "validStateFrame s'" "book_ok s" using s'(1) inv by (simp_all add: isValidActive_iff game_inv_def)
  then have "book_ok s'" using s'(3) others by (rule tradesWithout_book)
  ultimately show ?thesis using s'(1) by (simp add: game_inv_def)
qed

lemma bankruptcy_invariant:
  assumes acc: "transitionGameplayBankruptcy s expected ctx = Accepted t ev" and inv: "game_inv s"
  shows "aggregate_inv t"
  using acc
proof (cases rule: transitionGameplayBankruptcy_cases)
  case (advanced p r turn n)
  from transitionGameplayBankruptcy_valid [OF acc] show ?thesis
    unfolding advanced(8) aggregate_inv.simps isValidAggregate.simps
    by (rule liquidation_invariant [OF advanced(5,6) refl inv]) simp_all
next
  case (ended p r terminal endingEvents)
  with transitionGameplayBankruptcy_valid [OF acc] show ?thesis by simp
qed

lemma expireTurn_invariant:
  assumes guard: "commandGuard s True expected now = None" and p: "activeGameplayPlayer s = Some p"
    and flag: "as_bankruptcyRequiredSeatIndex s = None" and e: "expireTurn s p now = Accepted t ev" and inv: "game_inv s"
  shows "aggregate_inv t"
proof -
  note valid = expireTurn_valid [OF guard p flag e]
  have seat: "seatIndex p = currentSeatIndex (as_turn s)"
    using guard_facts(10) [OF guard] p by (auto elim!: valid_activeGameplayPlayer)
  from e p show ?thesis
  proof (cases rule: expireTurn_cases)
    case (advanced n q)
    let ?ps = "update_seat (currentSeatIndex (as_turn s)) (\<lambda>q. q\<lparr>missedTurns := missedTurns p + 1\<rparr>) (gs_players s)"
    have active: "is_active (seat_at ?ps i) = is_active (seat_at (gs_players s) i)" for i
      by (cases "seat_at (gs_players s) i") auto
    have "rested ?ps" using inv advanced(1) by (auto simp: game_inv_def rested_def policy_simps)
    moreover have "contenders ?ps = contenders (gs_players s)" by (rule contenders_update_seat) simp
    moreover have "book_ok (s\<lparr>gs_stateVersion := gs_stateVersion s + 1, gs_players := ?ps,
        as_turn := phasedTurn AwaitingRoll (freshTurn n now), gs_lastDice := None\<rparr>)"
      (is "book_ok ?s'")
    proof (rule book_ok_frame [where s = s])
      show "validStateFrame ?s'" using valid unfolding advanced(6) by (simp add: isValidActive_iff)
      show "book_ok s" using inv by (simp add: game_inv_def)
      then show "parties_active (gs_activeTrades ?s') (gs_players ?s')" "distinct (map tradeId (gs_activeTrades ?s'))"
        by (simp_all add: active book_ok_def parties_active_def validTradeState_iff del: seat_at_update_seat)
    qed simp_all
    ultimately show ?thesis using valid inv unfolding advanced(6) by (simp add: game_inv_def)
  next
    case (handed_on r n q)
    from valid show ?thesis
      unfolding handed_on(7) aggregate_inv.simps isValidAggregate.simps
      by (intro liquidation_invariant [OF handed_on(2,3) _ inv]) (simp_all add: seat)
  next
    case (ended r terminal endingEvents)
    with valid show ?thesis by simp
  qed
qed

lemma timeout_invariant:
  assumes acc: "transitionGameplayTimeout s c expected ctx = Accepted t ev" and inv: "game_inv s"
  shows "aggregate_inv t"
  using acc
proof (rule transitionGameplayTimeout_Accepted)
  assume "enforceTimeLimit s (nowMs ctx) = Accepted t ev"
  with transitionGameplayTimeout_valid [OF acc] show ?thesis by (auto elim!: enforceTimeLimit_Accepted)
next
  fix p
  assume "c = WarnTurnThirtySeconds \<and> warnTurn s p 30 (nowMs ctx) = Accepted t ev \<or>
    c = WarnTurnTenSeconds \<and> warnTurn s p 10 (nowMs ctx) = Accepted t ev"
  then obtain turn where "t = InProgress (s\<lparr>gs_stateVersion := gs_stateVersion s + 1,
      as_turn := phasedTurn (phase (as_turn s)) turn\<rparr>)"
    by (auto elim!: warnTurn_Accepted)
  with transitionGameplayTimeout_valid [OF acc] inv show ?thesis by (simp add: game_inv_def book_ok_def)
next
  fix p
  assume "commandGuard s True expected (nowMs ctx) = None" "as_bankruptcyRequiredSeatIndex s = None"
    "activeGameplayPlayer s = Some p" "expireTurn s p (nowMs ctx) = Accepted t ev"
  then show ?thesis using inv by (intro expireTurn_invariant)
qed

section \<open>Trades\<close>

lemma same_but_cash_roster:
  fixes x y :: gameplay_player
  assumes "x\<lparr>cash := 0\<rparr> = y\<lparr>cash := 0\<rparr>"
  shows "(status x, missedTurns x) = (status y, missedTurns y)"
  using arg_cong [OF assms, of status] arg_cong [OF assms, of missedTurns] by simp

lemma cash_only_roster:
  assumes "cash_only ps qs"
  shows "roster qs = roster ps"
proof (rule nth_equalityI)
  show len: "length (roster qs) = length (roster ps)"
    using assms by (auto simp: roster_def cash_only_def dest: list_all2_lengthD)
next
  fix k
  assume k: "k < length (roster qs)"
  have "map_option (\<lambda>p. p\<lparr>cash := 0\<rparr>) (ps ! k) = map_option (\<lambda>p. p\<lparr>cash := 0\<rparr>) (qs ! k)"
    using assms k by (auto simp: roster_def cash_only_def list_all2_conv_all_nth)
  then have "map_option (\<lambda>p. (status p, missedTurns p)) (qs ! k) = map_option (\<lambda>p. (status p, missedTurns p)) (ps ! k)"
    by (cases "ps ! k"; cases "qs ! k") (auto dest: same_but_cash_roster)
  then show "roster qs ! k = roster ps ! k"
    using k assms by (simp add: roster_def cash_only_def list_all2_lengthD)
qed

text \<open>A trade command keeps the invariant, but for the one exception.\<close>

fun sells_rent_to_debtor :: "active_state \<Rightarrow> aggregate \<Rightarrow> bool" where
  "sells_rent_to_debtor s (InProgress s') = buys_pending_rent s s'"
| "sells_rent_to_debtor s (Finished f) = False"

lemma trade_roster:
  assumes "transitionGameplayTrade s c expected ctx = Accepted t ev"
  obtains s' where "t = InProgress s'" "roster (gs_players s') = roster (gs_players s)"
  using assms
proof (cases rule: transitionGameplayTrade_cases)
  case cleanup
  show thesis by (rule that [OF cleanup(4)]) simp
next
  case (resolved who wanted m event expired)
  show thesis by (rule that [OF resolved(9)]) (use resolved(7) in \<open>simp add: trade_done_def cash_only_roster\<close>)
qed

lemma trade_valid_iff:
  assumes acc: "transitionGameplayTrade s c expected ctx = Accepted (InProgress s') ev" and inv: "game_inv s"
  shows "isValidActiveGameplayAggregateState s' \<longleftrightarrow> \<not> ((\<exists>wanted. c = AcceptTrade wanted) \<and> buys_pending_rent s s')"
proof (cases "\<exists>wanted. c = AcceptTrade wanted")
  case True
  then obtain wanted where c: "c = AcceptTrade wanted" by blast
  with trade_accept_valid_iff [of s wanted expected ctx s' ev] acc inv show ?thesis
    by (simp add: game_inv_def book_ok_def)
next
  case False
  with trade_quiet_valid [OF acc] show ?thesis by simp
qed

lemma trade_invariant:
  assumes acc: "transitionGameplayTrade s c expected ctx = Accepted t ev" and inv: "game_inv s"
  shows "aggregate_inv t \<longleftrightarrow> \<not> ((\<exists>wanted. c = AcceptTrade wanted) \<and> sells_rent_to_debtor s t)"
proof -
  from acc obtain s' where s': "t = InProgress s'" "roster (gs_players s') = roster (gs_players s)"
    by (rule trade_roster)
  with transitionGameplayTrade_book [of s c expected ctx s' ev] trade_valid_iff [of s c expected ctx s' ev]
    acc inv roster_same(3,4) [OF s'(2)]
  show ?thesis by (simp add: game_inv_def)
qed

end
