(* ===== verification/Gameplay_Transition.thy ===== *)
theory Gameplay_Transition
  imports Game_Invariant
begin

text \<open>
  \<open>rules/gameplay-transition.ts\<close>: the one entry point every gameplay command goes through, and games
  as sequences of the transitions it accepts.
\<close>

section \<open>The router\<close>

text \<open>The regular expression for a player identifier is the one of \<open>assertOpaqueId\<close>; the shape of the
  random source holds by typing.\<close>

definition validContext :: "'r gameplay_context \<Rightarrow> bool" where
  "validContext ctx \<longleftrightarrow>
     isSafeInteger (nowMs ctx) \<and> nowMs ctx \<ge> 0 \<and>
     (case actor ctx of InternalActor \<Rightarrow> True | PlayerActor wanted \<Rightarrow> validOpaqueId wanted)"

definition routeCommand :: "active_state \<Rightarrow> gameplay_command \<Rightarrow> 'r gameplay_context \<Rightarrow> gameplay_result" where
  "routeCommand active command ctx =
     (let expected = expectedStateVersion command in
      case body command of
        TurnCommand c \<Rightarrow> transitionGameplayTurn active c expected ctx
      | PropertyCommand c \<Rightarrow> transitionGameplayProperty active c expected ctx
      | JailCommand c \<Rightarrow> transitionGameplayJail active c expected ctx
      | CardCommand c \<Rightarrow> transitionGameplayCard active c expected ctx
      | DeclareBankruptcy \<Rightarrow> transitionGameplayBankruptcy active expected ctx
      | TradeCommand c \<Rightarrow> transitionGameplayTrade active c expected ctx
      | TimeoutCommand c \<Rightarrow> transitionGameplayTimeout active c expected ctx
      | UnsupportedCommand _ \<Rightarrow> reject (InProgress active) COMMAND_UNSUPPORTED)"

definition transitionGameplay :: "aggregate \<Rightarrow> gameplay_command \<Rightarrow> 'r gameplay_context \<Rightarrow> gameplay_result" where
  "transitionGameplay state command ctx =
     (case state of
        Finished finished \<Rightarrow>
          if isValidFinishedGameplayAggregateState finished then reject state INVALID_PHASE
          else reject state INVALID_STATE
      | InProgress active \<Rightarrow>
          if \<not> isValidActiveGameplayAggregateState active then reject state INVALID_STATE
          else if \<not> validContext ctx then reject state INVALID_COMMAND
          else routeCommand active command ctx)"

section \<open>The router keeps the handlers' contract\<close>

lemma routeCommand_handlers:
  shows "routeCommand s command ctx \<noteq> Threw e"
    and "routeCommand s command ctx = Rejected t err \<Longrightarrow> t = InProgress s"
    and "routeCommand s command ctx = Accepted t ev \<Longrightarrow>
      commandGuard s True (expectedStateVersion command) (nowMs ctx) = None"
    and "routeCommand s command ctx = Accepted t ev \<Longrightarrow> aggregate_version t = gs_stateVersion s + 1"
  by (cases "body command";
      auto simp: routeCommand_def Let_def
        turn_handler.never_throws property_handler.never_throws jail_handler.never_throws card_handler.never_throws
        bankruptcy_handler.never_throws trade_handler.never_throws timeout_handler.never_throws
        dest: turn_handler.keeps_rejected property_handler.keeps_rejected jail_handler.keeps_rejected
          card_handler.keeps_rejected bankruptcy_handler.keeps_rejected trade_handler.keeps_rejected
          timeout_handler.keeps_rejected
          turn_handler.needs_guard property_handler.needs_guard jail_handler.needs_guard
          card_handler.needs_guard bankruptcy_handler.needs_guard trade_handler.needs_guard timeout_handler.needs_guard
          turn_handler.bumps_version property_handler.bumps_version jail_handler.bumps_version
          card_handler.bumps_version bankruptcy_handler.bumps_version trade_handler.bumps_version
          timeout_handler.bumps_version)+

interpretation router: gameplay_handler "\<lambda>s. transitionGameplay (InProgress s) command ctx"
    "expectedStateVersion command" "nowMs ctx" for command ctx
  by unfold_locales
    (auto simp: transitionGameplay_def routeCommand_handlers(1) dest: routeCommand_handlers(2-4) split: if_splits)

lemma transitionGameplay_Accepted:
  assumes "transitionGameplay a command ctx = Accepted b ev"
  obtains s where "a = InProgress s" "isValidActiveGameplayAggregateState s" "validContext ctx"
    "routeCommand s command ctx = Accepted b ev"
  using assms by (cases a) (auto simp: transitionGameplay_def split: if_splits)

text \<open>The exception to preservation, as a command and the state it leads to.\<close>

definition sells_pending_rent :: "active_state \<Rightarrow> gameplay_command \<Rightarrow> aggregate \<Rightarrow> bool" where
  "sells_pending_rent s command t \<longleftrightarrow>
     (\<exists>wanted. body command = TradeCommand (AcceptTrade wanted)) \<and> sells_rent_to_debtor s t"

lemma routeCommand_invariant:
  assumes acc: "routeCommand s command ctx = Accepted t ev" and inv: "game_inv s"
  shows "aggregate_inv t \<longleftrightarrow> \<not> sells_pending_rent s command t"
proof (cases "body command")
  case (TradeCommand c)
  with acc have "transitionGameplayTrade s c (expectedStateVersion command) ctx = Accepted t ev"
    by (simp add: routeCommand_def Let_def)
  from trade_invariant [OF this inv] TradeCommand show ?thesis by (simp add: sells_pending_rent_def)
qed (use acc inv in \<open>auto simp: routeCommand_def Let_def sells_pending_rent_def
  dest: steady_turn.steady_invariant steady_property.steady_invariant steady_jail.steady_invariant
    steady_card.steady_invariant bankruptcy_invariant timeout_invariant\<close>)

section \<open>Money\<close>

text \<open>The one step no event accounts for: the current player, in jail for the third failed roll, loses
  what is left.\<close>

definition jail_write_off :: "active_state \<Rightarrow> gameplay_event list \<Rightarrow> aggregate \<Rightarrow> bool" where
  "jail_write_off s ev t \<longleftrightarrow>
     (\<exists>p. activeGameplayPlayer s = Some p \<and> jailed_insolvent p ev \<and> aggregate_money t = moneySupply s - cash p)"

lemma routeCommand_money:
  assumes "routeCommand s command ctx = Accepted t ev"
  shows "aggregate_money t = moneySupply s + expectedCashDelta s ev \<or> jail_write_off s ev t"
proof (cases "body command")
  case (TurnCommand c)
  with assms have "transitionGameplayTurn s c (expectedStateVersion command) ctx = Accepted t ev"
    by (simp add: routeCommand_def Let_def)
  from transitionGameplayTurn_money [OF this] show ?thesis by (simp add: jail_write_off_def)
next
  case (TradeCommand c)
  with assms have "transitionGameplayTrade s c (expectedStateVersion command) ctx = Accepted t ev"
    by (simp add: routeCommand_def Let_def)
  from transitionGameplayTrade_money [OF this] show ?thesis by simp
qed (use assms in \<open>auto simp: routeCommand_def Let_def dest: transitionGameplayProperty_money
  transitionGameplayJail_money transitionGameplayCard_money transitionGameplayBankruptcy_money
  transitionGameplayTimeout_money\<close>)

section \<open>Games\<close>

text \<open>The aggregates a game reaches from an opening position when every one of the given commands is
  accepted.\<close>

inductive game_run ::
  "aggregate \<Rightarrow> (gameplay_command \<times> 'r gameplay_context) list \<Rightarrow> aggregate \<Rightarrow> bool" where
  run_start: "game_run a [] a"
| run_step: "game_run a steps b \<Longrightarrow> transitionGameplay b command ctx = Accepted c ev \<Longrightarrow>
    game_run a (steps @ [(command, ctx)]) c"

inductive_simps game_run_Nil [simp]: "game_run a [] b"

lemma run_version: "game_run a steps b \<Longrightarrow> aggregate_version b = aggregate_version a + int (length steps)"
proof (induction rule: game_run.induct)
  case (run_step a steps b command ctx c ev)
  from run_step(2) obtain s where s: "b = InProgress s" by (rule transitionGameplay_Accepted)
  from router.bumps_version [OF run_step(2) [unfolded s]] run_step(3) s show ?case by simp
qed simp

text \<open>Runs, read from the front.\<close>

lemma run_Cons:
  assumes "transitionGameplay a command ctx = Accepted b ev" "game_run b steps c"
  shows "game_run a ((command, ctx) # steps) c"
  using assms(2,1)
proof (induction rule: game_run.induct)
  case (run_start b)
  from run_step [OF game_run.run_start run_start] show ?case by simp
next
  case (run_step b steps c command' ctx' d ev')
  from game_run.run_step [OF run_step(3) [OF run_step(4)] run_step(2)] show ?case by simp
qed

lemma run_ConsD:
  assumes "game_run a steps' c" "steps' = (command, ctx) # steps"
  shows "\<exists>b ev. transitionGameplay a command ctx = Accepted b ev \<and> game_run b steps c"
  using assms
proof (induction arbitrary: steps rule: game_run.induct)
  case (run_step a past b command' ctx' c ev)
  show ?case
  proof (cases past)
    case Nil
    with run_step show ?thesis by (auto simp: game_run_Nil)
  next
    case (Cons x rest)
    with run_step(4) have x: "x = (command, ctx)" "steps = rest @ [(command', ctx')]" by auto
    with run_step(3) [of rest] Cons obtain b' ev' where
      "transitionGameplay a command ctx = Accepted b' ev'" "game_run b' rest b" by blast
    with run_step(2) x show ?thesis by (blast intro: game_run.run_step)
  qed
qed simp

lemma run_Cons_iff:
  "game_run a ((command, ctx) # steps) c \<longleftrightarrow>
     (\<exists>b ev. transitionGameplay a command ctx = Accepted b ev \<and> game_run b steps c)"
  using run_Cons run_ConsD by blast

lemma routeCommand_poisons:
  assumes acc: "routeCommand s command ctx = Accepted t ev" and inv: "game_inv s"
    and sells: "sells_pending_rent s command t"
  shows "\<not> isValidAggregate t"
proof -
  from sells obtain wanted s' where body: "body command = TradeCommand (AcceptTrade wanted)" "t = InProgress s'"
      "buys_pending_rent s s'"
    by (cases t) (auto simp: sells_pending_rent_def)
  with acc have "transitionGameplayTrade s (AcceptTrade wanted) (expectedStateVersion command) ctx =
      Accepted (InProgress s') ev" by (simp add: routeCommand_def Let_def)
  from trade_valid_iff [OF this inv] body show ?thesis by simp
qed

lemma run_invariant:
  assumes "game_run a steps b" "aggregate_inv a"
  shows "aggregate_inv b \<or> \<not> isValidAggregate b"
  using assms
proof (induction rule: game_run.induct)
  case (run_step a steps b command ctx c ev)
  from run_step(2) obtain s where s: "b = InProgress s" "isValidActiveGameplayAggregateState s"
    "routeCommand s command ctx = Accepted c ev" by (rule transitionGameplay_Accepted)
  with run_step(3,4) have inv: "game_inv s" by auto
  from routeCommand_invariant [OF s(3) inv] routeCommand_poisons [OF s(3) inv] show ?case by blast
qed simp

end
