(* ===== verification/Lifecycle.thy ===== *)
theory Lifecycle
  imports Gameplay_Transition
begin

text \<open>
  \<open>rules/lifecycle.ts\<close> with \<open>commands/game-command.ts\<close> and the lobby part of \<open>events/domain-event.ts\<close>:
  a game is created, joined, left, cancelled and started. A started game is the input of
  \<open>initializeGameplayAggregate\<close>; the lobby invariant is what makes that input acceptable.
\<close>

section \<open>Commands, events, context\<close>

datatype game_command_body =
    CreateGame string int "int option"
  | JoinGame
  | LeaveGame
  | CancelGame
  | StartGame

record game_command =
  gc_expectedStateVersion :: int
  gc_body :: game_command_body

datatype domain_event =
    GameCreated string
  | PlayerJoined string int int
  | PlayerLeft string int int
  | GameStarted int
  | GameCancelled int

record 'r lifecycle_context =
  lc_actorId :: string
  lc_nowMs :: int
  lc_randomSource :: "'r random_source"
  lc_randomCursor :: 'r

type_synonym lifecycle_result = "(game_state option, domain_event) transition_result"

section \<open>Operations\<close>

definition requireWaiting :: "game_state \<Rightarrow> game_base option" where
  "requireWaiting state = (case state of WaitingGame g \<Rightarrow> Some g | _ \<Rightarrow> None)"

definition createSeat :: "string \<Rightarrow> int \<Rightarrow> int \<Rightarrow> player_seat" where
  "createSeat player index now =
     \<lparr>ps_seatIndex = index, ps_playerId = player, ps_status = Active, ps_cash = STARTING_MATCH_CASH,
      ps_position = 0, ps_inJail = False, ps_joinedAtMs = now\<rparr>"

text \<open>\<open>randomCheckpoint\<close> of \<open>lifecycle.ts\<close> makes the checks of \<open>readRandomCheckpoint\<close>, and
  \<open>canResumeRandomSource\<close> those of \<open>canResume\<close>.\<close>

definition randomCheckpoint :: "'r lifecycle_context \<Rightarrow> random_checkpoint option" where
  "randomCheckpoint ctx = readRandomCheckpoint (lc_randomSource ctx) (lc_randomCursor ctx)"

definition withVersionAndRng :: "game_base \<Rightarrow> 'r lifecycle_context \<Rightarrow> game_base option" where
  "withVersionAndRng state ctx =
     (case randomCheckpoint ctx of
        None \<Rightarrow> None
      | Some rng \<Rightarrow> Some (state\<lparr>gm_stateVersion := gm_stateVersion state + 1, gm_rng := rng\<rparr>))"

definition createGame ::
  "int \<Rightarrow> string \<Rightarrow> int \<Rightarrow> int option \<Rightarrow> 'r lifecycle_context \<Rightarrow> lifecycle_result" where
  "createGame expected game maximum limit ctx =
     (if expected \<noteq> 0 then reject None STALE_STATE_VERSION
      else if maximum < minimumPlayers \<or> maximum > maximumPlayers then reject None INVALID_COMMAND
      else if (case limit of None \<Rightarrow> False
               | Some l \<Rightarrow> \<not> isSafeInteger l \<or> l \<le> 0 \<or> l > 86400000)
      then reject None INVALID_COMMAND
      else case randomCheckpoint ctx of
        None \<Rightarrow> reject None INVALID_STATE
      | Some rng \<Rightarrow>
          Accepted (Some (WaitingGame
            \<lparr>gm_schemaVersion = GAME_SCHEMA_VERSION, gm_rulesetId = GAMEPLAY_RULESET_ID, gm_stateVersion = 1,
             gm_gameId = game, gm_creatorId = lc_actorId ctx, gm_minimumPlayers = minimumPlayers,
             gm_maximumPlayers = maximum,
             gm_seats = Some (createSeat (lc_actorId ctx) 0 (lc_nowMs ctx)) # replicate 3 None,
             gm_bankCash = STARTING_BANK_CASH, gm_freeParkingPool = 0, gm_housesRemaining = 32,
             gm_hotelsRemaining = 12, gm_createdAtMs = lc_nowMs ctx, gm_timeLimitMs = limit,
             gm_turnTimeoutMs = DEFAULT_TURN_TIMEOUT_MS, gm_rng = rng\<rparr>))
            [GameCreated (lc_actorId ctx)])"

text \<open>\<open>startedAtMs ?? 0\<close> and \<open>cancelledAtMs ?? 0\<close> of each variant.\<close>

fun lifecycleInstants :: "game_state \<Rightarrow> int list" where
  "lifecycleInstants (WaitingGame g) = [0, 0]"
| "lifecycleInstants (InProgressGame g) = [ip_startedAtMs g, 0]"
| "lifecycleInstants (CancelledGame g) = [0, cg_cancelledAtMs g]"
| "lifecycleInstants (FinishedGame g) = [fg_startedAtMs g, 0]"

definition latestObservedAtMs :: "game_state \<Rightarrow> int" where
  "latestObservedAtMs state =
     fold max (map ps_joinedAtMs (occupiedSeats (game_base_of state)) @ lifecycleInstants state)
       (gm_createdAtMs (game_base_of state))"

text \<open>\<open>findIndex\<close>\<close>

fun findIndexFrom :: "int \<Rightarrow> (int \<Rightarrow> 'a \<Rightarrow> bool) \<Rightarrow> 'a list \<Rightarrow> int option" where
  "findIndexFrom i P [] = None"
| "findIndexFrom i P (x # xs) = (if P i x then Some i else findIndexFrom (i + 1) P xs)"

definition joinGame :: "game_base \<Rightarrow> 'r lifecycle_context \<Rightarrow> lifecycle_result" where
  "joinGame waiting ctx =
     (if list_ex (\<lambda>seat. ps_playerId seat = lc_actorId ctx) (occupiedSeats waiting)
      then reject (Some (WaitingGame waiting)) PLAYER_ALREADY_JOINED
      else case findIndexFrom 0 (\<lambda>index slot. index < gm_maximumPlayers waiting \<and> slot = None) (gm_seats waiting) of
        None \<Rightarrow> reject (Some (WaitingGame waiting)) GAME_FULL
      | Some index \<Rightarrow>
          (let seats = (gm_seats waiting)[nat index := Some (createSeat (lc_actorId ctx) index (lc_nowMs ctx))] in
           case withVersionAndRng (waiting\<lparr>gm_seats := seats\<rparr>) ctx of
             None \<Rightarrow> reject (Some (WaitingGame waiting)) INVALID_STATE
           | Some next \<Rightarrow>
               Accepted (Some (WaitingGame next))
                 [PlayerJoined (lc_actorId ctx) index (int (length (occupiedSeats next)))]))"

definition leaveGame :: "game_base \<Rightarrow> 'r lifecycle_context \<Rightarrow> lifecycle_result" where
  "leaveGame waiting ctx =
     (if lc_actorId ctx = gm_creatorId waiting
      then reject (Some (WaitingGame waiting)) CREATOR_CANNOT_LEAVE
      else case findIndexFrom 0 (\<lambda>_ slot. map_option ps_playerId slot = Some (lc_actorId ctx)) (gm_seats waiting) of
        None \<Rightarrow> reject (Some (WaitingGame waiting)) PLAYER_NOT_FOUND
      | Some index \<Rightarrow>
          (case withVersionAndRng (waiting\<lparr>gm_seats := (gm_seats waiting)[nat index := None]\<rparr>) ctx of
             None \<Rightarrow> reject (Some (WaitingGame waiting)) INVALID_STATE
           | Some next \<Rightarrow>
               Accepted (Some (WaitingGame next))
                 [PlayerLeft (lc_actorId ctx) index (int (length (occupiedSeats next)))]))"

definition cancelGame :: "game_base \<Rightarrow> 'r lifecycle_context \<Rightarrow> lifecycle_result" where
  "cancelGame waiting ctx =
     (if lc_actorId ctx \<noteq> gm_creatorId waiting
      then reject (Some (WaitingGame waiting)) UNAUTHORIZED_ACTOR
      else case randomCheckpoint ctx of
        None \<Rightarrow> reject (Some (WaitingGame waiting)) INVALID_STATE
      | Some rng \<Rightarrow>
          Accepted (Some (CancelledGame (game_base.extend
              (waiting\<lparr>gm_stateVersion := gm_stateVersion waiting + 1, gm_rng := rng\<rparr>)
              \<lparr>cg_cancelledAtMs = lc_nowMs ctx\<rparr>)))
            [GameCancelled (int (length (occupiedSeats waiting)))])"

definition startGame :: "game_base \<Rightarrow> 'r lifecycle_context \<Rightarrow> lifecycle_result" where
  "startGame waiting ctx =
     (let totalPlayers = int (length (occupiedSeats waiting)) in
      if lc_actorId ctx \<noteq> gm_creatorId waiting
      then reject (Some (WaitingGame waiting)) UNAUTHORIZED_ACTOR
      else if totalPlayers < gm_minimumPlayers waiting
      then reject (Some (WaitingGame waiting)) MINIMUM_PLAYERS_NOT_MET
      else (let gameEndAtMs = map_option (\<lambda>limit. lc_nowMs ctx + limit) (gm_timeLimitMs waiting);
                turnDeadlineAtMs = lc_nowMs ctx + gm_turnTimeoutMs waiting in
        if (case gameEndAtMs of None \<Rightarrow> False | Some end' \<Rightarrow> \<not> isSafeInteger end') \<or>
           \<not> isSafeInteger turnDeadlineAtMs
        then reject (Some (WaitingGame waiting)) INVALID_STATE
        else case randomCheckpoint ctx of
          None \<Rightarrow> reject (Some (WaitingGame waiting)) INVALID_STATE
        | Some rng \<Rightarrow>
            Accepted (Some (InProgressGame (game_base.extend
                (waiting\<lparr>gm_stateVersion := gm_stateVersion waiting + 1, gm_rng := rng\<rparr>)
                \<lparr>ip_startedAtMs = lc_nowMs ctx, ip_gameEndAtMs = gameEndAtMs,
                 ip_turn = \<lparr>ot_currentSeatIndex = 0, ot_startedAtMs = lc_nowMs ctx,
                            ot_deadlineAtMs = turnDeadlineAtMs\<rparr>\<rparr>)))
              [GameStarted totalPlayers]))"

definition transition :: "game_state option \<Rightarrow> game_command \<Rightarrow> 'r lifecycle_context \<Rightarrow> lifecycle_result" where
  "transition state command ctx =
     (if \<not> safeEpoch (lc_nowMs ctx) then reject state INVALID_COMMAND
      else case (gc_body command, state) of
        (CreateGame game maximum limit, None) \<Rightarrow>
          createGame (gc_expectedStateVersion command) game maximum limit ctx
      | (CreateGame _ _ _, Some _) \<Rightarrow> reject state GAME_ALREADY_EXISTS
      | (_, None) \<Rightarrow> reject None GAME_NOT_FOUND
      | (wanted, Some current) \<Rightarrow>
          if gc_expectedStateVersion command \<noteq> gm_stateVersion (game_base_of current)
          then reject_retryable state STALE_STATE_VERSION
          else if lc_nowMs ctx < latestObservedAtMs current then reject state INVALID_STATE
          else if gm_stateVersion (game_base_of current) \<ge> MAX_STATE_VERSION then reject state INVALID_STATE
          else if \<not> canResume (lc_randomSource ctx) (lc_randomCursor ctx) (gm_rng (game_base_of current))
          then reject state INVALID_STATE
          else (case requireWaiting current of
            None \<Rightarrow> reject state GAME_NOT_WAITING
          | Some waiting \<Rightarrow> (case wanted of
              JoinGame \<Rightarrow> joinGame waiting ctx
            | LeaveGame \<Rightarrow> leaveGame waiting ctx
            | CancelGame \<Rightarrow> cancelGame waiting ctx
            | _ \<Rightarrow> startGame waiting ctx)))"

section \<open>The lobby invariant\<close>

definition seat_ok :: "'a game_base_scheme \<Rightarrow> int \<Rightarrow> player_seat \<Rightarrow> bool" where
  "seat_ok g i seat \<longleftrightarrow>
     ps_seatIndex seat = i \<and> ps_status seat = Active \<and> validOpaqueId (ps_playerId seat) \<and>
     ps_cash seat = STARTING_MATCH_CASH \<and> ps_position seat = 0 \<and> \<not> ps_inJail seat \<and>
     isSafeInteger (ps_joinedAtMs seat) \<and> gm_createdAtMs g \<le> ps_joinedAtMs seat \<and> i < gm_maximumPlayers g"

definition ids_distinct :: "player_seat option list \<Rightarrow> bool" where
  "ids_distinct seats \<longleftrightarrow> (\<forall>i j p q. seat_at seats i = Some p \<longrightarrow> seat_at seats j = Some q \<longrightarrow>
     ps_playerId p = ps_playerId q \<longrightarrow> i = j)"

definition lobby_ok :: "'a game_base_scheme \<Rightarrow> bool" where
  "lobby_ok g \<longleftrightarrow>
     gm_schemaVersion g = GAME_SCHEMA_VERSION \<and> gm_rulesetId g = GAMEPLAY_RULESET_ID \<and>
     validOpaqueId (gm_gameId g) \<and> validOpaqueId (gm_creatorId g) \<and>
     1 \<le> gm_stateVersion g \<and> gm_stateVersion g \<le> MAX_STATE_VERSION \<and>
     gm_minimumPlayers g = minimumPlayers \<and> minimumPlayers \<le> gm_maximumPlayers g \<and>
     gm_maximumPlayers g \<le> maximumPlayers \<and> length (gm_seats g) = 4 \<and>
     gm_bankCash g = STARTING_BANK_CASH \<and> gm_freeParkingPool g = 0 \<and>
     gm_housesRemaining g = totalHouses \<and> gm_hotelsRemaining g = totalHotels \<and>
     isSafeInteger (gm_createdAtMs g) \<and> 0 \<le> gm_createdAtMs g \<and> gm_turnTimeoutMs g = turnTimeoutMs \<and>
     (case gm_timeLimitMs g of None \<Rightarrow> True | Some l \<Rightarrow> isSafeInteger l \<and> 1 \<le> l \<and> l \<le> 86400000) \<and>
     validCheckpoint (gm_rng g) \<and> slots_satisfy (seat_ok g) (gm_seats g) \<and> ids_distinct (gm_seats g) \<and>
     map_option ps_playerId (seat_at (gm_seats g) 0) = Some (gm_creatorId g)"

text \<open>A started game: a lobby whose players all joined before the start, with at least two of them.\<close>

definition started_ok :: "in_progress_game \<Rightarrow> bool" where
  "started_ok g \<longleftrightarrow>
     lobby_ok g \<and> 2 \<le> length (occupiedSeats g) \<and> isSafeInteger (ip_startedAtMs g) \<and>
     gm_createdAtMs g \<le> ip_startedAtMs g \<and>
     (\<forall>seat \<in> set (occupiedSeats g). ps_joinedAtMs seat \<le> ip_startedAtMs g) \<and>
     ip_gameEndAtMs g = map_option (\<lambda>l. ip_startedAtMs g + l) (gm_timeLimitMs g) \<and>
     (case ip_gameEndAtMs g of None \<Rightarrow> True | Some e \<Rightarrow> isSafeInteger e) \<and>
     ip_turn g = \<lparr>ot_currentSeatIndex = 0, ot_startedAtMs = ip_startedAtMs g,
                  ot_deadlineAtMs = ip_startedAtMs g + turnTimeoutMs\<rparr> \<and>
     isSafeInteger (ip_startedAtMs g + turnTimeoutMs)"

fun lifecycle_inv :: "game_state \<Rightarrow> bool" where
  "lifecycle_inv (WaitingGame g) = lobby_ok g"
| "lifecycle_inv (InProgressGame g) = started_ok g"
| "lifecycle_inv (CancelledGame g) = lobby_ok g"
| "lifecycle_inv (FinishedGame g) = lobby_ok g"

text \<open>The identifiers of a command and its actor are branded: they come out of \<open>gameId\<close> and
  \<open>playerId\<close>, which only accept opaque identifiers.\<close>

definition branded :: "game_command \<Rightarrow> 'r lifecycle_context \<Rightarrow> bool" where
  "branded command ctx \<longleftrightarrow> validOpaqueId (lc_actorId ctx) \<and>
     (case gc_body command of CreateGame game _ _ \<Rightarrow> validOpaqueId game | _ \<Rightarrow> True)"

section \<open>Searching and updating seats\<close>

lemma findIndexFrom_Some:
  "findIndexFrom i P xs = Some k \<Longrightarrow> i \<le> k \<and> k < i + int (length xs) \<and> P k (xs ! nat (k - i))"
proof (induction i P xs rule: findIndexFrom.induct)
  case (2 i P x xs)
  show ?case
  proof (cases "P i x")
    case False
    with 2 have "i + 1 \<le> k" "k < i + 1 + int (length xs)" "P k (xs ! nat (k - (i + 1)))" by auto
    moreover from this(1) have "nat (k - i) = Suc (nat (k - (i + 1)))" by linarith
    ultimately show ?thesis by simp
  qed (use 2 in simp)
qed simp

lemma findIndexFrom_None: "findIndexFrom i P xs = None \<Longrightarrow> k < length xs \<Longrightarrow> \<not> P (i + int k) (xs ! k)"
proof (induction i P xs arbitrary: k rule: findIndexFrom.induct)
  case (2 i P x xs)
  then show ?case by (cases k) (auto simp: algebra_simps split: if_splits)
qed simp

lemma seat_at_list_update:
  assumes "0 \<le> k" "k < int (length xs)"
  shows "seat_at (xs[nat k := v]) i = (if i = k then v else seat_at xs i)"
  using assms by (auto simp: seat_at_def js_index_def nth_list_update nat_eq_iff)

lemma occupiedSeats_iff: "seat \<in> set (occupiedSeats g) \<longleftrightarrow> (\<exists>i. seat_at (gm_seats g) i = Some seat)"
  unfolding occupiedSeats_def by (rule occupied_seats)

lemma fold_max_le: "fold max xs (a :: int) \<le> n \<longleftrightarrow> a \<le> n \<and> (\<forall>x \<in> set xs. x \<le> n)"
  by (induction xs arbitrary: a) auto

lemma latestObserved_joined:
  assumes "latestObservedAtMs (WaitingGame g) \<le> now"
  shows "gm_createdAtMs g \<le> now" "\<And>i seat. seat_at (gm_seats g) i = Some seat \<Longrightarrow> ps_joinedAtMs seat \<le> now"
proof -
  have "gm_createdAtMs g \<le> now" "\<forall>x \<in> set (map ps_joinedAtMs (occupiedSeats g) @ [0, 0]). x \<le> now"
    using assms unfolding latestObservedAtMs_def fold_max_le by simp_all
  then show "gm_createdAtMs g \<le> now" "\<And>i seat. seat_at (gm_seats g) i = Some seat \<Longrightarrow> ps_joinedAtMs seat \<le> now"
    using occupiedSeats_iff [of _ g] by auto
qed

section \<open>The invariant is kept\<close>

lemma createSeat_ok:
  "validOpaqueId player \<Longrightarrow> isSafeInteger now \<Longrightarrow> gm_createdAtMs g \<le> now \<Longrightarrow> i < gm_maximumPlayers g \<Longrightarrow>
     seat_ok g i (createSeat player i now)"
  by (simp add: seat_ok_def createSeat_def)

lemma seats_update:
  assumes ok: "slots_satisfy (seat_ok g) seats" "ids_distinct seats"
    and k: "0 \<le> k" "k < int (length seats)" and v: "\<And>p. v = Some p \<Longrightarrow> seat_ok g k p"
    and new: "\<And>p i q. v = Some p \<Longrightarrow> seat_at seats i = Some q \<Longrightarrow> ps_playerId q \<noteq> ps_playerId p"
  shows "slots_satisfy (seat_ok g) (seats[nat k := v])" "ids_distinct (seats[nat k := v])"
proof -
  show "slots_satisfy (seat_ok g) (seats[nat k := v])"
    unfolding slots_satisfy_def seat_at_list_update [OF k]
    using ok(1) v by (auto simp: slots_satisfy_def)
  show "ids_distinct (seats[nat k := v])"
    unfolding ids_distinct_def seat_at_list_update [OF k]
  proof (intro allI impI)
    fix i j p q
    assume "(if i = k then v else seat_at seats i) = Some p" "(if j = k then v else seat_at seats j) = Some q"
      "ps_playerId p = ps_playerId q"
    with ok(2) new [of p j q] new [of q i p] show "i = j" by (auto simp: ids_distinct_def split: if_splits)
  qed
qed

lemma randomCheckpoint_valid: "randomCheckpoint ctx = Some rng \<Longrightarrow> validCheckpoint rng"
  by (auto simp: randomCheckpoint_def readRandomCheckpoint_def split: sum.splits if_splits)

lemma lobby_ok_step:
  assumes "lobby_ok g" "gm_stateVersion g < MAX_STATE_VERSION" "validCheckpoint rng"
    "slots_satisfy (seat_ok g) seats" "ids_distinct seats" "length seats = 4"
    "map_option ps_playerId (seat_at seats 0) = Some (gm_creatorId g)"
  shows "lobby_ok (g\<lparr>gm_seats := seats, gm_stateVersion := gm_stateVersion g + 1, gm_rng := rng\<rparr>)"
proof -
  have "slots_satisfy (seat_ok (g\<lparr>gm_seats := seats, gm_stateVersion := v, gm_rng := rng\<rparr>)) seats" for v
    using assms(4) by (simp add: slots_satisfy_def seat_ok_def)
  with assms show ?thesis by (simp add: lobby_ok_def)
qed

lemma seat_at_replicate_None [simp]: "seat_at (replicate n None) i = None"
  by (auto simp: seat_at_def js_index_def)

lemma createGame_ok:
  assumes "createGame expected game maximum limit ctx = Accepted t ev" "validOpaqueId (lc_actorId ctx)"
    "validOpaqueId game" "safeEpoch (lc_nowMs ctx)"
  obtains g where "t = Some (WaitingGame g)" "lobby_ok g" "gm_stateVersion g = 1"
proof -
  from assms obtain rng where rng: "randomCheckpoint ctx = Some rng" and r: "minimumPlayers \<le> maximum"
      "maximum \<le> maximumPlayers"
      "case limit of None \<Rightarrow> True | Some l \<Rightarrow> isSafeInteger l \<and> 1 \<le> l \<and> l \<le> 86400000"
    by (auto simp: createGame_def split: if_splits option.splits)
  from assms(1) rng show thesis
    using assms(2-4) r randomCheckpoint_valid [OF rng]
    by (auto simp: createGame_def lobby_ok_def slots_satisfy_def ids_distinct_def seat_ok_def createSeat_def
        safeEpoch_def policy_simps seat_at_Cons split: if_splits option.splits intro!: that)
qed

lemma joinGame_ok:
  assumes acc: "joinGame g ctx = Accepted t ev" and ok: "lobby_ok g" "gm_stateVersion g < MAX_STATE_VERSION"
    and ctx: "validOpaqueId (lc_actorId ctx)" "safeEpoch (lc_nowMs ctx)" "gm_createdAtMs g \<le> lc_nowMs ctx"
  obtains g' where "t = Some (WaitingGame g')" "lobby_ok g'" "gm_stateVersion g' = gm_stateVersion g + 1"
proof -
  from acc obtain k rng where k: "findIndexFrom 0 (\<lambda>index slot. index < gm_maximumPlayers g \<and> slot = None) (gm_seats g) = Some k"
    and rng: "randomCheckpoint ctx = Some rng"
    and t: "t = Some (WaitingGame (g\<lparr>gm_seats := (gm_seats g)[nat k := Some (createSeat (lc_actorId ctx) k (lc_nowMs ctx))],
        gm_stateVersion := gm_stateVersion g + 1, gm_rng := rng\<rparr>))"
    and fresh: "\<not> list_ex (\<lambda>seat. ps_playerId seat = lc_actorId ctx) (occupiedSeats g)"
    by (auto simp: joinGame_def withVersionAndRng_def Let_def split: if_splits option.splits)
  from findIndexFrom_Some [OF k] have free: "0 \<le> k" "k < int (length (gm_seats g))" "k < gm_maximumPlayers g"
    "gm_seats g ! nat k = None" by auto
  from ok(1) have parts: "slots_satisfy (seat_ok g) (gm_seats g)" "ids_distinct (gm_seats g)" "length (gm_seats g) = 4"
    "map_option ps_playerId (seat_at (gm_seats g) 0) = Some (gm_creatorId g)" by (auto simp: lobby_ok_def)
  let ?v = "Some (createSeat (lc_actorId ctx) k (lc_nowMs ctx))"
  have new: "ps_playerId q \<noteq> lc_actorId ctx" if "seat_at (gm_seats g) i = Some q" for i q
    using fresh that occupiedSeats_iff [of q g] by (auto simp: list_ex_iff)
  have safe: "isSafeInteger (lc_nowMs ctx)" using ctx(2) by (simp add: safeEpoch_def)
  note upd = seats_update [OF parts(1,2) free(1,2), of ?v]
  have seats: "slots_satisfy (seat_ok g) ((gm_seats g)[nat k := ?v])" "ids_distinct ((gm_seats g)[nat k := ?v])"
    by (rule upd; use createSeat_ok [OF ctx(1) safe ctx(3) free(3)] new in \<open>auto simp: createSeat_def\<close>)+
  have "k \<noteq> 0" using parts(4) free(2,4) by (auto simp: seat_at_def js_index_def split: if_splits)
  then have "map_option ps_playerId (seat_at ((gm_seats g)[nat k := ?v]) 0) = Some (gm_creatorId g)"
    using parts(4) by (simp add: seat_at_list_update [OF free(1,2)])
  from that [OF t lobby_ok_step [OF ok randomCheckpoint_valid [OF rng] seats _ this]] parts(3) show thesis by simp
qed

lemma leaveGame_ok:
  assumes acc: "leaveGame g ctx = Accepted t ev" and ok: "lobby_ok g" "gm_stateVersion g < MAX_STATE_VERSION"
  obtains g' where "t = Some (WaitingGame g')" "lobby_ok g'" "gm_stateVersion g' = gm_stateVersion g + 1"
proof -
  from acc obtain k rng where k: "findIndexFrom 0 (\<lambda>_ slot. map_option ps_playerId slot = Some (lc_actorId ctx)) (gm_seats g) = Some k"
    and rng: "randomCheckpoint ctx = Some rng"
    and t: "t = Some (WaitingGame (g\<lparr>gm_seats := (gm_seats g)[nat k := None],
        gm_stateVersion := gm_stateVersion g + 1, gm_rng := rng\<rparr>))"
    and other: "lc_actorId ctx \<noteq> gm_creatorId g"
    by (auto simp: leaveGame_def withVersionAndRng_def split: if_splits option.splits)
  from findIndexFrom_Some [OF k] have here: "0 \<le> k" "k < int (length (gm_seats g))"
    "map_option ps_playerId (gm_seats g ! nat k) = Some (lc_actorId ctx)" by auto
  from ok(1) have parts: "slots_satisfy (seat_ok g) (gm_seats g)" "ids_distinct (gm_seats g)" "length (gm_seats g) = 4"
    "map_option ps_playerId (seat_at (gm_seats g) 0) = Some (gm_creatorId g)" by (auto simp: lobby_ok_def)
  have seats: "slots_satisfy (seat_ok g) ((gm_seats g)[nat k := None])" "ids_distinct ((gm_seats g)[nat k := None])"
    by (rule seats_update [OF parts(1,2) here(1,2)]; simp)+
  have "k \<noteq> 0" using parts(4) here(2,3) other by (auto simp: seat_at_def js_index_def split: if_splits)
  then have "map_option ps_playerId (seat_at ((gm_seats g)[nat k := None]) 0) = Some (gm_creatorId g)"
    using parts(4) by (simp add: seat_at_list_update [OF here(1,2)])
  from that [OF t lobby_ok_step [OF ok randomCheckpoint_valid [OF rng] seats _ this]] parts(3) show thesis by simp
qed

lemma extend_lobby:
  "lobby_ok (game_base.extend g extra) \<longleftrightarrow> lobby_ok g" "occupiedSeats (game_base.extend g extra) = occupiedSeats g"
  by (simp_all add: lobby_ok_def game_base.defs slots_satisfy_def seat_ok_def occupiedSeats_def)

lemma same_seats_step:
  assumes "lobby_ok g" "gm_stateVersion g < MAX_STATE_VERSION" "validCheckpoint rng"
  shows "lobby_ok (g\<lparr>gm_stateVersion := gm_stateVersion g + 1, gm_rng := rng\<rparr>)"
  using lobby_ok_step [OF assms, of "gm_seats g"] assms(1) by (simp add: lobby_ok_def)

lemma cancelGame_ok:
  assumes "cancelGame g ctx = Accepted t ev" "lobby_ok g" "gm_stateVersion g < MAX_STATE_VERSION"
  obtains g' where "t = Some (CancelledGame g')" "lobby_ok g'" "gm_stateVersion g' = gm_stateVersion g + 1"
proof -
  from assms(1) obtain rng where rng: "randomCheckpoint ctx = Some rng"
    and t: "t = Some (CancelledGame (game_base.extend
      (g\<lparr>gm_stateVersion := gm_stateVersion g + 1, gm_rng := rng\<rparr>) \<lparr>cg_cancelledAtMs = lc_nowMs ctx\<rparr>))"
    by (auto simp: cancelGame_def split: if_splits option.splits)
  show thesis
  proof (rule that [OF t])
    show "lobby_ok (game_base.extend (g\<lparr>gm_stateVersion := gm_stateVersion g + 1, gm_rng := rng\<rparr>)
        \<lparr>cg_cancelledAtMs = lc_nowMs ctx\<rparr>)"
      unfolding extend_lobby by (rule same_seats_step [OF assms(2,3) randomCheckpoint_valid [OF rng]])
  qed (simp add: game_base.defs)
qed

lemma startGame_ok:
  assumes acc: "startGame g ctx = Accepted t ev" and ok: "lobby_ok g" "gm_stateVersion g < MAX_STATE_VERSION"
    and ctx: "safeEpoch (lc_nowMs ctx)" "latestObservedAtMs (WaitingGame g) \<le> lc_nowMs ctx"
  obtains g' where "t = Some (InProgressGame g')" "started_ok g'" "gm_stateVersion g' = gm_stateVersion g + 1"
proof -
  let ?limit = "map_option (\<lambda>l. lc_nowMs ctx + l) (gm_timeLimitMs g)"
  from acc obtain rng where rng: "randomCheckpoint ctx = Some rng"
    and two: "\<not> int (length (occupiedSeats g)) < gm_minimumPlayers g"
    and safe: "case ?limit of None \<Rightarrow> True | Some e \<Rightarrow> isSafeInteger e"
      "isSafeInteger (lc_nowMs ctx + gm_turnTimeoutMs g)"
    and t: "t = Some (InProgressGame (game_base.extend
      (g\<lparr>gm_stateVersion := gm_stateVersion g + 1, gm_rng := rng\<rparr>)
      \<lparr>ip_startedAtMs = lc_nowMs ctx, ip_gameEndAtMs = ?limit,
       ip_turn = \<lparr>ot_currentSeatIndex = 0, ot_startedAtMs = lc_nowMs ctx,
         ot_deadlineAtMs = lc_nowMs ctx + gm_turnTimeoutMs g\<rparr>\<rparr>))"
    by (auto simp: startGame_def Let_def split: if_splits option.splits)
  note step = same_seats_step [OF ok randomCheckpoint_valid [OF rng]]
  note joined = latestObserved_joined [OF ctx(2)]
  have g: "gm_minimumPlayers g = 2" "gm_turnTimeoutMs g = turnTimeoutMs"
    using ok(1) by (auto simp: lobby_ok_def policy_simps)
  have early: "\<forall>seat \<in> set (occupiedSeats g). ps_joinedAtMs seat \<le> lc_nowMs ctx"
    using joined(2) occupiedSeats_iff [of _ g] by auto
  show thesis
  proof (rule that [OF t])
    show "started_ok (game_base.extend (g\<lparr>gm_stateVersion := gm_stateVersion g + 1, gm_rng := rng\<rparr>)
      \<lparr>ip_startedAtMs = lc_nowMs ctx, ip_gameEndAtMs = ?limit,
       ip_turn = \<lparr>ot_currentSeatIndex = 0, ot_startedAtMs = lc_nowMs ctx,
         ot_deadlineAtMs = lc_nowMs ctx + gm_turnTimeoutMs g\<rparr>\<rparr>)"
      unfolding started_ok_def extend_lobby
      using step two safe early joined(1) ctx(1) g
      by (simp add: game_base.defs occupiedSeats_def safeEpoch_def)
  qed (simp add: game_base.defs)
qed

definition lobby_version :: "game_state option \<Rightarrow> int" where
  "lobby_version state = (case state of None \<Rightarrow> 0 | Some g \<Rightarrow> gm_stateVersion (game_base_of g))"

lemma lobby_version_simps [simp]:
  "lobby_version None = 0" "lobby_version (Some (WaitingGame w)) = gm_stateVersion w"
  "lobby_version (Some (InProgressGame g)) = gm_stateVersion g"
  "lobby_version (Some (CancelledGame c)) = gm_stateVersion c"
  by (simp_all add: lobby_version_def game_base.defs)

lemma transition_Accepted:
  assumes "transition state command ctx = Accepted t ev"
  obtains (create) game maximum limit where "state = None" "gc_body command = CreateGame game maximum limit"
      "safeEpoch (lc_nowMs ctx)"
      "createGame (gc_expectedStateVersion command) game maximum limit ctx = Accepted t ev"
  | (lobby) g where "state = Some (WaitingGame g)" "safeEpoch (lc_nowMs ctx)"
      "gc_expectedStateVersion command = gm_stateVersion g" "gm_stateVersion g < MAX_STATE_VERSION"
      "latestObservedAtMs (WaitingGame g) \<le> lc_nowMs ctx"
      "gc_body command = JoinGame \<and> joinGame g ctx = Accepted t ev \<or>
       gc_body command = LeaveGame \<and> leaveGame g ctx = Accepted t ev \<or>
       gc_body command = CancelGame \<and> cancelGame g ctx = Accepted t ev \<or>
       gc_body command = StartGame \<and> startGame g ctx = Accepted t ev"
  using assms
  by (cases "gc_body command"; cases state)
    (auto simp: transition_def requireWaiting_def split: if_splits option.splits game_state.splits)

lemma transition_invariant:
  assumes acc: "transition state command ctx = Accepted t ev" and brand: "branded command ctx"
    and inv: "\<And>g. state = Some g \<Longrightarrow> lifecycle_inv g"
  obtains g where "t = Some g" "lifecycle_inv g" "lobby_version t = lobby_version state + 1"
  using acc
proof (cases rule: transition_Accepted)
  case (create game maximum limit)
  with brand have b: "validOpaqueId (lc_actorId ctx)" "validOpaqueId game" by (auto simp: branded_def)
  from createGame_ok [OF create(4) b create(3)] create(1) that show thesis by (metis lifecycle_inv.simps(1)
    lobby_version_simps(1,2) add_0)
next
  case (lobby g)
  have ok: "lobby_ok g" using inv [OF lobby(1)] by simp
  have b: "validOpaqueId (lc_actorId ctx)" using brand by (simp add: branded_def)
  note created = latestObserved_joined(1) [OF lobby(5)]
  from lobby(6) consider "joinGame g ctx = Accepted t ev" | "leaveGame g ctx = Accepted t ev"
    | "cancelGame g ctx = Accepted t ev" | "startGame g ctx = Accepted t ev" by blast
  then show thesis
  proof cases
    case 1
    from joinGame_ok [OF 1 ok lobby(4) b lobby(2) created] obtain g' where
      "t = Some (WaitingGame g')" "lobby_ok g'" "gm_stateVersion g' = gm_stateVersion g + 1" .
    with lobby(1) show thesis by (intro that [of "WaitingGame g'"]) simp_all
  next
    case 2
    from leaveGame_ok [OF 2 ok lobby(4)] obtain g' where
      "t = Some (WaitingGame g')" "lobby_ok g'" "gm_stateVersion g' = gm_stateVersion g + 1" .
    with lobby(1) show thesis by (intro that [of "WaitingGame g'"]) simp_all
  next
    case 3
    from cancelGame_ok [OF 3 ok lobby(4)] obtain g' where
      "t = Some (CancelledGame g')" "lobby_ok g'" "gm_stateVersion g' = gm_stateVersion g + 1" .
    with lobby(1) show thesis by (intro that [of "CancelledGame g'"]) simp_all
  next
    case 4
    from startGame_ok [OF 4 ok lobby(4,2,5)] obtain g' where
      "t = Some (InProgressGame g')" "started_ok g'" "gm_stateVersion g' = gm_stateVersion g + 1" .
    with lobby(1) show thesis by (intro that [of "InProgressGame g'"]) simp_all
  qed
qed

lemma lobby_parts_never_throw:
  "createGame expected game maximum limit ctx \<noteq> Threw e" "joinGame g ctx \<noteq> Threw e" "leaveGame g ctx \<noteq> Threw e"
  "cancelGame g ctx \<noteq> Threw e" "startGame g ctx \<noteq> Threw e"
  by (auto simp: createGame_def joinGame_def leaveGame_def cancelGame_def startGame_def Let_def split: option.splits)

lemma lobby_parts_rejected:
  "createGame expected game maximum limit ctx = Rejected t err \<Longrightarrow> t = None"
  "joinGame g ctx = Rejected t err \<Longrightarrow> t = Some (WaitingGame g)"
  "leaveGame g ctx = Rejected t err \<Longrightarrow> t = Some (WaitingGame g)"
  "cancelGame g ctx = Rejected t err \<Longrightarrow> t = Some (WaitingGame g)"
  "startGame g ctx = Rejected t err \<Longrightarrow> t = Some (WaitingGame g)"
  by (auto simp: createGame_def joinGame_def leaveGame_def cancelGame_def startGame_def Let_def
      split: option.splits if_splits)

lemma requireWaiting_Some [simp]: "requireWaiting g = Some w \<longleftrightarrow> g = WaitingGame w"
  by (cases g) (auto simp: requireWaiting_def)

lemma transition_never_throws: "transition state command ctx \<noteq> Threw e"
  by (cases state; cases "gc_body command") (auto simp: transition_def lobby_parts_never_throw split: option.split)

lemma transition_rejects_unchanged: "transition state command ctx = Rejected t err \<Longrightarrow> t = state"
  by (cases state; cases "gc_body command")
    (auto simp: transition_def dest: lobby_parts_rejected split: option.splits if_splits)

section \<open>From the lobby into the game\<close>

lemma distinct_occupied:
  assumes "ids_distinct xs"
  shows "distinct (map ps_playerId (List.map_filter id xs))"
  using assms
proof (induction xs)
  case (Cons x xs)
  have tail: "ids_distinct xs"
    unfolding ids_distinct_def
  proof (intro allI impI)
    fix i j p q
    assume h: "seat_at xs i = Some p" "seat_at xs j = Some q" "ps_playerId p = ps_playerId q"
    then have "0 \<le> i" "0 \<le> j" by (auto simp: seat_at_Some_iff)
    with h have "seat_at (x # xs) (i + 1) = Some p" "seat_at (x # xs) (j + 1) = Some q" by (auto simp: seat_at_Cons)
    with Cons(2) h(3) show "i = j" unfolding ids_distinct_def by (metis add_right_cancel)
  qed
  show ?case
  proof (cases x)
    case None
    with Cons(1) [OF tail] show ?thesis by (simp add: map_filter_simps)
  next
    case (Some p)
    have "ps_playerId p \<notin> ps_playerId ` set (List.map_filter id xs)"
    proof
      assume "ps_playerId p \<in> ps_playerId ` set (List.map_filter id xs)"
      then obtain q i where q: "seat_at xs i = Some q" "ps_playerId p = ps_playerId q" by (auto simp: occupied_seats)
      then have "seat_at (x # xs) (i + 1) = Some q" "i + 1 \<noteq> 0" by (auto simp: seat_at_Cons seat_at_Some_iff)
      moreover have "seat_at (x # xs) 0 = Some p" using Some by (simp add: seat_at_Cons)
      ultimately show False using Cons(2) q(2) unfolding ids_distinct_def by metis
    qed
    with Cons(1) [OF tail] Some show ?thesis by (simp add: map_filter_simps id_def)
  qed
qed (simp add: map_filter_simps)

lemma validSeatsFrom_iff:
  "validSeatsFrom g i ids xs \<longleftrightarrow>
     every_from i (\<lambda>i slot. case slot of None \<Rightarrow> True | Some p \<Rightarrow> seat_ok g i p) xs \<and>
     distinct (map ps_playerId (List.map_filter id xs)) \<and>
     set ids \<inter> set (map ps_playerId (List.map_filter id xs)) = {}"
  by (induction g i ids xs rule: validSeatsFrom.induct)
    (auto simp: map_filter_simps seat_ok_def policy_simps)

lemma started_creator:
  assumes "lobby_ok g"
  obtains z where "seat_at (gm_seats g) 0 = Some z" "ps_playerId z = gm_creatorId g" "seat_ok g 0 z"
  using assms by (auto simp: lobby_ok_def slots_satisfy_def)

lemma started_input:
  assumes "started_ok g"
  shows "validLifecycleInput g"
proof -
  have ok: "lobby_ok g" using assms by (simp add: started_ok_def)
  then obtain z where z: "seat_at (gm_seats g) 0 = Some z" "ps_playerId z = gm_creatorId g" "seat_ok g 0 z"
    by (rule started_creator)
  have "distinct (map ps_playerId (List.map_filter id (gm_seats g)))"
    using ok by (intro distinct_occupied) (simp add: lobby_ok_def)
  with ok have "validSeatsFrom g 0 [] (gm_seats g)"
    by (simp add: validSeatsFrom_iff lobby_ok_def slots_satisfy_every every_index_def)
  moreover have "isSafeInteger 0" by (simp add: isSafeInteger_def MAX_SAFE_INTEGER_def)
  ultimately show ?thesis
    using assms ok z
    by (cases "gm_timeLimitMs g") (auto simp: started_ok_def lobby_ok_def validLifecycleInput_def policy_simps seat_ok_def)
qed

text \<open>The opening position.\<close>

lemma initialPlayer_simps [simp]:
  "seatIndex (initialPlayer p) = ps_seatIndex p" "playerId (initialPlayer p) = ps_playerId p"
  "joinedAtMs (initialPlayer p) = ps_joinedAtMs p" "status (initialPlayer p) = ps_status p"
  "missedTurns (initialPlayer p) = 0"
  by (simp_all add: initialPlayer_def)

lemma initial_slots:
  assumes "every_from i (\<lambda>i slot. case slot of None \<Rightarrow> True | Some p \<Rightarrow> seat_ok g i p) xs"
    "\<And>p. p \<in> set (List.map_filter id xs) \<Longrightarrow> ps_joinedAtMs p \<le> started" "0 \<le> gm_createdAtMs g"
    "distinct (map ps_playerId (List.map_filter id xs))" "set ids \<inter> set (map ps_playerId (List.map_filter id xs)) = {}"
  shows "validSlotsFrom started i ids (map (map_option initialPlayer) xs)"
  using assms
proof (induction xs arbitrary: i ids)
  case (Cons x xs)
  show ?case
  proof (cases x)
    case None
    with Cons show ?thesis by (simp add: map_filter_simps)
  next
    case (Some p)
    with Cons(3) [of p] have joined: "ps_joinedAtMs p \<le> started" by (simp add: map_filter_simps)
    have "validSlotsFrom started (i + 1) (ps_playerId p # ids) (map (map_option initialPlayer) xs)"
      using Some Cons(2-6) by (intro Cons(1)) (auto simp: map_filter_simps)
    with Some Cons(2,4,6) joined show ?thesis
      by (auto simp: map_filter_simps seat_ok_def)
  qed
qed simp

lemma initialPlayer_valid: "seat_ok g i seat \<Longrightarrow> validBankruptcyPlayer i (initialPlayer seat)"
  by (simp add: seat_ok_def initialPlayer_def validBankruptcyPlayer_def policy_simps MAX_MATCH_CASH_def)

lemma seat_at_map_option: "seat_at (map (map_option f) xs) i = map_option f (seat_at xs i)"
  by (simp add: seat_at_def option.map_comp comp_def split: option.split)

lemma fresh_properties:
  "isValidBuildingInventory createPropertyStates \<lparr>housesRemaining = 32, hotelsRemaining = 12\<rparr>"
  "owners_active createPropertyStates players"
proof -
  have "p \<in> set createPropertyStates \<Longrightarrow> houses p = 0 \<and> \<not> hasHotel p \<and> ownerSeatIndex p = None" for p
    by (auto simp: createPropertyStates_def)
  note empty = this
  have zero: "map houses createPropertyStates = map (\<lambda>_. 0) createPropertyStates"
    "map (\<lambda>p. if hasHotel p then 1 else 0 :: int) createPropertyStates = map (\<lambda>_. 0) createPropertyStates"
    by (rule map_cong [OF refl], simp add: empty)+
  have "sum_list (map houses createPropertyStates) = 0"
    "sum_list (map (\<lambda>p. if hasHotel p then 1 else 0 :: int) createPropertyStates) = 0"
    by (simp_all only: zero sum_list_0)
  moreover have "owners_active createPropertyStates players" by (simp add: owners_active_def empty)
  ultimately show "isValidBuildingInventory createPropertyStates \<lparr>housesRemaining = 32, hotelsRemaining = 12\<rparr>"
    "owners_active createPropertyStates players"
    using createPropertyStates_valid
    by (simp_all add: validInventory_iff policy_simps housesOnBoard_def hotelsOnBoard_sum)
qed

lemma opening_contenders:
  assumes "slots_satisfy (seat_ok g) seats"
  shows "contenders (map (map_option initialPlayer) seats) = length (List.map_filter id seats)"
proof -
  have "Some p \<in> set seats \<Longrightarrow> ps_status p = Active" for p
    using assms by (auto simp: seat_at_member slots_satisfy_def seat_ok_def)
  then show ?thesis
    by (induction seats) (auto simp: contenders_def map_filter_simps split: option.split)
qed

lemma started_opens:
  assumes "started_ok g"
  obtains s where "initializeGameplayAggregate g = Some s" "game_inv s"
proof -
  have ok: "lobby_ok g" using assms by (simp add: started_ok_def)
  then obtain z where z: "seat_at (gm_seats g) 0 = Some z" "seat_ok g 0 z" by (rule started_creator)
  obtain s where s: "initializeGameplayAggregate g = Some s"
    using started_input [OF assms] by (simp add: initializeGameplayAggregate_def)
  let ?ps = "map (map_option initialPlayer) (gm_seats g)"
  from ok have seats: "slots_satisfy (seat_ok g) (gm_seats g)" "ids_distinct (gm_seats g)" "length (gm_seats g) = 4"
    by (auto simp: lobby_ok_def)
  have slots: "validGameplayPlayerSlots ?ps (ip_startedAtMs g)"
    unfolding validGameplayPlayerSlots_def
    by (rule initial_slots [where g = g])
      (use assms ok distinct_occupied [OF seats(2)] seats(1) in
        \<open>auto simp: started_ok_def lobby_ok_def occupiedSeats_def slots_satisfy_every every_index_def\<close>)
  have "slots_satisfy validBankruptcyPlayer ?ps"
    using seats(1) by (auto simp: slots_satisfy_def seat_at_map_option intro: initialPlayer_valid)
  then have assets: "isValidBankruptcyState ?ps createPropertyStates \<lparr>housesRemaining = 32, hotelsRemaining = 12\<rparr>
      (gm_bankCash g)"
    using ok fresh_properties by (simp add: isValidBankruptcyState_iff lobby_ok_def isCash_def policy_simps
        MAX_MATCH_CASH_def)
  have s_eq: "gs_players s = ?ps" "gs_activeTrades s = []" "gs_properties s = createPropertyStates"
    "gs_inventory s = \<lparr>housesRemaining = 32, hotelsRemaining = 12\<rparr>" "gs_bankCash s = gm_bankCash g"
    using s ok by (auto simp: initializeGameplayAggregate_def gs_inventory_def lobby_ok_def policy_simps split: if_splits)
  have frame: "validStateFrame s"
    using s assms ok slots assets createPropertyStates_valid seats(3)
    by (cases "gm_timeLimitMs g") (auto simp: validStateFrame_def initializeGameplayAggregate_def gs_inventory_def lobby_ok_def
        started_ok_def policy_simps MAX_MATCH_CASH_def split: if_splits)
  have valid: "isValidActiveGameplayAggregateState s"
    using s frame assms ok z
    by (auto simp: isValidActive_iff initializeGameplayAggregate_def clock_ok_def warning_history_def dice_ok_def
        started_ok_def lobby_ok_def seat_at_map_option seat_ok_def validBankruptcyPending_def
        validPhase_def split: if_splits)
  have "book_ok s"
    using slots_slot_ok [OF valid_frame_parts(7) [OF frame]] owners_active_seated [OF fresh_properties(2) [of ?ps]]
      createPropertyStates_valid seats(3)
    by (simp add: book_ok_def validTradeState_iff s_eq parties_active_def trades_seated_def)
  moreover have "rested (gs_players s)"
    by (auto simp: s_eq rested_def seat_at_map_option policy_simps)
  moreover have "2 \<le> contenders (gs_players s)"
    using assms opening_contenders [OF seats(1)] by (simp add: s_eq started_ok_def occupiedSeats_def)
  ultimately show thesis using that [OF s] valid by (simp add: game_inv_def)
qed

end
