(* ===== verification/Replay.thy ===== *)
theory Replay
  imports Lifecycle
begin

text \<open>
  \<open>serialization/replay.ts\<close>: the two replays of a command log, for the lobby and for the game. A
  failed replay answers the index of the failed step. A replay is a fold of the transition function;
  the lemmas say so, and that a log may be cut and resumed at any point.
\<close>

datatype ('s, 'f, 'e) replay_result =
    Replayed 's "'e list"
  | ReplayFailed 'f int game_core_error
  | ReplayThrew exn

section \<open>The lobby\<close>

fun replayFrom ::
  "int \<Rightarrow> game_state option \<Rightarrow> domain_event list \<Rightarrow> (game_command \<times> 'r lifecycle_context) list \<Rightarrow>
   (game_state, game_state option, domain_event) replay_result" where
  "replayFrom index state events [] =
     (case state of
        None \<Rightarrow> ReplayFailed None 0 \<lparr>errorCode = GAME_NOT_FOUND, retryable = False\<rparr>
      | Some final \<Rightarrow> Replayed final events)"
| "replayFrom index state events ((command, ctx) # steps) =
     (case transition state command ctx of
        Threw e \<Rightarrow> ReplayThrew e
      | Rejected unchanged err \<Rightarrow> ReplayFailed unchanged index err
      | Accepted next new \<Rightarrow> replayFrom (index + 1) next (events @ new) steps)"

definition replay ::
  "game_state option \<Rightarrow> (game_command \<times> 'r lifecycle_context) list \<Rightarrow>
   (game_state, game_state option, domain_event) replay_result" where
  "replay initialState steps = replayFrom 0 initialState [] steps"

section \<open>The game\<close>

fun replayGameplayFrom ::
  "int \<Rightarrow> aggregate \<Rightarrow> gameplay_event list \<Rightarrow> (gameplay_command \<times> 'r gameplay_context) list \<Rightarrow>
   (aggregate, aggregate, gameplay_event) replay_result" where
  "replayGameplayFrom index state events [] = Replayed state events"
| "replayGameplayFrom index state events ((command, ctx) # steps) =
     (case transitionGameplay state command ctx of
        Threw e \<Rightarrow> ReplayThrew e
      | Rejected unchanged err \<Rightarrow> ReplayFailed unchanged index err
      | Accepted next new \<Rightarrow> replayGameplayFrom (index + 1) next (events @ new) steps)"

definition replayGameplay ::
  "aggregate \<Rightarrow> (gameplay_command \<times> 'r gameplay_context) list \<Rightarrow>
   (aggregate, aggregate, gameplay_event) replay_result" where
  "replayGameplay initialState steps =
     (if \<not> isValidAggregate initialState
      then ReplayFailed initialState 0 \<lparr>errorCode = INVALID_STATE, retryable = False\<rparr>
      else replayGameplayFrom 0 initialState [] steps)"

section \<open>A replay is a run\<close>

lemma replayGameplayFrom_prefix:
  "replayGameplayFrom index state (pre @ events) steps =
     (case replayGameplayFrom index state events steps of Replayed t ev \<Rightarrow> Replayed t (pre @ ev) | r \<Rightarrow> r)"
  by (induction index state events steps rule: replayGameplayFrom.induct)
    (auto split: transition_result.split replay_result.split)

lemma replayGameplayFrom_run:
  "(\<exists>ev. replayGameplayFrom index state events steps = Replayed t ev) \<longleftrightarrow> game_run state steps t"
proof (induction index state events steps rule: replayGameplayFrom.induct)
  case (2 index state events command ctx steps)
  then show ?case
    by (cases "transitionGameplay state command ctx") (auto simp: run_Cons_iff)
qed auto

lemma replayGameplay_run:
  assumes "replayGameplay state steps = Replayed t ev"
  shows "game_run state steps t"
proof -
  from assms have "\<exists>ev. replayGameplayFrom 0 state [] steps = Replayed t ev"
    by (auto simp: replayGameplay_def split: if_splits)
  then show ?thesis by (simp only: replayGameplayFrom_run)
qed

lemma replayGameplayFrom_append:
  "replayGameplayFrom index state events (steps @ later) =
     (case replayGameplayFrom index state events steps of
        Replayed t ev \<Rightarrow> replayGameplayFrom (index + int (length steps)) t ev later | r \<Rightarrow> r)"
  by (induction index state events steps rule: replayGameplayFrom.induct)
    (auto simp: algebra_simps split: transition_result.split replay_result.split)

lemma transitionGameplay_never_throws: "transitionGameplay a command ctx \<noteq> Threw e"
  by (cases a) (simp_all add: router.never_throws, simp add: transitionGameplay_def)

lemma transitionGameplay_rejects_unchanged: "transitionGameplay a command ctx = Rejected b err \<Longrightarrow> b = a"
  by (cases a) (auto dest: router.keeps_rejected simp: transitionGameplay_def [of "Finished _"] split: if_splits)

text \<open>Where a replay fails, everything before it was accepted and the failing command left the state alone.\<close>

lemma replayGameplayFrom_failed:
  assumes "replayGameplayFrom index state events steps = ReplayFailed t k err"
  shows "index \<le> k \<and> k < index + int (length steps) \<and> game_run state (take (nat (k - index)) steps) t \<and>
    (case steps ! nat (k - index) of (command, ctx) \<Rightarrow> transitionGameplay t command ctx = Rejected t err)"
  using assms
proof (induction index state events steps rule: replayGameplayFrom.induct)
  case (2 index state events command ctx steps)
  show ?case
  proof (cases "transitionGameplay state command ctx")
    case (Accepted b ev)
    with 2 have ih: "index + 1 \<le> k" "k < index + 1 + int (length steps)"
      "game_run b (take (nat (k - (index + 1))) steps) t"
      "case steps ! nat (k - (index + 1)) of (command, ctx) \<Rightarrow> transitionGameplay t command ctx = Rejected t err"
      by auto
    from ih(1) have n: "nat (k - index) = Suc (nat (k - (index + 1)))" by linarith
    show ?thesis unfolding n using ih Accepted by (auto simp: run_Cons_iff)
  next
    case (Rejected b e)
    have "b = state" using Rejected by (rule transitionGameplay_rejects_unchanged)
    with Rejected 2 show ?thesis by auto
  next
    case (Threw e)
    with 2 show ?thesis by simp
  qed
qed simp

section \<open>A lobby replay keeps the lobby invariant\<close>

lemma replayFrom_invariant:
  assumes "replayFrom index state events steps = Replayed g ev" "\<forall>(command, ctx) \<in> set steps. branded command ctx"
    "\<And>g. state = Some g \<Longrightarrow> lifecycle_inv g"
  shows "lifecycle_inv g \<and> lobby_version (Some g) = lobby_version state + int (length steps)"
  using assms
proof (induction index state events steps rule: replayFrom.induct)
  case (1 index state events)
  then show ?case by (cases state) auto
next
  case (2 index state events command ctx steps)
  from 2(2) obtain next' new where t: "transition state command ctx = Accepted next' new"
    "replayFrom (index + 1) next' (events @ new) steps = Replayed g ev"
    by (auto split: transition_result.splits)
  have "branded command ctx" using 2(3) by simp
  with t(1) obtain g' where g': "next' = Some g'" "lifecycle_inv g'" "lobby_version next' = lobby_version state + 1"
    by (rule transition_invariant) (use 2(4) in auto)
  have "lifecycle_inv g \<and> lobby_version (Some g) = lobby_version next' + int (length steps)"
    by (rule 2(1) [OF t(1) t(2)]) (use 2(3) g' in auto)
  with g'(3) show ?case by simp
qed

end
