(* ===== verification/Liveness.thy ===== *)
theory Liveness
  imports Replay
begin

text \<open>
  Nothing in the rules blocks a game whose money is far below the 78-digit limit: a pending bankruptcy
  can be declared, an expired turn can be enforced, and so can the time limit. The lemmas follow the
  checks of the rules and show that each passes.
\<close>

text \<open>Room under the limit that no liquidation and no estate can use up.\<close>

definition headroom :: int where
  "headroom = 1000000000000"

section \<open>Liquidations and estates are small\<close>

lemma liquidation_bounds:
  assumes "js_index BOARD_SPACES i = Some d" "validPropertyAt j p"
  shows "0 \<le> liquidationOf d p" "liquidationOf d p \<le> 1000000000"
proof -
  have b: "0 \<le> mortgageValue d" "mortgageValue d \<le> 1000" "0 \<le> houseCost d" "houseCost d \<le> 200"
    using space_bounds [OF assms(1)] by auto
  have h: "0 \<le> houses p" "houses p \<le> 4" using valid_property_houses [OF assms(2)] by auto
  have "0 \<le> houseCost d div 2" "houseCost d div 2 \<le> 100" using b by auto
  then have m: "0 \<le> (houseCost d div 2) * houses p" "(houseCost d div 2) * houses p \<le> 400"
    using h mult_mono [of "houseCost d div 2" 100 "houses p" 4] by auto
  have k: "0 \<le> houseCost d * 5 div 2" "houseCost d * 5 div 2 \<le> 500" using b by auto
  from b m k show "0 \<le> liquidationOf d p" "liquidationOf d p \<le> 1000000000"
    by (auto simp: liquidationOf_def)
qed

definition sane_estate :: "property_state list \<Rightarrow> bool" where
  "sane_estate ps \<longleftrightarrow> (\<forall>p \<in> set ps. validPropertyAt (propPosition p) p \<and> js_index BOARD_SPACES (propPosition p) \<noteq> None)"

lemma valid_sane_estate:
  assumes "isValidPropertyStates ps"
  shows "sane_estate ps"
  unfolding sane_estate_def
proof
  fix p
  assume "p \<in> set ps"
  with valid_properties_member [OF assms] obtain i where i: "validPropertyAt i p" by blast
  with valid_property_position have "propPosition p = i" by blast
  with i show "validPropertyAt (propPosition p) p \<and> js_index BOARD_SPACES (propPosition p) \<noteq> None"
    by (auto simp: validPropertyAt_def split: option.splits)
qed

lemma liquidate_total:
  assumes "sane_estate ps" "0 \<le> lq_value acc" "lq_value acc + 1000000000 * int (length ps) \<le> MAX_MATCH_CASH"
  shows "\<exists>r. liquidate seat ps acc = Done r \<and> lq_value r \<le> lq_value acc + 1000000000 * int (length ps)"
  using assms
proof (induction seat ps acc rule: liquidate.induct)
  case (2 seat p ps acc)
  show ?case
  proof (cases "ownerSeatIndex p = Some seat")
    case False
    with 2(1) [OF False] 2(3-5) obtain r where "liquidate seat (p # ps) acc = Done r"
        "lq_value r \<le> lq_value acc + 1000000000 * int (length ps)"
      by (auto simp: sane_estate_def)
    then show ?thesis by (intro exI [of _ r]) auto
  next
    case True
    from 2(3) obtain d where d: "js_index BOARD_SPACES (propPosition p) = Some d" and v: "validPropertyAt (propPosition p) p"
      by (auto simp: sane_estate_def)
    note b = liquidation_bounds [OF d v]
    let ?acc = "\<lparr>lq_value = lq_value acc + liquidationOf d p, lq_houses = lq_houses acc + houses p,
      lq_hotels = lq_hotels acc + (if hasHotel p then 1 else 0), lq_properties = lq_properties acc @ [releaseProperty p]\<rparr>"
    have a: "add (lq_value acc) (liquidationOf d p) = Inr (Some (lq_value acc + liquidationOf d p))"
      using b 2(4,5) MAX_MATCH_CASH_large
      by (auto simp: add_def checkedAddMatchCash_def Let_def matchCash_def)
    have "\<exists>r. liquidate seat ps ?acc = Done r \<and> lq_value r \<le> lq_value ?acc + 1000000000 * int (length ps)"
      by (rule 2(2) [of d "Some (lq_value acc + liquidationOf d p)" "lq_value acc + liquidationOf d p"])
        (use True d a b 2(3-5) in \<open>auto simp: sane_estate_def\<close>)
    then obtain r where r: "liquidate seat ps ?acc = Done r"
        "lq_value r \<le> lq_value acc + liquidationOf d p + 1000000000 * int (length ps)" by auto
    with True d a b show ?thesis by (intro exI [of _ r]) auto
  qed
qed simp

lemma netWorthLoop_total:
  assumes "sane_estate ps" "0 \<le> w" "w + 2000000000 * int (length ps) \<le> MAX_MATCH_CASH"
  shows "\<exists>v. netWorthLoop seat ps w = Inr (Some v)"
  using assms
proof (induction seat ps w rule: netWorthLoop.induct)
  case (2 seat p ps w)
  show ?case
  proof (cases "ownerSeatIndex p = Some seat")
    case False
    with 2(1) [OF False] 2(3-5) show ?thesis by (auto simp: sane_estate_def)
  next
    case True
    from 2(3) obtain d where d: "js_index BOARD_SPACES (propPosition p) = Some d" and v: "validPropertyAt (propPosition p) p"
      by (auto simp: sane_estate_def)
    note b = worth_bounds [OF d v]
    have mc: "matchCash (propertyWorth d p) = Inr (propertyWorth d p)" "matchCash (buildingWorth d p) = Inr (buildingWorth d p)"
      using b by (auto intro: matchCash_small)
    have cs: "checkedAddMatchCash w (propertyWorth d p) = Some (w + propertyWorth d p)"
      "checkedAddMatchCash (w + propertyWorth d p) (buildingWorth d p) = Some (w + propertyWorth d p + buildingWorth d p)"
      using b 2(4,5) by (auto simp: checkedAddMatchCash_def Let_def)
    have "\<exists>v. netWorthLoop seat ps (w + propertyWorth d p + buildingWorth d p) = Inr (Some v)"
      by (rule 2(2) [of d "propertyWorth d p" "w + propertyWorth d p" "buildingWorth d p"])
        (use True d mc cs b 2(3-5) in \<open>auto simp: sane_estate_def\<close>)
    with True d mc cs show ?thesis by simp
  qed
qed simp

section \<open>The rules answer\<close>

lemma resolveBankruptcy_total:
  assumes valid: "isValidBankruptcyState ps props stock bank" and p: "seat_at ps seat = Some p" "status p = Active"
    and room: "bank + cash p + headroom \<le> MAX_MATCH_CASH"
  shows "\<exists>r. resolveBankruptcy ps props stock bank seat = Done r"
proof -
  from valid have parts: "length ps = 4" "isValidBuildingInventory props stock" "isValidPropertyStates props"
      "slots_satisfy validBankruptcyPlayer ps" "0 \<le> bank"
    by (auto simp: isValidBankruptcyState_iff validInventory_iff isCash_def)
  have seat: "0 \<le> seat" "seat < 4" using seat_at_range [OF p(1) parts(1)] by auto
  have cash: "0 \<le> cash p" using parts(4) p(1) by (auto simp: slots_satisfy_def validBankruptcyPlayer_def)
  have len: "length props = 40" using parts(3) by (simp add: valid_properties_length)
  let ?acc = "\<lparr>lq_value = 0, lq_houses = 0, lq_hotels = 0, lq_properties = []\<rparr>"
  obtain sold where sold: "liquidate seat props ?acc = Done sold" "lq_value sold \<le> 40000000000"
    using liquidate_total [OF valid_sane_estate [OF parts(3)], of ?acc seat] room cash parts(5) len
    by (auto simp: headroom_def)
  note l = liquidate_result [OF sold(1)]
  have "checkedAddMatchCash bank (lq_value sold) = Some (bank + lq_value sold)"
    "checkedAddMatchCash (bank + lq_value sold) (cash p) = Some (bank + lq_value sold + cash p)"
    using room cash sold(2) by (auto simp: checkedAddMatchCash_def Let_def headroom_def)
  moreover have "isValidBuildingInventory (lq_properties sold)
      \<lparr>housesRemaining = housesRemaining stock + lq_houses sold, hotelsRemaining = hotelsRemaining stock + lq_hotels sold\<rparr>"
    using release_inventory [OF parts(2), of seat] l by simp
  ultimately show ?thesis
    using valid seat p sold(1) by (auto simp: resolveBankruptcy_def Let_def policy_simps)
qed

lemma netWorth_total:
  assumes "validTerminalPlayer p" "isValidPropertyStates props" "status p = Active" "cash p + headroom \<le> MAX_MATCH_CASH"
  shows "\<exists>v. calculatePlayerNetWorth p props = Inr (Some v)"
proof -
  have "0 \<le> cash p" using assms(1) by (simp add: validTerminalPlayer_def)
  with netWorthLoop_total [OF valid_sane_estate [OF assms(2)], of "cash p" "seatIndex p"] assms
  show ?thesis by (simp add: calculatePlayerNetWorth_def valid_properties_length headroom_def)
qed

lemma rankPlayers_total:
  assumes "\<forall>p \<in> set players. \<exists>v. calculatePlayerNetWorth p props = Inr (Some v)"
  shows "\<exists>rs. rankPlayers props players = Done rs"
  using assms by (induction players) auto

lemma deriveRanked_total:
  assumes valid: "validTerminalState players props" and now: "isSafeInteger now" "0 \<le> now"
    and some: "activePlayers players \<noteq> []" and one: "reason \<noteq> TimeLimit \<Longrightarrow> length (activePlayers players) = 1"
    and room: "\<And>i p. seat_at players i = Some p \<Longrightarrow> cash p + headroom \<le> MAX_MATCH_CASH"
  shows "\<exists>t. deriveRankedTerminalOutcome players props reason now = Done t"
proof -
  have "\<exists>v. calculatePlayerNetWorth p props = Inr (Some v)" if "p \<in> set (activePlayers players)" for p
  proof -
    from that obtain i where i: "status p = Active" "seat_at players i = Some p" by (auto simp: activePlayers_seats)
    with valid have "validTerminalPlayer p" "isValidPropertyStates props"
      by (auto simp: validTerminalState_iff slots_satisfy_def)
    from netWorth_total [OF this i(1) room [OF i(2)]] show ?thesis .
  qed
  then obtain rs where rs: "rankPlayers props (activePlayers players) = Done rs" using rankPlayers_total by blast
  have "rs \<noteq> []" using rankPlayers_Done [OF rs] some by auto
  then have "rankingEntries (sort rs) \<noteq> []" by (metis length_0_conv length_sort rankingEntries_simps)
  then show ?thesis
    using valid now some one rs
    by (cases reason) (auto simp: deriveRankedTerminalOutcome_def Let_def split: list.split)
qed

text \<open>Every seat in a derived ranking is a seat of an active player, so the events can be made.\<close>

lemma ranked_seats:
  assumes "deriveRankedTerminalOutcome players props reason now = Done t" "isValidBankruptcyState players props stock bank"
  shows "is_active (seat_at players (to_winnerSeatIndex t))"
    "\<And>e. e \<in> set (to_ranking t) \<Longrightarrow> is_active (seat_at players (re_seatIndex e))"
proof -
  from assms(1) obtain rs where rs: "rankPlayers props (activePlayers players) = Done rs" "rs \<noteq> []"
    and t: "to_ranking t = rankingEntries (sort rs)" "to_winnerSeatIndex t = rankedSeat (hd (sort rs))"
    by (rule deriveRanked_Done) blast
  have slots: "slots_satisfy validBankruptcyPlayer players" using assms(2) by (simp add: isValidBankruptcyState_iff)
  have seat: "is_active (seat_at players (rankedSeat r))" if "r \<in> set rs" for r
  proof -
    from that obtain k where "k < length rs" "rs ! k = r" by (auto simp: in_set_conv_nth)
    with rankPlayers_Done [OF rs(1)] have "activePlayers players ! k \<in> set (activePlayers players)"
      "rankedSeat r = seatIndex (activePlayers players ! k)" by (auto simp: list_all2_conv_all_nth)
    then obtain i p where "seat_at players i = Some p" "status p = Active" "rankedSeat r = seatIndex p"
      by (auto simp: activePlayers_seats)
    moreover from this slots have "seatIndex p = i" by (auto simp: slots_satisfy_def validBankruptcyPlayer_def)
    ultimately show ?thesis by simp
  qed
  have "sort rs \<noteq> []" using rs(2) by (metis length_0_conv length_sort)
  then have "hd (sort rs) \<in> set rs" using hd_in_set [of "sort rs"] by simp
  with seat t(2) show "is_active (seat_at players (to_winnerSeatIndex t))" by simp
  fix e
  assume "e \<in> set (to_ranking t)"
  then obtain k where "k < length (sort rs)" "re_seatIndex e = rankedSeat (sort rs ! k)"
    by (auto simp: t(1) rankingEntries_def in_set_conv_nth)
  moreover from this(1) have "sort rs ! k \<in> set rs" using nth_mem [of k "sort rs"] by simp
  ultimately show "is_active (seat_at players (re_seatIndex e))" using seat by simp
qed

lemma those_total: "(\<And>x. x \<in> set xs \<Longrightarrow> f x \<noteq> None) \<Longrightarrow> those (map f xs) \<noteq> None"
  by (induction xs) (auto split: option.splits)

lemma terminalEvents_total:
  assumes "deriveRankedTerminalOutcome players props reason now = Done t" "isValidBankruptcyState players props stock bank"
  shows "\<exists>ev. terminalEvents s players (t\<lparr>to_reason := x\<rparr>) = Some ev" "\<exists>ev. terminalEvents s players t = Some ev"
proof -
  note seats = ranked_seats [OF assms]
  obtain w where w: "seat_at players (to_winnerSeatIndex t) = Some w" "status w = Active"
    using seats(1) by (cases "seat_at players (to_winnerSeatIndex t)") auto
  have "rankedPlayer players e \<noteq> None" if "e \<in> set (to_ranking t)" for e
    using seats(2) [OF that] by (cases "seat_at players (re_seatIndex e)") (auto simp: rankedPlayer_def)
  then obtain ranking where "those (map (rankedPlayer players) (to_ranking t)) = Some ranking"
    using those_total [of "to_ranking t" "rankedPlayer players"] by blast
  with w show "\<exists>ev. terminalEvents s players (t\<lparr>to_reason := x\<rparr>) = Some ev" "\<exists>ev. terminalEvents s players t = Some ev"
    by (auto simp: terminalEvents_def)
qed

section \<open>There is always somebody else\<close>

lemma nextActiveSeat_other:
  assumes "0 \<le> c" "c < 4" "is_active (seat_at ps j)" "0 \<le> j" "j < 4" "j \<noteq> c"
  shows "\<exists>n. nextActiveSeat ps c = Some n \<and> n \<noteq> c"
proof -
  have offsets: "[1 .. 4 :: int] = [1, 2, 3, 4]" by (simp add: upto.simps)
  have "c = 0 \<or> c = 1 \<or> c = 2 \<or> c = 3" "j = 0 \<or> j = 1 \<or> j = 2 \<or> j = 3" using assms by auto
  then show ?thesis
    using assms(3,6) by (elim disjE) (simp_all add: nextActiveSeat_def policy_simps offsets js_rem_def)
qed

lemma contenders_other:
  assumes "2 \<le> contenders ps" "length ps = 4"
  obtains j where "is_active (seat_at ps j)" "0 \<le> j" "j < 4" "j \<noteq> c"
proof -
  let ?I = "{i. i < length ps \<and> is_active (ps ! i)}"
  have "2 \<le> card ?I" using assms(1) by (simp add: contenders_def length_filter_conv_card)
  then have "\<not> ?I \<subseteq> {nat c}"
    using card_mono [of "{nat c}" ?I] by auto
  then obtain i where "i < length ps" "is_active (ps ! i)" "i \<noteq> nat c" by auto
  then show thesis using assms(2) by (intro that [of "int i"]) (auto simp: seat_at_nat)
qed

lemma someone_next:
  assumes "2 \<le> contenders ps" "length ps = 4" "0 \<le> c" "c < 4"
  obtains n q where "nextActiveSeat ps c = Some n" "n \<noteq> c" "seat_at ps n = Some q" "status q = Active" "0 \<le> n" "n < 4"
proof -
  from assms(1,2) obtain j where "is_active (seat_at ps j)" "0 \<le> j" "j < 4" "j \<noteq> c" by (rule contenders_other)
  with nextActiveSeat_other [OF assms(3,4)] obtain n where n: "nextActiveSeat ps c = Some n" "n \<noteq> c" by blast
  note a = nextActiveSeat_Some [OF n(1) assms(3,4)]
  then obtain q where "seat_at ps n = Some q" "status q = Active" by (cases "seat_at ps n") auto
  with n a that show thesis by blast
qed

lemma mergePlayers_total:
  assumes "length resolved = length original" "\<And>i. (seat_at resolved i = None) = (seat_at original i = None)"
  shows "mergePlayers original resolved = Some resolved"
proof -
  have "case slot of None \<Rightarrow> js_index original i = Some None | Some _ \<Rightarrow> seat_at original i \<noteq> None"
    if "js_index resolved i = Some slot" for i slot
    using that assms(1) assms(2) [of i]
    by (cases slot) (auto simp: seat_at_def js_index_def split: if_splits option.splits)
  then show ?thesis by (simp add: mergePlayers_def every_index_js)
qed

section \<open>Cash under the limit\<close>

lemma totalCash_nonneg:
  assumes "slots_satisfy validBankruptcyPlayer ps"
  shows "0 \<le> totalCash ps"
proof -
  have "0 \<le> slot_cash x" if "x \<in> set ps" for x
  proof (cases x)
    case (Some p)
    with that obtain i where "seat_at ps i = Some p" by (auto simp: seat_at_member)
    with assms Some show ?thesis by (auto simp: slots_satisfy_def validBankruptcyPlayer_def)
  qed simp
  then show ?thesis unfolding totalCash_def by (intro sum_list_nonneg) auto
qed

lemma totalCash_seat:
  assumes "slots_satisfy validBankruptcyPlayer ps" "seat_at ps i = Some p"
  shows "cash p \<le> totalCash ps"
proof -
  have "slots_satisfy validBankruptcyPlayer (update_seat i eliminatePlayer ps)"
    by (rule slots_satisfy_update_seat [OF assms(1)]) (rule eliminated_player_valid)
  from totalCash_nonneg [OF this] totalCash_update_seat [OF assms(2), of eliminatePlayer] show ?thesis
    by (simp add: eliminatePlayer_def)
qed

definition roomy :: "active_state \<Rightarrow> bool" where
  "roomy s \<longleftrightarrow> moneySupply s + headroom \<le> MAX_MATCH_CASH"

lemma roomy_seat:
  assumes "roomy s" "validStateFrame s" "seat_at (gs_players s) i = Some p"
  shows "gs_bankCash s + cash p + headroom \<le> MAX_MATCH_CASH" "cash p + headroom \<le> MAX_MATCH_CASH"
proof -
  note parts = valid_frame_parts [OF assms(2)]
  from totalCash_seat [OF parts(7) assms(3)] parts(3,6) assms(1)
  show "gs_bankCash s + cash p + headroom \<le> MAX_MATCH_CASH" "cash p + headroom \<le> MAX_MATCH_CASH"
    by (auto simp: roomy_def moneySupply_def isCash_def)
qed

text \<open>The ending a liquidation leads to is derived.\<close>

lemma liquidated_ending:
  assumes r: "resolveBankruptcy ps props stock bank seat = Done r" and one: "br_endConditionMet r"
    and left: "activePlayers (br_players r) \<noteq> []"
    and room: "\<And>i p. seat_at ps i = Some p \<Longrightarrow> cash p + headroom \<le> MAX_MATCH_CASH"
    and now: "isSafeInteger now" "0 \<le> now" and reason: "reason \<noteq> TimeLimit"
  obtains t where "deriveRankedTerminalOutcome (br_players r) (br_properties r) reason now = Done t"
proof -
  have ps: "br_players r = update_seat seat eliminatePlayer ps"
    and len: "length (activePlayers (br_players r)) \<le> 1"
    using r one by (auto elim!: resolveBankruptcy_Done simp: activeSeatIndexes_eq)
  have "length (activePlayers (br_players r)) = 1" using left len by (cases "activePlayers (br_players r)") auto
  moreover have "cash p + headroom \<le> MAX_MATCH_CASH" if "seat_at (br_players r) i = Some p" for i p
    using that room [of i] by (auto simp: ps eliminatePlayer_def headroom_def MAX_MATCH_CASH_def split: if_splits)
  ultimately show thesis
    using deriveRanked_total [OF bankruptcy_state_terminal [OF resolveBankruptcy_valid [OF r]] now left, of reason] that by blast
qed

section \<open>The clock's commands and a pending bankruptcy are accepted\<close>

definition on_time :: "active_state \<Rightarrow> int \<Rightarrow> bool" where
  "on_time s now \<longleftrightarrow>
     gs_stateVersion s < MAX_STATE_VERSION \<and> turnStartedAtMs (as_turn s) \<le> now \<and>
     isSafeInteger now \<and> isSafeInteger (now + turnTimeoutMs)"

lemma on_time_guard:
  assumes "game_inv s" "on_time s now"
  shows "commandGuard s True (gs_stateVersion s) now = None"
  using assms by (auto simp: commandGuard_None on_time_def game_inv_def isValidActive_iff validStateFrame_def)

lemma survivors_left:
  assumes "resolveBankruptcy ps props stock bank seat = Done r" "2 \<le> contenders ps"
  shows "activePlayers (br_players r) \<noteq> []"
proof -
  have ps: "br_players r = update_seat seat eliminatePlayer ps" "length ps = 4"
    using assms(1) by (auto elim!: resolveBankruptcy_Done simp: isValidBankruptcyState_iff)
  from assms(2) ps(2) obtain j where j: "is_active (seat_at ps j)" "j \<noteq> seat" by (rule contenders_other)
  then obtain q where "seat_at (br_players r) j = Some q" "status q = Active"
    by (cases "seat_at ps j") (auto simp: ps(1))
  then show ?thesis using activePlayers_seats [of q "br_players r"] by auto
qed

lemma bankruptcy_winner:
  assumes r: "resolveBankruptcy ps props stock bank seat = Done r" and one: "br_endConditionMet r"
    and left: "activePlayers (br_players r) \<noteq> []"
    and d: "deriveRankedTerminalOutcome (br_players r) (br_properties r) LastPlayerStanding now = Done t"
  shows "deriveBankruptcyTerminalOutcome r now = Done t"
proof -
  from r have f: "br_verified r" "br_winnerSeatIndex r = (case map seatIndex (activePlayers (br_players r)) of [w] \<Rightarrow> Some w | _ \<Rightarrow> None)"
    "length (activePlayers (br_players r)) \<le> 1"
    using one by (auto elim!: resolveBankruptcy_Done simp: activeSeatIndexes_eq)
  with left obtain x where "activePlayers (br_players r) = [x]" by (cases "activePlayers (br_players r)") auto
  with f one d show ?thesis
    by (simp add: deriveBankruptcyTerminalOutcome_def isVerifiedBankruptcyResolution_def)
qed

lemma eliminate_occupied:
  "length (update_seat seat f (update_seat seat g ps)) = length ps"
  "(seat_at (update_seat seat f (update_seat seat g ps)) i = None) = (seat_at ps i = None)"
  "(seat_at (update_seat seat f ps) i = None) = (seat_at ps i = None)"
  by auto

lemma declareBankruptcy_accepted:
  assumes inv: "game_inv s" and room: "roomy s" and time: "on_time s (nowMs ctx)"
    and p: "activeGameplayPlayer s = Some p" "actor ctx = PlayerActor (playerId p)"
    and pending: "as_bankruptcyRequiredSeatIndex s \<noteq> None"
  shows "\<exists>t ev. transitionGameplayBankruptcy s (gs_stateVersion s) ctx = Accepted t ev"
proof -
  note guard = on_time_guard [OF inv time] and g = guard_facts [OF on_time_guard [OF inv time]]
  have seat: "seatIndex p = currentSeatIndex (as_turn s)" "seat_at (gs_players s) (seatIndex p) = Some p" "status p = Active"
      "validBankruptcyPending s"
    using g(10) p(1) by (auto elim!: valid_activeGameplayPlayer)
  have phase: "phase (as_turn s) = AwaitingBankruptcy" "as_bankruptcyRequiredSeatIndex s = Some (seatIndex p)"
    using seat(1,4) pending by (auto simp: validBankruptcyPending_def)
  obtain r where r: "resolveBankruptcy (gs_players s) (gs_properties s) (gs_inventory s) (gs_bankCash s) (seatIndex p) = Done r"
    using resolveBankruptcy_total [OF g(9) seat(2,3) roomy_seat(1) [OF room g(1) seat(2)]] by blast
  have ps: "br_players r = update_seat (seatIndex p) eliminatePlayer (gs_players s)"
    using r by (auto elim!: resolveBankruptcy_Done)
  have merge: "mergePlayers (gs_players s) (br_players r) = Some (br_players r)"
    unfolding ps by (rule mergePlayers_total) (simp_all add: eliminate_occupied)
  have len: "length (gs_players s) = 4" "2 \<le> contenders (gs_players s)"
    using valid_frame_parts(1) [OF g(1)] inv by (auto simp: game_inv_def)
  have "\<exists>t ev. finishBankruptcy s p (nowMs ctx) (br_players r) r = Accepted t ev"
  proof (cases "br_endConditionMet r")
    case False
    have c: "0 \<le> currentSeatIndex (as_turn s)" "currentSeatIndex (as_turn s) < 4" using g(7) by (auto simp: clock_ok_def)
    obtain n where "nextActiveGameplaySeat s (currentSeatIndex (as_turn s)) = Some n" "n \<noteq> currentSeatIndex (as_turn s)"
      unfolding nextActiveGameplaySeat_eq using someone_next [OF len(2,1) c] by metis
    then have "\<exists>turn. advanceGameplayTurn s (nowMs ctx) = Some (turn, n)"
      using time g(5) by (simp add: advanceGameplayTurn_def createClockedGameplayTurn_def safeEpoch_def on_time_def)
    with False show ?thesis by (auto simp: finishBankruptcy_def Let_def)
  next
    case True
    note left = survivors_left [OF r len(2)]
    obtain t where t: "deriveRankedTerminalOutcome (br_players r) (br_properties r) LastPlayerStanding (nowMs ctx) = Done t"
      by (rule liquidated_ending [OF r True left _ g(6,5), where reason = LastPlayerStanding])
        (auto intro: roomy_seat(2) [OF room g(1)])
    obtain ev where "terminalEvents s (br_players r) (t\<lparr>to_reason := LastPlayerStanding\<rparr>) = Some ev"
      using terminalEvents_total(1) [OF t resolveBankruptcy_valid [OF r]] by blast
    with True bankruptcy_winner [OF r True left t] show ?thesis by (simp add: finishBankruptcy_def Let_def)
  qed
  with guard p phase r merge show ?thesis by (simp add: transitionGameplayBankruptcy_def isCurrentActor_def)
qed

lemma enforceTimeLimit_accepted:
  assumes inv: "game_inv s" and room: "roomy s" and time: "on_time s now"
    and due: "gs_gameEndAtMs s = Some limit" "limit \<le> now"
  shows "\<exists>t ev. enforceTimeLimit s now = Accepted t ev"
proof -
  note g = guard_facts [OF on_time_guard [OF inv time]]
  have limit: "isSafeInteger limit" "0 \<le> limit"
    using g(1) due(1) by (auto simp: validStateFrame_def)
  have some: "activePlayers (gs_players s) \<noteq> []"
    using inv by (auto simp: game_inv_def contenders_active)
  obtain t where t: "deriveRankedTerminalOutcome (gs_players s) (gs_properties s) TimeLimit now = Done t"
    using deriveRanked_total [OF bankruptcy_state_terminal [OF g(9)] g(6,5) some, of TimeLimit] roomy_seat(2) [OF room g(1)] by blast
  obtain ev where "terminalEvents s (gs_players s) t = Some ev" using terminalEvents_total(2) [OF t g(9)] by blast
  with t due limit g(5,6) show ?thesis by (simp add: enforceTimeLimit_def deriveTimeLimitTerminalOutcome_def)
qed

lemma on_time_seat:
  assumes "game_inv s" "on_time s now" "activeGameplayPlayer s = Some p"
  shows "seatIndex p = currentSeatIndex (as_turn s)" "seat_at (gs_players s) (currentSeatIndex (as_turn s)) = Some p"
    "status p = Active" "0 \<le> missedTurns p" "missedTurns p < 3" "0 \<le> currentSeatIndex (as_turn s)" "currentSeatIndex (as_turn s) < 4"
    "length (gs_players s) = 4" "2 \<le> contenders (gs_players s)"
proof -
  note g = guard_facts [OF on_time_guard [OF assms(1,2)]]
  show seat: "seatIndex p = currentSeatIndex (as_turn s)" "seat_at (gs_players s) (currentSeatIndex (as_turn s)) = Some p"
    "status p = Active"
    using g(10) assms(3) by (auto elim!: valid_activeGameplayPlayer)
  show "0 \<le> missedTurns p"
    using valid_frame_parts(7) [OF g(1)] seat(2) by (auto simp: slots_satisfy_def validBankruptcyPlayer_def)
  show "missedTurns p < 3" using assms(1) seat(2,3) by (auto simp: game_inv_def rested_def policy_simps)
  show "0 \<le> currentSeatIndex (as_turn s)" "currentSeatIndex (as_turn s) < 4" using g(7) by (auto simp: clock_ok_def)
  show "length (gs_players s) = 4" "2 \<le> contenders (gs_players s)"
    using valid_frame_parts(1) [OF g(1)] assms(1) by (auto simp: game_inv_def)
qed

lemma forfeit_accepted:
  assumes inv: "game_inv s" and room: "roomy s" and time: "on_time s now"
    and p: "activeGameplayPlayer s = Some p" and last: "missedTurns p = 2"
  shows "\<exists>res t ev. resolveForfeit (timed_game s)
      (update_seat (currentSeatIndex (as_turn s)) (\<lambda>q. q\<lparr>missedTurns := 3\<rparr>) (gs_players s)) now = Done (Forfeit res) \<and>
    forfeitTimedOut s p now res = Accepted t ev"
proof -
  let ?c = "currentSeatIndex (as_turn s)" and ?ps = "update_seat (currentSeatIndex (as_turn s)) (\<lambda>q. q\<lparr>missedTurns := 3\<rparr>) (gs_players s)"
  note g = guard_facts [OF on_time_guard [OF inv time]] and seat = on_time_seat [OF inv time p]
  have two: "2 \<le> contenders ?ps" using seat(9) by (subst contenders_update_seat) simp_all
  have room': "\<And>i q. seat_at ?ps i = Some q \<Longrightarrow> cash q + headroom \<le> MAX_MATCH_CASH"
    using roomy_seat(2) [OF room g(1)] by (auto split: if_splits)
  obtain r where r: "resolveBankruptcy ?ps (gs_properties s) (gs_inventory s) (gs_bankCash s) ?c = Done r"
    using resolveBankruptcy_total [OF missed_assets [OF g(9)], of 3 ?c ?c "p\<lparr>missedTurns := 3\<rparr>"]
      roomy_seat(1) [OF room g(1) seat(2)] seat(2,3) by auto
  have ps: "br_players r = update_seat ?c eliminatePlayer ?ps" using r by (auto elim!: resolveBankruptcy_Done)
  have merge: "mergePlayers (gs_players s) (br_players r) = Some (br_players r)"
    unfolding ps by (rule mergePlayers_total) (simp_all add: eliminate_occupied)
  show ?thesis
  proof (cases "br_endConditionMet r")
    case True
    note left = survivors_left [OF r two]
    obtain t where t: "deriveRankedTerminalOutcome (br_players r) (br_properties r) TimeoutForfeit now = Done t"
      by (rule liquidated_ending [OF r True left room' g(6,5), where reason = TimeoutForfeit]) auto
    obtain ev where ev: "terminalEvents s (br_players r) t = Some ev"
      using terminalEvents_total(2) [OF t resolveBankruptcy_valid [OF r]] by blast
    have w: "br_winnerSeatIndex r \<noteq> None"
      using r True left by (auto elim!: resolveBankruptcy_Done simp: activeSeatIndexes_eq split: list.splits)
    show ?thesis
      using r True merge t ev w
      by (simp add: resolveForfeit_def forfeitTimedOut_def Let_def deriveTimeoutForfeitTerminalOutcome_def
          isVerifiedTimeoutForfeit_def)
  next
    case False
    have len: "length (br_players r) = 4" using seat(8) by (simp add: ps)
    have "2 \<le> contenders (br_players r)"
      using r False by (auto elim!: resolveBankruptcy_Done simp: activeSeatIndexes_eq contenders_active)
    from someone_next [OF this len seat(6,7)] obtain n q where n: "nextActiveSeat (br_players r) ?c = Some n"
      "seat_at (br_players r) n = Some q" by metis
    show ?thesis
      using r False merge n time
      by (simp add: resolveForfeit_def forfeitTimedOut_def Let_def on_time_def)
  qed
qed

lemma expireTurn_accepted:
  assumes inv: "game_inv s" and room: "roomy s" and time: "on_time s now"
    and p: "activeGameplayPlayer s = Some p" and due: "deadlineAtMs (as_turn s) \<le> now"
  shows "\<exists>t ev. expireTurn s p now = Accepted t ev"
proof -
  let ?c = "currentSeatIndex (as_turn s)"
  note g = guard_facts [OF on_time_guard [OF inv time]] and seat = on_time_seat [OF inv time p]
  have valid: "validTimeoutState (timed_game s)"
    using g(7,9) seat(2,3) by (auto simp: validTimeoutState_def validTimeoutTurn_iff clock_ok_def)
  show ?thesis
  proof (cases "missedTurns p = 2")
    case True
    with forfeit_accepted [OF inv room time p True] valid seat(2) due g(5,6) show ?thesis
      by (auto simp: expireTurn_def resolveTurnTimeout_def Let_def policy_simps)
  next
    case False
    let ?ps = "update_seat ?c (\<lambda>q. q\<lparr>missedTurns := missedTurns p + 1\<rparr>) (gs_players s)"
    have "2 \<le> contenders ?ps"
      using seat(9) by (subst contenders_update_seat) simp_all
    from someone_next [OF this _ seat(6,7)] seat(8) obtain n q where n: "nextActiveSeat ?ps ?c = Some n" "n \<noteq> ?c"
      "seat_at ?ps n = Some q" by (metis length_update_seat)
    have "mergePlayers (gs_players s) ?ps = Some ?ps" by (rule mergePlayers_total) (simp_all add: eliminate_occupied)
    with n False seat valid due g(5,6) time show ?thesis
      by (auto simp: expireTurn_def resolveTurnTimeout_def advanceTimedOut_def Let_def policy_simps on_time_def)
  qed
qed

end
