(* ===== verification/Scenario.thy ===== *)
theory Scenario
  imports Liveness
begin

text \<open>
  A concrete game for the witnesses: two players, a random source that reads its bytes from a tape, and
  the log of commands that leads to the positions the properties are applied at.
\<close>

section \<open>A taped random source\<close>

definition tape_checkpoint :: "nat \<Rightarrow> random_checkpoint" where
  "tape_checkpoint cursor =
     \<lparr>algorithm = ''tape'', rngState = ''tape'', draws = int cursor, bytesConsumed = int cursor\<rparr>"

definition tape_source :: "byte list \<Rightarrow> nat random_source" where
  "tape_source tape =
     \<lparr>rs_nextBytes = (\<lambda>cursor n. if n = 1 \<and> cursor < length tape then (Inr [tape ! cursor], Suc cursor)
                                  else (Inl RangeError, cursor)),
      rs_checkpoint = (\<lambda>cursor. Inr (tape_checkpoint cursor)),
      rs_canResume = (\<lambda>cursor checkpoint. Inr (checkpoint = tape_checkpoint cursor)),
      rs_fork = Some (\<lambda>_ checkpoint. Inr (Forked (nat (draws checkpoint))))\<rparr>"

section \<open>The players\<close>

definition alice :: string where "alice = ''alice''"
definition bob :: string where "bob = ''bob''"

text \<open>The bytes 0 and 1 are the dice 1 and 2.\<close>

definition tape :: "byte list" where
  "tape = [0, 1, 0, 1, 0, 1, 3, 3, 3, 3, 3, 3]"

definition player_at :: "int \<Rightarrow> string \<Rightarrow> nat gameplay_context" where
  "player_at now who =
     \<lparr>actor = PlayerActor who, nowMs = now, randomSource = tape_source tape, randomCursor = 0,
      ctxTradeId = Some ''trade-1''\<rparr>"

definition server_at :: "int \<Rightarrow> nat gameplay_context" where
  "server_at now =
     \<lparr>actor = InternalActor, nowMs = now, randomSource = tape_source tape, randomCursor = 0, ctxTradeId = None\<rparr>"

definition versioned :: "int \<Rightarrow> gameplay_body \<Rightarrow> gameplay_command" where
  "versioned v what = \<lparr>expectedStateVersion = v, body = what\<rparr>"

section \<open>The lobby\<close>

definition lobby_ctx :: "int \<Rightarrow> string \<Rightarrow> nat lifecycle_context" where
  "lobby_ctx now who =
     \<lparr>lc_actorId = who, lc_nowMs = now, lc_randomSource = tape_source tape, lc_randomCursor = 0\<rparr>"

definition lobby_log :: "(game_command \<times> nat lifecycle_context) list" where
  "lobby_log =
     [(\<lparr>gc_expectedStateVersion = 0, gc_body = CreateGame ''game-1'' 2 (Some 3600000)\<rparr>, lobby_ctx 10 alice),
      (\<lparr>gc_expectedStateVersion = 1, gc_body = JoinGame\<rparr>, lobby_ctx 20 bob),
      (\<lparr>gc_expectedStateVersion = 2, gc_body = StartGame\<rparr>, lobby_ctx 30 alice)]"

definition started_game :: in_progress_game where
  "started_game =
     \<lparr>gm_schemaVersion = 2, gm_rulesetId = ''pootown-rust-source-v1'', gm_stateVersion = 3, gm_gameId = ''game-1'',
      gm_creatorId = alice, gm_minimumPlayers = 2, gm_maximumPlayers = 2,
      gm_seats = [Some (createSeat alice 0 10), Some (createSeat bob 1 20), None, None],
      gm_bankCash = 1000000, gm_freeParkingPool = 0, gm_housesRemaining = 32, gm_hotelsRemaining = 12,
      gm_createdAtMs = 10, gm_timeLimitMs = Some 3600000, gm_turnTimeoutMs = 90000, gm_rng = tape_checkpoint 0,
      ip_startedAtMs = 30, ip_gameEndAtMs = Some 3600030,
      ip_turn = \<lparr>ot_currentSeatIndex = 0, ot_startedAtMs = 30, ot_deadlineAtMs = 90030\<rparr>\<rparr>"

definition opening_state :: active_state where
  "opening_state = the (initializeGameplayAggregate started_game)"

section \<open>The log\<close>

definition game_log :: "(gameplay_command \<times> nat gameplay_context) list" where
  "game_log =
     [(versioned 3 (TurnCommand RollDice), player_at 100 alice),
      (versioned 4 (PropertyCommand (BuyProperty 3)), player_at 200 alice),
      (versioned 5 (TurnCommand EndTurn), player_at 300 alice),
      (versioned 6 (TradeCommand (CreateTrade bob (PropertyForMoney 3 10))), player_at 400 alice),
      (versioned 7 (TurnCommand RollDice), player_at 500 bob),
      (versioned 8 (TradeCommand (AcceptTrade ''trade-1'')), player_at 600 bob)]"

section \<open>Positions\<close>

text \<open>The positions the witnesses start from: the opening, the position after the fifth command of the log, and
  variations of the opening with other purses, estates and clocks.\<close>

definition player_with :: "int \<Rightarrow> string \<Rightarrow> int \<Rightarrow> int \<Rightarrow> int \<Rightarrow> gameplay_player" where
  "player_with seat who joined money place =
     \<lparr>seatIndex = seat, cash = money, status = Active, position = place, inJail = False, jailTurns = 0,
      consecutiveDoubles = 0, missedTurns = 0, getOutOfJailCards = 0, playerId = who, joinedAtMs = joined\<rparr>"

definition two_players :: "gameplay_player \<Rightarrow> gameplay_player \<Rightarrow> gameplay_player option list" where
  "two_players first second = [Some first, Some second, None, None]"

definition estate :: "(int \<times> int \<times> int) list \<Rightarrow> property_state list" where
  "estate deeds =
     map (\<lambda>q. case map_of deeds (propPosition q) of
            None \<Rightarrow> q | Some (owner, built) \<Rightarrow> q\<lparr>ownerSeatIndex := Some owner, houses := built\<rparr>) createPropertyStates"

definition turn_at :: "int \<Rightarrow> int \<Rightarrow> turn_phase \<Rightarrow> active_turn" where
  "turn_at seat start ph =
     \<lparr>currentSeatIndex = seat, turnStartedAtMs = start, deadlineAtMs = start + 90000, emittedWarnings = [], phase = ph\<rparr>"

definition roll_of :: "int \<Rightarrow> int \<Rightarrow> dice_roll" where
  "roll_of a b = \<lparr>dice = (a, b), total = a + b, isDoubles = (a = b)\<rparr>"

definition position_of ::
  "int \<Rightarrow> gameplay_player \<Rightarrow> gameplay_player \<Rightarrow> (int \<times> int \<times> int) list \<Rightarrow> int \<Rightarrow> active_turn \<Rightarrow> dice_roll option \<Rightarrow> active_state" where
  "position_of v first second deeds stock turn roll =
     \<lparr>gs_schemaVersion = 1, gs_stateVersion = v, gs_gameId = ''game-1'', gs_rulesetId = ''pootown-rust-source-v1'',
      gs_players = two_players first second, gs_properties = estate deeds, gs_bankCash = 1000000,
      gs_freeParkingPool = 0, gs_housesRemaining = stock, gs_hotelsRemaining = 12, gs_startedAtMs = 30,
      gs_gameEndAtMs = Some 3600030, gs_activeTrades = [], gs_lastDice = roll, gs_rng = tape_checkpoint 0,
      as_turn = turn, as_bankruptcyRequiredSeatIndex = None\<rparr>"

definition sale :: pending_trade where
  "sale = \<lparr>tradeId = ''trade-1'', proposerSeatIndex = 0, receiverSeatIndex = 1, tradeTerms = PropertyForMoney 3 10,
           createdAtMs = 400, expiresAtMs = 3600400\<rparr>"

definition rent_state :: active_state where
  "rent_state =
     position_of 8 (player_with 0 alice 10 1440 3) (player_with 1 bob 20 1500 3) [(3, 0, 0)] 32
       (turn_at 1 500 (AwaitingRentPayment 3)) (Some (roll_of 1 2))
     \<lparr>gs_activeTrades := [sale], gs_rng := tape_checkpoint 4\<rparr>"

text \<open>Bob owes more than he has, and may only declare bankruptcy.\<close>

definition broke_state :: active_state where
  "broke_state =
     position_of 9 (player_with 0 alice 10 1440 3) (player_with 1 bob 20 1 3) [(3, 0, 0), (6, 1, 0)] 32
       (turn_at 1 500 AwaitingBankruptcy) (Some (roll_of 1 2))
     \<lparr>as_bankruptcyRequiredSeatIndex := Some 1\<rparr>"

text \<open>Alice has sat in jail for two turns with ten coins left.\<close>

definition jailed_state :: active_state where
  "jailed_state =
     position_of 9 ((player_with 0 alice 10 10 10)\<lparr>inJail := True, jailTurns := 2\<rparr>) (player_with 1 bob 20 1500 3) [] 32
       (turn_at 0 500 AwaitingRoll) None"

text \<open>Alice owns the first street group, and has a house on one of the two.\<close>

definition street_state :: active_state where
  "street_state =
     position_of 9 (player_with 0 alice 10 1000 3) (player_with 1 bob 20 1500 3) [(1, 0, 0), (3, 0, 1)] 31
       (turn_at 0 500 AwaitingEndTurn) (Some (roll_of 1 2))"

text \<open>Alice stands on a street nobody owns.\<close>

definition landed_state :: active_state where
  "landed_state =
     position_of 9 (player_with 0 alice 10 1500 3) (player_with 1 bob 20 1500 0) [] 32
       (turn_at 0 500 (AwaitingPropertyDecision 3)) (Some (roll_of 1 2))"

text \<open>Alice has rolled doubles twice, and the tape holds two fours.\<close>

definition doubles_state :: active_state where
  "doubles_state =
     position_of 9 ((player_with 0 alice 10 1500 3)\<lparr>consecutiveDoubles := 2\<rparr>) (player_with 1 bob 20 1500 3) [] 32
       (turn_at 0 500 AwaitingRoll) (Some (roll_of 1 1))
     \<lparr>gs_rng := tape_checkpoint 6\<rparr>"

text \<open>Alice has let two turns pass.\<close>

definition absent_state :: active_state where
  "absent_state =
     position_of 9 ((player_with 0 alice 10 1000 3)\<lparr>missedTurns := 2\<rparr>) (player_with 1 bob 20 1500 3) [(3, 0, 0)] 32
       (turn_at 0 500 AwaitingRoll) None"

section \<open>Evaluated facts\<close>

lemma rested_code [code]:
  "rested players \<longleftrightarrow>
     list_all (\<lambda>slot. case slot of None \<Rightarrow> True | Some p \<Rightarrow> status p \<noteq> Active \<or> missedTurns p < maximumMissedTurns) players"
  by (auto simp: rested_def list_all_iff seat_at_Some_iff in_set_conv_nth split: option.splits)
    (metis nat_int of_nat_0_le_iff of_nat_less_iff)

fun accepted :: "('s, 'e) transition_result \<Rightarrow> bool" where
  "accepted (Accepted t ev) \<longleftrightarrow> True"
| "accepted (Rejected t err) \<longleftrightarrow> False"
| "accepted (Threw e) \<longleftrightarrow> False"

lemma acceptedE:
  assumes "accepted r"
  obtains t ev where "r = Accepted t ev"
  using assms by (cases r) auto

lemma opening_inv: "game_inv opening_state" by code_simp
lemma rent_inv: "game_inv rent_state" by code_simp
lemma broke_inv: "game_inv broke_state" by code_simp
lemma jailed_inv: "game_inv jailed_state" by code_simp
lemma street_inv: "game_inv street_state" by code_simp
lemma absent_inv: "game_inv absent_state" by code_simp

text \<open>The lobby log starts the game, and the first five commands of the game log lead to the position in
  which Bob stands on the street that Alice offers him.\<close>

lemma lobby_replay:
  "replay None lobby_log =
     Replayed (InProgressGame started_game) [GameCreated alice, PlayerJoined bob 1 2, GameStarted 2]"
  by code_simp

lemma lobby_branded: "\<forall>(command, ctx) \<in> set lobby_log. branded command ctx"
  by code_simp

lemma opening_init: "initializeGameplayAggregate started_game = Some opening_state"
proof -
  have "initializeGameplayAggregate started_game \<noteq> None" by code_simp
  then show ?thesis by (simp add: opening_state_def)
qed

lemma log_to_rent:
  "replayGameplay (InProgress opening_state) (take 5 game_log) = Replayed (InProgress rent_state)
     [DiceRolled alice (roll_of 1 2), PlayerMoved alice 0 3 False 0, PropertyPurchased alice 3 60,
      TradeCreated ''trade-1'' PropertyForMoneyType alice bob 0 10 (Some 3) None 3600400,
      DiceRolled bob (roll_of 1 2), PlayerMoved bob 0 3 False 0]"
  by code_simp

end
