(* ===== verification/Endgame.thy ===== *)
theory Endgame
  imports Liveness
begin

text \<open>
  The endings, through the router: while a bankruptcy is pending the debtor's declaration is the only way
  on, and it is open; once the time limit has passed, a game is at most two commands from its end.
\<close>

section \<open>A pending bankruptcy\<close>

lemma pending_phase:
  assumes "isValidActiveGameplayAggregateState s" "as_bankruptcyRequiredSeatIndex s \<noteq> None"
  shows "phase (as_turn s) = AwaitingBankruptcy"
  using assms by (auto elim!: valid_activeGameplayPlayer simp: validBankruptcyPending_def split: if_splits option.splits)

text \<open>Every other handler is closed while it is pending.\<close>

lemma pending_only_declare:
  assumes acc: "routeCommand s command ctx = Accepted t ev"
    and valid: "isValidActiveGameplayAggregateState s" and pending: "as_bankruptcyRequiredSeatIndex s \<noteq> None"
  shows "body command = DeclareBankruptcy"
  using acc pending pending_phase [OF valid pending]
  by (cases "body command")
    (auto simp: routeCommand_def Let_def transitionGameplayTurn_def endGameplayTurn_def rollGameplayDice_def
      transitionGameplayProperty_def transitionGameplayJail_def transitionGameplayCard_def transitionGameplayTrade_def
      transitionGameplayTimeout_def split: option.splits if_splits)

lemma declare_by_debtor:
  assumes "transitionGameplayBankruptcy s expected ctx = Accepted t ev"
  obtains p where "activeGameplayPlayer s = Some p" "actor ctx = PlayerActor (playerId p)"
    "as_bankruptcyRequiredSeatIndex s = Some (seatIndex p)"
proof -
  from assms obtain p where "activeGameplayPlayer s = Some p" "isCurrentActor (actor ctx) p"
    "as_bankruptcyRequiredSeatIndex s = Some (seatIndex p)"
    by (cases rule: transitionGameplayBankruptcy_cases) auto
  then show thesis by (intro that) (auto simp: isCurrentActor_def split: gameplay_actor.splits)
qed

section \<open>Accepted commands\<close>

lemma on_time_context:
  assumes "game_inv s" "on_time s (nowMs ctx)" "actor ctx = InternalActor \<or> (\<exists>who. actor ctx = PlayerActor who \<and> validOpaqueId who)"
  shows "validContext ctx"
  using guard_facts(5,6) [OF on_time_guard [OF assms(1,2)]] assms(3) by (auto simp: validContext_def)

lemma declare_accepted:
  assumes "game_inv s" "roomy s" "on_time s (nowMs ctx)" "validContext ctx"
    and "activeGameplayPlayer s = Some p" "actor ctx = PlayerActor (playerId p)"
    and "as_bankruptcyRequiredSeatIndex s \<noteq> None"
    and "command = \<lparr>expectedStateVersion = gs_stateVersion s, body = DeclareBankruptcy\<rparr>"
  shows "\<exists>t ev. transitionGameplay (InProgress s) command ctx = Accepted t ev"
  using declareBankruptcy_accepted [OF assms(1-3,5-7)] assms(1,4,8)
  by (simp add: transitionGameplay_def routeCommand_def game_inv_def)

lemma expiry_accepted:
  assumes inv: "game_inv s" and "roomy s" "on_time s (nowMs ctx)" "validContext ctx"
    and free: "as_bankruptcyRequiredSeatIndex s = None" and server: "actor ctx = InternalActor"
    and due: "deadlineAtMs (as_turn s) \<le> nowMs ctx"
    and early: "gs_gameEndAtMs s = None \<or> (\<exists>limit. gs_gameEndAtMs s = Some limit \<and> nowMs ctx < limit)"
    and command: "command = \<lparr>expectedStateVersion = gs_stateVersion s, body = TimeoutCommand HandleTurnTimeout\<rparr>"
  shows "\<exists>t ev. transitionGameplay (InProgress s) command ctx = Accepted t ev"
proof -
  note guard = on_time_guard [OF inv assms(3)]
  from inv obtain p where p: "activeGameplayPlayer s = Some p"
    by (auto simp: game_inv_def elim!: valid_activeGameplayPlayer)
  from expireTurn_accepted [OF inv assms(2,3) p due] obtain t ev where e: "expireTurn s p (nowMs ctx) = Accepted t ev"
    by blast
  have "transitionGameplayTimeout s HandleTurnTimeout (gs_stateVersion s) ctx = Accepted t ev"
    using guard p e free server early by (auto simp: transitionGameplayTimeout_def activeGameplayPlayer_Some)
  then show ?thesis using inv assms(4) by (simp add: command transitionGameplay_def routeCommand_def game_inv_def)
qed

lemma limit_accepted:
  assumes inv: "game_inv s" and "roomy s" "on_time s (nowMs ctx)" "validContext ctx"
    and free: "as_bankruptcyRequiredSeatIndex s = None" and server: "actor ctx = InternalActor"
    and due: "gs_gameEndAtMs s = Some limit" "limit \<le> nowMs ctx"
    and command: "command = \<lparr>expectedStateVersion = gs_stateVersion s, body = TimeoutCommand EnforceGameTimeLimit\<rparr>"
  shows "\<exists>f ev. transitionGameplay (InProgress s) command ctx = Accepted (Finished f) ev"
proof -
  from enforceTimeLimit_accepted [OF inv assms(2,3) due] obtain t ev where
    e: "enforceTimeLimit s (nowMs ctx) = Accepted t ev" by blast
  have "transitionGameplayTimeout s EnforceGameTimeLimit (gs_stateVersion s) ctx = Accepted t ev"
    using on_time_guard [OF inv assms(3)] e free server by (simp add: transitionGameplayTimeout_def)
  moreover obtain f where "t = Finished f" using e by (auto elim!: enforceTimeLimit_Accepted)
  ultimately show ?thesis using inv assms(4) by (auto simp: command transitionGameplay_def routeCommand_def game_inv_def)
qed

section \<open>The way out\<close>

lemma liquidate_small:
  assumes "liquidate seat ps acc = Done r" "sane_estate ps"
  shows "lq_value r \<le> lq_value acc + 1000000000 * int (length ps)"
  using assms
proof (induction seat ps acc rule: liquidate.induct)
  case (2 seat p ps acc)
  show ?case
  proof (cases "ownerSeatIndex p = Some seat")
    case False
    with 2(1) [OF False] 2(3,4) show ?thesis by (fastforce simp: sane_estate_def)
  next
    case True
    from 2(4) obtain d where d: "js_index BOARD_SPACES (propPosition p) = Some d" and v: "validPropertyAt (propPosition p) p"
      and rest: "sane_estate ps" by (auto simp: sane_estate_def)
    note b = liquidation_bounds [OF d v]
    from 2(3) True d obtain x where a: "add (lq_value acc) (liquidationOf d p) = Inr (Some x)"
      by (auto split: sum.splits option.splits)
    then have x: "x = lq_value acc + liquidationOf d p"
      by (auto simp: add_def checkedAdd_Some_iff matchCash_def split: if_splits)
    from 2(2) [of d "Some x" x] 2(3) True d a rest have "lq_value r \<le> x + 1000000000 * int (length ps)" by simp
    with x b show ?thesis by simp
  qed
qed simp

lemma bankruptcy_liquidation_small:
  assumes "resolveBankruptcy ps props stock bank seat = Done r"
  shows "br_liquidationValue r \<le> headroom"
proof -
  let ?acc = "\<lparr>lq_value = 0, lq_houses = 0, lq_hotels = 0, lq_properties = []\<rparr>"
  have props: "isValidPropertyStates props"
    using assms by (auto elim!: resolveBankruptcy_Done simp: isValidBankruptcyState_iff validInventory_iff)
  from assms obtain sold where "liquidate seat props ?acc = Done sold" "br_liquidationValue r = lq_value sold"
    by (auto simp: resolveBankruptcy_def Let_def split: if_splits option.splits sum.splits)
  with liquidate_small [OF _ valid_sane_estate [OF props]] valid_properties_length [OF props]
  show ?thesis by (fastforce simp: headroom_def)
qed

text \<open>What a declaration leaves when it does not end the game: the next player's turn, with room to spare.\<close>

lemma declared_next:
  assumes acc: "transitionGameplayBankruptcy s (gs_stateVersion s) ctx = Accepted (InProgress s') ev"
    and inv: "game_inv s" and time: "on_time s (nowMs ctx)" and room: "moneySupply s + 2 * headroom \<le> MAX_MATCH_CASH"
  shows "roomy s' \<and> as_bankruptcyRequiredSeatIndex s' = None \<and> turnStartedAtMs (as_turn s') = nowMs ctx \<and>
    gs_gameEndAtMs s' = gs_gameEndAtMs s \<and> gs_stateVersion s' = gs_stateVersion s + 1"
  using acc
proof (cases rule: transitionGameplayBankruptcy_cases)
  case (advanced p r turn n)
  have "clock_ok (as_turn s)" using guard_facts(7) [OF advanced(1)] .
  with advanced(7) have "turnStartedAtMs turn = nowMs ctx" by (auto elim!: advance_Some)
  with advanced(8) resolveBankruptcy_money [OF advanced(5)] bankruptcy_liquidation_small [OF advanced(5)] room
  show ?thesis by (simp add: roomy_def moneySupply_def)
qed simp_all

lemma seated_id_valid: "validSlotsFrom t i ids ps \<Longrightarrow> Some p \<in> set ps \<Longrightarrow> validOpaqueId (playerId p)"
  by (induction t i ids ps rule: validSlotsFrom.induct) (auto split: if_splits)

lemma current_id_valid:
  assumes "isValidActiveGameplayAggregateState s" "activeGameplayPlayer s = Some p"
  shows "validOpaqueId (playerId p)"
proof -
  have "validGameplayPlayerSlots (gs_players s) (gs_startedAtMs s)"
    using assms(1) by (auto simp: isValidActive_iff validStateFrame_def)
  moreover have "Some p \<in> set (gs_players s)"
    using assms(2) nth_mem [of "nat (currentSeatIndex (as_turn s))" "gs_players s"]
    by (auto simp: activeGameplayPlayer_Some seat_at_Some_iff nat_less_iff)
  ultimately show ?thesis by (auto simp: validGameplayPlayerSlots_def intro: seated_id_valid)
qed

lemma limit_ends:
  assumes "game_inv s" "roomy s" "on_time s (nowMs ctx)" "as_bankruptcyRequiredSeatIndex s = None"
    "gs_gameEndAtMs s = Some limit" "limit \<le> nowMs ctx"
  shows "\<exists>f. game_run (InProgress s) [(\<lparr>expectedStateVersion = gs_stateVersion s,
    body = TimeoutCommand EnforceGameTimeLimit\<rparr>, ctx\<lparr>actor := InternalActor\<rparr>)] (Finished f)"
proof -
  let ?ctx = "ctx\<lparr>actor := InternalActor\<rparr>"
  have time: "on_time s (nowMs ?ctx)" and due: "limit \<le> nowMs ?ctx" using assms(3,6) by simp_all
  have "validContext ?ctx" by (rule on_time_context [OF assms(1) time]) simp
  from limit_accepted [OF assms(1,2) time this assms(4) _ assms(5) due refl] show ?thesis by (auto simp: run_Cons_iff)
qed

lemma short_run:
  assumes "game_run a steps (Finished f)" "length steps \<le> 2" "\<forall>(command, x) \<in> set steps. \<exists>who. x = ctx\<lparr>actor := who\<rparr>"
  shows "\<exists>steps f. length steps \<le> 2 \<and> (\<forall>(command, x) \<in> set steps. \<exists>who. x = ctx\<lparr>actor := who\<rparr>) \<and>
    game_run a steps (Finished f)"
  using assms by blast

lemma way_out:
  assumes inv: "game_inv s" and room: "moneySupply s + 2 * headroom \<le> MAX_MATCH_CASH"
    and time: "on_time s (nowMs ctx)" and version: "gs_stateVersion s + 1 < MAX_STATE_VERSION"
    and due: "gs_gameEndAtMs s = Some limit" "limit \<le> nowMs ctx"
  shows "\<exists>steps f. length steps \<le> 2 \<and> (\<forall>(command, x) \<in> set steps. \<exists>who. x = ctx\<lparr>actor := who\<rparr>) \<and>
    game_run (InProgress s) steps (Finished f)"
proof (cases "as_bankruptcyRequiredSeatIndex s")
  case None
  have "roomy s" using room by (simp add: roomy_def headroom_def)
  from limit_ends [OF inv this time None due] obtain f where
    "game_run (InProgress s) [(\<lparr>expectedStateVersion = gs_stateVersion s,
      body = TimeoutCommand EnforceGameTimeLimit\<rparr>, ctx\<lparr>actor := InternalActor\<rparr>)] (Finished f)" by blast
  then show ?thesis by (rule short_run) auto
next
  case (Some seat)
  have valid: "isValidActiveGameplayAggregateState s" using inv by (simp add: game_inv_def)
  then obtain p where p: "activeGameplayPlayer s = Some p" by (auto elim!: valid_activeGameplayPlayer)
  let ?ctx = "ctx\<lparr>actor := PlayerActor (playerId p)\<rparr>"
  let ?insolvency = "\<lparr>expectedStateVersion = gs_stateVersion s, body = DeclareBankruptcy\<rparr>"
  have now: "on_time s (nowMs ?ctx)" using time by simp
  have ctx: "validContext ?ctx" by (rule on_time_context [OF inv now]) (use current_id_valid [OF valid p] in auto)
  have "roomy s" using room by (simp add: roomy_def headroom_def)
  from declare_accepted [OF inv this now ctx p _ _ refl] Some obtain t ev where
    acc: "transitionGameplay (InProgress s) ?insolvency ?ctx = Accepted t ev" by auto
  then have route: "routeCommand s ?insolvency ?ctx = Accepted t ev" by (auto elim!: transitionGameplay_Accepted)
  then have bankrupt: "transitionGameplayBankruptcy s (gs_stateVersion s) ?ctx = Accepted t ev"
    by (simp add: routeCommand_def)
  show ?thesis
  proof (cases t)
    case (Finished f)
    with acc have "game_run (InProgress s) [(?insolvency, ?ctx)] (Finished f)" by (simp add: run_Cons_iff)
    then show ?thesis by (rule short_run) auto
  next
    case (InProgress s')
    note next' = declared_next [OF bankrupt [unfolded InProgress] inv now room]
    from bankruptcy_invariant [OF bankrupt inv] InProgress have inv': "game_inv s'" by simp
    have time': "on_time s' (nowMs ctx)" using next' time version by (simp add: on_time_def)
    from limit_ends [OF inv' _ time'] next' due obtain f where
      "game_run (InProgress s') [(\<lparr>expectedStateVersion = gs_stateVersion s',
        body = TimeoutCommand EnforceGameTimeLimit\<rparr>, ctx\<lparr>actor := InternalActor\<rparr>)] (Finished f)" by auto
    with acc InProgress have "game_run (InProgress s) [(?insolvency, ?ctx), (\<lparr>expectedStateVersion = gs_stateVersion s',
        body = TimeoutCommand EnforceGameTimeLimit\<rparr>, ctx\<lparr>actor := InternalActor\<rparr>)] (Finished f)"
      by (auto simp: run_Cons_iff)
    then show ?thesis by (rule short_run) auto
  qed
qed

end
