(* ===== verification/Effects.thy ===== *)
theory Effects
  imports Endgame
begin

text \<open>
  What single commands do to the aggregate, stated over the aggregate before and after: eliminations,
  missed turns, rent and purchases.
\<close>

fun aggregate_players :: "aggregate \<Rightarrow> gameplay_player option list" where
  "aggregate_players (InProgress s) = gs_players s"
| "aggregate_players (Finished f) = gs_players f"

fun aggregate_properties :: "aggregate \<Rightarrow> property_state list" where
  "aggregate_properties (InProgress s) = gs_properties s"
| "aggregate_properties (Finished f) = gs_properties f"

fun aggregate_trades :: "aggregate \<Rightarrow> pending_trade list" where
  "aggregate_trades (InProgress s) = gs_activeTrades s"
| "aggregate_trades (Finished f) = gs_activeTrades f"

lemmas aggregate_simps = aggregate_players.simps aggregate_properties.simps aggregate_trades.simps

section \<open>Eliminations\<close>

text \<open>The estate of an eliminated player: back with the bank, without buildings.\<close>

definition released :: "int \<Rightarrow> property_state list \<Rightarrow> property_state list \<Rightarrow> bool" where
  "released seat before after \<longleftrightarrow>
     list_all2 (\<lambda>p q. if ownerSeatIndex p = Some seat
       then q = p\<lparr>ownerSeatIndex := None, houses := 0, hasHotel := False, mortgaged := False\<rparr> else q = p) before after"

lemma released_releaseIf: "released seat ps (map (releaseIf seat) ps)"
  by (simp add: released_def list_all2_map2 releaseIf_def releaseProperty_def list_all2_refl)

lemma contenders_eliminate:
  assumes "seat_at ps seat = Some p" "status p = Active"
  shows "contenders (update_seat seat eliminatePlayer ps) + 1 = contenders ps"
proof -
  from assms(1) have k: "nat seat < length ps" "ps ! nat seat = Some p"
    by (auto simp: seat_at_Some_iff nat_less_iff)
  have split: "ps = take (nat seat) ps @ Some p # drop (Suc (nat seat)) ps" using k by (metis id_take_nth_drop)
  have "update_seat seat eliminatePlayer ps = take (nat seat) ps @ Some (eliminatePlayer p) # drop (Suc (nat seat)) ps"
    unfolding update_seat_eq_list_update [OF assms(1)] using k by (simp add: upd_conv_take_nth_drop)
  then show ?thesis
    using assms(2) by (subst (2) split) (simp add: contenders_def eliminatePlayer_def)
qed

lemma bankruptcy_ends_iff:
  assumes "resolveBankruptcy ps props stock bank seat = Done r"
  shows "br_endConditionMet r \<longleftrightarrow> contenders ps \<le> 2"
proof -
  from assms obtain p where p: "seat_at ps seat = Some p" "status p = Active"
    "br_players r = update_seat seat eliminatePlayer ps" "br_endConditionMet r \<longleftrightarrow> length (activeSeatIndexes (br_players r)) \<le> 1"
    by (rule resolveBankruptcy_Done)
  from contenders_eliminate [OF p(1,2)] show ?thesis
    unfolding p(4) activeSeatIndexes_eq length_map contenders_active [symmetric] p(3) by linarith
qed

lemma declared_effect:
  assumes acc: "transitionGameplayBankruptcy s expected ctx = Accepted t ev" and p: "activeGameplayPlayer s = Some p"
    and inv: "game_inv s"
  shows "aggregate_players t = update_seat (seatIndex p) eliminatePlayer (gs_players s)"
    "released (seatIndex p) (gs_properties s) (aggregate_properties t)"
    "\<forall>trade \<in> set (aggregate_trades t). proposerSeatIndex trade \<noteq> seatIndex p \<and> receiverSeatIndex trade \<noteq> seatIndex p"
    "(\<exists>f. t = Finished f) \<longleftrightarrow> contenders (gs_players s) = 2"
proof -
  obtain r where r: "resolveBankruptcy (gs_players s) (gs_properties s) (gs_inventory s) (gs_bankCash s) (seatIndex p) = Done r"
    and t: "aggregate_players t = br_players r" "aggregate_properties t = br_properties r"
      "set (aggregate_trades t) \<subseteq> set (tradesWithout (seatIndex p) (gs_activeTrades s))"
      "(\<exists>f. t = Finished f) \<longleftrightarrow> br_endConditionMet r"
    using acc p by (cases rule: transitionGameplayBankruptcy_cases) (auto simp: finishState_def)
  show "aggregate_players t = update_seat (seatIndex p) eliminatePlayer (gs_players s)"
    "released (seatIndex p) (gs_properties s) (aggregate_properties t)"
    unfolding t using r by (auto elim!: resolveBankruptcy_Done simp: released_releaseIf)
  show "\<forall>trade \<in> set (aggregate_trades t). proposerSeatIndex trade \<noteq> seatIndex p \<and> receiverSeatIndex trade \<noteq> seatIndex p"
    using t(3) by (auto simp: tradesWithout_def)
  show "(\<exists>f. t = Finished f) \<longleftrightarrow> contenders (gs_players s) = 2"
    unfolding t(4) bankruptcy_ends_iff [OF r] using inv by (auto simp: game_inv_def)
qed

section \<open>Missed turns\<close>

lemma expiry_effect:
  assumes e: "expireTurn s p now = Accepted t ev" and p: "activeGameplayPlayer s = Some p"
    and seat: "seatIndex p = currentSeatIndex (as_turn s)"
  shows "missedTurns p < 2 \<Longrightarrow> \<exists>s' n q. t = InProgress s' \<and> gs_properties s' = gs_properties s \<and>
      gs_players s' = update_seat (seatIndex p) (\<lambda>x. x\<lparr>missedTurns := missedTurns p + 1\<rparr>) (gs_players s) \<and>
      as_turn s' = phasedTurn AwaitingRoll (freshTurn n now) \<and> n \<noteq> seatIndex p \<and> seat_at (gs_players s) n = Some q"
    and "missedTurns p = 2 \<Longrightarrow> released (seatIndex p) (gs_properties s) (aggregate_properties t) \<and>
      aggregate_players t = update_seat (seatIndex p) (\<lambda>x. eliminatePlayer (x\<lparr>missedTurns := 3\<rparr>)) (gs_players s)"
proof -
  have twice: "update_seat i f (update_seat i g ps) = update_seat i (\<lambda>x. f (g x)) ps" for i f g and ps :: "gameplay_player option list"
    by (rule nth_equalityI) (auto simp: nth_update_seat option.map_comp comp_def)
  show "\<exists>s' n q. t = InProgress s' \<and> gs_properties s' = gs_properties s \<and>
      gs_players s' = update_seat (seatIndex p) (\<lambda>x. x\<lparr>missedTurns := missedTurns p + 1\<rparr>) (gs_players s) \<and>
      as_turn s' = phasedTurn AwaitingRoll (freshTurn n now) \<and> n \<noteq> seatIndex p \<and> seat_at (gs_players s) n = Some q"
    if "missedTurns p < 2"
    using e p that by (cases rule: expireTurn_cases) (auto simp: seat)
  show "released (seatIndex p) (gs_properties s) (aggregate_properties t) \<and>
      aggregate_players t = update_seat (seatIndex p) (\<lambda>x. eliminatePlayer (x\<lparr>missedTurns := 3\<rparr>)) (gs_players s)"
    if "missedTurns p = 2"
    using e p that
    by (cases rule: expireTurn_cases)
      (auto simp: seat finishState_def released_releaseIf twice elim!: resolveBankruptcy_Done)
qed

section \<open>Rent and purchases\<close>

lemma rent_effect:
  assumes acc: "payGameplayRent s p now pos = Accepted t ev" and act: "acting s p now"
  obtains (short) amount roll s' where "gs_lastDice s = Some roll"
      "calculateRent (gs_properties s) pos (total roll) = Inr (Some amount)" "cash p < amount" "t = InProgress s'"
      "gs_players s' = gs_players s" "as_bankruptcyRequiredSeatIndex s' = Some (seatIndex p)" "ev = []"
  | (paid) amount roll ow s' where "gs_lastDice s = Some roll"
      "calculateRent (gs_properties s) pos (total roll) = Inr (Some amount)" "amount \<le> cash p"
      "rentOwner s pos = Some ow" "t = InProgress s'"
      "gs_players s' = update_seat (seatIndex ow) (\<lambda>x. x\<lparr>cash := cash ow + amount\<rparr>)
         (update_seat (seatIndex p) (\<lambda>x. x\<lparr>cash := cash p - amount\<rparr>) (gs_players s))"
      "ev = [RentPaid (playerId p) (playerId ow) pos amount]"
proof -
  from acc obtain ow amount roll turn where parts: "gs_lastDice s = Some roll" "rentOwner s pos = Some ow"
    "calculateRent (gs_properties s) pos (total roll) = Inr (Some amount)"
    by (auto simp: payGameplayRent_def split: if_splits option.splits sum.splits)
  from acc act show thesis
  proof (cases rule: payGameplayRent_cases)
    case bankrupt
    have less: "cash p < amount"
    proof (rule ccontr)
      assume "\<not> cash p < amount"
      with acc parts have "ev \<noteq> []" by (auto simp: payGameplayRent_def checkedSubtractMatchCash_def split: if_splits option.splits)
      with bankrupt show False by (auto simp: requireBankruptcy_def split: option.splits)
    qed
    obtain turn where t: "t = InProgress (s\<lparr>gs_stateVersion := gs_stateVersion s + 1, as_turn := turn,
        as_bankruptcyRequiredSeatIndex := Some (seatIndex p)\<rparr>)" "ev = []"
      using bankrupt by (auto simp: requireBankruptcy_def split: option.splits)
    show thesis by (rule short [OF parts(1,3) less t(1)]) (simp_all add: t(2))
  next
    case (paid ow' amount' turn)
    with acc parts have "amount' = amount" "ow' = ow"
      by (auto simp: payGameplayRent_def requireBankruptcy_def split: if_splits option.splits)
    with paid parts show thesis by (intro that(2) [OF parts(1,3)]) auto
  qed
qed

section \<open>The winner\<close>

definition worth :: "property_state list \<Rightarrow> 'a terminal_player_scheme \<Rightarrow> int" where
  "worth ps p = cash p + sum_list (map worthAt (holdings (seatIndex p) ps))"

lemma expected_worth:
  assumes "\<not> list_ex (\<lambda>p. expectedEntry ps p = None) players"
  shows "List.map_filter (expectedEntry ps) players = map (\<lambda>p. Ranked (seatIndex p) (worth ps p)) players"
proof (rule map_filter_Some)
  show "map (expectedEntry ps) players = map Some (map (\<lambda>p. Ranked (seatIndex p) (worth ps p)) players)"
    using assms
    by (auto simp: list_ex_iff expectedEntry_def worth_def dest!: calculatePlayerNetWorth_Some
        split: sum.splits option.splits)
qed

lemma finished_winner:
  assumes valid: "isValidFinishedGameplayAggregateState f"
  obtains w where "seat_at (gs_players f) (to_winnerSeatIndex (fs_terminal f)) = Some w" "status w = Active"
    "\<And>i q. seat_at (gs_players f) i = Some q \<Longrightarrow> status q = Active \<Longrightarrow>
       worth (gs_properties f) q < worth (gs_properties f) w \<or>
       worth (gs_properties f) q = worth (gs_properties f) w \<and> to_winnerSeatIndex (fs_terminal f) \<le> i"
proof -
  let ?active = "activePlayers (gs_players f)" and ?ps = "gs_properties f"
  let ?es = "map (\<lambda>p. Ranked (seatIndex p) (worth ?ps p)) ?active"
  have frame: "validStateFrame f" and some: "?active \<noteq> []"
    and win: "js_index (map rankedSeat (sort ?es)) 0 = Some (to_winnerSeatIndex (fs_terminal f))"
    using valid by (auto simp: isValidFinishedGameplayAggregateState_def Let_def expected_worth split: if_splits)
  have seats: "seatIndex p = i" if "seat_at (gs_players f) i = Some p" for i p
    using valid_frame_parts(7) [OF frame] that by (auto simp: slots_satisfy_def validBankruptcyPlayer_def)
  obtain e rest where sorted: "sort ?es = e # rest" using some by (cases "sort ?es") (auto dest: arg_cong [of _ _ length])
  have e: "e \<in> set ?es" using sorted by (metis list.set_intros(1) set_sort)
  have first: "\<And>x. x \<in> set ?es \<Longrightarrow> e \<le> x" using sorted sorted_sort [of ?es] by (metis set_ConsD set_sort sorted_simps(2) order_refl)
  from win sorted have seat: "rankedSeat e = to_winnerSeatIndex (fs_terminal f)" by (simp add: js_index_hd)
  from e obtain w where w: "w \<in> set ?active" "e = Ranked (seatIndex w) (worth ?ps w)" by auto
  then obtain k where k: "seat_at (gs_players f) k = Some w" "status w = Active" by (auto simp: activePlayers_seats)
  with seat w(2) seats have "seat_at (gs_players f) (to_winnerSeatIndex (fs_terminal f)) = Some w" by auto
  moreover have "worth ?ps q < worth ?ps w \<or> worth ?ps q = worth ?ps w \<and> to_winnerSeatIndex (fs_terminal f) \<le> i"
    if q: "seat_at (gs_players f) i = Some q" "status q = Active" for i q
  proof -
    have "q \<in> set ?active" using q by (auto simp: activePlayers_seats)
    with first w(2) have "e \<le> Ranked (seatIndex q) (worth ?ps q)" by auto
    with w(2) seat seats [OF q(1)] show ?thesis by (auto simp: less_eq_ranked_def)
  qed
  ultimately show thesis using that k(2) by blast
qed

end
