(* ===== verification/Turn_Protocol.thy ===== *)
theory Turn_Protocol
  imports Effects
begin

text \<open>
  What the players of a game rely on, without boards or money: an abstract machine that knows whose turn it
  is and who is still playing. The lemmas show that the gameplay handlers refine it: every accepted command is
  one of its steps.
\<close>

section \<open>The abstract machine\<close>

datatype protocol = Turn int "int set" | Over int

text \<open>The next seat clockwise that is still playing.\<close>

definition seat_after :: "int set \<Rightarrow> int \<Rightarrow> int" where
  "seat_after A c =
     (if (c + 1) mod 4 \<in> A then (c + 1) mod 4 else if (c + 2) mod 4 \<in> A then (c + 2) mod 4
      else if (c + 3) mod 4 \<in> A then (c + 3) mod 4 else c)"

inductive protocol_step :: "protocol \<Rightarrow> protocol \<Rightarrow> bool" where
  stay: "protocol_step (Turn c A) (Turn c A)"
| pass: "seat_after A c \<noteq> c \<Longrightarrow> protocol_step (Turn c A) (Turn (seat_after A c) A)"
| drop: "c \<in> A \<Longrightarrow> seat_after A c \<noteq> c \<Longrightarrow> protocol_step (Turn c A) (Turn (seat_after A c) (A - {c}))"
| over: "w \<in> A \<Longrightarrow> protocol_step (Turn c A) (Over w)"

inductive_cases protocol_stepE: "protocol_step (Turn c A) q"
inductive_simps protocol_step_Over [simp]: "protocol_step (Over w) q"

definition playing :: "gameplay_player option list \<Rightarrow> int set" where
  "playing players = {i. is_active (seat_at players i)}"

fun protocol_of :: "aggregate \<Rightarrow> protocol" where
  "protocol_of (InProgress s) = Turn (currentSeatIndex (as_turn s)) (playing (gs_players s))"
| "protocol_of (Finished f) = Over (to_winnerSeatIndex (fs_terminal f))"

section \<open>The clockwise search\<close>

lemma nextActiveSeat_after:
  assumes "nextActiveSeat players c = Some n" "0 \<le> c" "c < 4" "n \<noteq> c"
  shows "n = seat_after (playing players) c"
proof -
  have offsets: "map (\<lambda>offset. js_rem (c + offset) maximumPlayers) [1 .. maximumPlayers] =
      [(c + 1) mod 4, (c + 2) mod 4, (c + 3) mod 4, (c + 4) mod 4]"
    using assms(2) by (simp add: policy_simps upto.simps js_rem_def)
  have "(c + 4) mod 4 = c" using assms(2,3) by simp
  with assms(1,4) show ?thesis
    unfolding nextActiveSeat_def offsets by (auto simp: seat_after_def playing_def split: if_splits)
qed

lemma seat_after_without:
  assumes "0 \<le> c" "c < 4"
  shows "seat_after (A - {c}) c = seat_after A c"
proof -
  from assms have "c = 0 \<or> c = 1 \<or> c = 2 \<or> c = 3" by auto
  then show ?thesis by (elim disjE) (simp_all add: seat_after_def)
qed

lemma roster_playing: "roster qs = roster ps \<Longrightarrow> playing qs = playing ps"
  unfolding playing_def by (simp add: roster_same(1) [of qs ps])

lemma playing_update_seat:
  assumes "\<And>p. status (f p) = status p"
  shows "playing (update_seat seat f ps) = playing ps"
  using assms by (auto simp: playing_def is_active_def split: option.splits)

lemma playing_eliminate: "playing (update_seat seat eliminatePlayer ps) = playing ps - {seat}"
  by (auto simp: playing_def eliminatePlayer_def is_active_def split: option.splits if_splits)

section \<open>Whose turn a handler leaves\<close>

definition moves :: "active_state \<Rightarrow> active_state \<Rightarrow> bool" where
  "moves s s' \<longleftrightarrow>
     currentSeatIndex (as_turn s') = currentSeatIndex (as_turn s) \<or>
     currentSeatIndex (as_turn s') \<noteq> currentSeatIndex (as_turn s) \<and>
     nextActiveSeat (gs_players s) (currentSeatIndex (as_turn s)) = Some (currentSeatIndex (as_turn s'))"

lemma clocked_seat: "createClockedGameplayTurn ph seat now = Some turn \<Longrightarrow> currentSeatIndex turn = seat"
  by (auto dest: createClocked_Some(1))

lemma landing_seat: "createGameplayLandingTurn s pos seat now dbl = Some turn \<Longrightarrow> currentSeatIndex turn = seat"
  by (auto simp: createGameplayLandingTurn_def dest: clocked_seat split: option.splits property_type.splits if_splits)

lemma advanced_seat:
  assumes "advanceGameplayTurn s now = Some (turn, n)"
  shows "currentSeatIndex turn = n" "n \<noteq> currentSeatIndex (as_turn s)"
    "nextActiveSeat (gs_players s) (currentSeatIndex (as_turn s)) = Some n"
  using assms by (auto simp: advanceGameplayTurn_def nextActiveGameplaySeat_eq dest: clocked_seat split: option.splits if_splits)

lemma advanced_moves:
  assumes "advanceGameplayTurn s now = Some (turn, n)" "as_turn s' = turn"
  shows "moves s s'"
  using advanced_seat [OF assms(1)] assms(2) by (simp add: moves_def)

lemma same_seat_moves: "currentSeatIndex (as_turn s') = currentSeatIndex (as_turn s) \<Longrightarrow> moves s s'"
  by (simp add: moves_def)

lemma endGameplayTurn_moves: "endGameplayTurn s now = Accepted (InProgress s') ev \<Longrightarrow> moves s s'"
  by (auto simp: endGameplayTurn_def split: if_splits option.splits intro: advanced_moves)

lemma jailedRoll_moves:
  "jailedRoll s p now roll cp = Accepted (InProgress s') ev \<Longrightarrow> seatIndex p = currentSeatIndex (as_turn s) \<Longrightarrow> moves s s'"
  by (auto simp: jailedRoll_def Let_def rolledState_def clocked_seat landing_seat
      split: sum.splits option.splits jail_outcome.splits intro: advanced_moves same_seat_moves)

lemma threeDoublesRoll_moves: "threeDoublesRoll s p now roll cp = Accepted (InProgress s') ev \<Longrightarrow> moves s s'"
  by (auto simp: threeDoublesRoll_def rolledState_def split: option.splits intro: advanced_moves)

lemma freeRoll_moves:
  "freeRoll s p now roll cp d = Accepted (InProgress s') ev \<Longrightarrow> seatIndex p = currentSeatIndex (as_turn s) \<Longrightarrow> moves s s'"
  by (auto simp: freeRoll_def Let_def rolledState_def clocked_seat landing_seat
      split: option.splits if_splits intro: advanced_moves same_seat_moves)

lemma property_parts_move:
  assumes "seatIndex p = currentSeatIndex (as_turn s)"
  shows "decideProperty s p now pos buys = Accepted (InProgress s') ev \<Longrightarrow> moves s s'"
    and "payGameplayRent s p now pos = Accepted (InProgress s') ev \<Longrightarrow> moves s s'"
    and "payGameplayTax s p now kind = Accepted (InProgress s') ev \<Longrightarrow> moves s s'"
    and "changeBuilding s p now pos b = Accepted (InProgress s') ev \<Longrightarrow> moves s s'"
  by (auto simp: decideProperty_def payGameplayRent_def payGameplayTax_def changeBuilding_def requireBankruptcy_def
      phaseAfterResolvedAction_def buildingPhase_def Let_def assms clocked_seat landing_seat
      split: if_splits option.splits sum.splits intro: advanced_moves same_seat_moves)

section \<open>The handlers refine the machine\<close>

locale turn_taking = steady_handler +
  assumes passes_on: "handle s = Accepted (InProgress s') ev \<Longrightarrow> moves s s'"
begin

lemma refines:
  assumes "handle s = Accepted t ev"
  shows "protocol_step (protocol_of (InProgress s)) (protocol_of t)"
proof -
  from stays_in_progress [OF assms] obtain s' where t: "t = InProgress s'" "roster (gs_players s') = roster (gs_players s)"
    by (rule steady_step_elim)
  have c: "0 \<le> currentSeatIndex (as_turn s)" "currentSeatIndex (as_turn s) < 4"
    using guard_facts(7) [OF needs_guard [OF assms]] by (auto simp: clock_ok_def)
  from passes_on assms t(1) have "moves s s'" by simp
  then show ?thesis
  proof (cases "currentSeatIndex (as_turn s') = currentSeatIndex (as_turn s)")
    case True
    then show ?thesis by (simp add: t(1) roster_playing [OF t(2)] protocol_step.stay)
  next
    case False
    with \<open>moves s s'\<close> have "currentSeatIndex (as_turn s') = seat_after (playing (gs_players s)) (currentSeatIndex (as_turn s))"
      using nextActiveSeat_after [OF _ c] by (simp add: moves_def)
    with False show ?thesis
      using protocol_step.pass [of "playing (gs_players s)" "currentSeatIndex (as_turn s)"]
      by (simp add: t(1) roster_playing [OF t(2)])
  qed
qed

end

lemma acting_player_seat:
  assumes "commandGuard s ok expected now = None" "activeGameplayPlayer s = Some p"
  shows "seatIndex p = currentSeatIndex (as_turn s)"
  using guard_facts(10) [OF assms(1)] assms(2) by (auto elim!: valid_activeGameplayPlayer)

lemma turn_moves:
  assumes "transitionGameplayTurn s c expected ctx = Accepted (InProgress s') ev"
  shows "moves s s'"
proof -
  from assms obtain p where g: "commandGuard s True expected (nowMs ctx) = None" "activeGameplayPlayer s = Some p"
    and parts: "c = EndTurn \<longrightarrow> endGameplayTurn s (nowMs ctx) = Accepted (InProgress s') ev"
      "c \<noteq> EndTurn \<longrightarrow> rollGameplayDice s p ctx = Accepted (InProgress s') ev"
    by (rule transitionGameplayTurn_Accepted)
  note seat = acting_player_seat [OF g]
  show ?thesis
  proof (cases "c = EndTurn")
    case True
    with parts show ?thesis by (simp add: endGameplayTurn_moves)
  next
    case False
    with parts have "rollGameplayDice s p ctx = Accepted (InProgress s') ev" by simp
    then obtain roll cp d where roll: "inJail p \<longrightarrow> jailedRoll s p (nowMs ctx) roll cp = Accepted (InProgress s') ev"
      "\<not> inJail p \<longrightarrow> db_sentToJail d \<longrightarrow> threeDoublesRoll s p (nowMs ctx) roll cp = Accepted (InProgress s') ev"
      "\<not> inJail p \<longrightarrow> \<not> db_sentToJail d \<longrightarrow> freeRoll s p (nowMs ctx) roll cp d = Accepted (InProgress s') ev"
      by (rule rollGameplayDice_cases)
    then show ?thesis
      using jailedRoll_moves [OF _ seat] freeRoll_moves [OF _ seat] threeDoublesRoll_moves
      by (cases "inJail p"; cases "db_sentToJail d") auto
  qed
qed

interpretation turn_turn: turn_taking "\<lambda>s. transitionGameplayTurn s c expected ctx" expected "nowMs ctx" for c expected ctx
  by unfold_locales (rule turn_moves)

interpretation turn_property: turn_taking "\<lambda>s. transitionGameplayProperty s c expected ctx" expected "nowMs ctx"
  for c expected ctx
proof unfold_locales
  fix s s' ev
  assume "transitionGameplayProperty s c expected ctx = Accepted (InProgress s') ev"
  then obtain p where g: "commandGuard s True expected (nowMs ctx) = None" "activeGameplayPlayer s = Some p"
    and parts: "(\<exists>pos buys. decideProperty s p (nowMs ctx) pos buys = Accepted (InProgress s') ev) \<or>
     (\<exists>pos. payGameplayRent s p (nowMs ctx) pos = Accepted (InProgress s') ev) \<or>
     (\<exists>kind. payGameplayTax s p (nowMs ctx) kind = Accepted (InProgress s') ev) \<or>
     (\<exists>pos command. changeBuilding s p (nowMs ctx) pos command = Accepted (InProgress s') ev)"
    by (rule transitionGameplayProperty_Accepted)
  note seat = acting_player_seat [OF g]
  from parts show "moves s s'" using property_parts_move [OF seat] by blast
qed

interpretation turn_jail: turn_taking "\<lambda>s. transitionGameplayJail s c expected ctx" expected "nowMs ctx"
  for c expected ctx
proof unfold_locales
  fix s s' ev
  assume "transitionGameplayJail s c expected ctx = Accepted (InProgress s') ev"
  then show "moves s s'"
    by (auto simp: transitionGameplayJail_def leaveJail_def clocked_seat landing_seat acting_player_seat
        split: if_splits option.splits sum.splits intro: advanced_moves same_seat_moves)
qed

interpretation turn_card: turn_taking "\<lambda>s. transitionGameplayCard s c expected ctx" expected "nowMs ctx"
  for c expected ctx
proof unfold_locales
  fix s s' ev
  assume "transitionGameplayCard s c expected ctx = Accepted (InProgress s') ev"
  then show "moves s s'"
    by (auto simp: transitionGameplayCard_def applyDrawnCard_def continuationTurn_def Let_def
        acting_player_seat split: if_splits option.splits sum.splits dest!: clocked_seat landing_seat intro!: same_seat_moves)
qed

text \<open>The three ways a handler that changes the roster leaves the machine.\<close>

lemma protocol_drop:
  assumes "playing ps = A - {c}" "c \<in> A" "n = seat_after A c" "n \<noteq> c"
    and "gs_players s' = ps" "currentSeatIndex (as_turn s') = n"
  shows "protocol_step (Turn c A) (protocol_of (InProgress s'))"
  using protocol_step.drop [of c A] assms by simp

lemma protocol_over:
  assumes "isValidFinishedGameplayAggregateState f" "playing (gs_players f) \<subseteq> A"
  shows "protocol_step (Turn c A) (protocol_of (Finished f))"
proof -
  from assms(1) obtain w where "seat_at (gs_players f) (to_winnerSeatIndex (fs_terminal f)) = Some w" "status w = Active"
    by (rule finished_winner)
  then have "to_winnerSeatIndex (fs_terminal f) \<in> playing (gs_players f)" by (simp add: playing_def is_active_def)
  with assms(2) show ?thesis by (auto intro: protocol_step.over)
qed

lemma current_playing:
  assumes "commandGuard s True expected now = None" "activeGameplayPlayer s = Some p"
  shows "0 \<le> currentSeatIndex (as_turn s)" "currentSeatIndex (as_turn s) < 4"
    "currentSeatIndex (as_turn s) \<in> playing (gs_players s)" "seatIndex p = currentSeatIndex (as_turn s)"
  using guard_facts(7) [OF assms(1)] acting_player_seat [OF assms] assms(2)
  by (auto simp: clock_ok_def activeGameplayPlayer_Some playing_def is_active_def)

lemma playing_resolved:
  assumes "resolveBankruptcy players properties stock bank seat = Done r"
  shows "playing (br_players r) = playing players - {seat}"
  using assms by (auto elim!: resolveBankruptcy_Done simp: playing_eliminate)

lemma playing_missed: "playing (update_seat seat (\<lambda>q. q\<lparr>missedTurns := m\<rparr>) ps) = playing ps"
  by (rule playing_update_seat) simp

lemma bankruptcy_refines:
  assumes acc: "transitionGameplayBankruptcy s expected ctx = Accepted t ev"
  shows "protocol_step (protocol_of (InProgress s)) (protocol_of t)"
  using acc
proof (cases rule: transitionGameplayBankruptcy_cases)
  case (advanced p r turn n)
  note adv = advanced_seat [OF advanced(7)] and current = current_playing [OF advanced(1,2)]
  note n = nextActiveSeat_after [OF adv(3) current(1,2) adv(2)]
  show ?thesis unfolding advanced(8) protocol_of.simps(1) [of s]
    by (rule protocol_drop [OF _ current(3) n adv(2) refl])
      (use playing_resolved [OF advanced(5)] adv(1) current(4) in simp_all)
next
  case (ended p r terminal endingEvents)
  let ?f = "finishState s (br_players r) (br_properties r) (br_bankCash r) (br_inventory r) terminal"
  have "isValidFinishedGameplayAggregateState ?f" using transitionGameplayBankruptcy_valid [OF acc] by (simp add: ended(9))
  moreover have "playing (gs_players ?f) \<subseteq> playing (gs_players s)"
    using playing_resolved [OF ended(5)] by (auto simp: finishState_def)
  ultimately show ?thesis unfolding ended(9) protocol_of.simps(1) [of s] by (rule protocol_over)
qed

lemma expiry_refines:
  assumes guard: "commandGuard s True expected now = None" and p: "activeGameplayPlayer s = Some p"
    and acc: "expireTurn s p now = Accepted t ev" and valid: "isValidAggregate t"
  shows "protocol_step (protocol_of (InProgress s)) (protocol_of t)"
  using acc p
proof (cases rule: expireTurn_cases)
  case (advanced n q)
  note current = current_playing [OF guard p]
  have "n = seat_after (playing (gs_players s)) (currentSeatIndex (as_turn s))"
    using nextActiveSeat_after [OF advanced(4) current(1,2) advanced(2)] by (simp add: playing_missed)
  with advanced(2) protocol_step.pass [of "playing (gs_players s)" "currentSeatIndex (as_turn s)"]
  show ?thesis by (simp add: advanced(6) playing_missed)
next
  case (handed_on r n q)
  note current = current_playing [OF guard p]
  have A: "playing (br_players r) = playing (gs_players s) - {currentSeatIndex (as_turn s)}"
    using playing_resolved [OF handed_on(2)] by (simp add: playing_missed)
  have "n \<in> playing (br_players r)"
    using next_seat_player(1) [OF handed_on(5) current(1,2) handed_on(6)] handed_on(6) by (simp add: playing_def is_active_def)
  then have other: "n \<noteq> currentSeatIndex (as_turn s)" by (auto simp: A)
  have n: "n = seat_after (playing (gs_players s)) (currentSeatIndex (as_turn s))"
    using nextActiveSeat_after [OF handed_on(5) current(1,2) other] by (simp add: A seat_after_without [OF current(1,2)])
  show ?thesis unfolding handed_on(7) protocol_of.simps(1) [of s]
    by (rule protocol_drop [OF A current(3) n other]) simp_all
next
  case (ended r terminal endingEvents)
  let ?f = "finishState s (br_players r) (br_properties r) (br_bankCash r) (br_inventory r) terminal"
  have "isValidFinishedGameplayAggregateState ?f" using valid by (simp add: ended(6))
  moreover have "playing (gs_players ?f) \<subseteq> playing (gs_players s)"
    using playing_resolved [OF ended(2)] by (auto simp: finishState_def playing_missed)
  ultimately show ?thesis unfolding ended(6) protocol_of.simps(1) [of s] by (rule protocol_over)
qed

lemma timeout_refines:
  assumes acc: "transitionGameplayTimeout s c expected ctx = Accepted t ev"
  shows "protocol_step (protocol_of (InProgress s)) (protocol_of t)"
  using acc
proof (cases rule: transitionGameplayTimeout_Accepted)
  case 1
  from 1(5) obtain terminal where t: "t = Finished (finishState s (gs_players s) (gs_properties s) (gs_bankCash s) (gs_inventory s) terminal)"
    by (rule enforceTimeLimit_Accepted)
  show ?thesis unfolding t protocol_of.simps(1) [of s]
    by (rule protocol_over) (use transitionGameplayTimeout_valid [OF acc] in \<open>simp_all add: t finishState_def\<close>)
next
  case (2 p)
  then obtain w where "warnTurn s p w (nowMs ctx) = Accepted t ev" by blast
  then obtain turn where turn: "emitTimeoutWarning (timeoutTurn (as_turn s)) w (nowMs ctx) = Inr (turn, w)"
    and t: "t = InProgress (s\<lparr>gs_stateVersion := gs_stateVersion s + 1, as_turn := phasedTurn (phase (as_turn s)) turn\<rparr>)"
    by (rule warnTurn_Accepted)
  from emitTimeoutWarning_Inr(3) [OF turn] show ?thesis by (simp add: t protocol_step.stay)
next
  case (3 p)
  from expiry_refines [OF 3(1,4,6)] transitionGameplayTimeout_valid [OF acc] show ?thesis .
qed

lemma trade_refines:
  assumes acc: "transitionGameplayTrade s c expected ctx = Accepted t ev"
  shows "protocol_step (protocol_of (InProgress s)) (protocol_of t)"
proof -
  from acc obtain s' where t: "t = InProgress s'" "roster (gs_players s') = roster (gs_players s)" by (rule trade_roster)
  from acc have "as_turn s' = as_turn s" by (cases rule: transitionGameplayTrade_cases) (simp_all add: t(1))
  then show ?thesis by (simp add: t(1) roster_playing [OF t(2)] protocol_step.stay)
qed

lemma router_refines:
  assumes "routeCommand s command ctx = Accepted t ev"
  shows "protocol_step (protocol_of (InProgress s)) (protocol_of t)"
  using assms
  by (cases "body command")
    (auto simp: routeCommand_def Let_def dest: turn_turn.refines turn_property.refines turn_jail.refines turn_card.refines
      bankruptcy_refines timeout_refines trade_refines)

section \<open>Runs of the machine\<close>

fun in_play :: "protocol \<Rightarrow> int set" where
  "in_play (Turn c A) = A"
| "in_play (Over w) = {w}"

lemma step_shrinks: "protocol_step p q \<Longrightarrow> in_play q \<subseteq> in_play p"
  by (induction rule: protocol_step.induct) auto

lemma run_refines:
  assumes "game_run a steps b"
  shows "rtranclp protocol_step (protocol_of a) (protocol_of b)"
  using assms
proof (induction rule: game_run.induct)
  case (run_step a steps b command ctx c ev)
  from run_step(2) obtain s where "b = InProgress s" "routeCommand s command ctx = Accepted c ev"
    by (rule transitionGameplay_Accepted)
  with router_refines [of s command ctx c ev] run_step(3) show ?case by (simp only: rtranclp.rtrancl_into_rtrancl)
qed simp

lemma steps_shrink: "rtranclp protocol_step p q \<Longrightarrow> in_play q \<subseteq> in_play p"
  by (induction rule: rtranclp_induct) (auto dest: step_shrinks)

end
