(* ===== verification/Turn_Clock.thy ===== *)
theory Turn_Clock
  imports Turn_Protocol
begin

text \<open>
  The clock of a turn: an accepted command either leaves it running, with the warnings it has given, or starts it anew at
  the time of the command. Commands of a player start it anew for the same player as well, so a turn may have several
  clocks; each of them gives a warning at most once.
\<close>

section \<open>What a command does to the clock\<close>

definition fresh_clock :: "int \<Rightarrow> active_turn \<Rightarrow> bool" where
  "fresh_clock now turn \<longleftrightarrow> turnStartedAtMs turn = now \<and> emittedWarnings turn = []"

definition clock_step :: "int \<Rightarrow> active_state \<Rightarrow> active_state \<Rightarrow> bool" where
  "clock_step now s s' \<longleftrightarrow>
     fresh_clock now (as_turn s') \<or>
     turnStartedAtMs (as_turn s') = turnStartedAtMs (as_turn s) \<and>
     set (emittedWarnings (as_turn s)) \<subseteq> set (emittedWarnings (as_turn s'))"

text \<open>The clock since a warning: still running with it, or started anew at some later time.\<close>

definition warned_since :: "int \<Rightarrow> int \<Rightarrow> int \<Rightarrow> active_turn \<Rightarrow> bool" where
  "warned_since started w time turn \<longleftrightarrow>
     time \<le> turnStartedAtMs turn \<or> turnStartedAtMs turn = started \<and> w \<in> set (emittedWarnings turn)"

lemma warned_step:
  assumes "warned_since started w time (as_turn s)" "clock_step now s s'" "time \<le> now"
  shows "warned_since started w time (as_turn s')"
  using assms by (auto simp: warned_since_def clock_step_def fresh_clock_def)

lemma fresh_step: "fresh_clock now (as_turn s') \<Longrightarrow> clock_step now s s'"
  by (simp add: clock_step_def)

lemma same_clock_step: "as_turn s' = as_turn s \<Longrightarrow> clock_step now s s'"
  by (simp add: clock_step_def)

lemma fresh_clocked: "createClockedGameplayTurn ph seat now = Some turn \<Longrightarrow> fresh_clock now turn"
  by (auto dest: createClocked_Some(1) simp: fresh_clock_def)

lemma fresh_landing: "createGameplayLandingTurn s pos seat now dbl = Some turn \<Longrightarrow> fresh_clock now turn"
  by (auto simp: createGameplayLandingTurn_def fresh_clock_def dest: createClocked_Some(1)
      split: option.splits property_type.splits if_splits)

lemma fresh_advanced: "advanceGameplayTurn s now = Some (turn, n) \<Longrightarrow> fresh_clock now turn"
  by (auto simp: advanceGameplayTurn_def dest: fresh_clocked split: option.splits if_splits)

lemmas fresh_turns = fresh_clocked fresh_landing fresh_advanced

section \<open>The handlers\<close>

locale clocked_handler = gameplay_handler +
  assumes keeps_clock: "handle s = Accepted (InProgress s') ev \<Longrightarrow> clock_step now s s'"
begin

lemma stays_warned:
  assumes "handle s = Accepted (InProgress s') ev" "warned_since started w time (as_turn s)" "time \<le> now"
  shows "warned_since started w time (as_turn s')"
  by (rule warned_step [OF assms(2) keeps_clock [OF assms(1)] assms(3)])

end

lemma turn_parts_clock:
  "endGameplayTurn s now = Accepted (InProgress s') ev \<Longrightarrow> clock_step now s s'"
  "jailedRoll s p now roll cp = Accepted (InProgress s') ev \<Longrightarrow> clock_step now s s'"
  "threeDoublesRoll s p now roll cp = Accepted (InProgress s') ev \<Longrightarrow> clock_step now s s'"
  "freeRoll s p now roll cp d = Accepted (InProgress s') ev \<Longrightarrow> clock_step now s s'"
     apply (auto simp: endGameplayTurn_def split: if_splits option.splits intro!: fresh_step dest!: fresh_turns)[1]
    apply (auto simp: jailedRoll_def Let_def rolledState_def
        split: sum.splits option.splits jail_outcome.splits intro!: fresh_step dest!: fresh_turns)[1]
   apply (auto simp: threeDoublesRoll_def rolledState_def split: option.splits intro!: fresh_step dest!: fresh_turns)[1]
  apply (auto simp: freeRoll_def Let_def rolledState_def split: option.splits if_splits intro!: fresh_step dest!: fresh_turns)[1]
  done

interpretation clock_turn: clocked_handler "\<lambda>s. transitionGameplayTurn s c expected ctx" expected "nowMs ctx"
  for c expected ctx
  by unfold_locales
    (auto simp: transitionGameplayTurn_def rollGameplayDice_def split: if_splits option.splits dest: turn_parts_clock)

lemma property_parts_clock:
  "decideProperty s p now pos buys = Accepted (InProgress s') ev \<Longrightarrow> clock_step now s s'"
  "payGameplayRent s p now pos = Accepted (InProgress s') ev \<Longrightarrow> clock_step now s s'"
  "payGameplayTax s p now kind = Accepted (InProgress s') ev \<Longrightarrow> clock_step now s s'"
  "changeBuilding s p now pos b = Accepted (InProgress s') ev \<Longrightarrow> clock_step now s s'"
  by (auto simp: decideProperty_def payGameplayRent_def payGameplayTax_def changeBuilding_def requireBankruptcy_def
      phaseAfterResolvedAction_def buildingPhase_def Let_def
      split: if_splits option.splits sum.splits intro!: fresh_step dest!: fresh_turns)

interpretation clock_property: clocked_handler "\<lambda>s. transitionGameplayProperty s c expected ctx" expected "nowMs ctx"
  for c expected ctx
  by unfold_locales (auto elim!: transitionGameplayProperty_Accepted dest: property_parts_clock)

interpretation clock_jail: clocked_handler "\<lambda>s. transitionGameplayJail s c expected ctx" expected "nowMs ctx"
  for c expected ctx
  by unfold_locales
    (auto simp: transitionGameplayJail_def leaveJail_def
      split: if_splits option.splits sum.splits intro!: fresh_step dest!: fresh_turns)

interpretation clock_card: clocked_handler "\<lambda>s. transitionGameplayCard s c expected ctx" expected "nowMs ctx"
  for c expected ctx
  by unfold_locales
    (auto simp: transitionGameplayCard_def applyDrawnCard_def continuationTurn_def Let_def
      split: if_splits option.splits sum.splits intro!: fresh_step dest!: fresh_turns)

interpretation clock_bankruptcy: clocked_handler "\<lambda>s. transitionGameplayBankruptcy s expected ctx" expected "nowMs ctx"
  for expected ctx
  by unfold_locales (auto elim!: transitionGameplayBankruptcy_cases intro!: fresh_step dest!: fresh_turns)

interpretation clock_trade: clocked_handler "\<lambda>s. transitionGameplayTrade s c expected ctx" expected "nowMs ctx"
  for c expected ctx
  by unfold_locales (auto elim!: transitionGameplayTrade_cases intro!: same_clock_step)

lemma expireTurn_clock:
  assumes "expireTurn s p now = Accepted (InProgress s') ev" "activeGameplayPlayer s = Some p"
  shows "clock_step now s s'"
  using assms by (cases rule: expireTurn_cases) (auto simp: freshTurn_def phasedTurn_def fresh_clock_def intro!: fresh_step)

lemma warnTurn_clock: "warnTurn s p w now = Accepted (InProgress s') ev \<Longrightarrow> clock_step now s s'"
  by (auto elim!: warnTurn_Accepted dest!: emitTimeoutWarning_Inr(3) simp: clock_step_def)

interpretation clock_timeout: clocked_handler "\<lambda>s. transitionGameplayTimeout s c expected ctx" expected "nowMs ctx"
  for c expected ctx
  by unfold_locales
    (auto elim!: transitionGameplayTimeout_Accepted enforceTimeLimit_Accepted dest: warnTurn_clock expireTurn_clock)

interpretation clock_router: clocked_handler "\<lambda>s. transitionGameplay (InProgress s) command ctx"
    "expectedStateVersion command" "nowMs ctx" for command ctx
proof unfold_locales
  fix s s' ev
  assume "transitionGameplay (InProgress s) command ctx = Accepted (InProgress s') ev"
  then have "routeCommand s command ctx = Accepted (InProgress s') ev" by (auto elim!: transitionGameplay_Accepted)
  then show "clock_step (nowMs ctx) s s'"
    by (cases "body command")
      (auto simp: routeCommand_def Let_def dest: clock_turn.keeps_clock clock_property.keeps_clock clock_jail.keeps_clock
        clock_card.keeps_clock clock_bankruptcy.keeps_clock clock_trade.keeps_clock clock_timeout.keeps_clock)
qed

section \<open>Runs\<close>

lemma run_warned:
  assumes "game_run a steps b" "a = InProgress s" "b = InProgress u" "\<forall>(command, ctx) \<in> set steps. time \<le> nowMs ctx"
    and "warned_since started w time (as_turn s)"
  shows "warned_since started w time (as_turn u)"
  using assms
proof (induction arbitrary: u rule: game_run.induct)
  case (run_step a steps b command ctx c ev)
  from run_step(2) obtain v where v: "b = InProgress v" by (rule transitionGameplay_Accepted)
  from run_step(3) [OF run_step(4) v] run_step(6,7) have "warned_since started w time (as_turn v)" by auto
  with run_step(2,5,6) v show ?case by (auto intro: clock_router.stays_warned)
qed simp

lemma clock_ok_timeoutTurn: "clock_ok (timeoutTurn turn) \<longleftrightarrow> clock_ok turn"
  unfolding clock_ok_def timeoutTurn_simps ..

text \<open>A clock that has started since is due later.\<close>

lemma warned_again:
  assumes "warned_since (turnStartedAtMs (as_turn s)) w time (as_turn u)" "w \<notin> set (emittedWarnings (as_turn u))"
    and "clock_ok (as_turn s)" "clock_ok (as_turn u)" "deadlineAtMs (as_turn s) - w * 1000 \<le> time" "w \<le> 30"
  shows "time \<le> turnStartedAtMs (as_turn u) \<and> deadlineAtMs (as_turn s) < deadlineAtMs (as_turn u)"
  using assms by (auto simp: warned_since_def clock_ok_def policy_simps)

end
