(* ===== verification/Ending_Properties.thy ===== *)
theory Ending_Properties
  imports Scenario Effects Turn_Clock
begin

text \<open>
  The properties of how a game ends: bankruptcy, missed turns, the time limit, the winner, and the one step
  in which money leaves the game unaccounted.
\<close>

text \<open>C23. The write-off: when the dice of the third attempt in jail are no double and the player cannot pay the fine, the
  cash that is left disappears, and the roll itself is the only event: none accounts for the money.\<close>

theorem jail_write_off_unreported:
  assumes "transitionGameplay (InProgress s) command ctx = Accepted (InProgress s') ev" "body command = TurnCommand RollDice"
    and "activeGameplayPlayer s = Some p" "inJail p" "jailTurns p = 2" "cash p < jailFine"
    and "gs_lastDice s' = Some roll" "\<not> isDoubles roll"
  shows "ev = [DiceRolled (playerId p) roll] \<and> aggregate_money (InProgress s') = moneySupply s - cash p \<and>
    expectedCashDelta s ev = 0"
proof -
  from assms(1,2) have "transitionGameplayTurn s RollDice (expectedStateVersion command) ctx = Accepted (InProgress s') ev"
    by (auto elim!: transitionGameplay_Accepted simp: routeCommand_def Let_def)
  then obtain q where q: "activeGameplayPlayer s = Some q" "rollGameplayDice s q ctx = Accepted (InProgress s') ev"
    by (rule transitionGameplayTurn_Accepted) simp_all
  with assms(3,4) obtain roll' cp where j: "jailedRoll s p (nowMs ctx) roll' cp = Accepted (InProgress s') ev"
    by (auto elim!: rollGameplayDice_cases)
  then obtain a where a: "resolveJailRoll p roll' = Inr a" by (auto simp: jailedRoll_def split: sum.splits)
  from j have roll: "roll' = roll"
    using assms(7) by (auto simp: jailedRoll_def Let_def rolledState_def split: sum.splits option.splits jail_outcome.splits)
  have seat: "seat_at (gs_players s) (seatIndex p) = Some p"
    using assms(1,3) by (auto elim!: transitionGameplay_Accepted valid_activeGameplayPlayer)
  from a show ?thesis
  proof (cases rule: resolveJailRoll_cases)
    case bankrupt
    with j a seat roll show ?thesis
      by (auto simp: jailedRoll_def Let_def rolledState_money mergeJailState_def expectedCashDelta_def split: option.splits)
  qed (use assms(5,6,8) roll in auto)
qed

theorem jail_write_off_unreported_witness:
  "\<exists>s' ev. transitionGameplay (InProgress jailed_state) (versioned 9 (TurnCommand RollDice)) (player_at 600 alice) =
       Accepted (InProgress s') ev \<and> aggregate_money (InProgress s') = moneySupply jailed_state - 10 \<and>
     expectedCashDelta jailed_state ev = 0"
proof -
  let ?p = "(player_with 0 alice 10 10 10)\<lparr>inJail := True, jailTurns := 2\<rparr>"
  let ?r = "transitionGameplay (InProgress jailed_state) (versioned 9 (TurnCommand RollDice)) (player_at 600 alice)"
  have "case ?r of Accepted (InProgress s') ev \<Rightarrow> gs_lastDice s' = Some (roll_of 1 2) | _ \<Rightarrow> False" by code_simp
  then obtain s' ev where t: "?r = Accepted (InProgress s') ev" and dice: "gs_lastDice s' = Some (roll_of 1 2)"
    by (auto split: transition_result.splits aggregate.splits)
  have p: "activeGameplayPlayer jailed_state = Some ?p" by code_simp
  have facts: "body (versioned 9 (TurnCommand RollDice)) = TurnCommand RollDice" "inJail ?p" "jailTurns ?p = 2" "cash ?p < jailFine"
    and ten: "cash ?p = 10" by (simp_all add: player_with_def policy_simps versioned_def)
  have "\<not> isDoubles (roll_of 1 2)" by code_simp
  from jail_write_off_unreported [OF t facts(1) p facts(2-4) dice this, unfolded ten] t show ?thesis by blast
qed

text \<open>C24. While a bankruptcy is pending, the only command any actor can have accepted is the debtor's declaration.\<close>

theorem pending_bankruptcy_blocks:
  assumes "transitionGameplay (InProgress s) command ctx = Accepted t ev" "as_bankruptcyRequiredSeatIndex s = Some seat"
  shows "body command = DeclareBankruptcy \<and>
    (\<exists>p. activeGameplayPlayer s = Some p \<and> seatIndex p = seat \<and> actor ctx = PlayerActor (playerId p))"
proof -
  from assms(1) have valid: "isValidActiveGameplayAggregateState s" and route: "routeCommand s command ctx = Accepted t ev"
    by (auto elim!: transitionGameplay_Accepted)
  from pending_only_declare [OF route valid] assms(2) have only: "body command = DeclareBankruptcy" by simp
  with route have "transitionGameplayBankruptcy s (expectedStateVersion command) ctx = Accepted t ev"
    by (simp add: routeCommand_def Let_def)
  with assms(2) only show ?thesis by (auto elim!: declare_by_debtor)
qed

theorem pending_bankruptcy_blocks_witness:
  "\<exists>t ev. transitionGameplay (InProgress broke_state) (versioned 9 DeclareBankruptcy) (player_at 600 bob) = Accepted t ev \<and>
     (\<exists>p. activeGameplayPlayer broke_state = Some p \<and> seatIndex p = 1 \<and> playerId p = bob)"
proof -
  have "accepted (transitionGameplay (InProgress broke_state) (versioned 9 DeclareBankruptcy) (player_at 600 bob))" by code_simp
  then obtain t ev where t: "transitionGameplay (InProgress broke_state) (versioned 9 DeclareBankruptcy) (player_at 600 bob) =
      Accepted t ev" by (rule acceptedE)
  have "as_bankruptcyRequiredSeatIndex broke_state = Some 1" by (simp add: broke_state_def)
  from pending_bankruptcy_blocks [OF t this] t show ?thesis by (auto simp: player_at_def)
qed

text \<open>C25. And that declaration is always accepted, so the debtor is never stuck: with the clock right and the money of
  the game below the 78-digit limit by \<open>headroom\<close>, no check of the liquidation fails.\<close>

theorem declaration_accepted:
  assumes "game_inv s" "roomy s" "on_time s (nowMs ctx)" "validContext ctx"
    and "activeGameplayPlayer s = Some p" "actor ctx = PlayerActor (playerId p)" "as_bankruptcyRequiredSeatIndex s \<noteq> None"
    and "command = \<lparr>expectedStateVersion = gs_stateVersion s, body = DeclareBankruptcy\<rparr>"
  shows "\<exists>t ev. transitionGameplay (InProgress s) command ctx = Accepted t ev"
  using assms by (rule declare_accepted)

theorem declaration_accepted_witness:
  "\<exists>t ev. transitionGameplay (InProgress broke_state) (versioned 9 DeclareBankruptcy) (player_at 600 bob) = Accepted t ev"
proof (rule declaration_accepted [OF broke_inv])
  show "roomy broke_state" "on_time broke_state (nowMs (player_at 600 bob))" "validContext (player_at 600 bob)" by code_simp+
  show "activeGameplayPlayer broke_state = Some (player_with 1 bob 20 1 3)" by code_simp
  show "actor (player_at 600 bob) = PlayerActor (playerId (player_with 1 bob 20 1 3))"
    by (simp add: player_at_def player_with_def)
  show "as_bankruptcyRequiredSeatIndex broke_state \<noteq> None"
    "versioned 9 DeclareBankruptcy = \<lparr>expectedStateVersion = gs_stateVersion broke_state, body = DeclareBankruptcy\<rparr>"
    by (simp_all add: broke_state_def position_of_def versioned_def)
qed

text \<open>C26. Once the time limit has passed, every good game is at most two commands from its end: the debtor's declaration,
  if one is pending, and the server's enforcement of the limit.\<close>

theorem limit_reaches_end:
  assumes "game_inv s" "moneySupply s + 2 * headroom \<le> MAX_MATCH_CASH" "on_time s (nowMs ctx)"
    and "gs_stateVersion s + 1 < MAX_STATE_VERSION" "gs_gameEndAtMs s = Some limit" "limit \<le> nowMs ctx"
  shows "\<exists>steps f. length steps \<le> 2 \<and> (\<forall>(command, x) \<in> set steps. \<exists>who. x = ctx\<lparr>actor := who\<rparr>) \<and>
    game_run (InProgress s) steps (Finished f)"
  using assms by (rule way_out)

theorem limit_reaches_end_witness:
  "\<exists>steps :: (gameplay_command \<times> nat gameplay_context) list. \<exists>f. game_run (InProgress broke_state) steps (Finished f)"
proof -
  have "moneySupply broke_state + 2 * headroom \<le> MAX_MATCH_CASH" "on_time broke_state (nowMs (server_at 3600030))"
    "gs_stateVersion broke_state + 1 < MAX_STATE_VERSION" "gs_gameEndAtMs broke_state = Some 3600030"
    "3600030 \<le> nowMs (server_at 3600030)" by code_simp+
  from limit_reaches_end [OF broke_inv this] show ?thesis by blast
qed

text \<open>C27. A declared bankruptcy eliminates the debtor and nobody else: the whole estate goes back to the bank without
  buildings, every open trade of the debtor disappears, and the game ends exactly when one player is left.\<close>

theorem declaration_effect:
  assumes "game_inv s" "transitionGameplay (InProgress s) command ctx = Accepted t ev" "body command = DeclareBankruptcy"
    and "activeGameplayPlayer s = Some p"
  shows "aggregate_players t = update_seat (seatIndex p) eliminatePlayer (gs_players s) \<and>
    released (seatIndex p) (gs_properties s) (aggregate_properties t) \<and>
    (\<forall>trade \<in> set (aggregate_trades t). proposerSeatIndex trade \<noteq> seatIndex p \<and> receiverSeatIndex trade \<noteq> seatIndex p) \<and>
    ((\<exists>f. t = Finished f) \<longleftrightarrow> contenders (gs_players s) = 2)"
proof -
  from assms(2,3) have "transitionGameplayBankruptcy s (expectedStateVersion command) ctx = Accepted t ev"
    by (auto elim!: transitionGameplay_Accepted simp: routeCommand_def Let_def)
  from declared_effect [OF this assms(4,1)] show ?thesis by blast
qed

theorem declaration_effect_witness:
  "\<exists>f ev. transitionGameplay (InProgress broke_state) (versioned 9 DeclareBankruptcy) (player_at 600 bob) =
       Accepted (Finished f) ev \<and> released 1 (gs_properties broke_state) (gs_properties f)"
proof -
  let ?r = "transitionGameplay (InProgress broke_state) (versioned 9 DeclareBankruptcy) (player_at 600 bob)"
  have "accepted ?r" by code_simp
  then obtain t ev where t: "?r = Accepted t ev" by (rule acceptedE)
  have p: "activeGameplayPlayer broke_state = Some (player_with 1 bob 20 1 3)" by code_simp
  have "contenders (gs_players broke_state) = 2" by code_simp
  with declaration_effect [OF broke_inv t _ p] t show ?thesis by (auto simp: versioned_def player_with_def)
qed

text \<open>C28. An expired turn costs the player a missed turn and passes the turn to another seat, with every estate and purse
  untouched; the third one eliminates the player as a bankruptcy does.\<close>

theorem expiry_penalty:
  assumes "transitionGameplay (InProgress s) command ctx = Accepted t ev"
    and "body command = TimeoutCommand HandleTurnTimeout" "activeGameplayPlayer s = Some p"
  shows "(missedTurns p < 2 \<longrightarrow> (\<exists>s' n q. t = InProgress s' \<and> gs_properties s' = gs_properties s \<and>
      gs_players s' = update_seat (seatIndex p) (\<lambda>x. x\<lparr>missedTurns := missedTurns p + 1\<rparr>) (gs_players s) \<and>
      as_turn s' = phasedTurn AwaitingRoll (freshTurn n (nowMs ctx)) \<and> n \<noteq> seatIndex p \<and> seat_at (gs_players s) n = Some q)) \<and>
    (missedTurns p = 2 \<longrightarrow> released (seatIndex p) (gs_properties s) (aggregate_properties t) \<and>
      aggregate_players t = update_seat (seatIndex p) (\<lambda>x. eliminatePlayer (x\<lparr>missedTurns := 3\<rparr>)) (gs_players s))"
proof -
  from assms(1,2) have valid: "isValidActiveGameplayAggregateState s"
    and timeout: "transitionGameplayTimeout s HandleTurnTimeout (expectedStateVersion command) ctx = Accepted t ev"
    by (auto elim!: transitionGameplay_Accepted simp: routeCommand_def Let_def)
  from timeout have e: "expireTurn s p (nowMs ctx) = Accepted t ev"
    by (rule transitionGameplayTimeout_Accepted) (use assms(3) in auto)
  have "seatIndex p = currentSeatIndex (as_turn s)" using valid assms(3) by (auto elim!: valid_activeGameplayPlayer)
  from expiry_effect [OF e assms(3) this] show ?thesis by blast
qed

theorem expiry_penalty_witness:
  "\<exists>t ev. transitionGameplay (InProgress absent_state) (versioned 9 (TimeoutCommand HandleTurnTimeout)) (server_at 90500) =
       Accepted t ev \<and> released 0 (gs_properties absent_state) (aggregate_properties t)"
proof -
  let ?p = "(player_with 0 alice 10 1000 3)\<lparr>missedTurns := 2\<rparr>"
  let ?r = "transitionGameplay (InProgress absent_state) (versioned 9 (TimeoutCommand HandleTurnTimeout)) (server_at 90500)"
  have "accepted ?r" by code_simp
  then obtain t ev where t: "?r = Accepted t ev" by (rule acceptedE)
  have p: "activeGameplayPlayer absent_state = Some ?p" by code_simp
  from expiry_penalty [OF t _ p] t show ?thesis by (auto simp: versioned_def player_with_def)
qed

lemma warning_Accepted:
  assumes "transitionGameplay (InProgress s) command ctx = Accepted t ev" "body command = TimeoutCommand warn"
    and "(warn, w) = (WarnTurnThirtySeconds, 30) \<or> (warn, w) = (WarnTurnTenSeconds, 10)"
  obtains turn where "emitTimeoutWarning (timeoutTurn (as_turn s)) w (nowMs ctx) = Inr (turn, w)"
    "t = InProgress (s\<lparr>gs_stateVersion := gs_stateVersion s + 1, as_turn := phasedTurn (phase (as_turn s)) turn\<rparr>)"
proof -
  from assms(1,2) have "transitionGameplayTimeout s warn (expectedStateVersion command) ctx = Accepted t ev"
    by (auto elim!: transitionGameplay_Accepted simp: routeCommand_def Let_def)
  then obtain p where "warnTurn s p w (nowMs ctx) = Accepted t ev"
    by (rule transitionGameplayTimeout_Accepted) (use assms(3) in auto)
  then show thesis by (rule warnTurn_Accepted) (rule that)
qed

text \<open>C29. Warnings: one is accepted only when the clock of the turn has not given it yet, in its last 30 or 10 seconds,
  and moves no deadline. Each clock gives it at most once: however the game goes on, as long as time does not run
  backwards, the same warning is accepted again only for a clock that was started after it and is due later.\<close>

theorem warning_once:
  assumes "transitionGameplay (InProgress s) command ctx = Accepted t ev"
    and "body command = TimeoutCommand warn" "(warn, w) = (WarnTurnThirtySeconds, 30) \<or> (warn, w) = (WarnTurnTenSeconds, 10)"
  shows "\<exists>s'. t = InProgress s' \<and> w \<notin> set (emittedWarnings (as_turn s)) \<and>
    emittedWarnings (as_turn s') = emittedWarnings (as_turn s) @ [w] \<and> deadlineAtMs (as_turn s') = deadlineAtMs (as_turn s) \<and>
    deadlineAtMs (as_turn s) - w * 1000 \<le> nowMs ctx \<and> nowMs ctx < deadlineAtMs (as_turn s) \<and>
    (\<forall>steps u command' ctx' v ev'. game_run t steps (InProgress u) \<longrightarrow> (\<forall>(_, later) \<in> set steps. nowMs ctx \<le> nowMs later) \<longrightarrow>
       body command' = TimeoutCommand warn \<longrightarrow> transitionGameplay (InProgress u) command' ctx' = Accepted v ev' \<longrightarrow>
       nowMs ctx \<le> turnStartedAtMs (as_turn u) \<and> deadlineAtMs (as_turn s) < deadlineAtMs (as_turn u))"
proof -
  from assms obtain turn where warned: "emitTimeoutWarning (timeoutTurn (as_turn s)) w (nowMs ctx) = Inr (turn, w)"
    and t: "t = InProgress (s\<lparr>gs_stateVersion := gs_stateVersion s + 1, as_turn := phasedTurn (phase (as_turn s)) turn\<rparr>)"
    by (rule warning_Accepted)
  let ?s' = "s\<lparr>gs_stateVersion := gs_stateVersion s + 1, as_turn := phasedTurn (phase (as_turn s)) turn\<rparr>"
  note facts = emitTimeoutWarning_Inr [OF warned]
  have after: "emittedWarnings (as_turn ?s') = emittedWarnings (as_turn s) @ [w]" "deadlineAtMs (as_turn ?s') = deadlineAtMs (as_turn s)"
    "warned_since (turnStartedAtMs (as_turn s)) w (nowMs ctx) (as_turn ?s')"
    by (simp_all add: facts(3) warned_since_def)
  have before: "w \<notin> set (emittedWarnings (as_turn s))" "deadlineAtMs (as_turn s) - w * 1000 \<le> nowMs ctx"
    "nowMs ctx < deadlineAtMs (as_turn s)" "clock_ok (as_turn s)" "w \<le> 30"
    using facts(2,4,6-8) by (auto simp: clock_ok_def)
  have "nowMs ctx \<le> turnStartedAtMs (as_turn u) \<and> deadlineAtMs (as_turn s) < deadlineAtMs (as_turn u)"
    if run: "game_run t steps (InProgress u)" "\<forall>(_, later) \<in> set steps. nowMs ctx \<le> nowMs later"
      and again: "body command' = TimeoutCommand warn" "transitionGameplay (InProgress u) command' ctx' = Accepted v ev'"
    for steps :: "(gameplay_command \<times> 'b gameplay_context) list" and u command' and ctx' :: "'c gameplay_context" and v ev'
  proof -
    have "warned_since (turnStartedAtMs (as_turn s)) w (nowMs ctx) (as_turn u)"
      using run_warned [OF run(1) t refl _ after(3)] run(2) by simp
    moreover from again(2,1) assms(3) obtain turn' where
      "emitTimeoutWarning (timeoutTurn (as_turn u)) w (nowMs ctx') = Inr (turn', w)" by (rule warning_Accepted)
    note emitTimeoutWarning_Inr(4,6) [OF this]
    then have "w \<notin> set (emittedWarnings (as_turn u))" "clock_ok (as_turn u)" by (simp_all add: clock_ok_timeoutTurn)
    ultimately show ?thesis using before(2,4,5) by (intro warned_again)
  qed
  with t after(1,2) before(1-3) show ?thesis by blast
qed

theorem warning_once_witness:
  "\<exists>s' ev. transitionGameplay (InProgress opening_state) (versioned 3 (TimeoutCommand WarnTurnThirtySeconds)) (server_at 60030) =
       Accepted (InProgress s') ev \<and> emittedWarnings (as_turn s') = emittedWarnings (as_turn opening_state) @ [30] \<and>
     transitionGameplay (InProgress s') (versioned 4 (TimeoutCommand WarnTurnThirtySeconds)) (server_at 70000) \<noteq>
       Accepted (InProgress s') ev"
proof -
  let ?r = "transitionGameplay (InProgress opening_state) (versioned 3 (TimeoutCommand WarnTurnThirtySeconds)) (server_at 60030)"
  have "accepted ?r" by code_simp
  then obtain t ev where t: "?r = Accepted t ev" by (rule acceptedE)
  have body: "body (versioned v c) = c" for v c by (simp add: versioned_def)
  from warning_once [OF t body, of 30] obtain s' where s': "t = InProgress s'"
      "emittedWarnings (as_turn s') = emittedWarnings (as_turn opening_state) @ [30]"
      "deadlineAtMs (as_turn s') = deadlineAtMs (as_turn opening_state)"
    and later: "\<And>steps :: (gameplay_command \<times> nat gameplay_context) list. \<And>u v ev'. game_run t steps (InProgress u) \<Longrightarrow>
      \<forall>(_, later) \<in> set steps. nowMs (server_at 60030) \<le> nowMs later \<Longrightarrow>
      transitionGameplay (InProgress u) (versioned 4 (TimeoutCommand WarnTurnThirtySeconds)) (server_at 70000) = Accepted v ev' \<Longrightarrow>
      deadlineAtMs (as_turn opening_state) < deadlineAtMs (as_turn u)"
    using body by blast
  have "transitionGameplay (InProgress s') (versioned 4 (TimeoutCommand WarnTurnThirtySeconds)) (server_at 70000) \<noteq>
       Accepted (InProgress s') ev"
    using later [of "[]" s'] s'(1,3) by auto
  with t s' show ?thesis by blast
qed

text \<open>C30. Whatever ended the game, the winner it names is a player who is still active and whom no active player beats:
  everyone else has a smaller net worth, or the same and a higher seat. Net worth is cash plus, per holding, the mortgage
  value (nine tenths of it when mortgaged) and the price of its buildings.\<close>

theorem winner_is_best:
  assumes "game_inv s" "transitionGameplay (InProgress s) command ctx = Accepted (Finished f) ev"
  shows "\<exists>w. seat_at (gs_players f) (to_winnerSeatIndex (fs_terminal f)) = Some w \<and> status w = Active \<and>
    (\<forall>i q. seat_at (gs_players f) i = Some q \<longrightarrow> status q = Active \<longrightarrow>
       worth (gs_properties f) q < worth (gs_properties f) w \<or>
       worth (gs_properties f) q = worth (gs_properties f) w \<and> to_winnerSeatIndex (fs_terminal f) \<le> i)"
proof -
  from assms(2) have route: "routeCommand s command ctx = Accepted (Finished f) ev" by (auto elim!: transitionGameplay_Accepted)
  from routeCommand_invariant [OF route assms(1)] have "isValidFinishedGameplayAggregateState f"
    by (simp add: sells_pending_rent_def)
  then show ?thesis by (rule finished_winner) blast
qed

theorem winner_is_best_witness:
  "\<exists>f ev w. transitionGameplay (InProgress opening_state) (versioned 3 (TimeoutCommand EnforceGameTimeLimit)) (server_at 3600030) =
       Accepted (Finished f) ev \<and> seat_at (gs_players f) (to_winnerSeatIndex (fs_terminal f)) = Some w \<and> status w = Active"
proof -
  let ?r = "transitionGameplay (InProgress opening_state) (versioned 3 (TimeoutCommand EnforceGameTimeLimit)) (server_at 3600030)"
  have "case ?r of Accepted (Finished f) ev \<Rightarrow> True | _ \<Rightarrow> False" by code_simp
  then obtain f ev where "?r = Accepted (Finished f) ev" by (auto split: transition_result.splits aggregate.splits)
  with winner_is_best [OF opening_inv this] show ?thesis by blast
qed

end
