(* ===== verification/Building_Roundtrip.thy ===== *)
theory Building_Roundtrip
  imports Building_Rules
begin

text \<open>
  Selling undoes building: the board and the stock are what they were, and the player is out half the price,
  rounded up.
\<close>

text \<open>The other streets of the group have at most one house more than the one at \<open>pos\<close>; without it a sale is
  refused as uneven.\<close>

definition group_even :: "property_state list \<Rightarrow> int \<Rightarrow> bool" where
  "group_even ps pos \<longleftrightarrow>
     (case (js_index ps pos, js_index BOARD_SPACES pos) of
        (Some p, Some d) \<Rightarrow> list_all (\<lambda>i. case js_index ps i of None \<Rightarrow> True | Some q \<Rightarrow> houses q \<le> houses p + 1)
          (COLOR_GROUP_POSITIONS (colorGroup d))
      | _ \<Rightarrow> True)"

lemma update_property_undo:
  assumes "isValidPropertyStates ps" "js_index ps pos = Some p" "isValidPropertyStates (update_property pos f ps)" "g (f p) = p"
  shows "update_property pos g (update_property pos f ps) = ps"
proof -
  have p: "nat pos < length ps" "ps ! nat pos = p" using assms(2) by (auto simp: js_index_Some_iff)
  have "js_index (update_property pos f ps) pos = Some (f p)" using assms(1,2) by (simp add: js_index_update_property)
  from update_property_eq [OF assms(3) this, of g] assms(4) p show ?thesis
    unfolding update_property_eq [OF assms(1,2)] by (metis list_update_id list_update_overwrite)
qed

lemma monopoly_kept:
  assumes "isValidPropertyStates qs" "\<And>i. map_option ownerSeatIndex (js_index qs i) = map_option ownerSeatIndex (js_index ps i)"
    "hasMonopoly ps owner color"
  shows "hasMonopoly qs owner color"
proof -
  have owner: "(case js_index qs i of None \<Rightarrow> False | Some p \<Rightarrow> ownerSeatIndex p = Some owner) \<longleftrightarrow>
      (case js_index ps i of None \<Rightarrow> False | Some p \<Rightarrow> ownerSeatIndex p = Some owner)" for i
    using assms(2) [of i] by (cases "js_index qs i"; cases "js_index ps i") auto
  show ?thesis using assms(1,3) by (auto simp: hasMonopoly_def owner split: if_splits)
qed

lemma validateBase_again:
  assumes "isValidBuildingInventory qs stock" "js_index qs pos = Some q" "js_index BOARD_SPACES pos = Some d"
    "propertyType d = Street" "ownerSeatIndex q = Some owner"
  shows "validateBase qs stock pos owner = Done (q, houseCost d)"
proof -
  have "matchCash (houseCost d) = Inr (houseCost d)" using space_bounds [OF assms(3)] by (auto intro: matchCash_small)
  with assms show ?thesis by (auto simp: validateBase_def validInventory_iff)
qed

lemma house_roundtrip:
  assumes built: "buildHouse ps stock pos owner money = Done m" and cash: "isCash money" and even: "group_even ps pos"
  obtains d where "js_index BOARD_SPACES pos = Some d"
    "sellHouse (bm_properties m) (bm_inventory m) pos owner (bm_cash m) =
       Done \<lparr>bm_properties = ps, bm_inventory = stock, bm_cash = money - houseCost d + houseCost d div 2,
             bm_amount = houseCost d div 2\<rparr>"
proof -
  from built obtain p cost d where p: "isValidPropertyStates ps" "js_index ps pos = Some p" and d: "js_index BOARD_SPACES pos = Some d"
      "propertyType d = Street" "ownerSeatIndex p = Some owner" "\<not> hasHotel p" "houses p < 4" "canBuildHouse ps pos owner"
      "cost = houseCost d" "cost \<le> money" "0 \<le> cost" "cost \<le> 200"
    and m: "m = \<lparr>bm_properties = update_property pos (\<lambda>q. q\<lparr>houses := houses p + 1\<rparr>) ps,
          bm_inventory = stock\<lparr>housesRemaining := housesRemaining stock - 1\<rparr>, bm_cash = money - cost, bm_amount = cost\<rparr>"
    by (rule buildHouse_Done)
  let ?qs = "update_property pos (\<lambda>q. q\<lparr>houses := houses p + 1\<rparr>) ps" and ?q = "p\<lparr>houses := houses p + 1\<rparr>"
  note valid = build_house.keeps_properties [OF built, unfolded m, simplified]
  have q: "js_index ?qs pos = Some ?q" using p by (simp add: js_index_update_property)
  have base: "validateBase ?qs (bm_inventory m) pos owner = Done (?q, houseCost d)"
    using build_house.keeps_inventory [OF built] q d(1-3) by (intro validateBase_again) (simp_all add: m)
  have monopoly: "hasMonopoly ?qs owner (colorGroup d)"
    using build_house.keeps_owners(1) [OF built, unfolded m, simplified] d(1,6) p
    by (intro monopoly_kept [OF valid]) (auto simp: canBuildHouse_def split: if_splits)
  have "houses p \<ge> 0" using valid_property_houses(1) valid_properties_index(1) [OF p] by blast
  then have sell: "canSellHouse ?qs pos owner"
    using valid q d(1-4) monopoly even p
    by (auto simp: canSellHouse_def Let_def group_even_def list_all_iff js_index_update_property split: option.splits)
  have "update_property pos (\<lambda>q. q\<lparr>houses := houses p\<rparr>) ?qs = ps"
    by (rule update_property_undo [OF p valid]) simp
  with base sell d cash \<open>houses p \<ge> 0\<close> show thesis
    by (intro that [OF d(1)])
      (auto simp: m sellHouse_def half_cost_matchCash checkedAddMatchCash_def replaceProperty_def update_property_def Let_def isCash_def)
qed

lemma hotel_roundtrip:
  assumes built: "buildHotel ps stock pos owner money = Done m" and cash: "isCash money"
  obtains d where "js_index BOARD_SPACES pos = Some d"
    "sellHotel (bm_properties m) (bm_inventory m) pos owner (bm_cash m) =
       Done \<lparr>bm_properties = ps, bm_inventory = stock, bm_cash = money - houseCost d + houseCost d div 2,
             bm_amount = houseCost d div 2\<rparr>"
proof -
  from built obtain p cost d where p: "isValidPropertyStates ps" "js_index ps pos = Some p" and d: "js_index BOARD_SPACES pos = Some d"
      "propertyType d = Street" "ownerSeatIndex p = Some owner" "\<not> hasHotel p" "houses p = 4"
      "cost = houseCost d" "cost \<le> money" "0 \<le> cost" "cost \<le> 200" and stock: "isValidBuildingInventory ps stock"
    and m: "m = \<lparr>bm_properties = update_property pos (\<lambda>q. q\<lparr>houses := 0, hasHotel := True\<rparr>) ps,
          bm_inventory = \<lparr>housesRemaining = housesRemaining stock + 4, hotelsRemaining = hotelsRemaining stock - 1\<rparr>,
          bm_cash = money - cost, bm_amount = cost\<rparr>"
    by (rule buildHotel_Done)
  let ?qs = "update_property pos (\<lambda>q. q\<lparr>houses := 0, hasHotel := True\<rparr>) ps" and ?q = "p\<lparr>houses := 0, hasHotel := True\<rparr>"
  note valid = build_hotel.keeps_properties [OF built, unfolded m, simplified]
  have q: "js_index ?qs pos = Some ?q" using p by (simp add: js_index_update_property)
  have base: "validateBase ?qs (bm_inventory m) pos owner = Done (?q, houseCost d)"
    using build_hotel.keeps_inventory [OF built] q d(1-3) by (intro validateBase_again) (simp_all add: m)
  have "update_property pos (\<lambda>q. q\<lparr>houses := 4, hasHotel := False\<rparr>) ?qs = ps"
    by (rule update_property_undo [OF p valid]) (use d(4,5) in simp)
  with base d cash stock_nonneg [OF stock] show thesis
    by (intro that [OF d(1)])
      (auto simp: m sellHotel_def half_cost_matchCash checkedAddMatchCash_def replaceProperty_def update_property_def Let_def isCash_def)
qed

end
