(* ===== verification/Rule_Properties.thy ===== *)
theory Rule_Properties
  imports Scenario Effects Building_Roundtrip
begin

text \<open>
  The properties of the rules of property: rent, purchases and trades.
\<close>

text \<open>C31. Rent: either the whole amount the rent table asks for moves from the player to the owner and nothing else changes
  hands, or the player cannot pay it, keeps the cash, and owes a bankruptcy.\<close>

theorem rent_moves_exactly:
  assumes "transitionGameplay (InProgress s) command ctx = Accepted t ev" "body command = PropertyCommand (PayRent pos)"
    and "activeGameplayPlayer s = Some p"
  shows "\<exists>amount roll s'. gs_lastDice s = Some roll \<and> t = InProgress s' \<and> gs_properties s' = gs_properties s \<and>
    calculateRent (gs_properties s) pos (total roll) = Inr (Some amount) \<and>
    (if cash p < amount
     then gs_players s' = gs_players s \<and> as_bankruptcyRequiredSeatIndex s' = Some (seatIndex p) \<and> ev = []
     else \<exists>ow. rentOwner s pos = Some ow \<and> ev = [RentPaid (playerId p) (playerId ow) pos amount] \<and>
       gs_players s' = update_seat (seatIndex ow) (\<lambda>x. x\<lparr>cash := cash ow + amount\<rparr>)
         (update_seat (seatIndex p) (\<lambda>x. x\<lparr>cash := cash p - amount\<rparr>) (gs_players s)))"
proof -
  from assms(1,2) have handler: "transitionGameplayProperty s (PayRent pos) (expectedStateVersion command) ctx = Accepted t ev"
    by (auto elim!: transitionGameplay_Accepted simp: routeCommand_def Let_def)
  with assms(3) have rent: "payGameplayRent s p (nowMs ctx) pos = Accepted t ev"
    by (auto simp: transitionGameplayProperty_def split: option.splits if_splits)
  from handler obtain q where q: "activeGameplayPlayer s = Some q" "acting s q (nowMs ctx)"
    by (rule transitionGameplayProperty_Accepted)
  with assms(3) have act: "acting s p (nowMs ctx)" by simp
  have same: "gs_properties s' = gs_properties s" if "t = InProgress s'" for s'
    using rent that by (auto simp: payGameplayRent_def requireBankruptcy_def split: if_splits option.splits sum.splits)
  from rent act show ?thesis
  proof (cases rule: rent_effect)
    case (short amount roll s')
    with same show ?thesis by (intro exI [of _ amount] exI [of _ roll] exI [of _ s']) simp
  next
    case (paid amount roll ow s')
    with same show ?thesis by (intro exI [of _ amount] exI [of _ roll] exI [of _ s']) auto
  qed
qed

theorem rent_moves_exactly_witness:
  "\<exists>s' ev amount. transitionGameplay (InProgress rent_state) (versioned 8 (PropertyCommand (PayRent 3))) (player_at 600 bob) =
       Accepted (InProgress s') ev \<and> gs_properties s' = gs_properties rent_state \<and>
     calculateRent (gs_properties rent_state) 3 3 = Inr (Some amount)"
proof -
  let ?r = "transitionGameplay (InProgress rent_state) (versioned 8 (PropertyCommand (PayRent 3))) (player_at 600 bob)"
  have "accepted ?r" by code_simp
  then obtain t ev where t: "?r = Accepted t ev" by (rule acceptedE)
  have body: "body (versioned v c) = c" for v c by (simp add: versioned_def)
  have p: "activeGameplayPlayer rent_state = Some (player_with 1 bob 20 1500 3)" by code_simp
  have "gs_lastDice rent_state = Some (roll_of 1 2)" by code_simp
  with rent_moves_exactly [OF t body p] t show ?thesis by (auto simp: roll_of_def)
qed

text \<open>C32. A purchase: the player on an unowned property pays its board price and owns it, when the cash suffices; nobody
  else and no other property changes.\<close>

theorem purchase_exact:
  assumes "transitionGameplay (InProgress s) command ctx = Accepted t ev" "body command = PropertyCommand (BuyProperty pos)"
    and "activeGameplayPlayer s = Some p"
  shows "\<exists>d q s'. js_index BOARD_SPACES pos = Some d \<and> isOwnableSpace d \<and> price d \<le> cash p \<and>
    js_index (gs_properties s) pos = Some q \<and> ownerSeatIndex q = None \<and> t = InProgress s' \<and>
    gs_players s' = update_seat (seatIndex p) (\<lambda>x. x\<lparr>cash := cash p - price d\<rparr>) (gs_players s) \<and>
    gs_properties s' = update_property pos (\<lambda>c. c\<lparr>ownerSeatIndex := Some (seatIndex p)\<rparr>) (gs_properties s) \<and>
    ev = [PropertyPurchased (playerId p) pos (price d)]"
proof -
  from assms have "decideProperty s p (nowMs ctx) pos True = Accepted t ev"
    by (auto elim!: transitionGameplay_Accepted simp: routeCommand_def Let_def transitionGameplayProperty_def
        split: option.splits if_splits)
  then show ?thesis
    by (auto simp: decideProperty_def checkedSubtract_Some_iff matchCash_def split: if_splits option.splits)
qed

theorem purchase_exact_witness:
  "\<exists>t ev d. transitionGameplay (InProgress landed_state) (versioned 9 (PropertyCommand (BuyProperty 3))) (player_at 600 alice) =
       Accepted t ev \<and> js_index BOARD_SPACES 3 = Some d \<and> ev = [PropertyPurchased alice 3 (price d)]"
proof -
  let ?r = "transitionGameplay (InProgress landed_state) (versioned 9 (PropertyCommand (BuyProperty 3))) (player_at 600 alice)"
  have "accepted ?r" by code_simp
  then obtain t ev where t: "?r = Accepted t ev" by (rule acceptedE)
  have body: "body (versioned v c) = c" for v c by (simp add: versioned_def)
  have p: "activeGameplayPlayer landed_state = Some (player_with 0 alice 10 1500 3)" by code_simp
  from purchase_exact [OF t body p] t show ?thesis by (auto simp: player_with_def)
qed

text \<open>What a trade asks of its two parties, as money and a deed.\<close>

fun given_by_proposer :: "trade_terms \<Rightarrow> int \<times> int option" where
  "given_by_proposer (MoneyOnly offered _) = (offered, None)"
| "given_by_proposer (PropertyOnly offered _) = (0, offered)"
| "given_by_proposer (MoneyForProperty offered _) = (offered, None)"
| "given_by_proposer (PropertyForMoney offered _) = (0, Some offered)"

fun given_by_receiver :: "trade_terms \<Rightarrow> int \<times> int option" where
  "given_by_receiver (MoneyOnly _ requested) = (requested, None)"
| "given_by_receiver (PropertyOnly _ requested) = (0, requested)"
| "given_by_receiver (MoneyForProperty _ requested) = (0, Some requested)"
| "given_by_receiver (PropertyForMoney _ requested) = (requested, None)"

lemma terms_given:
  "cashTerms terms = (fst (given_by_proposer terms), fst (given_by_receiver terms))"
  "propertyTerms terms = (snd (given_by_proposer terms), snd (given_by_receiver terms))"
  by (cases terms; simp)+

text \<open>The cash of everyone after a trade.\<close>

definition cash_exchanged ::
  "pending_trade \<Rightarrow> gameplay_player \<Rightarrow> gameplay_player \<Rightarrow> gameplay_player option list \<Rightarrow> gameplay_player option list \<Rightarrow> bool" where
  "cash_exchanged trade proposer receiver ps qs \<longleftrightarrow>
     (let paid = fst (given_by_proposer (tradeTerms trade)); price = fst (given_by_receiver (tradeTerms trade)) in
      paid \<le> cash proposer \<and> price \<le> cash receiver \<and>
      (\<forall>i. seat_at qs i =
         (if i = proposerSeatIndex trade then Some (proposer\<lparr>cash := cash proposer - paid + price\<rparr>)
          else if i = receiverSeatIndex trade then Some (receiver\<lparr>cash := cash receiver - price + paid\<rparr>)
          else seat_at ps i)))"

text \<open>The deeds after a trade: each of the two belonged to the party that gave it.\<close>

definition deeds_exchanged :: "pending_trade \<Rightarrow> property_state list \<Rightarrow> property_state list \<Rightarrow> bool" where
  "deeds_exchanged trade ps qs \<longleftrightarrow>
     (\<forall>pos. js_index qs pos = map_option (\<lambda>p.
        if snd (given_by_proposer (tradeTerms trade)) = Some pos then p\<lparr>ownerSeatIndex := Some (receiverSeatIndex trade)\<rparr>
        else if snd (given_by_receiver (tradeTerms trade)) = Some pos then p\<lparr>ownerSeatIndex := Some (proposerSeatIndex trade)\<rparr>
        else p) (js_index ps pos)) \<and>
     (\<forall>pos. snd (given_by_proposer (tradeTerms trade)) = Some pos \<longrightarrow>
        map_option ownerSeatIndex (js_index ps pos) = Some (Some (proposerSeatIndex trade))) \<and>
     (\<forall>pos. snd (given_by_receiver (tradeTerms trade)) = Some pos \<longrightarrow>
        map_option ownerSeatIndex (js_index ps pos) = Some (Some (receiverSeatIndex trade)))"

lemma acceptTrade_exchanges:
  assumes "acceptTrade trades players properties wanted seat now = Inr m"
  obtains trade proposer receiver where "trade \<in> set trades" "tradeId trade = wanted" "receiverSeatIndex trade = seat"
    "now < expiresAtMs trade" "seat_at players (proposerSeatIndex trade) = Some proposer"
    "seat_at players (receiverSeatIndex trade) = Some receiver"
    "cash_exchanged trade proposer receiver players (tm_players m)" "deeds_exchanged trade properties (tm_properties m)"
    "tm_trades m = filter (\<lambda>candidate. tradeId candidate \<noteq> wanted) trades"
proof -
  from assms obtain trade proposer receiver a b where f: "validTradeState trades players properties" "trade \<in> set trades"
      "tradeId trade = wanted" "receiverSeatIndex trade = seat" "now < expiresAtMs trade"
      "seat_at players (proposerSeatIndex trade) = Some proposer" "seat_at players (receiverSeatIndex trade) = Some receiver"
      "settleTradeCash (cash proposer) (cash receiver) (tradeTerms trade) = Inr (a, b)"
      "validateProperty properties (fst (propertyTerms (tradeTerms trade))) (proposerSeatIndex trade) = None"
      "validateProperty properties (snd (propertyTerms (tradeTerms trade))) (receiverSeatIndex trade) = None"
    and m: "m = \<lparr>tm_trades = filter (\<lambda>candidate. tradeId candidate \<noteq> wanted) trades,
        tm_players = swapTradeCash trade a b players, tm_properties = map (swapTradeProperty trade) properties,
        tm_trade = Some trade, tm_removedTradeIds = [wanted]\<rparr>" by (rule acceptTrade_Inr)
  have cash: "cash_exchanged trade proposer receiver players (tm_players m)"
    using f(6-8)
    by (auto simp: cash_exchanged_def m settleTradeCash_def swapTradeCash_def terms_given checkedSubtract_Some_iff
        checkedAdd_Some_iff seat_at_def Let_def split: option.splits if_splits)
  have valid: "isValidPropertyStates properties" using f(1) by (simp add: validTradeState_iff)
  have "propPosition p = pos" if "js_index properties pos = Some p" for pos p
    using valid_properties_index(2) [OF valid that] .
  then have deeds: "deeds_exchanged trade properties (tm_properties m)"
    using validateProperty_None [OF f(9)] validateProperty_None [OF f(10)]
    by (fastforce simp: deeds_exchanged_def m swapTradeProperty_def terms_given Let_def intro!: option.map_cong)
  show thesis by (rule that [OF f(2-7) cash deeds]) (simp add: m)
qed

text \<open>C33. An accepted trade is the one its receiver was offered, unexpired, and it is carried out to the letter: each party
  pays the agreed cash, had the agreed deed and hands it to the other, everything else stays, and the trade leaves the
  book.\<close>

theorem trade_carried_out:
  assumes "transitionGameplay (InProgress s) command ctx = Accepted t ev"
    and "body command = TradeCommand (AcceptTrade wanted)"
  shows "\<exists>trade proposer receiver s'. trade \<in> set (gs_activeTrades s) \<and> tradeId trade = wanted \<and>
    nowMs ctx < expiresAtMs trade \<and> actor ctx = PlayerActor (playerId receiver) \<and>
    seat_at (gs_players s) (proposerSeatIndex trade) = Some proposer \<and>
    seat_at (gs_players s) (receiverSeatIndex trade) = Some receiver \<and> t = InProgress s' \<and>
    cash_exchanged trade proposer receiver (gs_players s) (gs_players s') \<and>
    deeds_exchanged trade (gs_properties s) (gs_properties s') \<and> wanted \<notin> tradeId ` set (gs_activeTrades s')"
proof -
  from assms have valid: "isValidActiveGameplayAggregateState s"
    and trade: "transitionGameplayTrade s (AcceptTrade wanted) (expectedStateVersion command) ctx = Accepted t ev"
    by (auto elim!: transitionGameplay_Accepted simp: routeCommand_def Let_def)
  have frame: "validStateFrame s" using valid by (simp add: isValidActive_iff)
  from trade show ?thesis
  proof (cases rule: transitionGameplayTrade_cases)
    case (resolved who by_id m event expired)
    then have "acceptGameplayTrade s who wanted (nowMs ctx) = Inr m" by simp
    then obtain live m' where acc: "acceptTrade live (gs_players s) (gs_properties s) wanted (seatIndex who) (nowMs ctx) = Inr m'"
      and m: "tm_trades m = tm_trades m'" "tm_players m = tm_players m'" "tm_properties m = tm_properties m'"
      and live: "set live \<subseteq> set (gs_activeTrades s)" by (rule acceptGameplayTrade_Inr)
    note seat = gameplayPlayerById_seat [OF resolved(4) frame]
    from acc obtain trade proposer receiver where f: "trade \<in> set live" "tradeId trade = wanted"
        "receiverSeatIndex trade = seatIndex who" "nowMs ctx < expiresAtMs trade"
        "seat_at (gs_players s) (proposerSeatIndex trade) = Some proposer"
        "seat_at (gs_players s) (receiverSeatIndex trade) = Some receiver"
        "cash_exchanged trade proposer receiver (gs_players s) (tm_players m')"
        "deeds_exchanged trade (gs_properties s) (tm_properties m')"
        "tm_trades m' = filter (\<lambda>candidate. tradeId candidate \<noteq> wanted) live" by (rule acceptTrade_exchanges)
    have "actor ctx = PlayerActor (playerId receiver)" using resolved(3) seat f(3,6) by simp
    moreover have "wanted \<notin> tradeId ` set (tm_trades m)" by (auto simp: m f(9))
    ultimately show ?thesis
      unfolding resolved(9) using f(1,2,4-8) live
      by (intro exI [of _ trade] exI [of _ proposer] exI [of _ receiver] exI conjI; (rule refl)?) (auto simp: m)
  qed simp
qed

theorem trade_carried_out_witness:
  "\<exists>s' ev trade proposer receiver. transitionGameplay (InProgress rent_state)
       (versioned 8 (TradeCommand (AcceptTrade ''trade-1''))) (player_at 600 bob) = Accepted (InProgress s') ev \<and>
     trade \<in> set (gs_activeTrades rent_state) \<and> cash_exchanged trade proposer receiver (gs_players rent_state) (gs_players s') \<and>
     deeds_exchanged trade (gs_properties rent_state) (gs_properties s')"
proof -
  let ?r = "transitionGameplay (InProgress rent_state) (versioned 8 (TradeCommand (AcceptTrade ''trade-1''))) (player_at 600 bob)"
  have "accepted ?r" by code_simp
  then obtain t ev where t: "?r = Accepted t ev" by (rule acceptedE)
  have body: "body (versioned v c) = c" for v c by (simp add: versioned_def)
  from trade_carried_out [OF t body] t show ?thesis by blast
qed

text \<open>No trade command makes or loses money, touches a building or a mortgage, or changes a player in anything but
  cash.\<close>

theorem trade_conserves:
  assumes "transitionGameplay (InProgress s) command ctx = Accepted t ev" "body command = TradeCommand c"
  shows "\<exists>s'. t = InProgress s' \<and> totalCash (gs_players s') = totalCash (gs_players s) \<and>
    cash_only (gs_players s) (gs_players s') \<and> building_view (gs_properties s') = building_view (gs_properties s)"
proof -
  from assms have "transitionGameplayTrade s c (expectedStateVersion command) ctx = Accepted t ev"
    by (auto elim!: transitionGameplay_Accepted simp: routeCommand_def Let_def)
  then show ?thesis
  proof (cases rule: transitionGameplayTrade_cases)
    case (resolved who by_id m event expired)
    from resolved(7,9) show ?thesis by (auto simp: trade_done_def)
  qed simp
qed

end
