(* ===== verification/Chance_Properties.thy ===== *)
theory Chance_Properties
  imports Scenario Effects
begin

text \<open>
  The properties of chance and movement: fair dice and cards, walking the board, doubles and jail.
\<close>

section \<open>Bytes\<close>

lemma card_bytes: "card {b :: byte. P (unat b)} = card {n. n < 256 \<and> P n}"
proof -
  have "unat ` {b :: byte. P (unat b)} = {n. n < 256 \<and> P n}"
  proof (intro set_eqI iffI)
    fix n
    assume n: "n \<in> {n. n < 256 \<and> P n}"
    then have "unat (word_of_nat n :: byte) = n" by (simp add: unat_of_nat)
    with n show "n \<in> unat ` {b :: byte. P (unat b)}" by (intro image_eqI [of _ _ "word_of_nat n"]) auto
  qed (use unsigned_less [where 'a = nat and 'b = 8] in auto)
  moreover have "inj_on unat {b :: byte. P (unat b)}" by (rule inj_onI) (auto dest: unsigned_word_eqI)
  ultimately show ?thesis by (metis card_image)
qed

lemma card_residue:
  fixes k m r :: nat
  assumes "r < m"
  shows "card {n. n < k * m \<and> n mod m = r} = k"
proof -
  have "{n. n < k * m \<and> n mod m = r} = (\<lambda>i. i * m + r) ` {..<k}"
  proof (intro set_eqI iffI)
    fix n
    assume "n \<in> {n. n < k * m \<and> n mod m = r}"
    then have n: "n < k * m" "n = n div m * m + r" using div_mult_mod_eq [of n m] by auto
    then have "n div m < k" by (simp add: less_mult_imp_div_less)
    with n(2) show "n \<in> (\<lambda>i. i * m + r) ` {..<k}" by blast
  next
    fix n
    assume "n \<in> (\<lambda>i. i * m + r) ` {..<k}"
    then obtain i where i: "i < k" "n = i * m + r" by auto
    have "(i + 1) * m \<le> k * m" using i(1) by (intro mult_le_mono1) simp
    with i assms show "n \<in> {n. n < k * m \<and> n mod m = r}" by simp
  qed
  moreover have "inj_on (\<lambda>i. i * m + r) {..<k}" using assms by (auto intro: inj_onI)
  ultimately show ?thesis by (simp add: card_image)
qed

lemma dry_tape:
  "drawDieLoop (tape_source [b]) n (Suc 0) = (None, Suc 0)" "drawCardLoop (tape_source [b]) n k (Suc 0) = (None, Suc 0)"
  by (cases n; simp add: tape_source_def)+

text \<open>On a tape a draw passes over the bytes above the last unbiased one, at most 256 in all, and takes the next.\<close>

lemma draw_past_biased:
  assumes "\<forall>c \<in> set biased. 252 \<le> unat c" "length biased < n"
  shows "drawDieLoop (tape_source (past @ biased @ b # rest)) n (length past) =
    (if unat b \<le> 251 then (Some (int (unat b mod 6) + 1), length past + length biased + 1)
     else drawDieLoop (tape_source (past @ biased @ b # rest)) (n - length biased - 1) (length past + length biased + 1))"
  using assms
proof (induction biased arbitrary: past n)
  case Nil
  then obtain k where "n = Suc k" by (cases n) auto
  then show ?case by (simp add: tape_source_def LARGEST_UNBIASED_BYTE_def nth_append)
next
  case (Cons c biased)
  then obtain k where n: "n = Suc k" by (cases n) auto
  have "\<not> unat c \<le> 251" using Cons(2) by auto
  then have "drawDieLoop (tape_source (past @ (c # biased) @ b # rest)) n (length past) =
      drawDieLoop (tape_source ((past @ [c]) @ biased @ b # rest)) k (length (past @ [c]))"
    by (simp add: n tape_source_def LARGEST_UNBIASED_BYTE_def nth_append)
  with Cons(1) [of k "past @ [c]"] Cons(2,3) show ?case by (simp add: n)
qed

lemma drawDieLoop_cursor:
  "drawDieLoop (tape_source bytes) n cursor = (Some d, cursor') \<Longrightarrow> cursor < cursor'"
  by (induction n arbitrary: cursor)
    (fastforce simp: tape_source_def split: prod.splits sum.splits list.splits if_splits)+

lemma drawDie_past_biased:
  assumes "\<forall>c \<in> set biased. 252 \<le> unat c" "length biased < 256"
  shows "drawDie (tape_source (biased @ b # rest)) 0 = (Some d, length biased + 1) \<longleftrightarrow>
    unat b \<le> 251 \<and> int (unat b mod 6) + 1 = d"
  using draw_past_biased [OF assms(1), of 256 "[]" b rest] assms(2)
    drawDieLoop_cursor [where bytes = "biased @ b # rest" and n = "255 - length biased" and cursor = "length biased + 1"
      and cursor' = "length biased + 1"]
  by (auto simp: drawDie_def MAXIMUM_REJECTION_DRAWS_def split: if_splits)

text \<open>C34. The dice are fair: however many biased bytes, up to 255, were passed over before it, exactly 42 of the 256 values
  of the next random byte give each face at once, and the biased ones, which give none, are the four from 252 on.\<close>

theorem dice_fair:
  assumes "1 \<le> d" "d \<le> 6" "\<forall>c \<in> set biased. 252 \<le> unat c" "length biased < 256"
  shows "card {b. drawDie (tape_source (biased @ b # rest)) 0 = (Some d, length biased + 1)} = 42 \<and>
    {b. \<nexists>face. drawDie (tape_source (biased @ b # rest)) 0 = (Some face, length biased + 1)} = {b. 252 \<le> unat b}"
proof -
  have "{n :: nat. n < 256 \<and> n \<le> 251 \<and> int (n mod 6) + 1 = d} = {n. n < 42 * 6 \<and> n mod 6 = nat (d - 1)}"
    using assms(1,2) by auto
  moreover have "nat (d - 1) < 6" using assms(1,2) by auto
  ultimately have "card {b. drawDie (tape_source (biased @ b # rest)) 0 = (Some d, length biased + 1)} = 42"
    unfolding drawDie_past_biased [OF assms(3,4)] card_bytes [of "\<lambda>n. n \<le> 251 \<and> int (n mod 6) + 1 = d"]
    by (simp only: card_residue)
  moreover have "{b. \<nexists>face. drawDie (tape_source (biased @ b # rest)) 0 = (Some face, length biased + 1)} = {b. 252 \<le> unat b}"
    unfolding drawDie_past_biased [OF assms(3,4)] by auto
  ultimately show ?thesis ..
qed

theorem dice_fair_witness:
  "card {b. drawDie (tape_source ([255, 252] @ b # [])) 0 = (Some 6, length [255, 252 :: byte] + 1)} = 42"
  using dice_fair [of 6 "[255, 252]" "[]"] by simp

lemma drawCard_byte:
  "drawCardId (tape_source [b]) 0 = (Some (c, 1), 1) \<longleftrightarrow> unat b < 255 \<and> int (unat b mod 5) + 1 = c"
proof -
  have first: "rs_nextBytes (tape_source [b]) 0 1 = (Inr [b], Suc 0)" by (simp add: tape_source_def)
  obtain n where "drawCardId (tape_source [b]) 0 = drawCardLoop (tape_source [b]) (Suc n) 1 0"
    by (auto simp: drawCardId_def MAXIMUM_CARD_DRAWS_def numeral_eq_Suc)
  with first show ?thesis by (auto simp: dry_tape CARD_COUNT_def)
qed

text \<open>The decks are fair: of the 256 values of a random byte, exactly 51 draw each of the five cards of a deck, and
  the last one is drawn again.\<close>

theorem cards_fair:
  assumes "card_def \<in> set (deck_cards deck)"
  shows "card {b. drawCardId (tape_source [b]) 0 = (Some (cardId card_def, 1), 1)} = 51"
proof -
  have "cardId card_def \<in> {1, 2, 3, 4, 5}"
    using assms by (cases deck) (auto simp: deck_cards_def CHANCE_CARDS_def COMMUNITY_CHEST_CARDS_def cardDef_def)
  then have range: "1 \<le> cardId card_def" "cardId card_def \<le> 5" by auto
  then have "{n :: nat. n < 256 \<and> n < 255 \<and> int (n mod 5) + 1 = cardId card_def} =
      {n. n < 51 * 5 \<and> n mod 5 = nat (cardId card_def - 1)}" by auto
  moreover have "nat (cardId card_def - 1) < 5" using range by auto
  ultimately show ?thesis
    unfolding drawCard_byte card_bytes [of "\<lambda>n. n < 255 \<and> int (n mod 5) + 1 = cardId card_def"] by (simp only: card_residue)
qed

section \<open>Walking the board\<close>

text \<open>The reference: one space at a time around the forty spaces, noting whether the start was reached.\<close>

primrec walk :: "nat \<Rightarrow> int \<Rightarrow> int \<times> bool" where
  "walk 0 pos = (pos, False)"
| "walk (Suc n) pos = (let (here, passed) = walk n pos; there = (here + 1) mod 40 in (there, passed \<or> there = 0))"

lemma walk_closed:
  assumes "0 \<le> pos" "pos < 40"
  shows "walk n pos = ((pos + int n) mod 40, 40 \<le> pos + int n)"
proof (induction n)
  case 0
  show ?case using assms by simp
next
  case (Suc n)
  have "((pos + int n) mod 40 + 1) mod 40 = (pos + int (Suc n)) mod 40" using mod_add_left_eq [of "pos + int n" 40 1] by (simp add: algebra_simps)
  moreover have "40 \<le> x \<or> (x + 1) mod 40 = 0 \<longleftrightarrow> 40 \<le> x + 1" if "0 \<le> x" for x :: int
    using that by (cases "x < 39"; cases "x = 39"; simp)
  from this [of "pos + int n"] assms(1)
  have "40 \<le> pos + int n \<or> (pos + int (Suc n)) mod 40 = 0 \<longleftrightarrow> 40 \<le> pos + int (Suc n)" by (simp add: algebra_simps)
  ultimately show ?case using Suc by (simp add: Let_def)
qed

text \<open>Moving by a number of spaces is walking that many spaces one at a time: it ends on the same space and notes
  passing the start exactly when the walk reaches it.\<close>

theorem move_is_walk:
  assumes "isBoardPosition pos" "n \<le> 1000"
  shows "moveBy pos (int n) = Some \<lparr>mv_from = pos, mv_to = fst (walk n pos), mv_spaces = int n, mv_passedGo = snd (walk n pos)\<rparr>"
proof -
  have "0 \<le> pos" "pos < 40" using assms(1) by (simp_all add: isBoardPosition_def policy_simps)
  then show ?thesis using moveBy_Some [OF assms(1), of "int n"] assms(2) by (auto simp: walk_closed)
qed

section \<open>Doubles and jail\<close>

text \<open>A third double in a row sends the player to jail without moving and without salary, and ends the turn.\<close>

theorem third_double_jails:
  assumes "transitionGameplay (InProgress s) command ctx = Accepted t ev" "body command = TurnCommand RollDice"
    and "activeGameplayPlayer s = Some p" "\<not> inJail p" "consecutiveDoubles p = 2"
    and "ev = DiceRolled who roll # rest" "isDoubles roll"
  shows "rest = [JailEntered (playerId p) ThreeDoubles] \<and> (\<exists>s' n. t = InProgress s' \<and>
    gs_players s' = update_seat (seatIndex p)
      (\<lambda>x. x\<lparr>position := jailPosition, inJail := True, jailTurns := 0, consecutiveDoubles := 0\<rparr>) (gs_players s) \<and>
    currentSeatIndex (as_turn s') = n \<and> n \<noteq> seatIndex p \<and> phase (as_turn s') = AwaitingRoll)"
proof -
  from assms(1,2) have valid: "isValidActiveGameplayAggregateState s"
    and turn: "transitionGameplayTurn s RollDice (expectedStateVersion command) ctx = Accepted t ev"
    by (auto elim!: transitionGameplay_Accepted simp: routeCommand_def Let_def)
  from turn obtain q where g: "commandGuard s True (expectedStateVersion command) (nowMs ctx) = None"
    and q: "activeGameplayPlayer s = Some q" "rollGameplayDice s q ctx = Accepted t ev"
    by (rule transitionGameplayTurn_Accepted) simp_all
  from q(2) obtain roll' cp doubles where d: "applyDoubles (consecutiveDoubles q) roll' = Some doubles"
    and three: "\<not> inJail q \<longrightarrow> db_sentToJail doubles \<longrightarrow> threeDoublesRoll s q (nowMs ctx) roll' cp = Accepted t ev"
    and free: "\<not> inJail q \<longrightarrow> \<not> db_sentToJail doubles \<longrightarrow> freeRoll s q (nowMs ctx) roll' cp doubles = Accepted t ev"
    by (rule rollGameplayDice_cases)
  have p: "q = p" using q(1) assms(3) by simp
  have "roll' = roll"
  proof (cases "db_sentToJail doubles")
    case True
    with three p assms(4,6) show ?thesis by (auto simp: threeDoublesRoll_def split: option.splits)
  next
    case False
    with free p assms(4,6) show ?thesis by (auto simp: freeRoll_def Let_def split: option.splits if_splits)
  qed
  with d p assms(5,7) have "db_sentToJail doubles" by (auto simp: applyDoubles_def Let_def split: if_splits)
  with three p assms(4) have "threeDoublesRoll s p (nowMs ctx) roll' cp = Accepted t ev" by simp
  then obtain turn n where adv: "advanceGameplayTurn s (nowMs ctx) = Some (turn, n)"
    and t: "t = InProgress (rolledState s (update_seat (seatIndex p) (\<lambda>x. sendToJail (cash x) x) (gs_players s)) turn roll' cp)"
    and ev: "ev = [DiceRolled (playerId p) roll', JailEntered (playerId p) ThreeDoubles]"
    by (auto simp: threeDoublesRoll_def split: option.splits)
  have seat: "seatIndex p = currentSeatIndex (as_turn s)" using valid assms(3) by (auto elim!: valid_activeGameplayPlayer)
  from adv guard_facts(7) [OF g] have "currentSeatIndex turn = n" "n \<noteq> seatIndex p" "phase turn = AwaitingRoll"
    by (auto elim!: advance_Some simp: seat)
  with t ev assms(6) show ?thesis by (simp add: rolledState_def sendToJail_def)
qed

text \<open>Nobody stays in jail for ever: after two failed rolls the third releases the player, by doubles or for the fine,
  or finds the player unable to pay.\<close>

theorem jail_ends:
  assumes "resolveJailRoll p roll1 = Inr a1" "ja_outcome a1 = Remains"
    and "resolveJailRoll (ja_state a1) roll2 = Inr a2" "ja_outcome a2 = Remains"
    and "resolveJailRoll (ja_state a2) roll3 = Inr a3"
  shows "ja_outcome a3 \<noteq> Remains \<and> \<not> inJail (ja_state a3)"
proof -
  have "0 \<le> jailTurns p" using resolveJailRoll_needs(1) [OF assms(1)] by (simp add: validJailState_def)
  moreover have "ja_state a1 = p\<lparr>jailTurns := jailTurns p + 1\<rparr>" using assms(1,2) by (auto elim!: resolveJailRoll_cases)
  moreover have "ja_state a2 = (ja_state a1)\<lparr>jailTurns := jailTurns (ja_state a1) + 1\<rparr>"
    using assms(3,4) by (auto elim!: resolveJailRoll_cases)
  ultimately have "2 \<le> jailTurns (ja_state a2)" by simp
  with assms(5) show ?thesis by (auto elim!: resolveJailRoll_cases)
qed

end
