(* ===== verification/Record_Properties.thy ===== *)
theory Record_Properties
  imports Scenario Effects
begin

text \<open>
  The properties of the records of a game: the lobby, replays of a log, and what no run of a game changes.
\<close>

section \<open>The lobby\<close>

text \<open>C35. A lobby command on a good lobby, or on none, is accepted and leads to a good one with the next version, or it is
  rejected and changes nothing; no exception escapes.\<close>

theorem lobby_command:
  assumes "branded command ctx" "\<And>g. state = Some g \<Longrightarrow> lifecycle_inv g"
  shows "(\<exists>g ev. transition state command ctx = Accepted (Some g) ev \<and> lifecycle_inv g \<and>
      lobby_version (Some g) = lobby_version state + 1) \<or>
    (\<exists>err. transition state command ctx = Rejected state err)"
proof (cases "transition state command ctx")
  case (Accepted t ev)
  then obtain g where "t = Some g" "lifecycle_inv g" "lobby_version t = lobby_version state + 1"
    using assms by (rule transition_invariant)
  with Accepted show ?thesis by auto
next
  case (Rejected t err)
  with transition_rejects_unchanged [OF Rejected] show ?thesis by simp
next
  case (Threw e)
  with transition_never_throws [of state command ctx e] show ?thesis by simp
qed

theorem lobby_command_witness:
  "\<exists>g ev. transition None \<lparr>gc_expectedStateVersion = 0, gc_body = CreateGame ''game-1'' 2 None\<rparr> (lobby_ctx 10 alice) =
     Accepted (Some g) ev \<and> lifecycle_inv g"
proof -
  let ?c = "\<lparr>gc_expectedStateVersion = 0, gc_body = CreateGame ''game-1'' 2 None\<rparr>"
  have "branded ?c (lobby_ctx 10 alice)" by code_simp
  moreover have "accepted (transition None ?c (lobby_ctx 10 alice))" by code_simp
  ultimately show ?thesis using lobby_command [of ?c "lobby_ctx 10 alice" None] by auto
qed

lemma findIndexFrom_first:
  "k < length xs \<Longrightarrow> P (i + int k) (xs ! k) \<Longrightarrow> (\<And>j. j < k \<Longrightarrow> \<not> P (i + int j) (xs ! j)) \<Longrightarrow>
     findIndexFrom i P xs = Some (i + int k)"
proof (induction i P xs arbitrary: k rule: findIndexFrom.induct)
  case (2 i P x xs)
  show ?case
  proof (cases k)
    case 0
    with 2 show ?thesis by simp
  next
    case (Suc l)
    have "\<not> P i x" using 2(4) [of 0] Suc by simp
    moreover have "findIndexFrom (i + 1) P xs = Some (i + 1 + int l)"
      using 2(2,3) 2(4) [of "Suc _"] Suc by (intro 2(1) [OF \<open>\<not> P i x\<close>]) (auto simp: algebra_simps)
    ultimately show ?thesis using Suc by (simp add: algebra_simps)
  qed
qed simp

lemma joined_seats:
  assumes "joinGame g ctx = Accepted (Some (WaitingGame g')) ev"
  obtains k rng where "k < length (gm_seats g)" "gm_seats g ! k = None" "randomCheckpoint ctx = Some rng"
    "g' = g\<lparr>gm_seats := (gm_seats g)[k := Some (createSeat (lc_actorId ctx) (int k) (lc_nowMs ctx))],
      gm_stateVersion := gm_stateVersion g + 1, gm_rng := rng\<rparr>"
    "\<And>i seat. seat_at (gm_seats g) i = Some seat \<Longrightarrow> ps_playerId seat \<noteq> lc_actorId ctx"
proof -
  from assms obtain index next' where absent: "\<not> list_ex (\<lambda>seat. ps_playerId seat = lc_actorId ctx) (occupiedSeats g)"
    and index: "findIndexFrom 0 (\<lambda>index slot. index < gm_maximumPlayers g \<and> slot = None) (gm_seats g) = Some index"
    and next': "withVersionAndRng (g\<lparr>gm_seats := (gm_seats g)[nat index := Some (createSeat (lc_actorId ctx) index (lc_nowMs ctx))]\<rparr>)
      ctx = Some g'"
    by (auto simp: joinGame_def Let_def split: if_splits option.splits)
  from findIndexFrom_Some [OF index] have k: "0 \<le> index" "nat index < length (gm_seats g)" "gm_seats g ! nat index = None"
    by (auto simp: nat_less_iff)
  from next' obtain rng where rng: "randomCheckpoint ctx = Some rng"
    "g' = g\<lparr>gm_seats := (gm_seats g)[nat index := Some (createSeat (lc_actorId ctx) index (lc_nowMs ctx))],
      gm_stateVersion := gm_stateVersion g + 1, gm_rng := rng\<rparr>"
    by (auto simp: withVersionAndRng_def split: option.splits)
  show thesis
    using k rng absent by (intro that [of "nat index" rng]) (auto simp: list_ex_iff occupiedSeats_iff)
qed

text \<open>Leaving undoes joining: the player who joined may leave while the lobby waits, and the lobby is then the one
  before, two versions on.\<close>

theorem join_leave:
  assumes "lobby_ok g" "transition (Some (WaitingGame g)) command ctx = Accepted (Some (WaitingGame g')) ev"
    and "gc_body command = JoinGame" "lc_actorId ctx' = lc_actorId ctx" "lc_nowMs ctx \<le> lc_nowMs ctx'" "safeEpoch (lc_nowMs ctx')"
    and "gm_stateVersion g' < MAX_STATE_VERSION" "canResume (lc_randomSource ctx') (lc_randomCursor ctx') (gm_rng g')"
    and "randomCheckpoint ctx' = Some rng"
  shows "\<exists>seat. transition (Some (WaitingGame g')) \<lparr>gc_expectedStateVersion = gm_stateVersion g', gc_body = LeaveGame\<rparr> ctx' =
    Accepted (Some (WaitingGame (g\<lparr>gm_stateVersion := gm_stateVersion g + 2, gm_rng := rng\<rparr>)))
      [PlayerLeft (lc_actorId ctx) seat (int (length (occupiedSeats g)))]"
proof -
  from assms(2,3) have join: "joinGame g ctx = Accepted (Some (WaitingGame g')) ev"
    and time: "latestObservedAtMs (WaitingGame g) \<le> lc_nowMs ctx" by (auto elim!: transition_Accepted)
  from join obtain k rng' where k: "k < length (gm_seats g)" "gm_seats g ! k = None"
    and g': "g' = g\<lparr>gm_seats := (gm_seats g)[k := Some (createSeat (lc_actorId ctx) (int k) (lc_nowMs ctx))],
      gm_stateVersion := gm_stateVersion g + 1, gm_rng := rng'\<rparr>"
    and absent: "\<And>i seat. seat_at (gm_seats g) i = Some seat \<Longrightarrow> ps_playerId seat \<noteq> lc_actorId ctx"
    by (rule joined_seats) blast
  have creator: "lc_actorId ctx \<noteq> gm_creatorId g" using assms(1) absent [of 0] by (auto simp: lobby_ok_def)
  let ?seats = "(gm_seats g)[k := Some (createSeat (lc_actorId ctx) (int k) (lc_nowMs ctx))]"
  have nobody: "map_option ps_playerId (gm_seats g ! j) \<noteq> Some (lc_actorId ctx)" if "j < length (gm_seats g)" for j
    using absent [of "int j"] seat_at_nat [OF that] by auto
  have "findIndexFrom 0 (\<lambda>_ slot. map_option ps_playerId slot = Some (lc_actorId ctx)) ?seats = Some (0 + int k)"
  proof (rule findIndexFrom_first)
    fix j
    assume "j < k"
    with nobody [of j] k(1) show "map_option ps_playerId (?seats ! j) \<noteq> Some (lc_actorId ctx)" by simp
  qed (use k(1) in \<open>simp_all add: createSeat_def\<close>)
  moreover have joined: "ps_joinedAtMs seat \<le> lc_nowMs ctx'" if "seat_at (gm_seats g') i = Some seat" for i seat
  proof (cases "i = int k")
    case True
    with that k(1) assms(5) show ?thesis by (auto simp: g' seat_at_nat createSeat_def)
  next
    case False
    with that k(1) have "seat_at (gm_seats g) i = Some seat" by (simp add: g' seat_at_list_update [of "int k", simplified])
    from latestObserved_joined(2) [OF time this] assms(5) show ?thesis by simp
  qed
  have "latestObservedAtMs (WaitingGame g') \<le> lc_nowMs ctx'"
    unfolding latestObservedAtMs_def fold_max_le
    using latestObserved_joined(1) [OF time] assms(5,6) joined
    by (auto simp: occupiedSeats_iff safeEpoch_def g' simp del: length_list_update)
  moreover have "(gm_seats g)[k := None] = gm_seats g" using k by (metis list_update_id)
  ultimately show ?thesis
    using assms(4,6-9) creator by (auto simp: transition_def requireWaiting_def leaveGame_def withVersionAndRng_def g' occupiedSeats_def)
qed

definition waiting_lobby :: game_base where
  "waiting_lobby =
     \<lparr>gm_schemaVersion = 2, gm_rulesetId = ''pootown-rust-source-v1'', gm_stateVersion = 1, gm_gameId = ''game-1'',
      gm_creatorId = alice, gm_minimumPlayers = 2, gm_maximumPlayers = 2,
      gm_seats = [Some (createSeat alice 0 10), None, None, None],
      gm_bankCash = 1000000, gm_freeParkingPool = 0, gm_housesRemaining = 32, gm_hotelsRemaining = 12,
      gm_createdAtMs = 10, gm_timeLimitMs = None, gm_turnTimeoutMs = 90000, gm_rng = tape_checkpoint 0\<rparr>"

lemma waiting_lobby_ok: "lobby_ok waiting_lobby"
proof -
  let ?create = "\<lparr>gc_expectedStateVersion = 0, gc_body = CreateGame ''game-1'' 2 None\<rparr>"
  have "transition None ?create (lobby_ctx 10 alice) = Accepted (Some (WaitingGame waiting_lobby)) [GameCreated alice]" by code_simp
  moreover have "branded ?create (lobby_ctx 10 alice)" by code_simp
  ultimately show ?thesis by (rule transition_invariant) auto
qed

section \<open>Replays\<close>

lemma replayGameplayFrom_shift:
  "replayGameplayFrom (index + k) state events steps =
     (case replayGameplayFrom index state events steps of
        Replayed t ev \<Rightarrow> Replayed t ev | ReplayFailed t i err \<Rightarrow> ReplayFailed t (i + k) err | ReplayThrew e \<Rightarrow> ReplayThrew e)"
proof (induction index state events steps rule: replayGameplayFrom.induct)
  case (2 index state events command ctx steps)
  then show ?case
    by (cases "transitionGameplay state command ctx") (simp_all add: add.commute add.left_commute)
qed simp

text \<open>A game may be resumed from any valid checkpoint: replaying the rest of the log from the state an earlier replay
  ended in gives what one replay of the whole log gives, events, failing step and error included.\<close>

theorem replay_resumes:
  assumes "replayGameplay a log = Replayed t ev" "isValidAggregate t"
  shows "replayGameplay a (log @ later) =
    (case replayGameplay t later of
       Replayed u ev' \<Rightarrow> Replayed u (ev @ ev')
     | ReplayFailed u k err \<Rightarrow> ReplayFailed u (k + int (length log)) err
     | ReplayThrew e \<Rightarrow> ReplayThrew e)"
proof -
  from assms(1) have a: "isValidAggregate a" "replayGameplayFrom 0 a [] log = Replayed t ev"
    by (auto simp: replayGameplay_def split: if_splits)
  have "replayGameplayFrom (0 + int (length log)) t (ev @ []) later =
      (case replayGameplayFrom 0 t [] later of
       Replayed u ev' \<Rightarrow> Replayed u (ev @ ev')
     | ReplayFailed u k err \<Rightarrow> ReplayFailed u (k + int (length log)) err
     | ReplayThrew e \<Rightarrow> ReplayThrew e)"
    unfolding replayGameplayFrom_shift replayGameplayFrom_prefix by (simp split: replay_result.split)
  with a assms(2) show ?thesis by (simp add: replayGameplay_def replayGameplayFrom_append)
qed

text \<open>A failed replay names the first command that was rejected: everything before it was accepted, and the state and
  error it answers are those of that rejection.\<close>

theorem replay_failure_exact:
  assumes "replayGameplay a log = ReplayFailed t k err" "isValidAggregate a"
  shows "0 \<le> k \<and> k < int (length log) \<and> game_run a (take (nat k) log) t \<and>
    (case log ! nat k of (command, ctx) \<Rightarrow> transitionGameplay t command ctx = Rejected t err)"
  using assms replayGameplayFrom_failed [of 0 a "[]" log t k err] by (simp add: replayGameplay_def)

end
