(* ===== verification/Run_Properties.thy ===== *)
theory Run_Properties
  imports Scenario Turn_Protocol
begin

text \<open>
  The properties of whole runs of a game: the turns follow the abstract protocol, nobody comes back, and the
  assets stay within their bounds, even in the one state no further command is accepted in.
\<close>

section \<open>Assets along a run\<close>

fun assets_ok :: "aggregate \<Rightarrow> bool" where
  "assets_ok (InProgress s) \<longleftrightarrow> isValidBankruptcyState (gs_players s) (gs_properties s) (gs_inventory s) (gs_bankCash s)"
| "assets_ok (Finished f) \<longleftrightarrow> isValidBankruptcyState (gs_players f) (gs_properties f) (gs_inventory f) (gs_bankCash f)"

lemma valid_assets: "isValidAggregate a \<Longrightarrow> assets_ok a"
  by (cases a) (auto simp: isValidActive_iff isValidFinishedGameplayAggregateState_def validStateFrame_def split: if_splits)

lemma good_assets: "aggregate_inv a \<Longrightarrow> assets_ok a"
  by (rule valid_assets) (cases a; simp add: game_inv_def)

lemma player_in_range:
  assumes "validBankruptcyPlayer i p"
  shows "seatIndex p = i \<and> 0 \<le> cash p \<and> cash p \<le> MAX_MATCH_CASH \<and> 0 \<le> position p \<and> position p < 40 \<and>
    0 \<le> jailTurns p \<and> jailTurns p \<le> 2 \<and> 0 \<le> consecutiveDoubles p \<and> consecutiveDoubles p \<le> 2 \<and>
    0 \<le> missedTurns p \<and> missedTurns p \<le> 3"
  using assms by (cases "inJail p") (simp_all add: validBankruptcyPlayer_def policy_simps)

lemma accepted_trade_assets:
  assumes acc: "transitionGameplayTrade s (AcceptTrade wanted) expected ctx = Accepted t ev" and inv: "game_inv s"
  shows "assets_ok t"
  using acc
proof (cases rule: transitionGameplayTrade_cases)
  case (resolved who w m event expired)
  from resolved(6) have "acceptGameplayTrade s who wanted (nowMs ctx) = Inr m" by simp
  then obtain live m' where m': "acceptTrade live (gs_players s) (gs_properties s) wanted (seatIndex who) (nowMs ctx) = Inr m'"
    "tm_players m = tm_players m'" "tm_properties m = tm_properties m'" "set live \<subseteq> set (gs_activeTrades s)"
    by (rule acceptGameplayTrade_Inr)
  have "parties_active live (gs_players s)" using inv m'(4) by (auto simp: game_inv_def book_ok_def parties_active_def)
  from swap_assets [OF guard_facts(9) [OF resolved(1)] m'(1) this] show ?thesis
    by (simp add: resolved(9) m'(2,3) gs_inventory_def)
qed simp

lemma step_assets:
  assumes "transitionGameplay (InProgress s) command ctx = Accepted t ev" "game_inv s"
  shows "assets_ok t"
proof (cases "sells_pending_rent s command t")
  case True
  then obtain wanted where body: "body command = TradeCommand (AcceptTrade wanted)" by (auto simp: sells_pending_rent_def)
  from assms(1) have "routeCommand s command ctx = Accepted t ev" by (auto elim: transitionGameplay_Accepted)
  with body have "transitionGameplayTrade s (AcceptTrade wanted) (expectedStateVersion command) ctx = Accepted t ev"
    by (simp add: routeCommand_def Let_def)
  from accepted_trade_assets [OF this assms(2)] show ?thesis .
next
  case False
  from assms(1) have "routeCommand s command ctx = Accepted t ev" by (auto elim: transitionGameplay_Accepted)
  from routeCommand_invariant [OF this assms(2)] False show ?thesis by (simp add: good_assets)
qed

lemma run_assets:
  assumes "game_run a steps b" "aggregate_inv a"
  shows "assets_ok b"
  using assms
proof (induction rule: game_run.induct)
  case (run_start a)
  then show ?case by (rule good_assets)
next
  case (run_step a steps b command ctx c ev)
  from run_step(2) obtain s where s: "b = InProgress s" "isValidActiveGameplayAggregateState s"
    by (rule transitionGameplay_Accepted)
  with run_invariant [OF run_step(1,4)] have "game_inv s" by auto
  with step_assets run_step(2) s(1) show ?case by blast
qed

section \<open>Runs\<close>

text \<open>C36. The game refines the turn protocol: along every run, turns pass clockwise to the next player still in the game,
  players leave only on their own turn, and the winner is one of those left.\<close>

theorem run_follows_protocol:
  assumes "game_run a steps b"
  shows "rtranclp protocol_step (protocol_of a) (protocol_of b)"
  using assms by (rule run_refines)

theorem run_follows_protocol_witness:
  "rtranclp protocol_step (protocol_of (InProgress opening_state)) (protocol_of (InProgress rent_state))"
  using run_follows_protocol [OF replayGameplay_run [OF log_to_rent]] .

text \<open>Nobody comes back: whoever is still playing at the end of a run was playing at its start.\<close>

theorem nobody_returns:
  assumes "game_run (InProgress s) steps (InProgress t)" "is_active (seat_at (gs_players t) i)"
  shows "is_active (seat_at (gs_players s) i)"
  using steps_shrink [OF run_refines [OF assms(1)]] assms(2) by (auto simp: playing_def)

text \<open>C37. Nothing runs over: along every run the bank always holds the houses and hotels that are not on the board, all
  thirty-two and twelve of them, and every player's cash, position, time in jail, doubles and misses stay in range.\<close>

theorem assets_in_bounds:
  assumes "game_run (InProgress s) steps (InProgress t)" "game_inv s"
  shows "housesOnBoard (gs_properties t) + gs_housesRemaining t = 32 \<and>
    hotelsOnBoard (gs_properties t) + gs_hotelsRemaining t = 12 \<and>
    0 \<le> gs_housesRemaining t \<and> 0 \<le> gs_hotelsRemaining t \<and> 0 \<le> gs_bankCash t \<and> gs_bankCash t \<le> MAX_MATCH_CASH \<and>
    (\<forall>i p. seat_at (gs_players t) i = Some p \<longrightarrow>
       seatIndex p = i \<and> 0 \<le> cash p \<and> cash p \<le> MAX_MATCH_CASH \<and> 0 \<le> position p \<and> position p < 40 \<and>
       0 \<le> jailTurns p \<and> jailTurns p \<le> 2 \<and> 0 \<le> consecutiveDoubles p \<and> consecutiveDoubles p \<le> 2 \<and>
       0 \<le> missedTurns p \<and> missedTurns p \<le> 3)"
proof -
  have "isValidBankruptcyState (gs_players t) (gs_properties t) (gs_inventory t) (gs_bankCash t)"
    using run_assets [OF assms(1)] assms(2) by simp
  then have stock: "isValidBuildingInventory (gs_properties t) (gs_inventory t)" and bank: "isCash (gs_bankCash t)"
    and slots: "slots_satisfy validBankruptcyPlayer (gs_players t)" by (simp_all add: isValidBankruptcyState_iff)
  have players: "validBankruptcyPlayer i p" if "seat_at (gs_players t) i = Some p" for i p
    using slots that by (simp add: slots_satisfy_def)
  show ?thesis using stock bank player_in_range [OF players]
    by (simp add: validInventory_iff gs_inventory_def isCash_def policy_simps)
qed

theorem assets_in_bounds_witness:
  "housesOnBoard (gs_properties rent_state) + gs_housesRemaining rent_state = 32"
  using assets_in_bounds [OF replayGameplay_run [OF log_to_rent] opening_inv] by simp

end
