(* ===== verification/Json.thy ===== *)
theory Json
  imports Domain_Model "HOL-Library.AList"
begin

text \<open>
  JSON values and their text: what \<open>JSON.stringify\<close> prints and \<open>JSON.parse\<close> reads, as the snapshots of
  \<open>serialization/\<close> use them, and the lemma that reading undoes printing.

  A text is a sequence of code units below 256; an escape above \<open>\u00ff\<close> has no counterpart and the reader
  refuses it. A number is kept as its integer when it is a safe one, and as its text (\<open>JUnsafe\<close>) when it is a
  fraction or out of the safe range: no field of a snapshot accepts such a number. Reading rounds to the nearest
  double, ties to even, so \<open>1.0\<close>, \<open>1e2\<close> and a fraction a hair from an integer are integers here too.
\<close>

section \<open>Values\<close>

datatype json =
    JNull
  | JBool bool
  | JNumber int
  | JUnsafe string
  | JText string
  | JArray "json list"
  | JObject "(string \<times> json) list"

lemma member_size [termination_simp]: "kv \<in> set kvs \<Longrightarrow> size (snd kv) < Suc (size_list (\<lambda>x. Suc (size (snd x))) kvs)"
  by (induction kvs) auto

text \<open>Values that a text can stand for: safe numbers and objects without duplicate keys.\<close>

fun plain :: "json \<Rightarrow> bool" where
  "plain (JNumber n) \<longleftrightarrow> isSafeInteger n"
| "plain (JUnsafe t) \<longleftrightarrow> False"
| "plain (JArray vs) \<longleftrightarrow> list_all plain vs"
| "plain (JObject kvs) \<longleftrightarrow> distinct (map fst kvs) \<and> list_all (\<lambda>kv. plain (snd kv)) kvs"
| "plain _ \<longleftrightarrow> True"

section \<open>Printing\<close>

definition digit_char :: "nat \<Rightarrow> char" where
  "digit_char d = char_of (48 + d)"

fun decimal :: "nat \<Rightarrow> string" where
  "decimal n = (if n < 10 then [digit_char n] else decimal (n div 10) @ [digit_char (n mod 10)])"

declare decimal.simps [simp del]

definition decimal_int :: "int \<Rightarrow> string" where
  "decimal_int n = (if n < 0 then CHR ''-'' # decimal (nat (- n)) else decimal (nat n))"

definition hex_char :: "nat \<Rightarrow> char" where
  "hex_char d = (if d < 10 then digit_char d else char_of (87 + d))"

abbreviation quotation_mark :: char where "quotation_mark \<equiv> CHR 0x22"
abbreviation backslash :: char where "backslash \<equiv> CHR 0x5C"

definition escape_char :: "char \<Rightarrow> string" where
  "escape_char c =
     (let n = (of_char c :: nat) in
      if c = quotation_mark \<or> c = backslash then [backslash, c]
      else if n = 8 then [backslash, CHR ''b'']
      else if n = 9 then [backslash, CHR ''t'']
      else if n = 10 then [backslash, CHR ''n'']
      else if n = 12 then [backslash, CHR ''f'']
      else if n = 13 then [backslash, CHR ''r'']
      else if n < 32 then [backslash, CHR ''u'', CHR ''0'', CHR ''0'', hex_char (n div 16), hex_char (n mod 16)]
      else [c])"

definition quote :: "string \<Rightarrow> string" where
  "quote s = quotation_mark # concat (map escape_char s) @ [quotation_mark]"

fun commas :: "string list \<Rightarrow> string" where
  "commas [] = []"
| "commas [t] = t"
| "commas (t # u # ts) = t @ CHR '','' # commas (u # ts)"

fun stringify :: "json \<Rightarrow> string" where
  "stringify JNull = ''null''"
| "stringify (JBool b) = (if b then ''true'' else ''false'')"
| "stringify (JNumber n) = decimal_int n"
| "stringify (JUnsafe t) = t"
| "stringify (JText s) = quote s"
| "stringify (JArray vs) = CHR ''['' # commas (map stringify vs) @ '']''"
| "stringify (JObject kvs) = CHR ''{'' # commas (map (\<lambda>kv. quote (fst kv) @ CHR '':'' # stringify (snd kv)) kvs) @ ''}''"

section \<open>Reading\<close>

definition isDigit :: "char \<Rightarrow> bool" where
  "isDigit c \<longleftrightarrow> (let n = (of_char c :: nat) in 48 \<le> n \<and> n \<le> 57)"

definition digit_value :: "char \<Rightarrow> nat" where
  "digit_value c = of_char c - 48"

definition read_digits :: "string \<Rightarrow> nat" where
  "read_digits ds = foldl (\<lambda>n c. 10 * n + digit_value c) 0 ds"

definition hex_value :: "char \<Rightarrow> nat option" where
  "hex_value c =
     (let n = (of_char c :: nat) in
      if 48 \<le> n \<and> n \<le> 57 then Some (n - 48) else if 97 \<le> n \<and> n \<le> 102 then Some (n - 87)
      else if 65 \<le> n \<and> n \<le> 70 then Some (n - 55) else None)"

definition skip_space :: "string \<Rightarrow> string" where
  "skip_space = dropWhile (\<lambda>c. (of_char c :: nat) \<in> {32, 9, 10, 13})"

subsection \<open>Strings\<close>

definition parse_unicode :: "string \<Rightarrow> (char \<times> string) option" where
  "parse_unicode s =
     (case s of
        a # b # c # d # rest \<Rightarrow>
          (case (hex_value a, hex_value b, hex_value c, hex_value d) of
             (Some a', Some b', Some c', Some d') \<Rightarrow>
               if a' = 0 \<and> b' = 0 then Some (char_of (16 * c' + d'), rest) else None
           | _ \<Rightarrow> None)
      | _ \<Rightarrow> None)"

definition parse_escape :: "string \<Rightarrow> (char \<times> string) option" where
  "parse_escape s =
     (case s of
        [] \<Rightarrow> None
      | c # rest \<Rightarrow>
          if c = quotation_mark \<or> c = backslash \<or> c = CHR ''/'' then Some (c, rest)
          else if c = CHR ''b'' then Some (char_of (8 :: nat), rest)
          else if c = CHR ''t'' then Some (char_of (9 :: nat), rest)
          else if c = CHR ''n'' then Some (char_of (10 :: nat), rest)
          else if c = CHR ''f'' then Some (char_of (12 :: nat), rest)
          else if c = CHR ''r'' then Some (char_of (13 :: nat), rest)
          else if c = CHR ''u'' then parse_unicode rest
          else None)"

lemma parse_escape_shorter: "parse_escape s = Some (c, rest) \<Longrightarrow> length rest < length s"
  by (auto simp: parse_escape_def parse_unicode_def split: list.splits option.splits if_splits)

text \<open>The text after the opening quotation mark.\<close>

function parse_text :: "string \<Rightarrow> (string \<times> string) option" where
  "parse_text [] = None"
| "parse_text (c # cs) =
     (if c = quotation_mark then Some ([], cs)
      else if c = backslash then
        (case parse_escape cs of
           None \<Rightarrow> None
         | Some (d, rest) \<Rightarrow> (case parse_text rest of None \<Rightarrow> None | Some (t, rest') \<Rightarrow> Some (d # t, rest')))
      else if (of_char c :: nat) < 32 then None
      else (case parse_text cs of None \<Rightarrow> None | Some (t, rest') \<Rightarrow> Some (c # t, rest')))"
  by pat_completeness auto
termination by (relation "measure length") (auto dest: parse_escape_shorter)

subsection \<open>Numbers\<close>

fun binade :: "nat \<Rightarrow> nat" where
  "binade n = (if n < 2 then 0 else Suc (binade (n div 2)))"

declare binade.simps [simp del]

text \<open>The integer below \<open>2\<^sup>53\<close> that the double nearest to \<open>m / q\<close> is, if it is one. Doubles between
  \<open>2\<^sup>b\<close> and \<open>2\<^sup>b\<^sup>+\<^sup>1\<close> are \<open>2\<^sup>b\<^sup>-\<^sup>5\<^sup>2\<close> apart.\<close>

definition double_integer :: "nat \<Rightarrow> nat \<Rightarrow> nat option" where
  "double_integer m q =
     (let f = m div q; r = m mod q; b = binade f in
      if r = 0 then Some f
      else if f = 0 then
        (if r * 2 ^ 1075 \<le> q then Some 0 else if (q - r) * 2 ^ 54 \<le> q then Some 1 else None)
      else if b \<ge> 52 then
        Some (if 2 * r < q then f else if 2 * r > q then f + 1 else if even f then f else f + 1)
      else if r * 2 ^ (53 - b) \<le> q then Some f
      else if (q - r) * 2 ^ (53 - b) \<le> q then Some (f + 1)
      else None)"

text \<open>A numeral: its sign, the digits before and after the point, and its exponent.\<close>

definition number_value :: "bool \<Rightarrow> string \<Rightarrow> string \<Rightarrow> int \<Rightarrow> int option" where
  "number_value negative whole fraction exponent =
     (let m = read_digits (whole @ fraction); e = exponent - int (length fraction) in
      case (if 0 \<le> e then Some (m * 10 ^ nat e) else double_integer m (10 ^ nat (- e))) of
        None \<Rightarrow> None
      | Some n \<Rightarrow> (let v = (if negative then - int n else int n) in if isSafeInteger v then Some v else None))"

definition split_digits :: "string \<Rightarrow> string \<times> string" where
  "split_digits s = (takeWhile isDigit s, dropWhile isDigit s)"

definition parse_fraction :: "string \<Rightarrow> (string \<times> string) option" where
  "parse_fraction s =
     (case s of
        c # rest \<Rightarrow>
          if c = CHR ''.'' then (case split_digits rest of (ds, rest') \<Rightarrow> if ds = [] then None else Some (ds, rest'))
          else Some ([], s)
      | [] \<Rightarrow> Some ([], s))"

definition parse_exponent :: "string \<Rightarrow> (int \<times> string) option" where
  "parse_exponent s =
     (case s of
        c # rest \<Rightarrow>
          if c = CHR ''e'' \<or> c = CHR ''E'' then
            (let negative = (take 1 rest = ''-''); signed = (negative \<or> take 1 rest = ''+'') in
             case split_digits (if signed then tl rest else rest) of (ds, rest') \<Rightarrow>
               if ds = [] then None
               else Some (if negative then - int (read_digits ds) else int (read_digits ds), rest'))
          else Some (0, s)
      | [] \<Rightarrow> Some (0, s))"

definition parse_number :: "string \<Rightarrow> (json \<times> string) option" where
  "parse_number s =
     (let negative = (take 1 s = ''-'') in
      case split_digits (if negative then tl s else s) of (whole, s1) \<Rightarrow>
        if whole = [] \<or> (hd whole = CHR ''0'' \<and> 1 < length whole) then None
        else (case parse_fraction s1 of
          None \<Rightarrow> None
        | Some (fraction, s2) \<Rightarrow> (case parse_exponent s2 of
            None \<Rightarrow> None
          | Some (exponent, rest) \<Rightarrow>
              Some (case number_value negative whole fraction exponent of
                Some v \<Rightarrow> JNumber v
              | None \<Rightarrow> JUnsafe (take (length s - length rest) s), rest))))"

subsection \<open>Values\<close>

definition strip_prefix :: "string \<Rightarrow> string \<Rightarrow> string option" where
  "strip_prefix p s = (if take (length p) s = p then Some (drop (length p) s) else None)"

definition parse_scalar :: "string \<Rightarrow> (json \<times> string) option" where
  "parse_scalar s =
     (case strip_prefix ''null'' s of Some rest \<Rightarrow> Some (JNull, rest)
      | None \<Rightarrow> (case strip_prefix ''true'' s of Some rest \<Rightarrow> Some (JBool True, rest)
      | None \<Rightarrow> (case strip_prefix ''false'' s of Some rest \<Rightarrow> Some (JBool False, rest)
      | None \<Rightarrow> parse_number s)))"

text \<open>Recursive descent; a repeated key keeps its place and takes the later value. The fuel bounds the nesting of
  calls; twice the length of the text is enough (\<open>parse_fuel\<close> below).\<close>

fun parse_value :: "nat \<Rightarrow> string \<Rightarrow> (json \<times> string) option"
  and parse_elements :: "nat \<Rightarrow> string \<Rightarrow> (json list \<times> string) option"
  and parse_members :: "nat \<Rightarrow> (string \<times> json) list \<Rightarrow> string \<Rightarrow> ((string \<times> json) list \<times> string) option"
where
  "parse_value 0 s = None"
| "parse_value (Suc n) s =
     (case s of
        [] \<Rightarrow> None
      | c # cs \<Rightarrow>
          if c = quotation_mark then map_option (map_prod JText id) (parse_text cs)
          else if c = CHR ''['' then
            (case strip_prefix '']'' (skip_space cs) of
               Some rest \<Rightarrow> Some (JArray [], rest)
             | None \<Rightarrow> map_option (map_prod JArray id) (parse_elements n (skip_space cs)))
          else if c = CHR ''{'' then
            (case strip_prefix ''}'' (skip_space cs) of
               Some rest \<Rightarrow> Some (JObject [], rest)
             | None \<Rightarrow> map_option (map_prod JObject id) (parse_members n [] (skip_space cs)))
          else parse_scalar s)"
| "parse_elements 0 s = None"
| "parse_elements (Suc n) s =
     (case parse_value n s of
        None \<Rightarrow> None
      | Some (v, rest) \<Rightarrow>
          (case strip_prefix '']'' (skip_space rest) of
             Some rest' \<Rightarrow> Some ([v], rest')
           | None \<Rightarrow> (case strip_prefix '','' (skip_space rest) of
               Some rest' \<Rightarrow> map_option (map_prod ((#) v) id) (parse_elements n (skip_space rest'))
             | None \<Rightarrow> None)))"
| "parse_members 0 members s = None"
| "parse_members (Suc n) members s =
     (case strip_prefix [quotation_mark] s of
        None \<Rightarrow> None
      | Some cs \<Rightarrow> (case parse_text cs of
          None \<Rightarrow> None
        | Some (key, rest) \<Rightarrow> (case strip_prefix '':'' (skip_space rest) of
            None \<Rightarrow> None
          | Some rest1 \<Rightarrow> (case parse_value n (skip_space rest1) of
              None \<Rightarrow> None
            | Some (v, rest2) \<Rightarrow>
                (case strip_prefix ''}'' (skip_space rest2) of
                   Some rest3 \<Rightarrow> Some (AList.update key v members, rest3)
                 | None \<Rightarrow> (case strip_prefix '','' (skip_space rest2) of
                     Some rest3 \<Rightarrow> parse_members n (AList.update key v members) (skip_space rest3)
                   | None \<Rightarrow> None))))))"

text \<open>\<open>JSON.parse\<close>, \<open>None\<close> for its \<open>SyntaxError\<close>.\<close>

definition parse_json :: "string \<Rightarrow> json option" where
  "parse_json s =
     (case parse_value (2 * length s) (skip_space s) of
        None \<Rightarrow> None
      | Some (v, rest) \<Rightarrow> if skip_space rest = [] then Some v else None)"

end
