(* ===== verification/Json_Roundtrip.thy ===== *)
theory Json_Roundtrip
  imports Json
begin

text \<open>
  Reading a JSON text gives back the value it was printed from, and the fuel of the reader is enough for every
  text.
\<close>

section \<open>Digits\<close>

lemma of_char_digit [simp]: "d < 10 \<Longrightarrow> (of_char (digit_char d) :: nat) = 48 + d"
  by (simp add: digit_char_def)

lemma char_eq_code: "c = d \<longleftrightarrow> (of_char c :: nat) = of_char d"
  by (rule of_char_eq_iff [symmetric])

lemma digit_simps [simp]:
  "d < 10 \<Longrightarrow> isDigit (digit_char d)" "d < 10 \<Longrightarrow> digit_value (digit_char d) = d"
  "d < 10 \<Longrightarrow> digit_char d = CHR ''0'' \<longleftrightarrow> d = 0" "d < 10 \<Longrightarrow> digit_char d \<noteq> CHR ''-''"
  by (simp_all add: isDigit_def digit_value_def char_eq_code)

lemma read_digits_snoc: "read_digits (ds @ [c]) = 10 * read_digits ds + digit_value c"
  by (simp add: read_digits_def)

lemma read_decimal [simp]: "read_digits (decimal n) = n"
proof (induction n rule: decimal.induct)
  case (1 n)
  show ?case
  proof (cases "n < 10")
    case True
    then show ?thesis by (subst decimal.simps) (simp add: read_digits_def)
  next
    case False
    with 1 show ?thesis by (subst decimal.simps) (simp add: read_digits_snoc)
  qed
qed

lemma decimal_digits: "list_all isDigit (decimal n)"
  by (induction n rule: decimal.induct) (subst decimal.simps, simp)

lemma decimal_nonempty [simp]: "decimal n \<noteq> []"
  by (subst decimal.simps) simp

lemma decimal_head: "\<exists>d ds. decimal n = digit_char d # ds \<and> d < 10 \<and> (d = 0 \<longrightarrow> ds = [])"
proof (induction n rule: decimal.induct)
  case (1 n)
  show ?case
  proof (cases "n < 10")
    case True
    then show ?thesis by (subst decimal.simps) auto
  next
    case False
    with 1 obtain d ds where d: "decimal (n div 10) = digit_char d # ds" "d < 10" "d = 0 \<longrightarrow> ds = []" by blast
    have "d \<noteq> 0"
    proof
      assume "d = 0"
      with d have "decimal (n div 10) = [digit_char 0]" by simp
      then have "read_digits (decimal (n div 10)) = read_digits [digit_char 0]" by (rule arg_cong)
      then have "n div 10 = 0" by (simp only: read_decimal) (simp add: read_digits_def)
      with False show False by simp
    qed
    with d False show ?thesis by (subst decimal.simps) auto
  qed
qed

section \<open>Strings\<close>

lemma hex_value_char [simp]: "d < 16 \<Longrightarrow> hex_value (hex_char d) = Some d"
  by (auto simp: hex_value_def hex_char_def)

lemma parse_escape_control:
  "parse_escape (CHR ''b'' # s) = Some (char_of (8 :: nat), s)" "parse_escape (CHR ''t'' # s) = Some (char_of (9 :: nat), s)"
  "parse_escape (CHR ''n'' # s) = Some (char_of (10 :: nat), s)" "parse_escape (CHR ''f'' # s) = Some (char_of (12 :: nat), s)"
  "parse_escape (CHR ''r'' # s) = Some (char_of (13 :: nat), s)" "parse_escape (quotation_mark # s) = Some (quotation_mark, s)"
  "parse_escape (backslash # s) = Some (backslash, s)" "parse_escape (CHR ''u'' # s) = parse_unicode s"
  by (simp_all add: parse_escape_def)

lemma parse_unicode_char:
  "parse_unicode (CHR ''0'' # CHR ''0'' # hex_char (of_char c div 16) # hex_char (of_char c mod 16) # s) = Some (c, s)"
proof -
  have "(of_char c :: nat) < 256" by (rule nat_of_char_less_256) 
  then have "hex_value (hex_char (of_char c div 16)) = Some (of_char c div 16)"
    "hex_value (hex_char (of_char c mod 16)) = Some (of_char c mod 16)" by (simp_all add: less_mult_imp_div_less)
  moreover have "hex_value (CHR ''0'') = Some 0" by (simp add: hex_value_def)
  moreover have "char_of (16 * (of_char c div 16 :: nat) + of_char c mod 16) = c" by (simp only: mult_div_mod_eq char_of_char)
  ultimately show ?thesis by (simp add: parse_unicode_def)
qed

lemma parse_backslash:
  "parse_text (backslash # s) =
     (case parse_escape s of
        None \<Rightarrow> None
      | Some (d, rest) \<Rightarrow> (case parse_text rest of None \<Rightarrow> None | Some (t, rest') \<Rightarrow> Some (d # t, rest')))"
  by simp

lemma parse_escaped:
  "parse_text (escape_char c @ s) = (case parse_text s of None \<Rightarrow> None | Some (t, rest) \<Rightarrow> Some (c # t, rest))"
proof -
  have n: "(of_char c :: nat) = k \<Longrightarrow> char_of k = c" for k by (metis char_of_char)
  consider "c = quotation_mark \<or> c = backslash" | "c \<noteq> quotation_mark" "c \<noteq> backslash" "32 \<le> (of_char c :: nat)"
    | "c \<noteq> quotation_mark" "c \<noteq> backslash" "(of_char c :: nat) \<in> {8, 9, 10, 12, 13}"
    | "c \<noteq> quotation_mark" "c \<noteq> backslash" "(of_char c :: nat) < 32" "(of_char c :: nat) \<notin> {8, 9, 10, 12, 13}"
    by fastforce
  then show ?thesis
  proof cases
    case 1
    then have "escape_char c = [backslash, c]" by (simp add: escape_char_def Let_def)
    with 1 show ?thesis by (auto simp only: append_Cons append_Nil parse_backslash parse_escape_control option.case prod.case)
  next
    case 2
    then have "escape_char c = [c]" by (simp add: escape_char_def Let_def)
    with 2 show ?thesis by simp
  next
    case 3
    then obtain e where "escape_char c = [backslash, e]" "parse_escape (e # s) = Some (c, s)"
      by (auto simp: escape_char_def Let_def parse_escape_control n)
    then show ?thesis by (simp only: append_Cons append_Nil parse_backslash option.case prod.case)
  next
    case 4
    then have "escape_char c =
        [backslash, CHR ''u'', CHR ''0'', CHR ''0'', hex_char (of_char c div 16), hex_char (of_char c mod 16)]"
      by (simp add: escape_char_def Let_def)
    then show ?thesis
      by (simp only: append_Cons append_Nil parse_backslash parse_escape_control parse_unicode_char option.case prod.case)
  qed
qed

lemma parse_text_escaped:
  "parse_text (concat (map escape_char s) @ quotation_mark # rest) = Some (s, rest)"
  by (induction s) (simp_all add: parse_escaped)

section \<open>Numbers\<close>

definition ends_number :: "string \<Rightarrow> bool" where
  "ends_number rest \<longleftrightarrow>
     (case rest of [] \<Rightarrow> True | c # _ \<Rightarrow> \<not> isDigit c \<and> c \<noteq> CHR ''.'' \<and> c \<noteq> CHR ''e'' \<and> c \<noteq> CHR ''E'')"

lemma split_decimal: "ends_number rest \<Longrightarrow> split_digits (decimal n @ rest) = (decimal n, rest)"
  using decimal_digits [of n]
  by (auto simp: split_digits_def ends_number_def list_all_iff takeWhile_append2 dropWhile_append2 split: list.splits)

lemma ends_number_parts: "ends_number rest \<Longrightarrow> parse_fraction rest = Some ([], rest) \<and> parse_exponent rest = Some (0, rest)"
  by (auto simp: ends_number_def parse_fraction_def parse_exponent_def split: list.splits)

lemma number_value_decimal:
  "isSafeInteger (if negative then - int n else int n) \<Longrightarrow>
     number_value negative (decimal n) [] 0 = Some (if negative then - int n else int n)"
  by (simp add: number_value_def)

lemma parse_decimal:
  assumes "isSafeInteger n" "ends_number rest"
  shows "parse_number (decimal_int n @ rest) = Some (JNumber n, rest)"
proof -
  obtain m negative where m: "n = (if negative then - int m else int m)"
      "decimal_int n = (if negative then CHR ''-'' # decimal m else decimal m)"
    by (cases "n < 0") (auto simp: decimal_int_def intro: that [of True "nat (- n)"] that [of False "nat n"])
  obtain d ds where d: "decimal m = digit_char d # ds" "d < 10" "d = 0 \<longrightarrow> ds = []" using decimal_head by blast
  have "take 1 (decimal_int n @ rest) = ''-'' \<longleftrightarrow> negative" using m(2) d by auto
  moreover have "\<not> (hd (decimal m) = CHR ''0'' \<and> 1 < length (decimal m))" using d by auto
  ultimately show ?thesis
    using assms m number_value_decimal [of negative m]
    by (auto simp: parse_number_def split_decimal ends_number_parts Let_def)
qed

section \<open>Values\<close>

lemma strip_prefix_char [simp]: "strip_prefix [c] (d # s) = (if d = c then Some s else None)" "strip_prefix [c] [] = None"
  by (simp_all add: strip_prefix_def)

text \<open>The first character of a printed value tells its kind apart and is no white space.\<close>

definition starts_value :: "char \<Rightarrow> bool" where
  "starts_value c \<longleftrightarrow> isDigit c \<or> c \<in> {CHR ''-'', CHR ''n'', CHR ''t'', CHR ''f'', quotation_mark, CHR ''['', CHR ''{''}"

lemma starts_value_facts:
  assumes "starts_value c"
  shows "skip_space (c # s) = c # s" "c \<noteq> CHR '']''" "c \<noteq> CHR ''}''" "c \<noteq> CHR '',''"
  using assms by (auto simp: starts_value_def isDigit_def skip_space_def)

lemma decimal_int_starts: "\<exists>c s. decimal_int n = c # s \<and> (isDigit c \<or> c = CHR ''-'')"
  using decimal_head [of "nat n"] by (auto simp: decimal_int_def)

lemma stringify_starts:
  assumes "plain v"
  shows "\<exists>c s. stringify v = c # s \<and> starts_value c"
proof (cases v)
  case (JNumber n)
  with decimal_int_starts [of n] show ?thesis by (auto simp: starts_value_def)
qed (use assms in \<open>auto simp: starts_value_def quote_def\<close>)

lemma skip_printed: "plain v \<Longrightarrow> skip_space (stringify v @ rest) = stringify v @ rest"
  using stringify_starts [of v] by (auto simp: starts_value_facts)

lemma skip_mark [simp]:
  "skip_space (CHR '','' # s) = CHR '','' # s" "skip_space (CHR '']'' # s) = CHR '']'' # s" "skip_space (CHR ''}'' # s) = CHR ''}'' # s"
  "skip_space (CHR '':'' # s) = CHR '':'' # s" "skip_space (quotation_mark # s) = quotation_mark # s" "skip_space [] = []"
  by (simp_all add: skip_space_def)

lemma ends_number_mark [simp]: "ends_number []" "ends_number (CHR '','' # s)" "ends_number (CHR '']'' # s)" "ends_number (CHR ''}'' # s)"
  by (simp_all add: ends_number_def isDigit_def)

lemma parse_scalar_number:
  assumes "isSafeInteger n" "ends_number rest"
  shows "parse_scalar (decimal_int n @ rest) = Some (JNumber n, rest)"
proof -
  obtain c s where "decimal_int n = c # s" "isDigit c \<or> c = CHR ''-''" using decimal_int_starts by blast
  then show ?thesis using parse_decimal [OF assms]
    by (auto simp: parse_scalar_def strip_prefix_def isDigit_def)
qed

lemma parse_value_number:
  assumes "isSafeInteger n" "ends_number rest"
  shows "parse_value (Suc k) (decimal_int n @ rest) = Some (JNumber n, rest)"
proof -
  obtain c s where c: "decimal_int n = c # s" "isDigit c \<or> c = CHR ''-''" using decimal_int_starts by blast
  then have "c \<noteq> quotation_mark" "c \<noteq> CHR ''[''" "c \<noteq> CHR ''{''" by (auto simp: isDigit_def)
  with c parse_scalar_number [OF assms] show ?thesis by simp
qed

lemma length_commas_Cons: "length (commas (t # ts)) = (if ts = [] then length t else length t + 1 + length (commas ts))"
  by (cases ts) auto

lemma update_snoc: "k \<notin> fst ` set kvs \<Longrightarrow> AList.update k v kvs = kvs @ [(k, v)]"
  by (induction kvs) auto

abbreviation printed_member :: "string \<times> json \<Rightarrow> string" where
  "printed_member kv \<equiv> quote (fst kv) @ CHR '':'' # stringify (snd kv)"

lemma parse_elements_printed:
  assumes "vs \<noteq> []" "list_all plain vs" "2 * length (commas (map stringify vs)) + 1 \<le> k"
    and "\<And>v k rest. v \<in> set vs \<Longrightarrow> plain v \<Longrightarrow> 2 * length (stringify v) \<le> k \<Longrightarrow> ends_number rest \<Longrightarrow>
      parse_value k (stringify v @ rest) = Some (v, rest)"
  shows "parse_elements k (commas (map stringify vs) @ CHR '']'' # rest) = Some (vs, rest)"
  using assms
proof (induction vs arbitrary: k)
  case (Cons v vs)
  from Cons(4) obtain m where k: "k = Suc m" by (cases k) auto
  have v: "plain v" "2 * length (stringify v) \<le> m" using Cons(3,4) by (auto simp: k length_commas_Cons split: if_splits)
  show ?case
  proof (cases vs)
    case Nil
    with v Cons(5) [of v m "CHR '']'' # rest"] show ?thesis by (simp add: k)
  next
    case (Cons w ws)
    have "parse_elements m (commas (map stringify vs) @ CHR '']'' # rest) = Some (vs, rest)"
      by (rule Cons.IH) (use Cons.prems in \<open>auto simp: k Cons length_commas_Cons\<close>)
    moreover have "skip_space (commas (map stringify vs) @ CHR '']'' # rest) = commas (map stringify vs) @ CHR '']'' # rest"
      using skip_printed [of w] Cons.prems(2) by (cases ws) (simp_all add: Cons)
    ultimately show ?thesis
      using v Cons.prems(4) [of v m "CHR '','' # commas (map stringify vs) @ CHR '']'' # rest"] by (simp add: k Cons)
  qed
qed simp

lemma parse_member_printed:
  assumes "plain v"
    and "\<And>rest. ends_number rest \<Longrightarrow> parse_value k (stringify v @ rest) = Some (v, rest)"
  shows "parse_members (Suc k) members (printed_member (key, v) @ CHR ''}'' # rest) = Some (AList.update key v members, rest)"
    and "parse_members (Suc k) members (printed_member (key, v) @ CHR '','' # rest) =
      parse_members k (AList.update key v members) (skip_space rest)"
  using assms by (simp_all add: quote_def parse_text_escaped skip_printed)

lemma parse_members_printed:
  assumes "kvs \<noteq> []" "list_all (\<lambda>kv. plain (snd kv)) kvs" "distinct (map fst (members @ kvs))"
    and "2 * length (commas (map printed_member kvs)) + 1 \<le> k"
    and "\<And>kv k rest. kv \<in> set kvs \<Longrightarrow> plain (snd kv) \<Longrightarrow> 2 * length (stringify (snd kv)) \<le> k \<Longrightarrow> ends_number rest \<Longrightarrow>
      parse_value k (stringify (snd kv) @ rest) = Some (snd kv, rest)"
  shows "parse_members k members (commas (map printed_member kvs) @ CHR ''}'' # rest) = Some (members @ kvs, rest)"
  using assms
proof (induction kvs arbitrary: k members)
  case (Cons kv kvs)
  obtain key v where kv: "kv = (key, v)" by (cases kv)
  from Cons(5) obtain m where k: "k = Suc m" by (cases k) auto
  have v: "plain v" "2 * length (stringify v) \<le> m" using Cons(3,5) by (auto simp: k kv length_commas_Cons split: if_splits)
  have new: "AList.update key v members = members @ [kv]" using Cons(4) update_snoc [of key members v] by (auto simp: kv)
  have here: "ends_number rest \<Longrightarrow> parse_value m (stringify v @ rest) = Some (v, rest)" for rest
    using Cons(6) [of kv m rest] v by (simp add: kv)
  show ?case
  proof (cases kvs)
    case Nil
    with parse_member_printed(1) [OF v(1) here] new show ?thesis by (simp add: k kv)
  next
    case (Cons w ws)
    have "parse_members m (members @ [kv]) (commas (map printed_member kvs) @ CHR ''}'' # rest) = Some ((members @ [kv]) @ kvs, rest)"
      by (rule Cons.IH) (use Cons.prems in \<open>auto simp: k kv Cons length_commas_Cons\<close>)
    moreover have "skip_space (commas (map printed_member kvs) @ CHR ''}'' # rest) = commas (map printed_member kvs) @ CHR ''}'' # rest"
      by (cases ws) (simp_all add: Cons quote_def)
    ultimately show ?thesis
      using parse_member_printed(2) [OF v(1) here, of members key "commas (map printed_member kvs) @ CHR ''}'' # rest"] new
      by (simp add: k kv Cons)
  qed
qed simp

lemma parse_value_printed:
  "plain v \<Longrightarrow> 2 * length (stringify v) \<le> k \<Longrightarrow> ends_number rest \<Longrightarrow> parse_value k (stringify v @ rest) = Some (v, rest)"
proof (induction v arbitrary: k rest rule: stringify.induct)
  case (3 n)
  obtain m where "k = Suc m" using 3(2) decimal_int_starts [of n] by (cases k) auto
  with 3 parse_value_number show ?case by simp
next
  case (5 s)
  then obtain m where "k = Suc m" by (cases k) (auto simp: quote_def)
  with 5 show ?case by (simp add: quote_def parse_text_escaped)
next
  case (6 vs)
  then obtain m where k: "k = Suc m" by (cases k) auto
  show ?case
  proof (cases vs)
    case Nil
    then show ?thesis by (simp add: k)
  next
    case (Cons w ws)
    with 6(2) obtain c s where "stringify w = c # s" "starts_value c" using stringify_starts [of w] by auto
    then have "\<exists>c s. commas (map stringify vs) @ CHR '']'' # rest = c # s \<and> starts_value c"
      by (cases ws) (auto simp: Cons)
    then obtain c s where c: "commas (map stringify vs) @ CHR '']'' # rest = c # s" "starts_value c" by blast
    have "parse_elements m (commas (map stringify vs) @ CHR '']'' # rest) = Some (vs, rest)"
      by (rule parse_elements_printed) (use 6 Cons k in auto)
    then show ?thesis using starts_value_facts [OF c(2)] by (simp add: k c(1))
  qed
next
  case (7 kvs)
  then obtain m where k: "k = Suc m" by (cases k) auto
  show ?case
  proof (cases kvs)
    case Nil
    then show ?thesis by (simp add: k)
  next
    case (Cons w ws)
    then obtain s where c: "commas (map printed_member kvs) @ CHR ''}'' # rest = quotation_mark # s"
      by (cases ws) (auto simp: quote_def)
    have "parse_members m [] (commas (map printed_member kvs) @ CHR ''}'' # rest) = Some ([] @ kvs, rest)"
      by (rule parse_members_printed) (use 7 Cons k in auto)
    then show ?thesis by (simp add: k c)
  qed
qed (auto simp: parse_scalar_def strip_prefix_def split: if_splits, (case_tac k; simp add: parse_scalar_def strip_prefix_def)+)

theorem parse_stringify: "plain v \<Longrightarrow> parse_json (stringify v) = Some v"
  using parse_value_printed [of v "2 * length (stringify v)" "[]"] skip_printed [of v "[]"] by (simp add: parse_json_def)

section \<open>The fuel is enough\<close>

lemma skip_space_length: "length (skip_space s) \<le> length s"
  by (simp add: skip_space_def length_dropWhile_le)

lemma strip_prefix_length: "strip_prefix p s = Some r \<Longrightarrow> length r + length p = length s"
proof -
  assume "strip_prefix p s = Some r"
  then have "take (length p) s = p" "r = drop (length p) s" by (simp_all add: strip_prefix_def split: if_splits)
  then have "s = p @ r" by (metis append_take_drop_id)
  then show "length r + length p = length s" by simp
qed

lemma parse_text_length: "parse_text s = Some (t, r) \<Longrightarrow> length r < length s"
proof (induction s arbitrary: t r rule: parse_text.induct)
  case (2 c cs)
  show ?case
  proof (cases "c = backslash")
    case True
    with 2(3) obtain d rest t' where d: "parse_escape cs = Some (d, rest)" "parse_text rest = Some (t', r)"
      by (auto split: option.splits)
    from 2(1) [OF _ True d(1) refl d(2)] parse_escape_shorter [OF d(1)] True show ?thesis by simp
  next
    case False
    with 2(2) [OF _ False] 2(3) show ?thesis by (fastforce split: if_splits option.splits)
  qed
qed simp

lemma split_digits_length: "split_digits s = (ds, r) \<Longrightarrow> length r + length ds = length s"
  using takeWhile_dropWhile_id [of isDigit s] by (auto simp: split_digits_def simp del: takeWhile_dropWhile_id dest: arg_cong [of _ _ length])

lemma parse_number_length: "parse_number s = Some (v, r) \<Longrightarrow> length r < length s"
proof -
  assume "parse_number s = Some (v, r)"
  then obtain whole s1 fraction s2 exponent where
    w: "split_digits (if take 1 s = ''-'' then tl s else s) = (whole, s1)" "whole \<noteq> []"
    and f: "parse_fraction s1 = Some (fraction, s2)" and e: "parse_exponent s2 = Some (exponent, r)"
    by (auto simp: parse_number_def Let_def split: prod.splits option.splits if_splits)
  have "length r \<le> length s2" using e
    by (auto simp: parse_exponent_def Let_def split: list.splits if_splits prod.splits dest!: split_digits_length)
  also have "\<dots> \<le> length s1" using f
    by (auto simp: parse_fraction_def split: list.splits if_splits prod.splits dest!: split_digits_length)
  also have "\<dots> < length (if take 1 s = ''-'' then tl s else s)" using split_digits_length [OF w(1)] w(2) by (cases whole) auto
  also have "\<dots> \<le> length s" by simp
  finally show ?thesis .
qed

lemma parse_scalar_length: "parse_scalar s = Some (v, r) \<Longrightarrow> length r < length s"
  by (auto simp: parse_scalar_def split: option.splits dest!: strip_prefix_length parse_number_length)

lemma skip_strip_length: "strip_prefix [c] (skip_space s) = Some r \<Longrightarrow> length r < length s"
  using strip_prefix_length [of "[c]" "skip_space s" r] skip_space_length [of s] by simp

lemma skip_space_less: "length s < n \<Longrightarrow> length (skip_space s) < n"
  using skip_space_length [of s] by simp

lemma parse_length:
  "parse_value n s = Some (v, r) \<Longrightarrow> length r < length s"
  "parse_elements n s = Some (vs, r) \<Longrightarrow> length r < length s"
  "parse_members n ms s = Some (kvs, r) \<Longrightarrow> length r < length s"
proof (induction n s and n s and n ms s arbitrary: v r and vs r and kvs r
    rule: parse_value_parse_elements_parse_members.induct)
  case (2 n s)
  show ?case
  proof (cases s)
    case (Cons c cs)
    note IH = 2(1) [OF Cons] 2(2) [OF Cons]
    show ?thesis
      using 2(3) IH skip_space_length [of cs]
      by (fastforce simp: Cons split: if_splits option.splits dest: parse_text_length skip_strip_length parse_scalar_length)
  qed (use 2(3) in simp)
next
  case (4 n s)
  then show ?case
    by (fastforce split: option.splits dest: skip_strip_length intro: less_trans skip_space_less)
next
  case (6 n ms s)
  then show ?case
    by (fastforce split: option.splits dest: strip_prefix_length parse_text_length skip_strip_length intro: less_trans skip_space_less)
qed simp_all

text \<open>From twice the length of the text on, more fuel changes nothing: a text the reader refuses is refused for its
  form and never for lack of fuel.\<close>

lemma parse_fuel:
  "2 * length s \<le> n \<Longrightarrow> 2 * length s \<le> m \<Longrightarrow> parse_value n s = parse_value m s"
  "2 * length s + 1 \<le> n \<Longrightarrow> 2 * length s + 1 \<le> m \<Longrightarrow> parse_elements n s = parse_elements m s"
  "2 * length s + 1 \<le> n \<Longrightarrow> 2 * length s + 1 \<le> m \<Longrightarrow> parse_members n ms s = parse_members m ms s"
proof (induction n s and n s and n ms s arbitrary: m and m and m
    rule: parse_value_parse_elements_parse_members.induct)
  case (1 s)
  then show ?case by (cases m) auto
next
  case (2 n s)
  show ?case
  proof (cases s)
    case Nil
    then show ?thesis by (cases m) auto
  next
    case (Cons c cs)
    with 2(4) obtain k where m: "m = Suc k" by (cases m) auto
    have "2 * length (skip_space cs) + 1 \<le> n" "2 * length (skip_space cs) + 1 \<le> k"
      using 2(3,4) skip_space_length [of cs] by (auto simp: Cons m)
    note IH = 2(1) [OF Cons _ _ _ this] 2(2) [OF Cons _ _ _ _ this]
    consider "c = quotation_mark" | "c = CHR ''[''" | "c = CHR ''{''" | "c \<noteq> quotation_mark" "c \<noteq> CHR ''[''" "c \<noteq> CHR ''{''"
      by blast
    then show ?thesis
    proof cases
      case 2
      show ?thesis
      proof (cases "strip_prefix '']'' (skip_space cs)")
        case None
        with IH(1) 2 show ?thesis by (simp add: m Cons)
      qed (use 2 in \<open>simp add: m Cons\<close>)
    next
      case 3
      show ?thesis
      proof (cases "strip_prefix ''}'' (skip_space cs)")
        case None
        with IH(2) 3 show ?thesis by (simp add: m Cons)
      qed (use 3 in \<open>simp add: m Cons\<close>)
    qed (simp_all add: m Cons)
  qed
next
  case (4 n s)
  from 4(4) obtain k where m: "m = Suc k" by (cases m) auto
  have v: "parse_value n s = parse_value k s" using 4(3,4) by (intro 4(1)) (auto simp: m)
  have "parse_elements n (skip_space r') = parse_elements k (skip_space r')"
    if "parse_value n s = Some (w, r)" "strip_prefix '']'' (skip_space r) = None" "strip_prefix '','' (skip_space r) = Some r'" for w r r'
    using 4(3,4) parse_length(1) [OF that(1)] skip_strip_length [OF that(3)] skip_space_length [of r']
    by (intro 4(2) [OF that(1) refl that(2,3)]) (auto simp: m)
  then show ?case unfolding m parse_elements.simps v [symmetric] by (auto split: option.split)
next
  case (6 n ms s)
  from 6(4) obtain k where m: "m = Suc k" by (cases m) auto
  have v: "parse_value n (skip_space r1) = parse_value k (skip_space r1)"
    if "strip_prefix [quotation_mark] s = Some cs" "parse_text cs = Some (key, r)" "strip_prefix '':'' (skip_space r) = Some r1"
    for cs key r r1
    using 6(3,4) strip_prefix_length [OF that(1)] parse_text_length [OF that(2)] skip_strip_length [OF that(3)] skip_space_length [of r1]
    by (intro 6(1) [OF that(1,2) refl that(3)]) (auto simp: m)
  have "parse_members n ms' (skip_space r3) = parse_members k ms' (skip_space r3)"
    if "strip_prefix [quotation_mark] s = Some cs" "parse_text cs = Some (key, r)" "strip_prefix '':'' (skip_space r) = Some r1"
      "parse_value n (skip_space r1) = Some (w, r2)" "strip_prefix ''}'' (skip_space r2) = None"
      "strip_prefix '','' (skip_space r2) = Some r3" "ms' = AList.update key w ms" for cs key r r1 w r2 r3 ms'
    unfolding that(7)
    using 6(3,4) strip_prefix_length [OF that(1)] parse_text_length [OF that(2)] skip_strip_length [OF that(3)]
      skip_space_length [of r1] parse_length(1) [OF that(4)] skip_strip_length [OF that(6)] skip_space_length [of r3]
    by (intro 6(2) [OF that(1,2) refl that(3,4) refl that(5,6)]) (auto simp: m)
  then show ?case unfolding m parse_members.simps using v by (auto split: option.split)
qed (case_tac m; simp)+

end
