(* ===== verification/Snapshot_Codec.thy ===== *)
theory Snapshot_Codec
  imports Json_Roundtrip "HOL-Library.Monad_Syntax" "HOL-Library.Char_ord" "HOL-Library.List_Lexorder"
    "HOL-Library.Product_Lexorder"
begin

text \<open>
  What \<open>serialization/snapshot.ts\<close> and \<open>serialization/gameplay-snapshot.ts\<close> share: plain values as the program
  holds them in memory and their serialisation, the readers of single fields, the canonical text and its checksum,
  and the signed envelope. A reader that throws \<open>SnapshotError\<close> answers \<open>None\<close>; its message is not modelled.

  The contract of an encoder and its reader is the locale \<open>codec\<close>: reading what was written gives the value back
  exactly when the value is well-formed, and whatever is read is well-formed.
\<close>

section \<open>Plain values\<close>

datatype js_value =
    VNull
  | VBool bool
  | VNumber int
  | VBigint int
  | VText string
  | VArray "js_value list"
  | VObject "(string \<times> js_value) list"

lemma entry_size [termination_simp]:
  "kv \<in> set kvs \<Longrightarrow> size (snd kv) < Suc (size_list (\<lambda>x. Suc (size (snd x))) (kvs :: (string \<times> js_value) list))"
  by (induction kvs) auto

fun serializeValue :: "js_value \<Rightarrow> json" where
  "serializeValue (VBigint n) = JText (decimal_int n)"
| "serializeValue (VArray vs) = JArray (map serializeValue vs)"
| "serializeValue (VObject kvs) = JObject (map (\<lambda>kv. (fst kv, serializeValue (snd kv))) kvs)"
| "serializeValue VNull = JNull"
| "serializeValue (VBool b) = JBool b"
| "serializeValue (VNumber n) = JNumber n"
| "serializeValue (VText s) = JText s"

definition nullable :: "('a \<Rightarrow> js_value) \<Rightarrow> 'a option \<Rightarrow> js_value" where
  "nullable f x = (case x of None \<Rightarrow> VNull | Some y \<Rightarrow> f y)"

section \<open>Readers of fields\<close>

definition check :: "bool \<Rightarrow> unit option" where
  "check b = (if b then Some () else None)"

definition as_record :: "json \<Rightarrow> (string \<times> json) list option" where
  "as_record v = (case v of JObject kvs \<Rightarrow> Some kvs | _ \<Rightarrow> None)"

definition as_array :: "json \<Rightarrow> json list option" where
  "as_array v = (case v of JArray vs \<Rightarrow> Some vs | _ \<Rightarrow> None)"

definition exactKeys :: "(string \<times> json) list \<Rightarrow> string list \<Rightarrow> bool" where
  "exactKeys kvs keys \<longleftrightarrow> sort (map fst kvs) = sort keys"

text \<open>A property read; \<open>None\<close> is \<open>undefined\<close>, which every reader refuses.\<close>

definition field :: "(string \<times> json) list \<Rightarrow> string \<Rightarrow> json option" where
  "field kvs key = map_of kvs key"

definition as_integer :: "int \<Rightarrow> int \<Rightarrow> json \<Rightarrow> int option" where
  "as_integer minimum maximum v =
     (case v of
        JNumber n \<Rightarrow> if \<not> isSafeInteger n \<or> n < minimum \<or> n > maximum then None else Some n
      | _ \<Rightarrow> None)"

abbreviation as_natural :: "json \<Rightarrow> int option" where
  "as_natural \<equiv> as_integer 0 MAX_SAFE_INTEGER"

definition as_nullable :: "(json \<Rightarrow> 'a option) \<Rightarrow> json \<Rightarrow> 'a option option" where
  "as_nullable read v = (if v = JNull then Some None else map_option Some (read v))"

text \<open>The pattern \<open>/^(0|[1-9][0-9]{0,77})$/\<close>.\<close>

definition canonical_decimal :: "string \<Rightarrow> bool" where
  "canonical_decimal s \<longleftrightarrow>
     s = ''0'' \<or> (s \<noteq> [] \<and> hd s \<noteq> CHR ''0'' \<and> list_all isDigit s \<and> length s \<le> 78)"

definition as_decimal :: "json \<Rightarrow> int option" where
  "as_decimal v = (case v of JText s \<Rightarrow> if canonical_decimal s then Some (int (read_digits s)) else None | _ \<Rightarrow> None)"

text \<open>\<open>cash\<close> of the gameplay snapshot; \<open>matchCash(decimal(...))\<close> of the lobby snapshot accepts the same texts,
  78 digits being the limit of both.\<close>

definition as_cash :: "json \<Rightarrow> int option" where
  "as_cash v = (case as_decimal v of None \<Rightarrow> None | Some n \<Rightarrow> if n > MAX_MATCH_CASH then None else Some n)"

definition as_text :: "nat \<Rightarrow> json \<Rightarrow> string option" where
  "as_text maximum v =
     (case v of JText s \<Rightarrow> if length s < 1 \<or> length s > maximum then None else Some s | _ \<Rightarrow> None)"

definition as_identifier :: "json \<Rightarrow> string option" where
  "as_identifier v = (case as_text 128 v of None \<Rightarrow> None | Some s \<Rightarrow> if opaqueIdPattern s then Some s else None)"

definition as_boolean :: "json \<Rightarrow> bool option" where
  "as_boolean v = (case v of JBool b \<Rightarrow> Some b | _ \<Rightarrow> None)"

section \<open>Canonical text and checksum\<close>

text \<open>\<open>localeCompare\<close> on keys of ASCII letters and digits: case decides only between equal spellings, lower case
  first.\<close>

definition collation_key :: "string \<Rightarrow> nat list \<times> nat list" where
  "collation_key s =
     (let upper = (\<lambda>c. 65 \<le> (of_char c :: nat) \<and> (of_char c :: nat) \<le> 90) in
      (map (\<lambda>c. if upper c then of_char c + 32 else of_char c) s, map (\<lambda>c. if upper c then 1 else 0) s))"

fun canonicalStringify :: "json \<Rightarrow> string" where
  "canonicalStringify (JArray vs) = CHR ''['' # commas (map canonicalStringify vs) @ '']''"
| "canonicalStringify (JObject kvs) =
     CHR ''{'' # commas (map (\<lambda>kv. quote (fst kv) @ CHR '':'' # canonicalStringify (snd kv))
       (sort_key (\<lambda>kv. collation_key (fst kv)) kvs)) @ ''}''"
| "canonicalStringify JNull = stringify JNull"
| "canonicalStringify (JBool b) = stringify (JBool b)"
| "canonicalStringify (JNumber n) = stringify (JNumber n)"
| "canonicalStringify (JUnsafe t) = stringify (JUnsafe t)"
| "canonicalStringify (JText s) = stringify (JText s)"

fun hexadecimal :: "nat \<Rightarrow> string" where
  "hexadecimal n = (if n < 16 then [hex_char n] else hexadecimal (n div 16) @ [hex_char (n mod 16)])"

declare hexadecimal.simps [simp del]

definition padStart :: "nat \<Rightarrow> char \<Rightarrow> string \<Rightarrow> string" where
  "padStart width c s = replicate (width - length s) c @ s"

text \<open>FNV-1a over 64 bits.\<close>

unbundle bit_operations_syntax

definition fnv_step :: "64 word \<Rightarrow> char \<Rightarrow> 64 word" where
  "fnv_step hash c = (hash XOR word_of_nat (of_char c)) * 0x100000001b3"

definition fnv :: "string \<Rightarrow> 64 word" where
  "fnv s = foldl fnv_step 0xcbf29ce484222325 s"

definition checksum :: "json \<Rightarrow> string" where
  "checksum v = padStart 16 (CHR ''0'') (hexadecimal (unat (fnv (canonicalStringify v))))"

section \<open>The signed envelope\<close>

definition signed_value :: "int \<Rightarrow> int \<Rightarrow> json \<Rightarrow> (string \<times> json) list" where
  "signed_value schema version v =
     [(''schemaVersion'', JNumber schema), (''stateVersion'', JNumber version), (''state'', v)]"

definition envelope_text :: "int \<Rightarrow> int \<Rightarrow> json \<Rightarrow> string" where
  "envelope_text schema version v =
     (let signed = signed_value schema version v in
      stringify (JObject (signed @ [(''checksum'', JText (checksum (JObject signed)))])))"

definition open_envelope :: "int \<Rightarrow> string \<Rightarrow> (int \<times> json) option" where
  "open_envelope schema serialized =
     do { parsed \<leftarrow> parse_json serialized;
          envelope \<leftarrow> as_record parsed;
          check (exactKeys envelope [''schemaVersion'', ''stateVersion'', ''state'', ''checksum'']);
          check (field envelope ''schemaVersion'' = Some (JNumber schema));
          version \<leftarrow> field envelope ''stateVersion'' \<bind> as_integer 1 MAX_STATE_VERSION;
          v \<leftarrow> field envelope ''state'';
          check (field envelope ''checksum'' = Some (JText (checksum (JObject (signed_value schema version v)))));
          Some (version, v) }"

end
