(* ===== verification/Codec_Laws.thy ===== *)
theory Codec_Laws
  imports Snapshot_Codec
begin

text \<open>
  The contract of an encoder and its reader, the codecs of single fields, and the envelope: opening a signed text
  gives back what was signed.
\<close>

section \<open>The contract\<close>

locale codec =
  fixes encode :: "'a \<Rightarrow> json" and decode :: "json \<Rightarrow> 'a option" and ok :: "'a \<Rightarrow> bool"
  assumes decode_encode: "decode (encode x) = (if ok x then Some x else None)"
    and decoded_ok: "decode v = Some x \<Longrightarrow> ok x"
    and plain_encode: "ok x \<Longrightarrow> plain (encode x)"
begin

lemma decode_list: "those (map (decode \<circ> encode) xs) = (if list_all ok xs then Some xs else None)"
  by (induction xs) (auto simp: decode_encode)

lemma decoded_list_ok: "those (map decode vs) = Some xs \<Longrightarrow> list_all ok xs"
  by (induction vs arbitrary: xs) (auto split: option.splits dest: decoded_ok)

lemma plain_list: "list_all ok xs \<Longrightarrow> list_all plain (map encode xs)"
  by (auto simp: list_all_iff plain_encode)

end

text \<open>A codec whose values are never written as \<open>null\<close> extends to optional values.\<close>

locale present_codec = codec +
  assumes not_null: "encode x \<noteq> JNull"
begin

lemma decode_nullable: "as_nullable decode (case x of None \<Rightarrow> JNull | Some y \<Rightarrow> encode y) = (if pred_option ok x then Some x else None)"
  by (cases x) (auto simp: as_nullable_def decode_encode not_null)

lemma decoded_nullable_ok: "as_nullable decode v = Some x \<Longrightarrow> pred_option ok x"
  by (auto simp: as_nullable_def split: if_splits dest: decoded_ok)

lemma plain_nullable: "pred_option ok x \<Longrightarrow> plain (case x of None \<Rightarrow> JNull | Some y \<Rightarrow> encode y)"
  by (cases x) (auto simp: plain_encode)

end

section \<open>Reading in sequence\<close>

lemma those_length: "those xs = Some ys \<Longrightarrow> length ys = length xs"
  by (induction xs arbitrary: ys) (auto split: option.splits)

lemma check_bind [simp]: "check b \<bind> f = (if b then f () else None)"
  by (simp add: check_def)

lemma check_Some [simp]: "check b = Some u \<longleftrightarrow> b"
  by (simp add: check_def)

lemma if_bind [simp]: "(if b then Some x else None) \<bind> f = (if b then f x else None)"
  by simp

lemma guarded_Some [simp]: "(if b then x else None) = Some y \<longleftrightarrow> b \<and> x = Some y"
  by simp

lemma exactKeys_same: "map fst kvs = keys \<Longrightarrow> exactKeys kvs keys"
  by (simp add: exactKeys_def)

lemma serialize_nullable: "serializeValue (nullable VNumber x) = (case x of None \<Rightarrow> JNull | Some n \<Rightarrow> JNumber n)"
  by (simp add: nullable_def split: option.split)

lemma as_record_JObject [simp]: "as_record (JObject kvs) = Some kvs"
  by (simp add: as_record_def)

lemma as_array_JArray [simp]: "as_array (JArray vs) = Some vs"
  by (simp add: as_array_def)

section \<open>The codecs of fields\<close>

definition in_range :: "int \<Rightarrow> int \<Rightarrow> int \<Rightarrow> bool" where
  "in_range minimum maximum n \<longleftrightarrow> isSafeInteger n \<and> minimum \<le> n \<and> n \<le> maximum"

interpretation integer_codec: present_codec JNumber "as_integer minimum maximum" "in_range minimum maximum" for minimum maximum
  by unfold_locales (auto simp: as_integer_def in_range_def split: json.splits if_splits)

interpretation boolean_codec: present_codec JBool as_boolean "\<lambda>_. True"
  by unfold_locales (auto simp: as_boolean_def split: json.splits)

interpretation text_codec: present_codec JText "as_text maximum" "\<lambda>s. 1 \<le> length s \<and> length s \<le> maximum" for maximum
  by unfold_locales (auto simp: as_text_def Suc_le_eq split: json.splits if_splits)

interpretation identifier_codec: present_codec JText as_identifier validOpaqueId
  by unfold_locales (auto simp: as_identifier_def as_text_def validOpaqueId_def Suc_le_eq split: json.splits if_splits option.splits)

lemma read_digits_bound: "list_all isDigit ds \<Longrightarrow> read_digits ds < 10 ^ length ds"
proof (induction ds rule: rev_induct)
  case (snoc c ds)
  have "digit_value c \<le> 9" using snoc(2) unfolding isDigit_def digit_value_def Let_def list_all_append by simp linarith
  with snoc show ?case by (simp add: read_digits_snoc)
qed (simp add: read_digits_def)

lemma decimal_length: "length (decimal n) \<le> k \<longleftrightarrow> n < 10 ^ k" if "0 < k"
  using that
proof (induction n arbitrary: k rule: decimal.induct)
  case (1 n)
  show ?case
  proof (cases "n < 10")
    case True
    have "(10 :: nat) ^ 1 \<le> 10 ^ k" using 1(2) by (intro power_increasing) auto
    with True 1(2) show ?thesis by (subst decimal.simps) auto
  next
    case False
    obtain j where k: "k = Suc j" using 1(2) by (cases k) auto
    show ?thesis
    proof (cases "j = 0")
      case True
      with False k show ?thesis by (subst decimal.simps) simp
    next
      case nonzero: False
      have "length (decimal n) \<le> k \<longleftrightarrow> length (decimal (n div 10)) \<le> j" using False by (subst decimal.simps) (simp add: k)
      also have "\<dots> \<longleftrightarrow> n div 10 < 10 ^ j" using 1(1) [OF False, of j] nonzero by simp
      also have "\<dots> \<longleftrightarrow> n < 10 ^ k" by (simp add: k less_mult_imp_div_less div_less_iff_less_mult mult.commute)
      finally show ?thesis .
    qed
  qed
qed

lemma canonical_decimal_printed: "canonical_decimal (decimal_int n) \<longleftrightarrow> isCash n"
proof (cases "n < 0")
  case True
  then show ?thesis by (auto simp: canonical_decimal_def decimal_int_def isDigit_def isCash_def)
next
  case False
  obtain d ds where d: "decimal (nat n) = digit_char d # ds" "d < 10" "d = 0 \<longrightarrow> ds = []" using decimal_head by blast
  have "isCash n \<longleftrightarrow> nat n < 10 ^ 78" using False unfolding isCash_def MAX_MATCH_CASH_def by (simp add: nat_less_iff) linarith
  also have "\<dots> \<longleftrightarrow> length (decimal (nat n)) \<le> 78" by (simp only: decimal_length)
  also have "\<dots> \<longleftrightarrow> canonical_decimal (decimal (nat n))"
    using d decimal_digits [of "nat n"] by (auto simp: canonical_decimal_def)
  finally show ?thesis using False by (simp add: decimal_int_def)
qed

lemma as_decimal_isCash: "as_decimal v = Some n \<Longrightarrow> isCash n"
proof -
  assume "as_decimal v = Some n"
  then obtain s where s: "canonical_decimal s" "n = int (read_digits s)" by (auto simp: as_decimal_def split: json.splits if_splits)
  show ?thesis
  proof (cases "s = ''0''")
    case True
    with s show ?thesis by (simp add: read_digits_def digit_value_def)
  next
    case False
    with s(1) have "list_all isDigit s" "length s \<le> 78" by (auto simp: canonical_decimal_def)
    from read_digits_bound [OF this(1)] power_increasing [OF this(2), of "10 :: nat"] have "read_digits s < 10 ^ 78" by simp
    then have "int (read_digits s) < 10 ^ 78" by (simp flip: of_nat_less_iff)
    with s(2) show ?thesis by (simp add: isCash_def MAX_MATCH_CASH_def)
  qed
qed

interpretation decimal_codec: present_codec "\<lambda>n. JText (decimal_int n)" as_decimal isCash
proof unfold_locales
  fix n
  show "as_decimal (JText (decimal_int n)) = (if isCash n then Some n else None)"
    by (auto simp: as_decimal_def canonical_decimal_printed) (auto simp: isCash_def decimal_int_def)
qed (auto simp: as_decimal_isCash)

lemma as_cash_decimal: "as_cash v = as_decimal v"
  using as_decimal_isCash [of v] by (auto simp: as_cash_def isCash_def split: option.split)

section \<open>The envelope\<close>

lemma open_signed:
  assumes "plain v" "isSafeInteger schema" "in_range 1 MAX_STATE_VERSION version"
  shows "open_envelope schema (envelope_text schema version v) = Some (version, v)"
proof -
  let ?signed = "signed_value schema version v"
  have "plain (JObject (?signed @ [(''checksum'', JText (checksum (JObject ?signed)))]))"
    using assms by (simp add: signed_value_def in_range_def)
  then have "parse_json (envelope_text schema version v) = Some (JObject (?signed @ [(''checksum'', JText (checksum (JObject ?signed)))]))"
    by (simp only: envelope_text_def Let_def parse_stringify)
  then show ?thesis using assms(3)
    by (simp add: open_envelope_def signed_value_def field_def exactKeys_same integer_codec.decode_encode)
qed

text \<open>The contract of a snapshot: a signed text of an encoded state, and its reader.\<close>

locale snapshot_format = codec encode decode ok
  for encode :: "'a \<Rightarrow> json" and decode :: "json \<Rightarrow> 'a option" and ok :: "'a \<Rightarrow> bool" +
  fixes schema :: int and version :: "'a \<Rightarrow> int" and serialize :: "'a \<Rightarrow> string option" and parse :: "string \<Rightarrow> 'a option"
  assumes signs: "serialize x = (if decode (encode x) = None then None else Some (envelope_text schema (version x) (encode x)))"
    and reads: "parse t = (case open_envelope schema t of None \<Rightarrow> None
      | Some (v, j) \<Rightarrow> (case decode j of None \<Rightarrow> None | Some x \<Rightarrow> if version x = v then Some x else None))"
    and version_ok: "ok x \<Longrightarrow> in_range 1 MAX_STATE_VERSION (version x)"
    and schema_safe: "isSafeInteger schema"
begin

lemma saves_iff: "serialize x \<noteq> None \<longleftrightarrow> ok x"
  by (simp add: signs decode_encode)

lemma roundtrip: "serialize x = Some t \<Longrightarrow> parse t = Some x"
  using open_signed [OF plain_encode schema_safe version_ok, of x x]
  by (auto simp: signs reads decode_encode split: if_splits)

lemma parsed_ok: "parse t = Some x \<Longrightarrow> ok x"
  by (auto simp: reads split: option.splits if_splits dest: decoded_ok)

lemma save_parsed: "parse t = Some x \<Longrightarrow> \<exists>t'. serialize x = Some t' \<and> parse t' = Some x"
  using saves_iff [of x] parsed_ok [of t x] roundtrip by auto

end

end
