(* ===== verification/Lobby_Snapshot.thy ===== *)
theory Lobby_Snapshot
  imports Codec_Laws Game_State
begin

text \<open>
  \<open>serialization/snapshot.ts\<close>: the text a lobby game is stored as, and its hydration. The keys of an object are
  written in the order \<open>rules/lifecycle.ts\<close> creates them in; reading does not depend on it.
\<close>

section \<open>Games as plain values\<close>

definition status_text :: "player_status \<Rightarrow> string" where
  "status_text s = (case s of Active \<Rightarrow> ''active'' | Eliminated \<Rightarrow> ''eliminated'')"

definition seatValue :: "player_seat \<Rightarrow> js_value" where
  "seatValue seat = VObject
     [(''seatIndex'', VNumber (ps_seatIndex seat)), (''playerId'', VText (ps_playerId seat)),
      (''status'', VText (status_text (ps_status seat))), (''cash'', VBigint (ps_cash seat)),
      (''position'', VNumber (ps_position seat)), (''inJail'', VBool (ps_inJail seat)),
      (''joinedAtMs'', VNumber (ps_joinedAtMs seat))]"

definition rngValue :: "random_checkpoint \<Rightarrow> js_value" where
  "rngValue rng = VObject
     [(''algorithm'', VText (algorithm rng)), (''state'', VText (rngState rng)),
      (''draws'', VNumber (draws rng)), (''bytesConsumed'', VNumber (bytesConsumed rng))]"

definition gameValue ::
  "string \<Rightarrow> int option \<Rightarrow> int option \<Rightarrow> int option \<Rightarrow> (string \<times> js_value) list \<Rightarrow> 'a game_base_scheme \<Rightarrow> js_value" where
  "gameValue lifecycle startedAtMs cancelledAtMs gameEndAtMs turn g = VObject
     [(''schemaVersion'', VNumber (gm_schemaVersion g)), (''rulesetId'', VText (gm_rulesetId g)),
      (''stateVersion'', VNumber (gm_stateVersion g)), (''gameId'', VText (gm_gameId g)),
      (''creatorId'', VText (gm_creatorId g)), (''lifecycle'', VText lifecycle),
      (''minimumPlayers'', VNumber (gm_minimumPlayers g)), (''maximumPlayers'', VNumber (gm_maximumPlayers g)),
      (''seats'', VArray (map (nullable seatValue) (gm_seats g))), (''bankCash'', VBigint (gm_bankCash g)),
      (''freeParkingPool'', VBigint (gm_freeParkingPool g)), (''housesRemaining'', VNumber (gm_housesRemaining g)),
      (''hotelsRemaining'', VNumber (gm_hotelsRemaining g)), (''createdAtMs'', VNumber (gm_createdAtMs g)),
      (''startedAtMs'', nullable VNumber startedAtMs), (''cancelledAtMs'', nullable VNumber cancelledAtMs),
      (''timeLimitMs'', nullable VNumber (gm_timeLimitMs g)), (''gameEndAtMs'', nullable VNumber gameEndAtMs),
      (''turnTimeoutMs'', VNumber (gm_turnTimeoutMs g)), (''turn'', VObject turn), (''rng'', rngValue (gm_rng g))]"

fun stateValue :: "game_state \<Rightarrow> js_value" where
  "stateValue (WaitingGame g) =
     gameValue ''waitingForPlayers'' None None None [(''phase'', VText ''notStarted'')] g"
| "stateValue (InProgressGame g) =
     gameValue ''inProgress'' (Some (ip_startedAtMs g)) None (ip_gameEndAtMs g)
       [(''phase'', VText ''awaitingRoll''), (''currentSeatIndex'', VNumber (ot_currentSeatIndex (ip_turn g))),
        (''startedAtMs'', VNumber (ot_startedAtMs (ip_turn g))), (''deadlineAtMs'', VNumber (ot_deadlineAtMs (ip_turn g)))] g"
| "stateValue (CancelledGame g) =
     gameValue ''cancelled'' None (Some (cg_cancelledAtMs g)) None [(''phase'', VText ''finished'')] g"
| "stateValue (FinishedGame g) =
     gameValue ''finished'' (Some (fg_startedAtMs g)) None (Some (fg_gameEndAtMs g)) [(''phase'', VText ''finished'')] g"

fun state_version :: "game_state \<Rightarrow> int" where
  "state_version (WaitingGame g) = gm_stateVersion g"
| "state_version (InProgressGame g) = gm_stateVersion g"
| "state_version (CancelledGame g) = gm_stateVersion g"
| "state_version (FinishedGame g) = gm_stateVersion g"

section \<open>Hydration\<close>

definition as_status :: "json \<Rightarrow> player_status option" where
  "as_status v =
     (if v = JText ''active'' then Some Active else if v = JText ''eliminated'' then Some Eliminated else None)"

definition hydrateSeat :: "int \<Rightarrow> json \<Rightarrow> player_seat option option" where
  "hydrateSeat expectedIndex v =
     (if v = JNull then Some None else
      do { seat \<leftarrow> as_record v;
           check (exactKeys seat
             [''seatIndex'', ''playerId'', ''status'', ''cash'', ''position'', ''inJail'', ''joinedAtMs'']);
           index \<leftarrow> field seat ''seatIndex'' \<bind> as_integer 0 3;
           check (index = expectedIndex);
           st \<leftarrow> field seat ''status'' \<bind> as_status;
           jailed \<leftarrow> field seat ''inJail'' \<bind> as_boolean;
           player \<leftarrow> field seat ''playerId'' \<bind> as_identifier;
           money \<leftarrow> field seat ''cash'' \<bind> as_decimal;
           pos \<leftarrow> field seat ''position'' \<bind> as_integer 0 39;
           joined \<leftarrow> field seat ''joinedAtMs'' \<bind> as_natural;
           Some (Some \<lparr>ps_seatIndex = index, ps_playerId = player, ps_status = st, ps_cash = money,
             ps_position = pos, ps_inJail = jailed, ps_joinedAtMs = joined\<rparr>) })"

definition hydrateRng :: "json \<Rightarrow> random_checkpoint option" where
  "hydrateRng v =
     do { rng \<leftarrow> as_record v;
          check (exactKeys rng [''algorithm'', ''state'', ''draws'', ''bytesConsumed'']);
          a \<leftarrow> field rng ''algorithm'' \<bind> as_text 64;
          s \<leftarrow> field rng ''state'' \<bind> as_text 4096;
          d \<leftarrow> field rng ''draws'' \<bind> as_natural;
          b \<leftarrow> field rng ''bytesConsumed'' \<bind> as_natural;
          Some \<lparr>algorithm = a, rngState = s, draws = d, bytesConsumed = b\<rparr> }"

definition hydrateCommon :: "(string \<times> json) list \<Rightarrow> game_base option" where
  "hydrateCommon state =
     do { check (field state ''schemaVersion'' = Some (JNumber GAME_SCHEMA_VERSION));
          check (field state ''rulesetId'' = Some (JText GAMEPLAY_RULESET_ID));
          check (field state ''minimumPlayers'' = Some (JNumber minimumPlayers));
          maximum \<leftarrow> field state ''maximumPlayers'' \<bind> as_integer minimumPlayers maximumPlayers;
          slots \<leftarrow> field state ''seats'' \<bind> as_array;
          check (int (length slots) = maximumPlayers);
          seats \<leftarrow> those (map_index hydrateSeat slots);
          check (\<not> list_ex (\<lambda>seat. seat \<noteq> None) (drop (nat maximum) seats));
          rng \<leftarrow> field state ''rng'' \<bind> hydrateRng;
          version \<leftarrow> field state ''stateVersion'' \<bind> as_integer 1 MAX_STATE_VERSION;
          game \<leftarrow> field state ''gameId'' \<bind> as_identifier;
          creator \<leftarrow> field state ''creatorId'' \<bind> as_identifier;
          bank \<leftarrow> field state ''bankCash'' \<bind> as_decimal;
          pool \<leftarrow> field state ''freeParkingPool'' \<bind> as_decimal;
          homes \<leftarrow> field state ''housesRemaining'' \<bind> as_integer 0 32;
          hotels \<leftarrow> field state ''hotelsRemaining'' \<bind> as_integer 0 12;
          created \<leftarrow> field state ''createdAtMs'' \<bind> as_natural;
          limit \<leftarrow> field state ''timeLimitMs'' \<bind> as_nullable (as_integer 1 86400000);
          timeout \<leftarrow> field state ''turnTimeoutMs'' \<bind> as_integer turnTimeoutMs turnTimeoutMs;
          Some \<lparr>gm_schemaVersion = GAME_SCHEMA_VERSION, gm_rulesetId = GAMEPLAY_RULESET_ID, gm_stateVersion = version,
            gm_gameId = game, gm_creatorId = creator, gm_minimumPlayers = minimumPlayers, gm_maximumPlayers = maximum,
            gm_seats = seats, gm_bankCash = bank, gm_freeParkingPool = pool, gm_housesRemaining = homes,
            gm_hotelsRemaining = hotels, gm_createdAtMs = created, gm_timeLimitMs = limit, gm_turnTimeoutMs = timeout,
            gm_rng = rng\<rparr> }"

text \<open>The fields of each lifecycle, the keys of its turn included.\<close>

definition hydrateLifecycle :: "(string \<times> json) list \<Rightarrow> game_base \<Rightarrow> game_state option" where
  "hydrateLifecycle state g =
     do { turn \<leftarrow> field state ''turn'' \<bind> as_record;
          if field state ''lifecycle'' = Some (JText ''waitingForPlayers'') then
            do { check (exactKeys turn [''phase'']);
                 check (field turn ''phase'' = Some (JText ''notStarted'') \<and> field state ''startedAtMs'' = Some JNull \<and>
                   field state ''cancelledAtMs'' = Some JNull \<and> field state ''gameEndAtMs'' = Some JNull);
                 Some (WaitingGame g) }
          else if field state ''lifecycle'' = Some (JText ''inProgress'') then
            do { check (exactKeys turn [''phase'', ''currentSeatIndex'', ''startedAtMs'', ''deadlineAtMs'']);
                 check (field turn ''phase'' = Some (JText ''awaitingRoll'') \<and> field state ''cancelledAtMs'' = Some JNull);
                 started \<leftarrow> field state ''startedAtMs'' \<bind> as_natural;
                 end' \<leftarrow> field state ''gameEndAtMs'' \<bind> as_nullable as_natural;
                 seat \<leftarrow> field turn ''currentSeatIndex'' \<bind> as_integer 0 3;
                 from' \<leftarrow> field turn ''startedAtMs'' \<bind> as_natural;
                 until' \<leftarrow> field turn ''deadlineAtMs'' \<bind> as_natural;
                 Some (InProgressGame (game_base.extend g (in_progress_game.fields started end'
                   \<lparr>ot_currentSeatIndex = seat, ot_startedAtMs = from', ot_deadlineAtMs = until'\<rparr>))) }
          else if field state ''lifecycle'' = Some (JText ''cancelled'') then
            do { check (exactKeys turn [''phase'']);
                 check (field turn ''phase'' = Some (JText ''finished'') \<and> field state ''startedAtMs'' = Some JNull \<and>
                   field state ''gameEndAtMs'' = Some JNull);
                 cancelled \<leftarrow> field state ''cancelledAtMs'' \<bind> as_natural;
                 Some (CancelledGame (game_base.extend g (cancelled_game.fields cancelled))) }
          else if field state ''lifecycle'' = Some (JText ''finished'') then
            do { check (exactKeys turn [''phase'']);
                 check (field turn ''phase'' = Some (JText ''finished'') \<and> field state ''cancelledAtMs'' = Some JNull);
                 started \<leftarrow> field state ''startedAtMs'' \<bind> as_natural;
                 end' \<leftarrow> field state ''gameEndAtMs'' \<bind> as_natural;
                 Some (FinishedGame (game_base.extend g (finished_game.fields started end'))) }
          else None }"

text \<open>The checks on the hydrated game.\<close>

definition consistent_base :: "'a game_base_scheme \<Rightarrow> bool" where
  "consistent_base g \<longleftrightarrow>
     (let occupied = occupiedSeats g; ids = map ps_playerId occupied in
      1 \<le> length occupied \<and> map_option ps_playerId (seat_at (gm_seats g) 0) = Some (gm_creatorId g) \<and>
      length (remdups ids) = length occupied \<and> 1 \<le> length (activeSeats g) \<and>
      \<not> list_ex (\<lambda>seat. ps_joinedAtMs seat < gm_createdAtMs g) occupied)"

fun consistent :: "game_state \<Rightarrow> bool" where
  "consistent (WaitingGame g) \<longleftrightarrow>
     consistent_base g \<and> \<not> list_ex (\<lambda>seat. ps_status seat \<noteq> Active) (occupiedSeats g)"
| "consistent (InProgressGame g) \<longleftrightarrow>
     consistent_base g \<and> gm_minimumPlayers g \<le> int (length (occupiedSeats g)) \<and> gm_createdAtMs g \<le> ip_startedAtMs g \<and>
     map_option ps_status (seat_at (gm_seats g) (ot_currentSeatIndex (ip_turn g))) = Some Active \<and>
     ip_startedAtMs g \<le> ot_startedAtMs (ip_turn g) \<and> ot_startedAtMs (ip_turn g) \<le> ot_deadlineAtMs (ip_turn g) \<and>
     (case ip_gameEndAtMs g of None \<Rightarrow> True | Some end' \<Rightarrow> ip_startedAtMs g \<le> end')"
| "consistent (CancelledGame g) \<longleftrightarrow> consistent_base g \<and> gm_createdAtMs g \<le> cg_cancelledAtMs g"
| "consistent (FinishedGame g) \<longleftrightarrow>
     consistent_base g \<and> gm_createdAtMs g \<le> fg_startedAtMs g \<and> fg_startedAtMs g \<le> fg_gameEndAtMs g"

definition hydrateState :: "json \<Rightarrow> game_state option" where
  "hydrateState v =
     do { state \<leftarrow> as_record v;
          check (exactKeys state
            [''schemaVersion'', ''rulesetId'', ''stateVersion'', ''gameId'', ''creatorId'', ''lifecycle'',
             ''minimumPlayers'', ''maximumPlayers'', ''seats'', ''bankCash'', ''freeParkingPool'', ''housesRemaining'',
             ''hotelsRemaining'', ''createdAtMs'', ''startedAtMs'', ''cancelledAtMs'', ''timeLimitMs'',
             ''gameEndAtMs'', ''turnTimeoutMs'', ''turn'', ''rng'']);
          common \<leftarrow> hydrateCommon state;
          result \<leftarrow> hydrateLifecycle state common;
          check (consistent result);
          Some result }"

section \<open>Snapshots\<close>

definition serializeSnapshot :: "game_state \<Rightarrow> string option" where
  "serializeSnapshot state =
     (let serialized = serializeValue (stateValue state) in
      do { hydrateState serialized;
           Some (envelope_text GAME_SCHEMA_VERSION (state_version state) serialized) })"

definition parseSnapshot :: "string \<Rightarrow> game_state option" where
  "parseSnapshot serialized =
     do { (version, v) \<leftarrow> open_envelope GAME_SCHEMA_VERSION serialized;
          state \<leftarrow> hydrateState v;
          check (state_version state = version);
          Some state }"

end
