(* ===== verification/Gameplay_Snapshot.thy ===== *)
theory Gameplay_Snapshot
  imports Lobby_Snapshot Aggregate_State
begin

text \<open>
  \<open>serialization/gameplay-snapshot.ts\<close>: the text a gameplay aggregate is stored as, and its hydration. The file
  has its own copies of the readers of \<open>snapshot.ts\<close>; they are those of \<open>Snapshot_Codec\<close>. The keys of an object
  are written in one fixed order, that of \<open>initializeGameplayAggregate\<close> for the aggregate; JavaScript writes them in
  the order of creation, on which reading does not depend.
\<close>

section \<open>Aggregates as plain values\<close>

definition playerValue :: "gameplay_player \<Rightarrow> js_value" where
  "playerValue p = VObject
     [(''seatIndex'', VNumber (seatIndex p)), (''playerId'', VText (playerId p)),
      (''status'', VText (status_text (status p))), (''cash'', VBigint (cash p)),
      (''position'', VNumber (position p)), (''inJail'', VBool (inJail p)),
      (''jailTurns'', VNumber (jailTurns p)), (''consecutiveDoubles'', VNumber (consecutiveDoubles p)),
      (''missedTurns'', VNumber (missedTurns p)), (''getOutOfJailCards'', VNumber (getOutOfJailCards p)),
      (''joinedAtMs'', VNumber (joinedAtMs p))]"

definition propertyValue :: "property_state \<Rightarrow> js_value" where
  "propertyValue p = VObject
     [(''position'', VNumber (propPosition p)), (''ownerSeatIndex'', nullable VNumber (ownerSeatIndex p)),
      (''houses'', VNumber (houses p)), (''hasHotel'', VBool (hasHotel p)), (''mortgaged'', VBool (mortgaged p))]"

fun termsValue :: "trade_terms \<Rightarrow> js_value" where
  "termsValue (MoneyOnly offered requested) = VObject
     [(''tradeType'', VText ''moneyOnly''), (''offeredCash'', VBigint offered), (''requestedCash'', VBigint requested)]"
| "termsValue (PropertyOnly offered requested) = VObject
     [(''tradeType'', VText ''propertyOnly''), (''offeredPropertyPosition'', nullable VNumber offered),
      (''requestedPropertyPosition'', nullable VNumber requested)]"
| "termsValue (MoneyForProperty offered requested) = VObject
     [(''tradeType'', VText ''moneyForProperty''), (''offeredCash'', VBigint offered),
      (''requestedPropertyPosition'', VNumber requested)]"
| "termsValue (PropertyForMoney offered requested) = VObject
     [(''tradeType'', VText ''propertyForMoney''), (''offeredPropertyPosition'', VNumber offered),
      (''requestedCash'', VBigint requested)]"

definition tradeValue :: "pending_trade \<Rightarrow> js_value" where
  "tradeValue t = VObject
     [(''tradeId'', VText (tradeId t)), (''proposerSeatIndex'', VNumber (proposerSeatIndex t)),
      (''receiverSeatIndex'', VNumber (receiverSeatIndex t)), (''terms'', termsValue (tradeTerms t)),
      (''createdAtMs'', VNumber (createdAtMs t)), (''expiresAtMs'', VNumber (expiresAtMs t))]"

definition diceValue :: "dice_roll \<Rightarrow> js_value" where
  "diceValue roll = VObject
     [(''dice'', VArray [VNumber (fst (dice roll)), VNumber (snd (dice roll))]),
      (''total'', VNumber (dice_roll.total roll)), (''isDoubles'', VBool (dice_roll.isDoubles roll))]"

fun phase_text :: "turn_phase \<Rightarrow> string" where
  "phase_text AwaitingRoll = ''awaitingRoll''"
| "phase_text (AwaitingPropertyDecision pos) = ''awaitingPropertyDecision''"
| "phase_text (AwaitingRentPayment pos) = ''awaitingRentPayment''"
| "phase_text (AwaitingCardDraw deck) = ''awaitingCardDraw''"
| "phase_text (AwaitingTaxPayment kind) = ''awaitingTaxPayment''"
| "phase_text AwaitingBankruptcy = ''awaitingBankruptcy''"
| "phase_text AwaitingEndTurn = ''awaitingEndTurn''"

definition deck_text :: "card_deck \<Rightarrow> string" where
  "deck_text deck = (case deck of Chance \<Rightarrow> ''chance'' | CommunityChest \<Rightarrow> ''communityChest'')"

definition tax_text :: "tax_kind \<Rightarrow> string" where
  "tax_text kind = (case kind of Mev \<Rightarrow> ''mev'' | PriorityFee \<Rightarrow> ''priorityFee'')"

fun payload :: "turn_phase \<Rightarrow> (string \<times> js_value) list" where
  "payload (AwaitingPropertyDecision pos) = [(''propertyPosition'', VNumber pos)]"
| "payload (AwaitingRentPayment pos) = [(''propertyPosition'', VNumber pos)]"
| "payload (AwaitingCardDraw deck) = [(''deck'', VText (deck_text deck))]"
| "payload (AwaitingTaxPayment kind) = [(''taxKind'', VText (tax_text kind))]"
| "payload _ = []"

definition turnValue :: "active_turn \<Rightarrow> js_value" where
  "turnValue turn = VObject
     ([(''phase'', VText (phase_text (phase turn))), (''currentSeatIndex'', VNumber (currentSeatIndex turn)),
       (''startedAtMs'', VNumber (turnStartedAtMs turn)), (''deadlineAtMs'', VNumber (deadlineAtMs turn)),
       (''emittedWarnings'', VArray (map VNumber (emittedWarnings turn)))] @ payload (phase turn))"

definition reason_text :: "terminal_end_reason \<Rightarrow> string" where
  "reason_text reason =
     (case reason of LastPlayerStanding \<Rightarrow> ''lastPlayerStanding'' | TimeLimit \<Rightarrow> ''timeLimit''
      | TimeoutForfeit \<Rightarrow> ''timeoutForfeit'')"

definition rankingValue :: "terminal_ranking_entry \<Rightarrow> js_value" where
  "rankingValue e = VObject
     [(''rank'', VNumber (re_rank e)), (''seatIndex'', VNumber (re_seatIndex e)), (''netWorth'', VBigint (re_netWorth e))]"

definition terminalValue :: "terminal_outcome \<Rightarrow> js_value" where
  "terminalValue t = VObject
     [(''reason'', VText (reason_text (to_reason t))), (''winnerSeatIndex'', VNumber (to_winnerSeatIndex t)),
      (''endedAtMs'', VNumber (to_endedAtMs t)), (''ranking'', VArray (map rankingValue (to_ranking t))),
      (''settlementEntitlement'', VObject
         [(''winnerSeatIndex'', VNumber (to_settlementWinnerSeatIndex t)), (''status'', VText ''pending'')])]"

definition aggregateEntries ::
  "string \<Rightarrow> js_value \<Rightarrow> int option \<Rightarrow> js_value \<Rightarrow> 'a gameplay_state_scheme \<Rightarrow> (string \<times> js_value) list" where
  "aggregateEntries lifecycle turn bankrupt terminal s =
     [(''schemaVersion'', VNumber (gs_schemaVersion s)), (''stateVersion'', VNumber (gs_stateVersion s)),
      (''gameId'', VText (gs_gameId s)), (''rulesetId'', VText (gs_rulesetId s)), (''lifecycle'', VText lifecycle),
      (''players'', VArray (map (nullable playerValue) (gs_players s))),
      (''properties'', VArray (map propertyValue (gs_properties s))), (''bankCash'', VBigint (gs_bankCash s)),
      (''freeParkingPool'', VBigint (gs_freeParkingPool s)), (''housesRemaining'', VNumber (gs_housesRemaining s)),
      (''hotelsRemaining'', VNumber (gs_hotelsRemaining s)), (''startedAtMs'', VNumber (gs_startedAtMs s)),
      (''gameEndAtMs'', nullable VNumber (gs_gameEndAtMs s)), (''turn'', turn),
      (''bankruptcyRequiredSeatIndex'', nullable VNumber bankrupt),
      (''activeTrades'', VArray (map tradeValue (gs_activeTrades s))), (''lastDice'', nullable diceValue (gs_lastDice s)),
      (''terminal'', terminal), (''rng'', rngValue (gs_rng s))]"

fun aggregateValue :: "aggregate \<Rightarrow> js_value" where
  "aggregateValue (InProgress s) = VObject
     (aggregateEntries ''inProgress'' (turnValue (as_turn s)) (as_bankruptcyRequiredSeatIndex s) VNull s)"
| "aggregateValue (Finished s) = VObject
     (aggregateEntries ''finished'' (VObject [(''phase'', VText ''finished'')]) None (terminalValue (fs_terminal s)) s)"

fun aggregate_stateVersion :: "aggregate \<Rightarrow> int" where
  "aggregate_stateVersion (InProgress s) = gs_stateVersion s"
| "aggregate_stateVersion (Finished s) = gs_stateVersion s"

section \<open>Hydration\<close>

definition hydratePlayer :: "json \<Rightarrow> gameplay_player option option" where
  "hydratePlayer v =
     (if v = JNull then Some None else
      do { player \<leftarrow> as_record v;
           check (exactKeys player
             [''seatIndex'', ''playerId'', ''status'', ''cash'', ''position'', ''inJail'', ''jailTurns'',
              ''consecutiveDoubles'', ''missedTurns'', ''getOutOfJailCards'', ''joinedAtMs'']);
           st \<leftarrow> field player ''status'' \<bind> as_status;
           seat \<leftarrow> field player ''seatIndex'' \<bind> as_integer 0 3;
           name \<leftarrow> field player ''playerId'' \<bind> as_identifier;
           money \<leftarrow> field player ''cash'' \<bind> as_cash;
           pos \<leftarrow> field player ''position'' \<bind> as_integer 0 39;
           jailed \<leftarrow> field player ''inJail'' \<bind> as_boolean;
           jail \<leftarrow> field player ''jailTurns'' \<bind> as_integer 0 3;
           doubles \<leftarrow> field player ''consecutiveDoubles'' \<bind> as_integer 0 2;
           missed \<leftarrow> field player ''missedTurns'' \<bind> as_integer 0 3;
           cards \<leftarrow> field player ''getOutOfJailCards'' \<bind> as_integer 0 255;
           joined \<leftarrow> field player ''joinedAtMs'' \<bind> as_natural;
           Some (Some \<lparr>seatIndex = seat, cash = money, status = st, position = pos, inJail = jailed, jailTurns = jail,
             consecutiveDoubles = doubles, missedTurns = missed, getOutOfJailCards = cards, playerId = name,
             joinedAtMs = joined\<rparr>) })"

definition hydrateProperty :: "json \<Rightarrow> property_state option" where
  "hydrateProperty v =
     do { property \<leftarrow> as_record v;
          check (exactKeys property [''position'', ''ownerSeatIndex'', ''houses'', ''hasHotel'', ''mortgaged'']);
          pos \<leftarrow> field property ''position'' \<bind> as_integer 0 39;
          owner \<leftarrow> field property ''ownerSeatIndex'' \<bind> as_nullable (as_integer 0 3);
          homes \<leftarrow> field property ''houses'' \<bind> as_integer 0 4;
          hotel \<leftarrow> field property ''hasHotel'' \<bind> as_boolean;
          mort \<leftarrow> field property ''mortgaged'' \<bind> as_boolean;
          Some \<lparr>propPosition = pos, ownerSeatIndex = owner, houses = homes, hasHotel = hotel, mortgaged = mort\<rparr> }"

definition hydrateTerms :: "json \<Rightarrow> trade_terms option" where
  "hydrateTerms v =
     do { terms \<leftarrow> as_record v;
          if field terms ''tradeType'' = Some (JText ''moneyOnly'') then
            do { check (exactKeys terms [''tradeType'', ''offeredCash'', ''requestedCash'']);
                 offered \<leftarrow> field terms ''offeredCash'' \<bind> as_cash;
                 requested \<leftarrow> field terms ''requestedCash'' \<bind> as_cash;
                 Some (MoneyOnly offered requested) }
          else if field terms ''tradeType'' = Some (JText ''propertyOnly'') then
            do { check (exactKeys terms [''tradeType'', ''offeredPropertyPosition'', ''requestedPropertyPosition'']);
                 offered \<leftarrow> field terms ''offeredPropertyPosition'' \<bind> as_nullable (as_integer 0 39);
                 requested \<leftarrow> field terms ''requestedPropertyPosition'' \<bind> as_nullable (as_integer 0 39);
                 Some (PropertyOnly offered requested) }
          else if field terms ''tradeType'' = Some (JText ''moneyForProperty'') then
            do { check (exactKeys terms [''tradeType'', ''offeredCash'', ''requestedPropertyPosition'']);
                 offered \<leftarrow> field terms ''offeredCash'' \<bind> as_cash;
                 requested \<leftarrow> field terms ''requestedPropertyPosition'' \<bind> as_integer 0 39;
                 Some (MoneyForProperty offered requested) }
          else if field terms ''tradeType'' = Some (JText ''propertyForMoney'') then
            do { check (exactKeys terms [''tradeType'', ''offeredPropertyPosition'', ''requestedCash'']);
                 offered \<leftarrow> field terms ''offeredPropertyPosition'' \<bind> as_integer 0 39;
                 requested \<leftarrow> field terms ''requestedCash'' \<bind> as_cash;
                 Some (PropertyForMoney offered requested) }
          else None }"

definition hydrateTrade :: "json \<Rightarrow> pending_trade option" where
  "hydrateTrade v =
     do { trade \<leftarrow> as_record v;
          check (exactKeys trade
            [''tradeId'', ''proposerSeatIndex'', ''receiverSeatIndex'', ''terms'', ''createdAtMs'', ''expiresAtMs'']);
          name \<leftarrow> field trade ''tradeId'' \<bind> as_identifier;
          proposer \<leftarrow> field trade ''proposerSeatIndex'' \<bind> as_integer 0 3;
          receiver \<leftarrow> field trade ''receiverSeatIndex'' \<bind> as_integer 0 3;
          terms \<leftarrow> field trade ''terms'' \<bind> hydrateTerms;
          created \<leftarrow> field trade ''createdAtMs'' \<bind> as_natural;
          expires \<leftarrow> field trade ''expiresAtMs'' \<bind> as_natural;
          Some \<lparr>tradeId = name, proposerSeatIndex = proposer, receiverSeatIndex = receiver, tradeTerms = terms,
            createdAtMs = created, expiresAtMs = expires\<rparr> }"

definition hydrateDice :: "json \<Rightarrow> dice_roll option option" where
  "hydrateDice v =
     (if v = JNull then Some None else
      do { roll \<leftarrow> as_record v;
           check (exactKeys roll [''dice'', ''total'', ''isDoubles'']);
           faces \<leftarrow> field roll ''dice'' \<bind> as_array;
           check (length faces = 2);
           first \<leftarrow> as_integer 1 6 (faces ! 0);
           second \<leftarrow> as_integer 1 6 (faces ! 1);
           sum \<leftarrow> field roll ''total'' \<bind> as_integer 2 12;
           doubles \<leftarrow> field roll ''isDoubles'' \<bind> as_boolean;
           Some (Some \<lparr>dice = (first, second), total = sum, isDoubles = doubles\<rparr>) })"

definition as_deck :: "json \<Rightarrow> card_deck option" where
  "as_deck v =
     (if v = JText ''chance'' then Some Chance else if v = JText ''communityChest'' then Some CommunityChest else None)"

definition as_tax_kind :: "json \<Rightarrow> tax_kind option" where
  "as_tax_kind v = (if v = JText ''mev'' then Some Mev else if v = JText ''priorityFee'' then Some PriorityFee else None)"

definition as_warning :: "json \<Rightarrow> int option" where
  "as_warning v = (if v = JNumber 30 then Some 30 else if v = JNumber 10 then Some 10 else None)"

definition hydratePhase :: "(string \<times> json) list \<Rightarrow> string \<Rightarrow> turn_phase option" where
  "hydratePhase turn name =
     (if name = ''awaitingPropertyDecision'' then
        map_option AwaitingPropertyDecision (field turn ''propertyPosition'' \<bind> as_integer 0 39)
      else if name = ''awaitingRentPayment'' then
        map_option AwaitingRentPayment (field turn ''propertyPosition'' \<bind> as_integer 0 39)
      else if name = ''awaitingCardDraw'' then map_option AwaitingCardDraw (field turn ''deck'' \<bind> as_deck)
      else if name = ''awaitingTaxPayment'' then map_option AwaitingTaxPayment (field turn ''taxKind'' \<bind> as_tax_kind)
      else if name = ''awaitingRoll'' then Some AwaitingRoll
      else if name = ''awaitingBankruptcy'' then Some AwaitingBankruptcy
      else if name = ''awaitingEndTurn'' then Some AwaitingEndTurn
      else None)"

definition payloadKeys :: "string \<Rightarrow> string list" where
  "payloadKeys name =
     (if name = ''awaitingPropertyDecision'' \<or> name = ''awaitingRentPayment'' then [''propertyPosition'']
      else if name = ''awaitingCardDraw'' then [''deck'']
      else if name = ''awaitingTaxPayment'' then [''taxKind'']
      else [])"

definition as_phase_name :: "json \<Rightarrow> string option" where
  "as_phase_name v = (case v of JText s \<Rightarrow> Some s | _ \<Rightarrow> None)"

text \<open>The turn of a game in progress; that of a finished game only has the phase \<open>finished\<close>.\<close>

definition hydrateTurn :: "json \<Rightarrow> active_turn option" where
  "hydrateTurn v =
     do { turn \<leftarrow> as_record v;
          name \<leftarrow> field turn ''phase'' \<bind> as_phase_name;
          check (exactKeys turn
            ([''phase'', ''currentSeatIndex'', ''startedAtMs'', ''deadlineAtMs'', ''emittedWarnings''] @ payloadKeys name));
          warnings \<leftarrow> field turn ''emittedWarnings'' \<bind> as_array;
          seat \<leftarrow> field turn ''currentSeatIndex'' \<bind> as_integer 0 3;
          started \<leftarrow> field turn ''startedAtMs'' \<bind> as_natural;
          deadline \<leftarrow> field turn ''deadlineAtMs'' \<bind> as_natural;
          emitted \<leftarrow> those (map as_warning warnings);
          ph \<leftarrow> hydratePhase turn name;
          Some \<lparr>currentSeatIndex = seat, turnStartedAtMs = started, deadlineAtMs = deadline, emittedWarnings = emitted,
            phase = ph\<rparr> }"

definition hydrateFinishedTurn :: "json \<Rightarrow> unit option" where
  "hydrateFinishedTurn v =
     do { turn \<leftarrow> as_record v;
          check (exactKeys turn [''phase'']);
          check (field turn ''phase'' = Some (JText ''finished'')) }"

definition as_reason :: "json \<Rightarrow> terminal_end_reason option" where
  "as_reason v =
     (if v = JText ''lastPlayerStanding'' then Some LastPlayerStanding else if v = JText ''timeLimit'' then Some TimeLimit
      else if v = JText ''timeoutForfeit'' then Some TimeoutForfeit else None)"

definition hydrateRanking :: "json \<Rightarrow> terminal_ranking_entry option" where
  "hydrateRanking v =
     do { entry \<leftarrow> as_record v;
          check (exactKeys entry [''rank'', ''seatIndex'', ''netWorth'']);
          r \<leftarrow> field entry ''rank'' \<bind> as_integer 1 4;
          seat \<leftarrow> field entry ''seatIndex'' \<bind> as_integer 0 3;
          worth \<leftarrow> field entry ''netWorth'' \<bind> as_cash;
          Some \<lparr>re_rank = r, re_seatIndex = seat, re_netWorth = worth\<rparr> }"

definition hydrateTerminal :: "json \<Rightarrow> terminal_outcome option option" where
  "hydrateTerminal v =
     (if v = JNull then Some None else
      do { terminal \<leftarrow> as_record v;
           check (exactKeys terminal [''reason'', ''winnerSeatIndex'', ''endedAtMs'', ''ranking'', ''settlementEntitlement'']);
           reason \<leftarrow> field terminal ''reason'' \<bind> as_reason;
           entries \<leftarrow> field terminal ''ranking'' \<bind> as_array;
           ranking \<leftarrow> those (map hydrateRanking entries);
           entitlement \<leftarrow> field terminal ''settlementEntitlement'' \<bind> as_record;
           check (exactKeys entitlement [''winnerSeatIndex'', ''status'']);
           check (field entitlement ''status'' = Some (JText ''pending''));
           winner \<leftarrow> field terminal ''winnerSeatIndex'' \<bind> as_integer 0 3;
           ended \<leftarrow> field terminal ''endedAtMs'' \<bind> as_natural;
           settled \<leftarrow> field entitlement ''winnerSeatIndex'' \<bind> as_integer 0 3;
           Some (Some \<lparr>to_reason = reason, to_winnerSeatIndex = winner, to_endedAtMs = ended, to_ranking = ranking,
             to_settlementWinnerSeatIndex = settled\<rparr>) })"

definition hydrateFrame :: "(string \<times> json) list \<Rightarrow> gameplay_state option" where
  "hydrateFrame state =
     do { check (field state ''schemaVersion'' = Some (JNumber GAMEPLAY_AGGREGATE_SCHEMA_VERSION));
          check (field state ''rulesetId'' = Some (JText GAMEPLAY_RULESET_ID));
          slots \<leftarrow> field state ''players'' \<bind> as_array;
          check (int (length slots) = maximumPlayers);
          deeds \<leftarrow> field state ''properties'' \<bind> as_array;
          check (length deeds = 40);
          book \<leftarrow> field state ''activeTrades'' \<bind> as_array;
          version \<leftarrow> field state ''stateVersion'' \<bind> as_integer 1 MAX_STATE_VERSION;
          game \<leftarrow> field state ''gameId'' \<bind> as_identifier;
          players \<leftarrow> those (map hydratePlayer slots);
          properties \<leftarrow> those (map hydrateProperty deeds);
          bank \<leftarrow> field state ''bankCash'' \<bind> as_cash;
          pool \<leftarrow> field state ''freeParkingPool'' \<bind> as_cash;
          homes \<leftarrow> field state ''housesRemaining'' \<bind> as_integer 0 32;
          hotels \<leftarrow> field state ''hotelsRemaining'' \<bind> as_integer 0 12;
          started \<leftarrow> field state ''startedAtMs'' \<bind> as_natural;
          end' \<leftarrow> field state ''gameEndAtMs'' \<bind> as_nullable as_natural;
          trades \<leftarrow> those (map hydrateTrade book);
          roll \<leftarrow> field state ''lastDice'' \<bind> hydrateDice;
          rng \<leftarrow> field state ''rng'' \<bind> hydrateRng;
          Some \<lparr>gs_schemaVersion = GAMEPLAY_AGGREGATE_SCHEMA_VERSION, gs_stateVersion = version, gs_gameId = game,
            gs_rulesetId = GAMEPLAY_RULESET_ID, gs_players = players, gs_properties = properties, gs_bankCash = bank,
            gs_freeParkingPool = pool, gs_housesRemaining = homes, gs_hotelsRemaining = hotels, gs_startedAtMs = started,
            gs_gameEndAtMs = end', gs_activeTrades = trades, gs_lastDice = roll, gs_rng = rng\<rparr> }"

text \<open>Both validators also refuse a terminal outcome in a game in progress and a pending bankruptcy or none in a
  finished one; the aggregates of the model have no such fields.\<close>

definition hydrateGameplayState :: "json \<Rightarrow> aggregate option" where
  "hydrateGameplayState v =
     do { state \<leftarrow> as_record v;
          check (exactKeys state
            [''schemaVersion'', ''stateVersion'', ''gameId'', ''rulesetId'', ''lifecycle'', ''players'', ''properties'',
             ''bankCash'', ''freeParkingPool'', ''housesRemaining'', ''hotelsRemaining'', ''startedAtMs'', ''gameEndAtMs'',
             ''turn'', ''bankruptcyRequiredSeatIndex'', ''activeTrades'', ''lastDice'', ''terminal'', ''rng'']);
          frame \<leftarrow> hydrateFrame state;
          terminal \<leftarrow> field state ''terminal'' \<bind> hydrateTerminal;
          bankrupt \<leftarrow> field state ''bankruptcyRequiredSeatIndex'' \<bind> as_nullable (as_integer 0 3);
          if field state ''lifecycle'' = Some (JText ''inProgress'') then
            do { turn \<leftarrow> field state ''turn'' \<bind> hydrateTurn;
                 check (terminal = None);
                 let candidate = gameplay_state.extend frame (active_state.fields turn bankrupt);
                 check (isValidActiveGameplayAggregateState candidate);
                 Some (InProgress candidate) }
          else if field state ''lifecycle'' = Some (JText ''finished'') then
            do { field state ''turn'' \<bind> hydrateFinishedTurn;
                 check (bankrupt = None);
                 outcome \<leftarrow> terminal;
                 let candidate = gameplay_state.extend frame (finished_state.fields outcome);
                 check (isValidFinishedGameplayAggregateState candidate);
                 Some (Finished candidate) }
          else None }"

section \<open>Snapshots\<close>

definition serializeGameplaySnapshot :: "aggregate \<Rightarrow> string option" where
  "serializeGameplaySnapshot state =
     (let serialized = serializeValue (aggregateValue state) in
      do { hydrateGameplayState serialized;
           Some (envelope_text GAMEPLAY_AGGREGATE_SCHEMA_VERSION (aggregate_stateVersion state) serialized) })"

definition parseGameplaySnapshot :: "string \<Rightarrow> aggregate option" where
  "parseGameplaySnapshot serialized =
     do { (version, v) \<leftarrow> open_envelope GAMEPLAY_AGGREGATE_SCHEMA_VERSION serialized;
          state \<leftarrow> hydrateGameplayState v;
          check (aggregate_stateVersion state = version);
          Some state }"

end
