(* ===== verification/Lobby_Snapshot_Laws.thy ===== *)
theory Lobby_Snapshot_Laws
  imports Lobby_Snapshot
begin

text \<open>
  The lobby snapshot keeps the contract of a codec: hydrating what was serialised gives the same game back exactly
  when the game is well-formed (\<open>saved_lobby\<close>), and only well-formed games are ever hydrated.
\<close>

lemmas field_codes = integer_codec.decode_encode boolean_codec.decode_encode text_codec.decode_encode
  identifier_codec.decode_encode decimal_codec.decode_encode integer_codec.decode_nullable

lemmas decoded_fields = integer_codec.decoded_ok text_codec.decoded_ok identifier_codec.decoded_ok decimal_codec.decoded_ok
  integer_codec.decoded_nullable_ok

section \<open>Seats\<close>

definition saved_seat :: "int \<Rightarrow> player_seat \<Rightarrow> bool" where
  "saved_seat i seat \<longleftrightarrow>
     ps_seatIndex seat = i \<and> in_range 0 3 (ps_seatIndex seat) \<and> validOpaqueId (ps_playerId seat) \<and> isCash (ps_cash seat) \<and>
     in_range 0 39 (ps_position seat) \<and> in_range 0 MAX_SAFE_INTEGER (ps_joinedAtMs seat)"

lemma as_status_text [simp]: "as_status (JText (status_text s)) = Some s"
  by (cases s) (simp_all add: as_status_def status_text_def)

interpretation seat_codec: codec "\<lambda>slot. serializeValue (nullable seatValue slot)" "hydrateSeat i" "pred_option (saved_seat i)" for i
proof (unfold_locales, goal_cases)
  case (1 slot)
  then show ?case
    by (cases slot) (auto simp: hydrateSeat_def nullable_def seatValue_def field_def exactKeys_same field_codes saved_seat_def)
next
  case (2 v slot)
  then show ?case
    by (auto simp: hydrateSeat_def saved_seat_def bind_eq_Some_conv split: if_splits dest: decoded_fields)
next
  case (3 slot)
  then show ?case by (cases slot) (auto simp: nullable_def seatValue_def saved_seat_def in_range_def)
qed

text \<open>A list of slots, each with its index.\<close>

lemma those_seats:
  "those (map_from i hydrateSeat (map (\<lambda>slot. serializeValue (nullable seatValue slot)) slots)) =
     (if every_from i (\<lambda>i. pred_option (saved_seat i)) slots then Some slots else None)"
  by (induction slots arbitrary: i) (auto simp: seat_codec.decode_encode)

lemma hydrated_seats: "those (map_from i hydrateSeat vs) = Some slots \<Longrightarrow> every_from i (\<lambda>i. pred_option (saved_seat i)) slots"
  by (induction vs arbitrary: i slots) (auto split: option.splits dest: seat_codec.decoded_ok)

lemma plain_seats:
  "every_from i (\<lambda>i. pred_option (saved_seat i)) slots \<Longrightarrow> list_all plain (map (\<lambda>slot. serializeValue (nullable seatValue slot)) slots)"
  by (induction slots arbitrary: i) (auto dest: seat_codec.plain_encode)

section \<open>Random checkpoints\<close>

interpretation rng_codec: codec "\<lambda>rng. serializeValue (rngValue rng)" hydrateRng validCheckpoint
proof (unfold_locales, goal_cases)
  case (1 rng)
  then show ?case
    by (auto simp: hydrateRng_def rngValue_def field_def exactKeys_same field_codes validCheckpoint_def in_range_def isSafeInteger_def)
next
  case (2 v rng)
  then show ?case
    by (auto simp: hydrateRng_def validCheckpoint_def bind_eq_Some_conv in_range_def dest!: decoded_fields)
next
  case (3 rng)
  then show ?case by (auto simp: rngValue_def validCheckpoint_def)
qed

section \<open>Games\<close>

definition saved_base :: "'a game_base_scheme \<Rightarrow> bool" where
  "saved_base g \<longleftrightarrow>
     gm_schemaVersion g = GAME_SCHEMA_VERSION \<and> gm_rulesetId g = GAMEPLAY_RULESET_ID \<and> gm_minimumPlayers g = minimumPlayers \<and>
     in_range minimumPlayers maximumPlayers (gm_maximumPlayers g) \<and> int (length (gm_seats g)) = maximumPlayers \<and>
     every_index (\<lambda>i. pred_option (saved_seat i)) (gm_seats g) \<and>
     \<not> list_ex (\<lambda>seat. seat \<noteq> None) (drop (nat (gm_maximumPlayers g)) (gm_seats g)) \<and> validCheckpoint (gm_rng g) \<and>
     in_range 1 MAX_STATE_VERSION (gm_stateVersion g) \<and> validOpaqueId (gm_gameId g) \<and> validOpaqueId (gm_creatorId g) \<and>
     isCash (gm_bankCash g) \<and> isCash (gm_freeParkingPool g) \<and> in_range 0 32 (gm_housesRemaining g) \<and>
     in_range 0 12 (gm_hotelsRemaining g) \<and> in_range 0 MAX_SAFE_INTEGER (gm_createdAtMs g) \<and>
     pred_option (in_range 1 86400000) (gm_timeLimitMs g) \<and> in_range turnTimeoutMs turnTimeoutMs (gm_turnTimeoutMs g)"

abbreviation saved_time :: "int \<Rightarrow> bool" where
  "saved_time \<equiv> in_range 0 MAX_SAFE_INTEGER"

fun saved_lobby :: "game_state \<Rightarrow> bool" where
  "saved_lobby (WaitingGame g) \<longleftrightarrow> saved_base g \<and> consistent (WaitingGame g)"
| "saved_lobby (InProgressGame g) \<longleftrightarrow>
     saved_base g \<and> saved_time (ip_startedAtMs g) \<and> pred_option saved_time (ip_gameEndAtMs g) \<and>
     in_range 0 3 (ot_currentSeatIndex (ip_turn g)) \<and> saved_time (ot_startedAtMs (ip_turn g)) \<and>
     saved_time (ot_deadlineAtMs (ip_turn g)) \<and> consistent (InProgressGame g)"
| "saved_lobby (CancelledGame g) \<longleftrightarrow> saved_base g \<and> saved_time (cg_cancelledAtMs g) \<and> consistent (CancelledGame g)"
| "saved_lobby (FinishedGame g) \<longleftrightarrow>
     saved_base g \<and> saved_time (fg_startedAtMs g) \<and> saved_time (fg_gameEndAtMs g) \<and> consistent (FinishedGame g)"

definition game_entries ::
  "string \<Rightarrow> int option \<Rightarrow> int option \<Rightarrow> int option \<Rightarrow> (string \<times> js_value) list \<Rightarrow> 'a game_base_scheme \<Rightarrow> (string \<times> json) list" where
  "game_entries lifecycle started cancelled end' turn g =
     (case serializeValue (gameValue lifecycle started cancelled end' turn g) of JObject kvs \<Rightarrow> kvs | _ \<Rightarrow> [])"

lemma serialize_game:
  "serializeValue (gameValue lifecycle started cancelled end' turn g) = JObject (game_entries lifecycle started cancelled end' turn g)"
  by (simp add: game_entries_def gameValue_def)

lemma hydrate_common:
  "hydrateCommon (game_entries lifecycle started cancelled end' turn g) =
     (if saved_base g then Some (game_base.truncate g) else None)"
  by (auto simp: hydrateCommon_def game_entries_def gameValue_def field_def field_codes serialize_nullable
      comp_def map_index_def every_index_def those_seats rng_codec.decode_encode saved_base_def game_base.defs)

lemma hydrated_common: "hydrateCommon state = Some g \<Longrightarrow> saved_base g"
  by (auto simp: hydrateCommon_def bind_eq_Some_conv saved_base_def map_index_def every_index_def
      intro: hydrated_seats rng_codec.decoded_ok dest: decoded_fields those_length)

lemma game_fields:
  "field (game_entries lifecycle started cancelled end' turn g) ''lifecycle'' = Some (JText lifecycle)"
  "field (game_entries lifecycle started cancelled end' turn g) ''startedAtMs'' = Some (case started of None \<Rightarrow> JNull | Some n \<Rightarrow> JNumber n)"
  "field (game_entries lifecycle started cancelled end' turn g) ''cancelledAtMs'' = Some (case cancelled of None \<Rightarrow> JNull | Some n \<Rightarrow> JNumber n)"
  "field (game_entries lifecycle started cancelled end' turn g) ''gameEndAtMs'' = Some (case end' of None \<Rightarrow> JNull | Some n \<Rightarrow> JNumber n)"
  "field (game_entries lifecycle started cancelled end' turn g) ''turn'' = Some (serializeValue (VObject turn))"
  by (simp_all add: game_entries_def gameValue_def field_def serialize_nullable)

lemma game_keys:
  "exactKeys (game_entries lifecycle started cancelled end' turn g)
    [''schemaVersion'', ''rulesetId'', ''stateVersion'', ''gameId'', ''creatorId'', ''lifecycle'',
     ''minimumPlayers'', ''maximumPlayers'', ''seats'', ''bankCash'', ''freeParkingPool'', ''housesRemaining'',
     ''hotelsRemaining'', ''createdAtMs'', ''startedAtMs'', ''cancelledAtMs'', ''timeLimitMs'',
     ''gameEndAtMs'', ''turnTimeoutMs'', ''turn'', ''rng'']"
  by (rule exactKeys_same) (simp add: game_entries_def gameValue_def)

text \<open>The variants over their common base.\<close>

lemma widen_waiting: "game_base.truncate (g :: game_base) = g"
  by (cases g) (simp add: game_base.defs)

lemma widen_in_progress:
  "game_base.extend (game_base.truncate g) (in_progress_game.fields (ip_startedAtMs g) (ip_gameEndAtMs g)
    \<lparr>ot_currentSeatIndex = ot_currentSeatIndex (ip_turn g), ot_startedAtMs = ot_startedAtMs (ip_turn g),
     ot_deadlineAtMs = ot_deadlineAtMs (ip_turn g)\<rparr>) = g"
  by (cases g) (simp add: game_base.defs in_progress_game.defs)

lemma widen_cancelled: "game_base.extend (game_base.truncate g) (cancelled_game.fields (cg_cancelledAtMs g)) = g"
  by (cases g) (simp add: game_base.defs cancelled_game.defs)

lemma widen_finished:
  "game_base.extend (game_base.truncate g) (finished_game.fields (fg_startedAtMs g) (fg_gameEndAtMs g)) = g"
  by (cases g) (simp add: game_base.defs finished_game.defs)

lemmas widen_base = widen_waiting widen_in_progress widen_cancelled widen_finished

lemma hydrate_state:
  "hydrateState (serializeValue (stateValue g)) = (if saved_lobby g then Some g else None)"
  by (cases g)
    (auto simp: hydrateState_def serialize_game game_keys hydrate_common hydrateLifecycle_def game_fields
      exactKeys_same field_codes widen_base field_def [of "_ # _"])

lemma extend_base:
  "saved_base (game_base.extend g rest) \<longleftrightarrow> saved_base g"
  "ip_startedAtMs (game_base.extend g (in_progress_game.fields a b c)) = a"
  "ip_gameEndAtMs (game_base.extend g (in_progress_game.fields a b c)) = b"
  "ip_turn (game_base.extend g (in_progress_game.fields a b c)) = c"
  "cg_cancelledAtMs (game_base.extend g (cancelled_game.fields a)) = a"
  "fg_startedAtMs (game_base.extend g (finished_game.fields a e)) = a"
  "fg_gameEndAtMs (game_base.extend g (finished_game.fields a e)) = e"
  by (simp_all add: saved_base_def game_base.defs in_progress_game.defs cancelled_game.defs finished_game.defs)

lemma hydrated_lifecycle:
  "hydrateLifecycle state g = Some s \<Longrightarrow> saved_base g \<Longrightarrow> consistent s \<Longrightarrow> saved_lobby s"
  by (auto simp: hydrateLifecycle_def bind_eq_Some_conv extend_base simp del: consistent.simps
      dest!: decoded_fields split: if_splits)

lemma hydrated_state: "hydrateState v = Some g \<Longrightarrow> saved_lobby g"
  by (auto simp: hydrateState_def bind_eq_Some_conv dest: hydrated_common intro: hydrated_lifecycle)

lemma plain_game:
  assumes "saved_base g" "pred_option saved_time started" "pred_option saved_time cancelled" "pred_option saved_time end'"
    "plain (serializeValue (VObject turn))"
  shows "plain (serializeValue (gameValue lifecycle started cancelled end' turn g))"
proof -
  have "plain (serializeValue (nullable VNumber n))" if "pred_option saved_time n" for n
    using that by (cases n) (simp_all add: nullable_def in_range_def)
  moreover have "plain (serializeValue (nullable VNumber (gm_timeLimitMs g)))"
    using assms(1) by (cases "gm_timeLimitMs g") (simp_all add: nullable_def saved_base_def in_range_def)
  moreover have "list_all plain (map (\<lambda>slot. serializeValue (nullable seatValue slot)) (gm_seats g))"
    using assms(1) by (auto simp: saved_base_def every_index_def intro: plain_seats)
  moreover have "plain (serializeValue (rngValue (gm_rng g)))" using assms(1) by (simp add: saved_base_def rng_codec.plain_encode)
  ultimately show ?thesis using assms
    by (auto simp: gameValue_def saved_base_def in_range_def isSafeInteger_def policy_simps comp_def)
qed

lemma plain_state: "saved_lobby g \<Longrightarrow> plain (serializeValue (stateValue g))"
  by (cases g) (auto intro!: plain_game simp: in_range_def)

interpretation lobby_snapshot: snapshot_format "\<lambda>g. serializeValue (stateValue g)" hydrateState saved_lobby
  GAME_SCHEMA_VERSION state_version serializeSnapshot parseSnapshot
proof (unfold_locales, goal_cases)
  case (4 g)
  then show ?case by (simp add: serializeSnapshot_def Let_def hydrate_state)
next
  case (5 t)
  then show ?case by (auto simp: parseSnapshot_def Option.bind_def check_def split: option.splits)
next
  case (6 g)
  then show ?case by (cases g) (simp_all add: saved_base_def)
qed (simp_all add: hydrate_state hydrated_state plain_state policy_simps isSafeInteger_def MAX_SAFE_INTEGER_def)

end
