(* ===== verification/Gameplay_Snapshot_Laws.thy ===== *)
theory Gameplay_Snapshot_Laws
  imports Gameplay_Snapshot Lobby_Snapshot_Laws
begin

text \<open>
  The gameplay snapshot keeps the contract of a codec: an aggregate is serialised and hydrated back exactly when
  the validators of the aggregate accept it, so no valid aggregate is refused for the range of a field.
\<close>

lemmas field_decodes = field_codes as_cash_decimal field_def exactKeys_same

lemmas hydrate_simps = bind_eq_Some_conv as_cash_decimal

section \<open>Players, properties, trades and dice\<close>

definition saved_player :: "gameplay_player \<Rightarrow> bool" where
  "saved_player p \<longleftrightarrow>
     in_range 0 3 (seatIndex p) \<and> validOpaqueId (playerId p) \<and> isCash (cash p) \<and> in_range 0 39 (position p) \<and>
     in_range 0 3 (jailTurns p) \<and> in_range 0 2 (consecutiveDoubles p) \<and> in_range 0 3 (missedTurns p) \<and>
     in_range 0 255 (getOutOfJailCards p) \<and> saved_time (joinedAtMs p)"

interpretation player_codec: codec "\<lambda>slot. serializeValue (nullable playerValue slot)" hydratePlayer "pred_option saved_player"
proof (unfold_locales, goal_cases)
  case (1 slot)
  then show ?case
    by (cases slot) (auto simp: hydratePlayer_def nullable_def playerValue_def field_decodes saved_player_def)
next
  case (2 v slot)
  then show ?case
    by (auto simp: hydratePlayer_def saved_player_def hydrate_simps split: if_splits dest!: decoded_fields)
next
  case (3 slot)
  then show ?case by (cases slot) (auto simp: nullable_def playerValue_def saved_player_def in_range_def)
qed

definition saved_property :: "property_state \<Rightarrow> bool" where
  "saved_property p \<longleftrightarrow>
     in_range 0 39 (propPosition p) \<and> pred_option (in_range 0 3) (ownerSeatIndex p) \<and> in_range 0 4 (houses p)"

lemma plain_nullable_number: "pred_option (in_range a b) x \<Longrightarrow> plain (serializeValue (nullable VNumber x))"
  by (cases x) (auto simp: nullable_def in_range_def)

interpretation property_codec: codec "\<lambda>p. serializeValue (propertyValue p)" hydrateProperty saved_property
proof (unfold_locales, goal_cases)
  case (1 p)
  then show ?case
    by (auto simp: hydrateProperty_def propertyValue_def serialize_nullable field_decodes saved_property_def)
next
  case (2 v p)
  then show ?case by (auto simp: hydrateProperty_def saved_property_def hydrate_simps dest!: decoded_fields)
next
  case (3 p)
  then show ?case by (auto simp: propertyValue_def saved_property_def in_range_def plain_nullable_number)
qed

fun saved_terms :: "trade_terms \<Rightarrow> bool" where
  "saved_terms (MoneyOnly offered requested) \<longleftrightarrow> isCash offered \<and> isCash requested"
| "saved_terms (PropertyOnly offered requested) \<longleftrightarrow> pred_option (in_range 0 39) offered \<and> pred_option (in_range 0 39) requested"
| "saved_terms (MoneyForProperty offered requested) \<longleftrightarrow> isCash offered \<and> in_range 0 39 requested"
| "saved_terms (PropertyForMoney offered requested) \<longleftrightarrow> in_range 0 39 offered \<and> isCash requested"

interpretation terms_codec: codec "\<lambda>t. serializeValue (termsValue t)" hydrateTerms saved_terms
proof (unfold_locales, goal_cases)
  case (1 t)
  then show ?case by (cases t) (auto simp: hydrateTerms_def serialize_nullable field_decodes)
next
  case (2 v t)
  then show ?case by (auto simp: hydrateTerms_def hydrate_simps split: if_splits dest!: decoded_fields)
next
  case (3 t)
  then show ?case by (cases t) (auto simp: in_range_def plain_nullable_number)
qed

definition saved_trade :: "pending_trade \<Rightarrow> bool" where
  "saved_trade t \<longleftrightarrow>
     validOpaqueId (tradeId t) \<and> in_range 0 3 (proposerSeatIndex t) \<and> in_range 0 3 (receiverSeatIndex t) \<and>
     saved_terms (tradeTerms t) \<and> saved_time (createdAtMs t) \<and> saved_time (expiresAtMs t)"

interpretation trade_codec: codec "\<lambda>t. serializeValue (tradeValue t)" hydrateTrade saved_trade
proof (unfold_locales, goal_cases)
  case (1 t)
  then show ?case by (auto simp: hydrateTrade_def tradeValue_def field_decodes terms_codec.decode_encode saved_trade_def)
next
  case (2 v t)
  then show ?case
    by (auto simp: hydrateTrade_def saved_trade_def hydrate_simps dest!: decoded_fields terms_codec.decoded_ok)
next
  case (3 t)
  then show ?case by (auto simp: tradeValue_def saved_trade_def in_range_def terms_codec.plain_encode)
qed

definition saved_dice :: "dice_roll \<Rightarrow> bool" where
  "saved_dice roll \<longleftrightarrow>
     in_range 1 6 (fst (dice roll)) \<and> in_range 1 6 (snd (dice roll)) \<and> in_range 2 12 (dice_roll.total roll)"

interpretation dice_codec: codec "\<lambda>roll. serializeValue (nullable diceValue roll)" hydrateDice "pred_option saved_dice"
proof (unfold_locales, goal_cases)
  case (1 slot)
  then show ?case
    by (cases slot) (auto simp: hydrateDice_def nullable_def diceValue_def field_decodes saved_dice_def)
next
  case (2 v slot)
  then show ?case by (auto simp: hydrateDice_def saved_dice_def hydrate_simps split: if_splits dest!: decoded_fields)
next
  case (3 slot)
  then show ?case by (cases slot) (auto simp: nullable_def diceValue_def saved_dice_def in_range_def)
qed

section \<open>Turns\<close>

lemma as_deck_text [simp]: "as_deck (JText (deck_text deck)) = Some deck"
  by (cases deck) (simp_all add: as_deck_def deck_text_def)

lemma as_tax_text [simp]: "as_tax_kind (JText (tax_text kind)) = Some kind"
  by (cases kind) (simp_all add: as_tax_kind_def tax_text_def)

lemma as_reason_text [simp]: "as_reason (JText (reason_text reason)) = Some reason"
  by (cases reason) (simp_all add: as_reason_def reason_text_def)

lemma as_phase_name_text [simp]: "as_phase_name (JText s) = Some s"
  by (simp add: as_phase_name_def)

interpretation warning_codec: codec JNumber as_warning "\<lambda>w. w = 30 \<or> w = 10"
  by unfold_locales (auto simp: as_warning_def isSafeInteger_def MAX_SAFE_INTEGER_def split: if_splits)

fun saved_phase :: "turn_phase \<Rightarrow> bool" where
  "saved_phase (AwaitingPropertyDecision pos) \<longleftrightarrow> in_range 0 39 pos"
| "saved_phase (AwaitingRentPayment pos) \<longleftrightarrow> in_range 0 39 pos"
| "saved_phase _ \<longleftrightarrow> True"

definition saved_turn :: "active_turn \<Rightarrow> bool" where
  "saved_turn t \<longleftrightarrow>
     in_range 0 3 (currentSeatIndex t) \<and> saved_time (turnStartedAtMs t) \<and> saved_time (deadlineAtMs t) \<and>
     list_all (\<lambda>w. w = 30 \<or> w = 10) (emittedWarnings t) \<and> saved_phase (phase t)"

lemma those_warnings: "those (map (as_warning \<circ> (serializeValue \<circ> VNumber)) ws) = (if list_all (\<lambda>w. w = 30 \<or> w = 10) ws then Some ws else None)"
  using warning_codec.decode_list [of ws] by (simp add: comp_def)

lemma hydrated_phase: "hydratePhase turn name = Some ph \<Longrightarrow> saved_phase ph"
  by (auto simp: hydratePhase_def bind_eq_Some_conv split: if_splits dest: decoded_fields)

interpretation turn_codec: codec "\<lambda>t. serializeValue (turnValue t)" hydrateTurn saved_turn
proof (unfold_locales, goal_cases)
  case (1 t)
  then show ?case
    by (cases "phase t")
      (auto simp: hydrateTurn_def turnValue_def field_decodes payloadKeys_def hydratePhase_def those_warnings saved_turn_def)
next
  case (2 v t)
  then show ?case
    by (auto simp: hydrateTurn_def saved_turn_def hydrate_simps dest: decoded_fields hydrated_phase warning_codec.decoded_list_ok)
next
  case (3 t)
  then have "list_all plain (map (serializeValue \<circ> VNumber) (emittedWarnings t))"
    by (auto simp: saved_turn_def list_all_iff isSafeInteger_def MAX_SAFE_INTEGER_def)
  with 3 show ?case by (cases "phase t") (auto simp: turnValue_def saved_turn_def in_range_def)
qed

section \<open>Terminal outcomes\<close>

definition saved_entry :: "terminal_ranking_entry \<Rightarrow> bool" where
  "saved_entry e \<longleftrightarrow> in_range 1 4 (re_rank e) \<and> in_range 0 3 (re_seatIndex e) \<and> isCash (re_netWorth e)"

interpretation entry_codec: codec "\<lambda>e. serializeValue (rankingValue e)" hydrateRanking saved_entry
proof (unfold_locales, goal_cases)
  case (1 e)
  then show ?case by (auto simp: hydrateRanking_def rankingValue_def field_decodes saved_entry_def)
next
  case (2 v e)
  then show ?case by (auto simp: hydrateRanking_def saved_entry_def hydrate_simps dest!: decoded_fields)
next
  case (3 e)
  then show ?case by (auto simp: rankingValue_def saved_entry_def in_range_def)
qed

definition saved_outcome :: "terminal_outcome \<Rightarrow> bool" where
  "saved_outcome t \<longleftrightarrow>
     in_range 0 3 (to_winnerSeatIndex t) \<and> saved_time (to_endedAtMs t) \<and> list_all saved_entry (to_ranking t) \<and>
     in_range 0 3 (to_settlementWinnerSeatIndex t)"

interpretation terminal_codec: codec "\<lambda>t. serializeValue (nullable terminalValue t)" hydrateTerminal "pred_option saved_outcome"
proof (unfold_locales, goal_cases)
  case (1 t)
  then show ?case
    using entry_codec.decode_list
    by (cases t) (auto simp: hydrateTerminal_def nullable_def terminalValue_def field_decodes saved_outcome_def comp_def)
next
  case (2 v t)
  then show ?case
    by (auto simp: hydrateTerminal_def saved_outcome_def hydrate_simps split: if_splits dest!: decoded_fields entry_codec.decoded_list_ok)
next
  case (3 t)
  then show ?case
    using entry_codec.plain_list
    by (cases t) (auto simp: nullable_def terminalValue_def saved_outcome_def in_range_def comp_def)
qed

section \<open>Aggregates\<close>

definition saved_frame :: "'a gameplay_state_scheme \<Rightarrow> bool" where
  "saved_frame s \<longleftrightarrow>
     gs_schemaVersion s = GAMEPLAY_AGGREGATE_SCHEMA_VERSION \<and> gs_rulesetId s = GAMEPLAY_RULESET_ID \<and>
     int (length (gs_players s)) = maximumPlayers \<and> length (gs_properties s) = 40 \<and>
     in_range 1 MAX_STATE_VERSION (gs_stateVersion s) \<and> validOpaqueId (gs_gameId s) \<and>
     list_all (pred_option saved_player) (gs_players s) \<and> list_all saved_property (gs_properties s) \<and>
     isCash (gs_bankCash s) \<and> isCash (gs_freeParkingPool s) \<and> in_range 0 32 (gs_housesRemaining s) \<and>
     in_range 0 12 (gs_hotelsRemaining s) \<and> saved_time (gs_startedAtMs s) \<and> pred_option saved_time (gs_gameEndAtMs s) \<and>
     list_all saved_trade (gs_activeTrades s) \<and> pred_option saved_dice (gs_lastDice s) \<and> validCheckpoint (gs_rng s)"

definition frame_entries ::
  "string \<Rightarrow> js_value \<Rightarrow> int option \<Rightarrow> js_value \<Rightarrow> 'a gameplay_state_scheme \<Rightarrow> (string \<times> json) list" where
  "frame_entries lifecycle turn bankrupt terminal s =
     map (\<lambda>kv. (fst kv, serializeValue (snd kv))) (aggregateEntries lifecycle turn bankrupt terminal s)"

lemma hydrate_frame:
  "hydrateFrame (frame_entries lifecycle turn bankrupt terminal s) = (if saved_frame s then Some (gameplay_state.truncate s) else None)"
  using player_codec.decode_list [of "gs_players s"] property_codec.decode_list [of "gs_properties s"]
    trade_codec.decode_list [of "gs_activeTrades s"]
  by (auto simp: hydrateFrame_def frame_entries_def aggregateEntries_def field_decodes serialize_nullable comp_def
      dice_codec.decode_encode rng_codec.decode_encode saved_frame_def gameplay_state.defs)

lemma frame_fields:
  "field (frame_entries lifecycle turn bankrupt terminal s) ''lifecycle'' = Some (JText lifecycle)"
  "field (frame_entries lifecycle turn bankrupt terminal s) ''turn'' = Some (serializeValue turn)"
  "field (frame_entries lifecycle turn bankrupt terminal s) ''bankruptcyRequiredSeatIndex'' =
    Some (case bankrupt of None \<Rightarrow> JNull | Some n \<Rightarrow> JNumber n)"
  "field (frame_entries lifecycle turn bankrupt terminal s) ''terminal'' = Some (serializeValue terminal)"
  by (simp_all add: frame_entries_def aggregateEntries_def field_def serialize_nullable)

lemma frame_keys:
  "exactKeys (frame_entries lifecycle turn bankrupt terminal s)
    [''schemaVersion'', ''stateVersion'', ''gameId'', ''rulesetId'', ''lifecycle'', ''players'', ''properties'',
     ''bankCash'', ''freeParkingPool'', ''housesRemaining'', ''hotelsRemaining'', ''startedAtMs'', ''gameEndAtMs'',
     ''turn'', ''bankruptcyRequiredSeatIndex'', ''activeTrades'', ''lastDice'', ''terminal'', ''rng'']"
  by (rule exactKeys_same) (simp add: frame_entries_def aggregateEntries_def)

section \<open>Valid aggregates are in range\<close>

lemma slot_facts:
  "validSlotsFrom t i ids ps \<Longrightarrow> Some p \<in> set ps \<Longrightarrow> validOpaqueId (playerId p) \<and> saved_time (joinedAtMs p)"
  by (induction t i ids ps rule: validSlotsFrom.induct) (auto simp: in_range_def isSafeInteger_def split: if_splits)

lemma valid_slot_in_range:
  assumes "validStateFrame s" "seat_at (gs_players s) i = Some p"
  shows "saved_player p"
proof -
  have valid: "validBankruptcyPlayer i p" using valid_frame_parts(7) [OF assms(1)] assms(2) by (simp add: slots_satisfy_def)
  have "0 \<le> i" "i < 4" using assms(2) valid_frame_parts(1) [OF assms(1)] by (auto simp: seat_at_Some_iff)
  moreover have "validOpaqueId (playerId p) \<and> saved_time (joinedAtMs p)"
    using assms by (auto simp: validStateFrame_def validGameplayPlayerSlots_def dest!: seat_at_in_set slot_facts)
  ultimately show ?thesis using valid
    by (auto simp: saved_player_def validBankruptcyPlayer_def in_range_def isSafeInteger_def MAX_SAFE_INTEGER_def
        isCash_def policy_simps split: if_splits)
qed

lemma safe_range: "in_range 0 MAX_SAFE_INTEGER n \<longleftrightarrow> isSafeInteger n \<and> 0 \<le> n"
  by (auto simp: in_range_def isSafeInteger_def)

lemma small_range: "a \<le> n \<Longrightarrow> n \<le> b \<Longrightarrow> - 9000000000 \<le> a \<Longrightarrow> b \<le> 9000000000 \<Longrightarrow> in_range a b n"
  by (simp add: in_range_def isSafeInteger_def MAX_SAFE_INTEGER_def)

lemma valid_property_in_range:
  assumes "isValidPropertyStates ps" "p \<in> set ps"
  shows "saved_property p"
proof -
  from assms obtain i where i: "js_index ps i = Some p" "validPropertyAt i p" by (rule valid_properties_member)
  have "0 \<le> i" "i < 40" using i(1) valid_properties_length [OF assms(1)] by (auto simp: js_index_Some_iff)
  moreover have "pred_option (in_range 0 3) (ownerSeatIndex p)"
    using valid_property_owner [OF i(2)] by (cases "ownerSeatIndex p") (simp_all add: small_range)
  ultimately show ?thesis
    using valid_property_position [OF i(2)] valid_property_houses [OF i(2)] by (simp add: saved_property_def small_range)
qed

lemma valid_trade_in_range: "validPendingTrade t \<Longrightarrow> saved_trade t"
  by (cases "tradeTerms t")
    (auto simp: saved_trade_def validPendingTrade_def Let_def isSeatIndex_def isPosition_def in_range_def isSafeInteger_def
      MAX_SAFE_INTEGER_def policy_simps split: if_splits option.splits)

lemma valid_dice_in_range: "validDice roll \<Longrightarrow> saved_dice roll"
  by (auto simp: validDice_def saved_dice_def in_range_def isSafeInteger_def MAX_SAFE_INTEGER_def)

lemma valid_frame_in_range:
  assumes "validStateFrame s" "list_all validPendingTrade (gs_activeTrades s)" "dice_ok (gs_lastDice s)"
  shows "saved_frame s"
proof -
  note parts = valid_frame_parts [OF assms(1)]
  have "list_all (pred_option saved_player) (gs_players s)"
  proof (unfold list_all_iff, intro ballI)
    fix slot
    assume slot: "slot \<in> set (gs_players s)"
    show "pred_option saved_player slot"
    proof (cases slot)
      case (Some p)
      with slot obtain i where "seat_at (gs_players s) i = Some p" by (auto simp: seat_at_member)
      from valid_slot_in_range [OF assms(1) this] Some show ?thesis by simp
    qed simp
  qed
  moreover have "list_all saved_property (gs_properties s)" "list_all saved_trade (gs_activeTrades s)"
    using valid_property_in_range [OF parts(2)] assms(2) valid_trade_in_range by (auto simp: list_all_iff)
  moreover have "pred_option saved_dice (gs_lastDice s)"
    using assms(3) valid_dice_in_range by (cases "gs_lastDice s") (auto simp: dice_ok_def)
  moreover have "length (gs_properties s) = 40" using parts(2) by (simp add: isValidPropertyStates_def length_BOARD_SPACES)
  moreover have "in_range 0 32 (gs_housesRemaining s)" "in_range 0 12 (gs_hotelsRemaining s)"
    using parts(5) by (auto simp: validInventory_iff gs_inventory_def policy_simps intro: small_range)
  moreover have "pred_option saved_time (gs_gameEndAtMs s)"
    using assms(1) by (cases "gs_gameEndAtMs s") (auto simp: validStateFrame_def safe_range)
  ultimately show ?thesis
    using assms(1) parts(3,4,6)
    by (auto simp: saved_frame_def validStateFrame_def safe_range policy_simps intro: small_range)
qed

lemma valid_turn_in_range:
  assumes "isValidActiveGameplayAggregateState s"
  shows "saved_turn (as_turn s)" "pred_option (in_range 0 3) (as_bankruptcyRequiredSeatIndex s)"
proof -
  from assms obtain p where clock: "clock_ok (as_turn s)" and ph: "validPhase s p" "validBankruptcyPending s"
    by (auto simp: isValidActive_iff)
  have "saved_phase (phase (as_turn s))"
    using ph(1) by (cases "phase (as_turn s)")
      (auto simp: validPhase_def validPendingProperty_def js_index_Some_iff length_BOARD_SPACES split: option.splits intro: small_range)
  then show "saved_turn (as_turn s)"
    using clock by (auto simp: saved_turn_def clock_ok_def warning_history_def safe_range policy_simps intro: small_range)
  show "pred_option (in_range 0 3) (as_bankruptcyRequiredSeatIndex s)"
    using clock ph(2)
    by (cases "as_bankruptcyRequiredSeatIndex s") (auto simp: validBankruptcyPending_def clock_ok_def intro: small_range)
qed

lemma valid_outcome_in_range:
  assumes "isValidFinishedGameplayAggregateState s"
  shows "saved_outcome (fs_terminal s)"
proof -
  let ?active = "activePlayers (gs_players s)" and ?t = "fs_terminal s"
  define expected where "expected = sort (List.map_filter (expectedEntry (gs_properties s)) ?active)"
  have frame: "validStateFrame s" and shape: "validTerminalShape s ?t" and len: "length (to_ranking ?t) = length ?active"
    and ranking: "to_ranking ?t = rankingEntries expected"
    using assms by (auto simp: isValidFinishedGameplayAggregateState_def Let_def expected_def split: if_splits)
  note parts = valid_frame_parts [OF frame]
  have "length ?active \<le> 4" using parts(1) length_filter_le [of "\<lambda>x. is_active x \<and> (\<exists>y. x = Some y)" "gs_players s"]
    by (simp add: activePlayers_def map_filter_def filter_map comp_def)
  then have four: "length expected \<le> 4" using len ranking by simp
  have member: "in_range 0 3 (rankedSeat r) \<and> isCash (rankedNetWorth r)" if "r \<in> set expected" for r
  proof -
    from that obtain p where p: "p \<in> set ?active" "expectedEntry (gs_properties s) p = Some r"
      by (auto simp: expected_def map_filter_def split: option.splits)
    then have "saved_player p" using valid_slot_in_range [OF frame] by (auto simp: activePlayers_seats)
    with p(2) show ?thesis
      by (auto simp: expectedEntry_def saved_player_def dest: calculatePlayerNetWorth_Some split: sum.splits option.splits)
  qed
  have "saved_entry (rankingEntries expected ! k)" if "k < length expected" for k
    using that four member [of "expected ! k"] by (auto simp: rankingEntries_def saved_entry_def intro: small_range)
  then have "list_all saved_entry (to_ranking ?t)" by (auto simp: ranking list_all_length)
  moreover have "0 \<le> gs_startedAtMs s" using frame by (simp add: validStateFrame_def)
  ultimately show ?thesis
    using shape by (auto simp: saved_outcome_def validTerminalShape_def safe_range policy_simps intro: small_range)
qed

section \<open>The codec of aggregates\<close>

lemma valid_aggregate_in_range:
  "isValidActiveGameplayAggregateState s \<Longrightarrow> saved_frame s"
  "isValidFinishedGameplayAggregateState f \<Longrightarrow> saved_frame f"
  by (auto simp: isValidActive_iff isValidFinishedGameplayAggregateState_def dice_ok_def intro!: valid_frame_in_range split: if_splits)

lemma widen_active: "gameplay_state.extend (gameplay_state.truncate s) (active_state.fields (as_turn s) (as_bankruptcyRequiredSeatIndex s)) = s"
  by (cases s) (simp add: gameplay_state.defs active_state.defs)

lemma widen_finished_state: "gameplay_state.extend (gameplay_state.truncate s) (finished_state.fields (fs_terminal s)) = s"
  by (cases s) (simp add: gameplay_state.defs finished_state.defs)

lemma serialize_entries: "serializeValue (VObject (aggregateEntries lifecycle turn bankrupt terminal s)) = JObject (frame_entries lifecycle turn bankrupt terminal s)"
  by (simp add: frame_entries_def)

lemma finished_turn: "hydrateFinishedTurn (serializeValue (VObject [(''phase'', VText ''finished'')])) = Some ()"
  by (simp add: hydrateFinishedTurn_def field_def exactKeys_same)

lemma terminal_texts:
  "hydrateTerminal JNull = Some None"
  "hydrateTerminal (serializeValue (terminalValue t)) = (if saved_outcome t then Some (Some t) else None)"
  using terminal_codec.decode_encode [of None] terminal_codec.decode_encode [of "Some t"] by (simp_all add: nullable_def)

lemma hydrate_aggregate:
  "hydrateGameplayState (serializeValue (aggregateValue a)) = (if isValidAggregate a then Some a else None)"
proof (cases a)
  case (InProgress s)
  show ?thesis unfolding InProgress aggregateValue.simps serialize_entries
    using valid_aggregate_in_range(1) [of s] valid_turn_in_range [of s]
    by (auto simp: hydrateGameplayState_def frame_keys frame_fields hydrate_frame terminal_texts
        integer_codec.decode_nullable turn_codec.decode_encode widen_active Let_def)
next
  case (Finished f)
  show ?thesis unfolding Finished aggregateValue.simps serialize_entries
    using valid_aggregate_in_range(2) [of f] valid_outcome_in_range [of f]
    by (auto simp: hydrateGameplayState_def frame_keys frame_fields hydrate_frame terminal_texts finished_turn
        as_nullable_def widen_finished_state Let_def simp del: serializeValue.simps)
qed

lemma hydrated_aggregate: "hydrateGameplayState v = Some a \<Longrightarrow> isValidAggregate a"
  by (auto simp: hydrateGameplayState_def bind_eq_Some_conv Let_def split: if_splits)

lemma plain_optional_number: "pred_option saved_time n \<Longrightarrow> plain (serializeValue (nullable VNumber n))"
  by (rule plain_nullable_number)

lemma plain_entries:
  assumes "saved_frame s" "plain (serializeValue turn)" "pred_option (in_range 0 3) bankrupt" "plain (serializeValue terminal)"
  shows "plain (serializeValue (VObject (aggregateEntries lifecycle turn bankrupt terminal s)))"
  using assms player_codec.plain_list [of "gs_players s"] property_codec.plain_list [of "gs_properties s"]
    trade_codec.plain_list [of "gs_activeTrades s"] dice_codec.plain_encode [of "gs_lastDice s"]
    rng_codec.plain_encode [of "gs_rng s"] plain_nullable_number [of _ _ bankrupt] plain_nullable_number [of _ _ "gs_gameEndAtMs s"]
  by (auto simp: aggregateEntries_def saved_frame_def in_range_def comp_def policy_simps isSafeInteger_def MAX_SAFE_INTEGER_def)

lemma plain_aggregate: "isValidAggregate a \<Longrightarrow> plain (serializeValue (aggregateValue a))"
proof (cases a)
  case (InProgress s)
  assume "isValidAggregate a"
  with InProgress have valid: "isValidActiveGameplayAggregateState s" by simp
  show ?thesis unfolding InProgress aggregateValue.simps
    by (rule plain_entries)
      (use valid_aggregate_in_range(1) [OF valid] valid_turn_in_range [OF valid] turn_codec.plain_encode in simp_all)
next
  case (Finished f)
  assume "isValidAggregate a"
  with Finished have valid: "isValidFinishedGameplayAggregateState f" by simp
  show ?thesis unfolding Finished aggregateValue.simps
    by (rule plain_entries)
      (use valid_aggregate_in_range(2) [OF valid] valid_outcome_in_range [OF valid]
        terminal_codec.plain_encode [of "Some (fs_terminal f)"] in \<open>simp_all add: nullable_def\<close>)
qed

interpretation gameplay_snapshot: snapshot_format "\<lambda>a. serializeValue (aggregateValue a)" hydrateGameplayState isValidAggregate
  GAMEPLAY_AGGREGATE_SCHEMA_VERSION aggregate_stateVersion serializeGameplaySnapshot parseGameplaySnapshot
proof (unfold_locales, goal_cases)
  case (4 a)
  then show ?case by (simp add: serializeGameplaySnapshot_def Let_def hydrate_aggregate)
next
  case (5 t)
  then show ?case by (auto simp: parseGameplaySnapshot_def Option.bind_def check_def split: option.splits)
next
  case (6 a)
  then show ?case
    by (cases a) (use valid_aggregate_in_range in \<open>auto simp: saved_frame_def\<close>)
qed (simp_all only: hydrate_aggregate hydrated_aggregate plain_aggregate, simp add: policy_simps isSafeInteger_def MAX_SAFE_INTEGER_def)

end
