(* ===== verification/Snapshot_Properties.thy ===== *)
theory Snapshot_Properties
  imports Gameplay_Snapshot_Laws Scenario Effects "HOL-Library.Multiset"
begin

text \<open>
  The properties of snapshots: what can be stored, that storing loses nothing, and what the checksum detects.
\<close>

section \<open>The checksum\<close>

lemma odd_multiplier: "(0x100000001b3 :: 64 word) * 14886173955864302971 = 1"
  by simp

lemma fnv_step_inject: "fnv_step g c = fnv_step h d \<longleftrightarrow> g XOR word_of_nat (of_char c) = h XOR word_of_nat (of_char d)"
proof
  assume "fnv_step g c = fnv_step h d"
  then have "fnv_step g c * 14886173955864302971 = fnv_step h d * 14886173955864302971" by simp
  then show "g XOR word_of_nat (of_char c) = h XOR word_of_nat (of_char d)"
    by (simp only: fnv_step_def mult.assoc odd_multiplier mult_1_right)
qed (simp add: fnv_step_def)

lemma xor_twice: "(g :: 64 word) XOR (g XOR x) = x" "((g :: 64 word) XOR x) XOR x = g"
  by (simp flip: xor.assoc) (simp add: xor.assoc)

lemma xor_cancel: "(g :: 64 word) XOR x = g XOR y \<longleftrightarrow> x = y" "(g :: 64 word) XOR x = h XOR x \<longleftrightarrow> g = h"
  using xor_twice by metis+

lemma code_word_inject: "(word_of_nat (of_char c) :: 64 word) = word_of_nat (of_char d) \<longleftrightarrow> c = d"
proof -
  have "unat (word_of_nat (of_char c) :: 64 word) = of_char c" for c
    by (simp add: unat_of_nat mod_less order.strict_trans [OF nat_of_char_less_256])
  then show ?thesis by (metis of_char_eq_iff)
qed

lemma fold_fnv_inject: "foldl fnv_step g s = foldl fnv_step h s \<longleftrightarrow> g = h"
  by (induction s arbitrary: g h) (simp_all add: fnv_step_inject xor_cancel)

lemma fnv_substitution: "fnv (xs @ a # ys) = fnv (xs @ b # ys) \<longleftrightarrow> a = b"
  by (simp add: fnv_def fold_fnv_inject fnv_step_inject xor_cancel code_word_inject)

definition read_hex :: "string \<Rightarrow> nat" where
  "read_hex s = foldl (\<lambda>n c. 16 * n + the (hex_value c)) 0 s"

lemma read_hexadecimal: "read_hex (hexadecimal n) = n"
proof (induction n rule: hexadecimal.induct)
  case (1 n)
  then show ?case by (subst hexadecimal.simps) (auto simp: read_hex_def)
qed

lemma read_padded: "read_hex (padStart k (CHR ''0'') s) = read_hex s"
proof -
  have "foldl (\<lambda>n c. 16 * n + the (hex_value c)) 0 (replicate m (CHR ''0'')) = 0" for m
    by (induction m) (simp_all add: hex_value_def)
  then show ?thesis by (simp add: read_hex_def padStart_def)
qed

lemma checksum_inject: "checksum v = checksum w \<longleftrightarrow> fnv (canonicalStringify v) = fnv (canonicalStringify w)"
  by (metis checksum_def read_hexadecimal read_padded word_unat_eq_iff)

text \<open>C38. The checksum of a snapshot detects every substitution of a single character of the canonical text.\<close>

theorem checksum_detects:
  assumes "canonicalStringify v = xs @ a # ys" "canonicalStringify w = xs @ b # ys" "a \<noteq> b"
  shows "checksum v \<noteq> checksum w"
  using assms by (simp add: checksum_inject fnv_substitution)

theorem checksum_detects_witness: "checksum (JNumber 17) \<noteq> checksum (JNumber 18)"
  by (rule checksum_detects [of _ "''1''" "CHR ''7''" "[]" _ "CHR ''8''"]) code_simp+

section \<open>The order of keys\<close>

text \<open>Reading an object does not depend on the order its keys were written in.\<close>

lemma reading_ignores_order:
  assumes "mset kvs = mset kvs'" "distinct (map fst kvs)"
  shows "field kvs = field kvs'" "exactKeys kvs keys \<longleftrightarrow> exactKeys kvs' keys"
proof -
  from assms have "distinct (map fst kvs')" by (metis mset_eq_imp_distinct_iff mset_map)
  moreover from assms have "set kvs = set kvs'" by (metis set_mset_mset)
  ultimately have "map_of kvs = map_of kvs'" using assms(2) map_of_inject_set by blast
  then show "field kvs = field kvs'" by (simp add: field_def fun_eq_iff)
  from assms(1) have "sort (map fst kvs) = sort (map fst kvs')" by (intro properties_for_sort) simp_all
  then show "exactKeys kvs keys \<longleftrightarrow> exactKeys kvs' keys" by (simp add: exactKeys_def)
qed

section \<open>Gameplay snapshots\<close>

text \<open>C39. An aggregate can be stored exactly when the validators accept it, and then the stored text is read back as the
  same aggregate, down to the last field.\<close>

theorem gameplay_snapshot_roundtrip:
  "(\<exists>text. serializeGameplaySnapshot a = Some text \<and> parseGameplaySnapshot text = Some a) \<longleftrightarrow> isValidAggregate a"
  using gameplay_snapshot.saves_iff [of a] gameplay_snapshot.roundtrip [of a] by auto

text \<open>C40. Whatever text is read as a snapshot, it gives an aggregate the validators accept, which can be stored
  again.\<close>

theorem parsed_snapshot_valid:
  assumes "parseGameplaySnapshot text = Some a"
  shows "isValidAggregate a \<and> (\<exists>text'. serializeGameplaySnapshot a = Some text' \<and> parseGameplaySnapshot text' = Some a)"
  using gameplay_snapshot.parsed_ok [OF assms] gameplay_snapshot.save_parsed [OF assms] by blast

theorem parsed_snapshot_valid_witness:
  "\<exists>text. parseGameplaySnapshot text = Some (InProgress rent_state) \<and> isValidAggregate (InProgress rent_state)"
proof -
  have "isValidAggregate (InProgress rent_state)" using rent_inv by (simp add: game_inv_def)
  then obtain doc where doc: "serializeGameplaySnapshot (InProgress rent_state) = Some doc"
    using gameplay_snapshot.saves_iff by blast
  from gameplay_snapshot.roundtrip [OF doc] have "parseGameplaySnapshot doc = Some (InProgress rent_state)" .
  with parsed_snapshot_valid [OF this] show ?thesis by blast
qed

section \<open>Lobby snapshots\<close>

lemma distinct_occupants:
  assumes "\<And>i j p q. i < length xs \<Longrightarrow> j < length xs \<Longrightarrow> xs ! i = Some p \<Longrightarrow> xs ! j = Some q \<Longrightarrow> f p = f q \<Longrightarrow> i = j"
  shows "distinct (map f (List.map_filter id xs))"
  using assms
proof (induction xs)
  case (Cons x xs)
  have rest: "distinct (map f (List.map_filter id xs))"
    by (rule Cons.IH) (use Cons.prems [of "Suc _" "Suc _"] in auto)
  show ?case
  proof (cases x)
    case (Some p)
    have "f q \<noteq> f p" if "Some q \<in> set xs" for q
      using that Cons.prems [of 0 "Suc _" p q] Some by (auto simp: in_set_conv_nth)
    moreover have "set (List.map_filter id xs) = {q. Some q \<in> set xs}"
      by (induction xs) (auto simp: List.map_filter_simps split: option.splits)
    ultimately show ?thesis using rest Some by (auto simp: List.map_filter_simps id_def dest: sym)
  qed (use rest in \<open>simp add: List.map_filter_simps id_def\<close>)
qed (simp add: List.map_filter_simps)

lemma lobby_base_saved:
  assumes "lobby_ok g"
  shows "saved_base g" "consistent_base g" "\<forall>seat \<in> set (occupiedSeats g). ps_status seat = Active"
proof -
  have seats: "seat_ok g i seat" "0 \<le> i" "i < 4" if "seat_at (gm_seats g) i = Some seat" for i seat
    using assms that by (auto simp: lobby_ok_def slots_satisfy_def seat_at_Some_iff)
  have occupied: "\<exists>i. seat_at (gm_seats g) i = Some seat" if "seat \<in> set (occupiedSeats g)" for seat
    using that by (simp add: occupiedSeats_iff)
  have created: "0 \<le> gm_createdAtMs g" using assms by (simp add: lobby_ok_def)
  have saved: "saved_seat i seat" if "seat_at (gm_seats g) i = Some seat" for i seat
    using seats [OF that] created
    by (auto simp: saved_seat_def seat_ok_def safe_range isCash_small policy_simps intro: small_range)
  have "every_index (\<lambda>i. pred_option (saved_seat i)) (gm_seats g)"
    unfolding every_index_iff
  proof (intro allI impI)
    fix k
    assume "k < length (gm_seats g)"
    then show "pred_option (saved_seat (int k)) (gm_seats g ! k)"
      using saved [of "int k"] by (cases "gm_seats g ! k") (auto simp: seat_at_nat)
  qed
  moreover have "\<not> list_ex (\<lambda>seat. seat \<noteq> None) (drop (nat (gm_maximumPlayers g)) (gm_seats g))"
  proof
    assume "list_ex (\<lambda>seat. seat \<noteq> None) (drop (nat (gm_maximumPlayers g)) (gm_seats g))"
    then obtain k seat where k: "nat (gm_maximumPlayers g) + k < length (gm_seats g)"
      "gm_seats g ! (nat (gm_maximumPlayers g) + k) = Some seat"
      by (auto simp: list_ex_iff in_set_conv_nth less_diff_conv add.commute intro: that)
    then have "seat_at (gm_seats g) (int (nat (gm_maximumPlayers g) + k)) = Some seat" by (simp only: seat_at_nat)
    from seats(1) [OF this] show False by (simp add: seat_ok_def split: if_splits)
  qed
  ultimately show "saved_base g"
    using assms by (auto simp: saved_base_def lobby_ok_def safe_range isCash_small policy_simps intro: small_range split: option.splits)
  show active: "\<forall>seat \<in> set (occupiedSeats g). ps_status seat = Active"
    using occupied seats(1) by (fastforce simp: seat_ok_def)
  have "distinct (map ps_playerId (occupiedSeats g))"
    unfolding occupiedSeats_def
  proof (rule distinct_occupants)
    fix i j p q
    assume "i < length (gm_seats g)" "j < length (gm_seats g)" "gm_seats g ! i = Some p" "gm_seats g ! j = Some q"
      "ps_playerId p = ps_playerId q"
    moreover have "ids_distinct (gm_seats g)" using assms by (simp add: lobby_ok_def)
    ultimately show "i = j" unfolding ids_distinct_def by (metis seat_at_nat of_nat_eq_iff)
  qed
  moreover obtain first where first: "seat_at (gm_seats g) 0 = Some first" using assms by (auto simp: lobby_ok_def)
  then have "first \<in> set (occupiedSeats g)" by (auto simp: occupiedSeats_iff)
  moreover from this active have "first \<in> set (activeSeats g)" by (simp add: activeSeats_def)
  moreover have "gm_createdAtMs g \<le> ps_joinedAtMs seat" if "seat \<in> set (occupiedSeats g)" for seat
    using occupied [OF that] seats(1) by (auto simp: seat_ok_def)
  ultimately show "consistent_base g"
    using assms by (auto simp: consistent_base_def Let_def lobby_ok_def distinct_remdups_id list_ex_iff Suc_le_eq length_greater_0_conv not_less
        dest: length_pos_if_in_set)
qed

lemma started_saved:
  assumes "started_ok g"
  shows "saved_lobby (InProgressGame g)"
proof -
  have lobby: "lobby_ok g" using assms by (simp add: started_ok_def)
  obtain first where first: "seat_at (gm_seats g) 0 = Some first" using lobby by (auto simp: lobby_ok_def)
  then have "ps_status first = Active" using lobby by (auto simp: lobby_ok_def slots_satisfy_def seat_ok_def)
  with first assms lobby_base_saved [OF lobby] show ?thesis
    by (cases "gm_timeLimitMs g")
      (auto simp: started_ok_def lobby_ok_def safe_range policy_simps intro: small_range)
qed

lemma accepted_lobby_saved:
  assumes acc: "transition state command ctx = Accepted t ev" and brand: "branded command ctx"
    and inv: "\<And>g. state = Some g \<Longrightarrow> lifecycle_inv g"
  shows "\<exists>g. t = Some g \<and> saved_lobby g"
proof -
  obtain g where g: "t = Some g" "lifecycle_inv g" by (rule transition_invariant [OF acc brand inv])
  have waiting: "saved_lobby (WaitingGame w)" if "lobby_ok w" for w
    using lobby_base_saved [OF that] by (auto simp: list_ex_iff)
  show ?thesis
  proof (cases g)
    case (CancelledGame c)
    with acc g(1) obtain w where w: "state = Some (WaitingGame w)" "safeEpoch (lc_nowMs ctx)"
      "latestObservedAtMs (WaitingGame w) \<le> lc_nowMs ctx" "cancelGame w ctx = Accepted t ev"
      by (cases rule: transition_Accepted)
        (auto simp: createGame_def joinGame_def leaveGame_def startGame_def Let_def split: if_splits option.splits)
    from w(4) g(1) CancelledGame have "cg_cancelledAtMs c = lc_nowMs ctx" "gm_createdAtMs c = gm_createdAtMs w"
      by (auto simp: cancelGame_def game_base.defs split: if_splits option.splits)
    with latestObserved_joined(1) [OF w(3)] w(2) lobby_base_saved [of c] g CancelledGame show ?thesis
      by (simp add: safeEpoch_def safe_range)
  next
    case (FinishedGame f)
    with acc g(1) show ?thesis
      by (cases rule: transition_Accepted)
        (auto simp: createGame_def joinGame_def leaveGame_def cancelGame_def startGame_def Let_def
          split: if_splits option.splits)
  qed (use g waiting started_saved in simp_all)
qed

text \<open>Every lobby state a command leads to can be stored, and the stored text is read back as the same state.\<close>

theorem lobby_snapshot_roundtrip:
  assumes "transition state command ctx = Accepted (Some g) ev" "branded command ctx" "\<And>g. state = Some g \<Longrightarrow> lifecycle_inv g"
  shows "\<exists>text. serializeSnapshot g = Some text \<and> parseSnapshot text = Some g"
proof -
  have "saved_lobby g" using accepted_lobby_saved [OF assms] by simp
  then obtain doc where "serializeSnapshot g = Some doc" using lobby_snapshot.saves_iff by blast
  with lobby_snapshot.roundtrip show ?thesis by blast
qed

end
