(* ===== verification/Room_State.thy ===== *)
theory Room_State
  imports Gameplay_Snapshot_Laws
begin

text \<open>
  What the parts of the game server share: the state of a room, which is a lobby game or a gameplay aggregate, the
  text it is stored as and restored from (\<open>rooms/game-room.ts\<close>, \<open>persistence/checkpoint-repository.ts\<close>), and the
  identifiers derived from a digest. The digest \<open>createHash("sha256")\<close> is a parameter, the type \<open>digest\<close>.
\<close>

section \<open>The state of a room\<close>

datatype room_state = Lobby game_state | Playing aggregate

fun room_version :: "room_state \<Rightarrow> int" where
  "room_version (Lobby g) = state_version g"
| "room_version (Playing a) = aggregate_stateVersion a"

fun room_game_id :: "room_state \<Rightarrow> string" where
  "room_game_id (Lobby g) = gm_gameId (game_base_of g)"
| "room_game_id (Playing (InProgress s)) = gs_gameId s"
| "room_game_id (Playing (Finished f)) = gs_gameId f"

fun room_rng :: "room_state \<Rightarrow> random_checkpoint" where
  "room_rng (Lobby g) = gm_rng (game_base_of g)"
| "room_rng (Playing (InProgress s)) = gs_rng s"
| "room_rng (Playing (Finished f)) = gs_rng f"

fun startedAt :: "game_state \<Rightarrow> int option" where
  "startedAt (InProgressGame g) = Some (ip_startedAtMs g)"
| "startedAt (FinishedGame g) = Some (fg_startedAtMs g)"
| "startedAt _ = None"

fun cancelledAt :: "game_state \<Rightarrow> int option" where
  "cancelledAt (CancelledGame g) = Some (cg_cancelledAtMs g)"
| "cancelledAt _ = None"

definition or_else :: "'a option \<Rightarrow> 'a \<Rightarrow> 'a" where
  "or_else x y = (case x of None \<Rightarrow> y | Some z \<Rightarrow> z)"

fun committedTimestampFloor :: "room_state \<Rightarrow> int" where
  "committedTimestampFloor (Playing (Finished f)) = max (gs_startedAtMs f) (to_endedAtMs (fs_terminal f))"
| "committedTimestampFloor (Playing (InProgress s)) = max (gs_startedAtMs s) (turnStartedAtMs (as_turn s))"
| "committedTimestampFloor (Lobby g) =
     (let created = gm_createdAtMs (game_base_of g) in
      fold max (map ps_joinedAtMs (occupiedSeats (game_base_of g)))
        (max created (max (or_else (startedAt g) created) (or_else (cancelledAt g) created))))"

section \<open>Checkpoints\<close>

definition serializeRoom :: "room_state \<Rightarrow> string option" where
  "serializeRoom state = (case state of Lobby g \<Rightarrow> serializeSnapshot g | Playing a \<Rightarrow> serializeGameplaySnapshot a)"

definition parseCheckpointState :: "string \<Rightarrow> room_state option" where
  "parseCheckpointState serialized =
     (case parseSnapshot serialized of
        Some g \<Rightarrow> Some (Lobby g)
      | None \<Rightarrow> (case parseGameplaySnapshot serialized of Some a \<Rightarrow> Some (Playing a) | None \<Rightarrow> None))"

definition MAX_CHECKPOINT_BYTES :: nat where
  "MAX_CHECKPOINT_BYTES = 1048576"

text \<open>\<open>Buffer.byteLength\<close>: one byte of UTF-8 for an ASCII character, two for the other code units of a text.\<close>

definition byteLength :: "string \<Rightarrow> nat" where
  "byteLength text = (\<Sum>c \<leftarrow> text. if (of_char c :: nat) < 128 then 1 else 2)"

lemma byteLength_range: "length s \<le> byteLength s" "byteLength s \<le> 2 * length s"
  by (induction s) (auto simp: byteLength_def)

lemma byteLength_pos: "byteLength s = 0 \<longleftrightarrow> s = []"
  using byteLength_range(1) [of s] by (cases s) (auto simp: byteLength_def)

definition validateCheckpointSnapshot :: "string \<Rightarrow> int \<Rightarrow> bool" where
  "validateCheckpointSnapshot serialized version \<longleftrightarrow>
     (let bytes = byteLength serialized in \<not> (bytes = 0 \<or> bytes > MAX_CHECKPOINT_BYTES)) \<and>
     (case parseSnapshot serialized of
        Some g \<Rightarrow> state_version g = version
      | None \<Rightarrow> (case parseGameplaySnapshot serialized of
          Some a \<Rightarrow> aggregate_stateVersion a = version
        | None \<Rightarrow> False))"

lemma validate_iff:
  "validateCheckpointSnapshot serialized version \<longleftrightarrow>
     serialized \<noteq> [] \<and> byteLength serialized \<le> MAX_CHECKPOINT_BYTES \<and>
     (\<exists>state. parseCheckpointState serialized = Some state \<and> room_version state = version)"
  unfolding validateCheckpointSnapshot_def Let_def byteLength_pos
  by (auto simp: parseCheckpointState_def split: option.splits)

lemma short_text_fits: "length serialized \<le> 310000 \<Longrightarrow> byteLength serialized \<le> MAX_CHECKPOINT_BYTES"
  using byteLength_range(2) [of serialized] by (simp add: MAX_CHECKPOINT_BYTES_def)

text \<open>The two formats exclude each other: a lobby snapshot has schema version 2, a gameplay snapshot 1.\<close>

lemma formats_differ: "parseGameplaySnapshot serialized = Some a \<Longrightarrow> parseSnapshot serialized = None"
  by (auto simp: parseSnapshot_def parseGameplaySnapshot_def open_envelope_def GAME_SCHEMA_VERSION_def
      GAMEPLAY_AGGREGATE_SCHEMA_VERSION_def check_def Option.bind_eq_Some_conv bind_eq_None_conv split: if_splits prod.splits option.splits)

lemma checkpoint_roundtrip: "serializeRoom state = Some doc \<Longrightarrow> parseCheckpointState doc = Some state"
  using lobby_snapshot.roundtrip gameplay_snapshot.roundtrip formats_differ
  by (auto simp: serializeRoom_def parseCheckpointState_def split: room_state.splits option.splits)

section \<open>Identifiers from a digest\<close>

type_synonym digest = "string \<Rightarrow> 8 word list"

definition hex_byte :: "8 word \<Rightarrow> string" where
  "hex_byte b = [hex_char (unat b div 16), hex_char (unat b mod 16)]"

definition hex_text :: "8 word list \<Rightarrow> string" where
  "hex_text bytes = concat (map hex_byte bytes)"

unbundle bit_operations_syntax

text \<open>The first sixteen bytes of a digest with the version and variant bits of a UUID.\<close>

definition uuid_bytes :: "8 word list \<Rightarrow> 8 word list" where
  "uuid_bytes hash =
     (let bytes = take 16 hash; bytes = bytes[6 := (bytes ! 6 AND 0x0f) OR 0x50] in
      bytes[8 := (bytes ! 8 AND 0x3f) OR 0x80])"

definition slice_text :: "nat \<Rightarrow> nat \<Rightarrow> string \<Rightarrow> string" where
  "slice_text m n s = take (n - m) (drop m s)"

definition uuid_text :: "8 word list \<Rightarrow> string" where
  "uuid_text bytes =
     (let hex = hex_text bytes in
      slice_text 0 8 hex @ ''-'' @ slice_text 8 12 hex @ ''-'' @ slice_text 12 16 hex @ ''-'' @
      slice_text 16 20 hex @ ''-'' @ drop 20 hex)"

end
