(* ===== verification/Room_Store.thy ===== *)
theory Room_Store
  imports Room_State
begin

text \<open>
  The durable side of a room: \<open>persistence/room-lease.ts\<close>, \<open>persistence/checkpoint-repository.ts\<close>,
  \<open>persistence/command-repository.ts\<close>, \<open>persistence/presence-repository.ts\<close> and \<open>persistence/transaction.ts\<close>.

  The tables of the schema \<open>realtime\<close> are maps from their primary keys to rows, and every statement is a function on
  them. A transaction runs on a copy that replaces the tables when it commits. The lock on the lease row makes the
  transactions of one room serial, so each is one step. The time \<open>now\<close> is the argument of the call or the clock of the
  database when the call gives none. The digest is a parameter; so are the checks of the wire schemas on an
  acknowledgement and an event (\<open>contract_checks\<close>) and what the commit hooks do (\<open>commit_hooks\<close>).
\<close>

section \<open>Rows and tables\<close>

datatype store_error =
    RoomLeaseUnavailable | CheckpointConflict | CorruptCheckpoint | CommandCommitConflict | CommandIdempotencyConflict
  | ContractViolation | DatabaseFailure

record room_lease =
  ls_roomId :: string
  ls_gameId :: string
  ls_instanceId :: string
  ls_fencingToken :: int
  ls_leaseUntil :: int

record lease_row =
  lr_gameId :: string
  lr_instanceId :: string
  lr_leaseUntil :: int
  lr_fencingToken :: int

record checkpoint_row =
  ck_gameId :: string
  ck_schemaVersion :: int
  ck_stateVersion :: int
  ck_fencingToken :: int
  ck_checksum :: "8 word list"
  ck_serialized :: string
  ck_updatedAt :: int

record presence_row =
  pr_gameId :: string
  pr_fencingToken :: int
  pr_allOfflineAt :: "int option"
  pr_abortDeadlineAt :: "int option"

record acknowledgement =
  ak_requestId :: string
  ak_stateVersion :: int
  ak_eventIds :: "string list"

record command_row =
  cw_expectedStateVersion :: int
  cw_committedStateVersion :: int
  cw_requestHash :: string
  cw_acknowledgement :: acknowledgement

record 'e event_envelope =
  ee_eventId :: string
  ee_stateVersion :: int
  ee_occurredAtMs :: int
  ee_payload :: 'e

record proof_row =
  tp_roomId :: string
  tp_stateVersion :: int
  tp_checksum :: "8 word list"
  tp_winnerPlayerId :: string
  tp_endReason :: terminal_end_reason

datatype finalization_action = FinalizeLeave | FinalizeCancel

record session_finalization =
  sf_action :: finalization_action
  sf_idempotencyKey :: string
  sf_reservationId :: string

type_synonym command_key = "string \<times> string \<times> string"

record 'e database =
  db_leases :: "string \<Rightarrow> lease_row option"
  db_checkpoints :: "string \<Rightarrow> checkpoint_row option"
  db_presence :: "string \<Rightarrow> presence_row option"
  db_commands :: "command_key \<Rightarrow> command_row option"
  db_events :: "string \<Rightarrow> (string \<times> 'e event_envelope) option"
  db_proofs :: "string \<Rightarrow> proof_row option"
  db_finalizations :: "command_key \<Rightarrow> session_finalization option"

text \<open>A transaction answers an error, and then nothing has changed, or a value and the new tables.\<close>

type_synonym ('e, 'a) transaction = "'e database \<Rightarrow> store_error + ('a \<times> 'e database)"

definition withTransaction :: "'e database \<Rightarrow> ('e, 'a) transaction \<Rightarrow> (store_error + 'a) \<times> 'e database" where
  "withTransaction db work = (case work db of Inl e \<Rightarrow> (Inl e, db) | Inr (x, db') \<Rightarrow> (Inr x, db'))"

section \<open>Leases\<close>

record lease_repository =
  rp_ownerId :: string
  rp_leaseDurationMs :: int

definition lease_of :: "string \<Rightarrow> lease_row \<Rightarrow> room_lease" where
  "lease_of room row =
     \<lparr>ls_roomId = room, ls_gameId = lr_gameId row, ls_instanceId = lr_instanceId row,
      ls_fencingToken = lr_fencingToken row, ls_leaseUntil = lr_leaseUntil row\<rparr>"

text \<open>The new token fences the stored checkpoint and the presence of the room off the previous owner.\<close>

definition fenceRoom :: "string \<Rightarrow> int \<Rightarrow> int \<Rightarrow> 'e database \<Rightarrow> 'e database" where
  "fenceRoom room token previousUntil db =
     db\<lparr>db_checkpoints := (db_checkpoints db)(room := map_option (\<lambda>row. row\<lparr>ck_fencingToken := token\<rparr>) (db_checkpoints db room)),
        db_presence := (db_presence db)(room := map_option (\<lambda>row. row\<lparr>pr_fencingToken := token,
          pr_allOfflineAt := Some (or_else (pr_allOfflineAt row) previousUntil),
          pr_abortDeadlineAt := Some (or_else (pr_abortDeadlineAt row) (previousUntil + 120000))\<rparr>) (db_presence db room))\<rparr>"

definition acquire :: "lease_repository \<Rightarrow> string \<Rightarrow> string \<Rightarrow> int \<Rightarrow> ('e, room_lease) transaction" where
  "acquire repo room game now db =
     (let leaseUntil = now + rp_leaseDurationMs repo in
      case db_leases db room of
        None \<Rightarrow>
          (let row = \<lparr>lr_gameId = game, lr_instanceId = rp_ownerId repo, lr_leaseUntil = leaseUntil, lr_fencingToken = 1\<rparr> in
           Inr (lease_of room row, db\<lparr>db_leases := (db_leases db)(room := Some row)\<rparr>))
      | Some current \<Rightarrow>
          if lr_gameId current \<noteq> game then Inl RoomLeaseUnavailable
          else if lr_instanceId current \<noteq> rp_ownerId repo \<and> lr_leaseUntil current > now then Inl RoomLeaseUnavailable
          else (let continuing = lr_instanceId current = rp_ownerId repo \<and> lr_leaseUntil current > now;
                    token = (if continuing then lr_fencingToken current else lr_fencingToken current + 1);
                    row = \<lparr>lr_gameId = game, lr_instanceId = rp_ownerId repo, lr_leaseUntil = leaseUntil, lr_fencingToken = token\<rparr>;
                    fenced = (if token \<noteq> lr_fencingToken current then fenceRoom room token (lr_leaseUntil current) db else db) in
            Inr (lease_of room row, fenced\<lparr>db_leases := (db_leases fenced)(room := Some row)\<rparr>)))"

definition matches_lease :: "room_lease \<Rightarrow> lease_row \<Rightarrow> bool" where
  "matches_lease lease row \<longleftrightarrow>
     lr_gameId row = ls_gameId lease \<and> lr_instanceId row = ls_instanceId lease \<and> lr_fencingToken row = ls_fencingToken lease"

definition assertOwned :: "'e database \<Rightarrow> room_lease \<Rightarrow> int \<Rightarrow> bool" where
  "assertOwned db lease now \<longleftrightarrow>
     (case db_leases db (ls_roomId lease) of
        None \<Rightarrow> False | Some row \<Rightarrow> matches_lease lease row \<and> lr_leaseUntil row > now)"

definition renew :: "lease_repository \<Rightarrow> room_lease \<Rightarrow> int \<Rightarrow> ('e, room_lease) transaction" where
  "renew repo lease now db =
     (if \<not> assertOwned db lease now then Inl RoomLeaseUnavailable
      else (let leaseUntil = now + rp_leaseDurationMs repo in
        Inr (lease\<lparr>ls_leaseUntil := leaseUntil\<rparr>,
          db\<lparr>db_leases := (db_leases db)(ls_roomId lease :=
            map_option (\<lambda>row. if matches_lease lease row then row\<lparr>lr_leaseUntil := leaseUntil\<rparr> else row)
              (db_leases db (ls_roomId lease)))\<rparr>)))"

definition release :: "room_lease \<Rightarrow> int \<Rightarrow> ('e, bool) transaction" where
  "release lease now db =
     (if assertOwned db lease now
      then Inr (True, db\<lparr>db_leases := (db_leases db)(ls_roomId lease :=
        map_option (\<lambda>row. row\<lparr>lr_leaseUntil := now\<rparr>) (db_leases db (ls_roomId lease)))\<rparr>)
      else Inr (False, db))"

section \<open>Presence\<close>

definition markConnected :: "room_lease \<Rightarrow> int \<Rightarrow> ('e, int option) transaction" where
  "markConnected lease now db =
     (if \<not> assertOwned db lease now then Inl RoomLeaseUnavailable
      else Inr (case db_presence db (ls_roomId lease) of None \<Rightarrow> None | Some row \<Rightarrow> pr_allOfflineAt row,
        db\<lparr>db_presence := (db_presence db)(ls_roomId lease := Some
          \<lparr>pr_gameId = ls_gameId lease, pr_fencingToken = ls_fencingToken lease, pr_allOfflineAt = None,
           pr_abortDeadlineAt = None\<rparr>)\<rparr>))"

definition markAllOffline :: "room_lease \<Rightarrow> int \<Rightarrow> ('e, int) transaction" where
  "markAllOffline lease now db =
     (if \<not> assertOwned db lease now then Inl RoomLeaseUnavailable
      else if \<not> isSafeInteger (now + 120000) then Inl DatabaseFailure
      else (let previous = db_presence db (ls_roomId lease);
                deadline = (case previous of None \<Rightarrow> now + 120000 | Some row \<Rightarrow> or_else (pr_abortDeadlineAt row) (now + 120000));
                offline = (case previous of None \<Rightarrow> now | Some row \<Rightarrow> or_else (pr_allOfflineAt row) now) in
        Inr (deadline, db\<lparr>db_presence := (db_presence db)(ls_roomId lease := Some
          \<lparr>pr_gameId = ls_gameId lease, pr_fencingToken = ls_fencingToken lease, pr_allOfflineAt = Some offline,
           pr_abortDeadlineAt = Some deadline\<rparr>)\<rparr>)))"

section \<open>Checkpoints\<close>

definition CHECKPOINT_SCHEMA_VERSION :: int where
  "CHECKPOINT_SCHEMA_VERSION = 1"

record room_checkpoint =
  rc_checksum :: string
  rc_fencingToken :: int
  rc_schemaVersion :: int
  rc_serializedState :: string
  rc_stateVersion :: int
  rc_updatedAt :: int

definition parseRow :: "digest \<Rightarrow> checkpoint_row \<Rightarrow> store_error + room_checkpoint" where
  "parseRow sha256 row =
     (if ck_schemaVersion row \<noteq> CHECKPOINT_SCHEMA_VERSION then Inl CorruptCheckpoint
      else if \<not> isSafeInteger (ck_stateVersion row) \<or> ck_stateVersion row < 0 then Inl CorruptCheckpoint
      else if \<not> validateCheckpointSnapshot (ck_serialized row) (ck_stateVersion row) then Inl CorruptCheckpoint
      else if ck_checksum row \<noteq> sha256 (ck_serialized row) then Inl CorruptCheckpoint
      else Inr \<lparr>rc_checksum = hex_text (sha256 (ck_serialized row)), rc_fencingToken = ck_fencingToken row,
        rc_schemaVersion = ck_schemaVersion row, rc_serializedState = ck_serialized row,
        rc_stateVersion = ck_stateVersion row, rc_updatedAt = ck_updatedAt row\<rparr>)"

definition checkpoint_row_for :: "digest \<Rightarrow> room_lease \<Rightarrow> int \<Rightarrow> string \<Rightarrow> int \<Rightarrow> checkpoint_row" where
  "checkpoint_row_for sha256 lease version serialized now =
     \<lparr>ck_gameId = ls_gameId lease, ck_schemaVersion = CHECKPOINT_SCHEMA_VERSION, ck_stateVersion = version,
      ck_fencingToken = ls_fencingToken lease, ck_checksum = sha256 serialized, ck_serialized = serialized,
      ck_updatedAt = now\<rparr>"

definition put_checkpoint :: "string \<Rightarrow> checkpoint_row \<Rightarrow> 'e database \<Rightarrow> 'e database" where
  "put_checkpoint room row db = db\<lparr>db_checkpoints := (db_checkpoints db)(room := Some row)\<rparr>"

definition answer_row :: "digest \<Rightarrow> checkpoint_row \<Rightarrow> 'e database \<Rightarrow> store_error + (room_checkpoint \<times> 'e database)" where
  "answer_row sha256 row db = (case parseRow sha256 row of Inl e \<Rightarrow> Inl e | Inr checkpoint \<Rightarrow> Inr (checkpoint, db))"

definition initialize :: "digest \<Rightarrow> room_lease \<Rightarrow> int \<Rightarrow> string \<Rightarrow> int \<Rightarrow> ('e, room_checkpoint) transaction" where
  "initialize sha256 lease version serialized now db =
     (if \<not> validateCheckpointSnapshot serialized version \<or> \<not> isSafeInteger version \<or> version < 0 then Inl CorruptCheckpoint
      else if \<not> assertOwned db lease now then Inl RoomLeaseUnavailable
      else case db_checkpoints db (ls_roomId lease) of
        Some _ \<Rightarrow> Inl CheckpointConflict
      | None \<Rightarrow>
          (let row = checkpoint_row_for sha256 lease version serialized now in
           answer_row sha256 row (put_checkpoint (ls_roomId lease) row db)))"

text \<open>The row a lease of the room may write, if any.\<close>

definition fenced_row :: "'e database \<Rightarrow> room_lease \<Rightarrow> checkpoint_row option" where
  "fenced_row db lease =
     (case db_checkpoints db (ls_roomId lease) of
        None \<Rightarrow> None
      | Some row \<Rightarrow> if ck_gameId row = ls_gameId lease \<and> ck_fencingToken row = ls_fencingToken lease then Some row else None)"

definition save :: "digest \<Rightarrow> room_lease \<Rightarrow> int \<Rightarrow> int \<Rightarrow> string \<Rightarrow> int \<Rightarrow> ('e, room_checkpoint) transaction" where
  "save sha256 lease expected version serialized now db =
     (if \<not> validateCheckpointSnapshot serialized version then Inl CorruptCheckpoint
      else if \<not> isSafeInteger expected \<or> expected < 0 \<or> \<not> isSafeInteger version \<or> version \<le> expected
      then Inl CheckpointConflict
      else if \<not> assertOwned db lease now then Inl RoomLeaseUnavailable
      else case fenced_row db lease of
        None \<Rightarrow> Inl CheckpointConflict
      | Some row \<Rightarrow>
          if ck_stateVersion row \<noteq> expected then Inl CheckpointConflict
          else (let row = checkpoint_row_for sha256 lease version serialized now in
            answer_row sha256 row (put_checkpoint (ls_roomId lease) row db)))"

definition load :: "digest \<Rightarrow> room_lease \<Rightarrow> int \<Rightarrow> ('e, room_checkpoint option) transaction" where
  "load sha256 lease now db =
     (if \<not> assertOwned db lease now then Inl RoomLeaseUnavailable
      else case fenced_row db lease of
        None \<Rightarrow> Inr (None, db)
      | Some row \<Rightarrow> (case parseRow sha256 row of Inl e \<Rightarrow> Inl e | Inr checkpoint \<Rightarrow> Inr (Some checkpoint, db)))"

end
