(* ===== verification/Command_Store.thy ===== *)
theory Command_Store
  imports Room_Store
begin

text \<open>
  \<open>persistence/command-repository.ts\<close>: the commit of one accepted command, with its events, the new checkpoint and the
  proofs it leaves, in one fenced transaction, and the replay of a command that was committed before.
\<close>

section \<open>Commands and commits\<close>

text \<open>A command as the room persists it: the parsed message, with the fields the repository reads.\<close>

record persisted_command =
  pc_requestId :: string
  pc_expectedStateVersion :: int
  pc_type :: string
  pc_json :: json

record 'e commit_value =
  cv_acknowledgement :: acknowledgement
  cv_events :: "'e event_envelope list"
  cv_playerId :: string
  cv_command :: persisted_command
  cv_serializedState :: string
  cv_stateVersion :: int
  cv_terminalProof :: "(terminal_end_reason \<times> string) option"
  cv_sessionFinalization :: "session_finalization option"

record commit_result =
  cr_acknowledgement :: acknowledgement
  cr_duplicate :: bool

record 'e contract_checks =
  validAcknowledgement :: "acknowledgement \<Rightarrow> bool"
  validEvent :: "'e event_envelope \<Rightarrow> bool"
  validIdempotencyKey :: "string \<Rightarrow> bool"

text \<open>A hook that throws before the commit rolls it back, one that throws after it does not.\<close>

record commit_hooks =
  hk_beforeCommitThrows :: bool
  hk_afterCommitThrows :: bool

definition requestHash :: "digest \<Rightarrow> persisted_command \<Rightarrow> string" where
  "requestHash sha256 command = hex_text (sha256 (canonicalStringify (pc_json command)))"

definition expectedFinalization :: "persisted_command \<Rightarrow> finalization_action option" where
  "expectedFinalization command =
     (if pc_type command = ''leaveGame'' then Some FinalizeLeave
      else if pc_type command = ''cancelGame'' then Some FinalizeCancel else None)"

definition command_key_of :: "room_lease \<Rightarrow> string \<Rightarrow> persisted_command \<Rightarrow> command_key" where
  "command_key_of lease player command = (ls_roomId lease, player, pc_requestId command)"

text \<open>The answer of a stored command, if its content is the same.\<close>

definition replayStored :: "digest \<Rightarrow> persisted_command \<Rightarrow> command_row \<Rightarrow> store_error + acknowledgement" where
  "replayStored sha256 command row =
     (if cw_requestHash row \<noteq> requestHash sha256 command then Inl CommandIdempotencyConflict
      else Inr (cw_acknowledgement row))"

definition findReplay ::
  "digest \<Rightarrow> room_lease \<Rightarrow> string \<Rightarrow> persisted_command \<Rightarrow> int \<Rightarrow> ('e, acknowledgement option) transaction" where
  "findReplay sha256 lease player command now db =
     (if \<not> validOpaqueId player then Inl ContractViolation
      else if \<not> assertOwned db lease now then Inl RoomLeaseUnavailable
      else case db_commands db (command_key_of lease player command) of
        None \<Rightarrow> Inr (None, db)
      | Some row \<Rightarrow> (case replayStored sha256 command row of Inl e \<Rightarrow> Inl e | Inr ack \<Rightarrow> Inr (Some ack, db)))"

section \<open>The checks before the transaction\<close>

definition finalizationFits :: "persisted_command \<Rightarrow> session_finalization option \<Rightarrow> bool" where
  "finalizationFits command finalization \<longleftrightarrow>
     \<not> (expectedFinalization command \<noteq> None \<and> finalization = None) \<and>
     (case finalization of None \<Rightarrow> True | Some f \<Rightarrow> expectedFinalization command = Some (sf_action f))"

definition commitConsistent :: "'e commit_value \<Rightarrow> bool" where
  "commitConsistent v \<longleftrightarrow>
     (let ack = cv_acknowledgement v; events = cv_events v; command = cv_command v in
      cv_stateVersion v = pc_expectedStateVersion command + 1 \<and>
      ak_requestId ack = pc_requestId command \<and> ak_stateVersion ack = cv_stateVersion v \<and>
      \<not> list_ex (\<lambda>event. ee_stateVersion event \<noteq> cv_stateVersion v) events \<and>
      ak_eventIds ack = map ee_eventId events)"

definition validCommit :: "'e contract_checks \<Rightarrow> 'e commit_value \<Rightarrow> store_error option" where
  "validCommit checks v =
     (if \<not> validOpaqueId (cv_playerId v) \<or> \<not> validAcknowledgement checks (cv_acknowledgement v) \<or>
         \<not> list_all (validEvent checks) (cv_events v)
      then Some ContractViolation
      else if \<not> finalizationFits (cv_command v) (cv_sessionFinalization v) then Some CommandCommitConflict
      else if \<not> commitConsistent v then Some CommandCommitConflict
      else if \<not> validateCheckpointSnapshot (cv_serializedState v) (cv_stateVersion v) then Some CorruptCheckpoint
      else None)"

section \<open>The transaction\<close>

text \<open>The statements of the commit; a violated primary key throws.\<close>

fun insertEvents :: "string \<Rightarrow> 'e event_envelope list \<Rightarrow> 'e database \<Rightarrow> store_error + 'e database" where
  "insertEvents room [] db = Inr db"
| "insertEvents room (event # events) db =
     (if db_events db (ee_eventId event) \<noteq> None then Inl DatabaseFailure
      else insertEvents room events (db\<lparr>db_events := (db_events db)(ee_eventId event := Some (room, event))\<rparr>))"

definition insertProof ::
  "digest \<Rightarrow> room_lease \<Rightarrow> 'e commit_value \<Rightarrow> 'e database \<Rightarrow> store_error + 'e database" where
  "insertProof sha256 lease v db =
     (case cv_terminalProof v of
        None \<Rightarrow> Inr db
      | Some (reason, winner) \<Rightarrow>
          if \<not> validOpaqueId winner then Inl ContractViolation
          else if db_proofs db (ls_gameId lease) \<noteq> None then Inl DatabaseFailure
          else Inr (db\<lparr>db_proofs := (db_proofs db)(ls_gameId lease := Some
            \<lparr>tp_roomId = ls_roomId lease, tp_stateVersion = cv_stateVersion v,
             tp_checksum = sha256 (cv_serializedState v), tp_winnerPlayerId = winner, tp_endReason = reason\<rparr>)\<rparr>))"

definition insertCommand ::
  "digest \<Rightarrow> room_lease \<Rightarrow> 'e commit_value \<Rightarrow> 'e database \<Rightarrow> store_error + 'e database" where
  "insertCommand sha256 lease v db =
     (let key = command_key_of lease (cv_playerId v) (cv_command v) in
      if db_commands db key \<noteq> None then Inl DatabaseFailure
      else Inr (db\<lparr>db_commands := (db_commands db)(key := Some
        \<lparr>cw_expectedStateVersion = pc_expectedStateVersion (cv_command v), cw_committedStateVersion = cv_stateVersion v,
         cw_requestHash = requestHash sha256 (cv_command v), cw_acknowledgement = cv_acknowledgement v\<rparr>)\<rparr>))"

definition insertFinalization ::
  "'e contract_checks \<Rightarrow> room_lease \<Rightarrow> 'e commit_value \<Rightarrow> 'e database \<Rightarrow> store_error + 'e database" where
  "insertFinalization checks lease v db =
     (case cv_sessionFinalization v of
        None \<Rightarrow> Inr db
      | Some f \<Rightarrow>
          (let key = command_key_of lease (cv_playerId v) (cv_command v) in
           if \<not> validOpaqueId (sf_reservationId f) \<or> \<not> validIdempotencyKey checks (sf_idempotencyKey f) then Inl ContractViolation
           else if db_finalizations db key \<noteq> None then Inl DatabaseFailure
           else Inr (db\<lparr>db_finalizations := (db_finalizations db)(key := Some f)\<rparr>)))"

definition then_do :: "store_error + 'a \<Rightarrow> ('a \<Rightarrow> store_error + 'b) \<Rightarrow> store_error + 'b" where
  "then_do r f = (case r of Inl e \<Rightarrow> Inl e | Inr x \<Rightarrow> f x)"

text \<open>The checkpoint moves only from the version the command expects, and only under the token of the lease.\<close>

definition updateCheckpoint ::
  "digest \<Rightarrow> room_lease \<Rightarrow> 'e commit_value \<Rightarrow> int \<Rightarrow> 'e database \<Rightarrow> 'e database option" where
  "updateCheckpoint sha256 lease v now db =
     (case fenced_row db lease of
        None \<Rightarrow> None
      | Some row \<Rightarrow>
          if ck_stateVersion row \<noteq> pc_expectedStateVersion (cv_command v) then None
          else Some (put_checkpoint (ls_roomId lease)
            (row\<lparr>ck_stateVersion := cv_stateVersion v, ck_checksum := sha256 (cv_serializedState v),
                 ck_serialized := cv_serializedState v, ck_updatedAt := now\<rparr>) db))"

definition replayed :: "acknowledgement \<Rightarrow> commit_result" where
  "replayed ack = \<lparr>cr_acknowledgement = ack, cr_duplicate = True\<rparr>"

definition commitTransaction ::
  "digest \<Rightarrow> 'e contract_checks \<Rightarrow> commit_hooks \<Rightarrow> room_lease \<Rightarrow> 'e commit_value \<Rightarrow> int \<Rightarrow> ('e, commit_result) transaction" where
  "commitTransaction sha256 checks hooks lease v now db =
     (let key = command_key_of lease (cv_playerId v) (cv_command v) in
      if \<not> assertOwned db lease now then Inl RoomLeaseUnavailable
      else case db_commands db key of
        Some row \<Rightarrow> then_do (replayStored sha256 (cv_command v) row) (\<lambda>ack. Inr (replayed ack, db))
      | None \<Rightarrow>
          (case updateCheckpoint sha256 lease v now db of
             None \<Rightarrow>
               (case db_commands db key of
                  None \<Rightarrow> Inl CommandCommitConflict
                | Some row \<Rightarrow> then_do (replayStored sha256 (cv_command v) row) (\<lambda>ack. Inr (replayed ack, db)))
           | Some updated \<Rightarrow>
               then_do (insertEvents (ls_roomId lease) (cv_events v) updated) (\<lambda>db1.
               then_do (insertProof sha256 lease v db1) (\<lambda>db2.
               then_do (insertCommand sha256 lease v db2) (\<lambda>db3.
               then_do (insertFinalization checks lease v db3) (\<lambda>db4.
                 if hk_beforeCommitThrows hooks then Inl DatabaseFailure
                 else Inr (\<lparr>cr_acknowledgement = cv_acknowledgement v, cr_duplicate = False\<rparr>, db4)))))))"

definition commit ::
  "digest \<Rightarrow> 'e contract_checks \<Rightarrow> commit_hooks \<Rightarrow> room_lease \<Rightarrow> 'e commit_value \<Rightarrow> int \<Rightarrow> 'e database \<Rightarrow>
   (store_error + commit_result) \<times> 'e database" where
  "commit sha256 checks hooks lease v now db =
     (case validCommit checks v of
        Some e \<Rightarrow> (Inl e, db)
      | None \<Rightarrow>
          (case withTransaction db (commitTransaction sha256 checks hooks lease v now) of
             (Inr result, db') \<Rightarrow>
               if \<not> cr_duplicate result \<and> hk_afterCommitThrows hooks then (Inl DatabaseFailure, db') else (Inr result, db')
           | (Inl e, db') \<Rightarrow> (Inl e, db')))"

end
