(* ===== verification/Secure_Random.thy ===== *)
theory Secure_Random
  imports Room_State Gameplay_Transition
begin

text \<open>
  \<open>random/secure-random-source.ts\<close> of the game server: the random source that the port of the game core stands
  for. Its bytes are the blocks of a keyed digest of a counter, and a checkpoint is the seed and the counter.

  The digest \<open>createHmac("sha256", key).update(data).digest()\<close> is a parameter, given by its bytes 0 to 31, and so are
  the conversions of \<open>Buffer\<close> (\<open>buffer_codec\<close>), of which only \<open>buffer_laws\<close> is relied on.
\<close>

section \<open>The platform\<close>

type_synonym hmac = "8 word list \<Rightarrow> 8 word list \<Rightarrow> nat \<Rightarrow> 8 word"

record buffer_codec =
  toBase64url :: "8 word list \<Rightarrow> string"
  fromBase64url :: "string \<Rightarrow> 8 word list"
  toUtf8 :: "string \<Rightarrow> 8 word list"
  fromUtf8 :: "8 word list \<Rightarrow> string"

definition ascii :: "string \<Rightarrow> bool" where
  "ascii s \<longleftrightarrow> list_all (\<lambda>c. (of_char c :: nat) < 128) s"

text \<open>What the documentation of \<open>Buffer\<close> promises: base64url decodes to what was encoded and is text of the base64url
  alphabet, and so is UTF-8 on ASCII text.\<close>

definition buffer_laws :: "buffer_codec \<Rightarrow> bool" where
  "buffer_laws buffer \<longleftrightarrow>
     (\<forall>bytes. fromBase64url buffer (toBase64url buffer bytes) = bytes \<and> list_all isIdChar (toBase64url buffer bytes)) \<and>
     (\<forall>s. ascii s \<longrightarrow> fromUtf8 buffer (toUtf8 buffer s) = s)"

section \<open>The encoded state\<close>

definition ALGORITHM :: string where
  "ALGORITHM = ''hmac-sha256-v1''"

definition SEED_BYTES :: nat where
  "SEED_BYTES = 32"

definition hasConsistentConsumption :: "int \<Rightarrow> int \<Rightarrow> int \<Rightarrow> bool" where
  "hasConsistentConsumption counter drawn consumed \<longleftrightarrow>
     (if counter = 0 \<or> drawn = 0 \<or> consumed = 0 then counter = 0 \<and> drawn = 0 \<and> consumed = 0
      else drawn \<le> counter \<and> counter \<le> consumed \<and> counter \<ge> (consumed + 31) div 32 \<and> consumed \<le> drawn * 4096)"

definition encodeState :: "buffer_codec \<Rightarrow> 8 word list \<Rightarrow> int \<Rightarrow> string" where
  "encodeState buffer seed counter =
     toBase64url buffer (toUtf8 buffer
       (stringify (JObject [(''counter'', JNumber counter), (''seed'', JText (toBase64url buffer seed))])))"

definition decodeState :: "buffer_codec \<Rightarrow> string \<Rightarrow> (string \<times> int) option" where
  "decodeState buffer value =
     (case parse_json (fromUtf8 buffer (fromBase64url buffer value)) of
        Some (JObject parsed) \<Rightarrow>
          if length parsed \<noteq> 2 then None
          else (case (field parsed ''seed'', field parsed ''counter'') of
            (Some (JText encoded), Some (JNumber counter)) \<Rightarrow>
              if \<not> isSafeInteger counter \<or> counter < 0 then None
              else (let seed = fromBase64url buffer encoded in
                if length seed \<noteq> SEED_BYTES \<or> toBase64url buffer seed \<noteq> encoded then None
                else Some (encoded, counter))
          | _ \<Rightarrow> None)
      | _ \<Rightarrow> None)"

section \<open>The source\<close>

record secure_source =
  ss_seed :: "8 word list"
  ss_counter :: int
  ss_draws :: int
  ss_bytesConsumed :: int

text \<open>The constructor; \<open>None\<close> is the error it throws.\<close>

definition newSecureRandomSource :: "8 word list \<Rightarrow> int \<Rightarrow> secure_source option" where
  "newSecureRandomSource seed counter =
     (if length seed \<noteq> SEED_BYTES \<or> \<not> isSafeInteger counter \<or> counter < 0 then None
      else Some \<lparr>ss_seed = seed, ss_counter = counter, ss_draws = 0, ss_bytesConsumed = 0\<rparr>)"

definition counterBytes :: "int \<Rightarrow> 8 word list" where
  "counterBytes counter = map (\<lambda>k. word_of_int (counter div 256 ^ k)) [7, 6, 5, 4, 3, 2, 1, 0]"

definition digest_block :: "hmac \<Rightarrow> 8 word list \<Rightarrow> int \<Rightarrow> 8 word list" where
  "digest_block hmac seed counter = map (hmac seed (counterBytes counter)) [0 ..< 32]"

text \<open>The loop over the blocks, with the number of bytes still to fill.\<close>

function fillBytes :: "hmac \<Rightarrow> 8 word list \<Rightarrow> int \<Rightarrow> nat \<Rightarrow> 8 word list \<times> int" where
  "fillBytes hmac seed counter left =
     (if left = 0 then ([], counter)
      else (let block = digest_block hmac seed counter; blockLength = min (length block) left;
                (rest, final) = fillBytes hmac seed (counter + 1) (left - blockLength) in
        (take blockLength block @ rest, final)))"
  by pat_completeness auto

termination
  by (relation "measure (\<lambda>(_, _, _, left). left)") (auto simp: digest_block_def)

declare fillBytes.simps [simp del]

definition nextBytes :: "hmac \<Rightarrow> secure_source \<Rightarrow> int \<Rightarrow> (exn + byte list) \<times> secure_source" where
  "nextBytes hmac source count =
     (if \<not> isSafeInteger count \<or> count < 1 \<or> count > 4096 then (Inl PlainError, source)
      else (let (output, counter) = fillBytes hmac (ss_seed source) (ss_counter source) (nat count) in
        (Inr output, source\<lparr>ss_counter := counter, ss_draws := ss_draws source + 1,
           ss_bytesConsumed := ss_bytesConsumed source + count\<rparr>)))"

definition sourceCheckpoint :: "buffer_codec \<Rightarrow> secure_source \<Rightarrow> random_checkpoint" where
  "sourceCheckpoint buffer source =
     \<lparr>algorithm = ALGORITHM, rngState = encodeState buffer (ss_seed source) (ss_counter source),
      draws = ss_draws source, bytesConsumed = ss_bytesConsumed source\<rparr>"

definition canResumeSecure :: "buffer_codec \<Rightarrow> random_checkpoint \<Rightarrow> bool" where
  "canResumeSecure buffer cp \<longleftrightarrow>
     (case (if algorithm cp = ALGORITHM then decodeState buffer (rngState cp) else None) of
        None \<Rightarrow> False
      | Some (_, counter) \<Rightarrow>
          isSafeInteger (draws cp) \<and> 0 \<le> draws cp \<and> isSafeInteger (bytesConsumed cp) \<and> 0 \<le> bytesConsumed cp \<and>
          hasConsistentConsumption counter (draws cp) (bytesConsumed cp))"

definition forkSecure :: "buffer_codec \<Rightarrow> random_checkpoint \<Rightarrow> secure_source option" where
  "forkSecure buffer cp =
     (if \<not> canResumeSecure buffer cp then None
      else (case decodeState buffer (rngState cp) of
        None \<Rightarrow> None
      | Some (encoded, counter) \<Rightarrow>
          map_option (\<lambda>fork. fork\<lparr>ss_draws := draws cp, ss_bytesConsumed := bytesConsumed cp\<rparr>)
            (newSecureRandomSource (fromBase64url buffer encoded) counter)))"

text \<open>The source as the port of the game core.\<close>

definition secure_random :: "hmac \<Rightarrow> buffer_codec \<Rightarrow> secure_source random_source" where
  "secure_random hmac buffer =
     \<lparr>rs_nextBytes = nextBytes hmac, rs_checkpoint = (\<lambda>source. Inr (sourceCheckpoint buffer source)),
      rs_canResume = (\<lambda>_ cp. Inr (canResumeSecure buffer cp)),
      rs_fork = Some (\<lambda>_ cp. Inr (case forkSecure buffer cp of None \<Rightarrow> ForkNull | Some fork \<Rightarrow> Forked fork))\<rparr>"

section \<open>Round trips\<close>

lemma ascii_simps [simp]:
  "ascii []" "ascii (c # s) \<longleftrightarrow> (of_char c :: nat) < 128 \<and> ascii s" "ascii (s @ t) \<longleftrightarrow> ascii s \<and> ascii t"
  by (simp_all add: ascii_def)

lemma id_char_plain: "isIdChar c \<Longrightarrow> escape_char c = [c] \<and> (of_char c :: nat) < 128"
  by (auto simp: isIdChar_def isAlnum_def escape_char_def Let_def)

lemma quote_id: "list_all isIdChar s \<Longrightarrow> ascii (quote s)"
proof -
  assume "list_all isIdChar s"
  then have "concat (map escape_char s) = s" "ascii s"
    by (induction s) (auto simp: id_char_plain)
  then show ?thesis by (simp add: quote_def)
qed

lemma decimal_ascii: "ascii (decimal n)"
  using decimal_digits [of n] by (auto simp: ascii_def list_all_iff isDigit_def Let_def)

lemma state_text_ascii:
  assumes "0 \<le> n" "list_all isIdChar s"
  shows "ascii (stringify (JObject [(''counter'', JNumber n), (''seed'', JText s)]))"
  using assms quote_id [OF assms(2)] quote_id [of "''counter''"] quote_id [of "''seed''"]
  by (simp add: decimal_int_def decimal_ascii isIdChar_def isAlnum_def)

lemma decode_encode:
  assumes laws: "buffer_laws buffer" and "length seed = SEED_BYTES" "isSafeInteger counter" "0 \<le> counter"
  shows "decodeState buffer (encodeState buffer seed counter) = Some (toBase64url buffer seed, counter)"
proof -
  let ?v = "JObject [(''counter'', JNumber counter), (''seed'', JText (toBase64url buffer seed))]"
  have id: "list_all isIdChar (toBase64url buffer seed)" using laws by (simp add: buffer_laws_def)
  have "fromUtf8 buffer (toUtf8 buffer (stringify ?v)) = stringify ?v"
    using laws state_text_ascii [OF assms(4) id] by (simp only: buffer_laws_def)
  moreover have "plain ?v" using assms(3) by simp
  ultimately show ?thesis
    using assms laws parse_stringify [of ?v]
    by (simp add: decodeState_def encodeState_def buffer_laws_def field_def)
qed

section \<open>The counters\<close>

definition block_count :: "int \<Rightarrow> int" where
  "block_count n = (n + 31) div 32"

lemma block_count_facts: "n \<le> 32 * block_count n" "32 * block_count n \<le> n + 31"
proof -
  have "32 * ((n + 31) div 32) + (n + 31) mod 32 = n + 31" by (rule mult_div_mod_eq)
  moreover have "0 \<le> (n + 31) mod 32" "(n + 31) mod 32 < 32" by simp_all
  ultimately show "n \<le> 32 * block_count n" "32 * block_count n \<le> n + 31" unfolding block_count_def by linarith+
qed

lemma block_count_unique: "n \<le> 32 * k \<Longrightarrow> 32 * k \<le> n + 31 \<Longrightarrow> block_count n = k"
  using block_count_facts [of n] by arith

lemma block_count_le: "block_count n \<le> k \<longleftrightarrow> n \<le> 32 * k"
  using block_count_facts [of n] by arith

lemma block_count_bounds: "1 \<le> n \<Longrightarrow> 1 \<le> block_count n" "1 \<le> n \<Longrightarrow> block_count n \<le> n"
  using block_count_facts [of n] by arith+

lemma block_count_0 [simp]: "block_count 0 = 0"
  by (simp add: block_count_def)

lemma block_count_step: "0 < left \<Longrightarrow> block_count (int left) = 1 + block_count (int (left - min 32 left))"
  using block_count_facts [of "int (left - min 32 left)"] by (intro block_count_unique) (auto simp: min_def of_nat_diff)

lemma fillBytes_spec:
  "fillBytes hmac seed counter left = (out, final) \<Longrightarrow> length out = left \<and> final = counter + block_count (int left)"
proof (induction hmac seed counter left arbitrary: out final rule: fillBytes.induct)
  case (1 hmac seed counter left)
  show ?case
  proof (cases "left = 0")
    case True
    with "1.prems" show ?thesis by (subst (asm) fillBytes.simps) (simp add: block_count_def)
  next
    case False
    let ?n = "min 32 left"
    have len: "length (digest_block hmac seed counter) = 32" by (simp add: digest_block_def)
    obtain rest f where r: "fillBytes hmac seed (counter + 1) (left - ?n) = (rest, f)" by fastforce
    from "1.prems" False r have o: "out = take ?n (digest_block hmac seed counter) @ rest" "final = f"
      by (subst (asm) fillBytes.simps; simp add: len Let_def)+
    from "1.IH" [OF False refl, of ?n rest f] r len have "length rest = left - ?n \<and> f = counter + 1 + block_count (int (left - ?n))"
      by simp
    with o len block_count_step [of left] False show ?thesis by (simp add: min_def)
  qed
qed

definition consistent_source :: "secure_source \<Rightarrow> bool" where
  "consistent_source source \<longleftrightarrow>
     length (ss_seed source) = SEED_BYTES \<and> 0 \<le> ss_counter source \<and> 0 \<le> ss_draws source \<and> 0 \<le> ss_bytesConsumed source \<and>
     hasConsistentConsumption (ss_counter source) (ss_draws source) (ss_bytesConsumed source)"

lemma consistent_new: "newSecureRandomSource seed 0 = Some source \<Longrightarrow> consistent_source source"
  by (auto simp: newSecureRandomSource_def consistent_source_def hasConsistentConsumption_def split: if_splits)

lemma consumption_step:
  assumes "hasConsistentConsumption c d b" "0 \<le> c" "0 \<le> d" "0 \<le> b" "1 \<le> n" "n \<le> 4096"
  shows "hasConsistentConsumption (c + block_count n) (d + 1) (b + n)"
  using assms block_count_bounds [of n] block_count_facts [of n]
  by (auto simp: hasConsistentConsumption_def block_count_le simp flip: block_count_def split: if_splits)

lemma nextBytes_consistent:
  assumes "consistent_source source" "nextBytes hmac source n = (r, source')"
  shows "consistent_source source'"
proof (cases "n < 1 \<or> n > 4096 \<or> \<not> isSafeInteger n")
  case False
  then obtain out final where f: "fillBytes hmac (ss_seed source) (ss_counter source) (nat n) = (out, final)"
    by (cases "fillBytes hmac (ss_seed source) (ss_counter source) (nat n)") auto
  from fillBytes_spec [OF f] False have "final = ss_counter source + block_count n" by simp
  moreover have "0 \<le> block_count n" using False block_count_bounds(1) [of n] by simp
  ultimately show ?thesis
    using assms f False consumption_step [of "ss_counter source" "ss_draws source" "ss_bytesConsumed source" n]
    by (auto simp: consistent_source_def nextBytes_def)
qed (use assms in \<open>auto simp: nextBytes_def\<close>)

lemma fork_consistent: "forkSecure buffer cp = Some source \<Longrightarrow> consistent_source source"
  by (auto simp: forkSecure_def canResumeSecure_def newSecureRandomSource_def consistent_source_def split: if_splits option.splits)

lemma resumes_checkpoint:
  assumes "buffer_laws buffer" "consistent_source source" "isSafeInteger (ss_draws source)" "isSafeInteger (ss_bytesConsumed source)"
  shows "canResumeSecure buffer (sourceCheckpoint buffer source)"
    "forkSecure buffer (sourceCheckpoint buffer source) = Some source"
proof -
  have "isSafeInteger (ss_counter source)"
    using assms(2,4) by (auto simp: consistent_source_def hasConsistentConsumption_def isSafeInteger_def MAX_SAFE_INTEGER_def split: if_splits)
  with assms show can: "canResumeSecure buffer (sourceCheckpoint buffer source)"
    by (simp add: canResumeSecure_def sourceCheckpoint_def decode_encode consistent_source_def)
  with assms \<open>isSafeInteger (ss_counter source)\<close> show "forkSecure buffer (sourceCheckpoint buffer source) = Some source"
    by (simp add: forkSecure_def sourceCheckpoint_def decode_encode consistent_source_def newSecureRandomSource_def buffer_laws_def)
qed

end
