(* ===== verification/Random_Resume.thy ===== *)
theory Random_Resume
  imports Secure_Random
begin

text \<open>
  The game core and the random source of the server together: whatever checkpoint an accepted command stores comes
  from the source the room resumed, so the next command can resume it again.
\<close>

section \<open>What a source promises to the core\<close>

text \<open>A source with an invariant of its cursors, \<open>good\<close>, and of the checkpoints they give, \<open>known\<close>.\<close>

locale tracked_source =
  fixes source :: "'r random_source" and good :: "'r \<Rightarrow> bool" and known :: "random_checkpoint \<Rightarrow> bool"
  assumes next_good: "good c \<Longrightarrow> rs_nextBytes source c n = (r, c') \<Longrightarrow> good c'"
    and checkpoint_known: "good c \<Longrightarrow> rs_checkpoint source c = Inr cp \<Longrightarrow> known cp"
    and fork_good: "rs_fork source = Some fork \<Longrightarrow> fork c cp = Inr (Forked d) \<Longrightarrow> good d"
begin

lemma forked_good: "forkGameplayRandomSource source c cp = Some d \<Longrightarrow> good d"
  by (auto simp: forkGameplayRandomSource_def fork_good split: option.splits sum.splits fork_result.splits if_splits)

lemma read_known: "good c \<Longrightarrow> readRandomCheckpoint source c = Some cp \<Longrightarrow> known cp"
  by (auto simp: readRandomCheckpoint_def checkpoint_known split: sum.splits if_splits)

lemma die_good: "drawDieLoop source n c = (r, c') \<Longrightarrow> good c \<Longrightarrow> good c'"
  by (induction n arbitrary: c) (auto split: prod.splits sum.splits list.splits if_splits dest: next_good)

lemma card_good: "drawCardLoop source n k c = (r, c') \<Longrightarrow> good c \<Longrightarrow> good c'"
  by (induction n arbitrary: k c) (auto split: prod.splits sum.splits list.splits if_splits dest: next_good)

lemma dice_good: "rollDice source c = (r, c') \<Longrightarrow> good c \<Longrightarrow> good c'"
  by (auto simp: rollDice_def drawDie_def split: prod.splits option.splits dest!: die_good)

lemma drawn_dice_known:
  assumes "drawGameplayDice source c cp = Some (roll, cp')"
  shows "known cp'"
proof -
  from assms obtain fresh used where "forkGameplayRandomSource source c cp = Some fresh"
    "rollDice source fresh = (Some roll, used)" "readRandomCheckpoint source used = Some cp'"
    by (auto simp: drawGameplayDice_def split: option.splits prod.splits if_splits)
  then show ?thesis using forked_good dice_good read_known by blast
qed

lemma drawn_card_known:
  assumes "drawGameplayCard source c cp = Some (drawn, cp')"
  shows "known cp'"
proof -
  from assms obtain fresh r used where "forkGameplayRandomSource source c cp = Some fresh"
    "drawCardId source fresh = (r, used)" "readRandomCheckpoint source used = Some cp'"
    by (auto simp: drawGameplayCard_def split: option.splits prod.splits if_splits)
  then show ?thesis unfolding drawCardId_def using forked_good card_good read_known by blast
qed

end

section \<open>The checkpoint after a command\<close>

definition drawn_from :: "'r gameplay_context \<Rightarrow> random_checkpoint \<Rightarrow> random_checkpoint \<Rightarrow> bool" where
  "drawn_from ctx before after \<longleftrightarrow>
     after = before \<or> (\<exists>roll. drawGameplayDice (randomSource ctx) (randomCursor ctx) before = Some (roll, after)) \<or>
     (\<exists>drawn. drawGameplayCard (randomSource ctx) (randomCursor ctx) before = Some (drawn, after))"

lemma drawn_same: "after = before \<Longrightarrow> drawn_from ctx before after"
  by (simp add: drawn_from_def)

lemma roll_rng:
  "threeDoublesRoll s p now roll cp = Accepted t ev \<Longrightarrow> room_rng (Playing t) = cp"
  "freeRoll s p now roll cp doubles = Accepted t ev \<Longrightarrow> room_rng (Playing t) = cp"
  "jailedRoll s p now roll cp = Accepted t ev \<Longrightarrow> room_rng (Playing t) = cp"
  by (auto simp: threeDoublesRoll_def freeRoll_def jailedRoll_def Let_def rolledState_def
      split: option.splits sum.splits jail_outcome.splits if_splits)

lemma turn_rng:
  assumes "transitionGameplayTurn s c expected ctx = Accepted t ev"
  shows "drawn_from ctx (gs_rng s) (room_rng (Playing t))"
  using assms
proof (rule transitionGameplayTurn_Accepted)
  fix p
  assume e: "c = EndTurn \<longrightarrow> endGameplayTurn s (nowMs ctx) = Accepted t ev"
    and r: "c \<noteq> EndTurn \<longrightarrow> rollGameplayDice s p ctx = Accepted t ev"
  show ?thesis
  proof (cases "c = EndTurn")
    case True
    with e show ?thesis by (auto simp: endGameplayTurn_def drawn_from_def split: if_splits option.splits)
  next
    case False
    with r have "rollGameplayDice s p ctx = Accepted t ev" by simp
    then obtain roll cp where "drawGameplayDice (randomSource ctx) (randomCursor ctx) (gs_rng s) = Some (roll, cp)"
      "room_rng (Playing t) = cp"
      by (cases rule: rollGameplayDice_cases) (metis roll_rng)
    then show ?thesis by (auto simp: drawn_from_def)
  qed
qed

lemma card_rng:
  assumes "transitionGameplayCard s c expected ctx = Accepted t ev"
  shows "drawn_from ctx (gs_rng s) (room_rng (Playing t))"
  using assms
  by (rule transitionGameplayCard_Accepted)
    (auto simp: drawn_from_def applyDrawnCard_def Let_def split: option.splits if_splits)

lemma property_rng:
  "requireBankruptcy s p now = Accepted t ev \<Longrightarrow> room_rng (Playing t) = gs_rng s"
  "decideProperty s p now pos buys = Accepted t ev \<Longrightarrow> room_rng (Playing t) = gs_rng s"
  "payGameplayRent s p now pos = Accepted t ev \<Longrightarrow> room_rng (Playing t) = gs_rng s"
  "payGameplayTax s p now kind = Accepted t ev \<Longrightarrow> room_rng (Playing t) = gs_rng s"
  "changeBuilding s p now pos command = Accepted t ev \<Longrightarrow> room_rng (Playing t) = gs_rng s"
  by (auto simp: decideProperty_def payGameplayRent_def payGameplayTax_def changeBuilding_def Let_def
      requireBankruptcy_def split: option.splits sum.splits if_splits)

lemma timeout_rng:
  assumes "transitionGameplayTimeout s c expected ctx = Accepted t ev"
  shows "room_rng (Playing t) = gs_rng s"
  using assms
proof (rule transitionGameplayTimeout_Accepted)
  assume "enforceTimeLimit s (nowMs ctx) = Accepted t ev"
  then show ?thesis by (auto elim!: enforceTimeLimit_Accepted simp: finishState_def)
next
  fix p
  assume "c = WarnTurnThirtySeconds \<and> warnTurn s p 30 (nowMs ctx) = Accepted t ev \<or>
    c = WarnTurnTenSeconds \<and> warnTurn s p 10 (nowMs ctx) = Accepted t ev"
  then show ?thesis by (auto elim!: warnTurn_Accepted)
next
  fix p
  assume "expireTurn s p (nowMs ctx) = Accepted t ev" "activeGameplayPlayer s = Some p"
  then show ?thesis by (cases rule: expireTurn_cases) (simp_all add: finishState_def)
qed

lemma other_rng:
  "transitionGameplayJail s jc expected ctx = Accepted t ev \<Longrightarrow> room_rng (Playing t) = gs_rng s"
  "transitionGameplayBankruptcy s expected ctx = Accepted t ev \<Longrightarrow> room_rng (Playing t) = gs_rng s"
  "transitionGameplayTrade s tc expected ctx = Accepted t ev \<Longrightarrow> room_rng (Playing t) = gs_rng s"
  by (auto elim!: transitionGameplayJail_cases transitionGameplayBankruptcy_cases transitionGameplayTrade_cases
      simp: finishState_def)

lemma command_rng:
  assumes "transitionGameplay (InProgress s) command ctx = Accepted t ev"
  shows "drawn_from ctx (gs_rng s) (room_rng (Playing t))"
proof -
  from assms have "routeCommand s command ctx = Accepted t ev" by (auto elim!: transitionGameplay_Accepted)
  then show ?thesis
    by (cases "body command")
      (auto simp: routeCommand_def Let_def intro: turn_rng card_rng drawn_same dest: timeout_rng other_rng property_rng
        elim!: transitionGameplayProperty_Accepted)
qed

end
