(* ===== verification/Room_Handler.thy ===== *)
theory Room_Handler
  imports Command_Store Random_Resume Replay
begin

text \<open>
  \<open>commands/command-handler.ts\<close> of the game server: the handler that runs the commands of a room one after the other
  against the game core and commits what they lead to. Its promise queue makes every call one step; a step is a function
  of the handler, the store and the time.

  Parameters: the wire schemas of \<open>packages/game-contracts\<close> (\<open>room_contracts\<close>: what they parse a raw message into, and
  whether they accept an answer), the store (\<open>store_ops\<close>), the digests, the buffer codec, and whether the callback
  \<open>onCommitted\<close> throws.
\<close>

section \<open>Messages\<close>

datatype wire_terms =
    WireMoneyOnly string string
  | WirePropertyOnly "int option" "int option"
  | WireMoneyForProperty string int
  | WirePropertyForMoney int string

datatype player_body = WireCreateTrade string wire_terms | WireCommand gameplay_body

datatype room_body = LifecycleBody game_command_body | PlayerBody player_body

record 'b request =
  rq_requestId :: string
  rq_expectedStateVersion :: int
  rq_type :: string
  rq_body :: 'b
  rq_json :: json

record authenticated_player =
  au_gameId :: string
  au_playerId :: string
  au_reservationId :: string
  au_roomId :: string
  au_seatIndex :: int

record rejection =
  rj_requestId :: string
  rj_stateVersion :: int
  rj_error :: game_core_error

datatype room_event = LifecycleEvent domain_event | GameplayEvent string gameplay_event

type_synonym room_envelope = "room_event event_envelope"

datatype handling = HandledAccepted acknowledgement "room_envelope list" bool | HandledRejected rejection

datatype handler_error =
    InvalidRoomCommand | SchemaError | SnapshotError | CallbackError | StoreError store_error | RuleError exn

record 'raw room_contracts =
  parseRoomCommand :: "'raw \<Rightarrow> room_body request option"
  parseInternalCommand :: "'raw \<Rightarrow> gameplay_body request option"
  parseRequestId :: "'raw \<Rightarrow> string option"
  validRejection :: "rejection \<Rightarrow> bool"
  validEnvelope :: "room_envelope \<Rightarrow> bool"

record 'db store_ops =
  so_findReplay :: "room_lease \<Rightarrow> string \<Rightarrow> persisted_command \<Rightarrow> int \<Rightarrow> 'db \<Rightarrow> store_error + acknowledgement option"
  so_commit :: "room_lease \<Rightarrow> room_event commit_value \<Rightarrow> int \<Rightarrow> 'db \<Rightarrow> (store_error + commit_result) \<times> 'db"

record ('raw, 'db) room_options =
  op_lease :: room_lease
  op_store :: "'db store_ops"
  op_contracts :: "'raw room_contracts"
  op_sha256 :: digest
  op_hmac :: hmac
  op_buffer :: buffer_codec
  op_onCommittedThrows :: "room_state \<Rightarrow> bool"

record room_handler =
  rh_state :: room_state
  rh_committedAtMs :: int

definition persisted :: "'b request \<Rightarrow> persisted_command" where
  "persisted rq =
     \<lparr>pc_requestId = rq_requestId rq, pc_expectedStateVersion = rq_expectedStateVersion rq, pc_type = rq_type rq,
      pc_json = rq_json rq\<rparr>"

section \<open>From messages to commands of the core\<close>

text \<open>\<open>BigInt\<close> of a text; the schemas let only canonical decimals through.\<close>

definition toBigInt :: "string \<Rightarrow> exn + int" where
  "toBigInt s = (if canonical_decimal s then Inr (int (read_digits s)) else Inl PlainError)"

definition wireCash :: "string \<Rightarrow> exn + int" where
  "wireCash s = (case toBigInt s of Inl e \<Rightarrow> Inl e | Inr n \<Rightarrow> matchCash n)"

fun convertTerms :: "wire_terms \<Rightarrow> exn + trade_terms" where
  "convertTerms (WireMoneyOnly offered requested) =
     (case wireCash offered of Inl e \<Rightarrow> Inl e
      | Inr a \<Rightarrow> (case wireCash requested of Inl e \<Rightarrow> Inl e | Inr b \<Rightarrow> Inr (MoneyOnly a b)))"
| "convertTerms (WirePropertyOnly offered requested) = Inr (PropertyOnly offered requested)"
| "convertTerms (WireMoneyForProperty offered pos) =
     (case wireCash offered of Inl e \<Rightarrow> Inl e | Inr a \<Rightarrow> Inr (MoneyForProperty a pos))"
| "convertTerms (WirePropertyForMoney pos requested) =
     (case wireCash requested of Inl e \<Rightarrow> Inl e | Inr b \<Rightarrow> Inr (PropertyForMoney pos b))"

definition brandedId :: "string \<Rightarrow> exn + string" where
  "brandedId s = assertOpaqueId s"

definition coreGameplayCommand :: "int \<Rightarrow> player_body \<Rightarrow> exn + gameplay_command" where
  "coreGameplayCommand expected wire =
     (case wire of
        WireCommand what \<Rightarrow> Inr \<lparr>expectedStateVersion = expected, body = what\<rparr>
      | WireCreateTrade receiver terms \<Rightarrow>
          (case convertTerms terms of
             Inl e \<Rightarrow> Inl e
           | Inr converted \<Rightarrow> (case brandedId receiver of
               Inl e \<Rightarrow> Inl e
             | Inr who \<Rightarrow> Inr \<lparr>expectedStateVersion = expected, body = TradeCommand (CreateTrade who converted)\<rparr>)))"

definition coreLifecycleCommand :: "int \<Rightarrow> game_command_body \<Rightarrow> exn + game_command" where
  "coreLifecycleCommand expected what =
     (case what of
        CreateGame game maximum limit \<Rightarrow>
          (case brandedId game of
             Inl e \<Rightarrow> Inl e
           | Inr name \<Rightarrow> Inr \<lparr>gc_expectedStateVersion = expected, gc_body = CreateGame name maximum limit\<rparr>)
      | _ \<Rightarrow> Inr \<lparr>gc_expectedStateVersion = expected, gc_body = what\<rparr>)"

definition undashed :: "string \<Rightarrow> string" where
  "undashed s = filter (\<lambda>c. c \<noteq> CHR ''-'') s"

definition requestTradeId :: "'b request \<Rightarrow> string" where
  "requestTradeId rq = ''trade_'' @ undashed (rq_requestId rq)"

section \<open>Events\<close>

definition eventId :: "string \<Rightarrow> int \<Rightarrow> string" where
  "eventId request index = ''evt_'' @ undashed request @ ''_'' @ decimal_int index"

definition envelope :: "string \<Rightarrow> int \<Rightarrow> int \<Rightarrow> int \<Rightarrow> room_event \<Rightarrow> room_envelope" where
  "envelope request version now index content =
     \<lparr>ee_eventId = eventId request index, ee_stateVersion = version, ee_occurredAtMs = now, ee_payload = content\<rparr>"

text \<open>\<open>parse\<close> of a schema throws when the value is refused.\<close>

definition parsed_by :: "('a \<Rightarrow> bool) \<Rightarrow> 'a list \<Rightarrow> handler_error + 'a list" where
  "parsed_by ok xs = (if list_all ok xs then Inr xs else Inl SchemaError)"

definition lifecycleEvents ::
  "'raw room_contracts \<Rightarrow> domain_event list \<Rightarrow> string \<Rightarrow> int \<Rightarrow> int \<Rightarrow> handler_error + room_envelope list" where
  "lifecycleEvents contracts events request version now =
     parsed_by (validEnvelope contracts) (map_index (\<lambda>i event. envelope request version now i (LifecycleEvent event)) events)"

definition rankedWithPlayer :: "gameplay_player option list \<Rightarrow> ranked_player \<Rightarrow> ranked_player option" where
  "rankedWithPlayer players entry =
     map_option (\<lambda>player. entry\<lparr>rp_playerId := playerId player\<rparr>) (seat_at players (re_seatIndex entry))"

text \<open>The payload of an event on the wire: the shapes of dice and amounts differ, the contents do not.\<close>

definition gameplayPayload :: "gameplay_event \<Rightarrow> gameplay_player option list \<Rightarrow> gameplay_event option" where
  "gameplayPayload event players =
     (case event of
        GameEnded reason winner ranking \<Rightarrow>
          map_option (GameEnded reason winner) (those (map (rankedWithPlayer players) ranking))
      | _ \<Rightarrow> Some event)"

fun room_players :: "aggregate \<Rightarrow> gameplay_player option list" where
  "room_players (InProgress s) = gs_players s"
| "room_players (Finished f) = gs_players f"

definition gameplayEvent ::
  "'raw room_contracts \<Rightarrow> aggregate \<Rightarrow> string \<Rightarrow> int \<Rightarrow> int \<Rightarrow> gameplay_event \<Rightarrow> handler_error + room_envelope" where
  "gameplayEvent contracts state request now index event =
     (case gameplayPayload event (room_players state) of
        None \<Rightarrow> Inl InvalidRoomCommand
      | Some content \<Rightarrow>
          (let wrapped = envelope request (aggregate_stateVersion state) now index
             (GameplayEvent (room_game_id (Playing state)) content) in
           if validEnvelope contracts wrapped then Inr wrapped else Inl SchemaError))"

text \<open>\<open>map\<close> with a function that may throw: the first error stops it.\<close>

fun collect :: "('e + 'a) list \<Rightarrow> 'e + 'a list" where
  "collect [] = Inr []"
| "collect (Inl e # _) = Inl e"
| "collect (Inr x # rest) = map_sum id (\<lambda>xs. x # xs) (collect rest)"

definition gameplayEvents ::
  "'raw room_contracts \<Rightarrow> gameplay_event list \<Rightarrow> aggregate \<Rightarrow> string \<Rightarrow> int \<Rightarrow> handler_error + room_envelope list" where
  "gameplayEvents contracts events state request now =
     collect (map_index (gameplayEvent contracts state request now) events)"

section \<open>The state before and after\<close>

definition resumableRandomSource :: "('raw, 'db) room_options \<Rightarrow> room_state \<Rightarrow> secure_source option" where
  "resumableRandomSource opts state = forkSecure (op_buffer opts) (room_rng state)"

text \<open>The proof of an ended game; the error is a winner that is not seated.\<close>

definition terminalProof :: "room_state \<Rightarrow> handler_error + (terminal_end_reason \<times> string) option" where
  "terminalProof state =
     (case state of
        Playing (Finished f) \<Rightarrow>
          (case seat_at (gs_players f) (to_winnerSeatIndex (fs_terminal f)) of
             None \<Rightarrow> Inl InvalidRoomCommand
           | Some winner \<Rightarrow> Inr (Some (to_reason (fs_terminal f), playerId winner)))
      | _ \<Rightarrow> Inr None)"

definition commandTimestampMs :: "room_handler \<Rightarrow> int \<Rightarrow> handler_error + int" where
  "commandTimestampMs handler clock =
     (if \<not> isSafeInteger clock \<or> clock < 0 then Inl InvalidRoomCommand
      else Inr (max clock (max (committedTimestampFloor (rh_state handler)) (rh_committedAtMs handler))))"

definition newHandler :: "room_state \<Rightarrow> int option \<Rightarrow> handler_error + room_handler" where
  "newHandler state committed =
     (let initialFloor = or_else committed (committedTimestampFloor state) in
      if \<not> isSafeInteger initialFloor \<or> initialFloor < 0 then Inl InvalidRoomCommand
      else Inr \<lparr>rh_state = state, rh_committedAtMs = max initialFloor (committedTimestampFloor state)\<rparr>)"

section \<open>Answers\<close>

type_synonym ('db, 'a) handled = "(handler_error + 'a) \<times> room_handler \<times> 'db"

definition refuse :: "'raw room_contracts \<Rightarrow> string \<Rightarrow> int \<Rightarrow> game_core_error \<Rightarrow> handler_error + handling" where
  "refuse contracts request version err =
     (let rejection = \<lparr>rj_requestId = request, rj_stateVersion = version, rj_error = err\<rparr> in
      if validRejection contracts rejection then Inr (HandledRejected rejection) else Inl SchemaError)"

definition final_error :: "game_core_error_code \<Rightarrow> game_core_error" where
  "final_error code = \<lparr>errorCode = code, retryable = False\<rparr>"

definition invalidCommand :: "'raw room_contracts \<Rightarrow> 'raw \<Rightarrow> int \<Rightarrow> handler_error + handling" where
  "invalidCommand contracts raw version =
     (case parseRequestId contracts raw of
        None \<Rightarrow> Inl InvalidRoomCommand
      | Some request \<Rightarrow> refuse contracts request version (final_error INVALID_COMMAND))"

definition acknowledge :: "string \<Rightarrow> int \<Rightarrow> room_envelope list \<Rightarrow> acknowledgement" where
  "acknowledge request version events =
     \<lparr>ak_requestId = request, ak_stateVersion = version, ak_eventIds = map ee_eventId events\<rparr>"

section \<open>What a command leads to\<close>

datatype decision = Decided room_state "room_envelope list" | Answered "handler_error + handling"

definition decideGameplay ::
  "('raw, 'db) room_options \<Rightarrow> authenticated_player \<Rightarrow> room_body request \<Rightarrow> aggregate \<Rightarrow> secure_source \<Rightarrow> int \<Rightarrow> decision" where
  "decideGameplay opts who rq state source now =
     (let contracts = op_contracts opts; version = aggregate_stateVersion state;
          rejected = (\<lambda>err. Answered (refuse contracts (rq_requestId rq) version err)) in
      case rq_body rq of
        LifecycleBody _ \<Rightarrow> rejected (final_error INVALID_PHASE)
      | PlayerBody wire \<Rightarrow>
          (case coreGameplayCommand (rq_expectedStateVersion rq) wire of
             Inl e \<Rightarrow> Answered (Inl (RuleError e))
           | Inr command \<Rightarrow>
          (case brandedId (au_playerId who) of
             Inl e \<Rightarrow> Answered (Inl (RuleError e))
           | Inr player \<Rightarrow>
          (case transitionGameplay state command
                  \<lparr>actor = PlayerActor player, nowMs = now, randomSource = secure_random (op_hmac opts) (op_buffer opts),
                   randomCursor = source,
                   ctxTradeId = (case wire of WireCreateTrade _ _ \<Rightarrow> Some (requestTradeId rq) | _ \<Rightarrow> None)\<rparr> of
             Threw e \<Rightarrow> Answered (Inl (RuleError e))
           | Rejected _ err \<Rightarrow> rejected err
           | Accepted next events \<Rightarrow>
               (case gameplayEvents contracts events next (rq_requestId rq) now of
                  Inl e \<Rightarrow> Answered (Inl e)
                | Inr envelopes \<Rightarrow> Decided (Playing next) envelopes)))))"

text \<open>A started game becomes a gameplay aggregate at once.\<close>

definition initialized :: "game_state \<Rightarrow> room_state option" where
  "initialized state =
     (case state of
        InProgressGame g \<Rightarrow> map_option (\<lambda>s. Playing (InProgress s)) (initializeGameplayAggregate g)
      | _ \<Rightarrow> Some (Lobby state))"

definition decideLifecycle ::
  "('raw, 'db) room_options \<Rightarrow> authenticated_player \<Rightarrow> room_body request \<Rightarrow> game_state \<Rightarrow> secure_source \<Rightarrow> int \<Rightarrow> decision" where
  "decideLifecycle opts who rq state source now =
     (let contracts = op_contracts opts;
          rejected = (\<lambda>err. Answered (refuse contracts (rq_requestId rq) (state_version state) err)) in
      case rq_body rq of
        PlayerBody _ \<Rightarrow> rejected (final_error INVALID_PHASE)
      | LifecycleBody what \<Rightarrow>
          (case coreLifecycleCommand (rq_expectedStateVersion rq) what of
             Inl e \<Rightarrow> Answered (Inl (RuleError e))
           | Inr command \<Rightarrow>
          (case brandedId (au_playerId who) of
             Inl e \<Rightarrow> Answered (Inl (RuleError e))
           | Inr player \<Rightarrow>
          (case transition (Some state) command
                  \<lparr>lc_actorId = player, lc_nowMs = now, lc_randomSource = secure_random (op_hmac opts) (op_buffer opts),
                   lc_randomCursor = source\<rparr> of
             Threw e \<Rightarrow> Answered (Inl (RuleError e))
           | Rejected _ err \<Rightarrow> rejected err
           | Accepted None _ \<Rightarrow> rejected (final_error INVALID_STATE)
           | Accepted (Some reached) events \<Rightarrow>
               (case initialized reached of
                  None \<Rightarrow> rejected (final_error INVALID_STATE)
                | Some next \<Rightarrow>
                    (case lifecycleEvents contracts events (rq_requestId rq) (room_version next) now of
                       Inl e \<Rightarrow> Answered (Inl e)
                     | Inr envelopes \<Rightarrow> Decided next envelopes))))))"

section \<open>The commit of a decision\<close>

definition action_name :: "finalization_action \<Rightarrow> string" where
  "action_name action = (case action of FinalizeLeave \<Rightarrow> ''leave'' | FinalizeCancel \<Rightarrow> ''cancel'')"

text \<open>\<open>commands/session-finalization.ts\<close>; the fields of the digested text are separated by a zero character.\<close>

definition joined :: "string list \<Rightarrow> string" where
  "joined parts = (case parts of [] \<Rightarrow> [] | p # rest \<Rightarrow> p @ concat (map (\<lambda>s. char_of (0 :: nat) # s) rest))"

definition sessionFinalizationIdempotencyKey ::
  "digest \<Rightarrow> string \<Rightarrow> string \<Rightarrow> string \<Rightarrow> string \<Rightarrow> finalization_action \<Rightarrow> string" where
  "sessionFinalizationIdempotencyKey sha256 game room player request action =
     ''realtime-finalize-'' @ hex_text (sha256 (joined [game, room, player, request, action_name action]))"

definition sessionFinalization :: "digest \<Rightarrow> authenticated_player \<Rightarrow> 'b request \<Rightarrow> session_finalization option" where
  "sessionFinalization sha256 who rq =
     map_option (\<lambda>action. \<lparr>sf_action = action,
         sf_idempotencyKey = sessionFinalizationIdempotencyKey sha256 (au_gameId who) (au_roomId who) (au_playerId who)
           (rq_requestId rq) action,
         sf_reservationId = au_reservationId who\<rparr>)
       (if rq_type rq = ''leaveGame'' then Some FinalizeLeave
        else if rq_type rq = ''cancelGame'' then Some FinalizeCancel else None)"

definition commit_value_of ::
  "string \<Rightarrow> 'b request \<Rightarrow> room_state \<Rightarrow> room_envelope list \<Rightarrow> string \<Rightarrow> (terminal_end_reason \<times> string) option \<Rightarrow>
   session_finalization option \<Rightarrow> room_event commit_value" where
  "commit_value_of player rq next events serialized proof_value finalization =
     \<lparr>cv_acknowledgement = acknowledge (rq_requestId rq) (room_version next) events, cv_events = events,
      cv_playerId = player, cv_command = persisted rq, cv_serializedState = serialized,
      cv_stateVersion = room_version next, cv_terminalProof = proof_value, cv_sessionFinalization = finalization\<rparr>"

text \<open>The end of a handled command: the store commits, the handler takes over the state, the callback runs.\<close>

definition commitDecision ::
  "('raw, 'db) room_options \<Rightarrow> room_handler \<Rightarrow> 'db \<Rightarrow> room_event commit_value \<Rightarrow> room_state \<Rightarrow> int \<Rightarrow> ('db, handling) handled" where
  "commitDecision opts handler db v next now =
     (case so_commit (op_store opts) (op_lease opts) v now db of
        (Inl e, db') \<Rightarrow> (Inl (StoreError e), handler, db')
      | (Inr result, db') \<Rightarrow>
          if cr_duplicate result then (Inr (HandledAccepted (cr_acknowledgement result) [] True), handler, db')
          else (let handler' = \<lparr>rh_state = next, rh_committedAtMs = now\<rparr> in
            (if op_onCommittedThrows opts next then Inl CallbackError
             else Inr (HandledAccepted (cv_acknowledgement v) (cv_events v) False), handler', db')))"

definition handleSerial ::
  "('raw, 'db) room_options \<Rightarrow> authenticated_player \<Rightarrow> 'raw \<Rightarrow> int \<Rightarrow> room_handler \<Rightarrow> 'db \<Rightarrow> ('db, handling) handled" where
  "handleSerial opts who raw clock handler db =
     (let state = rh_state handler; contracts = op_contracts opts in
      case parseRoomCommand contracts raw of
        None \<Rightarrow> (invalidCommand contracts raw (room_version state), handler, db)
      | Some rq \<Rightarrow>
      (case commandTimestampMs handler clock of
        Inl e \<Rightarrow> (Inl e, handler, db)
      | Inr now \<Rightarrow>
      (case so_findReplay (op_store opts) (op_lease opts) (au_playerId who) (persisted rq) now db of
        Inl e \<Rightarrow> (Inl (StoreError e), handler, db)
      | Inr (Some ack) \<Rightarrow> (Inr (HandledAccepted ack [] True), handler, db)
      | Inr None \<Rightarrow>
      (case resumableRandomSource opts state of
        None \<Rightarrow> (refuse contracts (rq_requestId rq) (room_version state) (final_error INVALID_STATE), handler, db)
      | Some source \<Rightarrow>
      (case (case state of
               Playing aggregate \<Rightarrow> decideGameplay opts who rq aggregate source now
             | Lobby lobby \<Rightarrow> decideLifecycle opts who rq lobby source now) of
        Answered answer \<Rightarrow> (answer, handler, db)
      | Decided next events \<Rightarrow>
      (case serializeRoom next of
        None \<Rightarrow> (Inl SnapshotError, handler, db)
      | Some serialized \<Rightarrow>
      (case terminalProof next of
        Inl e \<Rightarrow> (Inl e, handler, db)
      | Inr proof_value \<Rightarrow>
          commitDecision opts handler db
            (commit_value_of (au_playerId who) rq next events serialized proof_value (sessionFinalization (op_sha256 opts) who rq))
            next now)))))))"

section \<open>Commands of the clock\<close>

definition SYSTEM_ACTOR :: string where
  "SYSTEM_ACTOR = ''system_timer''"

definition handleInternalSerial ::
  "('raw, 'db) room_options \<Rightarrow> 'raw \<Rightarrow> int \<Rightarrow> room_handler \<Rightarrow> 'db \<Rightarrow> ('db, handling) handled" where
  "handleInternalSerial opts raw clock handler db =
     (let state = rh_state handler; contracts = op_contracts opts in
      case parseInternalCommand contracts raw of
        None \<Rightarrow> (invalidCommand contracts raw (room_version state), handler, db)
      | Some rq \<Rightarrow>
      (case commandTimestampMs handler clock of
        Inl e \<Rightarrow> (Inl e, handler, db)
      | Inr now \<Rightarrow>
      (case so_findReplay (op_store opts) (op_lease opts) SYSTEM_ACTOR (persisted rq) now db of
        Inl e \<Rightarrow> (Inl (StoreError e), handler, db)
      | Inr (Some ack) \<Rightarrow> (Inr (HandledAccepted ack [] True), handler, db)
      | Inr None \<Rightarrow>
      (case state of
        Lobby _ \<Rightarrow> (refuse contracts (rq_requestId rq) (room_version state) (final_error INVALID_PHASE), handler, db)
      | Playing aggregate \<Rightarrow>
      (case resumableRandomSource opts state of
        None \<Rightarrow> (refuse contracts (rq_requestId rq) (room_version state) (final_error INVALID_STATE), handler, db)
      | Some source \<Rightarrow>
      (case transitionGameplay aggregate \<lparr>expectedStateVersion = rq_expectedStateVersion rq, body = rq_body rq\<rparr>
              \<lparr>actor = InternalActor, nowMs = now, randomSource = secure_random (op_hmac opts) (op_buffer opts),
               randomCursor = source, ctxTradeId = None\<rparr> of
        Threw e \<Rightarrow> (Inl (RuleError e), handler, db)
      | Rejected _ err \<Rightarrow> (refuse contracts (rq_requestId rq) (room_version state) err, handler, db)
      | Accepted next events \<Rightarrow>
      (case gameplayEvents contracts events next (rq_requestId rq) now of
        Inl e \<Rightarrow> (Inl e, handler, db)
      | Inr envelopes \<Rightarrow>
      (case terminalProof (Playing next) of
        Inl e \<Rightarrow> (Inl e, handler, db)
      | Inr proof_value \<Rightarrow>
      (case serializeRoom (Playing next) of
        None \<Rightarrow> (Inl SnapshotError, handler, db)
      | Some serialized \<Rightarrow>
          commitDecision opts handler db
            (commit_value_of SYSTEM_ACTOR rq (Playing next) envelopes serialized proof_value None) (Playing next) now)))))))))"

section \<open>Admission\<close>

definition admissionRequestId :: "digest \<Rightarrow> authenticated_player \<Rightarrow> string" where
  "admissionRequestId sha256 who =
     uuid_text (uuid_bytes (sha256 (joined [au_gameId who, au_playerId who, au_reservationId who, ''admission''])))"

text \<open>The message the handler makes up; the schema accepts it, as every field is of the required form.\<close>

definition admissionRequest :: "digest \<Rightarrow> authenticated_player \<Rightarrow> int \<Rightarrow> room_body request" where
  "admissionRequest sha256 who version =
     (let request = admissionRequestId sha256 who in
      \<lparr>rq_requestId = request, rq_expectedStateVersion = version, rq_type = ''joinGame'', rq_body = LifecycleBody JoinGame,
       rq_json = JObject [(''requestId'', JText request), (''expectedStateVersion'', JNumber version),
         (''type'', JText ''joinGame''), (''payload'', JObject [])]\<rparr>)"

fun seated_ids :: "room_state \<Rightarrow> string option list" where
  "seated_ids (Lobby g) = map (map_option ps_playerId) (gm_seats (game_base_of g))"
| "seated_ids (Playing a) = map (map_option playerId) (room_players a)"

text \<open>\<open>None\<close>: the player has the seat already. The lobby a player may be admitted to, otherwise.\<close>

definition admissionSeat :: "room_state \<Rightarrow> authenticated_player \<Rightarrow> handler_error + game_base option" where
  "admissionSeat state who =
     (let current = seat_at (seated_ids state) (au_seatIndex who) in
      if current = Some (au_playerId who) then Inr None
      else if current \<noteq> None then Inl InvalidRoomCommand
      else if Some (au_playerId who) \<in> set (seated_ids state) then Inl InvalidRoomCommand
      else (case state of Lobby (WaitingGame g) \<Rightarrow> Inr (Some g) | _ \<Rightarrow> Inl InvalidRoomCommand))"

text \<open>The lobby the admission leads to, with its events stamped \<open>committed\<close>.\<close>

definition admit ::
  "('raw, 'db) room_options \<Rightarrow> authenticated_player \<Rightarrow> room_body request \<Rightarrow> game_base \<Rightarrow> secure_source \<Rightarrow> int \<Rightarrow> int \<Rightarrow>
   handler_error + (game_state \<times> room_envelope list)" where
  "admit opts who rq waiting source joined_at committed =
     (case brandedId (au_playerId who) of
        Inl e \<Rightarrow> Inl (RuleError e)
      | Inr player \<Rightarrow>
      (case transition (Some (WaitingGame waiting))
              \<lparr>gc_expectedStateVersion = rq_expectedStateVersion rq, gc_body = JoinGame\<rparr>
              \<lparr>lc_actorId = player, lc_nowMs = joined_at, lc_randomSource = secure_random (op_hmac opts) (op_buffer opts),
               lc_randomCursor = source\<rparr> of
        Threw e \<Rightarrow> Inl (RuleError e)
      | Accepted (Some (WaitingGame g)) events \<Rightarrow>
          if map_option ps_playerId (seat_at (gm_seats g) (au_seatIndex who)) \<noteq> Some (au_playerId who)
          then Inl InvalidRoomCommand
          else map_sum id (\<lambda>envelopes. (WaitingGame g, envelopes))
            (lifecycleEvents (op_contracts opts) events (rq_requestId rq) (gm_stateVersion g) committed)
      | _ \<Rightarrow> Inl InvalidRoomCommand))"

definition ensureAdmittedPlayerSerial ::
  "('raw, 'db) room_options \<Rightarrow> authenticated_player \<Rightarrow> int \<Rightarrow> int \<Rightarrow> room_handler \<Rightarrow> 'db \<Rightarrow> ('db, room_envelope list) handled" where
  "ensureAdmittedPlayerSerial opts who joined_at db_clock handler db =
     (let state = rh_state handler in
      if \<not> isSafeInteger joined_at \<or> joined_at < 0 then (Inl InvalidRoomCommand, handler, db)
      else case admissionSeat state who of
        Inl e \<Rightarrow> (Inl e, handler, db)
      | Inr None \<Rightarrow> (Inr [], handler, db)
      | Inr (Some waiting) \<Rightarrow>
      (case resumableRandomSource opts state of
        None \<Rightarrow> (Inl InvalidRoomCommand, handler, db)
      | Some source \<Rightarrow>
      (let rq = admissionRequest (op_sha256 opts) who (room_version state);
           committed = max joined_at (max (rh_committedAtMs handler) (committedTimestampFloor state)) in
       case so_findReplay (op_store opts) (op_lease opts) (au_playerId who) (persisted rq) db_clock db of
        Inl e \<Rightarrow> (Inl (StoreError e), handler, db)
      | Inr (Some _) \<Rightarrow> (Inl InvalidRoomCommand, handler, db)
      | Inr None \<Rightarrow>
      (case admit opts who rq waiting source joined_at committed of
        Inl e \<Rightarrow> (Inl e, handler, db)
      | Inr (next, events) \<Rightarrow>
      (case serializeSnapshot next of
        None \<Rightarrow> (Inl SnapshotError, handler, db)
      | Some serialized \<Rightarrow>
      (case so_commit (op_store opts) (op_lease opts)
              (commit_value_of (au_playerId who) rq (Lobby next) events serialized None None) db_clock db of
        (Inl e, db') \<Rightarrow> (Inl (StoreError e), handler, db')
      | (Inr result, db') \<Rightarrow>
          if cr_duplicate result then (Inl InvalidRoomCommand, handler, db')
          else (let handler' = \<lparr>rh_state = Lobby next, rh_committedAtMs = committed\<rparr> in
            (if op_onCommittedThrows opts (Lobby next) then Inl CallbackError else Inr events, handler', db'))))))))"

end
