(* ===== verification/Store_Laws.thy ===== *)
theory Store_Laws
  imports Command_Store
begin

text \<open>
  What the store promises: the effect of a commit, the interface the command handler relies on (the locale
  \<open>fenced_store\<close>), and the fencing of the operations of a lease whose token is out of date.
\<close>

section \<open>The effect of a commit\<close>

lemma insertEvents_frame:
  "insertEvents room events db = Inr db' \<Longrightarrow> \<exists>rows. db' = db\<lparr>db_events := rows\<rparr>"
proof (induction events arbitrary: db)
  case Nil
  then show ?case by (auto intro: exI [of _ "db_events db"])
next
  case (Cons event events)
  let ?db = "db\<lparr>db_events := (db_events db)(ee_eventId event := Some (room, event))\<rparr>"
  from Cons.prems have "insertEvents room events ?db = Inr db'" by (simp split: if_splits)
  from Cons.IH [OF this] show ?case by simp
qed

lemma insertProof_frame: "insertProof sha256 lease v db = Inr db' \<Longrightarrow> \<exists>rows. db' = db\<lparr>db_proofs := rows\<rparr>"
  by (auto simp: insertProof_def split: option.splits if_splits intro: exI [of _ "db_proofs db"])

lemma insertFinalization_frame:
  "insertFinalization checks lease v db = Inr db' \<Longrightarrow> \<exists>rows. db' = db\<lparr>db_finalizations := rows\<rparr>"
  by (auto simp: insertFinalization_def Let_def split: option.splits if_splits intro: exI [of _ "db_finalizations db"])

definition command_row_of :: "digest \<Rightarrow> 'e commit_value \<Rightarrow> command_row" where
  "command_row_of sha256 v =
     \<lparr>cw_expectedStateVersion = pc_expectedStateVersion (cv_command v), cw_committedStateVersion = cv_stateVersion v,
      cw_requestHash = requestHash sha256 (cv_command v), cw_acknowledgement = cv_acknowledgement v\<rparr>"

definition moved_row :: "digest \<Rightarrow> 'e commit_value \<Rightarrow> int \<Rightarrow> checkpoint_row \<Rightarrow> checkpoint_row" where
  "moved_row sha256 v now row =
     row\<lparr>ck_stateVersion := cv_stateVersion v, ck_checksum := sha256 (cv_serializedState v),
         ck_serialized := cv_serializedState v, ck_updatedAt := now\<rparr>"

lemma insertCommand_frame:
  "insertCommand sha256 lease v db = Inr db' \<Longrightarrow>
     db_commands db (command_key_of lease (cv_playerId v) (cv_command v)) = None \<and>
     db' = db\<lparr>db_commands := (db_commands db)(command_key_of lease (cv_playerId v) (cv_command v) := Some (command_row_of sha256 v))\<rparr>"
  by (auto simp: insertCommand_def Let_def command_row_of_def split: if_splits)

lemma then_do_Inr: "then_do r f = Inr y \<longleftrightarrow> (\<exists>x. r = Inr x \<and> f x = Inr y)"
  by (auto simp: then_do_def split: sum.splits)

text \<open>A successful commit either found the command stored before, and then nothing changed, or moved the checkpoint and
  stored the command.\<close>

definition recorded ::
  "digest \<Rightarrow> room_lease \<Rightarrow> 'e commit_value \<Rightarrow> int \<Rightarrow> checkpoint_row \<Rightarrow> 'e database \<Rightarrow> 'e database \<Rightarrow> bool" where
  "recorded sha256 lease v now row db db' \<longleftrightarrow>
     db_leases db' = db_leases db \<and> db_presence db' = db_presence db \<and>
     db_checkpoints db' = (db_checkpoints db)(ls_roomId lease := Some (moved_row sha256 v now row)) \<and>
     db_commands db' = (db_commands db)(command_key_of lease (cv_playerId v) (cv_command v) := Some (command_row_of sha256 v))"

lemma recorded_by_parts:
  assumes "updateCheckpoint sha256 lease v now db = Some db0" "insertEvents (ls_roomId lease) (cv_events v) db0 = Inr db1"
    and "insertProof sha256 lease v db1 = Inr db2" "insertCommand sha256 lease v db2 = Inr db3"
    and "insertFinalization checks lease v db3 = Inr db4"
  shows "\<exists>row. fenced_row db lease = Some row \<and> ck_stateVersion row = pc_expectedStateVersion (cv_command v) \<and>
    recorded sha256 lease v now row db db4"
proof -
  from assms(1) obtain row where row: "fenced_row db lease = Some row"
    "ck_stateVersion row = pc_expectedStateVersion (cv_command v)"
    "db0 = put_checkpoint (ls_roomId lease) (moved_row sha256 v now row) db"
    by (auto simp: updateCheckpoint_def moved_row_def split: option.splits if_splits)
  then show ?thesis
    using insertEvents_frame [OF assms(2)] insertProof_frame [OF assms(3)] insertCommand_frame [OF assms(4)]
      insertFinalization_frame [OF assms(5)]
    by (auto simp: recorded_def put_checkpoint_def)
qed

lemma commitTransaction_effect:
  assumes "commitTransaction sha256 checks hooks lease v now db = Inr (r, db')"
  obtains (again) row where "cr_duplicate r" "db' = db" "assertOwned db lease now"
      "db_commands db (command_key_of lease (cv_playerId v) (cv_command v)) = Some row"
      "cw_requestHash row = requestHash sha256 (cv_command v)" "cr_acknowledgement r = cw_acknowledgement row"
  | (first) row where "\<not> cr_duplicate r" "cr_acknowledgement r = cv_acknowledgement v" "assertOwned db lease now"
      "db_commands db (command_key_of lease (cv_playerId v) (cv_command v)) = None"
      "fenced_row db lease = Some row" "ck_stateVersion row = pc_expectedStateVersion (cv_command v)"
      "recorded sha256 lease v now row db db'"
proof (cases "db_commands db (command_key_of lease (cv_playerId v) (cv_command v))")
  case (Some row)
  with assms show thesis
    by (intro again) (auto simp: commitTransaction_def Let_def then_do_Inr replayStored_def replayed_def split: if_splits)
next
  case None
  with assms obtain db0 where owned: "assertOwned db lease now" and up: "updateCheckpoint sha256 lease v now db = Some db0"
    by (auto simp: commitTransaction_def Let_def split: if_splits option.splits)
  with assms None obtain db1 db2 db3 where "insertEvents (ls_roomId lease) (cv_events v) db0 = Inr db1"
    "insertProof sha256 lease v db1 = Inr db2" "insertCommand sha256 lease v db2 = Inr db3"
    "insertFinalization checks lease v db3 = Inr db'"
    "r = \<lparr>cr_acknowledgement = cv_acknowledgement v, cr_duplicate = False\<rparr>"
    by (auto simp: commitTransaction_def Let_def then_do_Inr split: if_splits)
  with recorded_by_parts [OF up] None owned first show thesis by fastforce
qed

section \<open>The interface of the command handler\<close>

text \<open>The text and version a room is stored with, and the answer a command was given.\<close>

definition storedAt :: "'e database \<Rightarrow> room_lease \<Rightarrow> (string \<times> int) option" where
  "storedAt db lease = map_option (\<lambda>row. (ck_serialized row, ck_stateVersion row)) (db_checkpoints db (ls_roomId lease))"

definition answeredBy :: "digest \<Rightarrow> 'e database \<Rightarrow> room_lease \<Rightarrow> string \<Rightarrow> persisted_command \<Rightarrow> acknowledgement option" where
  "answeredBy sha256 db lease player command =
     (case db_commands db (command_key_of lease player command) of
        None \<Rightarrow> None
      | Some row \<Rightarrow> if cw_requestHash row = requestHash sha256 command then Some (cw_acknowledgement row) else None)"

definition lookup_reply ::
  "digest \<Rightarrow> room_lease \<Rightarrow> string \<Rightarrow> persisted_command \<Rightarrow> int \<Rightarrow> 'e database \<Rightarrow> store_error + acknowledgement option" where
  "lookup_reply sha256 lease player command now db = fst (withTransaction db (findReplay sha256 lease player command now))"

locale fenced_store =
  fixes find :: "room_lease \<Rightarrow> string \<Rightarrow> persisted_command \<Rightarrow> int \<Rightarrow> 'db \<Rightarrow> store_error + acknowledgement option"
    and put :: "room_lease \<Rightarrow> 'e commit_value \<Rightarrow> int \<Rightarrow> 'db \<Rightarrow> (store_error + commit_result) \<times> 'db"
    and stored :: "'db \<Rightarrow> room_lease \<Rightarrow> (string \<times> int) option"
    and answered :: "'db \<Rightarrow> room_lease \<Rightarrow> string \<Rightarrow> persisted_command \<Rightarrow> acknowledgement option"
    and owned :: "'db \<Rightarrow> room_lease \<Rightarrow> int \<Rightarrow> bool"
  assumes put_fails: "put lease v now db = (Inl e, db') \<Longrightarrow> db' = db"
    and put_again: "put lease v now db = (Inr r, db') \<Longrightarrow> cr_duplicate r \<Longrightarrow>
      db' = db \<and> answered db lease (cv_playerId v) (cv_command v) = Some (cr_acknowledgement r)"
    and put_stores: "put lease v now db = (Inr r, db') \<Longrightarrow> \<not> cr_duplicate r \<Longrightarrow>
      stored db' lease = Some (cv_serializedState v, cv_stateVersion v) \<and>
      (\<exists>before. stored db lease = Some (before, cv_stateVersion v - 1)) \<and>
      answered db' lease (cv_playerId v) (cv_command v) = Some (cv_acknowledgement v)"
    and put_owned: "put lease v now db = (Inr r, db') \<Longrightarrow> owned db lease now"
    and put_keeps: "put lease v now db = (Inr r, db') \<Longrightarrow> answered db l player command = Some ack \<Longrightarrow>
      answered db' l player command = Some ack"
    and find_known: "answered db lease player command = Some ack \<Longrightarrow> owned db lease now \<Longrightarrow> validOpaqueId player \<Longrightarrow>
      find lease player command now db = Inr (Some ack)"
    and find_answered: "find lease player command now db = Inr (Some ack) \<Longrightarrow>
      answered db lease player command = Some ack \<and> owned db lease now \<and> validOpaqueId player"
    and find_player: "find lease player command now db = Inr known \<Longrightarrow> validOpaqueId player"
begin

text \<open>An answer is given once and for all.\<close>

lemma put_answers: "put lease v now db = (Inr r, db') \<Longrightarrow> answered db' lease (cv_playerId v) (cv_command v) =
    Some (if cr_duplicate r then cr_acknowledgement r else cv_acknowledgement v)"
  using put_again put_stores by (cases "cr_duplicate r") fastforce+

lemma answer_stable: "put lease v now db = (r, db') \<Longrightarrow> answered db l player command = Some ack \<Longrightarrow>
    answered db' l player command = Some ack"
  by (cases r) (auto dest: put_fails put_keeps)

end

text \<open>No hook throws after the commit: the server registers none.\<close>

definition quiet_hooks :: "bool \<Rightarrow> commit_hooks" where
  "quiet_hooks throws = \<lparr>hk_beforeCommitThrows = throws, hk_afterCommitThrows = False\<rparr>"

lemma commit_fails: "commit sha256 checks (quiet_hooks b) lease v now db = (Inl e, db') \<Longrightarrow> db' = db"
  by (auto simp: commit_def withTransaction_def quiet_hooks_def split: option.splits sum.splits prod.splits if_splits)

lemma commit_transaction:
  assumes "commit sha256 checks hooks lease v now db = (Inr r, db')"
  shows "commitTransaction sha256 checks hooks lease v now db = Inr (r, db')" "validCommit checks v = None"
  using assms by (auto simp: commit_def withTransaction_def split: option.splits sum.splits prod.splits if_splits)

lemma valid_version: "validCommit checks v = None \<Longrightarrow> pc_expectedStateVersion (cv_command v) = cv_stateVersion v - 1"
  by (auto simp: validCommit_def commitConsistent_def Let_def split: if_splits)

lemma fenced_row_stored: "fenced_row db lease = Some row \<Longrightarrow> db_checkpoints db (ls_roomId lease) = Some row"
  by (auto simp: fenced_row_def split: option.splits if_splits)

lemma lookup_answered:
  "lookup_reply sha256 lease player command now db = Inr (Some ack) \<longleftrightarrow>
     answeredBy sha256 db lease player command = Some ack \<and> assertOwned db lease now \<and> validOpaqueId player"
  by (auto simp: lookup_reply_def withTransaction_def findReplay_def answeredBy_def replayStored_def split: option.splits if_splits)

lemma lookup_player: "lookup_reply sha256 lease player command now db = Inr known \<Longrightarrow> validOpaqueId player"
  by (auto simp: lookup_reply_def withTransaction_def findReplay_def split: if_splits)

interpretation room_store: fenced_store "lookup_reply sha256" "commit sha256 checks (quiet_hooks b)" storedAt "answeredBy sha256"
    assertOwned for sha256 checks b
proof
  fix lease v now db r db'
  assume c: "commit sha256 checks (quiet_hooks b) lease v now db = (Inr r, db')"
  note effect = commitTransaction_effect [OF commit_transaction(1) [OF c]]
  note version = valid_version [OF commit_transaction(2) [OF c]]
  show "assertOwned db lease now" by (cases rule: effect)
  show "db' = db \<and> answeredBy sha256 db lease (cv_playerId v) (cv_command v) = Some (cr_acknowledgement r)" if "cr_duplicate r"
    by (cases rule: effect) (use that in \<open>auto simp: answeredBy_def\<close>)
  show "storedAt db' lease = Some (cv_serializedState v, cv_stateVersion v) \<and>
      (\<exists>before. storedAt db lease = Some (before, cv_stateVersion v - 1)) \<and>
      answeredBy sha256 db' lease (cv_playerId v) (cv_command v) = Some (cv_acknowledgement v)" if "\<not> cr_duplicate r"
    by (cases rule: effect)
      (use that version in \<open>auto simp: recorded_def storedAt_def answeredBy_def command_row_of_def moved_row_def dest: fenced_row_stored\<close>)
  show "answeredBy sha256 db' l player command = Some ack" if "answeredBy sha256 db l player command = Some ack" for l player command ack
    by (cases rule: effect) (use that in \<open>auto simp: recorded_def answeredBy_def split: option.splits\<close>)
qed (auto simp: lookup_answered dest: commit_fails lookup_player)

end
