(* ===== verification/Room_Run.thy ===== *)
theory Room_Run
  imports Room_Handler Store_Laws
begin

text \<open>
  The life of a room: the calls that reach its command handler, one after the other. Proved here, for any store that
  keeps the contract \<open>fenced_store\<close>: the state in memory is the state of a move of the game core, it is the stored one,
  it satisfies the invariants of the game, and its random source can be resumed.
\<close>

section \<open>The secure random source keeps its contract\<close>

text \<open>A checkpoint that some source of the server gives.\<close>

definition secure_checkpoint :: "buffer_codec \<Rightarrow> random_checkpoint \<Rightarrow> bool" where
  "secure_checkpoint buffer cp \<longleftrightarrow> (\<exists>source. consistent_source source \<and> cp = sourceCheckpoint buffer source)"

interpretation secure: tracked_source "secure_random hmac buffer" consistent_source "secure_checkpoint buffer" for hmac buffer
proof
  fix c c' n r
  assume "consistent_source c" "rs_nextBytes (secure_random hmac buffer) c n = (r, c')"
  then show "consistent_source c'" by (auto simp: secure_random_def intro: nextBytes_consistent)
next
  fix c cp
  assume "consistent_source c" "rs_checkpoint (secure_random hmac buffer) c = Inr cp"
  then show "secure_checkpoint buffer cp" by (auto simp: secure_random_def secure_checkpoint_def)
next
  fix fork c cp d
  assume "rs_fork (secure_random hmac buffer) = Some fork" "fork c cp = Inr (Forked d)"
  then show "consistent_source d" by (auto simp: secure_random_def fork_consistent split: option.splits)
qed

lemma secure_resumes:
  assumes "buffer_laws buffer" "secure_checkpoint buffer cp" "validCheckpoint cp"
  shows "\<exists>source. forkSecure buffer cp = Some source \<and> consistent_source source \<and> sourceCheckpoint buffer source = cp"
  using assms resumes_checkpoint(2) [OF assms(1)]
  by (auto simp: secure_checkpoint_def validCheckpoint_def sourceCheckpoint_def)

section \<open>Moves of a room\<close>

text \<open>A move: the game core accepts a command, with the random source resumed from the state.\<close>

inductive room_move :: "hmac \<Rightarrow> buffer_codec \<Rightarrow> room_state \<Rightarrow> room_state \<Rightarrow> bool" for hmac buffer where
  playing_move: "\<lbrakk>transitionGameplay a command ctx = Accepted t ev; randomSource ctx = secure_random hmac buffer;
     forkSecure buffer (room_rng (Playing a)) = Some (randomCursor ctx)\<rbrakk> \<Longrightarrow> room_move hmac buffer (Playing a) (Playing t)"
| lobby_move: "\<lbrakk>transition (Some g) command ctx = Accepted (Some reached) ev; branded command ctx;
     lc_randomSource ctx = secure_random hmac buffer; forkSecure buffer (room_rng (Lobby g)) = Some (lc_randomCursor ctx);
     initialized reached = Some next\<rbrakk> \<Longrightarrow> room_move hmac buffer (Lobby g) next"

text \<open>The invariant: a lobby that has not started, or a game in play or finished, and a checkpoint of the server's own
  source.\<close>

fun lobby_or_game :: "room_state \<Rightarrow> bool" where
  "lobby_or_game (Lobby (WaitingGame g)) = lobby_ok g"
| "lobby_or_game (Lobby (CancelledGame g)) = lobby_ok g"
| "lobby_or_game (Lobby _) = False"
| "lobby_or_game (Playing a) = aggregate_inv a"

definition room_sound :: "buffer_codec \<Rightarrow> room_state \<Rightarrow> bool" where
  "room_sound buffer state \<longleftrightarrow> lobby_or_game state \<and> secure_checkpoint buffer (room_rng state)"

lemma aggregate_inv_valid: "aggregate_inv a \<Longrightarrow> isValidAggregate a"
  by (cases a) (simp_all add: game_inv_def)

lemma valid_aggregate_rng: "isValidAggregate a \<Longrightarrow> validCheckpoint (room_rng (Playing a))"
proof (cases a)
  case (InProgress s)
  moreover assume "isValidAggregate a"
  ultimately show ?thesis by (simp add: isValidActive_iff validStateFrame_def)
next
  case (Finished f)
  moreover assume "isValidAggregate a"
  ultimately have "validStateFrame f" by (simp add: isValidFinishedGameplayAggregateState_def split: if_splits)
  with Finished show ?thesis by (simp add: validStateFrame_def)
qed

lemma lobby_or_game_rng: "lobby_or_game state \<Longrightarrow> validCheckpoint (room_rng state)"
  using valid_aggregate_rng aggregate_inv_valid
  by (cases state rule: lobby_or_game.cases) (auto simp: lobby_ok_def game_base.defs)

lemma sound_resumes:
  assumes "buffer_laws buffer" "room_sound buffer state"
  shows "\<exists>source. forkSecure buffer (room_rng state) = Some source \<and> consistent_source source"
  using secure_resumes [OF assms(1)] lobby_or_game_rng assms(2) by (auto simp: room_sound_def)

subsection \<open>In play\<close>

lemma drawn_secure:
  assumes "drawn_from ctx before after" "randomSource ctx = secure_random hmac buffer" "secure_checkpoint buffer before"
  shows "secure_checkpoint buffer after"
  using assms secure.drawn_dice_known secure.drawn_card_known by (fastforce simp: drawn_from_def)

lemma playing_sound:
  assumes "transitionGameplay a command ctx = Accepted t ev" "randomSource ctx = secure_random hmac buffer"
    and "room_sound buffer (Playing a)" "serializeGameplaySnapshot t = Some doc"
  shows "room_sound buffer (Playing t) \<and> room_version (Playing t) = room_version (Playing a) + 1"
proof -
  from assms(1) obtain s where s: "a = InProgress s" "routeCommand s command ctx = Accepted t ev"
    by (rule transitionGameplay_Accepted)
  have inv: "game_inv s" using assms(3) s(1) by (simp add: room_sound_def)
  have "isValidAggregate t" using gameplay_snapshot.saves_iff assms(4) by blast
  then have "aggregate_inv t" using routeCommand_invariant [OF s(2) inv] routeCommand_poisons [OF s(2) inv] by blast
  moreover have "secure_checkpoint buffer (room_rng (Playing t))"
    using drawn_secure [OF command_rng [OF assms(1) [unfolded s(1)]] assms(2)] assms(3) s(1) by (simp add: room_sound_def)
  moreover have "aggregate_stateVersion t = gs_stateVersion s + 1"
    using routeCommand_handlers(4) [OF s(2)] by (cases t) simp_all
  ultimately show ?thesis using s(1) by (simp add: room_sound_def)
qed

subsection \<open>In the lobby\<close>

lemma lobby_rng:
  assumes "transition (Some g) command ctx = Accepted (Some reached) ev"
  shows "randomCheckpoint ctx = Some (gm_rng (game_base_of reached))"
  using assms
  by (cases rule: transition_Accepted)
    (auto simp: joinGame_def leaveGame_def cancelGame_def startGame_def withVersionAndRng_def Let_def game_base.defs
      split: if_splits option.splits)

lemma initialized_sound:
  assumes "lifecycle_inv g" "initialized g = Some next" "\<And>f. g \<noteq> FinishedGame f"
  shows "lobby_or_game next \<and> room_rng next = gm_rng (game_base_of g) \<and> room_version next = state_version g"
proof (cases g)
  case (InProgressGame started)
  with assms(1) have "started_ok started" by simp
  then obtain s where s: "initializeGameplayAggregate started = Some s" "game_inv s" by (rule started_opens)
  with InProgressGame assms(2) show ?thesis
    by (auto simp: initialized_def initializeGameplayAggregate_def game_base.defs split: if_splits)
qed (use assms in \<open>auto simp: initialized_def\<close>)

lemma lobby_sound:
  assumes acc: "transition (Some g) command ctx = Accepted (Some reached) ev" "branded command ctx"
    and source: "lc_randomSource ctx = secure_random hmac buffer" "forkSecure buffer (room_rng (Lobby g)) = Some (lc_randomCursor ctx)"
    and "initialized reached = Some next" "room_sound buffer (Lobby g)"
  shows "room_sound buffer next \<and> room_version next = room_version (Lobby g) + 1"
proof -
  have inv: "lifecycle_inv g" using assms(6) by (cases g) (auto simp: room_sound_def)
  from transition_invariant [OF acc] inv have reached: "lifecycle_inv reached" "lobby_version (Some reached) = lobby_version (Some g) + 1"
    by fastforce+
  have "\<And>f. reached \<noteq> FinishedGame f"
    using acc(1) by (cases rule: transition_Accepted)
      (auto simp: joinGame_def leaveGame_def cancelGame_def startGame_def Let_def split: if_splits option.splits)
  from initialized_sound [OF reached(1) assms(5) this] have n: "lobby_or_game next"
    "room_rng next = gm_rng (game_base_of reached)" "room_version next = state_version reached" by auto
  have "consistent_source (lc_randomCursor ctx)" using source(2) by (rule fork_consistent)
  then have "secure_checkpoint buffer (gm_rng (game_base_of reached))"
    using secure.read_known lobby_rng [OF acc(1)] source(1) by (auto simp: randomCheckpoint_def)
  moreover have "lobby_version (Some x) = state_version x" for x
    by (cases x) (simp_all add: lobby_version_def game_base.defs)
  ultimately show ?thesis using n reached(2) by (simp add: room_sound_def)
qed

lemma move_sound:
  assumes "room_move hmac buffer state next" "room_sound buffer state" "serializeRoom next \<noteq> None"
  shows "room_sound buffer next" "room_version next = room_version state + 1"
  using assms by (auto elim!: room_move.cases simp: serializeRoom_def dest: playing_sound lobby_sound)

section \<open>What one call does\<close>

text \<open>Nothing, or one move of the game core that the store committed with the state it leads to.\<close>

inductive call_outcome :: "('raw, 'db) room_options \<Rightarrow> room_handler \<Rightarrow> 'db \<Rightarrow> room_handler \<Rightarrow> 'db \<Rightarrow> bool" for opts h db where
  outcome_same: "call_outcome opts h db h db"
| outcome_failed: "so_commit (op_store opts) (op_lease opts) v now db = (Inl e, db') \<Longrightarrow> call_outcome opts h db h db'"
| outcome_again: "so_commit (op_store opts) (op_lease opts) v now db = (Inr r, db') \<Longrightarrow> cr_duplicate r \<Longrightarrow>
    call_outcome opts h db h db'"
| outcome_moved: "\<lbrakk>room_move (op_hmac opts) (op_buffer opts) (rh_state h) (rh_state h');
    serializeRoom (rh_state h') = Some (cv_serializedState v); cv_stateVersion v = room_version (rh_state h');
    so_commit (op_store opts) (op_lease opts) v now db = (Inr r, db'); \<not> cr_duplicate r\<rbrakk> \<Longrightarrow> call_outcome opts h db h' db'"

declare outcome_same [simp, intro]

lemma brandedId_Inr: "brandedId s = Inr t \<Longrightarrow> t = s \<and> validOpaqueId s"
  by (simp add: brandedId_def assertOpaqueId_iff)

lemma decideGameplay_move:
  assumes "decideGameplay opts who rq a source now = Decided next events" "resumableRandomSource opts (Playing a) = Some source"
  shows "room_move (op_hmac opts) (op_buffer opts) (Playing a) next"
  using assms
  by (auto simp: decideGameplay_def resumableRandomSource_def Let_def intro!: playing_move
      split: room_body.splits sum.splits transition_result.splits)

lemma decideLifecycle_move:
  assumes "decideLifecycle opts who rq g source now = Decided next events" "resumableRandomSource opts (Lobby g) = Some source"
  shows "room_move (op_hmac opts) (op_buffer opts) (Lobby g) next"
proof -
  from assms(1) obtain command what player reached ev where c: "coreLifecycleCommand (rq_expectedStateVersion rq) what = Inr command"
    "brandedId (au_playerId who) = Inr player" "initialized reached = Some next"
    and t: "transition (Some g) command \<lparr>lc_actorId = player, lc_nowMs = now,
      lc_randomSource = secure_random (op_hmac opts) (op_buffer opts), lc_randomCursor = source\<rparr> = Accepted (Some reached) ev"
    by (auto simp: decideLifecycle_def Let_def split: room_body.splits sum.splits transition_result.splits option.splits)
  have "branded command \<lparr>lc_actorId = player, lc_nowMs = now,
      lc_randomSource = secure_random (op_hmac opts) (op_buffer opts), lc_randomCursor = source\<rparr>"
    using c by (auto simp: branded_def coreLifecycleCommand_def dest!: brandedId_Inr split: game_command_body.splits sum.splits)
  from lobby_move [OF t this _ _ c(3)] assms(2) show ?thesis by (simp add: resumableRandomSource_def)
qed

lemma committed_outcome:
  assumes "room_move (op_hmac opts) (op_buffer opts) (rh_state h) next" "serializeRoom next = Some serialized"
    and "so_commit (op_store opts) (op_lease opts)
      (commit_value_of player rq next events serialized proof_value finalization) now db = (r, db')"
    and "h' = (case r of Inr result \<Rightarrow> if cr_duplicate result then h else \<lparr>rh_state = next, rh_committedAtMs = at\<rparr> | Inl _ \<Rightarrow> h)"
  shows "call_outcome opts h db h' db'"
proof (cases r)
  case (Inl e)
  with assms(3,4) show ?thesis by (auto intro: outcome_failed)
next
  case (Inr result)
  let ?v = "commit_value_of player rq next events serialized proof_value finalization"
  show ?thesis
  proof (cases "cr_duplicate result")
    case True
    with assms(3,4) Inr show ?thesis by (auto intro: outcome_again)
  next
    case False
    with assms Inr outcome_moved [of opts h h' ?v now db result db'] show ?thesis by (simp add: commit_value_of_def)
  qed
qed

lemma commitDecision_outcome:
  assumes "commitDecision opts h db (commit_value_of player rq next events serialized proof_value finalization) next now = (ans, h', db')"
    and "serializeRoom next = Some serialized" "room_move (op_hmac opts) (op_buffer opts) (rh_state h) next"
  shows "call_outcome opts h db h' db'"
proof -
  obtain r db1 where r: "so_commit (op_store opts) (op_lease opts)
    (commit_value_of player rq next events serialized proof_value finalization) now db = (r, db1)" by fastforce
  with assms(1) have "db1 = db'" "h' = (case r of Inr result \<Rightarrow> if cr_duplicate result then h
      else \<lparr>rh_state = next, rh_committedAtMs = now\<rparr> | Inl _ \<Rightarrow> h)"
    by (auto simp: commitDecision_def Let_def split: sum.splits if_splits)
  with committed_outcome [OF assms(3,2) r] show ?thesis by simp
qed

lemma handleSerial_outcome:
  assumes "handleSerial opts who raw clock h db = (ans, h', db')"
  shows "call_outcome opts h db h' db'"
  using assms
  by (auto simp: handleSerial_def Let_def elim!: commitDecision_outcome
      intro: decideGameplay_move decideLifecycle_move split: option.splits sum.splits decision.splits room_state.splits)

lemma internal_move:
  "transitionGameplay a command \<lparr>actor = who, nowMs = now, randomSource = secure_random hmac buffer, randomCursor = source,
     ctxTradeId = trade\<rparr> = Accepted t ev \<Longrightarrow> forkSecure buffer (room_rng (Playing a)) = Some source \<Longrightarrow>
     room_move hmac buffer (Playing a) (Playing t)"
  by (erule playing_move) simp_all

lemma handleInternalSerial_outcome:
  assumes "handleInternalSerial opts raw clock h db = (ans, h', db')"
  shows "call_outcome opts h db h' db'"
  using assms
  by (auto simp: handleInternalSerial_def Let_def resumableRandomSource_def elim!: commitDecision_outcome
      dest: internal_move split: option.splits sum.splits transition_result.splits room_state.splits)

lemma admit_move:
  assumes "admit opts who rq waiting source joined_at committed = Inr (next, events)"
    and "resumableRandomSource opts (Lobby (WaitingGame waiting)) = Some source"
  shows "room_move (op_hmac opts) (op_buffer opts) (Lobby (WaitingGame waiting)) (Lobby next)"
proof -
  from assms(1) obtain player g ev where p: "brandedId (au_playerId who) = Inr player" "next = WaitingGame g"
    and t: "transition (Some (WaitingGame waiting)) \<lparr>gc_expectedStateVersion = rq_expectedStateVersion rq, gc_body = JoinGame\<rparr>
      \<lparr>lc_actorId = player, lc_nowMs = joined_at, lc_randomSource = secure_random (op_hmac opts) (op_buffer opts),
       lc_randomCursor = source\<rparr> = Accepted (Some (WaitingGame g)) ev"
    by (auto simp: admit_def map_sum_def split: sum.splits transition_result.splits option.splits game_state.splits if_splits)
  from p have b: "branded \<lparr>gc_expectedStateVersion = rq_expectedStateVersion rq, gc_body = JoinGame\<rparr>
      \<lparr>lc_actorId = player, lc_nowMs = joined_at, lc_randomSource = secure_random (op_hmac opts) (op_buffer opts),
       lc_randomCursor = source\<rparr>"
    by (auto simp: branded_def dest: brandedId_Inr)
  show ?thesis
    by (rule lobby_move [OF t b]) (use p(2) assms(2) in \<open>simp_all add: initialized_def resumableRandomSource_def\<close>)
qed

lemma admissionSeat_waiting:
  "admissionSeat state who = Inr (Some waiting) \<Longrightarrow> state = Lobby (WaitingGame waiting)"
  by (auto simp: admissionSeat_def Let_def split: if_splits room_state.splits game_state.splits)

lemma ensureAdmitted_outcome:
  assumes "ensureAdmittedPlayerSerial opts who joined_at db_clock h db = (ans, h', db')"
  shows "call_outcome opts h db h' db'"
  using assms
  by (auto simp: ensureAdmittedPlayerSerial_def Let_def serializeRoom_def dest!: admissionSeat_waiting
      intro!: committed_outcome [where at = "max joined_at (max (rh_committedAtMs h) (committedTimestampFloor (rh_state h)))"]
      intro: admit_move split: option.splits sum.splits if_splits prod.splits)

section \<open>The calls of a room\<close>

datatype 'raw room_call =
    PlayerCall authenticated_player 'raw int
  | TimerCall 'raw int
  | AdmitCall authenticated_player int int

fun room_call_step :: "('raw, 'db) room_options \<Rightarrow> 'raw room_call \<Rightarrow> room_handler \<times> 'db \<Rightarrow> room_handler \<times> 'db" where
  "room_call_step opts (PlayerCall who raw clock) (h, db) = snd (handleSerial opts who raw clock h db)"
| "room_call_step opts (TimerCall raw clock) (h, db) = snd (handleInternalSerial opts raw clock h db)"
| "room_call_step opts (AdmitCall who joined_at db_clock) (h, db) = snd (ensureAdmittedPlayerSerial opts who joined_at db_clock h db)"

definition room_calls :: "('raw, 'db) room_options \<Rightarrow> 'raw room_call list \<Rightarrow> room_handler \<times> 'db \<Rightarrow> room_handler \<times> 'db" where
  "room_calls opts = fold (room_call_step opts)"

lemma call_step_outcome: "room_call_step opts call (h, db) = (h', db') \<Longrightarrow> call_outcome opts h db h' db'"
  by (cases call) (auto simp: snd_def split: prod.splits
      intro: handleSerial_outcome handleInternalSerial_outcome ensureAdmitted_outcome)

text \<open>The text that is stored is the state in memory.\<close>

definition in_step :: "('db \<Rightarrow> room_lease \<Rightarrow> (string \<times> int) option) \<Rightarrow> room_lease \<Rightarrow> room_handler \<Rightarrow> 'db \<Rightarrow> bool" where
  "in_step stored lease h db \<longleftrightarrow>
     (\<exists>doc. serializeRoom (rh_state h) = Some doc \<and> stored db lease = Some (doc, room_version (rh_state h)))"

text \<open>The calls a player makes while others come in between, as the handler sees them.\<close>

locale room_server = fenced_store find put stored answered owned
  for find :: "room_lease \<Rightarrow> string \<Rightarrow> persisted_command \<Rightarrow> int \<Rightarrow> 'db \<Rightarrow> store_error + acknowledgement option"
    and put :: "room_lease \<Rightarrow> room_event commit_value \<Rightarrow> int \<Rightarrow> 'db \<Rightarrow> (store_error + commit_result) \<times> 'db"
    and stored :: "'db \<Rightarrow> room_lease \<Rightarrow> (string \<times> int) option"
    and answered :: "'db \<Rightarrow> room_lease \<Rightarrow> string \<Rightarrow> persisted_command \<Rightarrow> acknowledgement option"
    and owned :: "'db \<Rightarrow> room_lease \<Rightarrow> int \<Rightarrow> bool" +
  fixes opts :: "('raw, 'db) room_options"
  assumes opts_store: "op_store opts = \<lparr>so_findReplay = find, so_commit = put\<rparr>"
begin

lemma outcome_cases:
  assumes "call_outcome opts h db h' db'"
  obtains (kept) "h' = h" "db' = db"
  | (moved) v now r where "room_move (op_hmac opts) (op_buffer opts) (rh_state h) (rh_state h')"
      "serializeRoom (rh_state h') = Some (cv_serializedState v)" "cv_stateVersion v = room_version (rh_state h')"
      "put (op_lease opts) v now db = (Inr r, db')" "\<not> cr_duplicate r"
  using assms by cases (auto simp: opts_store dest: put_fails put_again)

lemma outcome_keeps:
  assumes "call_outcome opts h db h' db'" "room_sound (op_buffer opts) (rh_state h)" "in_step stored (op_lease opts) h db"
  shows "room_sound (op_buffer opts) (rh_state h') \<and> in_step stored (op_lease opts) h' db' \<and>
    (h' = h \<and> db' = db \<or> room_version (rh_state h') = room_version (rh_state h) + 1)"
  using assms(1)
proof (cases rule: outcome_cases)
  case (moved v now r)
  from move_sound [OF moved(1) assms(2)] moved(2)
  have "room_sound (op_buffer opts) (rh_state h')" "room_version (rh_state h') = room_version (rh_state h) + 1" by simp_all
  moreover have "in_step stored (op_lease opts) h' db'"
    using put_stores [OF moved(4,5)] moved(2,3) by (simp add: in_step_def)
  ultimately show ?thesis by simp
qed (use assms in simp)

lemma calls_keep:
  assumes "room_sound (op_buffer opts) (rh_state h)" "in_step stored (op_lease opts) h db"
    and "room_calls opts calls (h, db) = (h', db')"
  shows "room_sound (op_buffer opts) (rh_state h') \<and> in_step stored (op_lease opts) h' db' \<and>
    room_version (rh_state h) \<le> room_version (rh_state h') \<and>
    room_version (rh_state h') \<le> room_version (rh_state h) + int (length calls)"
  using assms
proof (induction calls arbitrary: h db)
  case Nil
  then show ?case by (simp add: room_calls_def)
next
  case (Cons call calls)
  obtain h1 db1 where step: "room_call_step opts call (h, db) = (h1, db1)" by fastforce
  note one = outcome_keeps [OF call_step_outcome [OF step] Cons.prems(1,2)]
  moreover from Cons.prems(3) step have "room_calls opts calls (h1, db1) = (h', db')" by (simp add: room_calls_def)
  ultimately show ?case using Cons.IH [of h1 db1] by auto
qed

lemma outcome_answers:
  "call_outcome opts h db h' db' \<Longrightarrow> answered db l player command = Some ack \<Longrightarrow> answered db' l player command = Some ack"
  by (cases rule: outcome_cases) (auto dest: put_keeps)

lemma calls_answer:
  assumes "answered db l player command = Some ack" "room_calls opts calls (h, db) = (h', db')"
  shows "answered db' l player command = Some ack"
  using assms
proof (induction calls arbitrary: h db)
  case (Cons call calls)
  obtain h1 db1 where step: "room_call_step opts call (h, db) = (h1, db1)" by fastforce
  from outcome_answers [OF call_step_outcome [OF step] Cons.prems(1)] Cons.IH [of db1 h1] Cons.prems(2) step
  show ?case by (simp add: room_calls_def)
qed (simp add: room_calls_def)

lemma commitDecision_answered:
  assumes "commitDecision opts h db v next now = (Inr (HandledAccepted ack events again), h', db')"
  shows "answered db' (op_lease opts) (cv_playerId v) (cv_command v) = Some ack"
proof -
  obtain r db1 where r: "put (op_lease opts) v now db = (r, db1)" by fastforce
  with assms show ?thesis
    by (cases r) (auto simp: commitDecision_def opts_store Let_def dest: put_again put_stores split: if_splits)
qed

lemma handled_answered:
  assumes "handleSerial opts who raw clock h db = (Inr (HandledAccepted ack events again), h', db')"
  obtains rq where "parseRoomCommand (op_contracts opts) raw = Some rq" "validOpaqueId (au_playerId who)"
    "answered db' (op_lease opts) (au_playerId who) (persisted rq) = Some ack"
proof -
  from assms obtain rq now where rq: "parseRoomCommand (op_contracts opts) raw = Some rq" "commandTimestampMs h clock = Inr now"
    by (auto simp: handleSerial_def invalidCommand_def refuse_def Let_def split: option.splits sum.splits if_splits)
  with assms obtain known where known: "find (op_lease opts) (au_playerId who) (persisted rq) now db = Inr known"
    by (cases "find (op_lease opts) (au_playerId who) (persisted rq) now db") (auto simp: handleSerial_def opts_store)
  then have "validOpaqueId (au_playerId who)" by (rule find_player)
  moreover have "answered db' (op_lease opts) (au_playerId who) (persisted rq) = Some ack"
  proof (cases known)
    case (Some a)
    with assms rq known find_answered show ?thesis by (auto simp: handleSerial_def opts_store)
  next
    case None
    from assms rq known None obtain v reached where "commitDecision opts h db v reached now = (Inr (HandledAccepted ack events again), h', db')"
      "cv_playerId v = au_playerId who" "cv_command v = persisted rq"
      by (auto simp: handleSerial_def opts_store refuse_def Let_def commit_value_of_def decideGameplay_def decideLifecycle_def
        split: option.splits sum.splits decision.splits room_state.splits if_splits room_body.splits transition_result.splits)
    then show ?thesis using commitDecision_answered by metis
  qed
  ultimately show thesis using that rq(1) by blast
qed

lemma answered_again:
  assumes "answered db (op_lease opts) (au_playerId who) (persisted rq) = Some ack" "validOpaqueId (au_playerId who)"
    and "parseRoomCommand (op_contracts opts) raw = Some rq" "commandTimestampMs h clock = Inr now" "owned db (op_lease opts) now"
  shows "handleSerial opts who raw clock h db = (Inr (HandledAccepted ack [] True), h, db)"
  using assms find_known by (simp add: handleSerial_def opts_store Let_def)

lemma command_once:
  assumes "handleSerial opts who raw clock h db = (Inr (HandledAccepted ack events again), h1, db1)"
    and "room_calls opts calls (h1, db1) = (h2, db2)"
    and "commandTimestampMs h2 clock2 = Inr now" "owned db2 (op_lease opts) now"
  shows "handleSerial opts who raw clock2 h2 db2 = (Inr (HandledAccepted ack [] True), h2, db2)"
  using handled_answered [OF assms(1)] calls_answer [OF _ assms(2)] answered_again [OF _ _ _ assms(3,4)] by metis

end

section \<open>The server\<close>

definition server_options ::
  "room_lease \<Rightarrow> 'raw room_contracts \<Rightarrow> digest \<Rightarrow> hmac \<Rightarrow> buffer_codec \<Rightarrow> room_event contract_checks \<Rightarrow> bool \<Rightarrow>
   (room_state \<Rightarrow> bool) \<Rightarrow> ('raw, room_event database) room_options" where
  "server_options lease contracts sha256 hmac buffer checks hook throws =
     \<lparr>op_lease = lease,
      op_store = \<lparr>so_findReplay = lookup_reply sha256, so_commit = commit sha256 checks (quiet_hooks hook)\<rparr>,
      op_contracts = contracts, op_sha256 = sha256, op_hmac = hmac, op_buffer = buffer, op_onCommittedThrows = throws\<rparr>"

lemma server_options_simps [simp]:
  "op_lease (server_options lease contracts sha256 hmac buffer checks hook throws) = lease"
  "op_buffer (server_options lease contracts sha256 hmac buffer checks hook throws) = buffer"
  "op_hmac (server_options lease contracts sha256 hmac buffer checks hook throws) = hmac"
  "op_contracts (server_options lease contracts sha256 hmac buffer checks hook throws) = contracts"
  by (simp_all add: server_options_def)

interpretation server: room_server "lookup_reply sha256" "commit sha256 checks (quiet_hooks hook)" storedAt "answeredBy sha256"
    assertOwned "server_options lease contracts sha256 hmac buffer checks hook throws"
  for lease contracts sha256 hmac buffer checks hook throws
  by unfold_locales (simp add: server_options_def)

end
