(* ===== verification/Store_Run.thy ===== *)
theory Store_Run
  imports Store_Laws
begin

text \<open>
  Sequences of calls on the store, by any number of server instances and leases: fencing tokens only grow, a lease that
  was superseded has no effect any more, the stored versions never go back, and no version is committed twice.
\<close>

section \<open>Calls\<close>

datatype 'e store_call =
    Acquire lease_repository string string int
  | Renew lease_repository room_lease int
  | Release room_lease int
  | MarkConnected room_lease int
  | MarkAllOffline room_lease int
  | Initialize room_lease int string int
  | Save room_lease int int string int
  | Load room_lease int
  | CommitCommand room_lease "'e commit_value" int

definition ran :: "'e database \<Rightarrow> ('e, 'a) transaction \<Rightarrow> store_error option \<times> 'e database" where
  "ran db work = (case work db of Inl e \<Rightarrow> (Some e, db) | Inr (_, db') \<Rightarrow> (None, db'))"

text \<open>The error of a call, if any, and the tables after it.\<close>

fun store_step ::
  "digest \<Rightarrow> 'e contract_checks \<Rightarrow> commit_hooks \<Rightarrow> 'e store_call \<Rightarrow> 'e database \<Rightarrow> store_error option \<times> 'e database" where
  "store_step sha256 checks hooks (Acquire repo room game now) db = ran db (acquire repo room game now)"
| "store_step sha256 checks hooks (Renew repo lease now) db = ran db (renew repo lease now)"
| "store_step sha256 checks hooks (Release lease now) db = ran db (release lease now)"
| "store_step sha256 checks hooks (MarkConnected lease now) db = ran db (markConnected lease now)"
| "store_step sha256 checks hooks (MarkAllOffline lease now) db = ran db (markAllOffline lease now)"
| "store_step sha256 checks hooks (Initialize lease version serialized now) db =
     ran db (initialize sha256 lease version serialized now)"
| "store_step sha256 checks hooks (Save lease expected version serialized now) db =
     ran db (save sha256 lease expected version serialized now)"
| "store_step sha256 checks hooks (Load lease now) db = ran db (load sha256 lease now)"
| "store_step sha256 checks hooks (CommitCommand lease v now) db =
     (case commit sha256 checks hooks lease v now db of (Inl e, db') \<Rightarrow> (Some e, db') | (Inr _, db') \<Rightarrow> (None, db'))"

definition store_calls ::
  "digest \<Rightarrow> 'e contract_checks \<Rightarrow> commit_hooks \<Rightarrow> 'e store_call list \<Rightarrow> 'e database \<Rightarrow> 'e database" where
  "store_calls sha256 checks hooks calls db = fold (\<lambda>call db. snd (store_step sha256 checks hooks call db)) calls db"

lemma store_calls_simps [simp]:
  "store_calls sha256 checks hooks [] db = db"
  "store_calls sha256 checks hooks (call # calls) db =
     store_calls sha256 checks hooks calls (snd (store_step sha256 checks hooks call db))"
  by (simp_all add: store_calls_def)

lemma store_calls_keep:
  assumes "P db" "\<And>call db. P db \<Longrightarrow> P (snd (store_step sha256 checks hooks call db))"
  shows "P (store_calls sha256 checks hooks calls db)"
  using assms(1) by (induction calls arbitrary: db) (simp_all add: assms(2))

text \<open>The lease a call is made under.\<close>

fun lease_used :: "'e store_call \<Rightarrow> room_lease option" where
  "lease_used (Acquire _ _ _ _) = None"
| "lease_used (Renew _ lease _) = Some lease"
| "lease_used (Release lease _) = Some lease"
| "lease_used (MarkConnected lease _) = Some lease"
| "lease_used (MarkAllOffline lease _) = Some lease"
| "lease_used (Initialize lease _ _ _) = Some lease"
| "lease_used (Save lease _ _ _ _) = Some lease"
| "lease_used (Load lease _) = Some lease"
| "lease_used (CommitCommand lease _ _) = Some lease"

text \<open>The effect of every call, in one place: what it may do to the tables.\<close>

lemma commit_step:
  assumes "commit sha256 checks hooks lease v now db = (r, db')"
  obtains "db' = db" | row where "assertOwned db lease now" "validCommit checks v = None"
      "db_commands db (command_key_of lease (cv_playerId v) (cv_command v)) = None" "fenced_row db lease = Some row"
      "ck_stateVersion row = pc_expectedStateVersion (cv_command v)" "recorded sha256 lease v now row db db'"
proof (cases "validCommit checks v")
  case (Some e)
  with assms show thesis by (auto simp: commit_def intro: that(1))
next
  case None
  show thesis
  proof (cases "commitTransaction sha256 checks hooks lease v now db")
    case (Inl e)
    with assms None show thesis by (auto simp: commit_def withTransaction_def intro: that(1))
  next
    case (Inr y)
    then obtain result db1 where y: "commitTransaction sha256 checks hooks lease v now db = Inr (result, db1)"
      by (cases y) auto
    with assms None have "db' = db1" by (auto simp: commit_def withTransaction_def split: if_splits)
    with commitTransaction_effect [OF y] None that show thesis by metis
  qed
qed

section \<open>Fencing\<close>

definition token_of :: "'e database \<Rightarrow> string \<Rightarrow> int" where
  "token_of db room = (case db_leases db room of None \<Rightarrow> 0 | Some row \<Rightarrow> lr_fencingToken row)"

lemmas store_operations = ran_def acquire_def renew_def release_def markConnected_def markAllOffline_def initialize_def
  save_def load_def answer_row_def put_checkpoint_def fenceRoom_def

lemma owned_token: "assertOwned db lease now \<Longrightarrow> token_of db (ls_roomId lease) = ls_fencingToken lease"
  by (auto simp: assertOwned_def token_of_def matches_lease_def split: option.splits)

lemma commit_tokens: "commit sha256 checks hooks lease v now db = (r, db') \<Longrightarrow> token_of db' room = token_of db room"
  by (erule commit_step) (auto simp: token_of_def recorded_def)

lemma tokens_grow: "token_of db room \<le> token_of (snd (store_step sha256 checks hooks call db)) room"
proof (cases call)
  case (CommitCommand lease v now)
  obtain r db' where c: "commit sha256 checks hooks lease v now db = (r, db')" by fastforce
  with commit_tokens [OF c, of room] CommitCommand show ?thesis by (auto split: sum.split)
qed (auto simp: token_of_def store_operations fenced_row_def Let_def option.map_comp comp_def split: option.split sum.split)

lemma not_owned_commit:
  "\<not> assertOwned db lease now \<Longrightarrow> \<exists>e. commit sha256 checks hooks lease v now db = (Inl e, db)"
  by (auto simp: commit_def withTransaction_def commitTransaction_def Let_def split: option.split)

lemma superseded_call:
  assumes "lease_used call = Some lease" "ls_fencingToken lease < token_of db (ls_roomId lease)"
  shows "snd (store_step sha256 checks hooks call db) = db"
    "fst (store_step sha256 checks hooks call db) = None \<longleftrightarrow> (\<exists>now. call = Release lease now)"
proof -
  have not_owned: "\<not> assertOwned db lease now" for now using owned_token [of db lease now] assms(2) by auto
  have failed: "\<exists>e. commit sha256 checks hooks lease v now db = (Inl e, db)" for v now
    using not_owned by (rule not_owned_commit)
  have "snd (store_step sha256 checks hooks call db) = db \<and>
      (fst (store_step sha256 checks hooks call db) = None \<longleftrightarrow> (\<exists>now. call = Release lease now))"
  proof (cases call)
    case (CommitCommand l v now)
    with assms(1) failed [of v now] show ?thesis by auto
  qed (use assms(1) not_owned in \<open>auto simp: store_operations Let_def split: option.splits\<close>)
  then show "snd (store_step sha256 checks hooks call db) = db"
    "fst (store_step sha256 checks hooks call db) = None \<longleftrightarrow> (\<exists>now. call = Release lease now)" by auto
qed

lemma calls_grow_tokens: "token_of db room \<le> token_of (store_calls sha256 checks hooks calls db) room"
proof (induction calls arbitrary: db)
  case (Cons call calls)
  from tokens_grow [of db room sha256 checks hooks call] Cons.IH [of "snd (store_step sha256 checks hooks call db)"]
  show ?case by simp
qed simp

text \<open>A take-over: another owner, or the same after the lease ran out.\<close>

lemma takeover_token:
  assumes "acquire repo room game now db = Inr (new, db')" "db_leases db room = Some row"
    and "lr_instanceId row \<noteq> rp_ownerId repo \<or> lr_leaseUntil row \<le> now"
  shows "ls_fencingToken new = lr_fencingToken row + 1" "token_of db' room = ls_fencingToken new" "ls_roomId new = room"
  using assms by (auto simp: acquire_def lease_of_def token_of_def Let_def split: if_splits)

section \<open>What every stored row satisfies\<close>

text \<open>A stored checkpoint can be read back, and it belongs to the current lease of its room.\<close>

definition row_ok :: "digest \<Rightarrow> 'e database \<Rightarrow> string \<Rightarrow> checkpoint_row \<Rightarrow> bool" where
  "row_ok sha256 db room row \<longleftrightarrow>
     (\<exists>lease. db_leases db room = Some lease \<and> ck_gameId row = lr_gameId lease \<and>
       ck_fencingToken row = lr_fencingToken lease) \<and>
     ck_schemaVersion row = CHECKPOINT_SCHEMA_VERSION \<and> isSafeInteger (ck_stateVersion row) \<and> 0 \<le> ck_stateVersion row \<and>
     validateCheckpointSnapshot (ck_serialized row) (ck_stateVersion row) \<and> ck_checksum row = sha256 (ck_serialized row)"

text \<open>The versions committed for a room, with their keys.\<close>

definition committed_keys :: "'e database \<Rightarrow> string \<Rightarrow> (string \<times> string) set" where
  "committed_keys db room = {(player, request). db_commands db (room, player, request) \<noteq> None}"

definition committed_version :: "'e database \<Rightarrow> string \<Rightarrow> string \<times> string \<Rightarrow> int" where
  "committed_version db room key = (case db_commands db (room, key) of None \<Rightarrow> 0 | Some row \<Rightarrow> cw_committedStateVersion row)"

definition stored_version :: "'e database \<Rightarrow> string \<Rightarrow> int" where
  "stored_version db room = (case db_checkpoints db room of None \<Rightarrow> -1 | Some row \<Rightarrow> ck_stateVersion row)"

definition rows_ok :: "digest \<Rightarrow> 'e database \<Rightarrow> bool" where
  "rows_ok sha256 db \<longleftrightarrow> (\<forall>room row. db_checkpoints db room = Some row \<longrightarrow> row_ok sha256 db room row)"

definition ledger_ok :: "'e database \<Rightarrow> string \<Rightarrow> bool" where
  "ledger_ok db room \<longleftrightarrow>
     inj_on (committed_version db room) (committed_keys db room) \<and>
     (\<forall>key \<in> committed_keys db room. 0 \<le> committed_version db room key \<and> committed_version db room key \<le> stored_version db room)"

lemma validated_version:
  assumes "validateCheckpointSnapshot serialized version"
  shows "isSafeInteger version \<and> 0 \<le> version"
proof -
  from assms consider g where "parseSnapshot serialized = Some g" "state_version g = version"
    | a where "parseGameplaySnapshot serialized = Some a" "aggregate_stateVersion a = version"
    by (auto simp: validateCheckpointSnapshot_def split: option.splits)
  then show ?thesis
  proof cases
    case 1
    from lobby_snapshot.version_ok [OF lobby_snapshot.parsed_ok [OF 1(1)]] 1(2)
    show ?thesis by (auto simp: in_range_def isSafeInteger_def MAX_STATE_VERSION_def MAX_SAFE_INTEGER_def)
  next
    case 2
    from gameplay_snapshot.version_ok [OF gameplay_snapshot.parsed_ok [OF 2(1)]] 2(2)
    show ?thesis by (auto simp: in_range_def isSafeInteger_def MAX_STATE_VERSION_def MAX_SAFE_INTEGER_def)
  qed
qed

lemma owned_row:
  assumes "assertOwned db lease now"
  obtains row where "db_leases db (ls_roomId lease) = Some row" "lr_gameId row = ls_gameId lease"
    "lr_fencingToken row = ls_fencingToken lease"
  using assms by (auto simp: assertOwned_def matches_lease_def split: option.splits)

lemma row_ok_leases:
  "db_leases db' room = db_leases db room \<Longrightarrow> row_ok sha256 db' room row \<longleftrightarrow> row_ok sha256 db room row"
  by (simp add: row_ok_def)

lemma new_row_ok:
  assumes "assertOwned db lease now" "validateCheckpointSnapshot serialized version"
  shows "row_ok sha256 db (ls_roomId lease) (checkpoint_row_for sha256 lease version serialized at)"
proof -
  from assms(1) obtain row where "db_leases db (ls_roomId lease) = Some row" "lr_gameId row = ls_gameId lease"
    "lr_fencingToken row = ls_fencingToken lease" by (rule owned_row)
  with validated_version [OF assms(2)] assms(2) show ?thesis by (simp add: row_ok_def checkpoint_row_for_def)
qed

lemma rows_put:
  assumes "rows_ok sha256 db" "db_leases db' = db_leases db" "row_ok sha256 db room row"
    and "db_checkpoints db' = (db_checkpoints db)(room := Some row)"
  shows "rows_ok sha256 db'"
  using assms by (auto simp: rows_ok_def row_ok_def)

lemma rows_written:
  assumes "rows_ok sha256 db" "assertOwned db lease now" "validateCheckpointSnapshot serialized version"
  shows "rows_ok sha256 (put_checkpoint (ls_roomId lease) (checkpoint_row_for sha256 lease version serialized at) db)"
  by (rule rows_put [OF assms(1) _ new_row_ok [OF assms(2,3)]]) (simp_all add: put_checkpoint_def)

lemma rows_same:
  assumes "rows_ok sha256 db" "db_checkpoints db' = db_checkpoints db"
    and "\<And>room. map_option (\<lambda>l. (lr_gameId l, lr_fencingToken l)) (db_leases db' room) =
      map_option (\<lambda>l. (lr_gameId l, lr_fencingToken l)) (db_leases db room)"
  shows "rows_ok sha256 db'"
  unfolding rows_ok_def
proof (intro allI impI)
  fix room row
  assume "db_checkpoints db' room = Some row"
  with assms(1,2) have "row_ok sha256 db room row" by (simp add: rows_ok_def)
  with assms(3) [of room] show "row_ok sha256 db' room row"
    by (cases "db_leases db' room"; cases "db_leases db room") (auto simp: row_ok_def)
qed

lemma rows_acquire:
  assumes "rows_ok sha256 db" "acquire repo room game now db = Inr (new, db')"
  shows "rows_ok sha256 db'"
  unfolding rows_ok_def
proof (intro allI impI)
  fix r row
  assume row: "db_checkpoints db' r = Some row"
  show "row_ok sha256 db' r row"
  proof (cases "r = room")
    case False
    with assms(2) have "db_leases db' r = db_leases db r" "db_checkpoints db' r = db_checkpoints db r"
      by (auto simp: acquire_def fenceRoom_def Let_def split: option.splits if_splits)
    with row assms(1) show ?thesis by (simp add: rows_ok_def row_ok_leases [of db' r db])
  next
    case True
    from assms(2) have kept: "db_checkpoints db' room = None \<longleftrightarrow> db_checkpoints db room = None"
      by (auto simp: acquire_def fenceRoom_def Let_def split: option.splits if_splits)
    with row True obtain old where old: "db_checkpoints db room = Some old" by fastforce
    with assms(1) have ok: "row_ok sha256 db room old" by (simp add: rows_ok_def)
    then obtain current where "db_leases db room = Some current" by (auto simp: row_ok_def)
    with assms(2) row True old ok show ?thesis
      by (auto simp: acquire_def fenceRoom_def row_ok_def Let_def split: if_splits)
  qed
qed

lemma moved_row_ok:
  assumes "rows_ok sha256 db" "fenced_row db lease = Some row" "validCommit checks v = None"
  shows "row_ok sha256 db (ls_roomId lease) (moved_row sha256 v now row)"
proof -
  from assms(3) have "validateCheckpointSnapshot (cv_serializedState v) (cv_stateVersion v)"
    by (auto simp: validCommit_def split: if_splits)
  moreover from assms(1,2) have "row_ok sha256 db (ls_roomId lease) row"
    by (auto simp: rows_ok_def dest: fenced_row_stored)
  ultimately show ?thesis using validated_version by (auto simp: row_ok_def moved_row_def)
qed

lemma rows_step:
  assumes "rows_ok sha256 db"
  shows "rows_ok sha256 (snd (store_step sha256 checks hooks call db))"
proof (cases call)
  case (Acquire repo room game now)
  with assms rows_acquire show ?thesis by (auto simp: ran_def split: sum.splits)
next
  case (CommitCommand lease v now)
  obtain r db' where c: "commit sha256 checks hooks lease v now db = (r, db')" by fastforce
  have "rows_ok sha256 db'"
    using c
  proof (cases rule: commit_step)
    case (2 row)
    show ?thesis
      by (rule rows_put [OF assms _ moved_row_ok [OF assms 2(4,2)]]) (use 2(6) in \<open>simp_all add: recorded_def\<close>)
  qed (use assms in simp)
  with CommitCommand c show ?thesis by (auto split: sum.split)
next
  case (Initialize lease version serialized now)
  with assms show ?thesis
    by (auto simp: ran_def initialize_def save_def answer_row_def Let_def intro: rows_written split: option.splits sum.splits)
next
  case (Save lease expected version serialized now)
  with assms show ?thesis
    by (auto simp: ran_def initialize_def save_def answer_row_def Let_def intro: rows_written split: option.splits sum.splits)
qed (use assms in \<open>auto simp: store_operations Let_def option.map_comp comp_def split: option.splits sum.splits
  intro!: rows_same [OF assms] option.map_cong0\<close>)

section \<open>The ledger of a room\<close>

lemma stored_version_nonneg:
  "rows_ok sha256 db \<Longrightarrow> db_checkpoints db room = Some row \<Longrightarrow> 0 \<le> stored_version db room"
  by (auto simp: rows_ok_def row_ok_def stored_version_def)

text \<open>A step either leaves the commands and the stored version, or only raises the version, or commits one command at
  the version that follows.\<close>

definition commits_one :: "'e database \<Rightarrow> 'e database \<Rightarrow> string \<Rightarrow> bool" where
  "commits_one db db' room \<longleftrightarrow>
     (\<exists>key row. db_commands db (room, key) = None \<and> db_commands db' = (db_commands db)((room, key) := Some row) \<and>
       cw_committedStateVersion row = stored_version db room + 1 \<and> stored_version db' room = stored_version db room + 1)"

lemma commit_ledger:
  assumes "commit sha256 checks hooks lease v now db = (r, db')" "db' \<noteq> db"
  shows "commits_one db db' (ls_roomId lease) \<and> (\<forall>room. room \<noteq> ls_roomId lease \<longrightarrow> stored_version db' room = stored_version db room)"
  using assms(1)
proof (cases rule: commit_step)
  case (2 row)
  have version: "pc_expectedStateVersion (cv_command v) = cv_stateVersion v - 1" using 2(2) by (rule valid_version)
  have "stored_version db (ls_roomId lease) = cv_stateVersion v - 1"
    using fenced_row_stored [OF 2(4)] 2(5) version by (simp add: stored_version_def)
  moreover have "stored_version db' (ls_roomId lease) = cv_stateVersion v"
    using 2(6) by (simp add: recorded_def stored_version_def moved_row_def)
  ultimately have "commits_one db db' (ls_roomId lease)"
    using 2(3,6) unfolding commits_one_def
    by (intro exI [of _ "(cv_playerId v, pc_requestId (cv_command v))"] exI [of _ "command_row_of sha256 v"])
      (simp add: recorded_def command_key_of_def command_row_of_def)
  then show ?thesis using 2(6) by (simp add: recorded_def stored_version_def)
qed (use assms(2) in simp_all)

definition raises :: "'e database \<Rightarrow> 'e database \<Rightarrow> bool" where
  "raises db db' \<longleftrightarrow> db_commands db' = db_commands db \<and> (\<forall>room. stored_version db room \<le> stored_version db' room)"

lemma raises_same: "db_commands db' = db_commands db \<Longrightarrow> db_checkpoints db' = db_checkpoints db \<Longrightarrow> raises db db'"
  by (simp add: raises_def stored_version_def)

lemma raises_put:
  "stored_version db room \<le> ck_stateVersion row \<Longrightarrow> raises db (put_checkpoint room row db)"
  by (simp add: raises_def stored_version_def put_checkpoint_def)

lemma acquire_raises: "acquire repo room game now db = Inr (new, db') \<Longrightarrow> raises db db'"
  by (auto simp: acquire_def fenceRoom_def raises_def stored_version_def Let_def split: option.splits if_splits)

lemma save_raises: "save sha256 lease expected version serialized now db = Inr (cp, db') \<Longrightarrow> raises db db'"
  by (auto simp: save_def answer_row_def checkpoint_row_for_def stored_version_def Let_def intro!: raises_put
      dest!: fenced_row_stored split: if_splits option.splits sum.splits)

lemma initialize_raises: "initialize sha256 lease version serialized now db = Inr (cp, db') \<Longrightarrow> raises db db'"
  by (auto simp: initialize_def answer_row_def checkpoint_row_for_def stored_version_def Let_def intro!: raises_put
      split: if_splits option.splits sum.splits)

lemma step_ledger:
  "raises db (snd (store_step sha256 checks hooks call db)) \<or>
    (\<exists>r. commits_one db (snd (store_step sha256 checks hooks call db)) r \<and>
      (\<forall>room. room \<noteq> r \<longrightarrow> stored_version (snd (store_step sha256 checks hooks call db)) room = stored_version db room))"
proof (cases call)
  case (CommitCommand lease v now)
  obtain r db1 where c: "commit sha256 checks hooks lease v now db = (r, db1)" by fastforce
  with commit_ledger [OF c] CommitCommand show ?thesis by (cases "db1 = db") (auto simp: raises_same split: sum.splits)
qed (auto simp: ran_def raises_same markConnected_def markAllOffline_def renew_def release_def load_def Let_def
    dest: acquire_raises save_raises initialize_raises split: sum.splits if_splits option.splits)

lemma committed_version_update:
  assumes "db_commands db' = (db_commands db)((r, k) := Some row)"
  shows "committed_keys db' room = (if room = r then insert k (committed_keys db room) else committed_keys db room)"
    "committed_version db' room key = (if room = r \<and> key = k then cw_committedStateVersion row else committed_version db room key)"
  using assms by (auto simp: committed_keys_def committed_version_def)

lemma ledger_commit:
  assumes "ledger_ok db room" "commits_one db db' r" "room \<noteq> r \<Longrightarrow> stored_version db' room = stored_version db room"
    and "-1 \<le> stored_version db r"
  shows "ledger_ok db' room"
proof -
  from assms(2) obtain key row where k: "db_commands db (r, key) = None" "db_commands db' = (db_commands db)((r, key) := Some row)"
    "cw_committedStateVersion row = stored_version db r + 1" "stored_version db' r = stored_version db r + 1"
    by (auto simp: commits_one_def)
  note upd = committed_version_update [OF k(2)]
  show ?thesis
  proof (cases "room = r")
    case True
    have new: "key \<notin> committed_keys db r" using k(1) by (simp add: committed_keys_def)
    have bound: "committed_version db r k' \<le> stored_version db r" "0 \<le> committed_version db r k'"
      if "k' \<in> committed_keys db r" for k'
      using assms(1) True that by (auto simp: ledger_ok_def)
    have "inj_on (committed_version db' r) (insert key (committed_keys db r))"
      unfolding inj_on_insert
      using assms(1) True new bound k(3)
      by (auto simp: ledger_ok_def inj_on_def upd image_iff dest!: bound(1))
    moreover have "committed_version db r k' \<le> stored_version db r + 1" if "k' \<in> committed_keys db r" for k'
      using bound(1) [OF that] by simp
    ultimately show ?thesis using bound(2) k(3,4) assms(4) True by (auto simp: ledger_ok_def upd)
  next
    case False
    with assms(1,3) show ?thesis by (simp add: ledger_ok_def upd inj_on_def)
  qed
qed

lemma stored_version_lower: "rows_ok sha256 db \<Longrightarrow> -1 \<le> stored_version db room"
  using stored_version_nonneg [of sha256 db room] by (cases "db_checkpoints db room") (auto simp: stored_version_def)

lemma ledger_raises: "ledger_ok db room \<Longrightarrow> raises db db' \<Longrightarrow> ledger_ok db' room"
proof -
  assume ok: "ledger_ok db room" and r: "raises db db'"
  from r have "committed_keys db' room = committed_keys db room" "committed_version db' room = committed_version db room"
    by (simp_all add: raises_def committed_keys_def committed_version_def fun_eq_iff)
  with ok r show ?thesis unfolding ledger_ok_def raises_def by (metis order_trans)
qed

lemma ledger_step:
  assumes "rows_ok sha256 db" "ledger_ok db room"
  shows "ledger_ok (snd (store_step sha256 checks hooks call db)) room"
  using step_ledger [of db sha256 checks hooks call] ledger_raises [OF assms(2)] ledger_commit [OF assms(2)]
    stored_version_lower [OF assms(1)] by blast

lemma step_version:
  "stored_version db room \<le> stored_version (snd (store_step sha256 checks hooks call db)) room"
  using step_ledger [of db sha256 checks hooks call]
proof
  assume "\<exists>r. commits_one db (snd (store_step sha256 checks hooks call db)) r \<and>
    (\<forall>room. room \<noteq> r \<longrightarrow> stored_version (snd (store_step sha256 checks hooks call db)) room = stored_version db room)"
  then obtain r where "stored_version (snd (store_step sha256 checks hooks call db)) r = stored_version db r + 1"
    "\<forall>room. room \<noteq> r \<longrightarrow> stored_version (snd (store_step sha256 checks hooks call db)) room = stored_version db room"
    by (auto simp: commits_one_def)
  then show ?thesis by (cases "room = r") auto
qed (simp add: raises_def)

text \<open>The tables before the first call.\<close>

definition empty_database :: "'e database" where
  "empty_database = \<lparr>db_leases = Map.empty, db_checkpoints = Map.empty, db_presence = Map.empty, db_commands = Map.empty,
     db_events = Map.empty, db_proofs = Map.empty, db_finalizations = Map.empty\<rparr>"

lemma rows_empty: "rows_ok sha256 empty_database"
  by (simp add: rows_ok_def empty_database_def)

lemma ledger_empty: "ledger_ok empty_database room"
  by (simp add: ledger_ok_def committed_keys_def empty_database_def)

lemma calls_rows: "rows_ok sha256 db \<Longrightarrow> rows_ok sha256 (store_calls sha256 checks hooks calls db)"
  by (rule store_calls_keep) (simp_all add: rows_step)

lemma calls_ledger:
  assumes "rows_ok sha256 db" "ledger_ok db room"
  shows "ledger_ok (store_calls sha256 checks hooks calls db) room"
  using store_calls_keep [of "\<lambda>db. rows_ok sha256 db \<and> ledger_ok db room" db sha256 checks hooks calls] assms
  by (simp add: rows_step ledger_step)

lemma calls_version: "stored_version db room \<le> stored_version (store_calls sha256 checks hooks calls db) room"
proof (induction calls arbitrary: db)
  case (Cons call calls)
  from step_version [of db room sha256 checks hooks call] Cons.IH [of "snd (store_step sha256 checks hooks call db)"]
  show ?case by simp
qed simp

section \<open>Recovery\<close>

text \<open>Once the lease of a room has run out, any owner takes it over and reads the checkpoint that was stored.\<close>

lemma parse_row_ok:
  "row_ok sha256 db room row \<Longrightarrow> parseRow sha256 row = Inr \<lparr>rc_checksum = hex_text (sha256 (ck_serialized row)),
     rc_fencingToken = ck_fencingToken row, rc_schemaVersion = ck_schemaVersion row, rc_serializedState = ck_serialized row,
     rc_stateVersion = ck_stateVersion row, rc_updatedAt = ck_updatedAt row\<rparr>"
  by (auto simp: row_ok_def parseRow_def)

lemma takeover_loads:
  assumes "rows_ok sha256 db" "storedAt db lease = Some (doc, version)" "db_leases db (ls_roomId lease) = Some current"
    and "lr_leaseUntil current \<le> now" "now < now + rp_leaseDurationMs repo" "later < now + rp_leaseDurationMs repo"
  obtains new db' checkpoint where "acquire repo (ls_roomId lease) (lr_gameId current) now db = Inr (new, db')"
    "load sha256 new later db' = Inr (Some checkpoint, db')" "rc_serializedState checkpoint = doc" "rc_stateVersion checkpoint = version"
proof -
  from assms(2) obtain row where row: "db_checkpoints db (ls_roomId lease) = Some row" "ck_serialized row = doc" "ck_stateVersion row = version"
    by (auto simp: storedAt_def)
  obtain new db' where acq: "acquire repo (ls_roomId lease) (lr_gameId current) now db = Inr (new, db')"
    using assms(3,4) by (auto simp: acquire_def Let_def)
  have rows: "rows_ok sha256 db'" by (rule rows_acquire [OF assms(1) acq])
  from acq assms(3,4,6) have owned: "assertOwned db' new later" and room: "ls_roomId new = ls_roomId lease"
    by (auto simp: acquire_def assertOwned_def matches_lease_def lease_of_def Let_def split: if_splits)
  from acq row(1) assms(3,4) obtain fenced where fenced: "db_checkpoints db' (ls_roomId lease) = Some fenced"
    "ck_serialized fenced = doc" "ck_stateVersion fenced = version"
    using row(2,3) by (auto simp: acquire_def fenceRoom_def Let_def split: if_splits)
  have ok: "row_ok sha256 db' (ls_roomId lease) fenced" using rows fenced(1) by (simp add: rows_ok_def)
  obtain current' where "db_leases db' (ls_roomId new) = Some current'" "lr_gameId current' = ls_gameId new"
    "lr_fencingToken current' = ls_fencingToken new" using owned by (rule owned_row)
  with ok room fenced have "fenced_row db' new = Some fenced" by (simp add: row_ok_def fenced_row_def)
  with owned parse_row_ok [OF ok] fenced(2,3) that [OF acq] show thesis by (simp add: load_def)
qed

end
