(* ===== verification/Snapshot_Size.thy ===== *)
theory Snapshot_Size
  imports Room_State Game_Invariant Lifecycle
begin

text \<open>
  How long the stored text of a room can get: every lobby and every game in play or finished stays far below the
  limit of the checkpoint repository, so no commit fails on the size of the state.
\<close>

section \<open>The size of a text\<close>

text \<open>A bound on the text of a value with safe numbers.\<close>

fun text_bound :: "json \<Rightarrow> nat" where
  "text_bound (JNumber n) = 17"
| "text_bound (JUnsafe t) = length t"
| "text_bound (JText s) = 2 + 6 * length s"
| "text_bound (JArray vs) = 2 + sum_list (map (\<lambda>v. 1 + text_bound v) vs)"
| "text_bound (JObject kvs) = 2 + sum_list (map (\<lambda>kv. 4 + 6 * length (fst kv) + text_bound (snd kv)) kvs)"
| "text_bound _ = 5"

lemma length_quote: "length (quote s) \<le> 2 + 6 * length s"
proof -
  have "length (escape_char c) \<le> 6" for c by (simp add: escape_char_def Let_def)
  then have "length (concat (map escape_char s)) \<le> 6 * length s"
    by (induction s) (simp_all add: add_mono)
  then show ?thesis by (simp add: quote_def)
qed

lemma length_commas: "length (commas ts) \<le> sum_list (map (\<lambda>t. 1 + length t) ts)"
  by (induction ts rule: commas.induct) simp_all

lemma length_safe_number: "isSafeInteger n \<Longrightarrow> length (decimal_int n) \<le> 17"
proof -
  assume "isSafeInteger n"
  then have "nat n \<le> nat (10 ^ 16 - 1)" "nat (- n) \<le> nat (10 ^ 16 - 1)"
    by (auto simp: isSafeInteger_def MAX_SAFE_INTEGER_def intro!: nat_mono)
  then have "nat n < 10 ^ 16" "nat (- n) < 10 ^ 16" by simp_all
  then have "length (decimal (nat n)) \<le> 16" "length (decimal (nat (- n))) \<le> 16" by (simp_all only: decimal_length)
  then show ?thesis by (simp add: decimal_int_def)
qed

lemma length_cash: "isCash n \<Longrightarrow> length (decimal_int n) \<le> 78"
  using canonical_decimal_printed [of n] by (auto simp: canonical_decimal_def)

lemma length_stringify: "plain v \<Longrightarrow> length (stringify v) \<le> text_bound v"
proof (induction v rule: stringify.induct)
  case (6 vs)
  have "sum_list (map (\<lambda>v. 1 + length (stringify v)) vs) \<le> sum_list (map (\<lambda>v. 1 + text_bound v) vs)"
    by (rule sum_list_mono) (use 6 in \<open>simp add: list_all_iff\<close>)
  with length_commas [of "map stringify vs"] show ?case by (simp add: comp_def)
next
  case (7 kvs)
  have "sum_list (map (\<lambda>kv. 1 + length (quote (fst kv) @ CHR '':'' # stringify (snd kv))) kvs) \<le>
      sum_list (map (\<lambda>kv. 4 + 6 * length (fst kv) + text_bound (snd kv)) kvs)"
  proof (rule sum_list_mono)
    fix kv
    assume "kv \<in> set kvs"
    with 7 have "length (stringify (snd kv)) \<le> text_bound (snd kv)" by (simp add: list_all_iff)
    with length_quote [of "fst kv"] show "1 + length (quote (fst kv) @ CHR '':'' # stringify (snd kv)) \<le>
        4 + 6 * length (fst kv) + text_bound (snd kv)" by simp
  qed
  with length_commas [of "map (\<lambda>kv. quote (fst kv) @ CHR '':'' # stringify (snd kv)) kvs"] show ?case by (simp add: comp_def)
next
  case (5 s)
  show ?case using length_quote [of s] by simp
qed (simp_all add: length_safe_number)

lemma length_hexadecimal: "n < 16 ^ Suc k \<Longrightarrow> length (hexadecimal n) \<le> Suc k"
proof (induction k arbitrary: n)
  case 0
  then show ?case by (subst hexadecimal.simps) simp
next
  case (Suc k)
  then show ?case by (subst hexadecimal.simps) (simp add: less_mult_imp_div_less)
qed

lemma length_checksum: "length (checksum v) = 16"
proof -
  have "unat (fnv (canonicalStringify v)) < 16 ^ Suc 15"
    using unsigned_less [of "fnv (canonicalStringify v)", where 'a = nat] by simp
  from length_hexadecimal [OF this] show ?thesis by (simp add: checksum_def padStart_def)
qed

lemma length_envelope:
  assumes "plain v" "isSafeInteger schema" "isSafeInteger version"
  shows "length (envelope_text schema version v) \<le> text_bound v + 500"
proof -
  let ?signed = "JObject (signed_value schema version v)"
  have "plain (JObject (signed_value schema version v @ [(''checksum'', JText (checksum ?signed))]))"
    using assms by (simp add: signed_value_def)
  from length_stringify [OF this] have "length (envelope_text schema version v) \<le>
      text_bound (JObject (signed_value schema version v @ [(''checksum'', JText (checksum ?signed))]))"
    by (simp only: envelope_text_def Let_def)
  also have "\<dots> \<le> text_bound v + 500" by (simp add: signed_value_def length_checksum)
  finally show ?thesis .
qed

section \<open>The size of a value\<close>

lemma sum_bound: "list_all (\<lambda>x. f x \<le> n) xs \<Longrightarrow> length xs \<le> m \<Longrightarrow> sum_list (map f xs) \<le> m * (n :: nat)"
proof -
  assume "list_all (\<lambda>x. f x \<le> n) xs" "length xs \<le> m"
  then have "sum_list (map f xs) \<le> sum_list (map (\<lambda>_. n) xs)" by (intro sum_list_mono) (simp add: list_all_iff)
  also have "\<dots> = length xs * n" by (simp add: sum_list_triv)
  also have "\<dots> \<le> m * n" using \<open>length xs \<le> m\<close> by (rule mult_right_mono) simp
  finally show ?thesis .
qed

lemma array_bound:
  "list_all (\<lambda>x. text_bound (serializeValue (f x)) \<le> n) xs \<Longrightarrow> length xs \<le> m \<Longrightarrow>
     text_bound (serializeValue (VArray (map f xs))) \<le> 2 + m * Suc n"
  using sum_bound [of "\<lambda>x. 1 + text_bound (serializeValue (f x))" "Suc n" xs m] by (simp add: comp_def)

lemma nullable_bound: "5 \<le> n \<Longrightarrow> (\<And>y. x = Some y \<Longrightarrow> text_bound (serializeValue (f y)) \<le> n) \<Longrightarrow>
    text_bound (serializeValue (nullable f x)) \<le> n"
  by (cases x) (simp_all add: nullable_def)

lemma nullable_number: "text_bound (serializeValue (nullable VNumber x)) \<le> 17"
  by (rule nullable_bound) simp_all

lemma identifier_length: "validOpaqueId s \<Longrightarrow> length s \<le> 128"
  by (simp add: validOpaqueId_def)

lemma status_length: "length (status_text st) \<le> 10"
  by (cases st) (simp_all add: status_text_def)

lemma rng_bound: "validCheckpoint rng \<Longrightarrow> text_bound (serializeValue (rngValue rng)) \<le> 26000"
  by (simp add: rngValue_def validCheckpoint_def)

lemma seat_bound: "saved_seat i seat \<Longrightarrow> text_bound (serializeValue (seatValue seat)) \<le> 2000"
  using identifier_length [of "ps_playerId seat"] length_cash [of "ps_cash seat"] status_length [of "ps_status seat"]
  by (simp add: seatValue_def saved_seat_def)

lemma player_bound: "saved_player p \<Longrightarrow> text_bound (serializeValue (playerValue p)) \<le> 3000"
  using identifier_length [of "playerId p"] length_cash [of "cash p"] status_length [of "status p"]
  by (simp add: playerValue_def saved_player_def)

lemma property_bound: "text_bound (serializeValue (propertyValue p)) \<le> 1000"
  using nullable_number [of "ownerSeatIndex p"] by (simp add: propertyValue_def)

lemma terms_bound: "saved_terms t \<Longrightarrow> text_bound (serializeValue (termsValue t)) \<le> 2000"
proof (cases t)
  case (PropertyOnly offered requested)
  then show ?thesis using nullable_number [of offered] nullable_number [of requested] by simp
next
  case (MoneyOnly offered requested)
  moreover assume "saved_terms t"
  ultimately show ?thesis using length_cash [of offered] length_cash [of requested] by simp
next
  case (MoneyForProperty offered pos)
  moreover assume "saved_terms t"
  ultimately show ?thesis using length_cash [of offered] by simp
next
  case (PropertyForMoney pos requested)
  moreover assume "saved_terms t"
  ultimately show ?thesis using length_cash [of requested] by simp
qed

lemma trade_bound: "saved_trade t \<Longrightarrow> text_bound (serializeValue (tradeValue t)) \<le> 5000"
  using identifier_length [of "tradeId t"] terms_bound [of "tradeTerms t"] by (simp add: tradeValue_def saved_trade_def)

lemma dice_bound: "text_bound (serializeValue (diceValue roll)) \<le> 1000"
  by (simp add: diceValue_def)

lemma phase_length: "length (phase_text ph) \<le> 30"
  by (cases ph) simp_all

lemma turn_bound: "length (emittedWarnings turn) \<le> 2 \<Longrightarrow> text_bound (serializeValue (turnValue turn)) \<le> 2000"
proof -
  assume short: "length (emittedWarnings turn) \<le> 2"
  have warnings: "text_bound (serializeValue (VArray (map VNumber (emittedWarnings turn)))) \<le> 2 + 2 * Suc 17"
    by (rule array_bound [OF _ short]) (simp add: list_all_iff)
  have rest: "sum_list (map (\<lambda>kv. 4 + 6 * length (fst kv) + text_bound (serializeValue (snd kv))) (payload (phase turn))) \<le> 500"
    by (cases "phase turn") (simp_all add: deck_text_def tax_text_def split: card_deck.split tax_kind.split)
  show ?thesis
    using warnings rest phase_length [of "phase turn"]
    by (simp add: turnValue_def comp_def)
qed

lemma entry_bound: "saved_entry e \<Longrightarrow> text_bound (serializeValue (rankingValue e)) \<le> 1000"
  using length_cash [of "re_netWorth e"] by (simp add: rankingValue_def saved_entry_def)

lemma terminal_bound:
  assumes "list_all saved_entry (to_ranking t)" "length (to_ranking t) \<le> 4"
  shows "text_bound (serializeValue (terminalValue t)) \<le> 6000"
proof -
  have "text_bound (serializeValue (VArray (map rankingValue (to_ranking t)))) \<le> 2 + 4 * Suc 1000"
    by (rule array_bound [OF _ assms(2)]) (use assms(1) entry_bound in \<open>auto simp: list_all_iff\<close>)
  moreover have "length (reason_text (to_reason t)) \<le> 20"
    by (simp add: reason_text_def split: terminal_end_reason.split)
  ultimately show ?thesis by (simp add: terminalValue_def)
qed

section \<open>The size of a room\<close>

lemma lobby_bound:
  assumes "saved_base g" "sum_list (map (\<lambda>kv. 4 + 6 * length (fst kv) + text_bound (serializeValue (snd kv))) turn) \<le> 1000"
    and "length lifecycle \<le> 30"
  shows "text_bound (serializeValue (gameValue lifecycle started cancelled end' turn g)) \<le> 50000"
proof -
  have seats: "text_bound (serializeValue (VArray (map (nullable seatValue) (gm_seats g)))) \<le> 2 + 4 * Suc 2000"
  proof (rule array_bound)
    show "list_all (\<lambda>slot. text_bound (serializeValue (nullable seatValue slot)) \<le> 2000) (gm_seats g)"
    proof (unfold list_all_iff, intro ballI nullable_bound)
      fix slot seat
      assume "slot \<in> set (gm_seats g)" "slot = Some seat"
      then obtain k where "k < length (gm_seats g)" "gm_seats g ! k = Some seat" by (auto simp: in_set_conv_nth)
      then have "saved_seat (int k) seat" using assms(1) by (auto simp: saved_base_def every_index_iff)
      then show "text_bound (serializeValue (seatValue seat)) \<le> 2000" by (rule seat_bound)
    qed simp
    show "length (gm_seats g) \<le> 4" using assms(1) by (simp add: saved_base_def policy_simps)
  qed
  have "length GAMEPLAY_RULESET_ID \<le> 40" by (simp add: GAMEPLAY_RULESET_ID_def)
  with assms seats show ?thesis
    using identifier_length [of "gm_gameId g"] identifier_length [of "gm_creatorId g"] length_cash [of "gm_bankCash g"]
      length_cash [of "gm_freeParkingPool g"] rng_bound [of "gm_rng g"] nullable_number [of started] nullable_number [of cancelled]
      nullable_number [of end'] nullable_number [of "gm_timeLimitMs g"]
    by (simp add: gameValue_def saved_base_def comp_def)
qed

lemma lobby_fits:
  assumes "serializeSnapshot g = Some doc"
  shows "length doc \<le> 60000"
proof -
  have ok: "saved_lobby g" using lobby_snapshot.saves_iff [of g] assms by simp
  have "text_bound (serializeValue (stateValue g)) \<le> 50000"
    using ok by (cases g) (auto intro!: lobby_bound)
  moreover have "doc = envelope_text GAME_SCHEMA_VERSION (state_version g) (serializeValue (stateValue g))"
    using assms lobby_snapshot.signs [of g] by (simp split: if_splits)
  moreover have "isSafeInteger (state_version g)" using lobby_snapshot.version_ok [OF ok] by (simp add: in_range_def)
  ultimately show ?thesis
    using length_envelope [OF lobby_snapshot.plain_encode [OF ok] lobby_snapshot.schema_safe, of "state_version g"] by simp
qed

lemma frame_bound:
  assumes "saved_frame s" "length (gs_activeTrades s) \<le> 20" "length lifecycle \<le> 30"
    and "text_bound (serializeValue turn) \<le> 2000" "text_bound (serializeValue terminal) \<le> 6000"
  shows "text_bound (serializeValue (VObject (aggregateEntries lifecycle turn bankrupt terminal s))) \<le> 300000"
proof -
  have players: "text_bound (serializeValue (VArray (map (nullable playerValue) (gs_players s)))) \<le> 2 + 4 * Suc 3000"
    using assms(1) player_bound
    by (intro array_bound) (auto simp: saved_frame_def policy_simps list_all_iff intro!: nullable_bound)
  have properties: "text_bound (serializeValue (VArray (map propertyValue (gs_properties s)))) \<le> 2 + 40 * Suc 1000"
    using assms(1) property_bound by (intro array_bound) (auto simp: saved_frame_def list_all_iff)
  have trades: "text_bound (serializeValue (VArray (map tradeValue (gs_activeTrades s)))) \<le> 2 + 20 * Suc 5000"
    using assms(1,2) trade_bound by (intro array_bound) (auto simp: saved_frame_def list_all_iff)
  have dice: "text_bound (serializeValue (nullable diceValue (gs_lastDice s))) \<le> 1000"
    using dice_bound by (intro nullable_bound) simp_all
  have "length GAMEPLAY_RULESET_ID \<le> 40" by (simp add: GAMEPLAY_RULESET_ID_def)
  with assms players properties trades dice show ?thesis
    using identifier_length [of "gs_gameId s"] length_cash [of "gs_bankCash s"] length_cash [of "gs_freeParkingPool s"]
      rng_bound [of "gs_rng s"] nullable_number [of "gs_gameEndAtMs s"] nullable_number [of bankrupt]
    by (simp add: aggregateEntries_def saved_frame_def comp_def)
qed

lemma length_map_filter: "length (List.map_filter f xs) \<le> length xs"
  by (induction xs) (auto simp: List.map_filter_simps split: option.split)

lemma aggregate_bound:
  assumes "aggregate_inv a"
  shows "text_bound (serializeValue (aggregateValue a)) \<le> 300000"
proof (cases a)
  case (InProgress s)
  with assms have valid: "isValidActiveGameplayAggregateState s" and book: "book_ok s" by (simp_all add: game_inv_def)
  have "length (gs_activeTrades s) \<le> 20" using book by (simp add: book_ok_def validTradeState_iff)
  moreover have "length (emittedWarnings (as_turn s)) \<le> 2"
    using valid by (auto simp: isValidActive_iff clock_ok_def warning_history_def)
  ultimately show ?thesis unfolding InProgress aggregateValue.simps
    by (intro frame_bound valid_aggregate_in_range(1) [OF valid] turn_bound) simp_all
next
  case (Finished f)
  with assms have valid: "isValidFinishedGameplayAggregateState f" by simp
  then have parts: "validStateFrame f" "gs_activeTrades f = []"
    and ranked: "length (to_ranking (fs_terminal f)) = length (activePlayers (gs_players f))"
    by (auto simp: isValidFinishedGameplayAggregateState_def Let_def split: if_splits)
  have "length (activePlayers (gs_players f)) \<le> length (gs_players f)"
    unfolding activePlayers_def by (rule length_map_filter)
  then have "length (to_ranking (fs_terminal f)) \<le> 4" using ranked valid_frame_parts(1) [OF parts(1)] by simp
  moreover have "list_all saved_entry (to_ranking (fs_terminal f))"
    using valid_outcome_in_range [OF valid] by (simp add: saved_outcome_def)
  ultimately show ?thesis unfolding Finished aggregateValue.simps
    using parts(2) by (intro frame_bound valid_aggregate_in_range(2) [OF valid] terminal_bound) simp_all
qed

lemma aggregate_fits:
  assumes "aggregate_inv a" "serializeGameplaySnapshot a = Some doc"
  shows "length doc \<le> 310000"
proof -
  have ok: "isValidAggregate a" using gameplay_snapshot.saves_iff [of a] assms(2) by simp
  have "doc = envelope_text GAMEPLAY_AGGREGATE_SCHEMA_VERSION (aggregate_stateVersion a) (serializeValue (aggregateValue a))"
    using assms(2) gameplay_snapshot.signs [of a] by (simp split: if_splits)
  moreover have "isSafeInteger (aggregate_stateVersion a)" using gameplay_snapshot.version_ok [OF ok] by (simp add: in_range_def)
  ultimately show ?thesis
    using aggregate_bound [OF assms(1)]
      length_envelope [OF gameplay_snapshot.plain_encode [OF ok] gameplay_snapshot.schema_safe, of "aggregate_stateVersion a"]
    by simp
qed

end
