(* ===== verification/Room_Scenario.thy ===== *)
theory Room_Scenario
  imports Room_Run Store_Run Snapshot_Size Snapshot_Properties
begin

text \<open>
  Concrete data for the server: a codec that keeps the laws of \<open>Buffer\<close>, stand-ins for the digests, a room that waits
  for players with its tables, and the message of a player. They show that the hypotheses of the properties can hold.
\<close>

section \<open>A platform\<close>

fun read_bytes :: "string \<Rightarrow> 8 word list" where
  "read_bytes (a # b # rest) = word_of_nat (16 * the (hex_value a) + the (hex_value b)) # read_bytes rest"
| "read_bytes _ = []"

definition hex_buffer :: buffer_codec where
  "hex_buffer =
     \<lparr>toBase64url = hex_text, fromBase64url = read_bytes, toUtf8 = map (\<lambda>c. word_of_nat (of_char c)),
      fromUtf8 = map (\<lambda>b. char_of (unat b))\<rparr>"

lemma byte_digits: "unat (b :: 8 word) div 16 < 16" "unat b mod 16 < 16"
  using unsigned_less [of b, where 'a = nat] by simp_all

lemma read_hex_text: "read_bytes (hex_text bytes) = bytes"
  by (induction bytes) (simp_all add: hex_text_def hex_byte_def byte_digits)

lemma hex_char_id: "d < 16 \<Longrightarrow> isIdChar (hex_char d)"
  by (auto simp: hex_char_def digit_char_def isIdChar_def isAlnum_def)

lemma hex_text_id: "list_all isIdChar (hex_text bytes)"
  by (induction bytes) (simp_all add: hex_text_def hex_byte_def byte_digits hex_char_id)

lemma hex_buffer_laws: "buffer_laws hex_buffer"
proof -
  have "char_of (unat (word_of_nat (of_char c) :: 8 word)) = c" for c
    by (simp add: unat_of_nat mod_less nat_of_char_less_256)
  then have "map ((\<lambda>b. char_of (unat b)) \<circ> (\<lambda>c. word_of_nat (of_char c) :: 8 word)) s = s" for s
    by (simp add: comp_def)
  then show ?thesis by (simp add: buffer_laws_def hex_buffer_def read_hex_text hex_text_id)
qed

definition zero_digest :: digest where
  "zero_digest _ = replicate 32 0"

definition zero_hmac :: hmac where
  "zero_hmac _ _ _ = 0"

section \<open>Rows under the calls of a room\<close>

lemma server_rows:
  assumes "rows_ok sha256 db"
    and "room_calls (server_options lease contracts sha256 hmac buffer checks hook throws) calls (h, db) = (h', db')"
  shows "rows_ok sha256 db'"
  using assms
proof (induction calls arbitrary: h db)
  case (Cons call calls)
  let ?opts = "server_options lease contracts sha256 hmac buffer checks hook throws"
  obtain h1 db1 where step: "room_call_step ?opts call (h, db) = (h1, db1)" by fastforce
  from call_step_outcome [OF step] have "rows_ok sha256 db1"
  proof (cases rule: server.outcome_cases)
    case (moved v now r)
    then have "snd (store_step sha256 checks (quiet_hooks hook) (CommitCommand (op_lease ?opts) v now) db) = db1" by simp
    with rows_step [OF Cons.prems(1)] show ?thesis by metis
  qed (use Cons.prems(1) in simp)
  moreover from Cons.prems(2) step have "room_calls ?opts calls (h1, db1) = (h', db')" by (simp add: room_calls_def)
  ultimately show ?case by (rule Cons.IH)
qed (simp add: room_calls_def)

section \<open>A waiting room\<close>

definition zero_source :: secure_source where
  "zero_source = \<lparr>ss_seed = replicate 32 0, ss_counter = 0, ss_draws = 0, ss_bytesConsumed = 0\<rparr>"

definition waiting_game :: game_base where
  "waiting_game =
     \<lparr>gm_schemaVersion = 2, gm_rulesetId = ''pootown-rust-source-v1'', gm_stateVersion = 1, gm_gameId = ''game-1'',
      gm_creatorId = alice, gm_minimumPlayers = 2, gm_maximumPlayers = 2,
      gm_seats = [Some (createSeat alice 0 10), None, None, None],
      gm_bankCash = 1000000, gm_freeParkingPool = 0, gm_housesRemaining = 32, gm_hotelsRemaining = 12,
      gm_createdAtMs = 10, gm_timeLimitMs = Some 3600000, gm_turnTimeoutMs = 90000,
      gm_rng = sourceCheckpoint hex_buffer zero_source\<rparr>"

lemma waiting_ok: "lobby_ok waiting_game"
proof -
  have "validCheckpoint (sourceCheckpoint hex_buffer zero_source)" "validOpaqueId alice" "validOpaqueId ''game-1''" by code_simp+
  then show ?thesis
    by (auto simp: waiting_game_def lobby_ok_def slots_satisfy_def ids_distinct_def seat_ok_def createSeat_def policy_simps
        seat_at_Cons GAMEPLAY_RULESET_ID_def isSafeInteger_def MAX_SAFE_INTEGER_def MAX_STATE_VERSION_def split: if_splits)
qed

definition waiting_text :: string where
  "waiting_text = the (serializeSnapshot (WaitingGame waiting_game))"

lemma waiting_saved: "serializeSnapshot (WaitingGame waiting_game) = Some waiting_text"
proof -
  have "serializeSnapshot (WaitingGame waiting_game) \<noteq> None"
    unfolding lobby_snapshot.saves_iff using lobby_base_saved [OF waiting_ok] by (auto simp: list_ex_iff)
  then show ?thesis by (auto simp: waiting_text_def)
qed

definition waiting_handler :: room_handler where
  "waiting_handler = \<lparr>rh_state = Lobby (WaitingGame waiting_game), rh_committedAtMs = 10\<rparr>"

definition first_lease :: room_lease where
  "first_lease = \<lparr>ls_roomId = ''room-1'', ls_gameId = ''game-1'', ls_instanceId = ''server-1'', ls_fencingToken = 1, ls_leaseUntil = 1000\<rparr>"

definition waiting_tables :: "room_event database" where
  "waiting_tables = empty_database
     \<lparr>db_leases := [''room-1'' \<mapsto> \<lparr>lr_gameId = ''game-1'', lr_instanceId = ''server-1'', lr_leaseUntil = 1000, lr_fencingToken = 1\<rparr>],
      db_checkpoints := [''room-1'' \<mapsto> checkpoint_row_for zero_digest first_lease 1 waiting_text 10]\<rparr>"

lemma waiting_sound: "room_sound hex_buffer (rh_state waiting_handler)"
proof -
  have "lobby_or_game (rh_state waiting_handler)" using waiting_ok by (simp add: waiting_handler_def)
  moreover have "consistent_source zero_source" by code_simp
  ultimately show ?thesis by (auto simp: room_sound_def secure_checkpoint_def waiting_handler_def waiting_game_def)
qed

lemma waiting_in_step: "in_step storedAt first_lease waiting_handler waiting_tables"
  using waiting_saved
  by (simp add: in_step_def waiting_handler_def serializeRoom_def storedAt_def waiting_tables_def first_lease_def
      checkpoint_row_for_def) (simp add: waiting_game_def)

section \<open>A message and its answer\<close>

text \<open>Messages that are already parsed, and schemas that accept every answer.\<close>

definition open_contracts :: "room_body request room_contracts" where
  "open_contracts =
     \<lparr>parseRoomCommand = Some, parseInternalCommand = (\<lambda>_. None), parseRequestId = (\<lambda>rq. Some (rq_requestId rq)),
      validRejection = (\<lambda>_. True), validEnvelope = (\<lambda>_. True)\<rparr>"

definition open_checks :: "room_event contract_checks" where
  "open_checks = \<lparr>validAcknowledgement = (\<lambda>_. True), validEvent = (\<lambda>_. True), validIdempotencyKey = (\<lambda>_. True)\<rparr>"

definition bob_player :: authenticated_player where
  "bob_player = \<lparr>au_gameId = ''game-1'', au_playerId = bob, au_reservationId = ''seat-2'', au_roomId = ''room-1'', au_seatIndex = 1\<rparr>"

definition join_request :: "room_body request" where
  "join_request = \<lparr>rq_requestId = ''request-1'', rq_expectedStateVersion = 1, rq_type = ''joinGame'',
     rq_body = LifecycleBody JoinGame, rq_json = JNull\<rparr>"

definition join_answer :: acknowledgement where
  "join_answer = \<lparr>ak_requestId = ''request-1'', ak_stateVersion = 1, ak_eventIds = []\<rparr>"

abbreviation first_server :: "(room_body request, room_event database) room_options" where
  "first_server \<equiv> server_options first_lease open_contracts zero_digest zero_hmac hex_buffer open_checks False (\<lambda>_. False)"

text \<open>The tables once the message was answered.\<close>

definition answered_tables :: "room_event database" where
  "answered_tables = waiting_tables\<lparr>db_commands := [(''room-1'', bob, ''request-1'') \<mapsto>
     \<lparr>cw_expectedStateVersion = 0, cw_committedStateVersion = 1, cw_requestHash = requestHash zero_digest (persisted join_request),
      cw_acknowledgement = join_answer\<rparr>]\<rparr>"

lemma answered_join: "answeredBy zero_digest answered_tables first_lease bob (persisted join_request) = Some join_answer"
  by (simp add: answeredBy_def answered_tables_def command_key_of_def first_lease_def persisted_def join_request_def)

lemma waiting_owned: "assertOwned waiting_tables first_lease t \<longleftrightarrow> t < 1000" "assertOwned answered_tables first_lease t \<longleftrightarrow> t < 1000"
  by (simp_all add: assertOwned_def matches_lease_def waiting_tables_def answered_tables_def first_lease_def)

lemma waiting_clock: "0 \<le> t \<Longrightarrow> t \<le> MAX_SAFE_INTEGER \<Longrightarrow> commandTimestampMs waiting_handler t = Inr (max t 10)"
  by (auto simp: commandTimestampMs_def isSafeInteger_def MAX_SAFE_INTEGER_def waiting_handler_def waiting_game_def
      occupiedSeats_def createSeat_def or_else_def List.map_filter_simps Let_def)

section \<open>The stored row\<close>

lemma waiting_validated: "validateCheckpointSnapshot waiting_text 1"
proof -
  have "parseCheckpointState waiting_text = Some (Lobby (WaitingGame waiting_game))"
    using checkpoint_roundtrip [of "Lobby (WaitingGame waiting_game)"] waiting_saved by (simp add: serializeRoom_def)
  moreover have "byteLength waiting_text \<le> MAX_CHECKPOINT_BYTES"
    by (rule short_text_fits) (use lobby_fits [OF waiting_saved] in simp)
  moreover have "waiting_text \<noteq> []"
    using waiting_saved lobby_snapshot.signs [of "WaitingGame waiting_game"]
    by (auto simp: envelope_text_def Let_def split: if_splits)
  ultimately show ?thesis by (simp add: validate_iff waiting_game_def)
qed

lemma waiting_rows: "rows_ok zero_digest waiting_tables"
  using new_row_ok [OF waiting_owned(1) [THEN iffD2] waiting_validated, of 0 zero_digest 10]
  by (simp add: rows_ok_def waiting_tables_def first_lease_def row_ok_def checkpoint_row_for_def empty_database_def)

end
