(* ===== verification/Room_Clock.thy ===== *)
theory Room_Clock
  imports Room_State Endgame
begin

text \<open>
  \<open>timers/room-clock.ts\<close> of the game server: which internal command a room schedules next and when, and the timer
  that dispatches it. The digest behind the request id is a parameter. The lemmas compare the schedule with what the
  game core accepts.
\<close>

section \<open>The schedule\<close>

datatype scheduled_type = WarnThirty | WarnTen | TurnTimeout | TradeCleanup | TimeLimitEnd

fun scheduled_name :: "scheduled_type \<Rightarrow> string" where
  "scheduled_name WarnThirty = ''warnTurnThirtySeconds''"
| "scheduled_name WarnTen = ''warnTurnTenSeconds''"
| "scheduled_name TurnTimeout = ''handleTurnTimeout''"
| "scheduled_name TradeCleanup = ''cleanupExpiredTrades''"
| "scheduled_name TimeLimitEnd = ''enforceGameTimeLimit''"

fun scheduled_body :: "scheduled_type \<Rightarrow> gameplay_body" where
  "scheduled_body WarnThirty = TimeoutCommand WarnTurnThirtySeconds"
| "scheduled_body WarnTen = TimeoutCommand WarnTurnTenSeconds"
| "scheduled_body TurnTimeout = TimeoutCommand HandleTurnTimeout"
| "scheduled_body TradeCleanup = TradeCommand CleanupExpiredTrades"
| "scheduled_body TimeLimitEnd = TimeoutCommand EnforceGameTimeLimit"

record candidate =
  cd_type :: scheduled_type
  cd_dueAtMs :: int
  cd_priority :: int

record internal_command =
  ic_requestId :: string
  ic_expectedStateVersion :: int
  ic_body :: gameplay_body

record scheduled_command =
  sc_command :: internal_command
  sc_dueAtMs :: int

definition candidate_at :: "scheduled_type \<Rightarrow> int \<Rightarrow> int \<Rightarrow> candidate" where
  "candidate_at kind due priority = \<lparr>cd_type = kind, cd_dueAtMs = due, cd_priority = priority\<rparr>"

definition requestId :: "digest \<Rightarrow> string \<Rightarrow> string \<Rightarrow> int \<Rightarrow> int \<Rightarrow> string" where
  "requestId sha256 game kind due version =
     uuid_text (uuid_bytes (sha256 (game @ CHR 0x00 # kind @ CHR 0x00 # decimal_int due @ CHR 0x00 # decimal_int version)))"

definition turnCandidate :: "active_turn \<Rightarrow> int \<Rightarrow> candidate" where
  "turnCandidate turn now =
     (let deadline = deadlineAtMs turn; tenAt = deadline - 10000; thirtyAt = deadline - 30000;
          emitted = (\<lambda>w. w \<in> set (emittedWarnings turn)) in
      if now \<ge> deadline then candidate_at TurnTimeout deadline 1
      else if \<not> emitted 10 \<and> now \<ge> tenAt then candidate_at WarnTen tenAt 2
      else if \<not> emitted 30 \<and> now \<ge> thirtyAt \<and> now < tenAt then candidate_at WarnThirty thirtyAt 3
      else if \<not> emitted 30 \<and> now < thirtyAt then candidate_at WarnThirty thirtyAt 3
      else if \<not> emitted 10 \<and> now < tenAt then candidate_at WarnTen tenAt 2
      else candidate_at TurnTimeout deadline 1)"

text \<open>The comparison of two candidates, and \<open>Array.prototype.sort\<close> with a comparison: stable, smallest first.\<close>

definition compareCandidates :: "int \<Rightarrow> candidate \<Rightarrow> candidate \<Rightarrow> int" where
  "compareCandidates now left right =
     (let leftReady = cd_dueAtMs left \<le> now; rightReady = cd_dueAtMs right \<le> now;
          byPriority = cd_priority left - cd_priority right; byDue = cd_dueAtMs left - cd_dueAtMs right in
      if leftReady \<noteq> rightReady then (if leftReady then - 1 else 1)
      else if leftReady then (if byPriority \<noteq> 0 then byPriority else byDue)
      else (if byDue \<noteq> 0 then byDue else byPriority))"

fun insert_by :: "('a \<Rightarrow> 'a \<Rightarrow> int) \<Rightarrow> 'a \<Rightarrow> 'a list \<Rightarrow> 'a list" where
  "insert_by cmp x [] = [x]"
| "insert_by cmp x (y # ys) = (if cmp x y \<le> 0 then x # y # ys else y # insert_by cmp x ys)"

definition sort_by :: "('a \<Rightarrow> 'a \<Rightarrow> int) \<Rightarrow> 'a list \<Rightarrow> 'a list" where
  "sort_by cmp xs = foldr (insert_by cmp) xs []"

definition earliestExpiry :: "pending_trade list \<Rightarrow> int option" where
  "earliestExpiry trades =
     foldl (\<lambda>earliest trade. case earliest of
         None \<Rightarrow> Some (expiresAtMs trade)
       | Some e \<Rightarrow> Some (if expiresAtMs trade < e then expiresAtMs trade else e)) None trades"

definition clockCandidates :: "active_state \<Rightarrow> int \<Rightarrow> candidate list" where
  "clockCandidates s now =
     [turnCandidate (as_turn s) now] @
     (case gs_gameEndAtMs s of None \<Rightarrow> [] | Some limit \<Rightarrow> [candidate_at TimeLimitEnd limit 0]) @
     (case earliestExpiry (gs_activeTrades s) of None \<Rightarrow> [] | Some expiry \<Rightarrow> [candidate_at TradeCleanup expiry 4])"

definition scheduled :: "digest \<Rightarrow> active_state \<Rightarrow> candidate \<Rightarrow> scheduled_command" where
  "scheduled sha256 s c =
     \<lparr>sc_command =
        \<lparr>ic_requestId = requestId sha256 (gs_gameId s) (scheduled_name (cd_type c)) (cd_dueAtMs c) (gs_stateVersion s),
         ic_expectedStateVersion = gs_stateVersion s, ic_body = scheduled_body (cd_type c)\<rparr>,
      sc_dueAtMs = cd_dueAtMs c\<rparr>"

definition nextScheduledRoomCommand :: "digest \<Rightarrow> room_state \<Rightarrow> int \<Rightarrow> scheduled_command option" where
  "nextScheduledRoomCommand sha256 state now =
     (if \<not> isSafeInteger now \<or> now < 0 then None
      else case state of
        Playing (InProgress s) \<Rightarrow>
          if as_bankruptcyRequiredSeatIndex s \<noteq> None then None
          else Some (scheduled sha256 s (hd (sort_by (compareCandidates now) (clockCandidates s now))))
      | _ \<Rightarrow> None)"

section \<open>The timer\<close>

record room_clock =
  rk_currentState :: "room_state option"
  rk_timer :: "(scheduled_command \<times> int) option"

definition stop :: "room_clock \<Rightarrow> room_clock" where
  "stop clock = clock\<lparr>rk_timer := None\<rparr>"

text \<open>The timer holds the scheduled command and its delay.\<close>

definition synchronize :: "digest \<Rightarrow> int \<Rightarrow> room_state \<Rightarrow> room_clock \<Rightarrow> room_clock" where
  "synchronize sha256 now state clock =
     (let clock = (stop clock)\<lparr>rk_currentState := Some state\<rparr> in
      case nextScheduledRoomCommand sha256 state now of
        None \<Rightarrow> clock
      | Some next \<Rightarrow> clock\<lparr>rk_timer := Some (next, min (max 0 (sc_dueAtMs next - now)) 2147483647)\<rparr>)"

text \<open>The dispatch of a fired timer. The callback runs the command, may synchronise the clock while it does, and
  throws (\<open>Inl\<close>) or tells whether the command advanced the room. The flag of the result tells that \<open>onFailure\<close> is
  called.\<close>

definition dispatch ::
  "digest \<Rightarrow> (room_clock \<Rightarrow> internal_command \<Rightarrow> ('e + bool) \<times> room_clock) \<Rightarrow> int \<Rightarrow> scheduled_command \<Rightarrow>
   room_clock \<Rightarrow> room_clock \<times> bool" where
  "dispatch sha256 run now next clock =
     (let clock = clock\<lparr>rk_timer := None\<rparr>; before = map_option room_version (rk_currentState clock) in
      if before \<noteq> Some (ic_expectedStateVersion (sc_command next)) then
        (case rk_currentState clock of
           None \<Rightarrow> (clock, False)
         | Some state \<Rightarrow> (synchronize sha256 now state clock, False))
      else (case run clock (sc_command next) of
          (Inl _, after) \<Rightarrow> (after, True)
        | (Inr advanced, after) \<Rightarrow>
            (after, advanced \<and> map_option room_version (rk_currentState after) = before)))"

section \<open>The smallest candidate\<close>

lemma compareCandidates_total: "compareCandidates now a b \<le> 0 \<or> compareCandidates now b a \<le> 0"
  by (auto simp: compareCandidates_def Let_def)

lemma compareCandidates_trans:
  "compareCandidates now a b \<le> 0 \<Longrightarrow> compareCandidates now b c \<le> 0 \<Longrightarrow> compareCandidates now a c \<le> 0"
  by (auto simp: compareCandidates_def Let_def split: if_splits)

lemma set_insert_by [simp]: "set (insert_by cmp x xs) = insert x (set xs)"
  by (induction xs) auto

lemma set_sort_by [simp]: "set (sort_by cmp xs) = set xs"
  by (induction xs) (simp_all add: sort_by_def)

lemma sort_by_Cons: "sort_by cmp (x # xs) = insert_by cmp x (sort_by cmp xs)"
  by (simp add: sort_by_def)

lemma hd_insert_by: "hd (insert_by cmp x xs) = (if xs = [] \<or> cmp x (hd xs) \<le> 0 then x else hd xs)"
  by (cases xs) auto

lemma sort_by_Nil_iff [simp]: "sort_by cmp xs = [] \<longleftrightarrow> xs = []"
  by (metis set_sort_by set_empty)

lemma hd_sort_by:
  assumes total: "\<And>a b. cmp a b \<le> 0 \<or> cmp b a \<le> 0"
    and trans: "\<And>a b c. cmp a b \<le> 0 \<Longrightarrow> cmp b c \<le> 0 \<Longrightarrow> cmp a c \<le> (0::int)"
  shows "x \<in> set xs \<Longrightarrow> cmp (hd (sort_by cmp xs)) x \<le> 0"
proof (induction xs)
  case (Cons y ys)
  have refl: "cmp a a \<le> 0" for a using total [of a a] by simp
  show ?case
  proof (cases "ys = [] \<or> cmp y (hd (sort_by cmp ys)) \<le> 0")
    case True
    then have "hd (sort_by cmp (y # ys)) = y" by (auto simp: sort_by_Cons hd_insert_by)
    moreover have "cmp y x \<le> 0"
      using Cons True refl trans [of y "hd (sort_by cmp ys)" x] by (cases "x = y") auto
    ultimately show ?thesis by simp
  next
    case False
    then have hd: "hd (sort_by cmp (y # ys)) = hd (sort_by cmp ys)" by (auto simp: sort_by_Cons hd_insert_by)
    show ?thesis
      using Cons False total [of y "hd (sort_by cmp ys)"] by (cases "x = y") (auto simp: hd)
  qed
qed simp

lemma earliestExpiry_snoc:
  "earliestExpiry (ts @ [t]) =
     Some (case earliestExpiry ts of None \<Rightarrow> expiresAtMs t | Some e \<Rightarrow> min (expiresAtMs t) e)"
  by (auto simp: earliestExpiry_def min_def split: option.splits)

lemma earliestExpiry_None: "earliestExpiry trades = None \<longleftrightarrow> trades = []"
  by (induction trades rule: rev_induct) (simp_all add: earliestExpiry_snoc, simp add: earliestExpiry_def)

lemma earliestExpiry_Some:
  "earliestExpiry trades = Some e \<Longrightarrow> (\<exists>t \<in> set trades. expiresAtMs t = e) \<and> (\<forall>t \<in> set trades. e \<le> expiresAtMs t)"
proof (induction trades arbitrary: e rule: rev_induct)
  case (snoc t ts)
  show ?case
  proof (cases "earliestExpiry ts")
    case None
    with snoc.prems show ?thesis by (simp add: earliestExpiry_snoc earliestExpiry_None)
  next
    case (Some m)
    with snoc.prems have e: "e = min (expiresAtMs t) m" by (simp add: earliestExpiry_snoc)
    from snoc.IH [OF Some] show ?thesis unfolding e by (auto simp: min_def)
  qed
qed (simp add: earliestExpiry_def)

section \<open>When the core accepts the commands of the clock\<close>

definition before_limit :: "active_state \<Rightarrow> int \<Rightarrow> bool" where
  "before_limit s t \<longleftrightarrow> (case gs_gameEndAtMs s of None \<Rightarrow> True | Some limit \<Rightarrow> t < limit)"

text \<open>The times at which a command of the clock is accepted in a state.\<close>

fun timer_window :: "active_state \<Rightarrow> scheduled_type \<Rightarrow> int \<Rightarrow> bool" where
  "timer_window s WarnThirty t \<longleftrightarrow> before_limit s t \<and> 30 \<notin> set (emittedWarnings (as_turn s)) \<and>
     10 \<notin> set (emittedWarnings (as_turn s)) \<and> deadlineAtMs (as_turn s) - 30000 \<le> t \<and> t < deadlineAtMs (as_turn s) - 10000"
| "timer_window s WarnTen t \<longleftrightarrow> before_limit s t \<and> 10 \<notin> set (emittedWarnings (as_turn s)) \<and>
     deadlineAtMs (as_turn s) - 10000 \<le> t \<and> t < deadlineAtMs (as_turn s)"
| "timer_window s TurnTimeout t \<longleftrightarrow> before_limit s t \<and> deadlineAtMs (as_turn s) \<le> t"
| "timer_window s TradeCleanup t \<longleftrightarrow> (\<exists>trade \<in> set (gs_activeTrades s). expiresAtMs trade \<le> t)"
| "timer_window s TimeLimitEnd t \<longleftrightarrow> (\<exists>limit. gs_gameEndAtMs s = Some limit \<and> limit \<le> t)"

definition timer_accepted :: "active_state \<Rightarrow> scheduled_type \<Rightarrow> 'r gameplay_context \<Rightarrow> bool" where
  "timer_accepted s kind ctx \<longleftrightarrow>
     (\<exists>t ev. transitionGameplay (InProgress s)
        \<lparr>expectedStateVersion = gs_stateVersion s, body = scheduled_body kind\<rparr> ctx = Accepted t ev)"

lemma limit_context: "before_limit s t \<longleftrightarrow> (case gs_gameEndAtMs s of None \<Rightarrow> False | Some end' \<Rightarrow> t \<ge> end') = False"
  by (auto simp: before_limit_def split: option.splits)

lemma warning_accepted_iff:
  assumes inv: "game_inv s" and time: "on_time s (nowMs ctx)" and ctx: "validContext ctx" "actor ctx = InternalActor"
    and free: "as_bankruptcyRequiredSeatIndex s = None" and kind: "kind = WarnThirty \<or> kind = WarnTen"
  shows "timer_accepted s kind ctx \<longleftrightarrow> timer_window s kind (nowMs ctx)"
proof -
  note guard = on_time_guard [OF inv time]
  note g = guard_facts [OF guard]
  from inv obtain p where p: "activeGameplayPlayer s = Some p"
    by (auto simp: game_inv_def elim!: valid_activeGameplayPlayer)
  note seat = on_time_seat [OF inv time p]
  have turn: "validTimeoutTurn (timeoutTurn (as_turn s))"
    using g(7) by (auto simp: validTimeoutTurn_iff clock_ok_def)
  show ?thesis
    using inv ctx guard free kind seat(2,3) turn g(5,6)
    by (auto simp: timer_accepted_def transitionGameplay_def routeCommand_def game_inv_def transitionGameplayTimeout_def
        limit_context warnTurn_def emitTimeoutWarning_def Let_def reject_def split: if_splits)
qed

lemma cleanup_accepted_iff:
  assumes inv: "game_inv s" and time: "on_time s (nowMs ctx)" and ctx: "validContext ctx" "actor ctx = InternalActor"
    and free: "as_bankruptcyRequiredSeatIndex s = None"
  shows "timer_accepted s TradeCleanup ctx \<longleftrightarrow> timer_window s TradeCleanup (nowMs ctx)"
proof -
  note guard = on_time_guard [OF inv time]
  note g = guard_facts [OF guard]
  show ?thesis
    using inv ctx guard free g(3,5,6)
    by (auto simp: timer_accepted_def transitionGameplay_def routeCommand_def game_inv_def transitionGameplayTrade_def
        cleanupGameplayTrades_def cleanupExpiredTrades_def reject_def filter_empty_conv not_le not_less split: if_splits)
qed

lemma timeout_accepted_iff:
  assumes inv: "game_inv s" and "roomy s" and time: "on_time s (nowMs ctx)" and ctx: "validContext ctx" "actor ctx = InternalActor"
    and free: "as_bankruptcyRequiredSeatIndex s = None" and kind: "kind = TurnTimeout \<or> kind = TimeLimitEnd"
  shows "timer_accepted s kind ctx \<longleftrightarrow> timer_window s kind (nowMs ctx)"
proof
  assume "timer_window s kind (nowMs ctx)"
  with kind expiry_accepted [OF assms(1-3) ctx(1) free ctx(2) _ _ refl]
    limit_accepted [OF assms(1-3) ctx(1) free ctx(2) _ _ refl]
  show "timer_accepted s kind ctx"
    by (auto simp: timer_accepted_def before_limit_def split: option.splits)
next
  assume "timer_accepted s kind ctx"
  then obtain t ev where acc: "transitionGameplay (InProgress s)
      \<lparr>expectedStateVersion = gs_stateVersion s, body = scheduled_body kind\<rparr> ctx = Accepted t ev"
    by (auto simp: timer_accepted_def)
  from kind show "timer_window s kind (nowMs ctx)"
  proof
    assume "kind = TurnTimeout"
    with acc obtain p where "before_limit s (nowMs ctx)" "expireTurn s p (nowMs ctx) = Accepted t ev"
      using inv ctx by (auto simp: transitionGameplay_def routeCommand_def game_inv_def transitionGameplayTimeout_def
          limit_context reject_def split: if_splits option.splits)
    with \<open>kind = TurnTimeout\<close> show ?thesis
      by (auto simp: expireTurn_def resolveTurnTimeout_def reject_def split: if_splits)
  next
    assume "kind = TimeLimitEnd"
    with acc have "enforceTimeLimit s (nowMs ctx) = Accepted t ev"
      using inv ctx by (auto simp: transitionGameplay_def routeCommand_def game_inv_def transitionGameplayTimeout_def
          reject_def split: if_splits option.splits)
    with \<open>kind = TimeLimitEnd\<close> show ?thesis
      by (auto simp: enforceTimeLimit_def deriveTimeLimitTerminalOutcome_def reject_def
          split: if_splits sum.splits option.splits)
  qed
qed

lemma timer_accepted_iff:
  assumes "game_inv s" "roomy s" "on_time s (nowMs ctx)" "validContext ctx" "actor ctx = InternalActor"
    "as_bankruptcyRequiredSeatIndex s = None"
  shows "timer_accepted s kind ctx \<longleftrightarrow> timer_window s kind (nowMs ctx)"
  using warning_accepted_iff [OF assms(1,3-6)] cleanup_accepted_iff [OF assms(1,3-6)] timeout_accepted_iff [OF assms]
  by (cases kind) simp_all

section \<open>What is scheduled\<close>

lemma next_scheduled:
  assumes "nextScheduledRoomCommand sha256 (Playing (InProgress s)) now = Some upcoming"
  obtains c where "upcoming = scheduled sha256 s c" "c \<in> set (clockCandidates s now)"
    "\<And>d. d \<in> set (clockCandidates s now) \<Longrightarrow> compareCandidates now c d \<le> 0"
    "as_bankruptcyRequiredSeatIndex s = None" "isSafeInteger now" "0 \<le> now"
proof -
  let ?c = "hd (sort_by (compareCandidates now) (clockCandidates s now))"
  have ne: "clockCandidates s now \<noteq> []" by (simp add: clockCandidates_def)
  then have "?c \<in> set (clockCandidates s now)" using hd_in_set [of "sort_by (compareCandidates now) (clockCandidates s now)"] by simp
  moreover have "compareCandidates now ?c d \<le> 0" if "d \<in> set (clockCandidates s now)" for d
    using hd_sort_by [of "compareCandidates now", OF compareCandidates_total compareCandidates_trans that] by simp
  ultimately show thesis
    using assms that [of ?c] by (auto simp: nextScheduledRoomCommand_def split: if_splits)
qed

definition turn_due :: "active_turn \<Rightarrow> scheduled_type \<Rightarrow> int \<Rightarrow> bool" where
  "turn_due turn kind due \<longleftrightarrow>
     (kind = TurnTimeout \<and> due = deadlineAtMs turn) \<or>
     (kind = WarnTen \<and> due = deadlineAtMs turn - 10000 \<and> 10 \<notin> set (emittedWarnings turn)) \<or>
     (kind = WarnThirty \<and> due = deadlineAtMs turn - 30000 \<and> 30 \<notin> set (emittedWarnings turn))"

lemma turnCandidate_due:
  "turn_due turn (cd_type (turnCandidate turn now)) (cd_dueAtMs (turnCandidate turn now))"
  "cd_dueAtMs (turnCandidate turn now) \<le> deadlineAtMs turn"
  "cd_priority (turnCandidate turn now) \<in> {1, 2, 3}"
  by (auto simp: turnCandidate_def Let_def turn_due_def candidate_at_def)

lemma candidate_cases:
  assumes "c \<in> set (clockCandidates s now)"
  obtains (turn) "c = turnCandidate (as_turn s) now"
    | (limit) limit where "c = candidate_at TimeLimitEnd limit 0" "gs_gameEndAtMs s = Some limit"
    | (trades) expiry where "c = candidate_at TradeCleanup expiry 4" "earliestExpiry (gs_activeTrades s) = Some expiry"
  using assms by (auto simp: clockCandidates_def split: option.splits)

text \<open>A command that is due now is accepted now.\<close>

lemma ready_window:
  assumes "nextScheduledRoomCommand sha256 (Playing (InProgress s)) now = Some upcoming" "sc_dueAtMs upcoming \<le> now"
    and warned: "10 \<in> set (emittedWarnings (as_turn s)) \<Longrightarrow> deadlineAtMs (as_turn s) - 10000 \<le> now"
  obtains c where "upcoming = scheduled sha256 s c" "timer_window s (cd_type c) now"
proof -
  from assms(1) obtain c where c: "upcoming = scheduled sha256 s c" "c \<in> set (clockCandidates s now)"
    and least: "\<And>d. d \<in> set (clockCandidates s now) \<Longrightarrow> compareCandidates now c d \<le> 0"
    by (rule next_scheduled) blast
  from c(1) assms(2) have due: "cd_dueAtMs c \<le> now" by (simp add: scheduled_def)
  from c(2) have "timer_window s (cd_type c) now"
  proof (cases rule: candidate_cases)
    case turn
    have "before_limit s now"
    proof (cases "gs_gameEndAtMs s")
      case (Some limit)
      then have "candidate_at TimeLimitEnd limit 0 \<in> set (clockCandidates s now)" by (simp add: clockCandidates_def)
      from least [OF this] due turnCandidate_due(3) [of "as_turn s" now] show ?thesis
        by (auto simp: Some before_limit_def turn compareCandidates_def candidate_at_def Let_def split: if_splits)
    qed (simp add: before_limit_def)
    with warned due show ?thesis
      unfolding turn by (auto simp: turnCandidate_def candidate_at_def Let_def split: if_splits)
  next
    case (limit end')
    with due show ?thesis by (simp add: candidate_at_def)
  next
    case (trades expiry)
    with due earliestExpiry_Some [OF trades(2)] show ?thesis by (auto simp: candidate_at_def)
  qed
  with c(1) that show thesis by blast
qed

lemma scheduled_window:
  assumes "c \<in> set (clockCandidates s now)"
  shows "timer_window s (cd_type c) t \<longleftrightarrow> cd_dueAtMs c \<le> t \<and>
    (cd_type c = WarnThirty \<longrightarrow> t < cd_dueAtMs c + 20000 \<and> 10 \<notin> set (emittedWarnings (as_turn s))) \<and>
    (cd_type c = WarnTen \<longrightarrow> t < cd_dueAtMs c + 10000) \<and>
    (cd_type c \<in> {WarnThirty, WarnTen, TurnTimeout} \<longrightarrow> before_limit s t)"
  using assms
proof (cases rule: candidate_cases)
  case turn
  show ?thesis using turnCandidate_due(1) [of "as_turn s" now] by (auto simp: turn turn_due_def)
next
  case (limit end')
  then show ?thesis by (simp add: candidate_at_def)
next
  case (trades expiry)
  with earliestExpiry_Some [OF trades(2)] show ?thesis by (fastforce simp: candidate_at_def)
qed

lemma synchronize_arms:
  assumes "as_bankruptcyRequiredSeatIndex s = None" "isSafeInteger now" "0 \<le> now"
  obtains upcoming delay where "rk_timer (synchronize sha256 now (Playing (InProgress s)) clock) = Some (upcoming, delay)"
    "0 \<le> delay" "delay \<le> max 0 (deadlineAtMs (as_turn s) - now)"
    "nextScheduledRoomCommand sha256 (Playing (InProgress s)) now = Some upcoming"
proof -
  obtain upcoming where n: "nextScheduledRoomCommand sha256 (Playing (InProgress s)) now = Some upcoming"
    using assms by (simp add: nextScheduledRoomCommand_def)
  then obtain c where c: "upcoming = scheduled sha256 s c"
    "\<And>d. d \<in> set (clockCandidates s now) \<Longrightarrow> compareCandidates now c d \<le> 0"
    by (rule next_scheduled) blast
  have "compareCandidates now c (turnCandidate (as_turn s) now) \<le> 0" by (rule c(2)) (simp add: clockCandidates_def)
  then have "cd_dueAtMs c \<le> now \<or> cd_dueAtMs c \<le> cd_dueAtMs (turnCandidate (as_turn s) now)"
    by (auto simp: compareCandidates_def Let_def split: if_splits)
  then have "cd_dueAtMs c \<le> now \<or> cd_dueAtMs c \<le> deadlineAtMs (as_turn s)"
    using turnCandidate_due(2) [of "as_turn s" now] by linarith
  with n c(1) that show thesis by (auto simp: synchronize_def scheduled_def)
qed

end
