(* ===== verification/Room_Properties.thy ===== *)
theory Room_Properties
  imports Room_Scenario Room_Clock
begin

text \<open>
  The properties of the game server: what its rooms, their clock, their random source and their store keep, with a
  witness for each that has hypotheses.
\<close>

section \<open>Rooms\<close>

text \<open>C8. Whatever players, the clock and the API send to a room, in any order and at any times, the room stays a
  well-formed lobby or game, what is stored is the state in memory, its version grows by at most one per call, and its
  random source can be resumed. In particular the trade that would ruin a game is never stored.\<close>

theorem room_stays_sound:
  assumes "buffer_laws buffer" "room_sound buffer (rh_state h)" "in_step storedAt lease h db"
    and "room_calls (server_options lease contracts sha256 hmac buffer checks hook throws) calls (h, db) = (h', db')"
  shows "room_sound buffer (rh_state h') \<and> in_step storedAt lease h' db' \<and>
    room_version (rh_state h') \<in> {room_version (rh_state h) .. room_version (rh_state h) + int (length calls)} \<and>
    (\<exists>source. forkSecure buffer (room_rng (rh_state h')) = Some source \<and> consistent_source source)"
  using server.calls_keep [OF _ _ assms(4)] assms(2,3) sound_resumes [OF assms(1)] by simp

theorem room_stays_sound_witness:
  "\<exists>h' db'. room_calls first_server [PlayerCall bob_player join_request 20, TimerCall join_request 30, AdmitCall bob_player 40 40]
       (waiting_handler, waiting_tables) = (h', db') \<and>
     lobby_or_game (rh_state h') \<and> room_version (rh_state h') \<in> {1 .. 4}"
proof -
  obtain h' db' where run: "room_calls first_server [PlayerCall bob_player join_request 20, TimerCall join_request 30,
      AdmitCall bob_player 40 40] (waiting_handler, waiting_tables) = (h', db')" by fastforce
  have "room_version (rh_state waiting_handler) = 1" by (simp add: waiting_handler_def waiting_game_def)
  with room_stays_sound [OF hex_buffer_laws waiting_sound waiting_in_step run] run show ?thesis by (auto simp: room_sound_def)
qed

text \<open>No state a room can be in is too large for the store: its text stays below a third of the limit (two thirds in bytes) of the
  checkpoint repository.\<close>

theorem room_fits:
  assumes "lobby_or_game state" "serializeRoom state = Some doc"
  shows "length doc \<le> 310000 \<and> validateCheckpointSnapshot doc (room_version state)"
proof -
  have short: "length doc \<le> 310000"
    using assms lobby_fits aggregate_fits by (cases state) (fastforce simp: serializeRoom_def)+
  moreover have "doc \<noteq> []"
    using assms(2) lobby_snapshot.signs gameplay_snapshot.signs
    by (auto simp: serializeRoom_def envelope_text_def Let_def split: room_state.splits if_splits)
  ultimately show ?thesis
    using checkpoint_roundtrip [OF assms(2)] by (simp add: validate_iff short_text_fits)
qed

text \<open>C9. A player's command is carried out at most once: when it was accepted, every repetition of the message, after
  whatever other calls, is answered with the same acknowledgement and changes nothing, while the server owns the lease.\<close>

theorem command_answered_once:
  assumes "handleSerial (server_options lease contracts sha256 hmac buffer checks hook throws) who raw clock h db =
      (Inr (HandledAccepted ack events again), h1, db1)"
    and "room_calls (server_options lease contracts sha256 hmac buffer checks hook throws) calls (h1, db1) = (h2, db2)"
    and "commandTimestampMs h2 clock2 = Inr now" "assertOwned db2 lease now"
  shows "handleSerial (server_options lease contracts sha256 hmac buffer checks hook throws) who raw clock2 h2 db2 =
    (Inr (HandledAccepted ack [] True), h2, db2)"
  using server.command_once [OF assms(1,2,3)] assms(4) by simp

theorem command_answered_once_witness:
  "handleSerial first_server bob_player join_request 30 waiting_handler answered_tables =
     (Inr (HandledAccepted join_answer [] True), waiting_handler, answered_tables)"
proof (rule command_answered_once)
  show "handleSerial first_server bob_player join_request 20 waiting_handler answered_tables =
      (Inr (HandledAccepted join_answer [] True), waiting_handler, answered_tables)"
    by (rule server.answered_again [where rq = join_request and now = 20])
      (simp_all add: answered_join bob_player_def open_contracts_def waiting_clock waiting_owned MAX_SAFE_INTEGER_def,
        code_simp)
  show "room_calls first_server [] (waiting_handler, answered_tables) = (waiting_handler, answered_tables)"
    by (simp add: room_calls_def)
  show "commandTimestampMs waiting_handler 30 = Inr 30" by (simp add: waiting_clock MAX_SAFE_INTEGER_def)
  show "assertOwned answered_tables first_lease 30" by (simp add: waiting_owned)
qed

section \<open>The store\<close>

text \<open>C10. Once another owner, or the same after a lapse, has taken a room over, no call under the old lease has any effect,
  whatever happens in between; all of them fail, except the release, which only answers that there was nothing to do.\<close>

theorem superseded_lease_fenced:
  assumes "acquire repo room game now db = Inr (new, db1)" "db_leases db room = Some row"
    and "lr_instanceId row \<noteq> rp_ownerId repo \<or> lr_leaseUntil row \<le> now"
    and "ls_roomId old = room" "ls_fencingToken old \<le> lr_fencingToken row" "lease_used call = Some old"
  shows "snd (store_step sha256 checks hooks call (store_calls sha256 checks hooks calls db1)) =
      store_calls sha256 checks hooks calls db1 \<and>
    (fst (store_step sha256 checks hooks call (store_calls sha256 checks hooks calls db1)) = None \<longleftrightarrow> (\<exists>t. call = Release old t))"
proof -
  have "ls_fencingToken old < token_of db1 room" using takeover_token [OF assms(1-3)] assms(5) by simp
  also have "\<dots> \<le> token_of (store_calls sha256 checks hooks calls db1) room" by (rule calls_grow_tokens)
  finally have "ls_fencingToken old < token_of (store_calls sha256 checks hooks calls db1) (ls_roomId old)"
    using assms(4) by simp
  from superseded_call [OF assms(6) this] assms(6) show ?thesis by (cases call) auto
qed

theorem superseded_lease_fenced_witness:
  "\<exists>new db1. acquire \<lparr>rp_ownerId = ''server-2'', rp_leaseDurationMs = 1000\<rparr> ''room-1'' ''game-1'' 1000 waiting_tables = Inr (new, db1) \<and>
     snd (store_step zero_digest open_checks (quiet_hooks False) (Renew \<lparr>rp_ownerId = ''server-1'', rp_leaseDurationMs = 1000\<rparr> first_lease 1001) db1) = db1"
proof -
  let ?repo = "\<lparr>rp_ownerId = ''server-2'', rp_leaseDurationMs = 1000\<rparr>"
  obtain new db1 where acq: "acquire ?repo ''room-1'' ''game-1'' 1000 waiting_tables = Inr (new, db1)"
    by (auto simp: acquire_def waiting_tables_def Let_def)
  from superseded_lease_fenced [OF acq, of _ first_lease "Renew \<lparr>rp_ownerId = ''server-1'', rp_leaseDurationMs = 1000\<rparr> first_lease 1001"
      zero_digest open_checks "quiet_hooks False" "[]"] acq
  show ?thesis by (simp add: waiting_tables_def first_lease_def)
qed

text \<open>C11. Whatever servers and leases do to the store, from the first call on: no version of a room is committed by two
  commands, no committed version is ahead of the stored state, the stored version never goes back, and what is stored
  passes the checks of the reader and belongs to the current lease.\<close>

theorem versions_committed_once:
  "let db = store_calls sha256 checks hooks calls empty_database in
   inj_on (committed_version db room) (committed_keys db room) \<and>
   committed_version db room ` committed_keys db room \<subseteq> {0 .. stored_version db room} \<and>
   stored_version db room \<le> stored_version (store_calls sha256 checks hooks later db) room \<and> rows_ok sha256 db"
  using calls_ledger [OF rows_empty ledger_empty, of sha256 checks hooks calls room] calls_version calls_rows [OF rows_empty]
  by (auto simp: ledger_ok_def Let_def)

text \<open>When a server is gone and its lease has run out, any server takes the room over and reads exactly the state the
  room last had in memory.\<close>

theorem takeover_restores:
  assumes "in_step storedAt lease h db" "rows_ok sha256 db"
    and "room_calls (server_options lease contracts sha256 hmac buffer checks hook throws) calls (h, db) = (h', db1)"
    and "room_sound buffer (rh_state h)"
    and "db_leases db1 (ls_roomId lease) = Some current" "lr_leaseUntil current \<le> now"
    and "now < now + rp_leaseDurationMs repo" "later < now + rp_leaseDurationMs repo"
  shows "\<exists>new db2 checkpoint. acquire repo (ls_roomId lease) (lr_gameId current) now db1 = Inr (new, db2) \<and>
    load sha256 new later db2 = Inr (Some checkpoint, db2) \<and>
    parseCheckpointState (rc_serializedState checkpoint) = Some (rh_state h') \<and>
    rc_stateVersion checkpoint = room_version (rh_state h')"
proof -
  from server.calls_keep [OF _ _ assms(3)] assms(1,4) obtain doc where doc: "serializeRoom (rh_state h') = Some doc"
    "storedAt db1 lease = Some (doc, room_version (rh_state h'))" by (auto simp: in_step_def)
  have "rows_ok sha256 db1" using server_rows [OF assms(2,3)] .
  from takeover_loads [OF this doc(2) assms(5-8)] checkpoint_roundtrip [OF doc(1)] show ?thesis by metis
qed

section \<open>The random source\<close>

text \<open>C22. A random source of the server that was drawn from any number of times is restored from its checkpoint as it was:
  the same seed, counter and totals, so the next bytes are the same too.\<close>

theorem random_source_restored:
  assumes "buffer_laws buffer" "newSecureRandomSource seed 0 = Some first"
    and "source = fold (\<lambda>count s. snd (nextBytes hmac s count)) counts first"
    and "isSafeInteger (ss_draws source)" "isSafeInteger (ss_bytesConsumed source)"
  shows "forkSecure buffer (sourceCheckpoint buffer source) = Some source"
proof -
  have "consistent_source s \<Longrightarrow> consistent_source (fold (\<lambda>count s. snd (nextBytes hmac s count)) counts s)" for s
    by (induction counts arbitrary: s) (auto intro: nextBytes_consistent surjective_pairing)
  from resumes_checkpoint(2) [OF assms(1) this [OF consistent_new [OF assms(2)]]] assms(3-5) show ?thesis by simp
qed

theorem random_source_restored_witness:
  "forkSecure hex_buffer (sourceCheckpoint hex_buffer (snd (nextBytes zero_hmac zero_source 2))) =
     Some (snd (nextBytes zero_hmac zero_source 2))"
proof (rule random_source_restored [OF hex_buffer_laws, where counts = "[2]" and first = zero_source and hmac = zero_hmac])
  show "newSecureRandomSource (replicate 32 0) 0 = Some zero_source" by code_simp
  show "isSafeInteger (ss_draws (snd (nextBytes zero_hmac zero_source 2)))"
    "isSafeInteger (ss_bytesConsumed (snd (nextBytes zero_hmac zero_source 2)))" by code_simp+
qed simp

section \<open>The clock\<close>

text \<open>C20. The command the clock has scheduled is accepted by the game exactly when it is due and its window is open: from
  its due time on, before the time limit unless it enforces that limit or clears trades, a warning only until the next one
  or the deadline.\<close>

theorem scheduled_command_window:
  assumes "game_inv s" "roomy s" "on_time s (nowMs ctx)" "validContext ctx" "actor ctx = InternalActor"
    and "nextScheduledRoomCommand sha256 (Playing (InProgress s)) now = Some upcoming"
    and "command = \<lparr>expectedStateVersion = ic_expectedStateVersion (sc_command upcoming), body = ic_body (sc_command upcoming)\<rparr>"
  shows "\<exists>c. upcoming = scheduled sha256 s c \<and>
    ((\<exists>t ev. transitionGameplay (InProgress s) command ctx = Accepted t ev) \<longleftrightarrow> cd_dueAtMs c \<le> nowMs ctx \<and>
      (cd_type c = WarnThirty \<longrightarrow> nowMs ctx < cd_dueAtMs c + 20000 \<and> 10 \<notin> set (emittedWarnings (as_turn s))) \<and>
      (cd_type c = WarnTen \<longrightarrow> nowMs ctx < cd_dueAtMs c + 10000) \<and>
      (cd_type c \<in> {WarnThirty, WarnTen, TurnTimeout} \<longrightarrow> before_limit s (nowMs ctx)))"
proof -
  from assms(6) obtain c where c: "upcoming = scheduled sha256 s c" "c \<in> set (clockCandidates s now)"
    "as_bankruptcyRequiredSeatIndex s = None" by (rule next_scheduled)
  have "(\<exists>t ev. transitionGameplay (InProgress s) command ctx = Accepted t ev) \<longleftrightarrow> timer_accepted s (cd_type c) ctx"
    using c(1) assms(7) by (simp add: timer_accepted_def scheduled_def)
  with timer_accepted_iff [OF assms(1-5) c(3)] scheduled_window [OF c(2)] c(1) show ?thesis by blast
qed

theorem scheduled_command_window_witness:
  "\<exists>upcoming. nextScheduledRoomCommand zero_digest (Playing (InProgress opening_state)) 30 = Some upcoming \<and>
     sc_dueAtMs upcoming = 60030 \<and>
     (\<exists>t ev. transitionGameplay (InProgress opening_state) (versioned 3 (ic_body (sc_command upcoming))) (server_at 60030) = Accepted t ev)"
proof -
  let ?next = "nextScheduledRoomCommand zero_digest (Playing (InProgress opening_state)) 30"
  have "hd (sort_by (compareCandidates 30) (clockCandidates opening_state 30)) = candidate_at WarnThirty 60030 3" by code_simp
  moreover have "as_bankruptcyRequiredSeatIndex opening_state = None" by code_simp
  ultimately have "?next = Some (scheduled zero_digest opening_state (candidate_at WarnThirty 60030 3))"
    by (simp add: nextScheduledRoomCommand_def isSafeInteger_def MAX_SAFE_INTEGER_def)
  then obtain upcoming where u: "?next = Some upcoming" "sc_dueAtMs upcoming = 60030"
    and kind: "ic_body (sc_command upcoming) = scheduled_body WarnThirty"
    by (simp add: scheduled_def candidate_at_def)
  have parts: "roomy opening_state" "on_time opening_state (nowMs (server_at 60030))" "validContext (server_at 60030)"
    "actor (server_at 60030) = InternalActor" by code_simp+
  from scheduled_command_window [OF opening_inv parts u(1) refl] obtain c where c: "upcoming = scheduled zero_digest opening_state c"
    and iff: "(\<exists>t ev. transitionGameplay (InProgress opening_state) \<lparr>expectedStateVersion = ic_expectedStateVersion (sc_command upcoming),
        body = ic_body (sc_command upcoming)\<rparr> (server_at 60030) = Accepted t ev) \<longleftrightarrow> cd_dueAtMs c \<le> nowMs (server_at 60030) \<and>
      (cd_type c = WarnThirty \<longrightarrow> nowMs (server_at 60030) < cd_dueAtMs c + 20000 \<and> 10 \<notin> set (emittedWarnings (as_turn opening_state))) \<and>
      (cd_type c = WarnTen \<longrightarrow> nowMs (server_at 60030) < cd_dueAtMs c + 10000) \<and>
      (cd_type c \<in> {WarnThirty, WarnTen, TurnTimeout} \<longrightarrow> before_limit opening_state (nowMs (server_at 60030)))"
    by blast
  from c u(2) kind have "cd_dueAtMs c = 60030" "cd_type c = WarnThirty" "ic_expectedStateVersion (sc_command upcoming) = gs_stateVersion opening_state"
    by (cases "cd_type c"; simp add: scheduled_def)+
  moreover have "before_limit opening_state 60030" "10 \<notin> set (emittedWarnings (as_turn opening_state))"
    "gs_stateVersion opening_state = 3" "nowMs (server_at 60030) = 60030" by code_simp+
  ultimately have "\<exists>t ev. transitionGameplay (InProgress opening_state) (versioned 3 (ic_body (sc_command upcoming))) (server_at 60030) = Accepted t ev"
    using iff by (simp add: versioned_def)
  with u show ?thesis by blast
qed

text \<open>C21. While a game is in progress and no bankruptcy is pending the timer is armed, no later than the deadline of the
  turn; and a command that is due at once is accepted at once, provided that the clock has not run back before a ten-second
  warning already given.\<close>

theorem clock_drives_game:
  assumes "game_inv s" "roomy s" "on_time s (nowMs ctx)" "validContext ctx" "actor ctx = InternalActor"
    and "as_bankruptcyRequiredSeatIndex s = None" "0 \<le> nowMs ctx"
    and "10 \<in> set (emittedWarnings (as_turn s)) \<Longrightarrow> deadlineAtMs (as_turn s) - 10000 \<le> nowMs ctx"
  shows "\<exists>upcoming delay. rk_timer (synchronize sha256 (nowMs ctx) (Playing (InProgress s)) clock) = Some (upcoming, delay) \<and>
    delay \<in> {0 .. max 0 (deadlineAtMs (as_turn s) - nowMs ctx)} \<and>
    (sc_dueAtMs upcoming \<le> nowMs ctx \<longrightarrow> (\<exists>t ev. transitionGameplay (InProgress s)
      \<lparr>expectedStateVersion = ic_expectedStateVersion (sc_command upcoming), body = ic_body (sc_command upcoming)\<rparr> ctx = Accepted t ev))"
proof -
  have "isSafeInteger (nowMs ctx)" using assms(4) by (auto simp: validContext_def safeEpoch_def)
  from synchronize_arms [OF assms(6) this assms(7)] obtain upcoming delay where
    armed: "rk_timer (synchronize sha256 (nowMs ctx) (Playing (InProgress s)) clock) = Some (upcoming, delay)"
      "0 \<le> delay" "delay \<le> max 0 (deadlineAtMs (as_turn s) - nowMs ctx)"
      "nextScheduledRoomCommand sha256 (Playing (InProgress s)) (nowMs ctx) = Some upcoming" by metis
  have "\<exists>t ev. transitionGameplay (InProgress s)
      \<lparr>expectedStateVersion = ic_expectedStateVersion (sc_command upcoming), body = ic_body (sc_command upcoming)\<rparr> ctx = Accepted t ev"
    if "sc_dueAtMs upcoming \<le> nowMs ctx"
  proof -
    from ready_window [OF armed(4) that assms(8)] obtain c where c: "upcoming = scheduled sha256 s c"
      "timer_window s (cd_type c) (nowMs ctx)" by metis
    with timer_accepted_iff [OF assms(1-6)] show ?thesis by (simp add: timer_accepted_def scheduled_def)
  qed
  with armed show ?thesis by auto
qed

theorem clock_drives_game_witness:
  "\<exists>upcoming delay. rk_timer (synchronize zero_digest 60030 (Playing (InProgress opening_state))
     \<lparr>rk_currentState = None, rk_timer = None\<rparr>) = Some (upcoming, delay) \<and> delay \<in> {0 .. 30000}"
proof -
  have parts: "roomy opening_state" "on_time opening_state (nowMs (server_at 60030))" "validContext (server_at 60030)"
    "actor (server_at 60030) = InternalActor" "as_bankruptcyRequiredSeatIndex opening_state = None"
    "0 \<le> nowMs (server_at 60030)" by code_simp+
  have "emittedWarnings (as_turn opening_state) = []" "deadlineAtMs (as_turn opening_state) = 90030"
    "nowMs (server_at 60030) = 60030" by code_simp+
  with clock_drives_game [OF opening_inv parts, of zero_digest "\<lparr>rk_currentState = None, rk_timer = None\<rparr>"]
  show ?thesis by fastforce
qed

end
