(* ===== verification/Public_Contract.thy ===== *)
theory Public_Contract
  imports Room_State
begin

text \<open>
  What the clients of a room are promised to see: the public states of \<open>packages/game-contracts/src/state\<close> as records, and
  the checks of \<open>PublicGameStateSchema\<close> (\<open>game-state.ts\<close>) and \<open>GameplayPublicStateSchema\<close> (\<open>gameplay-state.ts\<close>) over the
  primitive schemas of \<open>primitives.ts\<close>. A literal that a field can only have (\<open>status: "pending"\<close> of a trade and of an
  entitlement) is not repeated, and unknown keys cannot arise in a record.
\<close>

section \<open>Primitives (primitives.ts)\<close>

definition between :: "int \<Rightarrow> int \<Rightarrow> int \<Rightarrow> bool" where
  "between low high n \<longleftrightarrow> low \<le> n \<and> n \<le> high"

definition OpaqueIdSchema :: "string \<Rightarrow> bool" where
  "OpaqueIdSchema s \<longleftrightarrow> 1 \<le> length s \<and> length s \<le> 128 \<and> opaqueIdPattern s"

definition StateVersionSchema :: "int \<Rightarrow> bool" where
  "StateVersionSchema n \<longleftrightarrow> between 0 2147483647 n"

definition EpochMillisecondsSchema :: "int \<Rightarrow> bool" where
  "EpochMillisecondsSchema n \<longleftrightarrow> between 0 MAX_SAFE_INTEGER n"

text \<open>The pattern \<open>/^(0|[1-9][0-9]*)$/\<close> on one to 78 characters.\<close>

definition InMatchCashStringSchema :: "string \<Rightarrow> bool" where
  "InMatchCashStringSchema s \<longleftrightarrow> 1 \<le> length s \<and> length s \<le> 78 \<and>
     (s = ''0'' \<or> (s \<noteq> [] \<and> hd s \<noteq> CHR ''0'' \<and> list_all isDigit s))"

text \<open>A field that may be \<open>null\<close>.\<close>

definition nullable_ok :: "('a \<Rightarrow> bool) \<Rightarrow> 'a option \<Rightarrow> bool" where
  "nullable_ok ok v = (case v of None \<Rightarrow> True | Some x \<Rightarrow> ok x)"

lemma nullable_ok_simps [simp]: "nullable_ok ok None" "nullable_ok ok (Some x) = ok x"
  by (simp_all add: nullable_ok_def)

section \<open>The lobby (game-state.ts)\<close>

record public_seat =
  pu_seatIndex :: int
  pu_playerId :: string
  pu_status :: player_status
  pu_cash :: string
  pu_position :: int
  pu_inJail :: bool

datatype lobby_turn = LobbyNotStarted | LobbyAwaitingRoll opening_turn | LobbyFinished

datatype lifecycle_name = IsWaiting | IsInProgress | IsCancelled | IsFinished

record lobby_view =
  lv_schemaVersion :: int
  lv_stateVersion :: int
  lv_gameId :: string
  lv_creatorId :: string
  lv_lifecycle :: lifecycle_name
  lv_minimumPlayers :: int
  lv_maximumPlayers :: int
  lv_seats :: "public_seat option list"
  lv_currentPlayers :: int
  lv_activePlayers :: int
  lv_bankCash :: string
  lv_housesRemaining :: int
  lv_hotelsRemaining :: int
  lv_createdAtMs :: int
  lv_startedAtMs :: "int option"
  lv_cancelledAtMs :: "int option"
  lv_gameEndAtMs :: "int option"
  lv_turn :: lobby_turn

definition PlayerPublicStateSchema :: "'a public_seat_scheme \<Rightarrow> bool" where
  "PlayerPublicStateSchema seat \<longleftrightarrow>
     between 0 3 (pu_seatIndex seat) \<and> OpaqueIdSchema (pu_playerId seat) \<and> InMatchCashStringSchema (pu_cash seat) \<and>
     between 0 39 (pu_position seat)"

definition TurnStateSchema :: "lobby_turn \<Rightarrow> bool" where
  "TurnStateSchema turn =
     (case turn of
        LobbyAwaitingRoll t \<Rightarrow> between 0 3 (ot_currentSeatIndex t) \<and> EpochMillisecondsSchema (ot_startedAtMs t) \<and>
          EpochMillisecondsSchema (ot_deadlineAtMs t)
      | _ \<Rightarrow> True)"

definition occupied :: "'a option list \<Rightarrow> 'a list" where
  "occupied seats = List.map_filter id seats"

definition lobbyShape :: "lobby_view \<Rightarrow> bool" where
  "lobbyShape v \<longleftrightarrow>
     lv_schemaVersion v = 1 \<and> StateVersionSchema (lv_stateVersion v) \<and> OpaqueIdSchema (lv_gameId v) \<and>
     OpaqueIdSchema (lv_creatorId v) \<and> lv_minimumPlayers v = 2 \<and> between 2 4 (lv_maximumPlayers v) \<and>
     length (lv_seats v) = 4 \<and> list_all (nullable_ok PlayerPublicStateSchema) (lv_seats v) \<and>
     between 0 4 (lv_currentPlayers v) \<and> between 0 4 (lv_activePlayers v) \<and> InMatchCashStringSchema (lv_bankCash v) \<and>
     between 0 32 (lv_housesRemaining v) \<and> between 0 12 (lv_hotelsRemaining v) \<and>
     EpochMillisecondsSchema (lv_createdAtMs v) \<and> nullable_ok EpochMillisecondsSchema (lv_startedAtMs v) \<and>
     nullable_ok EpochMillisecondsSchema (lv_cancelledAtMs v) \<and> nullable_ok EpochMillisecondsSchema (lv_gameEndAtMs v) \<and>
     TurnStateSchema (lv_turn v)"

text \<open>The refinements: the derived counts, the seats, the lifecycle and the order of times.\<close>

definition seatsConsistent :: "lobby_view \<Rightarrow> bool" where
  "seatsConsistent v \<longleftrightarrow>
     lv_currentPlayers v = int (length (occupied (lv_seats v))) \<and>
     lv_activePlayers v = int (length (filter (\<lambda>seat. pu_status seat = Active) (occupied (lv_seats v)))) \<and>
     distinct (map pu_playerId (occupied (lv_seats v))) \<and>
     map_option pu_playerId (seat_at (lv_seats v) 0) = Some (lv_creatorId v) \<and>
     every_index (\<lambda>index slot. case slot of
         None \<Rightarrow> True
       | Some seat \<Rightarrow> pu_seatIndex seat = index \<and> \<not> index \<ge> lv_maximumPlayers v) (lv_seats v)"

definition lifecycleConsistent :: "lobby_view \<Rightarrow> bool" where
  "lifecycleConsistent v \<longleftrightarrow>
     (lv_lifecycle v = IsWaiting \<and> lv_turn v = LobbyNotStarted \<and> lv_startedAtMs v = None \<and> lv_cancelledAtMs v = None \<and>
        lv_gameEndAtMs v = None) \<or>
     (lv_lifecycle v = IsInProgress \<and> (\<exists>t. lv_turn v = LobbyAwaitingRoll t) \<and> lv_startedAtMs v \<noteq> None \<and>
        lv_cancelledAtMs v = None) \<or>
     (lv_lifecycle v = IsCancelled \<and> lv_turn v = LobbyFinished \<and> lv_startedAtMs v = None \<and> lv_cancelledAtMs v \<noteq> None \<and>
        lv_gameEndAtMs v = None) \<or>
     (lv_lifecycle v = IsFinished \<and> lv_turn v = LobbyFinished \<and> lv_startedAtMs v \<noteq> None \<and> lv_cancelledAtMs v = None \<and>
        lv_gameEndAtMs v \<noteq> None)"

definition lobbyTimes :: "lobby_view \<Rightarrow> bool" where
  "lobbyTimes v \<longleftrightarrow>
     (case lv_turn v of
        LobbyAwaitingRoll t \<Rightarrow>
          (case lv_startedAtMs v of None \<Rightarrow> False
           | Some started \<Rightarrow> ot_startedAtMs t \<le> ot_deadlineAtMs t \<and> started \<le> ot_startedAtMs t) \<and>
          (lv_lifecycle v = IsInProgress \<longrightarrow>
             int (length (occupied (lv_seats v))) \<ge> lv_minimumPlayers v \<and>
             (case seat_at (lv_seats v) (ot_currentSeatIndex t) of None \<Rightarrow> False | Some seat \<Rightarrow> pu_status seat = Active))
      | _ \<Rightarrow> True) \<and>
     nullable_ok (\<lambda>started. lv_createdAtMs v \<le> started) (lv_startedAtMs v) \<and>
     nullable_ok (\<lambda>cancelled. lv_createdAtMs v \<le> cancelled) (lv_cancelledAtMs v) \<and>
     (case (lv_gameEndAtMs v, lv_startedAtMs v) of (Some ended, Some started) \<Rightarrow> started \<le> ended | _ \<Rightarrow> True)"

definition PublicGameStateSchema :: "lobby_view \<Rightarrow> bool" where
  "PublicGameStateSchema v \<longleftrightarrow> lobbyShape v \<and> seatsConsistent v \<and> lifecycleConsistent v \<and> lobbyTimes v"

section \<open>The game (gameplay-state.ts)\<close>

record dice_view =
  dv_dieOne :: int
  dv_dieTwo :: int
  dv_total :: int
  dv_isDoubles :: bool

record gameplay_seat = public_seat +
  pu_jailTurns :: int
  pu_consecutiveDoubles :: int
  pu_missedTurns :: int
  pu_getOutOfJailCards :: int
  pu_ownedPropertyPositions :: "int list"

record ownable_view =
  ow_position :: int
  ow_kind :: property_type
  ow_ownerId :: "string option"
  ow_mortgaged :: bool
  ow_houses :: int
  ow_hasHotel :: bool

datatype space_view = OwnableView ownable_view | PlainView int property_type

datatype turn_view = NotStartedView | ActiveView int int int turn_phase | FinishedView

datatype trade_kind = MoneyOnlyKind | PropertyOnlyKind | MoneyForPropertyKind | PropertyForMoneyKind

record trade_view =
  tv_tradeId :: string
  tv_tradeType :: trade_kind
  tv_proposerId :: string
  tv_receiverId :: string
  tv_offeredCash :: string
  tv_requestedCash :: string
  tv_offeredPropertyPosition :: "int option"
  tv_requestedPropertyPosition :: "int option"
  tv_createdAtMs :: int
  tv_expiresAtMs :: int

record ranking_view =
  rv_rank :: int
  rv_seatIndex :: int
  rv_playerId :: string
  rv_netWorth :: string

record terminal_view =
  ev_reason :: terminal_end_reason
  ev_winnerId :: string
  ev_endedAtMs :: int
  ev_ranking :: "ranking_view list"
  ev_settlementWinnerId :: string

record gameplay_view =
  gv_schemaVersion :: int
  gv_stateVersion :: int
  gv_gameId :: string
  gv_rulesetId :: string
  gv_seats :: "gameplay_seat option list"
  gv_board :: "space_view list"
  gv_turn :: turn_view
  gv_activeTrades :: "trade_view list"
  gv_lastDice :: "dice_view option"
  gv_terminal :: "terminal_view option"

definition DiceResultSchema :: "dice_view \<Rightarrow> bool" where
  "DiceResultSchema d \<longleftrightarrow>
     between 1 6 (dv_dieOne d) \<and> between 1 6 (dv_dieTwo d) \<and> between 2 12 (dv_total d) \<and>
     dv_total d = dv_dieOne d + dv_dieTwo d \<and> dv_isDoubles d = (dv_dieOne d = dv_dieTwo d)"

definition GameplayPlayerPublicStateSchema :: "gameplay_seat \<Rightarrow> bool" where
  "GameplayPlayerPublicStateSchema seat \<longleftrightarrow>
     PlayerPublicStateSchema seat \<and> between 0 3 (pu_jailTurns seat) \<and> between 0 2 (pu_consecutiveDoubles seat) \<and>
     between 0 3 (pu_missedTurns seat) \<and> between 0 255 (pu_getOutOfJailCards seat) \<and>
     list_all (between 0 39) (pu_ownedPropertyPositions seat) \<and> length (pu_ownedPropertyPositions seat) \<le> 40"

definition ownable_kind :: "property_type \<Rightarrow> bool" where
  "ownable_kind kind \<longleftrightarrow> kind = Street \<or> kind = Railroad \<or> kind = Utility"

definition BoardSpacePublicStateSchema :: "space_view \<Rightarrow> bool" where
  "BoardSpacePublicStateSchema space =
     (case space of
        OwnableView s \<Rightarrow>
          between 0 39 (ow_position s) \<and> ownable_kind (ow_kind s) \<and> nullable_ok OpaqueIdSchema (ow_ownerId s) \<and>
          between 0 4 (ow_houses s) \<and>
          \<not> (ow_kind s \<noteq> Street \<and> (ow_houses s \<noteq> 0 \<or> ow_hasHotel s)) \<and>
          \<not> (ow_hasHotel s \<and> ow_houses s \<noteq> 0) \<and>
          \<not> (ow_ownerId s = None \<and> (ow_mortgaged s \<or> ow_houses s \<noteq> 0 \<or> ow_hasHotel s))
      | PlainView pos kind \<Rightarrow> between 0 39 pos \<and> \<not> ownable_kind kind)"

definition GameplayTurnStateSchema :: "turn_view \<Rightarrow> bool" where
  "GameplayTurnStateSchema turn =
     (case turn of
        ActiveView seat started deadline ph \<Rightarrow>
          between 0 3 seat \<and> EpochMillisecondsSchema started \<and> EpochMillisecondsSchema deadline \<and>
          (case ph of AwaitingPropertyDecision pos \<Rightarrow> between 0 39 pos | AwaitingRentPayment pos \<Rightarrow> between 0 39 pos | _ \<Rightarrow> True)
      | _ \<Rightarrow> True)"

definition tradeShape :: "trade_view \<Rightarrow> bool" where
  "tradeShape t =
     (case tv_tradeType t of
        MoneyOnlyKind \<Rightarrow> tv_offeredPropertyPosition t = None \<and> tv_requestedPropertyPosition t = None \<and>
          (tv_offeredCash t \<noteq> ''0'' \<or> tv_requestedCash t \<noteq> ''0'')
      | PropertyOnlyKind \<Rightarrow> tv_offeredCash t = ''0'' \<and> tv_requestedCash t = ''0'' \<and>
          (tv_offeredPropertyPosition t \<noteq> None \<or> tv_requestedPropertyPosition t \<noteq> None)
      | MoneyForPropertyKind \<Rightarrow> tv_offeredCash t \<noteq> ''0'' \<and> tv_requestedCash t = ''0'' \<and>
          tv_offeredPropertyPosition t = None \<and> tv_requestedPropertyPosition t \<noteq> None
      | PropertyForMoneyKind \<Rightarrow> tv_offeredCash t = ''0'' \<and> tv_requestedCash t \<noteq> ''0'' \<and>
          tv_offeredPropertyPosition t \<noteq> None \<and> tv_requestedPropertyPosition t = None)"

definition TradePublicStateSchema :: "trade_view \<Rightarrow> bool" where
  "TradePublicStateSchema t \<longleftrightarrow>
     OpaqueIdSchema (tv_tradeId t) \<and> OpaqueIdSchema (tv_proposerId t) \<and> OpaqueIdSchema (tv_receiverId t) \<and>
     InMatchCashStringSchema (tv_offeredCash t) \<and> InMatchCashStringSchema (tv_requestedCash t) \<and>
     nullable_ok (between 0 39) (tv_offeredPropertyPosition t) \<and> nullable_ok (between 0 39) (tv_requestedPropertyPosition t) \<and>
     EpochMillisecondsSchema (tv_createdAtMs t) \<and> EpochMillisecondsSchema (tv_expiresAtMs t) \<and>
     tv_proposerId t \<noteq> tv_receiverId t \<and> tv_createdAtMs t \<le> tv_expiresAtMs t \<and>
     \<not> (tv_offeredPropertyPosition t \<noteq> None \<and> tv_offeredPropertyPosition t = tv_requestedPropertyPosition t) \<and>
     tradeShape t"

definition TerminalRankingEntrySchema :: "ranking_view \<Rightarrow> bool" where
  "TerminalRankingEntrySchema e \<longleftrightarrow>
     between 1 4 (rv_rank e) \<and> between 0 3 (rv_seatIndex e) \<and> OpaqueIdSchema (rv_playerId e) \<and>
     InMatchCashStringSchema (rv_netWorth e)"

definition GameplayTerminalStateSchema :: "terminal_view \<Rightarrow> bool" where
  "GameplayTerminalStateSchema t \<longleftrightarrow>
     OpaqueIdSchema (ev_winnerId t) \<and> EpochMillisecondsSchema (ev_endedAtMs t) \<and>
     1 \<le> length (ev_ranking t) \<and> length (ev_ranking t) \<le> 4 \<and> list_all TerminalRankingEntrySchema (ev_ranking t) \<and>
     OpaqueIdSchema (ev_settlementWinnerId t) \<and>
     map_option rv_rank (js_index (ev_ranking t) 0) = Some 1 \<and>
     map_option rv_playerId (js_index (ev_ranking t) 0) = Some (ev_winnerId t) \<and>
     ev_settlementWinnerId t = ev_winnerId t \<and>
     distinct (map rv_rank (ev_ranking t)) \<and> distinct (map rv_playerId (ev_ranking t)) \<and>
     every_index (\<lambda>index entry. rv_rank entry = index + 1) (ev_ranking t)"

definition gameplayShape :: "gameplay_view \<Rightarrow> bool" where
  "gameplayShape v \<longleftrightarrow>
     gv_schemaVersion v = 1 \<and> StateVersionSchema (gv_stateVersion v) \<and> OpaqueIdSchema (gv_gameId v) \<and>
     gv_rulesetId v = ''pootown-rust-source-v1'' \<and>
     length (gv_seats v) = 4 \<and> list_all (nullable_ok GameplayPlayerPublicStateSchema) (gv_seats v) \<and>
     length (gv_board v) = 40 \<and> list_all BoardSpacePublicStateSchema (gv_board v) \<and>
     GameplayTurnStateSchema (gv_turn v) \<and>
     length (gv_activeTrades v) \<le> 20 \<and> list_all TradePublicStateSchema (gv_activeTrades v) \<and>
     nullable_ok DiceResultSchema (gv_lastDice v) \<and> nullable_ok GameplayTerminalStateSchema (gv_terminal v)"

fun space_position :: "space_view \<Rightarrow> int" where
  "space_position (OwnableView s) = ow_position s"
| "space_position (PlainView pos _) = pos"

fun space_kind :: "space_view \<Rightarrow> property_type" where
  "space_kind (OwnableView s) = ow_kind s"
| "space_kind (PlainView _ kind) = kind"

fun space_owner :: "space_view \<Rightarrow> string option" where
  "space_owner (OwnableView s) = ow_ownerId s"
| "space_owner (PlainView _ _) = None"

definition expectedKind :: "int \<Rightarrow> property_type" where
  "expectedKind index =
     (if index \<in> set [1, 3, 6, 8, 9, 11, 13, 14, 16, 18, 19, 21, 23, 24, 26, 27, 29, 31, 32, 34, 37, 39] then Street
      else if index \<in> set [5, 15, 25, 35] then Railroad
      else if index \<in> set [12, 28] then Utility
      else if index \<in> set [4, 38] then TaxSpace
      else if index \<in> set [7, 22, 36] then ChanceSpace
      else if index \<in> set [2, 17, 33] then CommunityChestSpace
      else Corner)"

definition view_ids :: "gameplay_view \<Rightarrow> string list" where
  "view_ids v = map pu_playerId (occupied (gv_seats v))"

definition boardConsistent :: "gameplay_view \<Rightarrow> bool" where
  "boardConsistent v \<longleftrightarrow>
     distinct (view_ids v) \<and>
     every_index (\<lambda>index slot. case slot of
         None \<Rightarrow> True
       | Some seat \<Rightarrow> pu_seatIndex seat = index \<and> distinct (pu_ownedPropertyPositions seat)) (gv_seats v) \<and>
     every_index (\<lambda>index space.
         space_position space = index \<and> nullable_ok (\<lambda>owner. owner \<in> set (view_ids v)) (space_owner space) \<and>
         space_kind space = expectedKind index) (gv_board v) \<and>
     list_all (nullable_ok (\<lambda>seat.
         let derived = map space_position (filter (\<lambda>space. space_owner space = Some (pu_playerId seat)) (gv_board v)) in
         length derived = length (pu_ownedPropertyPositions seat) \<and>
         set derived \<subseteq> set (pu_ownedPropertyPositions seat))) (gv_seats v)"

definition turnConsistent :: "gameplay_view \<Rightarrow> bool" where
  "turnConsistent v \<longleftrightarrow>
     list_all (\<lambda>t. tv_proposerId t \<in> set (view_ids v) \<and> tv_receiverId t \<in> set (view_ids v)) (gv_activeTrades v) \<and>
     (case gv_turn v of
        ActiveView seat started deadline _ \<Rightarrow>
          (case seat_at (gv_seats v) seat of None \<Rightarrow> False | Some current \<Rightarrow> pu_status current = Active) \<and>
          started \<le> deadline
      | _ \<Rightarrow> True) \<and>
     (gv_turn v = FinishedView) = (gv_terminal v \<noteq> None) \<and>
     nullable_ok (\<lambda>t. list_all (\<lambda>e. rv_playerId e \<in> set (view_ids v)) (ev_ranking t)) (gv_terminal v)"

definition GameplayPublicStateSchema :: "gameplay_view \<Rightarrow> bool" where
  "GameplayPublicStateSchema v \<longleftrightarrow> gameplayShape v \<and> boardConsistent v \<and> turnConsistent v"

end
