(* ===== verification/Public_View.thy ===== *)
theory Public_View
  imports Public_Contract Game_Invariant Lifecycle
begin

text \<open>
  \<open>rooms/game-room-state.ts\<close> of the game server: what a room shows to its clients. A lobby or an aggregate becomes its
  public view, which the schema of the contract must accept; the schema of Colyseus carries its version and its text.
\<close>

section \<open>The lobby\<close>

fun lifecycle_of :: "game_state \<Rightarrow> lifecycle_name" where
  "lifecycle_of (WaitingGame _) = IsWaiting"
| "lifecycle_of (InProgressGame _) = IsInProgress"
| "lifecycle_of (CancelledGame _) = IsCancelled"
| "lifecycle_of (FinishedGame _) = IsFinished"

fun gameEndAt :: "game_state \<Rightarrow> int option" where
  "gameEndAt (InProgressGame g) = ip_gameEndAtMs g"
| "gameEndAt (FinishedGame g) = Some (fg_gameEndAtMs g)"
| "gameEndAt _ = None"

fun turn_of :: "game_state \<Rightarrow> lobby_turn" where
  "turn_of (WaitingGame _) = LobbyNotStarted"
| "turn_of (InProgressGame g) = LobbyAwaitingRoll (ip_turn g)"
| "turn_of _ = LobbyFinished"

definition publicSeat :: "player_seat \<Rightarrow> public_seat" where
  "publicSeat seat =
     \<lparr>pu_seatIndex = ps_seatIndex seat, pu_playerId = ps_playerId seat, pu_status = ps_status seat,
      pu_cash = decimal_int (ps_cash seat), pu_position = ps_position seat, pu_inJail = ps_inJail seat\<rparr>"

definition lobbyView :: "game_state \<Rightarrow> lobby_view" where
  "lobbyView canonical =
     (let base = game_base_of canonical in
      \<lparr>lv_schemaVersion = 1, lv_stateVersion = gm_stateVersion base, lv_gameId = gm_gameId base,
       lv_creatorId = gm_creatorId base, lv_lifecycle = lifecycle_of canonical,
       lv_minimumPlayers = gm_minimumPlayers base, lv_maximumPlayers = gm_maximumPlayers base,
       lv_seats = map (map_option publicSeat) (gm_seats base),
       lv_currentPlayers = int (length (occupiedSeats base)), lv_activePlayers = int (length (activeSeats base)),
       lv_bankCash = decimal_int (gm_bankCash base), lv_housesRemaining = gm_housesRemaining base,
       lv_hotelsRemaining = gm_hotelsRemaining base, lv_createdAtMs = gm_createdAtMs base,
       lv_startedAtMs = startedAt canonical, lv_cancelledAtMs = cancelledAt canonical,
       lv_gameEndAtMs = gameEndAt canonical, lv_turn = turn_of canonical\<rparr>)"

text \<open>The state goes through its snapshot; \<open>None\<close> where the snapshot or the schema refuses it.\<close>

definition publicLifecycleState :: "game_state \<Rightarrow> lobby_view option" where
  "publicLifecycleState state =
     (case serializeSnapshot state of
        None \<Rightarrow> None
      | Some text \<Rightarrow> (case parseSnapshot text of
          None \<Rightarrow> None
        | Some canonical \<Rightarrow> (let v = lobbyView canonical in if PublicGameStateSchema v then Some v else None)))"

section \<open>The game\<close>

definition gameplaySeat :: "property_state list \<Rightarrow> gameplay_player \<Rightarrow> gameplay_seat" where
  "gameplaySeat properties player =
     \<lparr>pu_seatIndex = seatIndex player, pu_playerId = playerId player, pu_status = status player,
      pu_cash = decimal_int (cash player), pu_position = position player, pu_inJail = inJail player,
      pu_jailTurns = jailTurns player, pu_consecutiveDoubles = consecutiveDoubles player,
      pu_missedTurns = missedTurns player, pu_getOutOfJailCards = getOutOfJailCards player,
      pu_ownedPropertyPositions =
        map propPosition (filter (\<lambda>property. ownerSeatIndex property = Some (seatIndex player)) properties)\<rparr>"

text \<open>One space of the board; \<open>None\<close> where the function throws.\<close>

definition spaceView :: "gameplay_player option list \<Rightarrow> property_state list \<Rightarrow> int \<Rightarrow> board_space_definition \<Rightarrow> space_view option" where
  "spaceView players properties pos definition' =
     (case js_index properties pos of
        None \<Rightarrow> None
      | Some property \<Rightarrow>
          if isOwnableSpace definition' then
            (let owner = (case ownerSeatIndex property of None \<Rightarrow> None | Some seat \<Rightarrow> seat_at players seat) in
             if ownerSeatIndex property \<noteq> None \<and> owner = None then None
             else Some (OwnableView \<lparr>ow_position = pos, ow_kind = propertyType definition', ow_ownerId = map_option playerId owner,
               ow_mortgaged = mortgaged property, ow_houses = houses property, ow_hasHotel = hasHotel property\<rparr>))
          else Some (PlainView pos (propertyType definition')))"

fun kind_of_terms :: "trade_terms \<Rightarrow> trade_kind" where
  "kind_of_terms (MoneyOnly _ _) = MoneyOnlyKind"
| "kind_of_terms (PropertyOnly _ _) = PropertyOnlyKind"
| "kind_of_terms (MoneyForProperty _ _) = MoneyForPropertyKind"
| "kind_of_terms (PropertyForMoney _ _) = PropertyForMoneyKind"

definition tradeView :: "gameplay_player option list \<Rightarrow> pending_trade \<Rightarrow> trade_view option" where
  "tradeView players trade =
     (case (seat_at players (proposerSeatIndex trade), seat_at players (receiverSeatIndex trade)) of
        (Some proposer, Some receiver) \<Rightarrow>
          Some \<lparr>tv_tradeId = tradeId trade, tv_tradeType = kind_of_terms (tradeTerms trade),
            tv_proposerId = playerId proposer, tv_receiverId = playerId receiver,
            tv_offeredCash = decimal_int (fst (cashTerms (tradeTerms trade))),
            tv_requestedCash = decimal_int (snd (cashTerms (tradeTerms trade))),
            tv_offeredPropertyPosition = fst (propertyTerms (tradeTerms trade)),
            tv_requestedPropertyPosition = snd (propertyTerms (tradeTerms trade)),
            tv_createdAtMs = createdAtMs trade, tv_expiresAtMs = expiresAtMs trade\<rparr>
      | _ \<Rightarrow> None)"

definition rankingView :: "gameplay_player option list \<Rightarrow> terminal_ranking_entry \<Rightarrow> ranking_view option" where
  "rankingView players entry =
     map_option (\<lambda>player. \<lparr>rv_rank = re_rank entry, rv_seatIndex = re_seatIndex entry, rv_playerId = playerId player,
         rv_netWorth = decimal_int (re_netWorth entry)\<rparr>) (seat_at players (re_seatIndex entry))"

definition terminalView :: "gameplay_player option list \<Rightarrow> terminal_outcome \<Rightarrow> terminal_view option" where
  "terminalView players terminal =
     (case seat_at players (to_winnerSeatIndex terminal) of
        None \<Rightarrow> None
      | Some winner \<Rightarrow>
          map_option (\<lambda>ranking. \<lparr>ev_reason = to_reason terminal, ev_winnerId = playerId winner,
              ev_endedAtMs = to_endedAtMs terminal, ev_ranking = ranking, ev_settlementWinnerId = playerId winner\<rparr>)
            (those (map (rankingView players) (to_ranking terminal))))"

definition diceView :: "dice_roll \<Rightarrow> dice_view" where
  "diceView roll =
     \<lparr>dv_dieOne = fst (dice roll), dv_dieTwo = snd (dice roll), dv_total = total roll, dv_isDoubles = isDoubles roll\<rparr>"

text \<open>Everything but the turn and the outcome; the random source, the stock of the bank and the warnings stay out.\<close>

definition gameplayView ::
  "'a gameplay_state_scheme \<Rightarrow> turn_view \<Rightarrow> terminal_view option \<Rightarrow> gameplay_view option" where
  "gameplayView state turn terminal =
     (case those (map_index (spaceView (gs_players state) (gs_properties state)) BOARD_SPACES) of
        None \<Rightarrow> None
      | Some board \<Rightarrow> (case those (map (tradeView (gs_players state)) (gs_activeTrades state)) of
          None \<Rightarrow> None
        | Some trades \<Rightarrow>
            (let v = \<lparr>gv_schemaVersion = 1, gv_stateVersion = gs_stateVersion state, gv_gameId = gs_gameId state,
               gv_rulesetId = gs_rulesetId state, gv_seats = map (map_option (gameplaySeat (gs_properties state))) (gs_players state),
               gv_board = board, gv_turn = turn, gv_activeTrades = trades,
               gv_lastDice = map_option diceView (gs_lastDice state), gv_terminal = terminal\<rparr> in
             if GameplayPublicStateSchema v then Some v else None)))"

definition activeTurnView :: "active_turn \<Rightarrow> turn_view" where
  "activeTurnView turn = ActiveView (currentSeatIndex turn) (turnStartedAtMs turn) (deadlineAtMs turn) (phase turn)"

definition publicGameplayState :: "aggregate \<Rightarrow> gameplay_view option" where
  "publicGameplayState state =
     (if \<not> isValidAggregate state then None
      else case state of
        InProgress s \<Rightarrow> gameplayView s (activeTurnView (as_turn s)) None
      | Finished f \<Rightarrow> (case terminalView (gs_players f) (fs_terminal f) of
          None \<Rightarrow> None | Some t \<Rightarrow> gameplayView f FinishedView (Some t)))"

section \<open>The state of the room\<close>

datatype room_view = LobbyView lobby_view | GameView gameplay_view

definition toRoomPublicState :: "room_state \<Rightarrow> room_view option" where
  "toRoomPublicState state =
     (case state of
        Lobby g \<Rightarrow> map_option LobbyView (publicLifecycleState g)
      | Playing a \<Rightarrow> map_option GameView (publicGameplayState a))"

fun view_version :: "room_view \<Rightarrow> int" where
  "view_version (LobbyView v) = lv_stateVersion v"
| "view_version (GameView v) = gv_stateVersion v"

end
