(* ===== verification/Public_View_Laws.thy ===== *)
theory Public_View_Laws
  imports Public_View
begin

text \<open>
  Every lobby that can be stored, and every game that keeps its invariant, has a public view: the schema of the contract
  refuses none of them, so the callback of a commit that updates the room does not throw on this account.
\<close>

section \<open>Primitives\<close>

lemma in_range_between: "in_range low high n \<Longrightarrow> between low high n"
  by (simp add: in_range_def between_def)

lemma opaque_iff [simp]: "OpaqueIdSchema s \<longleftrightarrow> validOpaqueId s"
  by (simp add: OpaqueIdSchema_def validOpaqueId_def)

lemma cash_string_iff [simp]: "InMatchCashStringSchema (decimal_int n) \<longleftrightarrow> isCash n"
proof -
  have "InMatchCashStringSchema s \<longleftrightarrow> canonical_decimal s" for s
    by (cases s) (auto simp: InMatchCashStringSchema_def canonical_decimal_def)
  then show ?thesis by (simp add: canonical_decimal_printed)
qed

lemma epoch_iff: "in_range 0 MAX_SAFE_INTEGER n \<Longrightarrow> EpochMillisecondsSchema n"
  by (simp add: EpochMillisecondsSchema_def in_range_between)

lemma occupied_map: "occupied (map (map_option f) seats) = map f (occupied seats)"
  by (induction seats) (simp_all add: occupied_def map_filter_simps split: option.split)

lemma seat_at_map: "seat_at (map (map_option f) seats) i = map_option f (seat_at seats i)"
  by (auto simp: seat_at_def split: option.splits)

lemma occupied_member: "x \<in> set (occupied seats) \<longleftrightarrow> Some x \<in> set seats"
  by (induction seats) (auto simp: occupied_def map_filter_simps split: option.split)

lemma length_occupied: "length (occupied seats) \<le> length seats"
  by (induction seats) (auto simp: occupied_def map_filter_simps split: option.split)

lemma nth_in_drop: "m \<le> k \<Longrightarrow> k < length xs \<Longrightarrow> xs ! k \<in> set (drop m xs)"
  using nth_mem [of "k - m" "drop m xs"] by simp

section \<open>The lobby\<close>

lemma occupiedSeats_occupied: "occupiedSeats g = occupied (gm_seats g)"
  by (simp add: occupiedSeats_def occupied_def)

lemma saved_seat_view: "saved_seat i seat \<Longrightarrow> PlayerPublicStateSchema (publicSeat seat) \<and> pu_seatIndex (publicSeat seat) = i"
  by (auto simp: saved_seat_def PlayerPublicStateSchema_def publicSeat_def in_range_between)

lemma saved_base_seats:
  assumes "saved_base g"
  shows "list_all (nullable_ok PlayerPublicStateSchema) (map (map_option publicSeat) (gm_seats g))"
    "every_index (\<lambda>index slot. case slot of None \<Rightarrow> True
       | Some seat \<Rightarrow> pu_seatIndex seat = index \<and> \<not> index \<ge> gm_maximumPlayers g) (map (map_option publicSeat) (gm_seats g))"
proof -
  have seats: "every_index (\<lambda>i. pred_option (saved_seat i)) (gm_seats g)" and len: "length (gm_seats g) = 4"
    and empty: "\<not> list_ex (\<lambda>seat. seat \<noteq> None) (drop (nat (gm_maximumPlayers g)) (gm_seats g))"
    and most: "0 \<le> gm_maximumPlayers g"
    using assms by (auto simp: saved_base_def in_range_def policy_simps)
  have saved: "saved_seat (int k) seat" if "k < length (gm_seats g)" "gm_seats g ! k = Some seat" for k seat
    using seats that by (force simp: every_index_iff)
  show "list_all (nullable_ok PlayerPublicStateSchema) (map (map_option publicSeat) (gm_seats g))"
    unfolding list_all_length
  proof (intro allI impI)
    fix k assume k: "k < length (map (map_option publicSeat) (gm_seats g))"
    then show "nullable_ok PlayerPublicStateSchema (map (map_option publicSeat) (gm_seats g) ! k)"
      using saved [of k] saved_seat_view [of "int k"] by (cases "gm_seats g ! k") simp_all
  qed
  have "int k < gm_maximumPlayers g" if "k < length (gm_seats g)" "gm_seats g ! k = Some seat" for k seat
  proof (rule ccontr)
    assume "\<not> int k < gm_maximumPlayers g"
    with most have "nat (gm_maximumPlayers g) \<le> k" by linarith
    then have "gm_seats g ! k \<in> set (drop (nat (gm_maximumPlayers g)) (gm_seats g))"
      using that(1) by (rule nth_in_drop)
    with empty that(2) show False by (auto simp: list_ex_iff)
  qed
  then show "every_index (\<lambda>index slot. case slot of None \<Rightarrow> True
       | Some seat \<Rightarrow> pu_seatIndex seat = index \<and> \<not> index \<ge> gm_maximumPlayers g) (map (map_option publicSeat) (gm_seats g))"
    using saved saved_seat_view unfolding every_index_iff by (auto simp: not_le split: option.split)
qed

lemma consistent_base_seats:
  assumes "consistent_base g"
  shows "distinct (map pu_playerId (occupied (map (map_option publicSeat) (gm_seats g))))"
    "map_option pu_playerId (seat_at (map (map_option publicSeat) (gm_seats g)) 0) = Some (gm_creatorId g)"
proof -
  have "length (remdups (map ps_playerId (occupied (gm_seats g)))) = length (map ps_playerId (occupied (gm_seats g)))"
    using assms by (simp add: consistent_base_def Let_def occupiedSeats_occupied)
  then have "distinct (map ps_playerId (occupied (gm_seats g)))" by (metis distinct_remdups length_remdups_eq)
  then show "distinct (map pu_playerId (occupied (map (map_option publicSeat) (gm_seats g))))"
    by (simp add: occupied_map comp_def publicSeat_def)
  show "map_option pu_playerId (seat_at (map (map_option publicSeat) (gm_seats g)) 0) = Some (gm_creatorId g)"
    using assms by (simp add: consistent_base_def Let_def seat_at_map option.map_comp comp_def publicSeat_def)
qed

lemma base_truncate:
  "saved_base (game_base.truncate g) = saved_base g" "consistent_base (game_base.truncate g) = consistent_base g"
  "occupiedSeats (game_base.truncate g) = occupiedSeats g"
  by (simp_all add: saved_base_def consistent_base_def occupiedSeats_def activeSeats_def game_base.defs)

lemma saved_lobby_base: "saved_lobby g \<Longrightarrow> saved_base (game_base_of g) \<and> consistent_base (game_base_of g)"
  by (cases g) (simp_all add: base_truncate)

lemma saved_lobby_times:
  "saved_lobby g \<Longrightarrow> nullable_ok EpochMillisecondsSchema (startedAt g) \<and> nullable_ok EpochMillisecondsSchema (cancelledAt g) \<and>
     nullable_ok EpochMillisecondsSchema (gameEndAt g) \<and> TurnStateSchema (turn_of g)"
  by (cases g) (auto simp: epoch_iff TurnStateSchema_def in_range_between nullable_ok_def split: option.splits)

lemma lobby_shape: "saved_lobby g \<Longrightarrow> lobbyShape (lobbyView g)"
proof -
  assume g: "saved_lobby g"
  note base = conjunct1 [OF saved_lobby_base [OF g]]
  have few: "length (occupiedSeats (game_base_of g)) \<le> 4"
    using base length_occupied [of "gm_seats (game_base_of g)"]
    by (simp add: saved_base_def occupiedSeats_occupied policy_simps)
  then have "length (activeSeats (game_base_of g)) \<le> 4"
    unfolding activeSeats_def by (rule order_trans [OF length_filter_le])
  with few base saved_lobby_times [OF g] saved_base_seats(1) [OF base] show ?thesis
    by (simp add: lobbyShape_def lobbyView_def Let_def saved_base_def StateVersionSchema_def epoch_iff in_range_def between_def
        policy_simps EpochMillisecondsSchema_def)
qed

lemma lobby_seats: "saved_lobby g \<Longrightarrow> seatsConsistent (lobbyView g)"
proof -
  assume g: "saved_lobby g"
  note base = saved_lobby_base [OF g]
  have "length (filter (\<lambda>seat. pu_status seat = Active) (occupied (map (map_option publicSeat) (gm_seats (game_base_of g))))) =
      length (activeSeats (game_base_of g))"
    by (simp add: occupied_map filter_map comp_def publicSeat_def activeSeats_def occupiedSeats_occupied)
  moreover have "length (occupied (map (map_option publicSeat) (gm_seats (game_base_of g)))) = length (occupiedSeats (game_base_of g))"
    by (simp add: occupied_map occupiedSeats_occupied)
  ultimately show ?thesis
    using saved_base_seats(2) [of "game_base_of g"] consistent_base_seats [of "game_base_of g"] base
    by (simp add: seatsConsistent_def lobbyView_def Let_def cong: option.case_cong)
qed

lemma lobby_times: "saved_lobby g \<Longrightarrow> lifecycleConsistent (lobbyView g) \<and> lobbyTimes (lobbyView g)"
proof (cases g)
  case (InProgressGame started)
  assume g: "saved_lobby g"
  have "occupied (map (map_option publicSeat) (gm_seats started)) = map publicSeat (occupiedSeats started)"
    by (simp add: occupied_map occupiedSeats_occupied)
  with g InProgressGame show ?thesis
    by (auto simp: lifecycleConsistent_def lobbyTimes_def lobbyView_def Let_def game_base.defs seat_at_map publicSeat_def
        split: option.splits)
qed (simp_all add: lifecycleConsistent_def lobbyTimes_def lobbyView_def Let_def game_base.defs)

lemma lobby_view_iff:
  "publicLifecycleState g = (if serializeSnapshot g = None then None else Some (lobbyView g))"
proof (cases "serializeSnapshot g")
  case None
  then show ?thesis by (simp add: publicLifecycleState_def)
next
  case (Some doc)
  then have "saved_lobby g" using lobby_snapshot.saves_iff by blast
  with Some lobby_snapshot.roundtrip [OF Some] lobby_shape lobby_seats lobby_times show ?thesis
    by (simp add: publicLifecycleState_def PublicGameStateSchema_def Let_def)
qed

end
