(* ===== verification/Public_Game_Laws.thy ===== *)
theory Public_Game_Laws
  imports Public_View_Laws Endgame Room_Run
begin

text \<open>The public view of a game exists and is what the contract promises, for every game that keeps its invariant.\<close>

section \<open>Seats\<close>

lemma valid_seat:
  assumes "validStateFrame s" "seat_at (gs_players s) i = Some p"
  shows "seatIndex p = i" "0 \<le> i" "i < 4" "saved_player p"
  using assms valid_frame_parts(1,7) [OF assms(1)] valid_slot_in_range [OF assms]
  by (auto simp: slots_satisfy_def validBankruptcyPlayer_def seat_at_Some_iff)

lemma valid_seat_unique:
  assumes "validStateFrame s" "seat_at (gs_players s) i = Some p" "seat_at (gs_players s) j = Some q" "playerId p = playerId q"
  shows "i = j"
  using gameplayPlayerById_unique [OF assms(2,1)] gameplayPlayerById_unique [OF assms(3,1)] assms
  by (metis option.inject valid_seat(1))

text \<open>The positions a seat owns, in the order of the board.\<close>

lemma property_positions:
  assumes "isValidPropertyStates ps"
  shows "map propPosition ps = map int [0..<40]"
proof (rule nth_equalityI)
  show "length (map propPosition ps) = length (map int [0..<40])" using valid_properties_length [OF assms] by simp
  fix k assume "k < length (map propPosition ps)"
  then have "k < length ps" by simp
  then have "validPropertyAt (int k) (ps ! k)" using assms by (simp add: isValidPropertyStates_def every_index_iff)
  from valid_property_position [OF this] \<open>k < length ps\<close> valid_properties_length [OF assms]
  show "map propPosition ps ! k = map int [0..<40] ! k" by simp
qed

lemma owned_positions:
  assumes "isValidPropertyStates ps"
  shows "distinct (map propPosition (filter P ps))" "list_all (between 0 39) (map propPosition (filter P ps))"
    "length (filter P ps) \<le> 40"
proof -
  have "distinct (map propPosition ps)" by (simp add: property_positions [OF assms] distinct_map)
  then show "distinct (map propPosition (filter P ps))" by (rule distinct_map_filter)
  have "set (map propPosition ps) \<subseteq> {0..39}" by (auto simp: property_positions [OF assms])
  then show "list_all (between 0 39) (map propPosition (filter P ps))" by (auto simp: list_all_iff between_def)
  show "length (filter P ps) \<le> 40"
    using length_filter_le [of P ps] valid_properties_length [OF assms] by simp
qed

lemma seat_view_ok:
  assumes "saved_player p" "isValidPropertyStates ps"
  shows "GameplayPlayerPublicStateSchema (gameplaySeat ps p)"
  using assms(1) owned_positions [OF assms(2)]
  by (simp add: GameplayPlayerPublicStateSchema_def PlayerPublicStateSchema_def gameplaySeat_def saved_player_def in_range_between)

lemma seats_view_ok:
  assumes "validStateFrame s"
  shows "list_all (nullable_ok GameplayPlayerPublicStateSchema) (map (map_option (gameplaySeat (gs_properties s))) (gs_players s))"
    "every_index (\<lambda>index slot. case slot of None \<Rightarrow> True
       | Some seat \<Rightarrow> pu_seatIndex seat = index \<and> distinct (pu_ownedPropertyPositions seat))
      (map (map_option (gameplaySeat (gs_properties s))) (gs_players s))"
proof -
  note props = valid_frame_parts(2) [OF assms]
  have seat: "seatIndex p = int k \<and> saved_player p" if "k < length (gs_players s)" "gs_players s ! k = Some p" for k p
    using valid_seat [OF assms, of "int k" p] that by (simp add: seat_at_nat)
  show "list_all (nullable_ok GameplayPlayerPublicStateSchema) (map (map_option (gameplaySeat (gs_properties s))) (gs_players s))"
    unfolding list_all_length
  proof (intro allI impI)
    fix k assume k: "k < length (map (map_option (gameplaySeat (gs_properties s))) (gs_players s))"
    then show "nullable_ok GameplayPlayerPublicStateSchema (map (map_option (gameplaySeat (gs_properties s))) (gs_players s) ! k)"
      using seat [of k] seat_view_ok [OF _ props] by (cases "gs_players s ! k") simp_all
  qed
  show "every_index (\<lambda>index slot. case slot of None \<Rightarrow> True
       | Some seat \<Rightarrow> pu_seatIndex seat = index \<and> distinct (pu_ownedPropertyPositions seat))
      (map (map_option (gameplaySeat (gs_properties s))) (gs_players s))"
    using seat owned_positions(1) [OF props] unfolding every_index_iff
    by (auto simp: gameplaySeat_def split: option.split)
qed

lemma view_ids_distinct:
  assumes "validStateFrame s"
  shows "distinct (map pu_playerId (occupied (map (map_option (gameplaySeat ps)) (gs_players s))))"
proof -
  have "validSlotsFrom (gs_startedAtMs s) 0 [] (gs_players s)"
    using assms by (simp add: validStateFrame_def validGameplayPlayerSlots_def)
  from validSlotsFrom_distinct [OF this] show ?thesis
    by (simp add: occupied_map comp_def gameplaySeat_def) (simp add: occupied_def)
qed

lemma view_ids_member:
  "seat_at players i = Some p \<Longrightarrow> playerId p \<in> set (map pu_playerId (occupied (map (map_option (gameplaySeat ps)) players)))"
  by (force simp: occupied_map comp_def gameplaySeat_def occupied_member dest: seat_at_in_set)

section \<open>The board\<close>

text \<open>What a space shows, without the error.\<close>

definition shown_space :: "gameplay_player option list \<Rightarrow> property_state \<Rightarrow> int \<Rightarrow> board_space_definition \<Rightarrow> space_view" where
  "shown_space players property pos definition' =
     (if isOwnableSpace definition' then
        OwnableView \<lparr>ow_position = pos, ow_kind = propertyType definition',
          ow_ownerId = Option.bind (ownerSeatIndex property) (\<lambda>seat. map_option playerId (seat_at players seat)),
          ow_mortgaged = mortgaged property, ow_houses = houses property, ow_hasHotel = hasHotel property\<rparr>
      else PlainView pos (propertyType definition'))"

lemma those_Some: "(\<And>x. x \<in> set xs \<Longrightarrow> f x = Some (g x)) \<Longrightarrow> those (map f xs) = Some (map g xs)"
  by (induction xs) simp_all

lemma those_exactly: "those xs = Some ys \<longleftrightarrow> xs = map Some ys"
  by (induction xs arbitrary: ys) (auto split: option.splits)

lemma owner_seated:
  assumes "validStateFrame s" "property \<in> set (gs_properties s)" "ownerSeatIndex property = Some seat"
  shows "\<exists>p. seat_at (gs_players s) seat = Some p"
proof -
  have "is_active (seat_at (gs_players s) seat)" using valid_frame_parts(8) [OF assms(1)] assms(2,3) by (auto simp: owners_active_def)
  then show ?thesis by (cases "seat_at (gs_players s) seat") auto
qed

lemma frame_board:
  assumes "validStateFrame s"
  shows "those (map_index (spaceView (gs_players s) (gs_properties s)) BOARD_SPACES) =
    Some (map_index (\<lambda>pos. shown_space (gs_players s) (gs_properties s ! nat pos) pos) BOARD_SPACES)"
  unfolding those_exactly
proof (rule nth_equalityI)
  note parts = valid_frame_parts [OF assms]
  fix k assume "k < length (map_index (spaceView (gs_players s) (gs_properties s)) BOARD_SPACES)"
  then have k: "k < 40" by (simp add: length_BOARD_SPACES)
  then have at: "js_index (gs_properties s) (int k) = Some (gs_properties s ! k)" and "gs_properties s ! k \<in> set (gs_properties s)"
    using valid_properties_length [OF parts(2)] by simp_all
  with owner_seated [OF assms]
  have "\<And>seat. ownerSeatIndex (gs_properties s ! k) = Some seat \<Longrightarrow> \<exists>p. seat_at (gs_players s) seat = Some p" by blast
  with k at show "map_index (spaceView (gs_players s) (gs_properties s)) BOARD_SPACES ! k =
      map Some (map_index (\<lambda>pos. shown_space (gs_players s) (gs_properties s ! nat pos) pos) BOARD_SPACES) ! k"
    by (auto simp: length_BOARD_SPACES spaceView_def shown_space_def Let_def split: option.splits)
qed simp

lemma board_kinds: "every_index (\<lambda>index space. propertyType space = expectedKind index) BOARD_SPACES"
  by code_simp

lemma valid_property_facts:
  assumes "validPropertyAt i q" "js_index BOARD_SPACES i = Some d"
  shows "0 \<le> houses q" "houses q \<le> 4" "\<not> (hasHotel q \<and> houses q \<noteq> 0)"
    "propertyType d \<noteq> Street \<Longrightarrow> houses q = 0 \<and> \<not> hasHotel q"
    "ownerSeatIndex q = None \<Longrightarrow> \<not> mortgaged q \<and> houses q = 0 \<and> \<not> hasHotel q"
    "\<not> isOwnableSpace d \<Longrightarrow> ownerSeatIndex q = None"
  using assms by (auto simp: validPropertyAt_iff)

lemma shown_space_ok:
  assumes "validStateFrame s" "k < 40"
  defines "v \<equiv> shown_space (gs_players s) (gs_properties s ! k) (int k) (BOARD_SPACES ! k)"
  shows "BoardSpacePublicStateSchema v" "space_position v = int k" "space_kind v = expectedKind (int k)"
    "\<And>i p. seat_at (gs_players s) i = Some p \<Longrightarrow>
       space_owner v = Some (playerId p) \<longleftrightarrow> ownerSeatIndex (gs_properties s ! k) = Some i"
    "\<And>owner. space_owner v = Some owner \<Longrightarrow> \<exists>i p. seat_at (gs_players s) i = Some p \<and> owner = playerId p"
proof -
  let ?q = "gs_properties s ! k" and ?d = "BOARD_SPACES ! k"
  note parts = valid_frame_parts [OF assms(1)]
  have len: "k < length (gs_properties s)" using assms(2) valid_properties_length [OF parts(2)] by simp
  then have q: "validPropertyAt (int k) ?q" using parts(2) by (simp add: isValidPropertyStates_def every_index_iff)
  have d: "js_index BOARD_SPACES (int k) = Some ?d" using assms(2) by (simp add: length_BOARD_SPACES)
  have seated: "\<exists>p. seat_at (gs_players s) seat = Some p" if "ownerSeatIndex ?q = Some seat" for seat
    using owner_seated [OF assms(1) nth_mem [OF len] that] .
  show "space_position v = int k" by (simp add: v_def shown_space_def)
  show "space_kind v = expectedKind (int k)"
    using board_kinds assms(2) by (simp add: v_def shown_space_def every_index_iff length_BOARD_SPACES)
  have owner: "nullable_ok OpaqueIdSchema (Option.bind (ownerSeatIndex ?q) (\<lambda>seat. map_option playerId (seat_at (gs_players s) seat)))"
  proof (cases "ownerSeatIndex ?q")
    case (Some seat)
    from seated [OF this] obtain p where p: "seat_at (gs_players s) seat = Some p" ..
    from valid_seat(4) [OF assms(1) p] Some p show ?thesis by (simp add: saved_player_def)
  qed simp
  note facts = valid_property_facts [OF q d]
  show "BoardSpacePublicStateSchema v"
  proof (cases "isOwnableSpace ?d")
    case True
    then have "ownable_kind (propertyType ?d)" by (simp add: isOwnableSpace_def ownable_kind_def)
    moreover have "ownerSeatIndex ?q = None" if "Option.bind (ownerSeatIndex ?q) (\<lambda>seat. map_option playerId (seat_at (gs_players s) seat)) = None"
      using that seated by (cases "ownerSeatIndex ?q") auto
    ultimately show ?thesis
      using True facts(1-5) owner assms(2) by (auto simp: v_def shown_space_def BoardSpacePublicStateSchema_def between_def)
  next
    case False
    then have "\<not> ownable_kind (propertyType ?d)" by (simp add: isOwnableSpace_def ownable_kind_def)
    with False assms(2) show ?thesis by (simp add: v_def shown_space_def BoardSpacePublicStateSchema_def between_def)
  qed
  show "space_owner v = Some (playerId p) \<longleftrightarrow> ownerSeatIndex ?q = Some i" if p: "seat_at (gs_players s) i = Some p" for i p
  proof (cases "isOwnableSpace ?d")
    case True
    then have v: "space_owner v = Some (playerId p) \<longleftrightarrow>
        (\<exists>j q. ownerSeatIndex ?q = Some j \<and> seat_at (gs_players s) j = Some q \<and> playerId q = playerId p)"
      by (auto simp: v_def shown_space_def bind_eq_Some_conv)
    show ?thesis unfolding v using p valid_seat_unique [OF assms(1) p] by metis
  next
    case False
    with facts(6) show ?thesis by (simp add: v_def shown_space_def)
  qed
  show "\<exists>i p. seat_at (gs_players s) i = Some p \<and> owner = playerId p" if "space_owner v = Some owner" for owner
    using that by (auto simp: v_def shown_space_def bind_eq_Some_conv split: if_splits)
qed

text \<open>The board the view shows, the owners on it, and the positions the contract derives from it.\<close>

definition shown_board :: "'a gameplay_state_scheme \<Rightarrow> space_view list" where
  "shown_board s = map_index (\<lambda>pos. shown_space (gs_players s) (gs_properties s ! nat pos) pos) BOARD_SPACES"

lemma shown_board_nth:
  "length (shown_board s) = 40"
  "k < 40 \<Longrightarrow> shown_board s ! k = shown_space (gs_players s) (gs_properties s ! k) (int k) (BOARD_SPACES ! k)"
  by (simp_all add: shown_board_def length_BOARD_SPACES)

lemma map_filter_pairs:
  "list_all2 (\<lambda>x y. P x = Q y \<and> f x = g y) xs ys \<Longrightarrow> map f (filter P xs) = map g (filter Q ys)"
  by (induction xs ys rule: list_all2_induct) auto

lemma derived_positions:
  assumes "validStateFrame s" "seat_at (gs_players s) i = Some p"
  shows "map space_position (filter (\<lambda>space. space_owner space = Some (playerId p)) (shown_board s)) =
    map propPosition (filter (\<lambda>property. ownerSeatIndex property = Some i) (gs_properties s))"
proof (rule map_filter_pairs, unfold list_all2_conv_all_nth, intro conjI allI impI)
  note props = valid_frame_parts(2) [OF assms(1)]
  show "length (shown_board s) = length (gs_properties s)"
    using valid_properties_length [OF props] by (simp add: shown_board_nth)
  fix k assume "k < length (shown_board s)"
  then have k: "k < 40" by (simp add: shown_board_nth)
  show "(space_owner (shown_board s ! k) = Some (playerId p)) = (ownerSeatIndex (gs_properties s ! k) = Some i)"
    using shown_space_ok(4) [OF assms(1) k assms(2)] by (simp add: shown_board_nth(2) [OF k])
  have "map propPosition (gs_properties s) ! k = int k" using k by (simp add: property_positions [OF props])
  with k show "space_position (shown_board s ! k) = propPosition (gs_properties s ! k)"
    using shown_space_ok(2) [OF assms(1) k] valid_properties_length [OF props] by (simp add: shown_board_nth(2) [OF k])
qed

lemma board_shape: "validStateFrame s \<Longrightarrow> list_all BoardSpacePublicStateSchema (shown_board s)"
  using shown_space_ok(1) by (auto simp: list_all_length shown_board_nth)

lemma board_indexes:
  assumes "validStateFrame s"
  shows "every_index (\<lambda>index space. space_position space = index \<and>
    nullable_ok (\<lambda>owner. owner \<in> set (map pu_playerId (occupied (map (map_option (gameplaySeat ps)) (gs_players s))))) (space_owner space) \<and>
    space_kind space = expectedKind index) (shown_board s)"
  unfolding every_index_iff
proof (intro allI impI conjI)
  fix k assume "k < length (shown_board s)"
  then have k: "k < 40" by (simp add: shown_board_nth)
  note ok = shown_space_ok [OF assms k, folded shown_board_nth(2) [OF k]]
  show "space_position (shown_board s ! k) = int k" "space_kind (shown_board s ! k) = expectedKind (int k)" by (rule ok)+
  show "nullable_ok (\<lambda>owner. owner \<in> set (map pu_playerId (occupied (map (map_option (gameplaySeat ps)) (gs_players s)))))
      (space_owner (shown_board s ! k))"
    using ok(5) view_ids_member by (fastforce simp: nullable_ok_def split: option.split)
qed

lemma seats_derived:
  assumes "validStateFrame s"
  shows "list_all (nullable_ok (\<lambda>seat.
      let derived = map space_position (filter (\<lambda>space. space_owner space = Some (pu_playerId seat)) (shown_board s)) in
      length derived = length (pu_ownedPropertyPositions seat) \<and> set derived \<subseteq> set (pu_ownedPropertyPositions seat)))
    (map (map_option (gameplaySeat (gs_properties s))) (gs_players s))"
  unfolding list_all_length
proof (intro allI impI)
  fix k assume "k < length (map (map_option (gameplaySeat (gs_properties s))) (gs_players s))"
  then have k: "k < length (gs_players s)" by simp
  show "nullable_ok (\<lambda>seat.
      let derived = map space_position (filter (\<lambda>space. space_owner space = Some (pu_playerId seat)) (shown_board s)) in
      length derived = length (pu_ownedPropertyPositions seat) \<and> set derived \<subseteq> set (pu_ownedPropertyPositions seat))
    (map (map_option (gameplaySeat (gs_properties s))) (gs_players s) ! k)"
  proof (cases "gs_players s ! k")
    case (Some p)
    with k have p: "seat_at (gs_players s) (int k) = Some p" by (simp add: seat_at_nat)
    have "pu_ownedPropertyPositions (gameplaySeat (gs_properties s) p) =
        map space_position (filter (\<lambda>space. space_owner space = Some (playerId p)) (shown_board s))"
      using derived_positions [OF assms p] valid_seat(1) [OF assms p] by (simp add: gameplaySeat_def)
    moreover have "pu_playerId (gameplaySeat (gs_properties s) p) = playerId p" by (simp add: gameplaySeat_def)
    ultimately show ?thesis using k Some by (simp add: Let_def)
  qed (use k in simp)
qed

section \<open>Trades\<close>

lemma zero_text: "decimal_int 0 = ''0''" "InMatchCashStringSchema ''0''"
  by code_simp+

lemma printed_zero:
  assumes "isCash n"
  shows "decimal_int n = ''0'' \<longleftrightarrow> n = 0"
proof
  assume "decimal_int n = ''0''"
  with assms decimal_codec.decode_encode [of n] decimal_codec.decode_encode [of 0] show "n = 0" by (simp add: zero_text)
qed (simp add: zero_text)

lemma trade_view_ok:
  assumes "validStateFrame s" "validPendingTrade t"
    and "seat_at (gs_players s) (proposerSeatIndex t) = Some p" "seat_at (gs_players s) (receiverSeatIndex t) = Some r"
    and "tradeView (gs_players s) t = Some v"
  shows "TradePublicStateSchema v" "tv_proposerId v = playerId p" "tv_receiverId v = playerId r"
proof -
  have v: "v = \<lparr>tv_tradeId = tradeId t, tv_tradeType = kind_of_terms (tradeTerms t),
      tv_proposerId = playerId p, tv_receiverId = playerId r,
      tv_offeredCash = decimal_int (fst (cashTerms (tradeTerms t))), tv_requestedCash = decimal_int (snd (cashTerms (tradeTerms t))),
      tv_offeredPropertyPosition = fst (propertyTerms (tradeTerms t)),
      tv_requestedPropertyPosition = snd (propertyTerms (tradeTerms t)),
      tv_createdAtMs = createdAtMs t, tv_expiresAtMs = expiresAtMs t\<rparr>"
    using assms(3-5) by (simp add: tradeView_def)
  then show "tv_proposerId v = playerId p" "tv_receiverId v = playerId r" by simp_all
  have saved: "saved_trade t" using assms(2) by (rule valid_trade_in_range)
  have distinct: "playerId p \<noteq> playerId r"
    using valid_seat_unique [OF assms(1,3,4)] validPendingTrade_seats [OF assms(2)] by blast
  have ids: "validOpaqueId (playerId p)" "validOpaqueId (playerId r)"
    using valid_seat(4) [OF assms(1,3)] valid_seat(4) [OF assms(1,4)] by (simp_all add: saved_player_def)
  have terms: "validTerms (tradeTerms t)" and expiry: "createdAtMs t \<le> expiresAtMs t"
    using assms(2) by (auto simp: validPendingTrade_def Let_def policy_simps split: if_splits)
  have "InMatchCashStringSchema (tv_offeredCash v) \<and> InMatchCashStringSchema (tv_requestedCash v) \<and>
      nullable_ok (between 0 39) (tv_offeredPropertyPosition v) \<and> nullable_ok (between 0 39) (tv_requestedPropertyPosition v) \<and>
      \<not> (tv_offeredPropertyPosition v \<noteq> None \<and> tv_offeredPropertyPosition v = tv_requestedPropertyPosition v) \<and> tradeShape v"
    using terms by (cases "tradeTerms t")
      (auto simp: v tradeShape_def zero_text printed_zero isPosition_def between_def nullable_ok_def split: option.splits)
  with saved distinct ids expiry show "TradePublicStateSchema v"
    by (simp add: TradePublicStateSchema_def v saved_trade_def epoch_iff)
qed

text \<open>The book of trades, each between two seated players.\<close>

lemma trades_view_ok:
  assumes "validStateFrame s" "list_all validPendingTrade (gs_activeTrades s)" "trades_seated (gs_activeTrades s) (gs_players s)"
  obtains views where "those (map (tradeView (gs_players s)) (gs_activeTrades s)) = Some views"
    "length views = length (gs_activeTrades s)" "list_all TradePublicStateSchema views"
    "list_all (\<lambda>v. (\<exists>i p. seat_at (gs_players s) i = Some p \<and> tv_proposerId v = playerId p) \<and>
       (\<exists>i p. seat_at (gs_players s) i = Some p \<and> tv_receiverId v = playerId p)) views"
proof -
  let ?view = "\<lambda>t. the (tradeView (gs_players s) t)"
  have each: "tradeView (gs_players s) t = Some (?view t) \<and> TradePublicStateSchema (?view t) \<and>
      (\<exists>i p. seat_at (gs_players s) i = Some p \<and> tv_proposerId (?view t) = playerId p) \<and>
      (\<exists>i p. seat_at (gs_players s) i = Some p \<and> tv_receiverId (?view t) = playerId p)"
    if t: "t \<in> set (gs_activeTrades s)" for t
  proof -
    from assms(2) t have valid: "validPendingTrade t" by (simp add: list_all_iff)
    from assms(3) t obtain p r where seats: "seat_at (gs_players s) (proposerSeatIndex t) = Some p"
      "seat_at (gs_players s) (receiverSeatIndex t) = Some r" by (auto simp: trades_seated_def)
    then have "tradeView (gs_players s) t = Some (?view t)" by (simp add: tradeView_def)
    with trade_view_ok [OF assms(1) valid seats this] seats show ?thesis by blast
  qed
  show thesis
  proof (rule that)
    show "those (map (tradeView (gs_players s)) (gs_activeTrades s)) = Some (map ?view (gs_activeTrades s))"
      using each by (intro those_Some) blast
  qed (use each in \<open>auto simp: list_all_iff\<close>)
qed

section \<open>The outcome\<close>

lemma active_seats_distinct:
  assumes "validStateFrame s"
  shows "distinct (map seatIndex (activePlayers (gs_players s)))"
proof -
  have "distinct (map seatIndex (occupied ps))" if "every_from i (\<lambda>i slot. case slot of None \<Rightarrow> True | Some p \<Rightarrow> seatIndex p = i) ps"
    for i and ps :: "gameplay_player option list"
  proof -
    have "distinct (map seatIndex (occupied ps)) \<and> (\<forall>p \<in> set (occupied ps). i \<le> seatIndex p)"
      using that by (induction ps arbitrary: i) (fastforce simp: occupied_def map_filter_simps split: option.splits)+
    then show ?thesis ..
  qed
  moreover have "every_index (\<lambda>i slot. case slot of None \<Rightarrow> True | Some p \<Rightarrow> seatIndex p = i) (gs_players s)"
    using valid_seat(1) [OF assms] unfolding every_index_js by (auto simp: seat_at_def split: option.split)
  ultimately have "distinct (map seatIndex (occupied (gs_players s)))" unfolding every_index_def by blast
  moreover have "activePlayers ps = filter (\<lambda>p. status p = Active) (occupied ps)" for ps :: "gameplay_player option list"
    by (induction ps) (auto simp: activePlayers_def occupied_def map_filter_simps split: option.splits)
  ultimately show ?thesis by (simp add: distinct_map_filter)
qed

lemma map_filter_keys:
  "(\<And>p. p \<in> set ps \<Longrightarrow> \<exists>r. e p = Some r \<and> f r = g p) \<Longrightarrow> map f (List.map_filter e ps) = map g ps"
  by (induction ps) (fastforce simp: map_filter_simps)+

lemma distinct_map_sort: "distinct (map f (sort xs)) = distinct (map f xs)"
  by (simp add: distinct_map)

text \<open>The ranked seats of a finished game are its active players', each once.\<close>

lemma finished_ranking:
  assumes "isValidFinishedGameplayAggregateState f"
  obtains expected where "to_ranking (fs_terminal f) = rankingEntries expected" "expected \<noteq> []" "length expected \<le> 4"
    "distinct (map rankedSeat expected)" "rankedSeat (hd expected) = to_winnerSeatIndex (fs_terminal f)"
    "\<And>r. r \<in> set expected \<Longrightarrow> isCash (rankedNetWorth r) \<and> (\<exists>p. seat_at (gs_players f) (rankedSeat r) = Some p)"
proof -
  let ?active = "activePlayers (gs_players f)" and ?entry = "expectedEntry (gs_properties f)"
  define expected where "expected = sort (List.map_filter ?entry ?active)"
  have frame: "validStateFrame f" and some: "?active \<noteq> []" and all: "\<not> list_ex (\<lambda>p. ?entry p = None) ?active"
    and len: "length (to_ranking (fs_terminal f)) = length ?active"
    and ranking: "to_ranking (fs_terminal f) = rankingEntries expected"
    and winner: "js_index (map rankedSeat expected) 0 = Some (to_winnerSeatIndex (fs_terminal f))"
    using assms by (auto simp: isValidFinishedGameplayAggregateState_def Let_def expected_def split: if_splits)
  have entry: "\<exists>r. ?entry p = Some r \<and> rankedSeat r = seatIndex p" if "p \<in> set ?active" for p
    using all that by (fastforce simp: list_ex_iff expectedEntry_def split: sum.splits option.splits)
  have "map rankedSeat (List.map_filter ?entry ?active) = map seatIndex ?active"
    using entry by (rule map_filter_keys)
  then have seats: "distinct (map rankedSeat expected)"
    using active_seats_distinct [OF frame] by (simp add: expected_def distinct_map_sort)
  have len': "length expected = length ?active" using len ranking by simp
  have four: "length expected \<le> 4"
    using length_filter_le [of "\<lambda>x. is_active x \<and> (\<exists>y. x = Some y)" "gs_players f"] valid_frame_parts(1) [OF frame]
    by (simp add: len' activePlayers_def map_filter_def filter_map comp_def)
  have each: "isCash (rankedNetWorth r) \<and> (\<exists>p. seat_at (gs_players f) (rankedSeat r) = Some p)" if "r \<in> set expected" for r
  proof -
    from that obtain p where p: "p \<in> set ?active" "?entry p = Some r"
      by (auto simp: expected_def map_filter_def split: option.splits)
    then obtain i where i: "seat_at (gs_players f) i = Some p" by (auto simp: activePlayers_seats)
    from p(2) i valid_seat(1) [OF frame i] show ?thesis
      by (auto simp: expectedEntry_def dest: calculatePlayerNetWorth_Some split: sum.splits option.splits)
  qed
  have "expected \<noteq> []" using some len' by auto
  moreover from this have "rankedSeat (hd expected) = to_winnerSeatIndex (fs_terminal f)"
    using winner by (simp add: js_index_hd hd_map)
  ultimately show thesis using that ranking four seats each by blast
qed

lemma terminal_view_ok:
  assumes "isValidFinishedGameplayAggregateState f"
  obtains t where "terminalView (gs_players f) (fs_terminal f) = Some t" "GameplayTerminalStateSchema t"
    "list_all (\<lambda>e. \<exists>i p. seat_at (gs_players f) i = Some p \<and> rv_playerId e = playerId p) (ev_ranking t)"
proof -
  have frame: "validStateFrame f" and shape: "validTerminalShape f (fs_terminal f)"
    using assms by (auto simp: isValidFinishedGameplayAggregateState_def Let_def split: if_splits)
  from assms obtain expected where expected: "to_ranking (fs_terminal f) = rankingEntries expected" "expected \<noteq> []"
    "length expected \<le> 4" "distinct (map rankedSeat expected)" "rankedSeat (hd expected) = to_winnerSeatIndex (fs_terminal f)"
    and each: "\<And>r. r \<in> set expected \<Longrightarrow> isCash (rankedNetWorth r) \<and> (\<exists>p. seat_at (gs_players f) (rankedSeat r) = Some p)"
    using finished_ranking by blast
  define owner where "owner r = the (seat_at (gs_players f) (rankedSeat r))" for r
  have owner: "seat_at (gs_players f) (rankedSeat r) = Some (owner r)" "isCash (rankedNetWorth r)" "saved_player (owner r)"
    "rankedSeat r = seatIndex (owner r)" if "r \<in> set expected" for r
    using each [OF that] valid_seat(1,4) [OF frame] by (auto simp: owner_def)
  let ?view = "\<lambda>i r. \<lparr>rv_rank = i + 1, rv_seatIndex = rankedSeat r, rv_playerId = playerId (owner r),
    rv_netWorth = decimal_int (rankedNetWorth r)\<rparr>"
  have "those (map (rankingView (gs_players f)) (to_ranking (fs_terminal f))) = Some (map_index ?view expected)"
    unfolding those_exactly by (rule nth_equalityI) (simp_all add: expected(1) rankingEntries_def rankingView_def owner(1))
  moreover have hd: "hd expected \<in> set expected" using expected(2) by simp
  note winner = owner(1,3) [OF hd, unfolded expected(5)]
  ultimately have view: "terminalView (gs_players f) (fs_terminal f) = Some \<lparr>ev_reason = to_reason (fs_terminal f),
      ev_winnerId = playerId (owner (hd expected)), ev_endedAtMs = to_endedAtMs (fs_terminal f),
      ev_ranking = map_index ?view expected, ev_settlementWinnerId = playerId (owner (hd expected))\<rparr>"
    by (simp add: terminalView_def)
  have entries: "TerminalRankingEntrySchema (?view (int k) (expected ! k))" if "k < length expected" for k
    using that expected(3) owner(2,3,4) [OF nth_mem [OF that]]
    by (simp add: TerminalRankingEntrySchema_def between_def saved_player_def in_range_def)
  have players: "map rv_playerId (map_index ?view expected) = map (\<lambda>r. playerId (owner r)) expected"
    by (rule nth_equalityI) simp_all
  have "inj_on (\<lambda>r. playerId (owner r)) (set expected)"
  proof (rule inj_onI)
    fix r q assume rq: "r \<in> set expected" "q \<in> set expected" "playerId (owner r) = playerId (owner q)"
    then have "rankedSeat r = rankedSeat q" using valid_seat_unique [OF frame owner(1) owner(1)] by blast
    with expected(4) rq(1,2) show "r = q" by (auto simp: distinct_map dest: inj_onD)
  qed
  then have ids: "distinct (map (\<lambda>r. playerId (owner r)) expected)" using expected(4) by (simp add: distinct_map)
  have ranks: "map rv_rank (map_index ?view expected) = map (\<lambda>k. int k + 1) [0..<length expected]"
    by (rule nth_equalityI) simp_all
  have first: "js_index expected 0 = Some (hd expected)" using expected(2) by (rule js_index_hd)
  have ended: "EpochMillisecondsSchema (to_endedAtMs (fs_terminal f))"
    using valid_outcome_in_range [OF assms] by (simp add: saved_outcome_def epoch_iff)
  show thesis
  proof (rule that [OF view])
    show "GameplayTerminalStateSchema \<lparr>ev_reason = to_reason (fs_terminal f),
      ev_winnerId = playerId (owner (hd expected)), ev_endedAtMs = to_endedAtMs (fs_terminal f),
      ev_ranking = map_index ?view expected, ev_settlementWinnerId = playerId (owner (hd expected))\<rparr>"
      unfolding GameplayTerminalStateSchema_def terminal_view.simps players ranks
    proof (intro conjI)
      show "list_all TerminalRankingEntrySchema (map_index ?view expected)" using entries by (simp add: list_all_length)
      show "OpaqueIdSchema (playerId (owner (hd expected)))" using owner(3) [OF hd] by (simp add: saved_player_def)
      then show "OpaqueIdSchema (playerId (owner (hd expected)))" .
    qed (use expected(2,3) first ended ids in \<open>simp_all add: distinct_map inj_on_def every_index_iff Suc_le_eq\<close>)
    show "list_all (\<lambda>e. \<exists>i p. seat_at (gs_players f) i = Some p \<and> rv_playerId e = playerId p) (ev_ranking \<lparr>ev_reason = to_reason (fs_terminal f),
      ev_winnerId = playerId (owner (hd expected)), ev_endedAtMs = to_endedAtMs (fs_terminal f),
      ev_ranking = map_index ?view expected, ev_settlementWinnerId = playerId (owner (hd expected))\<rparr>)"
      using owner(1) [OF nth_mem] by (auto simp: list_all_length)
  qed
qed

section \<open>The view of a game\<close>

lemma gameplayView_ok:
  assumes frame: "validStateFrame s" and dice: "dice_ok (gs_lastDice s)"
    and trades: "list_all validPendingTrade (gs_activeTrades s)" "trades_seated (gs_activeTrades s) (gs_players s)"
      "length (gs_activeTrades s) \<le> 20"
    and turn: "GameplayTurnStateSchema turn" "case turn of ActiveView seat started deadline _ \<Rightarrow>
       (\<exists>p. seat_at (gs_players s) seat = Some p \<and> status p = Active) \<and> started \<le> deadline | _ \<Rightarrow> True"
    and terminal: "(turn = FinishedView) = (terminal \<noteq> None)" "nullable_ok GameplayTerminalStateSchema terminal"
      "nullable_ok (\<lambda>t. list_all (\<lambda>e. \<exists>i p. seat_at (gs_players s) i = Some p \<and> rv_playerId e = playerId p) (ev_ranking t)) terminal"
  shows "\<exists>v. gameplayView s turn terminal = Some v \<and> gv_stateVersion v = gs_stateVersion s"
proof -
  from trades_view_ok [OF frame trades(1,2)] obtain views where
    views: "those (map (tradeView (gs_players s)) (gs_activeTrades s)) = Some views" "length views = length (gs_activeTrades s)"
      "list_all TradePublicStateSchema views"
    and parties: "list_all (\<lambda>v. (\<exists>i p. seat_at (gs_players s) i = Some p \<and> tv_proposerId v = playerId p) \<and>
       (\<exists>i p. seat_at (gs_players s) i = Some p \<and> tv_receiverId v = playerId p)) views" .
  let ?seats = "map (map_option (gameplaySeat (gs_properties s))) (gs_players s)"
  let ?ids = "map pu_playerId (occupied ?seats)"
  define v where "v = \<lparr>gv_schemaVersion = 1, gv_stateVersion = gs_stateVersion s, gv_gameId = gs_gameId s,
    gv_rulesetId = gs_rulesetId s, gv_seats = ?seats, gv_board = shown_board s, gv_turn = turn, gv_activeTrades = views,
    gv_lastDice = map_option diceView (gs_lastDice s), gv_terminal = terminal\<rparr>"
  have fields: "gv_seats v = ?seats" "gv_board v = shown_board s" "gv_turn v = turn" "gv_activeTrades v = views"
    "gv_terminal v = terminal" "view_ids v = ?ids" "gv_stateVersion v = gs_stateVersion s"
    by (simp_all add: v_def view_ids_def)
  note member = view_ids_member [of "gs_players s" _ _ "gs_properties s"]
  have "nullable_ok DiceResultSchema (map_option diceView (gs_lastDice s))"
    using dice by (cases "gs_lastDice s") (auto simp: dice_ok_def validDice_def DiceResultSchema_def diceView_def between_def)
  then have "gameplayShape v"
    using frame views(2,3) trades(3) turn(1) terminal(2) seats_view_ok(1) [OF frame] board_shape [OF frame]
    by (simp add: gameplayShape_def v_def validStateFrame_def StateVersionSchema_def between_def shown_board_nth policy_simps
        GAMEPLAY_RULESET_ID_def)
  moreover have "boardConsistent v"
    unfolding boardConsistent_def fields
    using view_ids_distinct [OF frame] seats_view_ok(2) [OF frame] board_indexes [OF frame] seats_derived [OF frame] by blast
  moreover have "list_all (\<lambda>t. tv_proposerId t \<in> set ?ids \<and> tv_receiverId t \<in> set ?ids) views"
    using parties member unfolding list_all_iff by metis
  moreover have "nullable_ok (\<lambda>t. list_all (\<lambda>e. rv_playerId e \<in> set ?ids) (ev_ranking t)) terminal"
    using terminal(3) member unfolding list_all_iff nullable_ok_def by (fastforce split: option.split)
  moreover have "case turn of ActiveView seat started deadline _ \<Rightarrow>
      (case seat_at ?seats seat of None \<Rightarrow> False | Some current \<Rightarrow> pu_status current = Active) \<and> started \<le> deadline | _ \<Rightarrow> True"
    using turn(2) by (auto simp: seat_at_map gameplaySeat_def split: turn_view.splits)
  ultimately have "GameplayPublicStateSchema v"
    unfolding GameplayPublicStateSchema_def turnConsistent_def fields using terminal(1) by blast
  then have "gameplayView s turn terminal = Some v"
    using views(1) by (simp add: gameplayView_def frame_board [OF frame] shown_board_def [symmetric] v_def Let_def)
  then show ?thesis using fields(7) by blast
qed

lemma active_view:
  assumes "game_inv s"
  shows "\<exists>v. publicGameplayState (InProgress s) = Some v \<and> gv_stateVersion v = gs_stateVersion s"
proof -
  have valid: "isValidActiveGameplayAggregateState s" and book: "book_ok s" using assms by (simp_all add: game_inv_def)
  then obtain p where parts: "validStateFrame s" "clock_ok (as_turn s)" "dice_ok (gs_lastDice s)"
    "list_all validPendingTrade (gs_activeTrades s)"
    "seat_at (gs_players s) (currentSeatIndex (as_turn s)) = Some p" "status p = Active"
    by (auto simp: isValidActive_iff)
  from valid_turn_in_range(1) [OF valid] have "GameplayTurnStateSchema (activeTurnView (as_turn s))"
    by (auto simp: GameplayTurnStateSchema_def activeTurnView_def saved_turn_def epoch_iff in_range_between split: turn_phase.split)
  moreover have "turnStartedAtMs (as_turn s) \<le> deadlineAtMs (as_turn s)"
    using parts(2) by (simp add: clock_ok_def policy_simps)
  moreover have "trades_seated (gs_activeTrades s) (gs_players s)" "length (gs_activeTrades s) \<le> 20"
    using book by (simp_all add: book_ok_def validTradeState_iff)
  ultimately show ?thesis
    using gameplayView_ok [OF parts(1,3,4), of "activeTurnView (as_turn s)" None] parts(5,6) valid
    by (simp add: publicGameplayState_def activeTurnView_def)
qed

lemma finished_view:
  assumes "isValidFinishedGameplayAggregateState f"
  shows "\<exists>v. publicGameplayState (Finished f) = Some v \<and> gv_stateVersion v = gs_stateVersion f"
proof -
  have frame: "validStateFrame f" and none: "gs_activeTrades f = []" "gs_lastDice f = None"
    using assms by (auto simp: isValidFinishedGameplayAggregateState_def split: if_splits)
  from terminal_view_ok [OF assms] obtain t where t: "terminalView (gs_players f) (fs_terminal f) = Some t"
    "GameplayTerminalStateSchema t"
    "list_all (\<lambda>e. \<exists>i p. seat_at (gs_players f) i = Some p \<and> rv_playerId e = playerId p) (ev_ranking t)" .
  have "\<exists>v. gameplayView f FinishedView (Some t) = Some v \<and> gv_stateVersion v = gs_stateVersion f"
    by (rule gameplayView_ok) (use frame none t in \<open>simp_all add: dice_ok_def trades_seated_def GameplayTurnStateSchema_def\<close>)
  with t(1) assms show ?thesis by (simp add: publicGameplayState_def)
qed

text \<open>Whatever a sound room holds and could store has a public view, with the version of the state.\<close>

lemma room_view_exists:
  assumes "lobby_or_game state" "serializeRoom state \<noteq> None"
  shows "\<exists>v. toRoomPublicState state = Some v \<and> view_version v = room_version state"
proof (cases state)
  case (Lobby g)
  have "gm_stateVersion (game_base_of g) = state_version g" by (cases g) (simp_all add: game_base.defs)
  with Lobby assms(2) show ?thesis
    by (auto simp: toRoomPublicState_def lobby_view_iff serializeRoom_def lobbyView_def Let_def)
next
  case (Playing a)
  with assms(1) active_view finished_view show ?thesis
    by (cases a) (fastforce simp: toRoomPublicState_def)+
qed

end
