(* ===== verification/Room_Opening.thy ===== *)
theory Room_Opening
  imports Room_Run Store_Run Public_Game_Laws Snapshot_Properties
begin

text \<open>
  How a room comes up: the answer of the API to a bootstrap request (\<open>SessionBootstrapResponseSchema\<close> of
  \<open>packages/game-contracts/src/http/internal-api-dtos.ts\<close>), the lobby made from it (\<open>rooms/bootstrap-state.ts\<close>) and
  \<open>onCreate\<close> of \<open>rooms/game-room.ts\<close>, which takes the lease, restores or initialises the checkpoint and publishes the
  view. The replies of the API, the seed of a fresh random source and the times of the database are parameters.
\<close>

section \<open>The bootstrap answer (internal-api-dtos.ts)\<close>

datatype session_lifecycle = SessionOpen | SessionActive | SessionSettling | SessionSettled | SessionRecovery

record bootstrap_player =
  bp_playerId :: string
  bp_seatIndex :: int
  bp_joinedAtMs :: int

record session_bootstrap =
  sb_gameId :: string
  sb_gameDefinitionId :: string
  sb_gameDefinitionVersion :: int
  sb_rulesetId :: string
  sb_roomId :: string
  sb_lifecycle :: session_lifecycle
  sb_stateVersion :: int
  sb_creatorPlayerId :: string
  sb_maximumPlayers :: int
  sb_timeLimitMs :: "int option"
  sb_createdAtMs :: int
  sb_startedAtMs :: "int option"
  sb_players :: "bootstrap_player list"

definition BootstrapPlayerSchema :: "bootstrap_player \<Rightarrow> bool" where
  "BootstrapPlayerSchema p \<longleftrightarrow>
     OpaqueIdSchema (bp_playerId p) \<and> between 0 3 (bp_seatIndex p) \<and> EpochMillisecondsSchema (bp_joinedAtMs p)"

definition bootstrapShape :: "session_bootstrap \<Rightarrow> bool" where
  "bootstrapShape b \<longleftrightarrow>
     OpaqueIdSchema (sb_gameId b) \<and> OpaqueIdSchema (sb_gameDefinitionId b) \<and> between 1 2147483647 (sb_gameDefinitionVersion b) \<and>
     sb_rulesetId b = ''pootown-rust-source-v1'' \<and> OpaqueIdSchema (sb_roomId b) \<and> StateVersionSchema (sb_stateVersion b) \<and>
     OpaqueIdSchema (sb_creatorPlayerId b) \<and> between 2 4 (sb_maximumPlayers b) \<and>
     nullable_ok (between 1 86400000) (sb_timeLimitMs b) \<and> EpochMillisecondsSchema (sb_createdAtMs b) \<and>
     nullable_ok EpochMillisecondsSchema (sb_startedAtMs b) \<and>
     list_all BootstrapPlayerSchema (sb_players b) \<and> 1 \<le> length (sb_players b) \<and> length (sb_players b) \<le> 4"

definition SessionBootstrapResponseSchema :: "session_bootstrap \<Rightarrow> bool" where
  "SessionBootstrapResponseSchema b \<longleftrightarrow>
     bootstrapShape b \<and>
     distinct (map bp_playerId (sb_players b)) \<and> distinct (map bp_seatIndex (sb_players b)) \<and>
     \<not> list_ex (\<lambda>p. bp_seatIndex p \<ge> sb_maximumPlayers b) (sb_players b) \<and>
     \<not> list_ex (\<lambda>p. bp_joinedAtMs p < sb_createdAtMs b) (sb_players b) \<and>
     list_ex (\<lambda>p. bp_seatIndex p = 0 \<and> bp_playerId p = sb_creatorPlayerId b) (sb_players b) \<and>
     (if sb_lifecycle b = SessionOpen then sb_stateVersion b = 0 \<and> sb_startedAtMs b = None
      else sb_stateVersion b \<noteq> 0 \<and> sb_startedAtMs b \<noteq> None \<and> 2 \<le> length (sb_players b)) \<and>
     nullable_ok (\<lambda>started. sb_createdAtMs b \<le> started \<and> \<not> list_ex (\<lambda>p. bp_joinedAtMs p > started) (sb_players b))
       (sb_startedAtMs b)"

section \<open>The first lobby (bootstrap-state.ts)\<close>

text \<open>Assignment to an index: a negative one makes a property that the snapshot drops, one past the end makes holes.\<close>

definition assign_slot :: "int \<Rightarrow> 'a \<Rightarrow> 'a option list \<Rightarrow> 'a option list" where
  "assign_slot index x seats =
     (if index < 0 then seats
      else if index < int (length seats) then seats[nat index := Some x]
      else seats @ replicate (nat index - length seats) None @ [Some x])"

definition bootstrapSeat :: "bootstrap_player \<Rightarrow> exn + player_seat" where
  "bootstrapSeat p =
     (case assertOpaqueId (bp_playerId p) of
        Inl e \<Rightarrow> Inl e
      | Inr name \<Rightarrow> (case matchCash STARTING_MATCH_CASH of
          Inl e \<Rightarrow> Inl e
        | Inr money \<Rightarrow> Inr \<lparr>ps_seatIndex = bp_seatIndex p, ps_playerId = name, ps_status = Active, ps_cash = money,
            ps_position = 0, ps_inJail = False, ps_joinedAtMs = bp_joinedAtMs p\<rparr>))"

fun fillSeats :: "bootstrap_player list \<Rightarrow> player_seat option list \<Rightarrow> exn + player_seat option list" where
  "fillSeats [] seats = Inr seats"
| "fillSeats (p # rest) seats =
     (case bootstrapSeat p of Inl e \<Rightarrow> Inl e | Inr seat \<Rightarrow> fillSeats rest (assign_slot (bp_seatIndex p) seat seats))"

definition createWaitingState :: "session_bootstrap \<Rightarrow> random_checkpoint \<Rightarrow> exn + game_state" where
  "createWaitingState b rng =
     (if sb_lifecycle b \<noteq> SessionOpen \<or> sb_stateVersion b \<noteq> 0 \<or> sb_startedAtMs b \<noteq> None then Inl PlainError
      else case fillSeats (sb_players b) (replicate (nat maximumPlayers) None) of
        Inl e \<Rightarrow> Inl e
      | Inr seats \<Rightarrow>
      (case assertOpaqueId (sb_gameId b) of
        Inl e \<Rightarrow> Inl e
      | Inr game \<Rightarrow>
      (case assertOpaqueId (sb_creatorPlayerId b) of
        Inl e \<Rightarrow> Inl e
      | Inr creator \<Rightarrow>
      (case matchCash STARTING_BANK_CASH of
        Inl e \<Rightarrow> Inl e
      | Inr bank \<Rightarrow>
          (let state = WaitingGame
             \<lparr>gm_schemaVersion = GAME_SCHEMA_VERSION, gm_rulesetId = GAMEPLAY_RULESET_ID, gm_stateVersion = 1,
              gm_gameId = game, gm_creatorId = creator, gm_minimumPlayers = minimumPlayers,
              gm_maximumPlayers = sb_maximumPlayers b, gm_seats = seats, gm_bankCash = bank, gm_freeParkingPool = 0,
              gm_housesRemaining = 32, gm_hotelsRemaining = 12, gm_createdAtMs = sb_createdAtMs b,
              gm_timeLimitMs = sb_timeLimitMs b, gm_turnTimeoutMs = DEFAULT_TURN_TIMEOUT_MS, gm_rng = rng\<rparr> in
           case serializeSnapshot state of
             None \<Rightarrow> Inl PlainError
           | Some serialized \<Rightarrow> (case parseSnapshot serialized of None \<Rightarrow> Inl PlainError | Some g \<Rightarrow> Inr g))))))"

section \<open>Opening a room (game-room.ts, onCreate)\<close>

datatype open_error =
    ApiUnavailable | BindingMismatch | StoreRefused store_error | BootstrapFailed exn | SnapshotFailed | CorruptRoomCheckpoint
  | ViewFailed | HandlerFailed handler_error

text \<open>What the environment answers while a room opens: the two bootstrap requests, the acknowledgement that the game was
  started, and the times of the four transactions.\<close>

record opening_replies =
  or_first :: "session_bootstrap option"
  or_second :: "session_bootstrap option"
  or_markStarted :: bool
  or_acquireAt :: int
  or_loadAt :: int
  or_initializeAt :: int
  or_releaseAt :: int

record opened_room =
  od_gameId :: string
  od_roomId :: string
  od_lease :: room_lease
  od_handler :: room_handler
  od_view :: room_view
  od_maxClients :: int
  od_markedStarted :: bool

text \<open>The checkpoint of the room, or a new one for the lobby the API describes; with the time it was stored.\<close>

definition restoreRoom ::
  "digest \<Rightarrow> buffer_codec \<Rightarrow> secure_source \<Rightarrow> room_lease \<Rightarrow> session_bootstrap \<Rightarrow> opening_replies \<Rightarrow> 'e database \<Rightarrow>
   (open_error + room_state \<times> int) \<times> 'e database" where
  "restoreRoom sha256 buffer fresh lease b replies db =
     (case withTransaction db (load sha256 lease (or_loadAt replies)) of
        (Inl e, db1) \<Rightarrow> (Inl (StoreRefused e), db1)
      | (Inr None, db1) \<Rightarrow>
          (case createWaitingState b (sourceCheckpoint buffer fresh) of
             Inl e \<Rightarrow> (Inl (BootstrapFailed e), db1)
           | Inr state \<Rightarrow> (case serializeSnapshot state of
               None \<Rightarrow> (Inl SnapshotFailed, db1)
             | Some serialized \<Rightarrow>
                 (case withTransaction db1 (initialize sha256 lease (state_version state) serialized (or_initializeAt replies)) of
                    (Inl e, db2) \<Rightarrow> (Inl (StoreRefused e), db2)
                  | (Inr checkpoint, db2) \<Rightarrow> (Inr (Lobby state, rc_updatedAt checkpoint), db2))))
      | (Inr (Some checkpoint), db1) \<Rightarrow>
          (case parseCheckpointState (rc_serializedState checkpoint) of
             None \<Rightarrow> (Inl CorruptRoomCheckpoint, db1)
           | Some state \<Rightarrow>
               if room_game_id state \<noteq> sb_gameId b then (Inl CorruptRoomCheckpoint, db1)
               else (Inr (state, rc_updatedAt checkpoint), db1)))"

fun is_playing :: "room_state \<Rightarrow> bool" where
  "is_playing (Playing _) = True"
| "is_playing (Lobby _) = False"

text \<open>The body of the \<open>try\<close> block after the lease: the state, when it was stored, the refreshed bootstrap, and whether the
  API was told that the game has started.\<close>

definition prepareRoom ::
  "digest \<Rightarrow> buffer_codec \<Rightarrow> secure_source \<Rightarrow> room_lease \<Rightarrow> session_bootstrap \<Rightarrow> opening_replies \<Rightarrow> 'e database \<Rightarrow>
   (open_error + room_state \<times> int \<times> session_bootstrap \<times> bool) \<times> 'e database" where
  "prepareRoom sha256 buffer fresh lease first replies db =
     (case or_second replies of
        None \<Rightarrow> (Inl ApiUnavailable, db)
      | Some b \<Rightarrow>
          if sb_gameId b \<noteq> sb_gameId first \<or> sb_roomId b \<noteq> sb_roomId first then (Inl BindingMismatch, db)
          else (case restoreRoom sha256 buffer fresh lease b replies db of
            (Inl e, db1) \<Rightarrow> (Inl e, db1)
          | (Inr (state, at), db1) \<Rightarrow>
              if sb_stateVersion b > room_version state \<or> (\<not> is_playing state \<and> sb_lifecycle b \<noteq> SessionOpen)
              then (Inl CorruptRoomCheckpoint, db1)
              else if is_playing state \<and> sb_lifecycle b = SessionOpen
              then (if or_markStarted replies then (Inr (state, at, b, True), db1) else (Inl ApiUnavailable, db1))
              else (Inr (state, at, b, False), db1)))"

definition openRoom ::
  "digest \<Rightarrow> buffer_codec \<Rightarrow> lease_repository \<Rightarrow> secure_source \<Rightarrow> string \<Rightarrow> opening_replies \<Rightarrow> 'e database \<Rightarrow>
   (open_error + opened_room) \<times> 'e database" where
  "openRoom sha256 buffer repo fresh wanted replies db =
     (case or_first replies of
        None \<Rightarrow> (Inl ApiUnavailable, db)
      | Some first \<Rightarrow>
          if sb_gameId first \<noteq> wanted then (Inl BindingMismatch, db)
          else (case withTransaction db (acquire repo (sb_roomId first) (sb_gameId first) (or_acquireAt replies)) of
            (Inl e, db1) \<Rightarrow> (Inl (StoreRefused e), db1)
          | (Inr lease, db1) \<Rightarrow>
              (case prepareRoom sha256 buffer fresh lease first replies db1 of
                 (Inl e, db2) \<Rightarrow> (Inl e, snd (withTransaction db2 (release lease (or_releaseAt replies))))
               | (Inr (state, at, b, marked), db2) \<Rightarrow>
                   (case toRoomPublicState state of
                      None \<Rightarrow> (Inl ViewFailed, db2)
                    | Some view \<Rightarrow> (case newHandler state (Some at) of
                        Inl e \<Rightarrow> (Inl (HandlerFailed e), db2)
                      | Inr handler \<Rightarrow>
                          (Inr \<lparr>od_gameId = sb_gameId b, od_roomId = sb_roomId b, od_lease = lease, od_handler = handler,
                             od_view = view, od_maxClients = sb_maximumPlayers b, od_markedStarted = marked\<rparr>, db2))))))"

section \<open>The lobby the API describes\<close>

definition seat_of :: "bootstrap_player \<Rightarrow> player_seat" where
  "seat_of p = createSeat (bp_playerId p) (bp_seatIndex p) (bp_joinedAtMs p)"

lemma seat_of_id [simp]: "ps_playerId (seat_of p) = bp_playerId p"
  by (simp add: seat_of_def createSeat_def)

lemma bootstrapSeat_ok: "validOpaqueId (bp_playerId p) \<Longrightarrow> bootstrapSeat p = Inr (seat_of p)"
  by (simp add: bootstrapSeat_def assertOpaqueId_iff [THEN iffD2] matchCash_small seat_of_def createSeat_def policy_simps)

lemma fillSeats_ok:
  assumes "fillSeats players seats = Inr filled" "length seats = 4" "slots_satisfy (seat_ok g) seats" "ids_distinct seats"
    and "\<And>p. p \<in> set players \<Longrightarrow> validOpaqueId (bp_playerId p) \<and> 0 \<le> bp_seatIndex p \<and> bp_seatIndex p < 4 \<and>
      isSafeInteger (bp_joinedAtMs p) \<and> gm_createdAtMs g \<le> bp_joinedAtMs p \<and> bp_seatIndex p < gm_maximumPlayers g"
    and "distinct (map bp_playerId players)" "distinct (map bp_seatIndex players)"
    and "\<And>p i seat. p \<in> set players \<Longrightarrow> seat_at seats i = Some seat \<Longrightarrow>
      i \<noteq> bp_seatIndex p \<and> ps_playerId seat \<noteq> bp_playerId p"
  shows "length filled = 4 \<and> slots_satisfy (seat_ok g) filled \<and> ids_distinct filled \<and>
    (\<forall>p \<in> set players. seat_at filled (bp_seatIndex p) = Some (seat_of p)) \<and>
    (\<forall>i seat. seat_at seats i = Some seat \<longrightarrow> seat_at filled i = Some seat)"
  using assms
proof (induction players arbitrary: seats)
  case (Cons p players)
  let ?i = "bp_seatIndex p"
  have p: "validOpaqueId (bp_playerId p)" "0 \<le> ?i" "?i < int (length seats)" "seat_ok g ?i (seat_of p)"
    using Cons.prems(2) Cons.prems(5) [of p] by (simp_all add: seat_of_def createSeat_ok)
  let ?seats = "seats[nat ?i := Some (seat_of p)]"
  have at: "seat_at ?seats j = (if j = ?i then Some (seat_of p) else seat_at seats j)" for j
    using seat_at_list_update [OF p(2,3)] .
  have new: "ps_playerId q \<noteq> ps_playerId r" if "Some (seat_of p) = Some r" "seat_at seats i = Some q" for r i q
    using that Cons.prems(8) [of p i q] by auto
  note kept = seats_update [OF Cons.prems(3,4) p(2,3), of "Some (seat_of p)", OF _ new]
  have filled: "fillSeats players ?seats = Inr filled"
    using Cons.prems(1) p by (simp add: bootstrapSeat_ok assign_slot_def)
  have apart: "i \<noteq> bp_seatIndex r \<and> ps_playerId seat \<noteq> bp_playerId r"
    if "r \<in> set players" "seat_at ?seats i = Some seat" for r i seat
  proof -
    from that(2) have "i = ?i \<and> seat = seat_of p \<or> seat_at seats i = Some seat" unfolding at by (auto split: if_splits)
    then show ?thesis using that(1) Cons.prems(6,7) Cons.prems(8) [of r i seat] by auto
  qed
  have "length filled = 4 \<and> slots_satisfy (seat_ok g) filled \<and> ids_distinct filled \<and>
      (\<forall>p \<in> set players. seat_at filled (bp_seatIndex p) = Some (seat_of p)) \<and>
      (\<forall>i seat. seat_at ?seats i = Some seat \<longrightarrow> seat_at filled i = Some seat)"
    by (rule Cons.IH [OF filled _ _ _ _ _ _ apart]) (use Cons.prems(2,5,6,7) kept p(4) in auto)
  moreover have "j \<noteq> ?i" if "seat_at seats j = Some seat" for j seat using Cons.prems(8) [of p j seat] that by simp
  ultimately show ?case by (auto simp: at)
qed simp

text \<open>The lobby of a pristine session: the players the API admitted, each in its seat, and nothing else.\<close>

abbreviation described_lobby :: "session_bootstrap \<Rightarrow> random_checkpoint \<Rightarrow> player_seat option list \<Rightarrow> game_base" where
  "described_lobby b rng seats \<equiv>
     \<lparr>gm_schemaVersion = GAME_SCHEMA_VERSION, gm_rulesetId = GAMEPLAY_RULESET_ID, gm_stateVersion = 1,
      gm_gameId = sb_gameId b, gm_creatorId = sb_creatorPlayerId b, gm_minimumPlayers = minimumPlayers,
      gm_maximumPlayers = sb_maximumPlayers b, gm_seats = seats, gm_bankCash = STARTING_BANK_CASH, gm_freeParkingPool = 0,
      gm_housesRemaining = 32, gm_hotelsRemaining = 12, gm_createdAtMs = sb_createdAtMs b, gm_timeLimitMs = sb_timeLimitMs b,
      gm_turnTimeoutMs = DEFAULT_TURN_TIMEOUT_MS, gm_rng = rng\<rparr>"

lemma schema_players:
  assumes "SessionBootstrapResponseSchema b" "p \<in> set (sb_players b)"
  shows "validOpaqueId (bp_playerId p)" "0 \<le> bp_seatIndex p" "bp_seatIndex p < 4" "isSafeInteger (bp_joinedAtMs p)"
    "sb_createdAtMs b \<le> bp_joinedAtMs p" "bp_seatIndex p < sb_maximumPlayers b"
  using assms
  by (auto simp: SessionBootstrapResponseSchema_def bootstrapShape_def list_all_iff list_ex_iff BootstrapPlayerSchema_def
      between_def EpochMillisecondsSchema_def isSafeInteger_def MAX_SAFE_INTEGER_def)

lemma described_ok:
  assumes "SessionBootstrapResponseSchema b" "fillSeats (sb_players b) (replicate 4 None) = Inr seats" "validCheckpoint rng"
  shows "lobby_ok (described_lobby b rng seats)"
    "p \<in> set (sb_players b) \<Longrightarrow> seat_at seats (bp_seatIndex p) = Some (seat_of p)"
proof -
  let ?g = "described_lobby b rng seats"
  have distinct: "distinct (map bp_playerId (sb_players b))" "distinct (map bp_seatIndex (sb_players b))"
    using assms(1) by (simp_all add: SessionBootstrapResponseSchema_def)
  have empty: "seat_at (replicate 4 None) i = None" for i by (auto simp: seat_at_def js_index_def)
  have seats: "length seats = 4 \<and> slots_satisfy (seat_ok ?g) seats \<and> ids_distinct seats \<and>
      (\<forall>p \<in> set (sb_players b). seat_at seats (bp_seatIndex p) = Some (seat_of p)) \<and>
      (\<forall>i seat. seat_at (replicate 4 None) i = Some seat \<longrightarrow> seat_at seats i = Some seat)"
    by (rule fillSeats_ok [OF assms(2) _ _ _ _ distinct])
      (use schema_players [OF assms(1)] empty in \<open>auto simp: slots_satisfy_def ids_distinct_def\<close>)
  from assms(1) obtain q where "q \<in> set (sb_players b)" "bp_seatIndex q = 0" "bp_playerId q = sb_creatorPlayerId b"
    by (auto simp: SessionBootstrapResponseSchema_def list_ex_iff)
  with seats have "map_option ps_playerId (seat_at seats 0) = Some (sb_creatorPlayerId b)" by force
  moreover have "case sb_timeLimitMs b of None \<Rightarrow> True | Some l \<Rightarrow> isSafeInteger l \<and> 1 \<le> l \<and> l \<le> 86400000"
    using assms(1) by (cases "sb_timeLimitMs b")
      (auto simp: SessionBootstrapResponseSchema_def bootstrapShape_def between_def isSafeInteger_def MAX_SAFE_INTEGER_def)
  moreover have "validOpaqueId (sb_gameId b)" "validOpaqueId (sb_creatorPlayerId b)" "between 2 4 (sb_maximumPlayers b)"
    "EpochMillisecondsSchema (sb_createdAtMs b)"
    using assms(1) by (simp_all add: SessionBootstrapResponseSchema_def bootstrapShape_def)
  ultimately show "lobby_ok ?g"
    using seats assms(3)
    by (simp add: lobby_ok_def between_def EpochMillisecondsSchema_def isSafeInteger_def MAX_SAFE_INTEGER_def policy_simps)
  show "p \<in> set (sb_players b) \<Longrightarrow> seat_at seats (bp_seatIndex p) = Some (seat_of p)" using seats by blast
qed

lemma fillSeats_total: "(\<And>p. p \<in> set players \<Longrightarrow> validOpaqueId (bp_playerId p)) \<Longrightarrow> \<exists>filled. fillSeats players seats = Inr filled"
  by (induction players arbitrary: seats) (simp_all add: bootstrapSeat_ok)

lemma createWaitingState_open:
  assumes "SessionBootstrapResponseSchema b" "sb_lifecycle b = SessionOpen" "validCheckpoint rng"
  obtains seats where "createWaitingState b rng = Inr (WaitingGame (described_lobby b rng seats))"
    "fillSeats (sb_players b) (replicate 4 None) = Inr seats"
proof -
  obtain seats where seats: "fillSeats (sb_players b) (replicate 4 None) = Inr seats"
    using fillSeats_total schema_players(1) [OF assms(1)] by blast
  have "validOpaqueId (sb_gameId b)" "validOpaqueId (sb_creatorPlayerId b)" "sb_stateVersion b = 0" "sb_startedAtMs b = None"
    using assms(1,2) by (simp_all add: SessionBootstrapResponseSchema_def bootstrapShape_def)
  moreover have "serializeSnapshot (WaitingGame (described_lobby b rng seats)) \<noteq> None"
    unfolding lobby_snapshot.saves_iff
    using lobby_base_saved [OF described_ok(1) [OF assms(1) seats assms(3)]] by (auto simp: list_ex_iff)
  ultimately have "createWaitingState b rng = Inr (WaitingGame (described_lobby b rng seats))"
    using assms(2) seats lobby_snapshot.roundtrip [of "WaitingGame (described_lobby b rng seats)"]
    by (auto simp: createWaitingState_def assertOpaqueId_iff [THEN iffD2] matchCash_small policy_simps Let_def)
  with seats that show thesis by blast
qed

text \<open>What is created at all comes from a pristine session and is well-formed.\<close>

lemma created_lobby:
  assumes "createWaitingState b rng = Inr state" "SessionBootstrapResponseSchema b"
  obtains seats where "state = WaitingGame (described_lobby b rng seats)" "lobby_ok (described_lobby b rng seats)"
    "sb_lifecycle b = SessionOpen" "\<And>p. p \<in> set (sb_players b) \<Longrightarrow> seat_at seats (bp_seatIndex p) = Some (seat_of p)"
proof -
  from assms(1) obtain seats serialized where filled: "fillSeats (sb_players b) (replicate 4 None) = Inr seats"
    and opened: "sb_lifecycle b = SessionOpen"
    and saved: "serializeSnapshot (WaitingGame (described_lobby b rng seats)) = Some serialized" "parseSnapshot serialized = Some state"
    by (auto simp: createWaitingState_def assertOpaqueId_iff matchCash_small policy_simps Let_def
        split: if_splits sum.splits option.splits)
  have "validCheckpoint rng"
    using saved(1) lobby_snapshot.saves_iff [of "WaitingGame (described_lobby b rng seats)"] by (simp add: saved_base_def)
  from described_ok [OF assms(2) filled this] lobby_snapshot.roundtrip [OF saved(1)] saved(2) opened that show thesis by simp
qed

section \<open>What an opened room has\<close>

text \<open>What a server stores for a room: the text of a sound state.\<close>

definition saved_soundly :: "buffer_codec \<Rightarrow> string \<Rightarrow> int \<Rightarrow> bool" where
  "saved_soundly buffer doc version \<longleftrightarrow>
     (\<exists>state. serializeRoom state = Some doc \<and> room_version state = version \<and> room_sound buffer state)"

lemma acquire_keeps:
  assumes "acquire repo room game now db = Inr (lease, db1)"
  shows "storedAt db1 l = storedAt db l" "ls_roomId lease = room"
    "db_leases db1 room = Some \<lparr>lr_gameId = game, lr_instanceId = rp_ownerId repo, lr_leaseUntil = now + rp_leaseDurationMs repo,
       lr_fencingToken = ls_fencingToken lease\<rparr>"
    "matches_lease lease \<lparr>lr_gameId = game, lr_instanceId = rp_ownerId repo, lr_leaseUntil = now + rp_leaseDurationMs repo,
       lr_fencingToken = ls_fencingToken lease\<rparr>"
  using assms
  by (auto simp: acquire_def fenceRoom_def storedAt_def lease_of_def matches_lease_def Let_def option.map_comp comp_def
      split: option.splits if_splits)

lemma load_keeps:
  "withTransaction db (load sha256 lease now) = (reply, db1) \<Longrightarrow> db1 = db"
  "withTransaction db (load sha256 lease now) = (Inr (Some checkpoint), db1) \<Longrightarrow>
     storedAt db lease = Some (rc_serializedState checkpoint, rc_stateVersion checkpoint)"
  by (auto simp: withTransaction_def load_def parseRow_def storedAt_def dest!: fenced_row_stored split: if_splits option.splits sum.splits)

lemma initialize_stores:
  assumes "withTransaction db (initialize sha256 lease version serialized now) = (reply, db1)"
  shows "reply = Inr checkpoint \<Longrightarrow> storedAt db lease = None \<and> storedAt db1 lease = Some (serialized, version) \<and> rc_updatedAt checkpoint = now"
    "db_leases db1 = db_leases db"
  using assms
  by (auto simp: withTransaction_def initialize_def answer_row_def parseRow_def put_checkpoint_def storedAt_def
      checkpoint_row_for_def Let_def split: if_splits option.splits sum.splits)

lemma restored_state:
  assumes "restoreRoom sha256 buffer fresh lease b replies db = (Inr (state, at), db1)"
    and "SessionBootstrapResponseSchema b" "consistent_source fresh"
    and "\<And>doc version. storedAt db lease = Some (doc, version) \<Longrightarrow> saved_soundly buffer doc version"
  obtains doc where "serializeRoom state = Some doc" "storedAt db1 lease = Some (doc, room_version state)" "room_sound buffer state"
    "storedAt db lease = None \<or> storedAt db lease = Some (doc, room_version state)"
proof (cases "fst (withTransaction db (load sha256 lease (or_loadAt replies)))")
  case (Inl e)
  with assms(1) show thesis by (auto simp: restoreRoom_def split: prod.splits)
next
  case (Inr known)
  then have loaded: "withTransaction db (load sha256 lease (or_loadAt replies)) = (Inr known, db)"
    using load_keeps(1) by (metis prod.collapse)
  show thesis
  proof (cases known)
    case None
    with assms(1) loaded obtain lobby serialized checkpoint where
      created: "createWaitingState b (sourceCheckpoint buffer fresh) = Inr lobby" "serializeSnapshot lobby = Some serialized"
      and init: "withTransaction db (initialize sha256 lease (state_version lobby) serialized (or_initializeAt replies)) = (Inr checkpoint, db1)"
      and state: "state = Lobby lobby"
      by (auto simp: restoreRoom_def split: sum.splits option.splits prod.splits)
    from created_lobby [OF created(1) assms(2)] obtain seats where
      lobby: "lobby = WaitingGame (described_lobby b (sourceCheckpoint buffer fresh) seats)"
      "lobby_ok (described_lobby b (sourceCheckpoint buffer fresh) seats)" .
    have "room_sound buffer state"
      using lobby assms(3) by (auto simp: room_sound_def state secure_checkpoint_def)
    with that [of serialized] created(2) initialize_stores(1) [OF init refl] show thesis by (simp add: state serializeRoom_def)
  next
    case (Some checkpoint)
    with assms(1) loaded have state: "parseCheckpointState (rc_serializedState checkpoint) = Some state" "db1 = db"
      by (auto simp: restoreRoom_def split: option.splits if_splits)
    have stored: "storedAt db lease = Some (rc_serializedState checkpoint, rc_stateVersion checkpoint)"
      using load_keeps(2) loaded Some by blast
    from assms(4) [OF this] obtain saved where saved: "serializeRoom saved = Some (rc_serializedState checkpoint)"
      "room_version saved = rc_stateVersion checkpoint" "room_sound buffer saved" by (auto simp: saved_soundly_def)
    with checkpoint_roundtrip [OF saved(1)] state have "saved = state" by simp
    with saved(1,2) stored state(2) have stored': "serializeRoom state = Some (rc_serializedState checkpoint)"
      "storedAt db1 lease = Some (rc_serializedState checkpoint, room_version state)" by simp_all
    have sound: "room_sound buffer state" using saved(3) \<open>saved = state\<close> by simp
    show thesis by (rule that [OF stored' sound]) (use stored' state(2) in simp)
  qed
qed

lemma restore_leases:
  assumes "restoreRoom sha256 buffer fresh lease b replies db = (reply, db1)"
  shows "db_leases db1 = db_leases db"
proof -
  obtain known where loaded: "withTransaction db (load sha256 lease (or_loadAt replies)) = (known, db)"
    using load_keeps(1) by (metis surj_pair)
  show ?thesis
  proof (cases "known = Inr None")
    case True
    with assms loaded show ?thesis
      by (auto simp: restoreRoom_def dest: initialize_stores(2) split: sum.splits option.splits prod.splits)
  next
    case False
    with assms loaded have "db1 = db" by (auto simp: restoreRoom_def split: sum.splits option.splits if_splits)
    then show ?thesis by simp
  qed
qed

lemma prepare_leases: "prepareRoom sha256 buffer fresh lease first replies db = (reply, db1) \<Longrightarrow> db_leases db1 = db_leases db"
  unfolding prepareRoom_def by (auto dest: restore_leases split: sum.splits option.splits prod.splits if_splits)

text \<open>An opened room: what is in memory is stored, sound and on view.\<close>

lemma opened_room:
  assumes "openRoom sha256 buffer repo fresh wanted replies db = (Inr r, db')"
    and "\<And>b. or_second replies = Some b \<Longrightarrow> SessionBootstrapResponseSchema b" "consistent_source fresh"
    and "\<And>doc version. storedAt db (od_lease r) = Some (doc, version) \<Longrightarrow> saved_soundly buffer doc version"
  shows "in_step storedAt (od_lease r) (od_handler r) db'" "room_sound buffer (rh_state (od_handler r))"
    "toRoomPublicState (rh_state (od_handler r)) = Some (od_view r)" "view_version (od_view r) = room_version (rh_state (od_handler r))"
    "ls_roomId (od_lease r) = od_roomId r" "od_gameId r = wanted"
    "storedAt db (od_lease r) = Some (doc, version) \<Longrightarrow> serializeRoom (rh_state (od_handler r)) = Some doc"
proof -
  from assms(1) obtain first lease db1 state at b marked view handler where
    first: "or_first replies = Some first" "sb_gameId first = wanted"
    and acq: "acquire repo (sb_roomId first) (sb_gameId first) (or_acquireAt replies) db = Inr (lease, db1)"
    and prep: "prepareRoom sha256 buffer fresh lease first replies db1 = (Inr (state, at, b, marked), db')"
    and view: "toRoomPublicState state = Some view" and handler: "newHandler state (Some at) = Inr handler"
    and r: "r = \<lparr>od_gameId = sb_gameId b, od_roomId = sb_roomId b, od_lease = lease, od_handler = handler, od_view = view,
      od_maxClients = sb_maximumPlayers b, od_markedStarted = marked\<rparr>"
    by (auto simp: openRoom_def withTransaction_def split: option.splits sum.splits prod.splits if_splits)
  from prep have second: "or_second replies = Some b" "sb_gameId b = sb_gameId first" "sb_roomId b = sb_roomId first"
    and restored: "restoreRoom sha256 buffer fresh lease b replies db1 = (Inr (state, at), db')"
    by (auto simp: prepareRoom_def split: option.splits sum.splits prod.splits if_splits)
  note kept = acquire_keeps [OF acq]
  from handler have h: "rh_state handler = state" by (auto simp: newHandler_def Let_def split: if_splits)
  have known: "saved_soundly buffer doc version" if "storedAt db1 lease = Some (doc, version)" for doc version
    using assms(4) that by (simp add: r kept(1))
  obtain doc0 where doc: "serializeRoom state = Some doc0" "storedAt db' lease = Some (doc0, room_version state)" "room_sound buffer state"
    and same: "storedAt db1 lease = None \<or> storedAt db1 lease = Some (doc0, room_version state)"
    by (rule restored_state [OF restored assms(2) [OF second(1)] assms(3) known])
  show "in_step storedAt (od_lease r) (od_handler r) db'" using doc by (simp add: in_step_def r h)
  show "room_sound buffer (rh_state (od_handler r))" using doc by (simp add: r h)
  show "toRoomPublicState (rh_state (od_handler r)) = Some (od_view r)" using view by (simp add: r h)
  then show "view_version (od_view r) = room_version (rh_state (od_handler r))"
    using room_view_exists [of state] doc by (auto simp: r h room_sound_def)
  show "ls_roomId (od_lease r) = od_roomId r" "od_gameId r = wanted" using kept(2) second first(2) by (simp_all add: r)
  show "storedAt db (od_lease r) = Some (doc, version) \<Longrightarrow> serializeRoom (rh_state (od_handler r)) = Some doc"
    using same doc(1) kept(1) [of lease] by (auto simp: r h)
qed

section \<open>When opening fails\<close>

lemma free_to_acquire:
  assumes "db_leases db room = Some row" "lr_gameId row = game" "lr_leaseUntil row \<le> now"
  shows "\<exists>lease db'. acquire repo room game now db = Inr (lease, db')"
  using assms by (simp add: acquire_def Let_def)

lemma released_lease:
  assumes "db_leases db (ls_roomId lease) = Some row" "matches_lease lease row"
  shows "\<exists>row'. db_leases (snd (withTransaction db (release lease now))) (ls_roomId lease) = Some row' \<and>
    lr_gameId row' = lr_gameId row \<and> lr_leaseUntil row' \<le> now"
  using assms by (auto simp: withTransaction_def release_def assertOwned_def not_less)

lemma failed_open:
  assumes "openRoom sha256 buffer repo fresh wanted replies db = (Inl e, db')" "e \<noteq> ViewFailed" "\<nexists>x. e = HandlerFailed x"
  shows "db' = db \<or> (\<exists>first. or_first replies = Some first \<and> (\<forall>later \<ge> or_releaseAt replies.
    \<exists>new db2. acquire repo2 (sb_roomId first) (sb_gameId first) later db' = Inr (new, db2)))"
proof (cases "\<exists>first lease db1. or_first replies = Some first \<and> sb_gameId first = wanted \<and>
    acquire repo (sb_roomId first) (sb_gameId first) (or_acquireAt replies) db = Inr (lease, db1)")
  case False
  with assms(1) have "db' = db"
    by (auto simp: openRoom_def withTransaction_def split: option.splits sum.splits prod.splits if_splits)
  then show ?thesis ..
next
  case True
  then obtain first lease db1 where first: "or_first replies = Some first" "sb_gameId first = wanted"
    and acq: "acquire repo (sb_roomId first) (sb_gameId first) (or_acquireAt replies) db = Inr (lease, db1)" by blast
  obtain reply db2 where prep: "prepareRoom sha256 buffer fresh lease first replies db1 = (reply, db2)" by fastforce
  note kept = acquire_keeps [OF acq]
  have db': "db' = snd (withTransaction db2 (release lease (or_releaseAt replies)))"
    using assms first acq prep by (cases reply) (auto simp: openRoom_def withTransaction_def split: option.splits sum.splits)
  have "db_leases db2 (ls_roomId lease) = db_leases db1 (sb_roomId first)" using prepare_leases [OF prep] kept(2) by simp
  with kept(3,4) obtain row where row: "db_leases db' (sb_roomId first) = Some row" "lr_gameId row = sb_gameId first"
    "lr_leaseUntil row \<le> or_releaseAt replies"
    using released_lease [of db2 lease] kept(2) unfolding db' by fastforce
  have "\<exists>new db2. acquire repo2 (sb_roomId first) (sb_gameId first) later db' = Inr (new, db2)" if "or_releaseAt replies \<le> later" for later
    using free_to_acquire [OF row(1,2)] row(3) that by simp
  with first(1) show ?thesis by blast
qed

section \<open>Restarting\<close>

text \<open>The API knows the game as the room left it: the same binding, no version ahead, and a lifecycle that fits.\<close>

definition api_agrees :: "session_bootstrap \<Rightarrow> string \<Rightarrow> room_state \<Rightarrow> bool" where
  "api_agrees b room state \<longleftrightarrow>
     sb_roomId b = room \<and> sb_gameId b = room_game_id state \<and> sb_stateVersion b \<le> room_version state \<and>
     (is_playing state \<or> sb_lifecycle b = SessionOpen)"

lemma newHandler_restored:
  assumes "isSafeInteger at" "0 \<le> at"
  shows "\<exists>h. newHandler state (Some at) = Inr h \<and> rh_state h = state"
  using assms by (simp add: newHandler_def or_else_def Let_def)

lemma stored_time:
  assumes "storedAt db lease = Some (doc, version)"
  obtains row where "db_checkpoints db (ls_roomId lease) = Some row" "ck_serialized row = doc" "ck_stateVersion row = version"
  using assms by (auto simp: storedAt_def)

text \<open>A room whose lease ran out comes up again with the state it had, when the API agrees.\<close>

lemma reopened_room:
  assumes "in_step storedAt lease h db" "rows_ok sha256 db" "room_sound buffer (rh_state h)"
    and "db_leases db (ls_roomId lease) = Some current" "lr_leaseUntil current \<le> or_acquireAt replies"
    and "lr_gameId current = room_game_id (rh_state h)"
    and "or_first replies = Some first" "or_second replies = Some b" "or_markStarted replies"
    and "api_agrees first (ls_roomId lease) (rh_state h)" "api_agrees b (ls_roomId lease) (rh_state h)"
    and "or_acquireAt replies \<le> or_loadAt replies" "or_loadAt replies < or_acquireAt replies + rp_leaseDurationMs repo"
    and "\<And>row. db_checkpoints db (ls_roomId lease) = Some row \<Longrightarrow> isSafeInteger (ck_updatedAt row) \<and> 0 \<le> ck_updatedAt row"
  shows "\<exists>r db'. openRoom sha256 buffer repo fresh (room_game_id (rh_state h)) replies db = (Inr r, db') \<and>
    rh_state (od_handler r) = rh_state h \<and> od_roomId r = ls_roomId lease"
proof -
  from assms(1) obtain doc where doc: "serializeRoom (rh_state h) = Some doc"
    "storedAt db lease = Some (doc, room_version (rh_state h))" by (auto simp: in_step_def)
  have due: "or_acquireAt replies < or_acquireAt replies + rp_leaseDurationMs repo" using assms(12,13) by linarith
  from takeover_loads [OF assms(2) doc(2) assms(4,5) due assms(13)] obtain new db1 checkpoint where
    acq: "acquire repo (ls_roomId lease) (lr_gameId current) (or_acquireAt replies) db = Inr (new, db1)"
    and load: "load sha256 new (or_loadAt replies) db1 = Inr (Some checkpoint, db1)"
    and rc: "rc_serializedState checkpoint = doc" "rc_stateVersion checkpoint = room_version (rh_state h)" .
  have at: "isSafeInteger (rc_updatedAt checkpoint) \<and> 0 \<le> rc_updatedAt checkpoint"
  proof -
    from load obtain row where row: "db_checkpoints db1 (ls_roomId new) = Some row" "rc_updatedAt checkpoint = ck_updatedAt row"
      by (auto simp: load_def parseRow_def dest!: fenced_row_stored split: if_splits option.splits sum.splits)
    moreover have "map_option ck_updatedAt (db_checkpoints db1 (ls_roomId new)) = map_option ck_updatedAt (db_checkpoints db (ls_roomId new))"
      using acq by (auto simp: acquire_def fenceRoom_def lease_of_def Let_def option.map_comp comp_def split: option.splits if_splits)
    ultimately show ?thesis
      using assms(14) acquire_keeps(2) [OF acq] by (cases "db_checkpoints db (ls_roomId lease)") auto
  qed
  from newHandler_restored [of "rc_updatedAt checkpoint" "rh_state h"] at obtain h' where
    h': "newHandler (rh_state h) (Some (rc_updatedAt checkpoint)) = Inr h'" "rh_state h' = rh_state h" by blast
  from room_view_exists [of "rh_state h"] doc(1) assms(3) obtain view where view: "toRoomPublicState (rh_state h) = Some view"
    by (auto simp: room_sound_def)
  have agree: "sb_roomId first = ls_roomId lease" "sb_gameId first = room_game_id (rh_state h)" "sb_roomId b = ls_roomId lease"
    "sb_gameId b = room_game_id (rh_state h)" "sb_stateVersion b \<le> room_version (rh_state h)"
    "is_playing (rh_state h) \<or> sb_lifecycle b = SessionOpen"
    using assms(10,11) by (simp_all add: api_agrees_def)
  have "restoreRoom sha256 buffer fresh new b replies db1 = (Inr (rh_state h, rc_updatedAt checkpoint), db1)"
    using load checkpoint_roundtrip [OF doc(1)] rc(1) agree(4) by (simp add: restoreRoom_def withTransaction_def)
  then have "\<exists>marked. prepareRoom sha256 buffer fresh new first replies db1 = (Inr (rh_state h, rc_updatedAt checkpoint, b, marked), db1)"
    using assms(8,9) agree by (auto simp: prepareRoom_def)
  with acq assms(6,7) agree view h' show ?thesis
    by (auto simp: openRoom_def withTransaction_def)
qed

end
