(* ===== verification/Game_Room.thy ===== *)
theory Game_Room
  imports Room_Opening Room_Clock
begin

text \<open>
  \<open>rooms/game-room.ts\<close> of the game server: the room that players connect to, with \<open>auth/ticket-auth.ts\<close>. Its methods are
  asynchronous; each stretch of code between two awaits is one definition here, and \<open>happens\<close> runs the stretch that an
  event of the environment (a client, a reply of the API or the database, a timer) lets continue. The command handler, the
  store and the clock are those of the other theories.

  A session is an object that the map of active sessions, a reservation timer and a join in progress may all hold, so
  sessions live in a store and are referred to by index.

  Parameters: the options of the command handler, the repository of leases, and the encoding of a clock command as a
  message. The replies of the API and the times come with the events. Not modelled: the metrics, the hook for crash tests
  (production passes none), and the private view, which repeats identifiers of the client.
\<close>

section \<open>Tickets (ticket-auth.ts)\<close>

record consumed_ticket =
  ct_gameId :: string
  ct_playerId :: string
  ct_reservationId :: string
  ct_isPlayer :: bool
  ct_roomId :: string
  ct_seatIndex :: int

text \<open>\<open>None\<close> is a refused message, a failed request or a reply for another room.\<close>

definition authenticate :: "string \<Rightarrow> string option \<Rightarrow> consumed_ticket option \<Rightarrow> authenticated_player option" where
  "authenticate room options reply =
     (case (options, reply) of
        (Some wanted, Some consumed) \<Rightarrow>
          if ct_gameId consumed \<noteq> wanted \<or> ct_roomId consumed \<noteq> room \<or> \<not> ct_isPlayer consumed then None
          else Some \<lparr>au_gameId = ct_gameId consumed, au_playerId = ct_playerId consumed,
            au_reservationId = ct_reservationId consumed, au_roomId = ct_roomId consumed, au_seatIndex = ct_seatIndex consumed\<rparr>
      | _ \<Rightarrow> None)"

section \<open>The state of the room\<close>

record active_session =
  sn_clientSessionId :: string
  sn_joined :: bool

datatype auth_stage = Identifying "string option" | Admitted authenticated_player "room_envelope list"

record auth_task =
  at_session :: string
  at_stage :: auth_stage

datatype join_stage = Connecting | Rechecking "int option"

record join_task =
  jt_session :: string
  jt_who :: authenticated_player
  jt_ref :: nat
  jt_stage :: join_stage

record pending_finalization =
  pf_action :: finalization_action
  pf_events :: "room_envelope list"
  pf_playerId :: string
  pf_requestId :: "string option"

record 'raw delivery =
  dl_session :: string
  dl_who :: authenticated_player
  dl_raw :: 'raw
  dl_starts :: bool
  dl_requestId :: "string option"
  dl_action :: "finalization_action option"

datatype command_stage =
    AwaitAuthentications bool
  | AwaitHandler
  | AwaitAnswer "handler_error + handling"
  | AwaitFinalization acknowledgement "room_envelope list"
  | AwaitStart acknowledgement "room_envelope list"

datatype 'raw queued = FromClient string 'raw | FromClock internal_command

datatype 'raw running =
    RunningCommand "'raw delivery" command_stage
  | RunningTimer internal_command "(handler_error + handling) option"

datatype room_reply = SendAck acknowledgement | SendRejection rejection | SendReconnecting | SendError nat

record settlement_request =
  sr_roomId :: string
  sr_terminalStateVersion :: int
  sr_checkpointChecksum :: string
  sr_idempotencyKey :: string

record 'raw live_room =
  lv_gameId :: string
  lv_roomId :: string
  lv_lease :: room_lease
  lv_handler :: room_handler
  lv_tables :: "room_event database"
  lv_view :: room_view
  lv_clock :: room_clock
  lv_activeSessions :: "(string \<times> nat) list"
  lv_sessions :: "active_session list"
  lv_reservationTimers :: "(string \<times> nat) list"
  lv_admitted :: "(string \<times> authenticated_player) list"
  lv_userData :: "(string \<times> authenticated_player) list"
  lv_connected :: "string list"
  lv_authentications :: "auth_task list"
  lv_authenticationsInFlight :: nat
  lv_joins :: "join_task list"
  lv_starting :: bool
  lv_pendingStart :: "(string \<times> room_envelope list) option"
  lv_pendingFinalization :: "pending_finalization option"
  lv_leaseLost :: bool
  lv_disposed :: bool
  lv_locked :: bool
  lv_disconnected :: bool
  lv_settlementInFlight :: bool
  lv_settlementRetryTimer :: bool
  lv_finishedDisposal :: "int option"
  lv_queue :: "'raw queued list"
  lv_running :: "'raw running option"
  lv_broadcasts :: "room_envelope list"
  lv_replies :: "(string \<times> room_reply) list"
  lv_settlements :: "settlement_request list"
  lv_settled :: bool

text \<open>What a room is configured with.\<close>

record 'raw room_config =
  cf_options :: "('raw, room_event database) room_options"
  cf_repository :: lease_repository
  cf_encode :: "internal_command \<Rightarrow> 'raw"

section \<open>Settlement and disposal\<close>

definition FINISHED_ROOM_RETENTION_MS :: int where
  "FINISHED_ROOM_RETENTION_MS = 600000"

definition settlementIdempotencyKey :: "digest \<Rightarrow> string \<Rightarrow> string \<Rightarrow> string" where
  "settlementIdempotencyKey sha256 game room = ''realtime-settle-'' @ hex_text (sha256 (joined [game, room]))"

definition startIdempotencyKey :: "digest \<Rightarrow> string \<Rightarrow> string \<Rightarrow> string" where
  "startIdempotencyKey sha256 game room = ''realtime-start-'' @ hex_text (sha256 (joined [game, room]))"

text \<open>The request goes out at once; a state that cannot be serialised is retried like a failed request.\<close>

definition settleFinishedState :: "digest \<Rightarrow> finished_state \<Rightarrow> 'raw live_room \<Rightarrow> 'raw live_room" where
  "settleFinishedState sha256 f live =
     (case serializeGameplaySnapshot (Finished f) of
        None \<Rightarrow> live\<lparr>lv_settlementRetryTimer := True\<rparr>
      | Some serialized \<Rightarrow>
          live\<lparr>lv_settlementInFlight := True, lv_settlements := lv_settlements live @
            [\<lparr>sr_roomId = lv_roomId live, sr_terminalStateVersion = gs_stateVersion f,
              sr_checkpointChecksum = hex_text (sha256 serialized),
              sr_idempotencyKey = settlementIdempotencyKey sha256 (lv_gameId live) (lv_roomId live)\<rparr>]\<rparr>)"

definition scheduleFinishedDisposal :: "int \<Rightarrow> int \<Rightarrow> 'raw live_room \<Rightarrow> 'raw live_room" where
  "scheduleFinishedDisposal endedAtMs now live =
     (if lv_finishedDisposal live \<noteq> None then live
      else live\<lparr>lv_finishedDisposal := Some (max 0 (FINISHED_ROOM_RETENTION_MS - max 0 (now - endedAtMs)))\<rparr>)"

definition scheduleSettlement :: "digest \<Rightarrow> room_state \<Rightarrow> int \<Rightarrow> 'raw live_room \<Rightarrow> 'raw live_room" where
  "scheduleSettlement sha256 state now live =
     (case state of
        Playing (Finished f) \<Rightarrow>
          if lv_disposed live then live
          else (let live = scheduleFinishedDisposal (to_endedAtMs (fs_terminal f)) now live in
            if lv_settlementInFlight live \<or> lv_settlementRetryTimer live then live
            else settleFinishedState sha256 f (live\<lparr>lv_clock := stop (lv_clock live), lv_locked := True\<rparr>))
      | _ \<Rightarrow> live)"

datatype settlement_reply = SettlementCommitted | SettlementAlreadyCommitted | SettlementFailed

definition endSettlement :: "settlement_reply \<Rightarrow> 'raw live_room \<Rightarrow> 'raw live_room" where
  "endSettlement reply live =
     (let live = live\<lparr>lv_settlementInFlight := False\<rparr> in
      if reply \<noteq> SettlementFailed then live\<lparr>lv_settled := True\<rparr>
      else if lv_disposed live then live
      else live\<lparr>lv_settlementRetryTimer := True\<rparr>)"

definition retrySettlement :: "digest \<Rightarrow> int \<Rightarrow> 'raw live_room \<Rightarrow> 'raw live_room" where
  "retrySettlement sha256 now live =
     scheduleSettlement sha256 (rh_state (lv_handler live)) now (live\<lparr>lv_settlementRetryTimer := False\<rparr>)"

section \<open>Lease loss\<close>

definition handleLeaseLoss :: "'raw live_room \<Rightarrow> 'raw live_room" where
  "handleLeaseLoss live =
     (if lv_leaseLost live then live
      else live\<lparr>lv_leaseLost := True, lv_clock := stop (lv_clock live), lv_locked := True, lv_disconnected := True\<rparr>)"

definition renewLease :: "lease_repository \<Rightarrow> int \<Rightarrow> 'raw live_room \<Rightarrow> 'raw live_room" where
  "renewLease repo now live =
     (if lv_leaseLost live \<or> lv_disposed live then live
      else case withTransaction (lv_tables live) (renew repo (lv_lease live) now) of
        (Inl _, db) \<Rightarrow> handleLeaseLoss (live\<lparr>lv_tables := db\<rparr>)
      | (Inr lease, db) \<Rightarrow> live\<lparr>lv_lease := lease, lv_tables := db\<rparr>)"

text \<open>A lease that is not held ends the room, whichever call found out.\<close>

definition onStoreError :: "store_error \<Rightarrow> 'raw live_room \<Rightarrow> 'raw live_room" where
  "onStoreError e live = (if e = RoomLeaseUnavailable then handleLeaseLoss live else live)"

section \<open>Calls of the command handler\<close>

text \<open>The callback \<open>onCommitted\<close>, after a state was committed.\<close>

definition onCommitted :: "digest \<Rightarrow> room_state \<Rightarrow> int \<Rightarrow> 'raw live_room \<Rightarrow> 'raw live_room" where
  "onCommitted sha256 state now live =
     (case toRoomPublicState state of
        None \<Rightarrow> live
      | Some view \<Rightarrow>
          scheduleSettlement sha256 state now
            (live\<lparr>lv_view := view, lv_clock := synchronize sha256 now state (lv_clock live)\<rparr>))"

text \<open>The room after a call of the handler; the callback runs when the call took over a state, which has a new version.\<close>

definition afterHandler :: "digest \<Rightarrow> int \<Rightarrow> room_handler \<Rightarrow> room_event database \<Rightarrow> 'raw live_room \<Rightarrow> 'raw live_room" where
  "afterHandler sha256 now h db live =
     (let called = live\<lparr>lv_handler := h, lv_tables := db\<rparr> in
      if h = lv_handler live then called else onCommitted sha256 (rh_state h) now called)"

section \<open>Sessions\<close>

definition session_at :: "'raw live_room \<Rightarrow> string \<Rightarrow> (nat \<times> active_session) option" where
  "session_at live player =
     (case map_of (lv_activeSessions live) player of
        None \<Rightarrow> None | Some ref \<Rightarrow> Some (ref, lv_sessions live ! ref))"

definition hasAttachedClient :: "'raw live_room \<Rightarrow> bool" where
  "hasAttachedClient live \<longleftrightarrow>
     list_ex (\<lambda>entry. case session_at live (fst entry) of None \<Rightarrow> False | Some (_, session) \<Rightarrow> sn_joined session)
       (lv_activeSessions live)"

definition remove_nth :: "nat \<Rightarrow> 'a list \<Rightarrow> 'a list" where
  "remove_nth i xs = take i xs @ drop (Suc i) xs"

subsection \<open>onAuth\<close>

definition lifecycleBusy :: "'raw live_room \<Rightarrow> bool" where
  "lifecycleBusy live \<longleftrightarrow> lv_starting live \<or> lv_pendingFinalization live \<noteq> None"

definition beginAuthentication :: "string \<Rightarrow> string option \<Rightarrow> 'raw live_room \<Rightarrow> 'raw live_room" where
  "beginAuthentication session options live =
     (if lifecycleBusy live then live
      else live\<lparr>lv_authenticationsInFlight := lv_authenticationsInFlight live + 1,
        lv_authentications := lv_authentications live @ [\<lparr>at_session = session, at_stage = Identifying options\<rparr>]\<rparr>)"

text \<open>The waiters of \<open>waitForAuthentications\<close>: at most the command that is running.\<close>

definition resolveWaiters :: "'raw running option \<Rightarrow> 'raw running option" where
  "resolveWaiters running =
     (case running of
        Some (RunningCommand d (AwaitAuthentications _)) \<Rightarrow> Some (RunningCommand d (AwaitAuthentications True))
      | _ \<Rightarrow> running)"

definition endAuthentication :: "nat \<Rightarrow> 'raw live_room \<Rightarrow> 'raw live_room" where
  "endAuthentication i live =
     (let left = lv_authenticationsInFlight live - 1 in
      live\<lparr>lv_authentications := remove_nth i (lv_authentications live), lv_authenticationsInFlight := left,
        lv_running := (if left = 0 then resolveWaiters (lv_running live) else lv_running live)\<rparr>)"

text \<open>The seat the API admits the player to, with the time the player joined.\<close>

definition admittedSeat :: "session_bootstrap \<Rightarrow> authenticated_player \<Rightarrow> int option" where
  "admittedSeat b who =
     (let admitted = find (\<lambda>p. bp_playerId p = au_playerId who) (sb_players b) in
      if (sb_lifecycle b \<noteq> SessionOpen \<and> sb_lifecycle b \<noteq> SessionActive) \<or> sb_roomId b \<noteq> au_roomId who \<or>
         map_option bp_seatIndex admitted \<noteq> Some (au_seatIndex who)
      then None else map_option bp_joinedAtMs admitted)"

definition admitIdentified ::
  "'raw room_config \<Rightarrow> nat \<Rightarrow> consumed_ticket option \<Rightarrow> session_bootstrap option \<Rightarrow> int \<Rightarrow> 'raw live_room \<Rightarrow> 'raw live_room" where
  "admitIdentified config i ticket bootstrap now live =
     (case at_stage (lv_authentications live ! i) of
        Admitted _ _ \<Rightarrow> live
      | Identifying options \<Rightarrow>
          (case (if options = Some (lv_gameId live) then authenticate (lv_roomId live) options ticket else None) of
             None \<Rightarrow> endAuthentication i live
           | Some who \<Rightarrow>
          (case Option.bind bootstrap (\<lambda>b. admittedSeat b who) of
             None \<Rightarrow> endAuthentication i live
           | Some joined_at \<Rightarrow>
               (let opts = cf_options config;
                    (reply, h, db) = ensureAdmittedPlayerSerial opts who joined_at now (lv_handler live) (lv_tables live);
                    live = afterHandler (op_sha256 opts) now h db live in
                case reply of
                  Inl (StoreError e) \<Rightarrow> endAuthentication i (onStoreError e live)
                | Inl _ \<Rightarrow> endAuthentication i live
                | Inr events \<Rightarrow> live\<lparr>lv_authentications := (lv_authentications live)
                    [i := (lv_authentications live ! i)\<lparr>at_stage := Admitted who events\<rparr>]\<rparr>))))"

text \<open>The end of \<open>authenticateClient\<close>: the events go out, and the player's slot is reserved unless it is taken.\<close>

definition reserveSession :: "nat \<Rightarrow> 'raw live_room \<Rightarrow> 'raw live_room" where
  "reserveSession i live =
     (case at_stage (lv_authentications live ! i) of
        Identifying _ \<Rightarrow> live
      | Admitted who events \<Rightarrow>
          (let live = live\<lparr>lv_broadcasts := lv_broadcasts live @ events\<rparr>; player = au_playerId who;
               session = at_session (lv_authentications live ! i); ref = length (lv_sessions live) in
           if map_of (lv_activeSessions live) player \<noteq> None then endAuthentication i live
           else endAuthentication i
             (live\<lparr>lv_sessions := lv_sessions live @ [\<lparr>sn_clientSessionId = session, sn_joined = False\<rparr>],
                lv_activeSessions := AList.update player ref (lv_activeSessions live),
                lv_reservationTimers := lv_reservationTimers live @ [(player, ref)],
                lv_admitted := AList.update session who (lv_admitted live)\<rparr>)))"

definition expireReservation :: "nat \<Rightarrow> 'raw live_room \<Rightarrow> 'raw live_room" where
  "expireReservation i live =
     (let (player, ref) = lv_reservationTimers live ! i;
          live = live\<lparr>lv_reservationTimers := remove_nth i (lv_reservationTimers live)\<rparr> in
      if map_of (lv_activeSessions live) player = Some ref \<and> \<not> sn_joined (lv_sessions live ! ref)
      then live\<lparr>lv_activeSessions := AList.delete player (lv_activeSessions live)\<rparr> else live)"

subsection \<open>onJoin\<close>

definition beginJoin :: "string \<Rightarrow> 'raw live_room \<Rightarrow> 'raw live_room" where
  "beginJoin session live =
     (case map_of (lv_admitted live) session of
        None \<Rightarrow> live
      | Some who \<Rightarrow>
          (let live = live\<lparr>lv_admitted := AList.delete session (lv_admitted live)\<rparr> in
           case session_at live (au_playerId who) of
             None \<Rightarrow> live
           | Some (ref, reserved) \<Rightarrow>
               if sn_clientSessionId reserved \<noteq> session then live
               else live\<lparr>lv_connected := session # lv_connected live, lv_joins := lv_joins live @
                 [\<lparr>jt_session = session, jt_who = who, jt_ref = ref, jt_stage = Connecting\<rparr>]\<rparr>))"

definition markPresence :: "nat \<Rightarrow> int \<Rightarrow> 'raw live_room \<Rightarrow> 'raw live_room" where
  "markPresence i now live =
     (case withTransaction (lv_tables live) (markConnected (lv_lease live) now) of
        (Inl e, db) \<Rightarrow> onStoreError e (live\<lparr>lv_tables := db, lv_joins := remove_nth i (lv_joins live)\<rparr>)
      | (Inr previous, db) \<Rightarrow> live\<lparr>lv_tables := db,
          lv_joins := (lv_joins live)[i := (lv_joins live ! i)\<lparr>jt_stage := Rechecking previous\<rparr>]\<rparr>)"

text \<open>The offline mark, whose failure is ignored.\<close>

definition restoreOffline :: "int option \<Rightarrow> int \<Rightarrow> 'raw live_room \<Rightarrow> 'raw live_room" where
  "restoreOffline previous now live =
     (if hasAttachedClient live then live
      else live\<lparr>lv_tables := snd (withTransaction (lv_tables live) (markAllOffline (lv_lease live) (or_else previous now)))\<rparr>)"

definition attachable :: "session_bootstrap option \<Rightarrow> authenticated_player \<Rightarrow> bool" where
  "attachable bootstrap who =
     (case bootstrap of
        None \<Rightarrow> False
      | Some b \<Rightarrow> sb_roomId b = au_roomId who \<and> (sb_lifecycle b = SessionOpen \<or> sb_lifecycle b = SessionActive))"

definition attachClient :: "nat \<Rightarrow> session_bootstrap option \<Rightarrow> int \<Rightarrow> 'raw live_room \<Rightarrow> 'raw live_room" where
  "attachClient i bootstrap now live =
     (let task = lv_joins live ! i; live = live\<lparr>lv_joins := remove_nth i (lv_joins live)\<rparr> in
      case jt_stage task of
        Connecting \<Rightarrow> live
      | Rechecking previous \<Rightarrow>
          if \<not> attachable bootstrap (jt_who task) then restoreOffline previous now live
          else live\<lparr>lv_sessions := (lv_sessions live)[jt_ref task := (lv_sessions live ! jt_ref task)\<lparr>sn_joined := True\<rparr>],
            lv_userData := AList.update (jt_session task) (jt_who task) (lv_userData live)\<rparr>)"

subsection \<open>onLeave and onDrop\<close>

definition detachClient :: "string \<Rightarrow> int \<Rightarrow> 'raw live_room \<Rightarrow> 'raw live_room" where
  "detachClient session now live =
     (let live = live\<lparr>lv_connected := filter (\<lambda>s. s \<noteq> session) (lv_connected live)\<rparr> in
      case map_of (lv_userData live) session of
        None \<Rightarrow> live
      | Some who \<Rightarrow>
          (case session_at live (au_playerId who) of
             None \<Rightarrow> live
           | Some (_, attached) \<Rightarrow>
               if sn_clientSessionId attached \<noteq> session then live
               else (let live = live\<lparr>lv_activeSessions := AList.delete (au_playerId who) (lv_activeSessions live)\<rparr> in
                 if hasAttachedClient live then live
                 else case withTransaction (lv_tables live) (markAllOffline (lv_lease live) now) of
                   (Inl e, db) \<Rightarrow> onStoreError e (live\<lparr>lv_tables := db\<rparr>)
                 | (Inr _, db) \<Rightarrow> live\<lparr>lv_tables := db\<rparr>)))"

section \<open>Commands\<close>

definition send :: "string \<Rightarrow> room_reply \<Rightarrow> 'raw live_room \<Rightarrow> 'raw live_room" where
  "send session reply live = live\<lparr>lv_replies := lv_replies live @ [(session, reply)]\<rparr>"

text \<open>The delivery of a parsed message.\<close>

definition delivery_of :: "'raw room_contracts \<Rightarrow> string \<Rightarrow> authenticated_player \<Rightarrow> 'raw \<Rightarrow> 'raw delivery" where
  "delivery_of contracts session who raw =
     (let parsed = parseRoomCommand contracts raw in
      \<lparr>dl_session = session, dl_who = who, dl_raw = raw, dl_starts = (map_option rq_type parsed = Some ''startGame''),
       dl_requestId = map_option rq_requestId parsed,
       dl_action = (if map_option rq_type parsed = Some ''leaveGame'' then Some FinalizeLeave
                    else if map_option rq_type parsed = Some ''cancelGame'' then Some FinalizeCancel else None)\<rparr>)"

text \<open>The two gates of \<open>handleRoomCommand\<close>: only the command that a start or a finalization is waiting for gets through.\<close>

definition startBlocks :: "'raw live_room \<Rightarrow> 'raw delivery \<Rightarrow> bool" where
  "startBlocks live d \<longleftrightarrow>
     lv_starting live \<and> (\<not> dl_starts d \<or> map_option fst (lv_pendingStart live) \<noteq> dl_requestId d)"

definition finalizationBlocks :: "'raw live_room \<Rightarrow> 'raw delivery \<Rightarrow> bool" where
  "finalizationBlocks live d =
     (case lv_pendingFinalization live of
        None \<Rightarrow> False
      | Some pending \<Rightarrow> dl_action d \<noteq> Some (pf_action pending) \<or> pf_playerId pending \<noteq> au_playerId (dl_who d) \<or>
          pf_requestId pending \<noteq> dl_requestId d)"

definition beginCommand :: "'raw delivery \<Rightarrow> 'raw live_room \<Rightarrow> 'raw live_room" where
  "beginCommand d live =
     (if startBlocks live d \<or> finalizationBlocks live d then send (dl_session d) (SendError 4503) live
      else (let live = (case (dl_action d, lv_pendingFinalization live) of
                (Some action, None) \<Rightarrow> live\<lparr>lv_pendingFinalization := Some
                  \<lparr>pf_action = action, pf_events = [], pf_playerId = au_playerId (dl_who d), pf_requestId = dl_requestId d\<rparr>\<rparr>
              | _ \<Rightarrow> live);
                live = (if dl_starts d then live\<lparr>lv_starting := True\<rparr> else live) in
        live\<lparr>lv_running := Some (RunningCommand d
          (if dl_starts d \<or> dl_action d \<noteq> None then AwaitAuthentications (lv_authenticationsInFlight live = 0)
           else AwaitHandler))\<rparr>))"

definition nextDelivery :: "'raw room_config \<Rightarrow> 'raw live_room \<Rightarrow> 'raw live_room" where
  "nextDelivery config live =
     (case lv_queue live of
        [] \<Rightarrow> live
      | FromClock command # rest \<Rightarrow> live\<lparr>lv_queue := rest, lv_running := Some (RunningTimer command None)\<rparr>
      | FromClient session raw # rest \<Rightarrow>
          (let live = live\<lparr>lv_queue := rest\<rparr> in
           case map_of (lv_userData live) session of
             None \<Rightarrow> send session (SendError 4401) live
           | Some who \<Rightarrow> beginCommand (delivery_of (op_contracts (cf_options config)) session who raw) live))"

text \<open>An acknowledged command: the answer, then the events to everyone.\<close>

definition publish :: "'raw delivery \<Rightarrow> acknowledgement \<Rightarrow> room_envelope list \<Rightarrow> 'raw live_room \<Rightarrow> 'raw live_room" where
  "publish d ack events live =
     (let live = send (dl_session d) (SendAck ack) live in
      live\<lparr>lv_broadcasts := lv_broadcasts live @ events, lv_running := None\<rparr>)"

text \<open>The \<open>catch\<close> block.\<close>

definition commandFailed :: "'raw delivery \<Rightarrow> handler_error \<Rightarrow> 'raw live_room \<Rightarrow> 'raw live_room" where
  "commandFailed d e live =
     (let live = live\<lparr>lv_running := None\<rparr> in
      case e of
        StoreError RoomLeaseUnavailable \<Rightarrow> handleLeaseLoss live
      | InvalidRoomCommand \<Rightarrow>
          send (dl_session d) (SendError 4400)
            (if dl_starts d \<and> lv_pendingStart live = None then live\<lparr>lv_starting := False\<rparr> else live)
      | _ \<Rightarrow> send (dl_session d) SendReconnecting
          (if \<not> dl_starts d \<and> dl_action d = None then live\<lparr>lv_locked := True\<rparr> else live))"

text \<open>An unanswered request to the API, as the error the \<open>catch\<close> block sees.\<close>

definition apiFailed :: "'raw delivery \<Rightarrow> 'raw live_room \<Rightarrow> 'raw live_room" where
  "apiFailed d live = commandFailed d (RuleError PlainError) live"

definition commandRejected :: "'raw delivery \<Rightarrow> rejection \<Rightarrow> 'raw live_room \<Rightarrow> 'raw live_room" where
  "commandRejected d rejection live =
     send (dl_session d) (SendRejection rejection)
       (live\<lparr>lv_running := None, lv_starting := (if dl_starts d then False else lv_starting live),
          lv_pendingFinalization := (if dl_action d \<noteq> None then None else lv_pendingFinalization live)\<rparr>)"

text \<open>The events of a finalization or a start are kept until the API has confirmed it; a replay finds them there.\<close>

definition commandAccepted ::
  "'raw delivery \<Rightarrow> acknowledgement \<Rightarrow> room_envelope list \<Rightarrow> bool \<Rightarrow> 'raw live_room \<Rightarrow> 'raw live_room" where
  "commandAccepted d ack events again live =
     (case dl_action d of
        Some action \<Rightarrow>
          (let pending = lv_pendingFinalization live;
               pending = (if again then pending else Some \<lparr>pf_action = action, pf_events = events,
                 pf_playerId = au_playerId (dl_who d), pf_requestId = Some (ak_requestId ack)\<rparr>);
               events = (case pending of
                   Some p \<Rightarrow> if again \<and> pf_requestId p = Some (ak_requestId ack) then pf_events p else events
                 | None \<Rightarrow> events) in
           live\<lparr>lv_pendingFinalization := pending, lv_running := Some (RunningCommand d (AwaitFinalization ack events))\<rparr>)
      | None \<Rightarrow>
          if dl_starts d then
            (let pending = (if again then lv_pendingStart live else Some (ak_requestId ack, events));
                 events = (case pending of
                     Some (request, kept) \<Rightarrow> if again \<and> request = ak_requestId ack then kept else events
                   | None \<Rightarrow> events) in
             live\<lparr>lv_pendingStart := pending, lv_running := Some (RunningCommand d (AwaitStart ack events))\<rparr>)
          else publish d ack events live)"

definition answerCommand :: "'raw delivery \<Rightarrow> handler_error + handling \<Rightarrow> 'raw live_room \<Rightarrow> 'raw live_room" where
  "answerCommand d answer live =
     (case answer of
        Inl e \<Rightarrow> commandFailed d e live
      | Inr (HandledRejected rejection) \<Rightarrow> commandRejected d rejection live
      | Inr (HandledAccepted ack events again) \<Rightarrow> commandAccepted d ack events again live)"

definition finalizationReplied :: "'raw delivery \<Rightarrow> acknowledgement \<Rightarrow> room_envelope list \<Rightarrow> bool \<Rightarrow> 'raw live_room \<Rightarrow> 'raw live_room" where
  "finalizationReplied d ack events confirmed live =
     (if \<not> confirmed then apiFailed d live else publish d ack events (live\<lparr>lv_pendingFinalization := None\<rparr>))"

definition startReplied :: "'raw delivery \<Rightarrow> acknowledgement \<Rightarrow> room_envelope list \<Rightarrow> bool \<Rightarrow> 'raw live_room \<Rightarrow> 'raw live_room" where
  "startReplied d ack events confirmed live =
     (if \<not> confirmed then apiFailed d live
      else publish d ack events (live\<lparr>lv_starting := False, lv_pendingStart := None\<rparr>))"

subsection \<open>Commands of the clock\<close>

text \<open>The timer fires: a command for another version only sets the timer again, the others are queued.\<close>

definition timerFires :: "digest \<Rightarrow> int \<Rightarrow> 'raw live_room \<Rightarrow> 'raw live_room" where
  "timerFires sha256 now live =
     (case rk_timer (lv_clock live) of
        None \<Rightarrow> live
      | Some (next, _) \<Rightarrow>
          (let clock = (lv_clock live)\<lparr>rk_timer := None\<rparr> in
           if map_option room_version (rk_currentState clock) \<noteq> Some (ic_expectedStateVersion (sc_command next)) then
             live\<lparr>lv_clock := (case rk_currentState clock of None \<Rightarrow> clock | Some state \<Rightarrow> synchronize sha256 now state clock)\<rparr>
           else live\<lparr>lv_clock := clock, lv_queue := lv_queue live @ [FromClock (sc_command next)]\<rparr>))"

text \<open>\<open>enqueueInternalCommand\<close> with the end of the clock's \<open>dispatch\<close>: whatever does not advance the room locks it, but a
  stale version, which only sets the timer again.\<close>

definition answerTimer :: "digest \<Rightarrow> internal_command \<Rightarrow> handler_error + handling \<Rightarrow> int \<Rightarrow> 'raw live_room \<Rightarrow> 'raw live_room" where
  "answerTimer sha256 command answer now live =
     (let live = live\<lparr>lv_running := None\<rparr>; failed = (if lv_disposed live then live else live\<lparr>lv_locked := True\<rparr>) in
      case answer of
        Inl _ \<Rightarrow> failed
      | Inr (HandledRejected rejection) \<Rightarrow>
          if errorCode (rj_error rejection) = STALE_STATE_VERSION
          then live\<lparr>lv_clock := synchronize sha256 now (rh_state (lv_handler live)) (lv_clock live)\<rparr>
          else failed
      | Inr (HandledAccepted _ events _) \<Rightarrow>
          (let live = live\<lparr>lv_broadcasts := lv_broadcasts live @ events\<rparr> in
           if map_option room_version (rk_currentState (lv_clock live)) = Some (ic_expectedStateVersion command) \<and> \<not> lv_disposed live
           then live\<lparr>lv_locked := True\<rparr> else live))"

section \<open>Disposal\<close>

definition disposeRoom :: "int \<Rightarrow> 'raw live_room \<Rightarrow> 'raw live_room" where
  "disposeRoom now live =
     (let live = live\<lparr>lv_disposed := True, lv_clock := stop (lv_clock live), lv_settlementRetryTimer := False\<rparr>;
          offline = (case rh_state (lv_handler live) of
              Playing (InProgress _) \<Rightarrow> snd (withTransaction (lv_tables live) (markAllOffline (lv_lease live) now))
            | _ \<Rightarrow> lv_tables live) in
      live\<lparr>lv_tables := snd (withTransaction offline (release (lv_lease live) now))\<rparr>)"

section \<open>What happens to a room\<close>

datatype 'raw happening =
    ClientAuthenticates string "string option"
  | ApiIdentifies nat "consumed_ticket option" "session_bootstrap option" int
  | AuthenticationEnds nat
  | ReservationExpires nat
  | ClientJoins string
  | PresenceMarked nat int
  | AttachmentRechecked nat "session_bootstrap option" int
  | ClientLeaves string int
  | LeaseRenewed int
  | CommandArrives string 'raw
  | ClockFires int
  | DeliveryBegins
  | AuthenticationsSettle
  | HandlerRuns int
  | HandlerAnswers int
  | ApiConfirms bool
  | SettlementReplied settlement_reply
  | SettlementRetried int
  | RoomDisposed int

text \<open>One stretch of the room's code; an event that nothing waits for changes nothing.\<close>

fun happens :: "'raw room_config \<Rightarrow> 'raw happening \<Rightarrow> 'raw live_room \<Rightarrow> 'raw live_room" where
  "happens config (ClientAuthenticates session options) live = beginAuthentication session options live"
| "happens config (ApiIdentifies i ticket bootstrap now) live =
     (if i < length (lv_authentications live) then admitIdentified config i ticket bootstrap now live else live)"
| "happens config (AuthenticationEnds i) live =
     (if i < length (lv_authentications live) then reserveSession i live else live)"
| "happens config (ReservationExpires i) live =
     (if i < length (lv_reservationTimers live) then expireReservation i live else live)"
| "happens config (ClientJoins session) live = beginJoin session live"
| "happens config (PresenceMarked i now) live =
     (if i < length (lv_joins live) \<and> jt_stage (lv_joins live ! i) = Connecting then markPresence i now live else live)"
| "happens config (AttachmentRechecked i bootstrap now) live =
     (if i < length (lv_joins live) \<and> jt_stage (lv_joins live ! i) \<noteq> Connecting then attachClient i bootstrap now live else live)"
| "happens config (ClientLeaves session now) live = detachClient session now live"
| "happens config (LeaseRenewed now) live = renewLease (cf_repository config) now live"
| "happens config (CommandArrives session raw) live = live\<lparr>lv_queue := lv_queue live @ [FromClient session raw]\<rparr>"
| "happens config (ClockFires now) live = timerFires (op_sha256 (cf_options config)) now live"
| "happens config DeliveryBegins live = (if lv_running live = None then nextDelivery config live else live)"
| "happens config AuthenticationsSettle live =
     (case lv_running live of
        Some (RunningCommand d (AwaitAuthentications True)) \<Rightarrow> live\<lparr>lv_running := Some (RunningCommand d AwaitHandler)\<rparr>
      | _ \<Rightarrow> live)"
| "happens config (HandlerRuns now) live =
     (let opts = cf_options config in
      case lv_running live of
        Some (RunningCommand d AwaitHandler) \<Rightarrow>
          (let (answer, h, db) = handleSerial opts (dl_who d) (dl_raw d) now (lv_handler live) (lv_tables live) in
           (afterHandler (op_sha256 opts) now h db live)\<lparr>lv_running := Some (RunningCommand d (AwaitAnswer answer))\<rparr>)
      | Some (RunningTimer command None) \<Rightarrow>
          (let (answer, h, db) = handleInternalSerial opts (cf_encode config command) now (lv_handler live) (lv_tables live) in
           (afterHandler (op_sha256 opts) now h db live)\<lparr>lv_running := Some (RunningTimer command (Some answer))\<rparr>)
      | _ \<Rightarrow> live)"
| "happens config (HandlerAnswers now) live =
     (case lv_running live of
        Some (RunningCommand d (AwaitAnswer answer)) \<Rightarrow> answerCommand d answer live
      | Some (RunningTimer command (Some answer)) \<Rightarrow> answerTimer (op_sha256 (cf_options config)) command answer now live
      | _ \<Rightarrow> live)"
| "happens config (ApiConfirms confirmed) live =
     (case lv_running live of
        Some (RunningCommand d (AwaitFinalization ack events)) \<Rightarrow> finalizationReplied d ack events confirmed live
      | Some (RunningCommand d (AwaitStart ack events)) \<Rightarrow> startReplied d ack events confirmed live
      | _ \<Rightarrow> live)"
| "happens config (SettlementReplied reply) live = (if lv_settlementInFlight live then endSettlement reply live else live)"
| "happens config (SettlementRetried now) live =
     (if lv_settlementRetryTimer live then retrySettlement (op_sha256 (cf_options config)) now live else live)"
| "happens config (RoomDisposed now) live = disposeRoom now live"

definition run_room :: "'raw room_config \<Rightarrow> 'raw happening list \<Rightarrow> 'raw live_room \<Rightarrow> 'raw live_room" where
  "run_room config = fold (happens config)"

text \<open>The room \<open>onCreate\<close> leaves behind.\<close>

definition newRoom :: "digest \<Rightarrow> opened_room \<Rightarrow> room_event database \<Rightarrow> int \<Rightarrow> 'raw live_room" where
  "newRoom sha256 opened db now =
     (let state = rh_state (od_handler opened) in
      scheduleSettlement sha256 state now
        \<lparr>lv_gameId = od_gameId opened, lv_roomId = od_roomId opened, lv_lease = od_lease opened, lv_handler = od_handler opened,
         lv_tables = db, lv_view = od_view opened,
         lv_clock = synchronize sha256 now state \<lparr>rk_currentState = None, rk_timer = None\<rparr>,
         lv_activeSessions = [], lv_sessions = [], lv_reservationTimers = [], lv_admitted = [], lv_userData = [],
         lv_connected = [], lv_authentications = [], lv_authenticationsInFlight = 0, lv_joins = [], lv_starting = False,
         lv_pendingStart = None, lv_pendingFinalization = None, lv_leaseLost = False, lv_disposed = False, lv_locked = False,
         lv_disconnected = False, lv_settlementInFlight = False, lv_settlementRetryTimer = False, lv_finishedDisposal = None,
         lv_queue = [], lv_running = None, lv_broadcasts = [], lv_replies = [], lv_settlements = [], lv_settled = False\<rparr>)"

end
