(* ===== verification/Room_Gate.thy ===== *)
theory Room_Gate
  imports Game_Room
begin

text \<open>
  The gates of a live room: while a lifecycle command is carried out nobody is being admitted, and a start whose handler
  call fails with an error of the database leaves the gate shut for good.
\<close>

section \<open>What settlement, the loss of the lease and the handler leave alone\<close>

lemma scheduleSettlement_other [simp]:
  "lv_activeSessions (scheduleSettlement sha256 state now live) = lv_activeSessions live"
  "lv_sessions (scheduleSettlement sha256 state now live) = lv_sessions live"
  "lv_reservationTimers (scheduleSettlement sha256 state now live) = lv_reservationTimers live"
  "lv_admitted (scheduleSettlement sha256 state now live) = lv_admitted live"
  "lv_userData (scheduleSettlement sha256 state now live) = lv_userData live"
  "lv_connected (scheduleSettlement sha256 state now live) = lv_connected live"
  "lv_joins (scheduleSettlement sha256 state now live) = lv_joins live"
  "lv_authentications (scheduleSettlement sha256 state now live) = lv_authentications live"
  "lv_authenticationsInFlight (scheduleSettlement sha256 state now live) = lv_authenticationsInFlight live"
  "lv_starting (scheduleSettlement sha256 state now live) = lv_starting live"
  "lv_pendingStart (scheduleSettlement sha256 state now live) = lv_pendingStart live"
  "lv_pendingFinalization (scheduleSettlement sha256 state now live) = lv_pendingFinalization live"
  "lv_running (scheduleSettlement sha256 state now live) = lv_running live"
  "lv_queue (scheduleSettlement sha256 state now live) = lv_queue live"
  "lv_broadcasts (scheduleSettlement sha256 state now live) = lv_broadcasts live"
  "lv_replies (scheduleSettlement sha256 state now live) = lv_replies live"
  "lv_disposed (scheduleSettlement sha256 state now live) = lv_disposed live"
  "lv_lease (scheduleSettlement sha256 state now live) = lv_lease live"
  "lv_settled (scheduleSettlement sha256 state now live) = lv_settled live"
  "lv_gameId (scheduleSettlement sha256 state now live) = lv_gameId live"
  "lv_roomId (scheduleSettlement sha256 state now live) = lv_roomId live"
  "lv_handler (scheduleSettlement sha256 state now live) = lv_handler live"
  "lv_tables (scheduleSettlement sha256 state now live) = lv_tables live"
  "lv_view (scheduleSettlement sha256 state now live) = lv_view live"
  by (simp_all add: scheduleSettlement_def settleFinishedState_def scheduleFinishedDisposal_def Let_def
      split: room_state.split aggregate.split option.split)

lemma handleLeaseLoss_other [simp]:
  "lv_activeSessions (handleLeaseLoss live) = lv_activeSessions live"
  "lv_sessions (handleLeaseLoss live) = lv_sessions live"
  "lv_reservationTimers (handleLeaseLoss live) = lv_reservationTimers live"
  "lv_admitted (handleLeaseLoss live) = lv_admitted live"
  "lv_userData (handleLeaseLoss live) = lv_userData live"
  "lv_connected (handleLeaseLoss live) = lv_connected live"
  "lv_joins (handleLeaseLoss live) = lv_joins live"
  "lv_authentications (handleLeaseLoss live) = lv_authentications live"
  "lv_authenticationsInFlight (handleLeaseLoss live) = lv_authenticationsInFlight live"
  "lv_starting (handleLeaseLoss live) = lv_starting live"
  "lv_pendingStart (handleLeaseLoss live) = lv_pendingStart live"
  "lv_pendingFinalization (handleLeaseLoss live) = lv_pendingFinalization live"
  "lv_running (handleLeaseLoss live) = lv_running live"
  "lv_queue (handleLeaseLoss live) = lv_queue live"
  "lv_broadcasts (handleLeaseLoss live) = lv_broadcasts live"
  "lv_replies (handleLeaseLoss live) = lv_replies live"
  "lv_disposed (handleLeaseLoss live) = lv_disposed live"
  "lv_lease (handleLeaseLoss live) = lv_lease live"
  "lv_settled (handleLeaseLoss live) = lv_settled live"
  "lv_gameId (handleLeaseLoss live) = lv_gameId live"
  "lv_roomId (handleLeaseLoss live) = lv_roomId live"
  "lv_handler (handleLeaseLoss live) = lv_handler live"
  "lv_tables (handleLeaseLoss live) = lv_tables live"
  "lv_view (handleLeaseLoss live) = lv_view live"
  "lv_settlementInFlight (handleLeaseLoss live) = lv_settlementInFlight live"
  "lv_settlementRetryTimer (handleLeaseLoss live) = lv_settlementRetryTimer live"
  "lv_settlements (handleLeaseLoss live) = lv_settlements live"
  "lv_finishedDisposal (handleLeaseLoss live) = lv_finishedDisposal live"
  by (simp_all add: handleLeaseLoss_def)

lemma onStoreError_other [simp]:
  "lv_activeSessions (onStoreError e live) = lv_activeSessions live"
  "lv_sessions (onStoreError e live) = lv_sessions live"
  "lv_reservationTimers (onStoreError e live) = lv_reservationTimers live"
  "lv_admitted (onStoreError e live) = lv_admitted live"
  "lv_userData (onStoreError e live) = lv_userData live"
  "lv_connected (onStoreError e live) = lv_connected live"
  "lv_joins (onStoreError e live) = lv_joins live"
  "lv_authentications (onStoreError e live) = lv_authentications live"
  "lv_authenticationsInFlight (onStoreError e live) = lv_authenticationsInFlight live"
  "lv_starting (onStoreError e live) = lv_starting live"
  "lv_pendingStart (onStoreError e live) = lv_pendingStart live"
  "lv_pendingFinalization (onStoreError e live) = lv_pendingFinalization live"
  "lv_running (onStoreError e live) = lv_running live"
  "lv_queue (onStoreError e live) = lv_queue live"
  "lv_broadcasts (onStoreError e live) = lv_broadcasts live"
  "lv_replies (onStoreError e live) = lv_replies live"
  "lv_disposed (onStoreError e live) = lv_disposed live"
  "lv_lease (onStoreError e live) = lv_lease live"
  "lv_settled (onStoreError e live) = lv_settled live"
  "lv_gameId (onStoreError e live) = lv_gameId live"
  "lv_roomId (onStoreError e live) = lv_roomId live"
  "lv_handler (onStoreError e live) = lv_handler live"
  "lv_tables (onStoreError e live) = lv_tables live"
  "lv_view (onStoreError e live) = lv_view live"
  "lv_settlementInFlight (onStoreError e live) = lv_settlementInFlight live"
  "lv_settlementRetryTimer (onStoreError e live) = lv_settlementRetryTimer live"
  "lv_settlements (onStoreError e live) = lv_settlements live"
  "lv_finishedDisposal (onStoreError e live) = lv_finishedDisposal live"
  by (simp_all add: onStoreError_def)

lemma onCommitted_other [simp]:
  "lv_activeSessions (onCommitted sha256 state now live) = lv_activeSessions live"
  "lv_sessions (onCommitted sha256 state now live) = lv_sessions live"
  "lv_reservationTimers (onCommitted sha256 state now live) = lv_reservationTimers live"
  "lv_admitted (onCommitted sha256 state now live) = lv_admitted live"
  "lv_userData (onCommitted sha256 state now live) = lv_userData live"
  "lv_connected (onCommitted sha256 state now live) = lv_connected live"
  "lv_joins (onCommitted sha256 state now live) = lv_joins live"
  "lv_authentications (onCommitted sha256 state now live) = lv_authentications live"
  "lv_authenticationsInFlight (onCommitted sha256 state now live) = lv_authenticationsInFlight live"
  "lv_starting (onCommitted sha256 state now live) = lv_starting live"
  "lv_pendingStart (onCommitted sha256 state now live) = lv_pendingStart live"
  "lv_pendingFinalization (onCommitted sha256 state now live) = lv_pendingFinalization live"
  "lv_running (onCommitted sha256 state now live) = lv_running live"
  "lv_queue (onCommitted sha256 state now live) = lv_queue live"
  "lv_broadcasts (onCommitted sha256 state now live) = lv_broadcasts live"
  "lv_replies (onCommitted sha256 state now live) = lv_replies live"
  "lv_disposed (onCommitted sha256 state now live) = lv_disposed live"
  "lv_lease (onCommitted sha256 state now live) = lv_lease live"
  "lv_settled (onCommitted sha256 state now live) = lv_settled live"
  "lv_gameId (onCommitted sha256 state now live) = lv_gameId live"
  "lv_roomId (onCommitted sha256 state now live) = lv_roomId live"
  "lv_handler (onCommitted sha256 state now live) = lv_handler live"
  "lv_tables (onCommitted sha256 state now live) = lv_tables live"
  by (simp_all add: onCommitted_def split: option.split)

lemma afterHandler_other [simp]:
  "lv_activeSessions (afterHandler sha256 now h db live) = lv_activeSessions live"
  "lv_sessions (afterHandler sha256 now h db live) = lv_sessions live"
  "lv_reservationTimers (afterHandler sha256 now h db live) = lv_reservationTimers live"
  "lv_admitted (afterHandler sha256 now h db live) = lv_admitted live"
  "lv_userData (afterHandler sha256 now h db live) = lv_userData live"
  "lv_connected (afterHandler sha256 now h db live) = lv_connected live"
  "lv_joins (afterHandler sha256 now h db live) = lv_joins live"
  "lv_authentications (afterHandler sha256 now h db live) = lv_authentications live"
  "lv_authenticationsInFlight (afterHandler sha256 now h db live) = lv_authenticationsInFlight live"
  "lv_starting (afterHandler sha256 now h db live) = lv_starting live"
  "lv_pendingStart (afterHandler sha256 now h db live) = lv_pendingStart live"
  "lv_pendingFinalization (afterHandler sha256 now h db live) = lv_pendingFinalization live"
  "lv_running (afterHandler sha256 now h db live) = lv_running live"
  "lv_queue (afterHandler sha256 now h db live) = lv_queue live"
  "lv_broadcasts (afterHandler sha256 now h db live) = lv_broadcasts live"
  "lv_replies (afterHandler sha256 now h db live) = lv_replies live"
  "lv_disposed (afterHandler sha256 now h db live) = lv_disposed live"
  "lv_lease (afterHandler sha256 now h db live) = lv_lease live"
  "lv_settled (afterHandler sha256 now h db live) = lv_settled live"
  "lv_gameId (afterHandler sha256 now h db live) = lv_gameId live"
  "lv_roomId (afterHandler sha256 now h db live) = lv_roomId live"
  "lv_handler (afterHandler sha256 now h db live) = h"
  "lv_tables (afterHandler sha256 now h db live) = db"
  by (simp_all add: afterHandler_def Let_def)

section \<open>Lifecycle commands and admissions exclude each other\<close>

definition lifecycle_delivery :: "'raw delivery \<Rightarrow> bool" where
  "lifecycle_delivery d \<longleftrightarrow> dl_starts d \<or> dl_action d \<noteq> None"

text \<open>A lifecycle command that got past the waiting for authentications, and the point from which none is in flight.\<close>

fun carried_out :: "'raw running option \<Rightarrow> bool" where
  "carried_out (Some (RunningCommand d (AwaitAuthentications settled))) = False"
| "carried_out (Some (RunningCommand d stage)) = lifecycle_delivery d"
| "carried_out _ = False"

fun gate_shut :: "'raw running option \<Rightarrow> bool" where
  "gate_shut (Some (RunningCommand d (AwaitAuthentications settled))) = settled"
| "gate_shut running = carried_out running"

fun lifecycle_running :: "'raw running option \<Rightarrow> bool" where
  "lifecycle_running (Some (RunningCommand d stage)) = lifecycle_delivery d"
| "lifecycle_running _ = False"

fun wait_justified :: "'raw running option \<Rightarrow> bool" where
  "wait_justified (Some (RunningCommand d (AwaitAuthentications settled))) = lifecycle_delivery d"
| "wait_justified _ = True"

definition gate_ok :: "'raw live_room \<Rightarrow> bool" where
  "gate_ok live \<longleftrightarrow>
     lv_authenticationsInFlight live = length (lv_authentications live) \<and>
     (lifecycle_running (lv_running live) \<longrightarrow> lifecycleBusy live) \<and> wait_justified (lv_running live) \<and>
     (gate_shut (lv_running live) \<longrightarrow> lv_authentications live = [])"

lemma length_remove_nth [simp]: "i < length xs \<Longrightarrow> length (remove_nth i xs) = length xs - 1"
  by (auto simp: remove_nth_def)

lemma set_remove_nth: "set (remove_nth i xs) \<subseteq> set xs"
  unfolding remove_nth_def using set_take_subset set_drop_subset by fastforce

lemma carried_out_shut: "carried_out running \<Longrightarrow> gate_shut running \<and> lifecycle_running running"
  by (cases running rule: carried_out.cases) simp_all

lemma gate_carried: "gate_ok live \<Longrightarrow> carried_out (lv_running live) \<Longrightarrow> lv_authentications live = [] \<and> lifecycleBusy live"
  by (auto simp: gate_ok_def dest: carried_out_shut)

text \<open>What the invariant reads.\<close>

lemma gate_ok_same:
  "gate_ok live \<Longrightarrow> lv_authentications live' = lv_authentications live \<Longrightarrow>
     lv_authenticationsInFlight live' = lv_authenticationsInFlight live \<Longrightarrow> lv_running live' = lv_running live \<Longrightarrow>
     lv_starting live' = lv_starting live \<Longrightarrow> lv_pendingFinalization live' = lv_pendingFinalization live \<Longrightarrow> gate_ok live'"
  by (simp add: gate_ok_def lifecycleBusy_def)

lemma gate_idle:
  "gate_ok live \<Longrightarrow> lv_authentications live' = lv_authentications live \<Longrightarrow>
     lv_authenticationsInFlight live' = lv_authenticationsInFlight live \<Longrightarrow> lv_running live' = None \<Longrightarrow> gate_ok live'"
  by (simp add: gate_ok_def)

lemma gate_end:
  assumes "gate_ok live" "i < length (lv_authentications live)"
  shows "gate_ok (endAuthentication i live)"
proof -
  have left: "lv_authenticationsInFlight live - 1 = length (remove_nth i (lv_authentications live))"
    using assms by (simp add: gate_ok_def)
  have shut: "lv_authentications live \<noteq> []" using assms(2) by auto
  have last: "lv_authenticationsInFlight live \<le> Suc 0 \<Longrightarrow> remove_nth i (lv_authentications live) = []"
    using left by (metis Suc_diff_le Suc_eq_plus1 diff_is_0_eq length_0_conv One_nat_def)
  show ?thesis
    using assms left shut last
    by (cases "lv_running live" rule: carried_out.cases)
      (auto simp: gate_ok_def endAuthentication_def resolveWaiters_def lifecycleBusy_def Let_def)
qed

lemma gate_stage: "gate_ok live \<Longrightarrow> gate_ok (live\<lparr>lv_authentications := (lv_authentications live)[i := task]\<rparr>)"
  by (simp add: gate_ok_def lifecycleBusy_def)

lemma gate_admit:
  assumes "gate_ok live" "i < length (lv_authentications live)"
  shows "gate_ok (admitIdentified config i ticket bootstrap now live)"
proof -
  have handled: "gate_ok (afterHandler sha256 now h db live)" for sha256 h db
    by (rule gate_ok_same [OF assms(1)]) simp_all
  then have failed: "gate_ok (onStoreError e (afterHandler sha256 now h db live))" for e sha256 h db
    by (rule gate_ok_same) simp_all
  show ?thesis
    using assms gate_end [OF assms] gate_end [OF handled] gate_end [OF failed] gate_stage [OF handled]
    by (auto simp: admitIdentified_def Let_def split: auth_stage.split option.split prod.split sum.split handler_error.split)
qed

lemma gate_reserve:
  assumes "gate_ok live" "i < length (lv_authentications live)"
  shows "gate_ok (reserveSession i live)"
proof -
  have "gate_ok (endAuthentication i live')" if "lv_authentications live' = lv_authentications live"
    "lv_authenticationsInFlight live' = lv_authenticationsInFlight live" "lv_running live' = lv_running live"
    "lv_starting live' = lv_starting live" "lv_pendingFinalization live' = lv_pendingFinalization live" for live' :: "'a live_room"
    using gate_end [OF gate_ok_same [OF assms(1) that]] assms(2) that(1) by simp
  then show ?thesis using assms(1) by (auto simp: reserveSession_def Let_def split: auth_stage.split)
qed

lemma gate_begin:
  assumes "gate_ok live" "lv_running live = None"
  shows "gate_ok (nextDelivery config live)"
proof (cases "lv_queue live")
  case (Cons q rest)
  show ?thesis
  proof (cases q)
    case (FromClient session raw)
    with assms Cons show ?thesis
      by (auto simp: nextDelivery_def beginCommand_def send_def gate_ok_def lifecycleBusy_def lifecycle_delivery_def Let_def
          split: option.split)
  qed (use assms Cons in \<open>simp add: nextDelivery_def gate_ok_def\<close>)
qed (use assms in \<open>simp add: nextDelivery_def\<close>)

lemma gate_answer:
  assumes "gate_ok live" "lv_running live = Some (RunningCommand d (AwaitAnswer answer))"
  shows "gate_ok (answerCommand d answer live)"
proof -
  have auths: "lv_authenticationsInFlight live = length (lv_authentications live)"
    and none: "lifecycle_delivery d \<Longrightarrow> lv_authentications live = [] \<and> lifecycleBusy live"
    using assms by (simp_all add: gate_ok_def)
  show ?thesis
  proof (cases answer)
    case (Inl e)
    have "gate_ok (commandFailed d e live)"
      by (rule gate_idle [OF assms(1)])
        (simp_all add: commandFailed_def send_def Let_def split: handler_error.split store_error.split)
    with Inl show ?thesis by (simp add: answerCommand_def)
  next
    case (Inr handled)
    show ?thesis
    proof (cases handled)
      case (HandledRejected rejection)
      have "gate_ok (commandRejected d rejection live)"
        by (rule gate_idle [OF assms(1)]) (simp_all add: commandRejected_def send_def)
      with Inr HandledRejected show ?thesis by (simp add: answerCommand_def)
    next
      case (HandledAccepted ack events again)
      have "gate_ok (commandAccepted d ack events again live)"
        using auths none
        by (auto simp: commandAccepted_def publish_def send_def gate_ok_def lifecycleBusy_def lifecycle_delivery_def Let_def
            split: option.split)
      with Inr HandledAccepted show ?thesis by (simp add: answerCommand_def)
    qed
  qed
qed

lemma gate_timer:
  assumes "gate_ok live"
  shows "gate_ok (answerTimer sha256 command answer now live)"
  by (rule gate_idle [OF assms]) (simp_all add: answerTimer_def Let_def split: sum.split handling.split)

lemma gate_confirm:
  assumes "gate_ok live"
  shows "gate_ok (finalizationReplied d ack events confirmed live)" "gate_ok (startReplied d ack events confirmed live)"
  by (auto simp: finalizationReplied_def startReplied_def apiFailed_def commandFailed_def publish_def send_def Let_def
      intro!: gate_idle [OF assms])

lemma gate_happens:
  assumes "gate_ok live"
  shows "gate_ok (happens config e live)"
  using assms
proof (induction config e live rule: happens.induct)
  case (1 config session options live)
  then show ?case
    by (cases "lv_running live" rule: carried_out.cases) (auto simp: beginAuthentication_def gate_ok_def lifecycleBusy_def)
next
  case (2 config i ticket bootstrap now live)
  then show ?case by (simp add: gate_admit)
next
  case (3 config i live)
  then show ?case by (simp add: gate_reserve)
next
  case (12 config live)
  then show ?case by (simp add: gate_begin)
next
  case (13 config live)
  then show ?case by (cases "lv_running live" rule: carried_out.cases) (auto simp: gate_ok_def lifecycleBusy_def split: bool.split)
next
  case (14 config now live)
  then show ?case
    by (cases "lv_running live" rule: carried_out.cases)
      (auto simp: gate_ok_def lifecycleBusy_def Let_def split: prod.split option.split)
next
  case (15 config now live)
  then show ?case by (simp add: gate_answer gate_timer split: option.split running.split command_stage.split)
next
  case (16 config confirmed live)
  then show ?case by (simp add: gate_confirm split: option.split running.split command_stage.split)
qed (auto simp: expireReservation_def beginJoin_def markPresence_def attachClient_def restoreOffline_def detachClient_def
    renewLease_def timerFires_def endSettlement_def retrySettlement_def disposeRoom_def Let_def
    intro: gate_ok_same split: option.splits prod.splits sum.splits join_stage.splits)

lemma gate_run: "gate_ok live \<Longrightarrow> gate_ok (run_room config es live)"
  unfolding run_room_def by (induction es arbitrary: live) (simp_all add: gate_happens)

lemma newRoom_idle [simp]:
  "lv_activeSessions (newRoom sha256 r db now) = []" "lv_sessions (newRoom sha256 r db now) = []"
  "lv_reservationTimers (newRoom sha256 r db now) = []" "lv_admitted (newRoom sha256 r db now) = []"
  "lv_userData (newRoom sha256 r db now) = []" "lv_connected (newRoom sha256 r db now) = []"
  "lv_joins (newRoom sha256 r db now) = []" "lv_authentications (newRoom sha256 r db now) = []"
  "lv_authenticationsInFlight (newRoom sha256 r db now) = 0" "lv_starting (newRoom sha256 r db now) = False"
  "lv_pendingStart (newRoom sha256 r db now) = None" "lv_pendingFinalization (newRoom sha256 r db now) = None"
  "lv_running (newRoom sha256 r db now) = None" "lv_queue (newRoom sha256 r db now) = []"
  "lv_broadcasts (newRoom sha256 r db now) = []" "lv_replies (newRoom sha256 r db now) = []"
  "lv_disposed (newRoom sha256 r db now) = False" "lv_settled (newRoom sha256 r db now) = False"
  "lv_handler (newRoom sha256 r db now) = od_handler r" "lv_tables (newRoom sha256 r db now) = db"
  "lv_lease (newRoom sha256 r db now) = od_lease r" "lv_view (newRoom sha256 r db now) = od_view r"
  "lv_gameId (newRoom sha256 r db now) = od_gameId r" "lv_roomId (newRoom sha256 r db now) = od_roomId r"
  by (simp_all add: newRoom_def Let_def)

lemma gate_new: "gate_ok (newRoom sha256 r db now)"
  by (simp add: gate_ok_def)

section \<open>A start that fails\<close>

text \<open>A start is awaited that nothing will ever confirm.\<close>

definition start_wedged :: "'raw live_room \<Rightarrow> bool" where
  "start_wedged live \<longleftrightarrow>
     lv_starting live \<and> lv_pendingStart live = None \<and> (\<forall>d stage. lv_running live \<noteq> Some (RunningCommand d stage))"

lemma wedged_same:
  "start_wedged live \<Longrightarrow> lv_starting live' = lv_starting live \<Longrightarrow> lv_pendingStart live' = lv_pendingStart live \<Longrightarrow>
     lv_running live' = lv_running live \<Longrightarrow> start_wedged live'"
  by (simp add: start_wedged_def)

lemma resolveWaiters_command:
  "resolveWaiters running = Some (RunningCommand d stage) \<Longrightarrow> \<exists>stage. running = Some (RunningCommand d stage)"
  by (cases running rule: carried_out.cases) (auto simp: resolveWaiters_def)

lemma endAuthentication_other [simp]:
  "lv_starting (endAuthentication i live) = lv_starting live" "lv_pendingStart (endAuthentication i live) = lv_pendingStart live"
  "lv_replies (endAuthentication i live) = lv_replies live" "lv_queue (endAuthentication i live) = lv_queue live"
  "lv_handler (endAuthentication i live) = lv_handler live" "lv_tables (endAuthentication i live) = lv_tables live"
  "lv_view (endAuthentication i live) = lv_view live" "lv_lease (endAuthentication i live) = lv_lease live"
  "lv_activeSessions (endAuthentication i live) = lv_activeSessions live" "lv_sessions (endAuthentication i live) = lv_sessions live"
  "lv_admitted (endAuthentication i live) = lv_admitted live" "lv_userData (endAuthentication i live) = lv_userData live"
  "lv_connected (endAuthentication i live) = lv_connected live" "lv_joins (endAuthentication i live) = lv_joins live"
  "lv_reservationTimers (endAuthentication i live) = lv_reservationTimers live"
  "lv_broadcasts (endAuthentication i live) = lv_broadcasts live"
  "lv_pendingFinalization (endAuthentication i live) = lv_pendingFinalization live"
  "lv_authentications (endAuthentication i live) = remove_nth i (lv_authentications live)"
  by (simp_all add: endAuthentication_def Let_def)

lemma wedged_end: "start_wedged live \<Longrightarrow> start_wedged (endAuthentication i live)"
  by (auto simp: start_wedged_def endAuthentication_def Let_def dest: resolveWaiters_command)

lemma delivery_request: "dl_starts (delivery_of contracts session who raw) \<Longrightarrow> dl_requestId (delivery_of contracts session who raw) \<noteq> None"
  by (auto simp: delivery_of_def Let_def)

lemma wedged_refuses:
  assumes "start_wedged live"
  shows "startBlocks live (delivery_of contracts session who raw)"
  using assms delivery_request [of contracts session who raw] by (auto simp: startBlocks_def start_wedged_def)

lemma wedged_next:
  assumes "start_wedged live" "lv_running live = None"
  shows "start_wedged (nextDelivery config live) \<and>
    (lv_replies (nextDelivery config live) = lv_replies live \<or>
     (\<exists>session n. lv_replies (nextDelivery config live) = lv_replies live @ [(session, SendError n)]))"
proof (cases "lv_queue live")
  case (Cons q rest)
  show ?thesis
  proof (cases q)
    case (FromClient session raw)
    have "start_wedged (live\<lparr>lv_queue := rest\<rparr>)" by (rule wedged_same [OF assms(1)]) simp_all
    from wedged_refuses [OF this] Cons FromClient assms show ?thesis
      by (auto simp: nextDelivery_def beginCommand_def send_def start_wedged_def Let_def split: option.split)
  qed (use assms Cons in \<open>simp add: nextDelivery_def start_wedged_def\<close>)
qed (use assms in \<open>simp add: nextDelivery_def\<close>)

text \<open>From then on the lobby stays as it is, and players get nothing but errors.\<close>

definition only_errors :: "(string \<times> room_reply) list \<Rightarrow> bool" where
  "only_errors replies \<longleftrightarrow> (\<forall>reply \<in> snd ` set replies. \<exists>n. reply = SendError n)"

definition frozen_since :: "'raw live_room \<Rightarrow> 'raw live_room \<Rightarrow> bool" where
  "frozen_since before live \<longleftrightarrow>
     start_wedged live \<and> lv_authentications live = [] \<and> lv_handler live = lv_handler before \<and>
     (\<exists>answers. lv_replies live = lv_replies before @ answers \<and> only_errors answers)"

lemma frozen_same:
  "frozen_since before live \<Longrightarrow> start_wedged live' \<Longrightarrow> lv_authentications live' = lv_authentications live \<Longrightarrow>
     lv_handler live' = lv_handler live \<Longrightarrow> lv_replies live' = lv_replies live \<Longrightarrow> frozen_since before live'"
  by (simp add: frozen_since_def)

lemma internal_in_lobby:
  assumes "handleInternalSerial opts raw clock h db = (answer, h', db')" "rh_state h = Lobby g"
  shows "h' = h"
  using assms by (auto simp: handleInternalSerial_def Let_def split: option.splits sum.splits)

lemma frozen_next:
  assumes "frozen_since before live" "lv_running live = None"
  shows "frozen_since before (nextDelivery config live)"
proof -
  have wedged: "start_wedged live" using assms(1) by (simp add: frozen_since_def)
  have "lv_authentications (nextDelivery config live) = lv_authentications live \<and> lv_handler (nextDelivery config live) = lv_handler live"
    by (auto simp: nextDelivery_def beginCommand_def send_def Let_def split: list.split queued.split option.split)
  moreover note wedged_next [OF wedged assms(2), of config]
  ultimately show ?thesis using assms(1) by (fastforce simp: frozen_since_def only_errors_def)
qed

lemma frozen_happens:
  assumes "frozen_since before live" "rh_state (lv_handler before) = Lobby g"
  shows "frozen_since before (happens config e live)"
  using assms
proof (induction config e live rule: happens.induct)
  case (1 config session options live)
  then show ?case by (simp add: frozen_since_def start_wedged_def beginAuthentication_def lifecycleBusy_def)
next
  case (2 config i ticket bootstrap now live)
  then show ?case by (simp add: frozen_since_def)
next
  case (3 config i live)
  then show ?case by (simp add: frozen_since_def)
next
  case (12 config live)
  then show ?case by (simp add: frozen_next)
next
  case (13 config live)
  then show ?case
    by (auto simp: frozen_since_def start_wedged_def split: option.split running.split command_stage.split bool.split)
next
  case (14 config now live)
  show ?case
  proof (cases "\<exists>command. lv_running live = Some (RunningTimer command None)")
    case True
    then obtain command where running: "lv_running live = Some (RunningTimer command None)" by blast
    let ?opts = "cf_options config"
    obtain answer h db where call: "handleInternalSerial ?opts (cf_encode config command) now (lv_handler live) (lv_tables live) = (answer, h, db)"
      by (metis surj_pair)
    with internal_in_lobby [OF call] 14 have "h = lv_handler live" by (simp add: frozen_since_def)
    with call running show ?thesis
      by (intro frozen_same [OF 14(1)]) (use 14(1) in \<open>simp_all add: frozen_since_def start_wedged_def\<close>)
  next
    case False
    with 14(1) have "happens config (HandlerRuns now) live = live"
      by (cases "lv_running live" rule: carried_out.cases) (auto simp: frozen_since_def start_wedged_def split: option.split)
    with 14(1) show ?thesis by simp
  qed
next
  case (15 config now live)
  show ?case
  proof (cases "\<exists>command answer. lv_running live = Some (RunningTimer command (Some answer))")
    case True
    then obtain command answer where running: "lv_running live = Some (RunningTimer command (Some answer))" by blast
    have "start_wedged (answerTimer (op_sha256 (cf_options config)) command answer now live)"
      using 15(1) by (auto simp: frozen_since_def start_wedged_def answerTimer_def Let_def split: sum.split handling.split)
    with running show ?thesis
      by (intro frozen_same [OF 15(1)]) (simp_all add: answerTimer_def Let_def split: sum.split handling.split)
  next
    case False
    with 15(1) have "happens config (HandlerAnswers now) live = live"
      by (cases "lv_running live" rule: carried_out.cases) (auto simp: frozen_since_def start_wedged_def split: option.split)
    with 15(1) show ?thesis by simp
  qed
next
  case (16 config confirmed live)
  then show ?case by (auto simp: frozen_since_def start_wedged_def split: option.split running.split command_stage.split)
qed (auto simp: expireReservation_def beginJoin_def markPresence_def attachClient_def restoreOffline_def detachClient_def
    renewLease_def timerFires_def endSettlement_def retrySettlement_def disposeRoom_def frozen_since_def start_wedged_def Let_def
    split: option.splits prod.splits sum.splits join_stage.splits)

lemma frozen_run:
  "frozen_since before live \<Longrightarrow> rh_state (lv_handler before) = Lobby g \<Longrightarrow> frozen_since before (run_room config es live)"
  unfolding run_room_def by (induction es arbitrary: live) (simp_all add: frozen_happens)

text \<open>How it comes about: the handler call of a start fails, and not because of the lease or the message.\<close>

lemma failed_start_freezes:
  assumes "gate_ok live" "lv_running live = Some (RunningCommand d (AwaitAnswer (Inl e)))" "dl_starts d"
    and "lv_starting live" "lv_pendingStart live = None" "e \<noteq> StoreError RoomLeaseUnavailable" "e \<noteq> InvalidRoomCommand"
  shows "frozen_since (happens config (HandlerAnswers now) live) (happens config (HandlerAnswers now) live)"
proof -
  have "lv_authentications live = []" using assms(1-3) by (simp add: gate_ok_def lifecycle_delivery_def)
  with assms(2-) show ?thesis
    by (auto simp: answerCommand_def commandFailed_def send_def frozen_since_def start_wedged_def only_errors_def Let_def
        split: handler_error.split store_error.split)
qed

end
