(* ===== verification/Room_Sessions.thy ===== *)
theory Room_Sessions
  imports Room_Gate
begin

text \<open>
  The connections of a room: a player has at most one attached client, provided that session identifiers are fresh and no
  reservation runs out while its client is joining.
\<close>

section \<open>Where a client can be\<close>

definition stations :: "'raw live_room \<Rightarrow> string list" where
  "stations live = map at_session (lv_authentications live) @ map fst (lv_admitted live) @
     map jt_session (lv_joins live) @ map fst (lv_userData live)"

text \<open>The transport makes up a new identifier for every connection; the timer of a reservation has not run out while its
  client waits for the presence and the API.\<close>

fun proper :: "'raw live_room \<Rightarrow> 'raw happening \<Rightarrow> bool" where
  "proper live (ClientAuthenticates session options) = (session \<notin> set (stations live))"
| "proper live (ReservationExpires i) =
     (i < length (lv_reservationTimers live) \<longrightarrow> snd (lv_reservationTimers live ! i) \<notin> jt_ref ` set (lv_joins live))"
| "proper live _ = True"

fun all_proper :: "'raw room_config \<Rightarrow> 'raw happening list \<Rightarrow> 'raw live_room \<Rightarrow> bool" where
  "all_proper config [] live = True"
| "all_proper config (e # es) live = (proper live e \<and> all_proper config es (happens config e live))"

abbreviation join_player :: "join_task \<Rightarrow> string" where
  "join_player task \<equiv> au_playerId (jt_who task)"

text \<open>A client whose connection is open and whose \<open>onJoin\<close> has returned.\<close>

definition attached :: "'raw live_room \<Rightarrow> string \<Rightarrow> string \<Rightarrow> bool" where
  "attached live player session \<longleftrightarrow>
     session \<in> set (lv_connected live) \<and> map_option au_playerId (map_of (lv_userData live) session) = Some player"

definition sessions_ok :: "'raw live_room \<Rightarrow> bool" where
  "sessions_ok live \<longleftrightarrow>
     distinct (stations live) \<and>
     (\<forall>player ref. map_of (lv_activeSessions live) player = Some ref \<longrightarrow> ref < length (lv_sessions live)) \<and>
     (\<forall>task \<in> set (lv_joins live). \<exists>held. session_at live (join_player task) = Some (jt_ref task, held) \<and>
        sn_clientSessionId held = jt_session task) \<and>
     (\<forall>player session. attached live player session \<longrightarrow>
        (\<exists>ref. session_at live player = Some (ref, \<lparr>sn_clientSessionId = session, sn_joined = True\<rparr>)))"

lemma sessions_okD:
  assumes "sessions_ok live"
  shows "distinct (stations live)" "map_of (lv_activeSessions live) player = Some ref \<Longrightarrow> ref < length (lv_sessions live)"
    "task \<in> set (lv_joins live) \<Longrightarrow> \<exists>held. session_at live (join_player task) = Some (jt_ref task, held) \<and>
       sn_clientSessionId held = jt_session task"
    "attached live player session \<Longrightarrow> \<exists>ref. session_at live player = Some (ref, \<lparr>sn_clientSessionId = session, sn_joined = True\<rparr>)"
  using assms by (auto simp: sessions_ok_def)

lemma session_at_same:
  "map_of (lv_activeSessions live') p = map_of (lv_activeSessions live) p \<Longrightarrow> lv_sessions live' = lv_sessions live \<Longrightarrow>
     session_at live' p = session_at live p"
  by (simp add: session_at_def split: option.split)

lemma sessions_okI:
  assumes "distinct (stations live)" "\<And>player ref. map_of (lv_activeSessions live) player = Some ref \<Longrightarrow> ref < length (lv_sessions live)"
    and "\<And>task. task \<in> set (lv_joins live) \<Longrightarrow> \<exists>held. session_at live (join_player task) = Some (jt_ref task, held) \<and>
       sn_clientSessionId held = jt_session task"
    and "\<And>player session. attached live player session \<Longrightarrow>
       \<exists>ref. session_at live player = Some (ref, \<lparr>sn_clientSessionId = session, sn_joined = True\<rparr>)"
  shows "sessions_ok live"
  using assms by (auto simp: sessions_ok_def)

lemma attached_once:
  assumes "sessions_ok live" "attached live player s" "attached live player s'"
  shows "s = s'"
  using sessions_okD(4) [OF assms(1,2)] sessions_okD(4) [OF assms(1,3)] by auto

lemma attached_counts:
  assumes "sessions_ok live" "attached live player s"
  shows "hasAttachedClient live"
proof -
  obtain ref where ref: "session_at live player = Some (ref, \<lparr>sn_clientSessionId = s, sn_joined = True\<rparr>)"
    using sessions_okD(4) [OF assms] by blast
  then have "(player, ref) \<in> set (lv_activeSessions live)" by (auto simp: session_at_def map_of_SomeD split: option.splits)
  with ref show ?thesis unfolding hasAttachedClient_def list_ex_iff by force
qed

subsection \<open>Moving between stations\<close>

lemma mset_remove_nth: "i < length xs \<Longrightarrow> mset xs = add_mset (xs ! i) (mset (remove_nth i xs))"
  unfolding remove_nth_def by (metis id_take_nth_drop mset.simps(2) mset_append union_mset_add_mset_right)

lemma mset_removeAll: "mset (removeAll k xs) \<subseteq># mset xs"
  by (induction xs) (auto intro: subset_mset.trans)

lemma mset_delete_key:
  assumes "map_of al k = Some v"
  shows "add_mset k (mset (map fst (AList.delete k al))) \<subseteq># mset (map fst al)"
proof -
  have "k \<in> set xs \<Longrightarrow> add_mset k (mset (removeAll k xs)) \<subseteq># mset xs" for xs
    by (induction xs) (auto simp: mset_removeAll add_mset_commute [of k])
  moreover have "k \<in> set (map fst al)" using assms by (force dest: map_of_SomeD)
  moreover have "map fst (AList.delete k al) = removeAll k (map fst al)" by (simp add: delete_keys)
  ultimately show ?thesis by metis
qed

lemma mset_update_key: "mset (map fst (AList.update k v al)) \<subseteq># add_mset k (mset (map fst al))"
  by (simp add: update_keys)

lemma distinct_submultiset: "distinct xs \<Longrightarrow> mset ys \<subseteq># mset xs \<Longrightarrow> distinct ys"
  unfolding distinct_count_atmost_1
  by (metis count_eq_zero_iff le_zero_eq mset_subset_eq_count One_nat_def le_Suc_eq set_mset_mset)

lemma remove_nth_subset: "x \<in> set (remove_nth i xs) \<Longrightarrow> x \<in> set xs"
  using set_remove_nth by fast

text \<open>What the invariant reads.\<close>

lemma sessions_keep:
  assumes "sessions_ok live" "mset (stations live') \<subseteq># mset (stations live)" "set (lv_joins live') \<subseteq> set (lv_joins live)"
    and "\<And>player ref. map_of (lv_activeSessions live') player = Some ref \<Longrightarrow> ref < length (lv_sessions live')"
    and "\<And>player found. session_at live player = Some found \<Longrightarrow> session_at live' player = Some found"
    and "\<And>player session. attached live' player session \<Longrightarrow> attached live player session"
  shows "sessions_ok live'"
proof (rule sessions_okI)
  show "distinct (stations live')" by (rule distinct_submultiset [OF sessions_okD(1) [OF assms(1)] assms(2)])
  show "\<exists>held. session_at live' (join_player task) = Some (jt_ref task, held) \<and> sn_clientSessionId held = jt_session task"
    if "task \<in> set (lv_joins live')" for task
    using sessions_okD(3) [OF assms(1), of task] assms(3,5) that by blast
  show "\<exists>ref. session_at live' player = Some (ref, \<lparr>sn_clientSessionId = session, sn_joined = True\<rparr>)"
    if "attached live' player session" for player session
    using sessions_okD(4) [OF assms(1) assms(6) [OF that]] assms(5) by blast
qed (rule assms(4))

lemma sessions_ok_same:
  assumes "sessions_ok live" "mset (stations live') \<subseteq># mset (stations live)"
    and "set (lv_joins live') \<subseteq> set (lv_joins live)" "lv_userData live' = lv_userData live" "lv_connected live' = lv_connected live"
    and "lv_activeSessions live' = lv_activeSessions live" "lv_sessions live' = lv_sessions live"
  shows "sessions_ok live'"
  by (rule sessions_keep [OF assms(1-3)])
    (use assms(4-) sessions_okD(2) [OF assms(1)] in \<open>auto simp: attached_def session_at_def split: option.splits\<close>)

lemma sessions_same:
  "sessions_ok live \<Longrightarrow> lv_authentications live' = lv_authentications live \<Longrightarrow> lv_admitted live' = lv_admitted live \<Longrightarrow>
     lv_joins live' = lv_joins live \<Longrightarrow> lv_userData live' = lv_userData live \<Longrightarrow> lv_connected live' = lv_connected live \<Longrightarrow>
     lv_activeSessions live' = lv_activeSessions live \<Longrightarrow> lv_sessions live' = lv_sessions live \<Longrightarrow> sessions_ok live'"
  by (rule sessions_ok_same) (simp_all add: stations_def)

lemma sessions_end:
  assumes "sessions_ok live" "i < length (lv_authentications live)"
  shows "sessions_ok (endAuthentication i live)"
  by (rule sessions_ok_same [OF assms(1)]) (simp_all add: stations_def mset_remove_nth [OF assms(2)])

lemma sessions_stage:
  assumes "sessions_ok live" "i < length (lv_authentications live)"
  shows "sessions_ok (live\<lparr>lv_authentications := (lv_authentications live)[i := (lv_authentications live ! i)\<lparr>at_stage := stage\<rparr>]\<rparr>)"
proof -
  have "map at_session ((lv_authentications live)[i := (lv_authentications live ! i)\<lparr>at_stage := stage\<rparr>]) =
      map at_session (lv_authentications live)"
    using assms(2) by (intro nth_equalityI) (auto simp: nth_list_update)
  then show ?thesis by (intro sessions_ok_same [OF assms(1)]) (simp_all add: stations_def)
qed

lemma sessions_admit:
  assumes "sessions_ok live" "i < length (lv_authentications live)"
  shows "sessions_ok (admitIdentified config i ticket bootstrap now live)"
proof -
  have handled: "sessions_ok (afterHandler sha256 now h db live)" for sha256 h db
    by (rule sessions_same [OF assms(1)]) simp_all
  then have failed: "sessions_ok (onStoreError e (afterHandler sha256 now h db live))" for e sha256 h db
    by (rule sessions_same) simp_all
  show ?thesis
    using assms sessions_end [OF assms] sessions_end [OF handled] sessions_end [OF failed] sessions_stage [OF handled]
    by (auto simp: admitIdentified_def Let_def split: auth_stage.split option.split prod.split sum.split handler_error.split)
qed

section \<open>The steps\<close>

lemma sessions_reserve:
  assumes "sessions_ok live" "i < length (lv_authentications live)"
  shows "sessions_ok (reserveSession i live)"
proof (cases "at_stage (lv_authentications live ! i)")
  case (Admitted who events)
  let ?out = "live\<lparr>lv_broadcasts := lv_broadcasts live @ events\<rparr>"
  let ?player = "au_playerId who" and ?session = "at_session (lv_authentications live ! i)" and ?ref = "length (lv_sessions live)"
  have out: "sessions_ok ?out" by (rule sessions_same [OF assms(1)]) simp_all
  show ?thesis
  proof (cases "map_of (lv_activeSessions live) ?player")
    case None
    let ?new = "endAuthentication i (?out\<lparr>lv_sessions := lv_sessions live @ [\<lparr>sn_clientSessionId = ?session, sn_joined = False\<rparr>],
      lv_activeSessions := AList.update ?player ?ref (lv_activeSessions live),
      lv_reservationTimers := lv_reservationTimers live @ [(?player, ?ref)],
      lv_admitted := AList.update ?session who (lv_admitted live)\<rparr>)"
    have "mset (stations ?new) \<subseteq># mset (stations live)"
      using mset_update_key [of ?session who "lv_admitted live"]
      by (simp add: stations_def mset_remove_nth [OF assms(2)] subset_mset.add_mono flip: add_mset_add_single)
    then have "sessions_ok ?new"
      using None sessions_okD(2) [OF assms(1)]
      by (intro sessions_keep [OF assms(1)])
        (auto simp: attached_def session_at_def update_conv nth_append less_Suc_eq split: option.splits if_splits)
    then show ?thesis using Admitted None by (simp add: reserveSession_def Let_def)
  next
    case (Some ref)
    with sessions_end [OF out, of i] assms(2) Admitted show ?thesis by (simp add: reserveSession_def)
  qed
qed (use assms in \<open>simp add: reserveSession_def\<close>)

lemma sessions_expire:
  assumes "sessions_ok live" "i < length (lv_reservationTimers live)" "proper live (ReservationExpires i)"
  shows "sessions_ok (expireReservation i live)"
proof -
  obtain player ref where timer: "lv_reservationTimers live ! i = (player, ref)" by fastforce
  let ?out = "live\<lparr>lv_reservationTimers := remove_nth i (lv_reservationTimers live)\<rparr>"
  have out: "sessions_ok ?out" by (rule sessions_same [OF assms(1)]) simp_all
  show ?thesis
  proof (cases "map_of (lv_activeSessions live) player = Some ref \<and> \<not> sn_joined (lv_sessions live ! ref)")
    case True
    let ?new = "?out\<lparr>lv_activeSessions := AList.delete player (lv_activeSessions live)\<rparr>"
    have others: "session_at ?new p = session_at live p" if "p \<noteq> player" for p
      by (rule session_at_same) (simp_all add: delete_conv' that)
    have mine: "session_at live player = Some (ref, lv_sessions live ! ref)" using True by (simp add: session_at_def)
    have "sessions_ok ?new"
    proof (rule sessions_okI)
      show "distinct (stations ?new)" using sessions_okD(1) [OF out] by (simp add: stations_def)
      show "r < length (lv_sessions ?new)" if "map_of (lv_activeSessions ?new) p = Some r" for p r
        using that sessions_okD(2) [OF assms(1), of p r] by (simp add: delete_conv' split: if_splits)
      show "\<exists>held. session_at ?new (join_player task) = Some (jt_ref task, held) \<and> sn_clientSessionId held = jt_session task"
        if "task \<in> set (lv_joins ?new)" for task
        using that sessions_okD(3) [OF assms(1), of task] others [of "join_player task"] mine assms(2,3) timer
        by (cases "join_player task = player") force+
      show "\<exists>r. session_at ?new p = Some (r, \<lparr>sn_clientSessionId = session, sn_joined = True\<rparr>)"
        if "attached ?new p session" for p session
        using that sessions_okD(4) [OF assms(1), of p session] others [of p] mine True
        by (cases "p = player") (auto simp: attached_def)
    qed
    then show ?thesis using True timer by (simp add: expireReservation_def)
  qed (use out timer in \<open>auto simp: expireReservation_def\<close>)
qed

lemma sessions_join:
  assumes "sessions_ok live"
  shows "sessions_ok (beginJoin session live)"
proof (cases "map_of (lv_admitted live) session")
  case (Some who)
  let ?out = "live\<lparr>lv_admitted := AList.delete session (lv_admitted live)\<rparr>"
  have moved: "add_mset session (mset (stations ?out)) \<subseteq># mset (stations live)"
    using mset_delete_key [OF Some] by (simp add: stations_def)
  have out: "sessions_ok ?out"
    by (rule sessions_ok_same [OF assms]) (use moved in \<open>simp_all add: mset_subset_eq_insertD subset_mset.less_imp_le\<close>)
  show ?thesis
  proof (cases "\<exists>ref held. session_at live (au_playerId who) = Some (ref, held) \<and> sn_clientSessionId held = session")
    case True
    then obtain ref held where at: "session_at live (au_playerId who) = Some (ref, held)" "sn_clientSessionId held = session" by blast
    let ?new = "?out\<lparr>lv_connected := session # lv_connected live,
      lv_joins := lv_joins live @ [\<lparr>jt_session = session, jt_who = who, jt_ref = ref, jt_stage = Connecting\<rparr>]\<rparr>"
    have "mset (stations ?new) = add_mset session (mset (stations ?out))" by (simp add: stations_def)
    then have apart: "distinct (stations ?new)" using moved distinct_submultiset [OF sessions_okD(1) [OF assms]] by simp
    have same: "session_at ?new p = session_at live p" for p by (rule session_at_same) simp_all
    have "map_of (lv_userData live) session = None" using apart by (auto simp: stations_def map_of_eq_None_iff)
    then have "attached ?new p s \<Longrightarrow> attached live p s" for p s by (auto simp: attached_def)
    note attached = this
    have "sessions_ok ?new"
    proof (rule sessions_okI)
      show "distinct (stations ?new)" by (rule apart)
      show "r < length (lv_sessions ?new)" if "map_of (lv_activeSessions ?new) p = Some r" for p r
        using that sessions_okD(2) [OF assms, of p r] by simp
      show "\<exists>held. session_at ?new (join_player task) = Some (jt_ref task, held) \<and> sn_clientSessionId held = jt_session task"
        if "task \<in> set (lv_joins ?new)" for task
        using that sessions_okD(3) [OF assms, of task] at unfolding same by auto
      show "\<exists>r. session_at ?new p = Some (r, \<lparr>sn_clientSessionId = s, sn_joined = True\<rparr>)" if "attached ?new p s" for p s
        using sessions_okD(4) [OF assms attached [OF that]] unfolding same .
    qed
    then show ?thesis using Some at by (simp add: beginJoin_def session_at_def split: option.splits)
  qed (use out Some in \<open>auto simp: beginJoin_def session_at_def Let_def split: option.splits\<close>)
qed (use assms in \<open>simp add: beginJoin_def\<close>)

lemma sessions_mark:
  assumes "sessions_ok live" "i < length (lv_joins live)"
  shows "sessions_ok (markPresence i now live)"
proof -
  have dropped: "sessions_ok (live\<lparr>lv_tables := db, lv_joins := remove_nth i (lv_joins live)\<rparr>)" for db
    by (rule sessions_ok_same [OF assms(1)]) (simp_all add: stations_def mset_remove_nth [OF assms(2)] set_remove_nth)
  have refused: "sessions_ok (onStoreError e (live\<lparr>lv_tables := db, lv_joins := remove_nth i (lv_joins live)\<rparr>))" for db e
    by (rule sessions_same [OF dropped]) simp_all
  have marked: "sessions_ok (live\<lparr>lv_tables := db, lv_joins := (lv_joins live)[i := (lv_joins live ! i)\<lparr>jt_stage := stage\<rparr>]\<rparr>)"
    (is "sessions_ok ?new") for db stage
  proof (rule sessions_okI)
    have "map jt_session (lv_joins ?new) = map jt_session (lv_joins live)"
      using assms(2) by (intro nth_equalityI) (auto simp: nth_list_update)
    with sessions_okD(1) [OF assms(1)] show "distinct (stations ?new)" by (simp add: stations_def)
    have same: "session_at ?new p = session_at live p" for p by (rule session_at_same) simp_all
    show "r < length (lv_sessions ?new)" if "map_of (lv_activeSessions ?new) p = Some r" for p r
      using that sessions_okD(2) [OF assms(1), of p r] by simp
    show "\<exists>held. session_at ?new (join_player task) = Some (jt_ref task, held) \<and> sn_clientSessionId held = jt_session task"
      if "task \<in> set (lv_joins ?new)" for task
    proof -
      define old where "old = (if task \<in> set (lv_joins live) then task else lv_joins live ! i)"
      have "task \<in> set (lv_joins live) \<or> task = (lv_joins live ! i)\<lparr>jt_stage := stage\<rparr>"
        using that set_update_subset_insert [of "lv_joins live" i "(lv_joins live ! i)\<lparr>jt_stage := stage\<rparr>"] by auto
      then have "old \<in> set (lv_joins live)" "jt_who task = jt_who old" "jt_ref task = jt_ref old" "jt_session task = jt_session old"
        using assms(2) by (auto simp: old_def)
      with sessions_okD(3) [OF assms(1), of old] show ?thesis unfolding same by simp
    qed
    show "\<exists>r. session_at ?new p = Some (r, \<lparr>sn_clientSessionId = s, sn_joined = True\<rparr>)" if "attached ?new p s" for p s
      using sessions_okD(4) [OF assms(1), of p s] that unfolding same by (simp add: attached_def)
  qed
  from refused marked show ?thesis by (auto simp: markPresence_def split: prod.split sum.split)
qed

lemma sessions_attach:
  assumes "sessions_ok live" "i < length (lv_joins live)"
  shows "sessions_ok (attachClient i bootstrap now live)"
proof -
  let ?task = "lv_joins live ! i" and ?out = "live\<lparr>lv_joins := remove_nth i (lv_joins live)\<rparr>"
  let ?s = "jt_session ?task" and ?p = "join_player ?task" and ?ref = "jt_ref ?task"
  have task: "?task \<in> set (lv_joins live)" using assms(2) by simp
  have out: "sessions_ok ?out"
    by (rule sessions_ok_same [OF assms(1)]) (simp_all add: stations_def mset_remove_nth [OF assms(2)] set_remove_nth)
  have restored: "sessions_ok (restoreOffline previous now ?out)" for previous
    by (rule sessions_same [OF out]) (simp_all add: restoreOffline_def)
  let ?new = "?out\<lparr>lv_sessions := (lv_sessions live)[?ref := (lv_sessions live ! ?ref)\<lparr>sn_joined := True\<rparr>],
    lv_userData := AList.update ?s (jt_who ?task) (lv_userData live)\<rparr>"
  obtain held where held: "session_at live ?p = Some (?ref, held)" "sn_clientSessionId held = ?s"
    using sessions_okD(3) [OF assms(1) task] by blast
  then have ref: "map_of (lv_activeSessions live) ?p = Some ?ref" "held = lv_sessions live ! ?ref"
    by (auto simp: session_at_def split: option.splits)
  have at: "session_at ?new p = (case session_at live p of None \<Rightarrow> None
      | Some (r, known) \<Rightarrow> Some (r, if r = ?ref then known\<lparr>sn_joined := True\<rparr> else known))" for p
    using sessions_okD(2) [OF assms(1), of p] by (auto simp: session_at_def nth_list_update split: option.split)
  have "sessions_ok ?new"
  proof (rule sessions_okI)
    have "mset (stations ?new) \<subseteq># mset (stations live)"
      using mset_update_key [of ?s "jt_who ?task" "lv_userData live"]
      by (simp add: stations_def mset_remove_nth [OF assms(2)])
    then show "distinct (stations ?new)" by (rule distinct_submultiset [OF sessions_okD(1) [OF assms(1)]])
    show "r < length (lv_sessions ?new)" if "map_of (lv_activeSessions ?new) p = Some r" for p r
      using that sessions_okD(2) [OF assms(1), of p r] by simp
    show "\<exists>held. session_at ?new (join_player other) = Some (jt_ref other, held) \<and> sn_clientSessionId held = jt_session other"
      if "other \<in> set (lv_joins ?new)" for other
    proof -
      from that have "other \<in> set (lv_joins live)" by (simp add: remove_nth_subset)
      with sessions_okD(3) [OF assms(1), of other] show ?thesis unfolding at by fastforce
    qed
    show "\<exists>r. session_at ?new p = Some (r, \<lparr>sn_clientSessionId = s, sn_joined = True\<rparr>)" if "attached ?new p s" for p s
    proof (cases "s = ?s")
      case True
      with that have "p = ?p" by (simp add: attached_def update_conv)
      with held True show ?thesis unfolding at by (cases held) auto
    next
      case False
      with that have "attached live p s" by (simp add: attached_def update_conv)
      with sessions_okD(4) [OF assms(1)] show ?thesis unfolding at by fastforce
    qed
  qed
  with out restored show ?thesis by (simp add: attachClient_def Let_def split: join_stage.split)
qed

lemma sessions_detach:
  assumes "sessions_ok live"
  shows "sessions_ok (detachClient session now live)"
proof -
  let ?out = "live\<lparr>lv_connected := filter (\<lambda>s. s \<noteq> session) (lv_connected live)\<rparr>"
  have left: "attached ?out p s \<longleftrightarrow> attached live p s \<and> s \<noteq> session" for p s by (auto simp: attached_def)
  have out: "sessions_ok ?out"
  proof (rule sessions_okI)
    show "distinct (stations ?out)" using sessions_okD(1) [OF assms] by (simp add: stations_def)
    have same: "session_at ?out p = session_at live p" for p by (rule session_at_same) simp_all
    show "r < length (lv_sessions ?out)" if "map_of (lv_activeSessions ?out) p = Some r" for p r
      using that sessions_okD(2) [OF assms, of p r] by simp
    show "\<exists>held. session_at ?out (join_player task) = Some (jt_ref task, held) \<and> sn_clientSessionId held = jt_session task"
      if "task \<in> set (lv_joins ?out)" for task
      using that sessions_okD(3) [OF assms, of task] unfolding same by simp
    show "\<exists>r. session_at ?out p = Some (r, \<lparr>sn_clientSessionId = s, sn_joined = True\<rparr>)" if "attached ?out p s" for p s
      using that sessions_okD(4) [OF assms, of p s] unfolding same left by simp
  qed
  show ?thesis
  proof (cases "\<exists>who ref held. map_of (lv_userData live) session = Some who \<and>
      session_at live (au_playerId who) = Some (ref, held) \<and> sn_clientSessionId held = session")
    case True
    then obtain who ref held where at: "map_of (lv_userData live) session = Some who"
      "session_at live (au_playerId who) = Some (ref, held)" "sn_clientSessionId held = session" by blast
    let ?p = "au_playerId who"
    let ?new = "?out\<lparr>lv_activeSessions := AList.delete ?p (lv_activeSessions live)\<rparr>"
    have others: "session_at ?new p = session_at live p" if "p \<noteq> ?p" for p
      by (rule session_at_same) (simp_all add: delete_conv' that)
    have "session \<in> fst ` set (lv_userData live)" using at(1) by (force dest: map_of_SomeD)
    then have away: "session \<notin> jt_session ` set (lv_joins live)" using sessions_okD(1) [OF assms] by (auto simp: stations_def)
    have new: "sessions_ok ?new"
    proof (rule sessions_okI)
      show "distinct (stations ?new)" using sessions_okD(1) [OF assms] by (simp add: stations_def)
      show "r < length (lv_sessions ?new)" if "map_of (lv_activeSessions ?new) p = Some r" for p r
        using that sessions_okD(2) [OF assms, of p r] by (simp add: delete_conv' split: if_splits)
      show "\<exists>held. session_at ?new (join_player task) = Some (jt_ref task, held) \<and> sn_clientSessionId held = jt_session task"
        if "task \<in> set (lv_joins ?new)" for task
        using that sessions_okD(3) [OF assms, of task] others [of "join_player task"] at away
        by (cases "join_player task = ?p") auto
      show "\<exists>r. session_at ?new p = Some (r, \<lparr>sn_clientSessionId = s, sn_joined = True\<rparr>)" if "attached ?new p s" for p s
      proof -
        from that have s: "attached live p s" "s \<noteq> session" by (auto simp: attached_def)
        with sessions_okD(4) [OF assms s(1)] at others [of p] show ?thesis by (cases "p = ?p") auto
      qed
    qed
    have stored: "sessions_ok (?new\<lparr>lv_tables := db\<rparr>)" for db by (rule sessions_same [OF new]) simp_all
    have "sessions_ok (onStoreError e (?new\<lparr>lv_tables := db\<rparr>))" for e db by (rule sessions_same [OF stored]) simp_all
    with at new stored show ?thesis
      by (auto simp: detachClient_def session_at_def Let_def split: option.splits prod.split sum.split)
  qed (use out in \<open>auto simp: detachClient_def session_at_def Let_def split: option.splits\<close>)
qed

lemma sessions_begin:
  assumes "sessions_ok live" "proper live (ClientAuthenticates session options)"
  shows "sessions_ok (beginAuthentication session options live)"
proof -
  let ?new = "live\<lparr>lv_authenticationsInFlight := Suc (lv_authenticationsInFlight live),
    lv_authentications := lv_authentications live @ [\<lparr>at_session = session, at_stage = Identifying options\<rparr>]\<rparr>"
  have same: "session_at ?new p = session_at live p" for p by (rule session_at_same) simp_all
  have "attached ?new = attached live" by (simp add: fun_eq_iff attached_def)
  moreover have "distinct (stations ?new)" using assms sessions_okD(1) [OF assms(1)] by (auto simp: stations_def)
  ultimately have "sessions_ok ?new" using assms(1) by (simp add: sessions_ok_def same)
  with assms(1) show ?thesis by (simp add: beginAuthentication_def)
qed

lemma sessions_happens:
  assumes "sessions_ok live" "proper live e"
  shows "sessions_ok (happens config e live)"
proof (cases e)
  case (DeliveryBegins)
  show ?thesis
    using assms(1)
    by (auto simp: DeliveryBegins nextDelivery_def beginCommand_def send_def Let_def intro: sessions_same
        split: list.split queued.split option.split)
next
  case (HandlerAnswers now)
  show ?thesis
    by (rule sessions_same [OF assms(1)])
      (simp_all add: HandlerAnswers answerCommand_def answerTimer_def commandFailed_def commandRejected_def commandAccepted_def
        publish_def send_def Let_def
        split: option.split running.split command_stage.split sum.split handling.split handler_error.split store_error.split)
next
  case (ApiConfirms confirmed)
  show ?thesis
    by (rule sessions_same [OF assms(1)])
      (simp_all add: ApiConfirms finalizationReplied_def startReplied_def apiFailed_def commandFailed_def publish_def send_def Let_def
        split: option.split running.split command_stage.split)
next
  case (HandlerRuns now)
  show ?thesis
    by (rule sessions_same [OF assms(1)])
      (simp_all add: HandlerRuns Let_def split: option.split running.split command_stage.split prod.split)
qed (use assms in \<open>auto simp: sessions_begin sessions_admit sessions_reserve sessions_expire sessions_join sessions_mark
      sessions_attach sessions_detach renewLease_def timerFires_def endSettlement_def retrySettlement_def disposeRoom_def Let_def
    intro: sessions_same split: option.split running.split command_stage.split bool.split prod.split sum.split\<close>)

lemma sessions_run:
  "sessions_ok live \<Longrightarrow> all_proper config es live \<Longrightarrow> sessions_ok (run_room config es live)"
  unfolding run_room_def by (induction es arbitrary: live) (simp_all add: sessions_happens)

lemma sessions_new: "sessions_ok (newRoom sha256 r db now)"
  by (simp add: sessions_ok_def stations_def attached_def)

end
