(* ===== verification/Event_Log.thy ===== *)
theory Event_Log
  imports Room_Run
begin

text \<open>
  The event log of a room: the events of an answer are the ones its commit appended, under identifiers the log had not
  used, and no other call of the handler touches the log.
\<close>

section \<open>The log\<close>

definition log_grows :: "string \<Rightarrow> 'e event_envelope list \<Rightarrow> 'e database \<Rightarrow> 'e database \<Rightarrow> bool" where
  "log_grows room events db db' \<longleftrightarrow>
     (\<forall>name entry. db_events db name = Some entry \<longrightarrow> db_events db' name = Some entry) \<and>
     distinct (map ee_eventId events) \<and>
     (\<forall>event \<in> set events. db_events db (ee_eventId event) = None \<and> db_events db' (ee_eventId event) = Some (room, event))"

lemma log_same [simp]: "log_grows room [] db db"
  by (simp add: log_grows_def)

lemma log_forgets: "log_grows room events db db' \<Longrightarrow> log_grows room [] db db'"
  by (simp add: log_grows_def)

lemma insertEvents_grows: "insertEvents room events db = Inr db' \<Longrightarrow> log_grows room events db db'"
proof (induction events arbitrary: db)
  case (Cons event events)
  let ?db = "db\<lparr>db_events := (db_events db)(ee_eventId event := Some (room, event))\<rparr>"
  from Cons.prems have new: "db_events db (ee_eventId event) = None"
    by (cases "db_events db (ee_eventId event)") simp_all
  from Cons.prems have rest: "insertEvents room events ?db = Inr db'" by (simp split: if_splits)
  note grows = Cons.IH [OF rest, unfolded log_grows_def]
  from grows have "db_events ?db (ee_eventId e) = None" if "e \<in> set events" for e using that by blast
  then have "db_events db (ee_eventId e) = None" "ee_eventId e \<noteq> ee_eventId event" if "e \<in> set events" for e
    using that by (fastforce split: if_splits)+
  moreover from this(2) have "ee_eventId event \<notin> ee_eventId ` set events" by force
  moreover have "db_events db' (ee_eventId event) = Some (room, event)" using grows by simp
  moreover have "db_events db' name = Some entry" if "db_events db name = Some entry" for name entry
  proof -
    have "db_events ?db name = Some entry" using that new by auto
    with grows show ?thesis by blast
  qed
  ultimately show ?case using grows new by (auto simp: log_grows_def)
qed simp

lemma updateCheckpoint_log: "updateCheckpoint sha256 lease v now db = Some db0 \<Longrightarrow> db_events db0 = db_events db"
  by (auto simp: updateCheckpoint_def put_checkpoint_def split: option.splits if_splits)

lemma commit_grows:
  assumes "commit sha256 checks (quiet_hooks b) lease v now db = (Inr r, db')"
  shows "log_grows (ls_roomId lease) (if cr_duplicate r then [] else cv_events v) db db'"
  using commit_transaction(1) [OF assms]
proof (cases rule: commitTransaction_effect)
  case (first row)
  with commit_transaction(1) [OF assms] obtain db0 db1 db2 db3 where up: "updateCheckpoint sha256 lease v now db = Some db0"
    and ins: "insertEvents (ls_roomId lease) (cv_events v) db0 = Inr db1"
    and rest: "insertProof sha256 lease v db1 = Inr db2" "insertCommand sha256 lease v db2 = Inr db3"
      "insertFinalization checks lease v db3 = Inr db'"
    by (auto simp: commitTransaction_def Let_def then_do_Inr split: option.splits if_splits)
  from rest have "db_events db' = db_events db1"
    using insertProof_frame insertCommand_frame insertFinalization_frame by fastforce
  with insertEvents_grows [OF ins] updateCheckpoint_log [OF up] first(1) show ?thesis by (simp add: log_grows_def)
qed simp

section \<open>The answers of the handler\<close>

fun answer_events :: "handler_error + handling \<Rightarrow> room_envelope list" where
  "answer_events (Inr (HandledAccepted ack events again)) = events"
| "answer_events _ = []"

fun answer_fresh :: "handler_error + handling \<Rightarrow> bool" where
  "answer_fresh (Inr (HandledAccepted ack events True)) = (events = [])"
| "answer_fresh _ = True"

lemma refuse_events [simp]:
  "answer_events (refuse contracts request version err) = []" "answer_fresh (refuse contracts request version err)"
  "answer_events (invalidCommand contracts raw version) = []" "answer_fresh (invalidCommand contracts raw version)"
  by (simp_all add: invalidCommand_def refuse_def Let_def split: option.split)

lemma commitDecision_log:
  assumes "commitDecision (server_options lease contracts sha256 hmac buffer checks hook throws) h db v next now = (answer, h', db')"
  shows "log_grows (ls_roomId lease) (answer_events answer) db db' \<and> answer_fresh answer"
proof -
  obtain r db1 where r: "commit sha256 checks (quiet_hooks hook) lease v now db = (r, db1)" by fastforce
  show ?thesis
  proof (cases r)
    case (Inl e)
    with r commit_fails [of sha256 checks hook lease v now db e db1] assms show ?thesis
      by (auto simp: commitDecision_def server_options_def)
  next
    case (Inr result)
    with commit_grows r have grows: "log_grows (ls_roomId lease) (if cr_duplicate result then [] else cv_events v) db db1" by metis
    from assms r Inr grows log_forgets [OF grows] show ?thesis
      by (auto simp: commitDecision_def server_options_def Let_def split: if_splits)
  qed
qed

lemma answered_gameplay:
  "decideGameplay opts who rq a source now = Answered answer \<Longrightarrow> answer_events answer = [] \<and> answer_fresh answer"
  by (auto simp: decideGameplay_def Let_def split: room_body.splits sum.splits transition_result.splits)

lemma answered_lifecycle:
  "decideLifecycle opts who rq g source now = Answered answer \<Longrightarrow> answer_events answer = [] \<and> answer_fresh answer"
  by (auto simp: decideLifecycle_def Let_def split: room_body.splits sum.splits transition_result.splits option.splits)

lemma handleSerial_log:
  assumes "handleSerial (server_options lease contracts sha256 hmac buffer checks hook throws) who raw clock h db = (answer, h', db')"
  shows "log_grows (ls_roomId lease) (answer_events answer) db db' \<and> answer_fresh answer"
  using assms
  by (auto simp: handleSerial_def Let_def dest: commitDecision_log answered_gameplay answered_lifecycle
      split: option.splits sum.splits decision.splits room_state.splits)

lemma handleInternalSerial_log:
  assumes "handleInternalSerial (server_options lease contracts sha256 hmac buffer checks hook throws) raw clock h db = (answer, h', db')"
  shows "log_grows (ls_roomId lease) (answer_events answer) db db' \<and> answer_fresh answer"
  using assms
  by (auto simp: handleInternalSerial_def Let_def dest: commitDecision_log
      split: option.splits sum.splits transition_result.splits room_state.splits)

lemma ensureAdmitted_log:
  assumes "ensureAdmittedPlayerSerial (server_options lease contracts sha256 hmac buffer checks hook throws) who joined_at clock h db =
    (answer, h', db')"
  shows "log_grows (ls_roomId lease) (case answer of Inl _ \<Rightarrow> [] | Inr events \<Rightarrow> events) db db'"
  using assms
  by (auto simp: ensureAdmittedPlayerSerial_def server_options_def commit_value_of_def Let_def
      dest!: commit_grows commit_fails intro: log_forgets
      split: option.splits sum.splits prod.splits if_splits)

end
