(* ===== verification/Room_Live.thy ===== *)
theory Room_Live
  imports Room_Sessions Event_Log
begin

text \<open>
  What a live room keeps whatever happens to it: it shows and stores the state it has in memory, it settles a finished
  game, and it publishes only committed events, each at most once. The transactions of other servers are not interleaved
  here; the theory of the store says what they may do.
\<close>

section \<open>The other transactions\<close>

text \<open>The transactions of leases and presence leave checkpoints and events alone.\<close>

definition rows_alone :: "'e database \<Rightarrow> 'e database \<Rightarrow> bool" where
  "rows_alone db db' \<longleftrightarrow> db_checkpoints db' = db_checkpoints db \<and> db_events db' = db_events db"

lemma rows_alone_ran:
  "rows_alone db (snd (withTransaction db (renew repo lease now)))"
  "rows_alone db (snd (withTransaction db (release lease now)))"
  "rows_alone db (snd (withTransaction db (markConnected lease now)))"
  "rows_alone db (snd (withTransaction db (markAllOffline lease now)))"
  by (simp_all add: rows_alone_def withTransaction_def renew_def release_def markConnected_def markAllOffline_def Let_def)

lemma rows_alone_trans: "rows_alone db db' \<Longrightarrow> rows_alone db' db'' \<Longrightarrow> rows_alone db db''"
  by (simp add: rows_alone_def)

lemma rows_alone_refl [simp]: "rows_alone db db"
  by (simp add: rows_alone_def)

lemma rows_alone_result:
  "withTransaction db (renew repo lease now) = (r, db') \<Longrightarrow> rows_alone db db'"
  "withTransaction db (markConnected lease now) = (r2, db') \<Longrightarrow> rows_alone db db'"
  "withTransaction db (markAllOffline lease now) = (r3, db') \<Longrightarrow> rows_alone db db'"
  using rows_alone_ran by (metis snd_conv)+

lemma in_step_alone: "in_step storedAt lease h db \<Longrightarrow> rows_alone db db' \<Longrightarrow> in_step storedAt lease h db'"
  by (simp add: in_step_def storedAt_def rows_alone_def)

section \<open>What the steps do to the tables and the handler\<close>

text \<open>Outside the calls of the handler, only the rows of leases and presence change.\<close>

definition undisturbed :: "'raw live_room \<Rightarrow> 'raw live_room \<Rightarrow> bool" where
  "undisturbed live live' \<longleftrightarrow>
     lv_handler live' = lv_handler live \<and> lv_view live' = lv_view live \<and> rows_alone (lv_tables live) (lv_tables live')"

lemma undisturbed_same:
  "lv_handler live' = lv_handler live \<Longrightarrow> lv_view live' = lv_view live \<Longrightarrow> lv_tables live' = lv_tables live \<Longrightarrow> undisturbed live live'"
  by (simp add: undisturbed_def)

lemma expire_undisturbed [simp]: "undisturbed live (expireReservation i live)"
  by (rule undisturbed_same) (simp_all add: expireReservation_def Let_def split: prod.split)

lemma begin_undisturbed [simp]: "undisturbed live (beginAuthentication session options live)"
  by (rule undisturbed_same) (simp_all add: beginAuthentication_def)

lemma reserve_undisturbed [simp]: "undisturbed live (reserveSession i live)"
  by (rule undisturbed_same) (simp_all add: reserveSession_def Let_def split: auth_stage.split)

lemma join_undisturbed [simp]: "undisturbed live (beginJoin session live)"
  by (rule undisturbed_same) (simp_all add: beginJoin_def Let_def split: option.split)

lemma mark_undisturbed [simp]: "undisturbed live (markPresence i now live)"
  by (auto simp: undisturbed_def markPresence_def dest: rows_alone_result split: prod.split sum.split)

lemma restore_undisturbed [simp]: "undisturbed live (restoreOffline previous now live)"
  by (simp add: undisturbed_def restoreOffline_def rows_alone_ran)

lemma attach_undisturbed [simp]: "undisturbed live (attachClient i bootstrap now live)"
proof -
  have "undisturbed live (restoreOffline previous now (live\<lparr>lv_joins := rest\<rparr>))" for previous rest
    using restore_undisturbed [of "live\<lparr>lv_joins := rest\<rparr>" previous now] by (simp add: undisturbed_def)
  then show ?thesis by (auto simp: attachClient_def Let_def intro: undisturbed_same split: join_stage.split)
qed

lemma detach_undisturbed [simp]: "undisturbed live (detachClient session now live)"
  by (auto simp: undisturbed_def detachClient_def Let_def dest: rows_alone_result split: option.split prod.split sum.split)

lemma renew_undisturbed [simp]: "undisturbed live (renewLease repo now live)"
  by (auto simp: undisturbed_def renewLease_def dest: rows_alone_result split: prod.split sum.split)

lemma dispose_undisturbed [simp]: "undisturbed live (disposeRoom now live)"
  by (auto simp: undisturbed_def disposeRoom_def Let_def rows_alone_ran split: room_state.split aggregate.split
      intro: rows_alone_trans [OF rows_alone_ran(4) rows_alone_ran(2)])

lemma answer_undisturbed [simp]:
  "undisturbed live (answerCommand d answer live)" "undisturbed live (answerTimer sha256 command timed now live)"
  "undisturbed live (finalizationReplied d ack events confirmed live)" "undisturbed live (startReplied d ack events confirmed live)"
  by (rule undisturbed_same;
      simp add: answerCommand_def answerTimer_def finalizationReplied_def startReplied_def apiFailed_def commandFailed_def
        commandRejected_def commandAccepted_def publish_def send_def Let_def
        split: option.split sum.split handling.split handler_error.split store_error.split)+

lemma next_undisturbed [simp]: "undisturbed live (nextDelivery config live)"
  by (rule undisturbed_same)
    (simp_all add: nextDelivery_def beginCommand_def send_def Let_def split: list.split queued.split option.split)

lemma settle_undisturbed [simp]:
  "undisturbed live (endSettlement reply live)" "undisturbed live (retrySettlement sha256 now live)"
  "undisturbed live (timerFires sha256 now live)"
  by (rule undisturbed_same; simp add: endSettlement_def retrySettlement_def timerFires_def Let_def split: option.split)+

lemma end_undisturbed [simp]: "undisturbed live (endAuthentication i live)"
  by (rule undisturbed_same) simp_all

text \<open>What settlement is about.\<close>

definition settlement_part :: "'raw live_room \<Rightarrow> (bool \<times> bool \<times> bool) \<times> settlement_request list \<times> (string \<times> string) \<times> bool" where
  "settlement_part live = ((lv_settlementInFlight live, lv_settlementRetryTimer live, lv_settled live), lv_settlements live,
     (lv_gameId live, lv_roomId live), lv_disposed live)"

lemma lease_settlement [simp]:
  "settlement_part (endAuthentication i live) = settlement_part live"
  "settlement_part (handleLeaseLoss live) = settlement_part live" "settlement_part (onStoreError e live) = settlement_part live"
  "settlement_part (live\<lparr>lv_running := r\<rparr>) = settlement_part live"
  "settlement_part (live\<lparr>lv_authentications := a\<rparr>) = settlement_part live"
  "settlement_part (live\<lparr>lv_queue := q\<rparr>) = settlement_part live"
  "settlement_part (live\<lparr>lv_tables := db\<rparr>) = settlement_part live"
  "settlement_part (live\<lparr>lv_joins := j\<rparr>) = settlement_part live"
  by (simp_all add: settlement_part_def endAuthentication_def Let_def)

lemma sessions_settlement [simp]:
  "settlement_part (beginAuthentication session options live) = settlement_part live"
  "settlement_part (expireReservation i live) = settlement_part live"
  "settlement_part (beginJoin session live) = settlement_part live"
  "settlement_part (restoreOffline previous now live) = settlement_part live"
  by (simp_all add: settlement_part_def beginAuthentication_def expireReservation_def beginJoin_def restoreOffline_def Let_def
      split: prod.split option.split)

lemma reserve_settlement [simp]: "settlement_part (reserveSession i live) = settlement_part live"
  by (auto simp: reserveSession_def Let_def split: auth_stage.split) (simp_all add: settlement_part_def)

lemma presence_settlement [simp]:
  "settlement_part (markPresence i now live) = settlement_part live"
  "settlement_part (attachClient i bootstrap now live) = settlement_part live"
  by (simp_all add: markPresence_def attachClient_def Let_def split: prod.split sum.split join_stage.split)
    (simp_all add: settlement_part_def)

lemma detach_settlement [simp]: "settlement_part (detachClient session now live) = settlement_part live"
  by (simp add: settlement_part_def detachClient_def Let_def split: option.split prod.split sum.split)

lemma renew_settlement [simp]: "settlement_part (renewLease repo now live) = settlement_part live"
  by (simp add: settlement_part_def renewLease_def split: prod.split sum.split)

lemma delivery_settlement [simp]:
  "settlement_part (nextDelivery config live) = settlement_part live" "settlement_part (timerFires sha256 now live) = settlement_part live"
  by (simp_all add: settlement_part_def nextDelivery_def beginCommand_def send_def timerFires_def Let_def
      split: list.split queued.split option.split)

lemma answer_settlement [simp]:
  "settlement_part (answerCommand d answer live) = settlement_part live"
  "settlement_part (answerTimer sha256 command timed now live) = settlement_part live"
  "settlement_part (finalizationReplied d ack events confirmed live) = settlement_part live"
  "settlement_part (startReplied d ack events confirmed live) = settlement_part live"
  by (simp_all add: settlement_part_def answerCommand_def answerTimer_def finalizationReplied_def startReplied_def apiFailed_def
      commandFailed_def commandRejected_def commandAccepted_def publish_def send_def Let_def
      split: option.split sum.split handling.split handler_error.split store_error.split)

fun settles :: "'raw happening \<Rightarrow> bool" where
  "settles (SettlementReplied reply) = True"
| "settles (SettlementRetried now) = True"
| "settles (RoomDisposed now) = True"
| "settles _ = False"

text \<open>A call of the handler: an outcome of the call, and the callback if there is a new state.\<close>

definition handler_called :: "('raw, room_event database) room_options \<Rightarrow> 'raw live_room \<Rightarrow> 'raw live_room \<Rightarrow> bool" where
  "handler_called opts live live' \<longleftrightarrow>
     call_outcome opts (lv_handler live) (lv_tables live) (lv_handler live') (lv_tables live') \<and>
     (\<exists>now. lv_view live' = lv_view (afterHandler (op_sha256 opts) now (lv_handler live') (lv_tables live') live) \<and>
       settlement_part live' = settlement_part (afterHandler (op_sha256 opts) now (lv_handler live') (lv_tables live') live))"

lemma admit_cases:
  "undisturbed live (admitIdentified config i ticket bootstrap now live) \<and>
     settlement_part (admitIdentified config i ticket bootstrap now live) = settlement_part live \<or>
   handler_called (cf_options config) live (admitIdentified config i ticket bootstrap now live)"
proof -
  have "handler_called (cf_options config) live live'"
    if "ensureAdmittedPlayerSerial (cf_options config) who joined_at now (lv_handler live) (lv_tables live) = (reply, h, db)"
      "lv_handler live' = h" "lv_tables live' = db" "lv_view live' = lv_view (afterHandler (op_sha256 (cf_options config)) now h db live)"
      "settlement_part live' = settlement_part (afterHandler (op_sha256 (cf_options config)) now h db live)"
    for who joined_at reply h db live'
    using that ensureAdmitted_outcome [OF that(1)] by (auto simp: handler_called_def)
  then show ?thesis
    by (auto simp: admitIdentified_def Let_def undisturbed_same
        split: auth_stage.split option.split prod.split sum.split handler_error.split)
qed

lemma happens_cases:
  "undisturbed live (happens config e live) \<and> (settles e \<or> settlement_part (happens config e live) = settlement_part live) \<or>
   handler_called (cf_options config) live (happens config e live)"
proof (cases e)
  case (HandlerRuns now)
  have "handler_called (cf_options config) live live'"
    if "handleSerial (cf_options config) who raw now (lv_handler live) (lv_tables live) = (reply, h, db)"
      "lv_handler live' = h" "lv_tables live' = db" "lv_view live' = lv_view (afterHandler (op_sha256 (cf_options config)) now h db live)"
      "settlement_part live' = settlement_part (afterHandler (op_sha256 (cf_options config)) now h db live)"
    for who raw reply h db live'
    using that handleSerial_outcome [OF that(1)] by (auto simp: handler_called_def)
  moreover have "handler_called (cf_options config) live live'"
    if "handleInternalSerial (cf_options config) raw now (lv_handler live) (lv_tables live) = (reply, h, db)"
      "lv_handler live' = h" "lv_tables live' = db" "lv_view live' = lv_view (afterHandler (op_sha256 (cf_options config)) now h db live)"
      "settlement_part live' = settlement_part (afterHandler (op_sha256 (cf_options config)) now h db live)"
    for raw reply h db live'
    using that handleInternalSerial_outcome [OF that(1)] by (auto simp: handler_called_def)
  ultimately show ?thesis
    by (auto simp: HandlerRuns Let_def undisturbed_same split: option.split running.split command_stage.split prod.split)
qed (auto simp: admit_cases undisturbed_same split: option.split running.split command_stage.split bool.split)

section \<open>The room shows and stores what it has in memory\<close>

definition live_ok :: "buffer_codec \<Rightarrow> room_lease \<Rightarrow> 'raw live_room \<Rightarrow> bool" where
  "live_ok buffer lease live \<longleftrightarrow>
     in_step storedAt lease (lv_handler live) (lv_tables live) \<and> room_sound buffer (rh_state (lv_handler live)) \<and>
     toRoomPublicState (rh_state (lv_handler live)) = Some (lv_view live)"

lemma live_undisturbed: "live_ok buffer lease live \<Longrightarrow> undisturbed live live' \<Longrightarrow> live_ok buffer lease live'"
  by (auto simp: live_ok_def undisturbed_def intro: in_step_alone)

lemma live_called:
  assumes "live_ok buffer lease live"
    and "handler_called (server_options lease contracts sha256 hmac buffer checks hook throws) live live'"
  shows "live_ok buffer lease live'"
proof -
  let ?opts = "server_options lease contracts sha256 hmac buffer checks hook throws"
  from assms(2) obtain now where call: "call_outcome ?opts (lv_handler live) (lv_tables live) (lv_handler live') (lv_tables live')"
    and view: "lv_view live' = lv_view (afterHandler (op_sha256 ?opts) now (lv_handler live') (lv_tables live') live)"
    by (auto simp: handler_called_def)
  have kept: "room_sound buffer (rh_state (lv_handler live'))" "in_step storedAt lease (lv_handler live') (lv_tables live')"
    using server.outcome_keeps [OF call] assms(1) by (simp_all add: live_ok_def)
  then have "\<exists>v. toRoomPublicState (rh_state (lv_handler live')) = Some v"
    using room_view_exists [of "rh_state (lv_handler live')"] by (auto simp: room_sound_def in_step_def)
  with kept view assms(1) show ?thesis
    by (auto simp: live_ok_def afterHandler_def onCommitted_def Let_def)
qed

lemma live_run:
  assumes "live_ok buffer lease live" "cf_options config = server_options lease contracts sha256 hmac buffer checks hook throws"
  shows "live_ok buffer lease (run_room config es live)"
  using assms(1) unfolding run_room_def
proof (induction es arbitrary: live)
  case (Cons e es)
  from happens_cases [of live config e] assms(2) Cons.prems have "live_ok buffer lease (happens config e live)"
    by (auto intro: live_undisturbed live_called)
  with Cons.IH show ?case by simp
qed simp

section \<open>A finished game is settled\<close>

definition is_finished :: "room_state \<Rightarrow> bool" where
  "is_finished state \<longleftrightarrow> (\<exists>f. state = Playing (Finished f))"

lemma finished_stays:
  assumes "call_outcome opts h db h' db'" "is_finished (rh_state h)"
  shows "h' = h"
  using assms
proof cases
  case (outcome_moved v now r)
  from outcome_moved(1) assms(2) show ?thesis
    by (auto simp: is_finished_def elim!: room_move.cases elim: transitionGameplay_Accepted)
qed simp_all

text \<open>The request that settles the game the room has in memory.\<close>

definition settlement_of :: "digest \<Rightarrow> 'raw live_room \<Rightarrow> settlement_request option" where
  "settlement_of sha256 live =
     (case rh_state (lv_handler live) of
        Playing (Finished f) \<Rightarrow> map_option (\<lambda>doc. \<lparr>sr_roomId = lv_roomId live, sr_terminalStateVersion = gs_stateVersion f,
          sr_checkpointChecksum = hex_text (sha256 doc),
          sr_idempotencyKey = settlementIdempotencyKey sha256 (lv_gameId live) (lv_roomId live)\<rparr>)
          (serializeGameplaySnapshot (Finished f))
      | _ \<Rightarrow> None)"

definition settling :: "'raw live_room \<Rightarrow> bool" where
  "settling live \<longleftrightarrow> lv_settlementInFlight live \<or> lv_settlementRetryTimer live \<or> lv_settled live"

definition settlement_ok :: "digest \<Rightarrow> 'raw live_room \<Rightarrow> bool" where
  "settlement_ok sha256 live \<longleftrightarrow>
     (is_finished (rh_state (lv_handler live)) \<longrightarrow> \<not> lv_disposed live \<longrightarrow> settling live) \<and>
     (settling live \<longrightarrow> is_finished (rh_state (lv_handler live))) \<and>
     \<not> (lv_settlementInFlight live \<and> lv_settlementRetryTimer live) \<and>
     (\<forall>request \<in> set (lv_settlements live). settlement_of sha256 live = Some request)"

lemma settlement_same:
  "settlement_ok sha256 live \<Longrightarrow> lv_handler live' = lv_handler live \<Longrightarrow> settlement_part live' = settlement_part live \<Longrightarrow>
     settlement_ok sha256 live'"
  by (auto simp: settlement_ok_def settlement_part_def settling_def settlement_of_def cong: room_state.case_cong aggregate.case_cong)

lemma schedule_settles:
  assumes "state = rh_state (lv_handler live)" "\<not> lv_settlementInFlight live" "\<not> lv_settlementRetryTimer live"
    and "lv_settled live \<Longrightarrow> is_finished (rh_state (lv_handler live))"
    and "\<forall>request \<in> set (lv_settlements live). settlement_of sha256 live = Some request"
  shows "settlement_ok sha256 (scheduleSettlement sha256 state now live)"
  using assms
  by (auto simp: settlement_ok_def settling_def settlement_of_def is_finished_def scheduleSettlement_def settleFinishedState_def
      scheduleFinishedDisposal_def Let_def split: room_state.split aggregate.split option.split)

lemma settlement_called:
  assumes "settlement_ok sha256 live" "live_ok buffer lease live"
    and "handler_called (server_options lease contracts sha256 hmac buffer checks hook throws) live live'"
  shows "settlement_ok sha256 live'"
proof -
  let ?opts = "server_options lease contracts sha256 hmac buffer checks hook throws"
  let ?called = "live\<lparr>lv_handler := lv_handler live', lv_tables := lv_tables live'\<rparr>"
  obtain view where view: "toRoomPublicState (rh_state (lv_handler live')) = Some view"
    using live_called [OF assms(2,3)] by (auto simp: live_ok_def)
  from assms(3) obtain now where call: "call_outcome ?opts (lv_handler live) (lv_tables live) (lv_handler live') (lv_tables live')"
    and part: "settlement_part live' = settlement_part (afterHandler sha256 now (lv_handler live') (lv_tables live') live)"
    by (auto simp: handler_called_def server_options_def)
  show ?thesis
  proof (cases "lv_handler live' = lv_handler live")
    case True
    with part have "settlement_part live' = settlement_part live"
      by (simp add: afterHandler_def settlement_part_def)
    with settlement_same [OF assms(1) True] show ?thesis by simp
  next
    case False
    with finished_stays [OF call] have open_game: "\<not> is_finished (rh_state (lv_handler live))" by blast
    then have "\<not> settling live" "lv_settlements live = []"
      using assms(1) by (auto simp: settlement_ok_def settlement_of_def is_finished_def neq_Nil_conv
          split: room_state.splits aggregate.splits)
    let ?after = "?called\<lparr>lv_view := view, lv_clock := synchronize sha256 now (rh_state (lv_handler live')) (lv_clock ?called)\<rparr>"
    have "settlement_ok sha256 (scheduleSettlement sha256 (rh_state (lv_handler ?after)) now ?after)"
      by (rule schedule_settles) (use \<open>\<not> settling live\<close> \<open>lv_settlements live = []\<close> in \<open>simp_all add: settling_def\<close>)
    then have "settlement_ok sha256 (afterHandler sha256 now (lv_handler live') (lv_tables live') live)"
      using False view by (simp add: afterHandler_def onCommitted_def)
    from settlement_same [OF this _ part] show ?thesis by simp
  qed
qed

lemma settlement_replied:
  assumes "settlement_ok sha256 live" "lv_settlementInFlight live"
  shows "settlement_ok sha256 (endSettlement reply live)"
proof -
  have "settlement_of sha256 (endSettlement reply live) = settlement_of sha256 live"
    by (simp add: settlement_of_def endSettlement_def Let_def cong: room_state.case_cong aggregate.case_cong)
  with assms show ?thesis by (auto simp: settlement_ok_def settling_def endSettlement_def Let_def)
qed

lemma settlement_retried:
  assumes "settlement_ok sha256 live" "lv_settlementRetryTimer live"
  shows "settlement_ok sha256 (retrySettlement sha256 now live)"
proof -
  let ?out = "live\<lparr>lv_settlementRetryTimer := False\<rparr>"
  have "settlement_of sha256 ?out = settlement_of sha256 live"
    by (simp add: settlement_of_def cong: room_state.case_cong aggregate.case_cong)
  then have "settlement_ok sha256 (scheduleSettlement sha256 (rh_state (lv_handler ?out)) now ?out)"
    using assms by (intro schedule_settles) (auto simp: settlement_ok_def settling_def)
  then show ?thesis by (simp add: retrySettlement_def)
qed

lemma settlement_disposed:
  assumes "settlement_ok sha256 live"
  shows "settlement_ok sha256 (disposeRoom now live)"
proof -
  have "settlement_of sha256 (disposeRoom now live) = settlement_of sha256 live"
    by (simp add: settlement_of_def disposeRoom_def Let_def cong: room_state.case_cong aggregate.case_cong)
  with assms show ?thesis by (auto simp: settlement_ok_def settling_def disposeRoom_def Let_def)
qed

lemma happens_settlement:
  assumes "settlement_ok sha256 live" "live_ok buffer lease live"
    and "cf_options config = server_options lease contracts sha256 hmac buffer checks hook throws"
  shows "settlement_ok sha256 (happens config e live)"
proof -
  have sha: "op_sha256 (cf_options config) = sha256" by (simp add: assms(3) server_options_def)
  from happens_cases [of live config e] show ?thesis
  proof
    assume "handler_called (cf_options config) live (happens config e live)"
    with settlement_called [OF assms(1,2)] assms(3) show ?thesis by simp
  next
    assume calm: "undisturbed live (happens config e live) \<and>
      (settles e \<or> settlement_part (happens config e live) = settlement_part live)"
    show ?thesis
    proof (cases "settles e")
      case True
      with settlement_replied [OF assms(1)] settlement_retried [OF assms(1)] settlement_disposed [OF assms(1)] assms(1) sha
      show ?thesis by (cases e) simp_all
    next
      case False
      with calm show ?thesis by (intro settlement_same [OF assms(1)]) (simp_all add: undisturbed_def)
    qed
  qed
qed

lemma settlement_run:
  assumes "settlement_ok sha256 live" "live_ok buffer lease live"
    and "cf_options config = server_options lease contracts sha256 hmac buffer checks hook throws"
  shows "settlement_ok sha256 (run_room config es live)"
  using assms(1,2) unfolding run_room_def
proof (induction es arbitrary: live)
  case (Cons e es)
  from live_run [OF Cons.prems(2) assms(3), of "[e]"] have "live_ok buffer lease (happens config e live)"
    by (simp add: run_room_def)
  with Cons.IH happens_settlement [OF Cons.prems assms(3)] show ?case by simp
qed simp

section \<open>From the opening on\<close>

lemma settlement_new: "settlement_ok sha256 (newRoom sha256 r db now)"
  unfolding newRoom_def Let_def by (rule schedule_settles) simp_all

lemma live_new:
  assumes "in_step storedAt (od_lease r) (od_handler r) db" "room_sound buffer (rh_state (od_handler r))"
    and "toRoomPublicState (rh_state (od_handler r)) = Some (od_view r)"
  shows "live_ok buffer (od_lease r) (newRoom sha256 r db now)"
  using assms by (simp add: live_ok_def)

end
