(* ===== verification/Room_Publishing.thy ===== *)
theory Room_Publishing
  imports Room_Live
begin

text \<open>
  The events a room sends to its players: every one is in the event log under its identifier, and none is sent twice. The
  events of a start or a finalization wait for the API, those of a command for its answer, those of an admission for the
  end of the authentication; a replay of a command finds the events that wait, and nothing else.
\<close>

section \<open>Events that wait\<close>

fun running_events :: "'raw running option \<Rightarrow> room_envelope list" where
  "running_events (Some (RunningCommand d (AwaitAnswer answer))) = answer_events answer"
| "running_events (Some (RunningTimer command (Some answer))) = answer_events answer"
| "running_events _ = []"

fun task_events :: "auth_stage \<Rightarrow> room_envelope list" where
  "task_events (Admitted who events) = events"
| "task_events (Identifying options) = []"

definition pending_events :: "'raw live_room \<Rightarrow> room_envelope list" where
  "pending_events live = (case lv_pendingFinalization live of None \<Rightarrow> [] | Some pending \<Rightarrow> pf_events pending) @
     (case lv_pendingStart live of None \<Rightarrow> [] | Some (request, events) \<Rightarrow> events)"

text \<open>Every event that was sent or may still be sent.\<close>

definition held_events :: "'raw live_room \<Rightarrow> room_envelope multiset" where
  "held_events live = mset (lv_broadcasts live) + mset (pending_events live) + mset (running_events (lv_running live)) +
     (\<Sum>task \<in># mset (lv_authentications live). mset (task_events (at_stage task)))"

text \<open>The events of a command that waits for the API are the ones the room keeps for it, or none.\<close>

fun stage_backed :: "pending_finalization option \<Rightarrow> (string \<times> room_envelope list) option \<Rightarrow> 'raw running option \<Rightarrow> bool" where
  "stage_backed finalization start (Some (RunningCommand d (AwaitFinalization ack events))) =
     (events = [] \<or> map_option pf_events finalization = Some events)"
| "stage_backed finalization start (Some (RunningCommand d (AwaitStart ack events))) =
     (events = [] \<or> map_option snd start = Some events)"
| "stage_backed finalization start (Some (RunningCommand d (AwaitAnswer answer))) = answer_fresh answer"
| "stage_backed finalization start running = True"

definition logged_once :: "string \<Rightarrow> room_event database \<Rightarrow> room_envelope multiset \<Rightarrow> bool" where
  "logged_once room db events \<longleftrightarrow>
     (\<forall>name. count (image_mset ee_eventId events) name \<le> 1) \<and>
     (\<forall>event \<in># events. db_events db (ee_eventId event) = Some (room, event))"

definition publishing_ok :: "string \<Rightarrow> 'raw live_room \<Rightarrow> bool" where
  "publishing_ok room live \<longleftrightarrow>
     logged_once room (lv_tables live) (held_events live) \<and>
     stage_backed (lv_pendingFinalization live) (lv_pendingStart live) (lv_running live)"

section \<open>Logged events\<close>

lemma logged_less:
  assumes "logged_once room db events" "few \<subseteq># events" "db_events db' = db_events db"
  shows "logged_once room db' few"
proof -
  have "image_mset ee_eventId few \<subseteq># image_mset ee_eventId events" using assms(2) by (rule image_mset_subseteq_mono)
  then have "count (image_mset ee_eventId few) name \<le> count (image_mset ee_eventId events) name" for name
    by (rule mset_subset_eq_count)
  moreover have "event \<in># events" if "event \<in># few" for event using assms(2) that by (rule mset_subset_eqD)
  ultimately show ?thesis using assms(1,3) unfolding logged_once_def by (metis le_trans)
qed

lemma logged_more:
  assumes "logged_once room db events" "log_grows room new db db'"
  shows "logged_once room db' (events + mset new)"
proof -
  have "count (image_mset ee_eventId (events + mset new)) name \<le> 1" for name
  proof (cases "name \<in> ee_eventId ` set new")
    case True
    then obtain fresh where fresh: "fresh \<in> set new" "name = ee_eventId fresh" by blast
    then have "db_events db name = None" using assms(2) by (simp add: log_grows_def)
    then have "name \<notin> ee_eventId ` set_mset events" using assms(1) by (force simp: logged_once_def)
    then have "count (image_mset ee_eventId events) name = 0" by (simp add: count_eq_zero_iff)
    moreover have "count (mset (map ee_eventId new)) name \<le> 1"
      using assms(2) by (simp add: log_grows_def distinct_count_atmost_1)
    ultimately show ?thesis by simp
  next
    case False
    then have "count (image_mset ee_eventId (mset new)) name = 0" by (simp add: count_eq_zero_iff)
    then show ?thesis using assms(1) by (simp add: logged_once_def)
  qed
  moreover have "db_events db' (ee_eventId event) = Some (room, event)" if "event \<in># events + mset new" for event
    using that assms by (auto simp: logged_once_def log_grows_def)
  ultimately show ?thesis by (simp add: logged_once_def)
qed

lemma distinct_by_count: "(\<And>x. count (mset xs) x \<le> 1) \<Longrightarrow> distinct xs"
  unfolding distinct_count_atmost_1 by (metis One_nat_def count_mset_0_iff le_Suc_eq le_zero_eq)

lemma logged_members: "logged_once room db (mset events) \<Longrightarrow> distinct (map ee_eventId events)"
  by (rule distinct_by_count) (simp add: logged_once_def)

section \<open>The steps\<close>

text \<open>A step that sends nothing new: what it holds was held, and the log is the same.\<close>

lemma publishing_less:
  assumes "publishing_ok room live" "held_events live' \<subseteq># held_events live"
    and "db_events (lv_tables live') = db_events (lv_tables live)"
    and "stage_backed (lv_pendingFinalization live') (lv_pendingStart live') (lv_running live')"
  shows "publishing_ok room live'"
  using assms logged_less unfolding publishing_ok_def by blast

lemma publishing_same:
  assumes "publishing_ok room live" "undisturbed live live'" "lv_broadcasts live' = lv_broadcasts live"
    and "lv_pendingFinalization live' = lv_pendingFinalization live" "lv_pendingStart live' = lv_pendingStart live"
    and "lv_running live' = lv_running live"
    and "(\<Sum>task \<in># mset (lv_authentications live'). mset (task_events (at_stage task))) \<subseteq>#
      (\<Sum>task \<in># mset (lv_authentications live). mset (task_events (at_stage task)))"
  shows "publishing_ok room live'"
  by (rule publishing_less [OF assms(1)])
    (use assms in \<open>simp_all add: held_events_def pending_events_def publishing_ok_def undisturbed_def rows_alone_def\<close>)

lemma resolved_running [simp]:
  "running_events (resolveWaiters running) = running_events running"
  "stage_backed finalization start (resolveWaiters running) = stage_backed finalization start running"
  by (cases running rule: carried_out.cases; simp add: resolveWaiters_def)+

lemma publishing_end:
  assumes "publishing_ok room live" "i < length (lv_authentications live)"
  shows "publishing_ok room (endAuthentication i live)"
proof (rule publishing_less [OF assms(1)])
  have run: "running_events (lv_running (endAuthentication i live)) = running_events (lv_running live)"
    "stage_backed finalization start (lv_running (endAuthentication i live)) = stage_backed finalization start (lv_running live)"
    for finalization start
    by (simp_all add: endAuthentication_def Let_def)
  then show "held_events (endAuthentication i live) \<subseteq># held_events live"
    by (simp add: held_events_def pending_events_def mset_remove_nth [OF assms(2)])
  show "stage_backed (lv_pendingFinalization (endAuthentication i live)) (lv_pendingStart (endAuthentication i live))
      (lv_running (endAuthentication i live))"
    using assms(1) run by (simp add: publishing_ok_def)
qed simp

lemma publishing_reserve:
  assumes "publishing_ok room live" "i < length (lv_authentications live)"
  shows "publishing_ok room (reserveSession i live)"
proof (cases "at_stage (lv_authentications live ! i)")
  case (Admitted who events)
  have run: "running_events (lv_running (endAuthentication i live')) = running_events (lv_running live')"
    "stage_backed finalization start (lv_running (endAuthentication i live')) = stage_backed finalization start (lv_running live')"
    for finalization start and live' :: "'a live_room"
    by (simp_all add: endAuthentication_def Let_def)
  show ?thesis
  proof (rule publishing_less [OF assms(1)])
    show "held_events (reserveSession i live) \<subseteq># held_events live"
      using Admitted by (simp add: reserveSession_def held_events_def pending_events_def run mset_remove_nth [OF assms(2)] Let_def)
    show "stage_backed (lv_pendingFinalization (reserveSession i live)) (lv_pendingStart (reserveSession i live))
        (lv_running (reserveSession i live))"
      using Admitted assms(1) by (simp add: reserveSession_def run publishing_ok_def Let_def)
    show "db_events (lv_tables (reserveSession i live)) = db_events (lv_tables live)"
      using Admitted by (simp add: reserveSession_def Let_def)
  qed
qed (use assms in \<open>simp add: reserveSession_def\<close>)

text \<open>A step that took a log entry for every new event.\<close>

lemma publishing_more:
  assumes "publishing_ok room live" "log_grows room new (lv_tables live) (lv_tables live')"
    and "held_events live' \<subseteq># held_events live + mset new"
    and "stage_backed (lv_pendingFinalization live') (lv_pendingStart live') (lv_running live')"
  shows "publishing_ok room live'"
proof -
  have "logged_once room (lv_tables live') (held_events live + mset new)"
    using assms(1,2) by (intro logged_more) (simp_all add: publishing_ok_def)
  from logged_less [OF this assms(3)] assms(4) show ?thesis by (simp add: publishing_ok_def)
qed

lemma handled_held:
  "held_events (afterHandler sha256 now h db live) = held_events live"
  "held_events (onStoreError e live) = held_events live"
  by (simp_all add: held_events_def pending_events_def)

lemma publishing_handled:
  assumes "publishing_ok room live" "log_grows room new (lv_tables live) db"
  shows "publishing_ok room (afterHandler sha256 now h db live)"
    "publishing_ok room (onStoreError e (afterHandler sha256 now h db live))"
proof -
  have stage: "stage_backed (lv_pendingFinalization live) (lv_pendingStart live) (lv_running live)"
    using assms(1) by (simp add: publishing_ok_def)
  show "publishing_ok room (afterHandler sha256 now h db live)"
    by (rule publishing_more [OF assms(1), of new]) (use assms(2) stage in \<open>simp_all add: handled_held\<close>)
  show "publishing_ok room (onStoreError e (afterHandler sha256 now h db live))"
    by (rule publishing_more [OF assms(1), of new]) (use assms(2) stage in \<open>simp_all add: handled_held\<close>)
qed

lemma publishing_admit:
  assumes "publishing_ok (ls_roomId lease) live" "i < length (lv_authentications live)"
    and "cf_options config = server_options lease contracts sha256 hmac buffer checks hook throws"
  shows "publishing_ok (ls_roomId lease) (admitIdentified config i ticket bootstrap now live)"
proof (cases "at_stage (lv_authentications live ! i)")
  case (Identifying options)
  let ?opts = "cf_options config" and ?room = "ls_roomId lease"
  note ended = publishing_end [OF assms(1,2)]
  show ?thesis
  proof (cases "if options = Some (lv_gameId live) then authenticate (lv_roomId live) options ticket else None")
    case None
    with Identifying ended show ?thesis by (simp add: admitIdentified_def)
  next
    case (Some who)
    show ?thesis
    proof (cases "Option.bind bootstrap (\<lambda>b. admittedSeat b who)")
      case None
      with Some Identifying ended show ?thesis by (auto simp: admitIdentified_def split: if_splits)
    next
      case seat: (Some joined_at)
      obtain reply h db where call: "ensureAdmittedPlayerSerial ?opts who joined_at now (lv_handler live) (lv_tables live) = (reply, h, db)"
        by (metis surj_pair)
      from ensureAdmitted_log [OF call [unfolded assms(3)]]
      have log: "log_grows ?room (case reply of Inl _ \<Rightarrow> [] | Inr events \<Rightarrow> events) (lv_tables live) db" .
      let ?after = "afterHandler (op_sha256 ?opts) now h db live"
      note handled = publishing_handled [OF assms(1) log]
      have admitted: "admitIdentified config i ticket bootstrap now live =
          (case reply of
             Inl (StoreError e) \<Rightarrow> endAuthentication i (onStoreError e ?after)
           | Inl _ \<Rightarrow> endAuthentication i ?after
           | Inr events \<Rightarrow> ?after\<lparr>lv_authentications := (lv_authentications ?after)
               [i := (lv_authentications ?after ! i)\<lparr>at_stage := Admitted who events\<rparr>]\<rparr>)"
        using Identifying Some seat call by (auto simp: admitIdentified_def Let_def split: if_splits)
      show ?thesis
      proof (cases reply)
        case (Inl e)
        have "publishing_ok ?room (endAuthentication i ?after)" "publishing_ok ?room (endAuthentication i (onStoreError x ?after))" for x
          by (rule publishing_end, rule handled, use assms(2) in simp)+
        then show ?thesis unfolding admitted Inl by (simp split: handler_error.split)
      next
        case (Inr events)
        let ?tasks = "lv_authentications live"
        have tasks: "mset (?tasks[i := (?tasks ! i)\<lparr>at_stage := Admitted who events\<rparr>]) =
            add_mset ((?tasks ! i)\<lparr>at_stage := Admitted who events\<rparr>) (mset (remove_nth i ?tasks))"
          using assms(2) by (simp add: mset_update mset_remove_nth [OF assms(2)])
        have stage: "stage_backed (lv_pendingFinalization live) (lv_pendingStart live) (lv_running live)"
          using assms(1) by (simp add: publishing_ok_def)
        have "log_grows ?room events (lv_tables live) db" using log Inr by simp
        then show ?thesis
          unfolding admitted Inr sum.case
          by (intro publishing_more [OF assms(1), of events])
            (use stage Identifying in \<open>simp_all add: held_events_def pending_events_def tasks mset_remove_nth [OF assms(2)]\<close>)
      qed
    qed
  qed
qed (use assms in \<open>simp add: admitIdentified_def\<close>)

text \<open>The steps of sessions, leases and settlement send nothing.\<close>

definition publishing_part :: "'raw live_room \<Rightarrow>
    (room_envelope list \<times> pending_finalization option \<times> (string \<times> room_envelope list) option) \<times> 'raw running option \<times> auth_task list" where
  "publishing_part live = ((lv_broadcasts live, lv_pendingFinalization live, lv_pendingStart live), lv_running live,
     lv_authentications live)"

lemma publishing_calm:
  assumes "publishing_ok room live" "undisturbed live live'" "publishing_part live' = publishing_part live"
  shows "publishing_ok room live'"
  by (rule publishing_same [OF assms(1,2)]) (use assms(3) in \<open>simp_all add: publishing_part_def\<close>)

lemma sessions_publishing [simp]:
  "publishing_part (expireReservation i live) = publishing_part live" "publishing_part (beginJoin session live) = publishing_part live"
  "publishing_part (restoreOffline previous now live) = publishing_part live"
  "publishing_part (live\<lparr>lv_joins := j\<rparr>) = publishing_part live" "publishing_part (live\<lparr>lv_queue := q\<rparr>) = publishing_part live"
  by (simp_all add: publishing_part_def expireReservation_def beginJoin_def restoreOffline_def Let_def split: prod.split option.split)

lemma presence_publishing [simp]:
  "publishing_part (markPresence i now live) = publishing_part live" "publishing_part (attachClient i bootstrap now live) = publishing_part live"
  "publishing_part (detachClient session now live) = publishing_part live"
  by (simp_all add: markPresence_def attachClient_def detachClient_def Let_def split: prod.split sum.split join_stage.split option.split)
    (simp_all add: publishing_part_def)

lemma settle_publishing [simp]:
  "publishing_part (renewLease repo now live) = publishing_part live" "publishing_part (timerFires sha256 now live) = publishing_part live"
  "publishing_part (endSettlement reply live) = publishing_part live" "publishing_part (retrySettlement sha256 now live) = publishing_part live"
  "publishing_part (disposeRoom now live) = publishing_part live"
  by (simp_all add: publishing_part_def renewLease_def timerFires_def endSettlement_def retrySettlement_def disposeRoom_def Let_def
      split: prod.split sum.split option.split)

lemma publishing_next:
  assumes "publishing_ok room live" "lv_running live = None"
  shows "publishing_ok room (nextDelivery config live)"
proof (rule publishing_less [OF assms(1)])
  show "db_events (lv_tables (nextDelivery config live)) = db_events (lv_tables live)"
    using next_undisturbed [of live config] by (simp add: undisturbed_def rows_alone_def)
  show "held_events (nextDelivery config live) \<subseteq># held_events live"
    using assms(2)
    by (auto simp: nextDelivery_def beginCommand_def send_def held_events_def pending_events_def Let_def
        split: list.split queued.split option.split)
  show "stage_backed (lv_pendingFinalization (nextDelivery config live)) (lv_pendingStart (nextDelivery config live))
      (lv_running (nextDelivery config live))"
    using assms(2)
    by (simp add: nextDelivery_def beginCommand_def send_def Let_def split: list.split queued.split option.split)
qed

lemma publishing_answer:
  assumes "publishing_ok room live" "lv_running live = Some (RunningCommand d (AwaitAnswer answer))"
  shows "publishing_ok room (answerCommand d answer live)"
proof (rule publishing_less [OF assms(1)])
  have fresh: "answer_fresh answer" using assms by (simp add: publishing_ok_def)
  show "db_events (lv_tables (answerCommand d answer live)) = db_events (lv_tables live)"
    using answer_undisturbed(1) [of live d answer] by (simp add: undisturbed_def rows_alone_def)
  show "held_events (answerCommand d answer live) \<subseteq># held_events live"
    using assms(2) fresh
    by (auto simp: answerCommand_def commandFailed_def commandRejected_def commandAccepted_def publish_def send_def
        held_events_def pending_events_def Let_def
        split: sum.split handling.split handler_error.split store_error.split option.split)
  show "stage_backed (lv_pendingFinalization (answerCommand d answer live)) (lv_pendingStart (answerCommand d answer live))
      (lv_running (answerCommand d answer live))"
    using fresh
    by (auto simp: answerCommand_def commandFailed_def commandRejected_def commandAccepted_def publish_def send_def Let_def
        split: sum.split handling.split handler_error.split store_error.split option.split)
qed

lemma publishing_timer:
  assumes "publishing_ok room live" "lv_running live = Some (RunningTimer command (Some answer))"
  shows "publishing_ok room (answerTimer sha256 command answer now live)"
proof (rule publishing_less [OF assms(1)])
  show "db_events (lv_tables (answerTimer sha256 command answer now live)) = db_events (lv_tables live)"
    using answer_undisturbed(2) [of live sha256 command answer now] by (simp add: undisturbed_def rows_alone_def)
  show "held_events (answerTimer sha256 command answer now live) \<subseteq># held_events live"
    using assms(2)
    by (auto simp: answerTimer_def held_events_def pending_events_def Let_def split: sum.split handling.split)
  have "lv_running (answerTimer sha256 command answer now live) = None"
    by (simp add: answerTimer_def Let_def split: sum.split handling.split)
  then show "stage_backed (lv_pendingFinalization (answerTimer sha256 command answer now live))
      (lv_pendingStart (answerTimer sha256 command answer now live)) (lv_running (answerTimer sha256 command answer now live))"
    by simp
qed

lemma publishing_confirm:
  assumes "publishing_ok room live"
  shows "lv_running live = Some (RunningCommand d (AwaitFinalization ack events)) \<Longrightarrow>
      publishing_ok room (finalizationReplied d ack events confirmed live)"
    "lv_running live = Some (RunningCommand d (AwaitStart ack events)) \<Longrightarrow>
      publishing_ok room (startReplied d ack events confirmed live)"
proof -
  assume run: "lv_running live = Some (RunningCommand d (AwaitFinalization ack events))"
  then have backed: "events = [] \<or> map_option pf_events (lv_pendingFinalization live) = Some events"
    using assms by (simp add: publishing_ok_def)
  show "publishing_ok room (finalizationReplied d ack events confirmed live)"
  proof (rule publishing_less [OF assms])
    show "held_events (finalizationReplied d ack events confirmed live) \<subseteq># held_events live"
      using backed run
      by (auto simp: finalizationReplied_def apiFailed_def commandFailed_def publish_def send_def held_events_def pending_events_def Let_def
          split: option.split)
  qed (simp_all add: finalizationReplied_def apiFailed_def commandFailed_def publish_def send_def Let_def)
next
  assume run: "lv_running live = Some (RunningCommand d (AwaitStart ack events))"
  then have backed: "events = [] \<or> map_option snd (lv_pendingStart live) = Some events"
    using assms by (simp add: publishing_ok_def)
  show "publishing_ok room (startReplied d ack events confirmed live)"
  proof (rule publishing_less [OF assms])
    show "held_events (startReplied d ack events confirmed live) \<subseteq># held_events live"
      using backed run
      by (auto simp: startReplied_def apiFailed_def commandFailed_def publish_def send_def held_events_def pending_events_def Let_def
          split: option.split)
  qed (simp_all add: startReplied_def apiFailed_def commandFailed_def publish_def send_def Let_def)
qed

lemma publishing_runs:
  assumes "publishing_ok (ls_roomId lease) live"
    and "cf_options config = server_options lease contracts sha256 hmac buffer checks hook throws"
  shows "publishing_ok (ls_roomId lease) (happens config (HandlerRuns now) live)"
proof (cases "\<exists>d. lv_running live = Some (RunningCommand d AwaitHandler)")
  case True
  then obtain d where run: "lv_running live = Some (RunningCommand d AwaitHandler)" by blast
  obtain answer h db where call: "handleSerial (cf_options config) (dl_who d) (dl_raw d) now (lv_handler live) (lv_tables live) = (answer, h, db)"
    by (metis surj_pair)
  from handleSerial_log [OF call [unfolded assms(2)]]
  have log: "log_grows (ls_roomId lease) (answer_events answer) (lv_tables live) db" "answer_fresh answer" by simp_all
  from run call log show ?thesis
    by (intro publishing_more [OF assms(1), of "answer_events answer"]) (simp_all add: held_events_def pending_events_def)
next
  case False
  show ?thesis
  proof (cases "\<exists>command. lv_running live = Some (RunningTimer command None)")
    case True
    then obtain command where run: "lv_running live = Some (RunningTimer command None)" by blast
    obtain answer h db where call: "handleInternalSerial (cf_options config) (cf_encode config command) now (lv_handler live) (lv_tables live) = (answer, h, db)"
      by (metis surj_pair)
    from handleInternalSerial_log [OF call [unfolded assms(2)]]
    have log: "log_grows (ls_roomId lease) (answer_events answer) (lv_tables live) db" by simp
    from run call log show ?thesis
      by (intro publishing_more [OF assms(1), of "answer_events answer"]) (simp_all add: held_events_def pending_events_def)
  next
    case idle: False
    have "happens config (HandlerRuns now) live = live"
      using False idle by (cases "lv_running live" rule: carried_out.cases) (auto split: option.split)
    with assms(1) show ?thesis by simp
  qed
qed

lemma publishing_happens:
  assumes "publishing_ok (ls_roomId lease) live"
    and "cf_options config = server_options lease contracts sha256 hmac buffer checks hook throws"
  shows "publishing_ok (ls_roomId lease) (happens config e live)"
proof (cases e)
  case (ClientAuthenticates session options)
  show ?thesis
    unfolding ClientAuthenticates happens.simps
    by (rule publishing_same [OF assms(1) begin_undisturbed]) (simp_all add: beginAuthentication_def)
next
  case (AuthenticationsSettle)
  have "running_events (lv_running (happens config e live)) = running_events (lv_running live)"
    "stage_backed finalization start (lv_running live) \<Longrightarrow> stage_backed finalization start (lv_running (happens config e live))"
    for finalization start
    by (cases "lv_running live" rule: carried_out.cases; simp add: AuthenticationsSettle split: bool.split)+
  then show ?thesis
    by (intro publishing_less [OF assms(1)])
      (use assms(1) in \<open>simp_all add: AuthenticationsSettle publishing_ok_def held_events_def pending_events_def
        split: option.splits running.splits command_stage.splits bool.splits\<close>)
next
  case (HandlerRuns now)
  show ?thesis unfolding HandlerRuns by (rule publishing_runs [OF assms])
next
  case (HandlerAnswers now)
  then show ?thesis
    using assms(1) by (simp add: publishing_answer publishing_timer split: option.split running.split command_stage.split)
next
  case (ApiConfirms confirmed)
  then show ?thesis
    using assms(1) by (simp add: publishing_confirm split: option.split running.split command_stage.split)
next
  case (DeliveryBegins)
  then show ?thesis using assms(1) by (simp add: publishing_next)
next
  case (ApiIdentifies i ticket bootstrap now)
  then show ?thesis using assms by (simp add: publishing_admit)
next
  case (AuthenticationEnds i)
  then show ?thesis using assms by (simp add: publishing_reserve)
next
  case (CommandArrives session raw)
  show ?thesis
    unfolding CommandArrives happens.simps by (rule publishing_calm [OF assms(1)]) (simp_all add: undisturbed_same)
qed (use assms(1) in \<open>auto intro: publishing_calm\<close>)

lemma publishing_run:
  assumes "publishing_ok (ls_roomId lease) live"
    and "cf_options config = server_options lease contracts sha256 hmac buffer checks hook throws"
  shows "publishing_ok (ls_roomId lease) (run_room config es live)"
  using assms(1) unfolding run_room_def
  by (induction es arbitrary: live) (simp_all add: publishing_happens [OF _ assms(2)])

lemma publishing_new: "publishing_ok room (newRoom sha256 r db now)"
  by (simp add: publishing_ok_def held_events_def pending_events_def logged_once_def)

text \<open>What was sent is logged, each event once.\<close>

lemma published_logged:
  assumes "publishing_ok room live"
  shows "distinct (map ee_eventId (lv_broadcasts live))"
    "event \<in> set (lv_broadcasts live) \<Longrightarrow> db_events (lv_tables live) (ee_eventId event) = Some (room, event)"
proof -
  have logged: "logged_once room (lv_tables live) (mset (lv_broadcasts live))"
    by (rule logged_less [of _ "lv_tables live" "held_events live"])
      (use assms in \<open>simp_all add: publishing_ok_def held_events_def\<close>)
  then show "distinct (map ee_eventId (lv_broadcasts live))" by (rule logged_members)
  show "event \<in> set (lv_broadcasts live) \<Longrightarrow> db_events (lv_tables live) (ee_eventId event) = Some (room, event)"
    using logged by (simp add: logged_once_def)
qed

section \<open>The configuration of a server's room\<close>

definition live_config ::
  "room_lease \<Rightarrow> 'raw room_contracts \<Rightarrow> digest \<Rightarrow> hmac \<Rightarrow> buffer_codec \<Rightarrow> room_event contract_checks \<Rightarrow> bool \<Rightarrow>
   (room_state \<Rightarrow> bool) \<Rightarrow> lease_repository \<Rightarrow> (internal_command \<Rightarrow> 'raw) \<Rightarrow> 'raw room_config" where
  "live_config lease contracts sha256 hmac buffer checks hook throws repo encode =
     \<lparr>cf_options = server_options lease contracts sha256 hmac buffer checks hook throws, cf_repository = repo, cf_encode = encode\<rparr>"

lemma live_config_simps [simp]:
  "cf_options (live_config lease contracts sha256 hmac buffer checks hook throws repo encode) =
     server_options lease contracts sha256 hmac buffer checks hook throws"
  "cf_repository (live_config lease contracts sha256 hmac buffer checks hook throws repo encode) = repo"
  "cf_encode (live_config lease contracts sha256 hmac buffer checks hook throws repo encode) = encode"
  by (simp_all add: live_config_def)

end
