(* ===== verification/Live_Scenario.thy ===== *)
theory Live_Scenario
  imports Room_Publishing Room_Scenario
begin

text \<open>
  Concrete rooms: a stored state that a server opens again, in play or finished, and a lobby that a player connects to.
  They show that the hypotheses of the properties of live rooms can hold.
\<close>

section \<open>Another random source\<close>

fun with_rng :: "random_checkpoint \<Rightarrow> room_state \<Rightarrow> room_state" where
  "with_rng rng (Lobby (WaitingGame g)) = Lobby (WaitingGame (g\<lparr>gm_rng := rng\<rparr>))"
| "with_rng rng (Lobby (CancelledGame g)) = Lobby (CancelledGame (g\<lparr>gm_rng := rng\<rparr>))"
| "with_rng rng (Lobby (InProgressGame g)) = Lobby (InProgressGame (g\<lparr>gm_rng := rng\<rparr>))"
| "with_rng rng (Lobby (FinishedGame g)) = Lobby (FinishedGame (g\<lparr>gm_rng := rng\<rparr>))"
| "with_rng rng (Playing (InProgress s)) = Playing (InProgress (s\<lparr>gs_rng := rng\<rparr>))"
| "with_rng rng (Playing (Finished f)) = Playing (Finished (f\<lparr>gs_rng := rng\<rparr>))"

lemma frame_rng: "validStateFrame s \<Longrightarrow> validCheckpoint rng \<Longrightarrow> validStateFrame (s\<lparr>gs_rng := rng\<rparr>)"
  by (simp add: validStateFrame_def gs_inventory_def cong: option.case_cong)

lemma checks_rng [simp]:
  "validPendingProperty (s\<lparr>gs_rng := rng\<rparr>) = validPendingProperty s"
  "validBankruptcyPending (s\<lparr>gs_rng := rng\<rparr>) = validBankruptcyPending s"
  "validPhase (s\<lparr>gs_rng := rng\<rparr>) = validPhase s"
  by (simp_all add: fun_eq_iff validPendingProperty_def validBankruptcyPending_def validPhase_def
      split: option.split turn_phase.split)

lemma active_rng:
  "isValidActiveGameplayAggregateState s \<Longrightarrow> validCheckpoint rng \<Longrightarrow> isValidActiveGameplayAggregateState (s\<lparr>gs_rng := rng\<rparr>)"
  by (simp add: isValidActive_iff frame_rng)

lemma terminal_rng [simp]: "validTerminalShape (f\<lparr>gs_rng := rng\<rparr>) = validTerminalShape f"
  by (simp add: fun_eq_iff validTerminalShape_def)

lemma finished_rng:
  "isValidFinishedGameplayAggregateState f \<Longrightarrow> validCheckpoint rng \<Longrightarrow> isValidFinishedGameplayAggregateState (f\<lparr>gs_rng := rng\<rparr>)"
  by (auto simp: isValidFinishedGameplayAggregateState_def frame_rng Let_def split: if_splits)

lemma seat_ok_rng [simp]: "seat_ok (g\<lparr>gm_rng := rng\<rparr>) = seat_ok g"
  by (simp add: seat_ok_def fun_eq_iff)

lemma sound_rng: "lobby_or_game state \<Longrightarrow> validCheckpoint rng \<Longrightarrow> lobby_or_game (with_rng rng state)"
  by (cases "(rng, state)" rule: with_rng.cases)
    (auto simp: game_inv_def active_rng finished_rng book_ok_def lobby_ok_def)

text \<open>The public view does not depend on it.\<close>

lemma gameplayView_rng [simp]: "gameplayView (s\<lparr>gs_rng := rng\<rparr>) turn terminal = gameplayView s turn terminal"
  by (simp add: gameplayView_def Let_def cong: option.case_cong)

lemma view_rng:
  assumes "publicGameplayState a \<noteq> None" "Playing b = with_rng rng (Playing a)" "isValidAggregate b"
  shows "publicGameplayState b = publicGameplayState a"
  using assms by (cases a) (auto simp: publicGameplayState_def split: if_splits cong: option.case_cong)

lemma lobby_rng_saved:
  assumes "saved_lobby g" "validCheckpoint rng" "Lobby h = with_rng rng (Lobby g)" "lobby_or_game (Lobby g)"
  shows "saved_lobby h" "lobbyView h = lobbyView g"
  using assms
  by (cases g; simp add: saved_base_def consistent_base_def occupiedSeats_def activeSeats_def lobbyView_def game_base.defs Let_def)+

lemma view_ignores_rng:
  assumes "toRoomPublicState state = Some v" "lobby_or_game state" "validCheckpoint rng"
  shows "toRoomPublicState (with_rng rng state) = Some v"
proof (cases state)
  case (Lobby g)
  obtain h where h: "with_rng rng (Lobby g) = Lobby h" by (cases g) simp_all
  from assms(1) Lobby have view: "serializeSnapshot g \<noteq> None" "v = LobbyView (lobbyView g)"
    by (auto simp: toRoomPublicState_def lobby_view_iff split: if_splits)
  then have "saved_lobby g" using lobby_snapshot.saves_iff by blast
  from lobby_rng_saved [OF this assms(3) h [symmetric]] assms(2) Lobby
  have saved: "saved_lobby h" "lobbyView h = lobbyView g" by simp_all
  then have "serializeSnapshot h \<noteq> None" using lobby_snapshot.saves_iff by blast
  with saved(2) view(2) show ?thesis by (simp add: Lobby h toRoomPublicState_def lobby_view_iff)
next
  case (Playing a)
  obtain b where b: "with_rng rng (Playing a) = Playing b" by (cases a) simp_all
  have "lobby_or_game (Playing b)" using sound_rng [OF assms(2,3)] Playing b by simp
  then have "isValidAggregate b" by (simp add: aggregate_inv_valid)
  with view_rng [of a b rng] assms(1) Playing b show ?thesis by (auto simp: toRoomPublicState_def)
qed

section \<open>A stored room\<close>

text \<open>A room of a server whose lease runs out at 1000, and any server that takes it over.\<close>

definition stored_tables :: "room_state \<Rightarrow> room_event database" where
  "stored_tables state = empty_database
     \<lparr>db_leases := [''room-1'' \<mapsto> \<lparr>lr_gameId = ''game-1'', lr_instanceId = ''server-1'', lr_leaseUntil = 1000, lr_fencingToken = 1\<rparr>],
      db_checkpoints := [''room-1'' \<mapsto> checkpoint_row_for zero_digest first_lease (room_version state) (the (serializeRoom state)) 10]\<rparr>"

definition second_server :: lease_repository where
  "second_server = \<lparr>rp_ownerId = ''server-2'', rp_leaseDurationMs = 1000\<rparr>"

lemma stored_in_step: "serializeRoom state \<noteq> None \<Longrightarrow> rh_state h = state \<Longrightarrow> in_step storedAt first_lease h (stored_tables state)"
  by (auto simp: in_step_def storedAt_def stored_tables_def first_lease_def checkpoint_row_for_def)

lemma room_text_fits:
  assumes "lobby_or_game state" "serializeRoom state = Some doc"
  shows "length doc \<le> 310000" "validateCheckpointSnapshot doc (room_version state)"
proof -
  show short: "length doc \<le> 310000"
    using assms lobby_fits aggregate_fits by (cases state) (fastforce simp: serializeRoom_def)+
  have "doc \<noteq> []"
    using assms(2) lobby_snapshot.signs gameplay_snapshot.signs
    by (auto simp: serializeRoom_def envelope_text_def Let_def split: room_state.splits if_splits)
  then show "validateCheckpointSnapshot doc (room_version state)"
    using checkpoint_roundtrip [OF assms(2)] short by (simp add: validate_iff short_text_fits)
qed

lemma stored_rows:
  assumes "lobby_or_game state" "serializeRoom state \<noteq> None"
  shows "rows_ok zero_digest (stored_tables state)"
proof -
  from assms(2) obtain doc where doc: "serializeRoom state = Some doc" by blast
  have "assertOwned (stored_tables state) first_lease 0"
    by (simp add: assertOwned_def matches_lease_def stored_tables_def first_lease_def)
  from new_row_ok [OF this room_text_fits(2) [OF assms(1) doc], of zero_digest 10] doc show ?thesis
    by (simp add: rows_ok_def stored_tables_def first_lease_def row_ok_def checkpoint_row_for_def empty_database_def)
qed

text \<open>The API of the session, before and after the start.\<close>

definition session_of :: "room_state \<Rightarrow> session_bootstrap" where
  "session_of state =
     \<lparr>sb_gameId = ''game-1'', sb_gameDefinitionId = ''definition-1'', sb_gameDefinitionVersion = 1,
      sb_rulesetId = ''pootown-rust-source-v1'', sb_roomId = ''room-1'',
      sb_lifecycle = (if is_playing state then SessionSettling else SessionOpen),
      sb_stateVersion = (if is_playing state then 1 else 0), sb_creatorPlayerId = alice, sb_maximumPlayers = 4,
      sb_timeLimitMs = Some 3600000, sb_createdAtMs = 10, sb_startedAtMs = (if is_playing state then Some 30 else None),
      sb_players = [\<lparr>bp_playerId = alice, bp_seatIndex = 0, bp_joinedAtMs = 10\<rparr>, \<lparr>bp_playerId = bob, bp_seatIndex = 1, bp_joinedAtMs = 20\<rparr>]\<rparr>"

lemma session_schema: "SessionBootstrapResponseSchema (session_of state)"
proof -
  have "SessionBootstrapResponseSchema (session_of (Lobby g))" "SessionBootstrapResponseSchema (session_of (Playing a))" for g a
    by (simp_all add: session_of_def) (code_simp)+
  then show ?thesis by (cases state) simp_all
qed

definition takeover_replies :: "room_state \<Rightarrow> opening_replies" where
  "takeover_replies state =
     \<lparr>or_first = Some (session_of state), or_second = Some (session_of state), or_markStarted = True, or_acquireAt = 1000,
      or_loadAt = 1100, or_initializeAt = 1200, or_releaseAt = 1300\<rparr>"

lemma stored_reopens:
  assumes "room_sound hex_buffer state" "serializeRoom state \<noteq> None" "room_game_id state = ''game-1''"
  shows "\<exists>r db'. openRoom zero_digest hex_buffer second_server zero_source ''game-1'' (takeover_replies state) (stored_tables state) =
      (Inr r, db') \<and> rh_state (od_handler r) = state \<and> od_roomId r = ''room-1''"
proof -
  let ?h = "\<lparr>rh_state = state, rh_committedAtMs = 10\<rparr>"
  let ?current = "\<lparr>lr_gameId = ''game-1'', lr_instanceId = ''server-1'', lr_leaseUntil = 1000, lr_fencingToken = 1\<rparr>"
  have sound: "lobby_or_game state" using assms(1) by (simp add: room_sound_def)
  have frames: "game_inv s \<Longrightarrow> 1 \<le> gs_stateVersion s" "isValidFinishedGameplayAggregateState f \<Longrightarrow> 1 \<le> gs_stateVersion f" for s f
    by (auto simp: game_inv_def isValidActive_iff isValidFinishedGameplayAggregateState_def validStateFrame_def split: if_splits)
  have "1 \<le> room_version state"
    using sound frames by (cases "(sourceCheckpoint hex_buffer zero_source, state)" rule: with_rng.cases) (auto simp: lobby_ok_def)
  then have agrees: "api_agrees (session_of state) (ls_roomId first_lease) (rh_state ?h)"
    using assms(3) by (auto simp: api_agrees_def session_of_def first_lease_def)
  show ?thesis
    using reopened_room [of first_lease ?h "stored_tables state" zero_digest hex_buffer ?current "takeover_replies state"
        "session_of state" "session_of state" second_server zero_source] agrees
      stored_in_step [OF assms(2), of ?h] stored_rows [OF sound assms(2)] assms(1,3)
    by (simp add: takeover_replies_def second_server_def stored_tables_def first_lease_def checkpoint_row_for_def
        isSafeInteger_def MAX_SAFE_INTEGER_def)
qed

section \<open>A finished game\<close>

definition secure_cp :: random_checkpoint where
  "secure_cp = sourceCheckpoint hex_buffer zero_source"

lemma secure_cp_ok: "validCheckpoint secure_cp" "secure_checkpoint hex_buffer secure_cp"
proof -
  show "validCheckpoint secure_cp" by code_simp
  have "consistent_source zero_source" by code_simp
  then show "secure_checkpoint hex_buffer secure_cp" by (auto simp: secure_checkpoint_def secure_cp_def)
qed

text \<open>The opening of a game past its time limit leads to one; its random source is one of the server.\<close>

lemma ended_game:
  obtains f where "room_sound hex_buffer (Playing (Finished f))" "serializeRoom (Playing (Finished f)) \<noteq> None" "gs_gameId f = ''game-1''"
proof -
  let ?r = "transitionGameplay (InProgress opening_state) (versioned 3 (TimeoutCommand EnforceGameTimeLimit)) (server_at 3600030)"
  have "case ?r of Accepted (Finished f) ev \<Rightarrow> gs_gameId f = ''game-1'' | _ \<Rightarrow> False" by code_simp
  then obtain f ev where f: "?r = Accepted (Finished f) ev" "gs_gameId f = ''game-1''"
    by (auto split: transition_result.splits aggregate.splits)
  from f(1) have "routeCommand opening_state (versioned 3 (TimeoutCommand EnforceGameTimeLimit)) (server_at 3600030) = Accepted (Finished f) ev"
    by (auto elim!: transitionGameplay_Accepted)
  from routeCommand_invariant [OF this opening_inv] have "isValidFinishedGameplayAggregateState f"
    by (simp add: sells_pending_rent_def)
  then have ended: "isValidFinishedGameplayAggregateState (f\<lparr>gs_rng := secure_cp\<rparr>)" using secure_cp_ok(1) by (rule finished_rng)
  then have "serializeRoom (Playing (Finished (f\<lparr>gs_rng := secure_cp\<rparr>))) \<noteq> None"
    using gameplay_snapshot.saves_iff [of "Finished (f\<lparr>gs_rng := secure_cp\<rparr>)"] by (auto simp: serializeRoom_def)
  moreover have "room_sound hex_buffer (Playing (Finished (f\<lparr>gs_rng := secure_cp\<rparr>)))"
    using ended secure_cp_ok(2) by (simp add: room_sound_def)
  ultimately show thesis using that [of "f\<lparr>gs_rng := secure_cp\<rparr>"] f(2) by simp
qed

section \<open>A lobby that a player connects to\<close>

text \<open>Alice already used a request identifier for another message.\<close>

definition used_tables :: "room_event database" where
  "used_tables = waiting_tables\<lparr>db_commands := [(''room-1'', alice, ''request-1'') \<mapsto>
     \<lparr>cw_expectedStateVersion = 0, cw_committedStateVersion = 1, cw_requestHash = ''other'', cw_acknowledgement = join_answer\<rparr>]\<rparr>"

lemma used_owned: "assertOwned used_tables first_lease t \<longleftrightarrow> t < 1000"
  by (simp add: assertOwned_def matches_lease_def waiting_tables_def used_tables_def first_lease_def)

definition waiting_opened :: opened_room where
  "waiting_opened =
     \<lparr>od_gameId = ''game-1'', od_roomId = ''room-1'', od_lease = first_lease, od_handler = waiting_handler,
      od_view = LobbyView (lobbyView (WaitingGame waiting_game)), od_maxClients = 4, od_markedStarted = False\<rparr>"

abbreviation live_first :: "room_body request room_config" where
  "live_first \<equiv> live_config first_lease open_contracts zero_digest zero_hmac hex_buffer open_checks False (\<lambda>_. False)
     \<lparr>rp_ownerId = ''server-1'', rp_leaseDurationMs = 1000\<rparr> (\<lambda>_. join_request)"

abbreviation waiting_room :: "room_body request live_room" where
  "waiting_room \<equiv> newRoom zero_digest waiting_opened used_tables 20"

definition alice_ticket :: consumed_ticket where
  "alice_ticket = \<lparr>ct_gameId = ''game-1'', ct_playerId = alice, ct_reservationId = ''seat-1'', ct_isPlayer = True,
     ct_roomId = ''room-1'', ct_seatIndex = 0\<rparr>"

definition alice_player :: authenticated_player where
  "alice_player = \<lparr>au_gameId = ''game-1'', au_playerId = alice, au_reservationId = ''seat-1'', au_roomId = ''room-1'', au_seatIndex = 0\<rparr>"

abbreviation open_session :: session_bootstrap where
  "open_session \<equiv> session_of (Lobby (WaitingGame waiting_game))"

text \<open>The steps of one connection, up to the point where its \<open>onJoin\<close> waits for the API.\<close>

definition connects :: "string \<Rightarrow> room_body request happening list" where
  "connects session =
     [ClientAuthenticates session (Some ''game-1''), ApiIdentifies 0 (Some alice_ticket) (Some open_session) 30,
      AuthenticationEnds 0, ClientJoins session]"

lemma alice_admitted:
  "ensureAdmittedPlayerSerial opts alice_player 10 now waiting_handler db = (Inr [], waiting_handler, db)"
  by (simp add: ensureAdmittedPlayerSerial_def admissionSeat_def alice_player_def waiting_handler_def waiting_game_def
      createSeat_def seat_at_def js_index_def isSafeInteger_def MAX_SAFE_INTEGER_def Let_def)

lemma alice_seat: "admittedSeat open_session alice_player = Some 10"
  by (simp add: admittedSeat_def session_of_def alice_player_def)

lemma alice_authenticated: "authenticate ''room-1'' (Some ''game-1'') (Some alice_ticket) = Some alice_player"
  by (simp add: authenticate_def alice_ticket_def alice_player_def)

lemma alice_id: "au_playerId alice_player = alice"
  by (simp add: alice_player_def)

lemma stored_soundly:
  assumes "room_sound hex_buffer state" "serializeRoom state \<noteq> None" "storedAt (stored_tables state) l = Some (doc, version)"
  shows "saved_soundly hex_buffer doc version"
  using assms by (auto simp: saved_soundly_def storedAt_def stored_tables_def checkpoint_row_for_def split: if_splits)

lemmas connection_steps = run_room_def connects_def beginAuthentication_def lifecycleBusy_def admitIdentified_def
  alice_admitted alice_seat alice_authenticated reserveSession_def endAuthentication_def resolveWaiters_def remove_nth_def
  beginJoin_def session_at_def afterHandler_def alice_id

lemmas joining_steps = markPresence_def markConnected_def withTransaction_def used_owned attachClient_def

text \<open>She is attached once the presence is marked and the API still knows the session.\<close>

definition joins :: "string \<Rightarrow> room_body request happening list" where
  "joins session = connects session @ [PresenceMarked 0 40, AttachmentRechecked 0 (Some open_session) 50]"

lemma open_attachable: "attachable (Some open_session) alice_player"
  by (simp add: attachable_def session_of_def alice_player_def)

lemma alice_joined:
  "attached (run_room live_first (joins ''s1'') waiting_room) alice ''s1''"
  by (simp add: joins_def attached_def connection_steps joining_steps open_attachable waiting_opened_def Let_def)

text \<open>She starts the game with a request identifier she used before.\<close>

definition start_request :: "room_body request" where
  "start_request = \<lparr>rq_requestId = ''request-1'', rq_expectedStateVersion = 1, rq_type = ''startGame'',
     rq_body = LifecycleBody StartGame, rq_json = JNull\<rparr>"

definition start_delivery :: "room_body request delivery" where
  "start_delivery = \<lparr>dl_session = ''s1'', dl_who = alice_player, dl_raw = start_request, dl_starts = True,
     dl_requestId = Some ''request-1'', dl_action = None\<rparr>"

definition starts :: "room_body request happening list" where
  "starts = joins ''s1'' @ [CommandArrives ''s1'' start_request, DeliveryBegins, AuthenticationsSettle]"

lemma start_delivered: "delivery_of open_contracts ''s1'' alice_player start_request = start_delivery"
  by (simp add: delivery_of_def open_contracts_def start_delivery_def start_request_def)

lemmas delivery_steps = nextDelivery_def beginCommand_def startBlocks_def finalizationBlocks_def start_delivered start_delivery_def

lemma start_running:
  "let live = run_room live_first starts waiting_room in
     lv_running live = Some (RunningCommand start_delivery AwaitHandler) \<and> lv_starting live \<and> lv_pendingStart live = None \<and>
     lv_handler live = waiting_handler \<and> db_commands (lv_tables live) = db_commands used_tables \<and>
     db_leases (lv_tables live) = db_leases used_tables"
  by (simp add: starts_def joins_def connection_steps joining_steps open_attachable waiting_opened_def delivery_steps Let_def)

text \<open>The store refuses the identifier.\<close>

lemma start_conflicts:
  assumes "db_commands db = db_commands used_tables" "db_leases db = db_leases used_tables"
  shows "handleSerial first_server alice_player start_request 60 waiting_handler db =
    (Inl (StoreError CommandIdempotencyConflict), waiting_handler, db)"
proof -
  have "commandTimestampMs waiting_handler 60 = Inr 60" by (simp add: waiting_clock MAX_SAFE_INTEGER_def)
  moreover have "lookup_reply zero_digest first_lease alice (persisted start_request) 60 db = Inl CommandIdempotencyConflict"
  proof -
    have "validOpaqueId alice" "requestHash zero_digest (persisted start_request) \<noteq> ''other''" by code_simp+
    then show ?thesis
      using assms
      by (simp add: lookup_reply_def withTransaction_def findReplay_def assertOwned_def matches_lease_def
          replayStored_def used_tables_def waiting_tables_def first_lease_def command_key_of_def persisted_def start_request_def)
  qed
  ultimately show ?thesis by (simp add: handleSerial_def server_options_def open_contracts_def alice_player_def)
qed

lemma start_failed:
  "let live = run_room live_first (starts @ [HandlerRuns 60]) waiting_room in
     lv_running live = Some (RunningCommand start_delivery (AwaitAnswer (Inl (StoreError CommandIdempotencyConflict)))) \<and>
     lv_starting live \<and> lv_pendingStart live = None \<and> lv_handler live = waiting_handler"
proof -
  have parts: "dl_who start_delivery = alice_player" "dl_raw start_delivery = start_request" by (simp_all add: start_delivery_def)
  have "run_room live_first (starts @ [HandlerRuns 60]) waiting_room =
      happens live_first (HandlerRuns 60) (run_room live_first starts waiting_room)" by (simp add: run_room_def)
  with start_running start_conflicts [of "lv_tables (run_room live_first starts waiting_room)"] show ?thesis
    by (simp add: Let_def parts)
qed

section \<open>Two connections of one player\<close>

lemma used_online: "assertOwned (used_tables\<lparr>db_presence := rows\<rparr>) first_lease t \<longleftrightarrow> t < 1000"
  using used_owned [of t] by (simp add: assertOwned_def)

text \<open>The reservation of the first connection runs out while its \<open>onJoin\<close> waits for the API; the second one then gets in, and
  when the API answers the first is attached as well.\<close>

definition race :: "room_body request happening list" where
  "race = connects ''s1'' @ [PresenceMarked 0 40, ReservationExpires 0] @ connects ''s2'' @
     [AttachmentRechecked 0 (Some open_session) 60, PresenceMarked 0 70, AttachmentRechecked 0 (Some open_session) 80]"

lemma race_attaches:
  "let live = run_room live_first race waiting_room in attached live alice ''s1'' \<and> attached live alice ''s2''"
  by (simp add: race_def attached_def connection_steps joining_steps open_attachable used_online expireReservation_def
      waiting_opened_def Let_def)

end
