(* ===== verification/Live_Properties.thy ===== *)
theory Live_Properties
  imports Live_Scenario
begin

text \<open>
  The properties of live rooms: how they come up, what they show, whom they let in, what they publish, and how they end;
  with a witness for each that has hypotheses.
\<close>

section \<open>Opening and showing\<close>

text \<open>C13. Whatever happens to a room a server has opened on soundly stored tables, in any order, with any answers of the
  API and at any times, while no other server writes to them: it belongs to the session that was asked for, its state stays
  well-formed, is what is stored, and is what players see.\<close>

theorem room_shows_what_is_stored:
  assumes "openRoom sha256 buffer repo fresh wanted replies db = (Inr r, db')"
    and "\<And>b. or_second replies = Some b \<Longrightarrow> SessionBootstrapResponseSchema b" "consistent_source fresh"
    and "\<And>doc version. storedAt db (od_lease r) = Some (doc, version) \<Longrightarrow> saved_soundly buffer doc version"
    and "live = run_room (live_config (od_lease r) contracts sha256 hmac buffer checks hook throws repo encode) es
      (newRoom sha256 r db' now)"
  shows "od_gameId r = wanted \<and> room_sound buffer (rh_state (lv_handler live)) \<and>
    in_step storedAt (od_lease r) (lv_handler live) (lv_tables live) \<and>
    toRoomPublicState (rh_state (lv_handler live)) = Some (lv_view live) \<and>
    view_version (lv_view live) = room_version (rh_state (lv_handler live))"
proof -
  note opened = opened_room [OF assms(1-4)]
  have "live_ok buffer (od_lease r) live"
    unfolding assms(5) by (rule live_run [OF live_new [OF opened(1-3)] live_config_simps(1)])
  moreover from this have "view_version (lv_view live) = room_version (rh_state (lv_handler live))"
    using room_view_exists [of "rh_state (lv_handler live)"] by (auto simp: live_ok_def room_sound_def in_step_def)
  ultimately show ?thesis using opened(6) by (simp add: live_ok_def)
qed

theorem room_shows_what_is_stored_witness:
  "\<exists>r db'. openRoom zero_digest hex_buffer second_server zero_source ''game-1'' (takeover_replies (rh_state waiting_handler))
       (stored_tables (rh_state waiting_handler)) = (Inr r, db') \<and>
     (let live = run_room (live_config (od_lease r) open_contracts zero_digest zero_hmac hex_buffer open_checks False (\<lambda>_. False)
          second_server (\<lambda>_. join_request)) (starts @ [HandlerRuns 1200]) (newRoom zero_digest r db' 1150) in
      view_version (lv_view live) = room_version (rh_state (lv_handler live)))"
proof -
  let ?state = "rh_state waiting_handler"
  have state: "serializeRoom ?state \<noteq> None" "room_game_id ?state = ''game-1''"
    using waiting_saved by (simp_all add: serializeRoom_def waiting_handler_def waiting_game_def)
  obtain r db' where r: "openRoom zero_digest hex_buffer second_server zero_source ''game-1'' (takeover_replies ?state)
      (stored_tables ?state) = (Inr r, db')" using stored_reopens [OF waiting_sound state] by blast
  have schema: "SessionBootstrapResponseSchema b" if "or_second (takeover_replies ?state) = Some b" for b
    using that by (auto simp: takeover_replies_def session_schema)
  have fresh: "consistent_source zero_source" by code_simp
  from room_shows_what_is_stored [OF r schema fresh stored_soundly [OF waiting_sound state(1), of "od_lease r"] refl,
      where contracts = open_contracts and hmac = zero_hmac and checks = open_checks and hook = False and throws = "\<lambda>_. False"
        and encode = "\<lambda>_. join_request" and es = "starts @ [HandlerRuns 1200]" and now = 1150] r
  show ?thesis unfolding Let_def by blast
qed

text \<open>When a room cannot be opened, either nothing was changed, or the lease is free again at once: any server can
  acquire it from the time of the release on.\<close>

theorem failed_opening_frees:
  assumes "openRoom sha256 buffer repo fresh wanted replies db = (Inl e, db')" "e \<noteq> ViewFailed" "\<nexists>x. e = HandlerFailed x"
  shows "db' = db \<or> (\<exists>first. or_first replies = Some first \<and> (\<forall>later \<ge> or_releaseAt replies.
    \<exists>new db2. acquire other (sb_roomId first) (sb_gameId first) later db' = Inr (new, db2)))"
  by (rule failed_open [OF assms])

theorem failed_opening_frees_witness:
  "\<exists>db'. openRoom zero_digest hex_buffer second_server zero_source ''game-1''
       ((takeover_replies (Lobby (WaitingGame waiting_game)))\<lparr>or_second := None\<rparr>) (empty_database :: room_event database) = (Inl ApiUnavailable, db') \<and>
     (\<exists>new db2. acquire \<lparr>rp_ownerId = ''server-3'', rp_leaseDurationMs = 1000\<rparr> ''room-1'' ''game-1'' 1300 db' = Inr (new, db2))"
proof -
  let ?replies = "(takeover_replies (Lobby (WaitingGame waiting_game)))\<lparr>or_second := None\<rparr>"
  obtain db' :: "room_event database" where
    failed: "openRoom zero_digest hex_buffer second_server zero_source ''game-1'' ?replies empty_database = (Inl ApiUnavailable, db')"
    and changed: "db_leases db' ''room-1'' \<noteq> None"
    by (simp add: openRoom_def prepareRoom_def takeover_replies_def session_of_def withTransaction_def acquire_def release_def
        assertOwned_def matches_lease_def lease_of_def empty_database_def second_server_def Let_def)
  let ?other = "\<lparr>rp_ownerId = ''server-3'', rp_leaseDurationMs = 1000\<rparr>" and ?session = "session_of (Lobby (WaitingGame waiting_game))"
  have "db' \<noteq> empty_database" using changed by (auto simp: empty_database_def)
  moreover have "or_first ?replies = Some ?session" "or_releaseAt ?replies = 1300" "sb_roomId ?session = ''room-1''"
    "sb_gameId ?session = ''game-1''" by (simp_all add: takeover_replies_def session_of_def)
  ultimately have "\<exists>new db2. acquire ?other ''room-1'' ''game-1'' 1300 db' = Inr (new, db2)"
    using failed_opening_frees [OF failed, of ?other] by simp
  with failed show ?thesis by blast
qed

text \<open>C12. When a server is lost and its lease has run out, any server opens the room again, with exactly the state it last
  had in memory, provided that the API still knows the session.\<close>

theorem room_survives_restart:
  assumes "in_step storedAt lease h db" "rows_ok sha256 db" "room_sound buffer (rh_state h)"
    and "room_calls (server_options lease contracts sha256 hmac buffer checks hook throws) calls (h, db) = (h', db1)"
    and "db_leases db1 (ls_roomId lease) = Some current" "lr_leaseUntil current \<le> or_acquireAt replies"
    and "lr_gameId current = room_game_id (rh_state h')"
    and "or_first replies = Some first" "or_second replies = Some b" "or_markStarted replies"
    and "api_agrees first (ls_roomId lease) (rh_state h')" "api_agrees b (ls_roomId lease) (rh_state h')"
    and "or_acquireAt replies \<le> or_loadAt replies" "or_loadAt replies < or_acquireAt replies + rp_leaseDurationMs repo"
    and "\<And>row. db_checkpoints db1 (ls_roomId lease) = Some row \<Longrightarrow> isSafeInteger (ck_updatedAt row) \<and> 0 \<le> ck_updatedAt row"
  shows "\<exists>r db'. openRoom sha256 buffer repo fresh (room_game_id (rh_state h')) replies db1 = (Inr r, db') \<and>
    rh_state (od_handler r) = rh_state h' \<and> od_roomId r = ls_roomId lease"
  using reopened_room [OF _ server_rows [OF assms(2,4)] _ assms(5-15)] server.calls_keep [OF _ _ assms(4)] assms(1,3) by simp

theorem room_survives_restart_witness:
  "\<exists>r db'. openRoom zero_digest hex_buffer second_server zero_source ''game-1'' (takeover_replies (rh_state waiting_handler))
     (stored_tables (rh_state waiting_handler)) = (Inr r, db') \<and> rh_state (od_handler r) = Lobby (WaitingGame waiting_game)"
proof -
  let ?state = "rh_state waiting_handler"
  let ?current = "\<lparr>lr_gameId = ''game-1'', lr_instanceId = ''server-1'', lr_leaseUntil = 1000, lr_fencingToken = 1\<rparr>"
  have state: "serializeRoom ?state \<noteq> None" "lobby_or_game ?state" "room_game_id ?state = ''game-1''" "room_version ?state = 1"
    using waiting_saved waiting_ok by (simp_all add: serializeRoom_def waiting_handler_def) (simp_all add: waiting_game_def)
  have calls: "room_calls first_server [] (waiting_handler, stored_tables ?state) = (waiting_handler, stored_tables ?state)"
    by (simp add: room_calls_def)
  have agrees: "api_agrees (session_of ?state) ''room-1'' ?state"
    using state(3,4) by (simp add: api_agrees_def session_of_def waiting_handler_def)
  from room_survives_restart [OF stored_in_step [OF state(1) refl] stored_rows [OF state(2,1)] waiting_sound calls,
      of ?current "takeover_replies ?state" "session_of ?state" "session_of ?state" second_server zero_source] agrees state(3)
  show ?thesis
    by (auto simp: takeover_replies_def second_server_def stored_tables_def first_lease_def checkpoint_row_for_def
        isSafeInteger_def MAX_SAFE_INTEGER_def) (auto simp: waiting_handler_def)
qed

section \<open>Connections\<close>

text \<open>C17. A player never has two attached clients, and while one is attached the room counts as attended, provided that
  session identifiers are fresh and no reservation runs out while its client is joining.\<close>

theorem one_connection_each:
  assumes "all_proper config es (newRoom sha256 r db now)" "live = run_room config es (newRoom sha256 r db now)"
  shows "(attached live player s \<longrightarrow> attached live player s' \<longrightarrow> s = s') \<and> (attached live player s \<longrightarrow> hasAttachedClient live)"
proof -
  have "sessions_ok live" unfolding assms(2) by (rule sessions_run [OF sessions_new assms(1)])
  with attached_once attached_counts show ?thesis by blast
qed

theorem one_connection_each_witness:
  "hasAttachedClient (run_room live_first (joins ''s1'') waiting_room)"
proof -
  have "all_proper live_first (joins ''s1'') waiting_room"
    by (simp add: joins_def connects_def stations_def)
  from one_connection_each [OF this refl, of alice "''s1''"] alice_joined show ?thesis by blast
qed

text \<open>Without that proviso a player gets two attached clients: a reservation that runs out while its client waits for
  the API lets a second client in, and when the API answers both are attached.\<close>

theorem reservation_race:
  "let live = run_room live_first race waiting_room in attached live alice ''s1'' \<and> attached live alice ''s2''"
  by (rule race_attaches)

section \<open>Lifecycle commands\<close>

text \<open>C15. While a command to start, leave or cancel is carried out, nobody is being authenticated, and a client that asks to
  be is refused.\<close>

theorem lifecycle_gate:
  assumes "live = run_room config es (newRoom sha256 r db now)" "carried_out (lv_running live)"
  shows "lv_authentications live = [] \<and> lv_authenticationsInFlight live = 0 \<and>
    happens config (ClientAuthenticates session options) live = live"
proof -
  have gate: "gate_ok live" unfolding assms(1) by (rule gate_run [OF gate_new])
  with gate_carried [OF gate assms(2)] show ?thesis by (simp add: gate_ok_def beginAuthentication_def)
qed

theorem lifecycle_gate_witness:
  "happens live_first (ClientAuthenticates ''s2'' (Some ''game-1'')) (run_room live_first starts waiting_room) =
     run_room live_first starts waiting_room"
proof -
  have "lv_running (run_room live_first starts waiting_room) = Some (RunningCommand start_delivery AwaitHandler)"
    using start_running by (simp add: Let_def)
  then have "carried_out (lv_running (run_room live_first starts waiting_room))"
    by (simp add: lifecycle_delivery_def start_delivery_def)
  from lifecycle_gate [OF refl this] show ?thesis by blast
qed



section \<open>Events and the end of the game\<close>

text \<open>C14. Every event the room sends to its players is in the event log under its identifier, and no event is sent twice,
  however often commands are repeated and the API fails.\<close>

theorem published_once:
  "let live = run_room (live_config (od_lease r) contracts sha256 hmac buffer checks hook throws repo encode) es
      (newRoom sha256 r db now) in
   distinct (map ee_eventId (lv_broadcasts live)) \<and>
   map (\<lambda>event. db_events (lv_tables live) (ee_eventId event)) (lv_broadcasts live) =
     map (\<lambda>event. Some (ls_roomId (od_lease r), event)) (lv_broadcasts live)"
proof -
  have sent: "publishing_ok (ls_roomId (od_lease r)) (run_room (live_config (od_lease r) contracts sha256 hmac buffer checks hook
      throws repo encode) es (newRoom sha256 r db now))"
    by (rule publishing_run [OF publishing_new live_config_simps(1)])
  from published_logged(1) [OF sent] published_logged(2) [OF sent] show ?thesis by (simp add: Let_def)
qed

text \<open>C18. A finished game of a room that is not disposed, opened on soundly stored tables that no other server writes to,
  is settled, being settled, or about to be; and every request that
  went out names the stored version and the digest of the stored text, under one idempotency key.\<close>

theorem finished_game_settled:
  assumes "openRoom sha256 buffer repo fresh wanted replies db = (Inr r, db')"
    and "\<And>b. or_second replies = Some b \<Longrightarrow> SessionBootstrapResponseSchema b" "consistent_source fresh"
    and "\<And>doc version. storedAt db (od_lease r) = Some (doc, version) \<Longrightarrow> saved_soundly buffer doc version"
    and "live = run_room (live_config (od_lease r) contracts sha256 hmac buffer checks hook throws repo encode) es
      (newRoom sha256 r db' now)"
    and "rh_state (lv_handler live) = Playing (Finished f)" "\<not> lv_disposed live"
  shows "(lv_settlementInFlight live \<or> lv_settlementRetryTimer live \<or> lv_settled live) \<and>
    (\<exists>doc. storedAt (lv_tables live) (od_lease r) = Some (doc, gs_stateVersion f) \<and>
      (\<forall>request \<in> set (lv_settlements live). request =
         \<lparr>sr_roomId = lv_roomId live, sr_terminalStateVersion = gs_stateVersion f,
          sr_checkpointChecksum = hex_text (sha256 doc),
          sr_idempotencyKey = settlementIdempotencyKey sha256 (lv_gameId live) (lv_roomId live)\<rparr>))"
proof -
  note opened = opened_room [OF assms(1-4)]
  note live = live_new [OF opened(1-3)]
  have "settlement_ok sha256 live"
    unfolding assms(5) by (rule settlement_run [OF settlement_new live live_config_simps(1)])
  moreover have "live_ok buffer (od_lease r) live"
    unfolding assms(5) by (rule live_run [OF live live_config_simps(1)])
  ultimately show ?thesis
    using assms(6,7)
    by (auto simp: settlement_ok_def settling_def settlement_of_def is_finished_def live_ok_def in_step_def serializeRoom_def)
qed

theorem finished_game_settled_witness:
  "\<exists>f r db'. openRoom zero_digest hex_buffer second_server zero_source ''game-1'' (takeover_replies (Playing (Finished f)))
       (stored_tables (Playing (Finished f))) = (Inr r, db') \<and>
     (let live = run_room (live_config (od_lease r) open_contracts zero_digest zero_hmac hex_buffer open_checks False (\<lambda>_. False)
          second_server (\<lambda>_. join_request)) [] (newRoom zero_digest r db' 1150) in
      rh_state (lv_handler live) = Playing (Finished f) \<and>
      (lv_settlementInFlight live \<or> lv_settlementRetryTimer live \<or> lv_settled live))"
proof -
  obtain f where f: "room_sound hex_buffer (Playing (Finished f))" "serializeRoom (Playing (Finished f)) \<noteq> None" "gs_gameId f = ''game-1''"
    by (rule ended_game)
  obtain r db' where r: "openRoom zero_digest hex_buffer second_server zero_source ''game-1'' (takeover_replies (Playing (Finished f)))
      (stored_tables (Playing (Finished f))) = (Inr r, db')" "rh_state (od_handler r) = Playing (Finished f)"
    using stored_reopens [OF f(1,2)] f(3) by auto
  have schema: "SessionBootstrapResponseSchema b" if "or_second (takeover_replies (Playing (Finished f))) = Some b" for b
    using that by (auto simp: takeover_replies_def session_schema)
  have fresh: "consistent_source zero_source" by code_simp
  have state: "rh_state (lv_handler (run_room config [] (newRoom zero_digest r db' 1150))) = Playing (Finished f)"
    "\<not> lv_disposed (run_room config [] (newRoom zero_digest r db' 1150))" for config :: "room_body request room_config"
    using r(2) by (simp_all add: run_room_def)
  from finished_game_settled [OF r(1) schema fresh stored_soundly [OF f(1,2), of "od_lease r"] refl state,
      where contracts = open_contracts and hmac = zero_hmac and checks = open_checks and hook = False and throws = "\<lambda>_. False"
        and encode = "\<lambda>_. join_request"] r(1) state
  show ?thesis unfolding Let_def by blast
qed

section \<open>What players see\<close>

text \<open>C19. Every state a room can be in has a public view that meets the contract, with its version, and the view is the same
  whatever the random source: it gives nothing of it away.\<close>

theorem view_hides_randomness:
  assumes "lobby_or_game state" "serializeRoom state \<noteq> None" "validCheckpoint rng"
  shows "\<exists>v. toRoomPublicState state = Some v \<and> view_version v = room_version state \<and>
    toRoomPublicState (with_rng rng state) = Some v"
  using room_view_exists [OF assms(1,2)] view_ignores_rng [OF _ assms(1,3)] by blast

theorem view_hides_randomness_witness:
  "\<exists>v. toRoomPublicState (Playing (InProgress opening_state)) = Some v \<and> view_version v = 3 \<and>
     toRoomPublicState (Playing (InProgress (opening_state\<lparr>gs_rng := secure_cp\<rparr>))) = Some v"
proof -
  have valid: "lobby_or_game (Playing (InProgress opening_state))" using opening_inv by simp
  then have "serializeRoom (Playing (InProgress opening_state)) \<noteq> None"
    using gameplay_snapshot.saves_iff [of "InProgress opening_state"] by (auto simp: serializeRoom_def game_inv_def)
  moreover have "gs_stateVersion opening_state = 3" by code_simp
  ultimately show ?thesis using view_hides_randomness [OF valid _ secure_cp_ok(1)] by simp
qed

end
