(* ===== verification/Spec2Isabelle.thy ===== *)
theory Spec2Isabelle
  imports Ending_Properties Rule_Properties Chance_Properties Record_Properties Run_Properties Snapshot_Properties
    Room_Properties Live_Properties
begin

text \<open>
  The game core of pootown, a property-trading board game played over a network, and the game server around it: the
  TypeScript package \<open>src/packages/game-core/src\<close>, whose pure functions decide every command of a match, and the
  rooms, commands, timers, random source and persistence of \<open>src/apps/game-server/src\<close>, with the public states of
  \<open>src/packages/game-contracts/src\<close>.

  Parts and their interaction. A match begins in the lobby (\<open>rules/lifecycle.ts\<close>): commands create a game, let
  players join and leave, cancel or start it. The started game opens a gameplay aggregate
  (\<open>model/gameplay-aggregate-state.ts\<close>), and from then on every command goes through one router,
  \<open>transitionGameplay\<close>, which validates the aggregate and calls the handler of the command; the handlers call the
  rules (movement, property, building, jail, card, trade, bankruptcy, timeout, terminal) and answer a new aggregate with
  events or the old one with an error. A log of commands can be replayed (\<open>serialization/replay.ts\<close>).

  Theories and code. \<open>Pootown_Prelude\<close> has the JavaScript library functions used (array reads, index-aware maps,
  safe integers, exceptions) and their lemmas, \<open>Domain_Model\<close> the constants, money, identifiers, errors and players
  (\<open>rules/gameplay-policy.ts\<close>, \<open>model/money.ts\<close>, \<open>model/identifiers.ts\<close>,
  \<open>errors.ts\<close>). One theory per rule file: \<open>Board\<close> (\<open>rules/board-definition.ts\<close>),
  \<open>Property_Rules\<close>, \<open>Building_Rules\<close>, \<open>Movement\<close> (with
  \<open>rules/gameplay-random-support.ts\<close> and the port \<open>ports/random-source.ts\<close>), \<open>Jail_Rules\<close>,
  \<open>Card_Rules\<close>, \<open>Trade_Rules\<close>, \<open>Bankruptcy_Rules\<close>, \<open>Timeout_Rules\<close>,
  \<open>Terminal_Rules\<close>. \<open>Game_State\<close> and \<open>Aggregate_State\<close> are the two states with their validators.
  \<open>Gameplay_Protocol\<close> has the commands, events, contexts and the guard every handler begins with
  (\<open>commandGuard\<close>), and \<open>Gameplay_Turn\<close>, \<open>Gameplay_Property\<close>, \<open>Gameplay_Jail\<close>,
  \<open>Gameplay_Card\<close>, \<open>Gameplay_Trade\<close>, \<open>Gameplay_Bankruptcy\<close>, \<open>Gameplay_Timeout\<close> and
  \<open>Gameplay_Transition\<close> are the files \<open>rules/gameplay-*-transition.ts\<close> one by one. \<open>Lifecycle\<close> is the
  lobby and \<open>Replay\<close> the replay of both logs. Definitions keep the names of the code.

  Snapshots. \<open>Json\<close> is the text of JSON values as \<open>JSON.stringify\<close> prints and \<open>JSON.parse\<close> reads it,
  \<open>Json_Roundtrip\<close> that reading undoes printing. \<open>Snapshot_Codec\<close> has what
  \<open>serialization/snapshot.ts\<close> and \<open>serialization/gameplay-snapshot.ts\<close> share (the plain values, the readers of
  single fields, the canonical text, its FNV-1a checksum, the signed envelope), \<open>Lobby_Snapshot\<close> and
  \<open>Gameplay_Snapshot\<close> the two files. A reader that throws \<open>SnapshotError\<close> answers \<open>None\<close>.

  The server. A room holds the state of one match in memory and in the store. \<open>Room_State\<close> is that state, its text
  and the identifiers derived from digests. \<open>Secure_Random\<close> (\<open>random/secure-random-source.ts\<close>) is the random source
  behind the port of the core, and \<open>Random_Resume\<close> shows that the core only ever stores checkpoints of it.
  \<open>Room_Clock\<close> (\<open>timers/room-clock.ts\<close>) schedules the internal commands. \<open>Room_Store\<close>
  (\<open>persistence/room-lease.ts\<close>, \<open>checkpoint-repository.ts\<close>, \<open>presence-repository.ts\<close>, \<open>transaction.ts\<close>) and
  \<open>Command_Store\<close> (\<open>command-repository.ts\<close>) are the tables with their statements: each table is a map from its
  primary key, a transaction runs on a copy, and the row lock makes the transactions of one room serial. \<open>Room_Handler\<close>
  (\<open>commands/command-handler.ts\<close>, \<open>session-finalization.ts\<close>) parses a message, replays or runs it against the core
  and commits it; its promise queue makes every call one step of a function of handler, store and time.
  \<open>Store_Laws\<close>, \<open>Store_Run\<close>, \<open>Room_Run\<close> and \<open>Snapshot_Size\<close> hold what these keep, \<open>Room_Scenario\<close> concrete
  data, \<open>Room_Properties\<close> the properties.

  Live rooms. \<open>Public_Contract\<close> has the public states with their schemas (\<open>state/game-state.ts\<close>,
  \<open>state/gameplay-state.ts\<close>, \<open>primitives.ts\<close> of the contracts) and \<open>Public_View\<close> how a room makes them
  (\<open>rooms/game-room-state.ts\<close>); \<open>Public_View_Laws\<close> and \<open>Public_Game_Laws\<close> show that every state a room can be in has
  one. \<open>Room_Opening\<close> is the answer of the API to a bootstrap request, the first lobby (\<open>rooms/bootstrap-state.ts\<close>) and
  \<open>onCreate\<close>. \<open>Game_Room\<close> is the rest of \<open>rooms/game-room.ts\<close> with \<open>auth/ticket-auth.ts\<close>: authentication,
  reservations, joining and leaving, the delivery queue, the gates around starts and finalizations, the answers of the
  API, publication, lease loss, settlement and disposal. Its methods are asynchronous, so each stretch of code between two
  awaits is one function on the room, and \<open>happens\<close> runs the stretch that an event of the environment lets continue: the
  sequence of events is the interleaving. \<open>Room_Gate\<close>, \<open>Room_Sessions\<close>, \<open>Event_Log\<close>, \<open>Room_Live\<close> and
  \<open>Room_Publishing\<close> prove what every event keeps: the gate around lifecycle commands, one connection per player, the log
  of events, a view and a store in step with memory, settlement, and every event published once. \<open>Live_Scenario\<close> has
  concrete rooms, \<open>Live_Properties\<close> the properties.

  Interfaces. \<open>gameplay_handler\<close>, \<open>sound_handler\<close>, \<open>steady_handler\<close> and \<open>turn_taking\<close> are the
  contracts of a command handler (it never throws, rejects without effect, accepts only what the guard lets through,
  counts the version, keeps the aggregate valid, leaves roster and trades alone, passes the turn clockwise),
  and \<open>clocked_handler\<close> is what it does to the clock of the turn; every handler and the router is interpreted in them. The rules have contracts of their own: what a jail action, a building action or
  a trade operation keeps. The readers of the snapshots are interpreted in \<open>codec\<close> or \<open>present_codec\<close> (reading
  gives back what was written, exactly when the value is well-formed) and both files in \<open>snapshot_format\<close>.
  \<open>fenced_store\<close> is what the command handler needs of the store (a commit fails without effect, answers again or stores
  state and answer together; an answer stays), interpreted by the repository; \<open>room_server\<close> extends it by the handler
  that uses it, and proves what the calls of a room keep; \<open>tracked_source\<close> is what the core keeps of any random source
  whose cursors have an invariant, interpreted by the server's source.

  What the lemmas show. The theories of the rules prove each rule's effect on every branch and what it keeps of the board,
  the stock and the players; those of the handlers that the aggregate stays valid and what happens to the money.
  \<open>Game_Invariant\<close> joins them into the invariant \<open>game_inv\<close>: the validator of the code, open trades between
  active players only, at least two active players, every one of them below the third miss. \<open>Liveness\<close> and
  \<open>Endgame\<close> show which commands are always available, \<open>Effects\<close> what the endings do, \<open>Turn_Protocol\<close>
  that the game refines an abstract protocol of turns, \<open>Turn_Clock\<close> what a command does to the clock of a turn,
  \<open>Building_Roundtrip\<close> that selling undoes building. The properties, each with a concrete instance on the positions of \<open>Scenario\<close>, are in this theory,
  \<open>Ending_Properties\<close>, \<open>Rule_Properties\<close>, \<open>Chance_Properties\<close>, \<open>Record_Properties\<close>,
  \<open>Run_Properties\<close>, \<open>Snapshot_Properties\<close> and, for the server, \<open>Room_Properties\<close>: whatever reaches a room, it stays
  well formed and in step with what is stored, answers each command once, and survives the loss of its server; the clock
  schedules what the game accepts. \<open>Live_Properties\<close> adds what players see of a room: its view is what is stored, events
  arrive once, a lifecycle command shuts the door while it lasts, a finished game is settled; and two ways in which it goes
  wrong, a start that fails in the handler and a reservation that runs out during a join.

  Bounds and fuel. The rejection sampling of dice and cards has the bounds of the code, 256 and 32 draws, as fuel of
  \<open>drawDieLoop\<close> and \<open>drawCardLoop\<close>: running out is the code's own answer, not a limit of the model. The reader of
  JSON values has twice the length of the text as fuel, which \<open>parse_fuel\<close> shows to be enough. Every other loop is
  structural or has a termination proof. Cash is an unbounded integer as the code's \<open>bigint\<close>, with the checks against 78 digits written
  out; numbers are integers with the checks against the safe range written out.

  Parameters. The random source is a record of functions over a cursor (\<open>random_source\<close>), arbitrary in every theorem;
  it may throw or answer malformed bytes. Time is an argument of every command. On the server, the digests of
  \<open>node:crypto\<close>, the conversions of \<open>Buffer\<close> (with the law \<open>buffer_laws\<close> where it is needed) and the schemas of the
  messages in \<open>packages/game-contracts\<close> (what they parse and accept) are parameters, and so are the answers of the API
  to a live room, which come with its events.

  Not modelled. Error messages (the codes are); freezing, copying and the runtime tests of shapes that hold by typing;
  the texts of snapshots are sequences of code units below 256, and \<open>localeCompare\<close> is that of keys of ASCII letters
  and digits, the only keys a snapshot has. Rows of the store are typed, so the checks of their JSON shape are not
  written out; request identifiers are compared as text, as the database does up to letter case; a transaction whose
  \<open>COMMIT\<close> fails has had no effect. Of the live rooms, the metrics, the hook for crash tests, the private view (which repeats identifiers of
  the client) and the JSON text of the public view are left out; locking and disconnecting are flags, as the Colyseus
  library does them; and the transactions of other servers are not interleaved with a live room (\<open>Room_Properties\<close>
  has them for the store and the handler). Of the server, the API client, configuration, metrics and health are not
  modelled; outside it, the NestJS service (\<open>apps/api\<close>), the web client (\<open>apps/web\<close>) and the schemas of the messages in
  \<open>packages/game-contracts\<close> are not: asynchronous input and output around third-party libraries.
\<close>

section \<open>Properties of the game as a whole\<close>

text \<open>C1. Every accepted command leads from a good state to a good state, except exactly one: accepting a trade
  that hands the property on which rent is due to the player who owes the rent.\<close>

theorem command_keeps_invariant:
  assumes "game_inv s" "transitionGameplay (InProgress s) command ctx = Accepted t ev"
  shows "aggregate_inv t \<longleftrightarrow> \<not> sells_pending_rent s command t"
  using assms(2) by (auto elim!: transitionGameplay_Accepted dest: routeCommand_invariant [OF _ assms(1)])

theorem command_keeps_invariant_witness:
  "\<exists>t ev. transitionGameplay (InProgress opening_state) (versioned 3 (TurnCommand RollDice)) (player_at 100 alice) =
       Accepted t ev \<and> aggregate_inv t"
proof -
  have "accepted (transitionGameplay (InProgress opening_state) (versioned 3 (TurnCommand RollDice)) (player_at 100 alice))"
    by code_simp
  then obtain t ev where t: "transitionGameplay (InProgress opening_state) (versioned 3 (TurnCommand RollDice))
      (player_at 100 alice) = Accepted t ev" by (rule acceptedE)
  from command_keeps_invariant [OF opening_inv t] t show ?thesis
    by (auto simp: sells_pending_rent_def versioned_def)
qed

text \<open>C2. A game from its first lobby command on: the lobby's log starts a game that opens, and from the opening
  every replayable log of gameplay commands ends in a state that satisfies the invariant, or in one that the
  validator itself refuses; the version counts the commands of both logs.\<close>

theorem whole_game:
  assumes "replay None lobby = Replayed (InProgressGame g) lobbyEvents"
    and "\<forall>(command, ctx) \<in> set lobby. branded command ctx"
    and "initializeGameplayAggregate g = Some s"
    and "replayGameplay (InProgress s) log = Replayed t ev"
  shows "game_inv s \<and> (aggregate_inv t \<or> \<not> isValidAggregate t) \<and>
    aggregate_version t = int (length lobby) + int (length log)"
proof -
  from replayFrom_invariant [OF assms(1) [unfolded replay_def] assms(2)]
  have ok: "started_ok g" "gm_stateVersion g = int (length lobby)" by simp_all
  from started_opens [OF ok(1)] assms(3) have inv: "game_inv s" by auto
  from assms(3) have v: "gs_stateVersion s = gm_stateVersion g"
    by (auto simp: initializeGameplayAggregate_def split: if_splits)
  from assms(4) have "game_run (InProgress s) log t" by (rule replayGameplay_run)
  with run_invariant [OF this] run_version [OF this] inv ok(2) v show ?thesis by simp
qed

theorem whole_game_witness:
  "game_inv opening_state \<and> aggregate_inv (InProgress rent_state) \<and> aggregate_version (InProgress rent_state) = 8"
  using whole_game [OF lobby_replay lobby_branded opening_init log_to_rent] rent_inv
  by (simp add: game_inv_def lobby_log_def game_log_def)

text \<open>C3. After the trade that C1 excepts the validator refuses the state, so every further command is rejected
  as \<open>INVALID_STATE\<close>: the game can neither go on nor end. The witness is a position a game reaches from its
  opening with five ordinary commands.\<close>

theorem rent_trade_blocks_game:
  assumes "game_inv s" "transitionGameplay (InProgress s) command ctx = Accepted t ev" "sells_pending_rent s command t"
  shows "transitionGameplay t command' ctx' = Rejected t \<lparr>errorCode = INVALID_STATE, retryable = False\<rparr>"
proof -
  from assms have "\<not> isValidAggregate t" by (auto elim!: transitionGameplay_Accepted dest: routeCommand_poisons)
  then show ?thesis by (cases t) (simp_all add: transitionGameplay_def)
qed

theorem rent_trade_blocks_game_witness:
  "\<exists>t ev. transitionGameplay (InProgress rent_state) (versioned 8 (TradeCommand (AcceptTrade ''trade-1'')))
       (player_at 600 bob) = Accepted t ev \<and>
     transitionGameplay t (versioned 9 (PropertyCommand (PayRent 3))) (player_at 700 bob) =
       Rejected t \<lparr>errorCode = INVALID_STATE, retryable = False\<rparr>"
proof -
  let ?c = "versioned 8 (TradeCommand (AcceptTrade ''trade-1''))"
  have "accepted (transitionGameplay (InProgress rent_state) ?c (player_at 600 bob))" by code_simp
  then obtain t ev where t: "transitionGameplay (InProgress rent_state) ?c (player_at 600 bob) = Accepted t ev"
    by (rule acceptedE)
  have "case transitionGameplay (InProgress rent_state) ?c (player_at 600 bob) of
      Accepted t ev \<Rightarrow> sells_rent_to_debtor rent_state t | _ \<Rightarrow> False" by code_simp
  with t have "sells_pending_rent rent_state ?c t" by (simp add: sells_pending_rent_def versioned_def)
  from rent_trade_blocks_game [OF rent_inv t this] t show ?thesis by blast
qed

text \<open>C4. The router is total: on any aggregate, any command and any random source it either accepts the command or
  rejects it with the aggregate it was given; no exception escapes.\<close>

theorem command_total:
  "(\<exists>t ev. transitionGameplay a command ctx = Accepted t ev) \<or> (\<exists>err. transitionGameplay a command ctx = Rejected a err)"
  using transitionGameplay_never_throws [of a command ctx] transitionGameplay_rejects_unchanged [of a command ctx]
  by (cases "transitionGameplay a command ctx") auto

text \<open>C5. Optimistic concurrency: a command is accepted only at the version it expects, it advances the version by one,
  and no command that expects the same version is accepted afterwards.\<close>

theorem accepted_once:
  assumes "transitionGameplay a command ctx = Accepted t ev"
  shows "expectedStateVersion command = aggregate_version a \<and> aggregate_version t = aggregate_version a + 1 \<and>
    (\<forall>command' ctx' u ev'. expectedStateVersion command' = expectedStateVersion command \<longrightarrow>
       transitionGameplay t command' ctx' \<noteq> Accepted u ev')"
proof -
  from assms obtain s where s: "a = InProgress s" by (rule transitionGameplay_Accepted)
  note at = router.accepts_only_expected [OF assms [unfolded s]] and bump = router.bumps_version [OF assms [unfolded s]]
  have "transitionGameplay t command' ctx' \<noteq> Accepted u ev'"
    if "expectedStateVersion command' = expectedStateVersion command"
    for command' and ctx' :: "'b gameplay_context" and u ev'
  proof
    assume b: "transitionGameplay t command' ctx' = Accepted u ev'"
    then obtain s' where s': "t = InProgress s'" by (rule transitionGameplay_Accepted)
    from router.accepts_only_expected [OF b [unfolded s']] that at bump s' show False by simp
  qed
  with at bump s show ?thesis by simp
qed

theorem accepted_once_witness:
  "\<exists>t ev. transitionGameplay (InProgress opening_state) (versioned 3 (TurnCommand RollDice)) (player_at 100 alice) =
       Accepted t ev \<and> aggregate_version t = 4 \<and>
     transitionGameplay t (versioned 3 (TurnCommand RollDice)) (player_at 100 alice) \<noteq> Accepted t ev"
proof -
  let ?c = "versioned 3 (TurnCommand RollDice)"
  have "accepted (transitionGameplay (InProgress opening_state) ?c (player_at 100 alice))" by code_simp
  then obtain t ev where t: "transitionGameplay (InProgress opening_state) ?c (player_at 100 alice) = Accepted t ev"
    by (rule acceptedE)
  have "aggregate_version (InProgress opening_state) = 3" by code_simp
  with accepted_once [OF t] t show ?thesis by auto
qed

text \<open>C6. A well-formed command at any other version is rejected as stale, and only that rejection invites a retry.\<close>

theorem stale_version_rejected:
  assumes "game_inv s" "validContext ctx" "turnStartedAtMs (as_turn s) \<le> nowMs ctx"
    and "0 \<le> expectedStateVersion command" "expectedStateVersion command \<noteq> gs_stateVersion s"
    and "\<forall>c. body command = PropertyCommand c \<longrightarrow> validPropertyCommand c" "\<forall>k. body command \<noteq> UnsupportedCommand k"
  shows "transitionGameplay (InProgress s) command ctx =
    Rejected (InProgress s) \<lparr>errorCode = STALE_STATE_VERSION, retryable = True\<rparr>"
proof -
  have valid: "isValidActiveGameplayAggregateState s" using assms(1) by (simp add: game_inv_def)
  have guard: "commandGuard s True (expectedStateVersion command) (nowMs ctx) =
      Some \<lparr>errorCode = STALE_STATE_VERSION, retryable = True\<rparr>" and now: "safeEpoch (nowMs ctx)"
    using valid assms(2-5) by (auto simp: commandGuard_def validContext_def safeEpoch_def)
  show ?thesis
    using valid assms(2,6,7) guard now
    by (cases "body command")
      (auto simp: transitionGameplay_def routeCommand_def Let_def transitionGameplayTurn_def transitionGameplayProperty_def
        transitionGameplayJail_def transitionGameplayCard_def transitionGameplayBankruptcy_def transitionGameplayTrade_def
        transitionGameplayTimeout_def)
qed

theorem stale_version_rejected_witness:
  "transitionGameplay (InProgress opening_state) (versioned 2 (TurnCommand RollDice)) (player_at 100 alice) =
     Rejected (InProgress opening_state) \<lparr>errorCode = STALE_STATE_VERSION, retryable = True\<rparr>"
proof (rule stale_version_rejected [OF opening_inv])
  show "validContext (player_at 100 alice)" by code_simp
  show "turnStartedAtMs (as_turn opening_state) \<le> nowMs (player_at 100 alice)" by code_simp
  show "expectedStateVersion (versioned 2 (TurnCommand RollDice)) \<noteq> gs_stateVersion opening_state" by code_simp
qed (simp_all add: versioned_def)

text \<open>C7. Money is neither made nor lost behind the events: an accepted command changes the money of players, bank and
  pool by what its events account for, except for the jail write-off.\<close>

theorem money_accounted:
  assumes "transitionGameplay (InProgress s) command ctx = Accepted t ev"
  shows "aggregate_money t = moneySupply s + expectedCashDelta s ev \<or> jail_write_off s ev t"
  using assms by (auto elim!: transitionGameplay_Accepted dest: routeCommand_money)

theorem money_accounted_witness:
  "\<exists>t ev. transitionGameplay (InProgress rent_state) (versioned 8 (PropertyCommand (PayRent 3))) (player_at 600 bob) =
       Accepted t ev \<and> aggregate_money t = moneySupply rent_state"
proof -
  let ?r = "transitionGameplay (InProgress rent_state) (versioned 8 (PropertyCommand (PayRent 3))) (player_at 600 bob)"
  have "accepted ?r" by code_simp
  then obtain t ev where t: "?r = Accepted t ev" by (rule acceptedE)
  have "case ?r of Accepted t ev \<Rightarrow> ev = [RentPaid bob alice 3 4] | _ \<Rightarrow> False" by code_simp
  with t have ev: "ev = [RentPaid bob alice 3 4]" by simp
  then have "\<not> jail_write_off rent_state ev t" "expectedCashDelta rent_state ev = 0"
    by (auto simp: jail_write_off_def jailed_insolvent_def expectedCashDelta_def)
  with money_accounted [OF t] t show ?thesis by auto
qed

end
